(* ===== verification/Prelude.thy ===== *)
theory Prelude
  imports Main "HOL-Library.Char_ord" "HOL-Library.List_Lexorder" "HOL-Library.Sublist"
    "HOL-Library.Code_Target_Nat"
begin

text \<open>
  What every component shares: the machine integers of the program written out on
  \<^typ>\<open>nat\<close> (saturating and checked operations at their width), the fragment of Rust's
  \<open>str\<close> the sources use (splitting, joining, decimal numbers, UTF-8, ASCII classes), and the
  interface of a textual codec with its laws. A Rust \<open>String\<close> or \<open>&str\<close> is a
  \<^typ>\<open>string\<close> whose characters are the bytes of its UTF-8 encoding, so \<^const>\<open>length\<close> is Rust's
  \<open>len()\<close>. A panic of the source is \<^const>\<open>None\<close>.
\<close>

named_theorems codec_simps \<open>evaluation of the encoders, the decoders and the text they exchange\<close>

section \<open>Machine integers\<close>

type_synonym u8 = nat
type_synonym u32 = nat
type_synonym u64 = nat

definition u8_max :: nat where "u8_max = 255"
definition u32_max :: nat where "u32_max = 4294967295"
definition u64_max :: nat where "u64_max = 18446744073709551615"

definition sat_add :: "u64 \<Rightarrow> u64 \<Rightarrow> u64" where
  "sat_add a b = min (a + b) u64_max"

definition sat_mul :: "u64 \<Rightarrow> u64 \<Rightarrow> u64" where
  "sat_mul a b = min (a * b) u64_max"

text \<open>\<open>saturating_sub\<close> is the truncating subtraction of \<^typ>\<open>nat\<close>; it is named so that the
  model reads like the source.\<close>

definition sat_sub :: "u64 \<Rightarrow> u64 \<Rightarrow> u64" where
  "sat_sub a b = a - b"

definition checked_add :: "u64 \<Rightarrow> u64 \<Rightarrow> u64 option" where
  "checked_add a b = (if a + b \<le> u64_max then Some (a + b) else None)"

definition checked_sub :: "u64 \<Rightarrow> u64 \<Rightarrow> u64 option" where
  "checked_sub a b = (if b \<le> a then Some (a - b) else None)"

definition abs_diff :: "u64 \<Rightarrow> u64 \<Rightarrow> u64" where
  "abs_diff a b = (if a < b then b - a else a - b)"

lemma checked_add_Some [simp]:
  "checked_add a b = Some c \<longleftrightarrow> c = a + b \<and> a + b \<le> u64_max"
  by (auto simp: checked_add_def)

lemma checked_add_None [simp]: "checked_add a b = None \<longleftrightarrow> u64_max < a + b"
  by (auto simp: checked_add_def)

lemma checked_sub_Some [simp]: "checked_sub a b = Some c \<longleftrightarrow> b \<le> a \<and> c = a - b"
  by (auto simp: checked_sub_def)

lemma checked_sub_None [simp]: "checked_sub a b = None \<longleftrightarrow> a < b"
  by (auto simp: checked_sub_def)

lemma sat_add_mono: "a \<le> b \<Longrightarrow> sat_add a c \<le> sat_add b c"
  by (auto simp: sat_add_def)

lemma sat_mul_mono: "a \<le> b \<Longrightarrow> sat_mul a c \<le> sat_mul b c"
  unfolding sat_mul_def by (intro min.mono mult_le_mono) simp_all

section \<open>Options\<close>

lemma bind_Some_iff: "Option.bind m f = Some y \<longleftrightarrow> (\<exists>x. m = Some x \<and> f x = Some y)"
  by (cases m) auto

text \<open>The \<open>?\<close> operator.\<close>

definition sum_bind :: "'e + 'a \<Rightarrow> ('a \<Rightarrow> 'e + 'b) \<Rightarrow> 'e + 'b" where
  "sum_bind m f = (case m of Inl e \<Rightarrow> Inl e | Inr x \<Rightarrow> f x)"

lemma sum_bind_simps [simp]: "sum_bind (Inl e) f = Inl e" "sum_bind (Inr x) f = f x"
  by (simp_all add: sum_bind_def)

text \<open>\<open>collect\<close> into a \<open>Result\<close>: the first error, or all the values.\<close>

fun collect_results :: "('e + 'a) list \<Rightarrow> 'e + 'a list" where
  "collect_results [] = Inr []"
| "collect_results (r # rs) = sum_bind r (\<lambda>x. map_sum id ((#) x) (collect_results rs))"

lemma sum_bind_Inr: "sum_bind m f = Inr y \<longleftrightarrow> (\<exists>x. m = Inr x \<and> f x = Inr y)"
  by (cases m) auto

text \<open>Rust's \<open>is_some_and\<close> and \<open>is_none_or\<close>.\<close>

definition is_some_and :: "'a option \<Rightarrow> ('a \<Rightarrow> bool) \<Rightarrow> bool" where
  "is_some_and m p = (case m of None \<Rightarrow> False | Some x \<Rightarrow> p x)"

definition is_none_or :: "'a option \<Rightarrow> ('a \<Rightarrow> bool) \<Rightarrow> bool" where
  "is_none_or m p = (case m of None \<Rightarrow> True | Some x \<Rightarrow> p x)"

definition option_filter :: "('a \<Rightarrow> bool) \<Rightarrow> 'a option \<Rightarrow> 'a option" where
  "option_filter p m = (case m of None \<Rightarrow> None | Some x \<Rightarrow> if p x then Some x else None)"

lemma is_some_and_simps [simp]:
  "is_some_and None p = False" "is_some_and (Some x) p = p x"
  by (simp_all add: is_some_and_def)

lemma is_none_or_simps [simp]:
  "is_none_or None p = True" "is_none_or (Some x) p = p x"
  by (simp_all add: is_none_or_def)

lemma option_filter_simps [simp]:
  "option_filter p None = None"
  "option_filter p (Some x) = (if p x then Some x else None)"
  by (simp_all add: option_filter_def)

lemma option_filter_Some: "option_filter p m = Some x \<longleftrightarrow> m = Some x \<and> p x"
  by (cases m) auto

lemma is_some_and_iff: "is_some_and m p \<longleftrightarrow> (\<exists>x. m = Some x \<and> p x)"
  by (cases m) auto

lemma is_none_or_iff: "is_none_or m p \<longleftrightarrow> (\<forall>x. m = Some x \<longrightarrow> p x)"
  by (cases m) auto

section \<open>ASCII classes\<close>

definition byte :: "char \<Rightarrow> nat" where
  "byte c = of_char c"

definition is_digit :: "char \<Rightarrow> bool" where
  "is_digit c = (48 \<le> byte c \<and> byte c \<le> 57)"

definition is_lower :: "char \<Rightarrow> bool" where
  "is_lower c = (97 \<le> byte c \<and> byte c \<le> 122)"

definition is_upper :: "char \<Rightarrow> bool" where
  "is_upper c = (65 \<le> byte c \<and> byte c \<le> 90)"

definition is_alnum :: "char \<Rightarrow> bool" where
  "is_alnum c = (is_digit c \<or> is_lower c \<or> is_upper c)"

text \<open>\<open>u8::is_ascii_whitespace\<close>: tab, line feed, form feed, carriage return, space.\<close>

definition is_ascii_ws :: "char \<Rightarrow> bool" where
  "is_ascii_ws c = (byte c \<in> {9, 10, 12, 13, 32})"

definition is_ascii_control :: "char \<Rightarrow> bool" where
  "is_ascii_control c = (byte c < 32 \<or> byte c = 127)"

lemma byte_less [simp]: "byte c < 256"
  by (simp add: byte_def nat_of_char_less_256)

lemma byte_inject: "byte c = byte d \<longleftrightarrow> c = d"
  unfolding byte_def by simp

section \<open>Machines\<close>

text \<open>
  The contract a stateful component offers its clients: an initial state, operations that answer a
  state or panic, and an invariant every operation keeps. A run executes a list of operations; the
  invariant then holds after every run. A counted machine also bounds how far one operation moves a
  counter and does not panic below a bound, so no run shorter than the bound panics.
\<close>

fun run_ops :: "('op \<Rightarrow> 's \<Rightarrow> 's option) \<Rightarrow> 'op list \<Rightarrow> 's \<Rightarrow> 's option" where
  "run_ops exec [] s = Some s"
| "run_ops exec (c # cs) s = Option.bind (exec c s) (run_ops exec cs)"

locale machine =
  fixes init :: 's
    and exec :: "'op \<Rightarrow> 's \<Rightarrow> 's option"
    and inv :: "'s \<Rightarrow> bool"
  assumes inv_init: "inv init"
    and inv_exec: "inv s \<Longrightarrow> exec c s = Some s' \<Longrightarrow> inv s'"
begin

lemma inv_run_from: "inv s \<Longrightarrow> run_ops exec cs s = Some s' \<Longrightarrow> inv s'"
  by (induction cs arbitrary: s) (auto simp: bind_Some_iff intro: inv_exec)

lemma inv_run: "run_ops exec cs init = Some s \<Longrightarrow> inv s"
  using inv_run_from inv_init by blast

end

locale counted_machine = machine +
  fixes count :: "'s \<Rightarrow> nat" and bound :: nat
  assumes count_init: "count init = 0"
    and exec_total: "inv s \<Longrightarrow> count s < bound \<Longrightarrow> \<exists>s'. exec c s = Some s' \<and> count s' \<le> Suc (count s)"
begin

lemma run_total_from:
  "inv s \<Longrightarrow> count s + length cs \<le> bound \<Longrightarrow> \<exists>s'. run_ops exec cs s = Some s'"
proof (induction cs arbitrary: s)
  case Nil
  then show ?case by simp
next
  case (Cons c cs)
  then obtain s1 where s1: "exec c s = Some s1" "count s1 \<le> Suc (count s)"
    using exec_total [of s c] by auto
  with Cons.prems inv_exec have "inv s1" "count s1 + length cs \<le> bound" by auto
  with Cons.IH s1 show ?case by simp
qed

lemma run_total: "length cs \<le> bound \<Longrightarrow> \<exists>s. run_ops exec cs init = Some s"
  using run_total_from inv_init count_init by simp

end

end
