(* ===== verification/Core_Types.thy ===== *)
theory Core_Types
  imports Rust_Text
begin

text \<open>
  The vocabulary of the detection core: the closed agent state and its token grammar
  (\<open>state.rs\<close>), evidence, its sources and the coarser provenance (\<open>evidence.rs\<close>), process
  identity and the copy-mode test (\<open>snapshot.rs\<close>), and the ordered-input "seen" test
  (\<open>seen.rs\<close>). Every instant is epoch milliseconds and injected.
\<close>

section \<open>Agent state\<close>

datatype agent_state = Idle | Working | Blocked | Unknown

datatype grammar_error =
    UnknownState string
  | UnknownProvenance string
  | BadInteger string string

fun state_token :: "agent_state \<Rightarrow> string" where
  "state_token Idle = ''idle''"
| "state_token Working = ''working''"
| "state_token Blocked = ''blocked''"
| "state_token Unknown = ''unknown''"

definition state_from_str :: "string \<Rightarrow> grammar_error + agent_state" where
  "state_from_str s =
     (if s = ''idle'' then Inr Idle
      else if s = ''working'' then Inr Working
      else if s = ''blocked'' then Inr Blocked
      else if s = ''unknown'' then Inr Unknown
      else Inl (UnknownState s))"

text \<open>\<open>Detail\<close> is an open newtype over its token.\<close>

type_synonym detail = string

section \<open>Evidence\<close>

datatype source = ProgramStatusSource | HookEvent | ScreenRule | Title

datatype provenance = Hook | Capture | Activity | Process

fun source_provenance :: "source \<Rightarrow> provenance" where
  "source_provenance HookEvent = Hook"
| "source_provenance ProgramStatusSource = Hook"
| "source_provenance ScreenRule = Capture"
| "source_provenance Title = Capture"

fun provenance_token :: "provenance \<Rightarrow> string" where
  "provenance_token Hook = ''hook''"
| "provenance_token Capture = ''capture''"
| "provenance_token Activity = ''activity''"
| "provenance_token Process = ''process''"

definition provenance_from_str :: "string \<Rightarrow> grammar_error + provenance" where
  "provenance_from_str s =
     (if s = ''hook'' then Inr Hook
      else if s = ''capture'' then Inr Capture
      else if s = ''activity'' then Inr Activity
      else if s = ''process'' then Inr Process
      else Inl (UnknownProvenance s))"

record state_claim =
  sc_state :: agent_state
  sc_detail :: "detail option"

datatype lifecycle = LStart | LEnd

datatype claim = StateClaim state_claim | LifecycleClaim lifecycle

text \<open>The manifest's claim table after TOML decoding: three optional fields, of which exactly one
  of the two shapes is accepted.\<close>

datatype claim_error = DetailOnLifecycle | BothStateAndLifecycle | EmptyClaim

definition claim_from_raw ::
  "agent_state option \<Rightarrow> detail option \<Rightarrow> lifecycle option \<Rightarrow> claim_error + claim" where
  "claim_from_raw st dt lc =
     (case (st, lc) of
        (Some s, None) \<Rightarrow> Inr (StateClaim \<lparr>sc_state = s, sc_detail = dt\<rparr>)
      | (None, Some l) \<Rightarrow> if dt \<noteq> None then Inl DetailOnLifecycle else Inr (LifecycleClaim l)
      | (Some _, Some _) \<Rightarrow> Inl BothStateAndLifecycle
      | (None, None) \<Rightarrow> Inl EmptyClaim)"

record evidence =
  ev_source :: source
  ev_claim :: claim
  ev_at :: u64
  ev_meta :: string

section \<open>Processes and the viewport\<close>

datatype process_birth = LinuxStartTicks u64 | MacOsStart u64 u32

record process_identity =
  pi_pid :: u32
  pi_birth :: process_birth

record proc_info =
  proc_pid :: u32
  proc_ppid :: u32
  proc_pgid :: u32
  proc_tpgid :: "u32 option"
  proc_comm :: string

record process_sample =
  ps_info :: proc_info
  ps_birth :: process_birth

definition process_sample_identity :: "process_sample \<Rightarrow> process_identity" where
  "process_sample_identity p = \<lparr>pi_pid = proc_pid (ps_info p), pi_birth = ps_birth p\<rparr>"

record pane_snapshot =
  snap_pane_id :: string
  snap_pid_tree :: "proc_info list"
  snap_title :: string
  snap_tail_text :: string
  snap_tail_hash :: u64
  snap_alternate_on :: bool
  snap_scroll_position :: "u32 option"
  snap_visible_height :: "u32 option"
  snap_captured_at :: u64

definition snap_scrolled :: "pane_snapshot \<Rightarrow> bool" where
  "snap_scrolled s = (case snap_scroll_position s of Some n \<Rightarrow> 0 < n | None \<Rightarrow> False)"

section \<open>The ordered-input seen test\<close>

record client_view =
  cv_pane_id :: string
  cv_activity_secs :: u64
  cv_control_mode :: bool

definition seen_by_input :: "client_view list \<Rightarrow> string \<Rightarrow> u64 \<Rightarrow> bool" where
  "seen_by_input clients pane raised_at =
     list_ex (\<lambda>c. \<not> cv_control_mode c \<and> cv_pane_id c = pane
                  \<and> sat_mul (cv_activity_secs c) 1000 > raised_at) clients"

section \<open>Lemmas\<close>

lemma state_from_str_token [simp]: "state_from_str (state_token st) = Inr st"
  by (cases st) (simp_all add: state_from_str_def)

lemma state_from_str_Inr: "state_from_str s = Inr st \<longleftrightarrow> s = state_token st"
  by (cases st) (auto simp: state_from_str_def split: if_splits)

lemma state_token_inject [simp]: "state_token a = state_token b \<longleftrightarrow> a = b"
  by (cases a; cases b) simp_all

lemma provenance_from_str_token [simp]: "provenance_from_str (provenance_token p) = Inr p"
  by (cases p) (simp_all add: provenance_from_str_def)

lemma provenance_from_str_Inr: "provenance_from_str s = Inr p \<longleftrightarrow> s = provenance_token p"
  by (cases p) (auto simp: provenance_from_str_def split: if_splits)

lemma provenance_token_inject [simp]: "provenance_token a = provenance_token b \<longleftrightarrow> a = b"
  by (cases a; cases b) simp_all

text \<open>The two token grammars are codecs.\<close>

definition ok :: "'e + 'a \<Rightarrow> 'a option" where
  "ok r = (case r of Inl _ \<Rightarrow> None | Inr x \<Rightarrow> Some x)"

lemma ok_simps [simp]: "ok (Inl e) = None" "ok (Inr x) = Some x"
  by (simp_all add: ok_def)

lemma ok_Some_iff: "ok r = Some x \<longleftrightarrow> r = Inr x"
  by (cases r) auto

interpretation state_codec: codec state_token "\<lambda>s. ok (state_from_str s)" "\<lambda>_. True"
  by unfold_locales (auto simp: ok_Some_iff state_from_str_Inr)

interpretation provenance_codec:
  codec provenance_token "\<lambda>s. ok (provenance_from_str s)" "\<lambda>_. True"
  by unfold_locales (auto simp: ok_Some_iff provenance_from_str_Inr)

lemma seen_by_input_append:
  "seen_by_input (xs @ ys) p t \<longleftrightarrow> seen_by_input xs p t \<or> seen_by_input ys p t"
  by (simp add: seen_by_input_def)

lemma seen_by_input_antimono:
  "t \<le> t' \<Longrightarrow> seen_by_input cs p t' \<Longrightarrow> seen_by_input cs p t"
  by (auto simp: seen_by_input_def list_ex_iff)

text \<open>Control-mode clients, the daemon's own included, are never evidence of a look.\<close>

lemma seen_by_input_ignores_control:
  "seen_by_input cs p t \<longleftrightarrow> seen_by_input (filter (\<lambda>c. \<not> cv_control_mode c) cs) p t"
  by (auto simp: seen_by_input_def list_ex_iff)

end
