(* ===== verification/Program_Types.thy ===== *)
theory Program_Types
  imports Core_Types
begin

text \<open>
  The OSC 7501 data model (\<open>program_status/mod.rs\<close>): record identifiers and their subtree order,
  application identifiers, bounded single-line text, progress, statuses, records and commands, the
  tmux pane and session identifiers, and the event vocabulary. The borrowed and the owned variant
  of each type of the source are one type here.
\<close>

section \<open>Limits\<close>

definition MAX_FRAME_BYTES :: nat where "MAX_FRAME_BYTES = 4096"
definition MAX_KEY_BYTES :: nat where "MAX_KEY_BYTES = 16"
definition MAX_MSG_ENCODED_BYTES :: nat where "MAX_MSG_ENCODED_BYTES = 2732"
definition MAX_MSG_BYTES :: nat where "MAX_MSG_BYTES = 2048"
definition MAX_TITLE_ENCODED_BYTES :: nat where "MAX_TITLE_ENCODED_BYTES = 256"
definition MAX_TITLE_BYTES :: nat where "MAX_TITLE_BYTES = 192"
definition MAX_APP_BYTES :: nat where "MAX_APP_BYTES = 32"
definition MAX_ID_BYTES :: nat where "MAX_ID_BYTES = 128"
definition MAX_ID_SEGMENT_BYTES :: nat where "MAX_ID_SEGMENT_BYTES = 32"
definition MAX_ID_LEVELS :: nat where "MAX_ID_LEVELS = 8"
definition MAX_RECORDS :: nat where "MAX_RECORDS = 256"

lemmas limit_defs = MAX_FRAME_BYTES_def MAX_KEY_BYTES_def MAX_MSG_ENCODED_BYTES_def
  MAX_MSG_BYTES_def MAX_TITLE_ENCODED_BYTES_def MAX_TITLE_BYTES_def MAX_APP_BYTES_def
  MAX_ID_BYTES_def MAX_ID_SEGMENT_BYTES_def MAX_ID_LEVELS_def MAX_RECORDS_def

datatype value_error =
    InvalidRecordId | InvalidAppId | InvalidText | TitleTooLong | InvalidProgress
  | InvalidPaneId | InvalidSessionId

section \<open>Record identifiers\<close>

definition identifier_byte :: "char \<Rightarrow> bool" where
  "identifier_byte c = (is_alnum c \<or> c \<in> {CHR ''_'', CHR ''.'', CHR ''+'', CHR ''-''})"

datatype record_id = RecordId (rid_str: string)

definition ROOT :: record_id where "ROOT = RecordId []"

text \<open>The loop over the segments, with the level counter incremented before the tests.\<close>

fun rid_segments_ok :: "nat \<Rightarrow> string list \<Rightarrow> bool" where
  "rid_segments_ok levels [] = True"
| "rid_segments_ok levels (seg # segs) =
     (if seg = [] \<or> MAX_ID_SEGMENT_BYTES < length seg \<or> \<not> list_all identifier_byte seg
         \<or> MAX_ID_LEVELS < Suc levels
      then False else rid_segments_ok (Suc levels) segs)"

definition rid_parse :: "string \<Rightarrow> value_error + record_id" where
  "rid_parse v =
     (if v = [] \<or> MAX_ID_BYTES < length v then Inl InvalidRecordId
      else if rid_segments_ok 0 (split_on (CHR ''/'') v) then Inr (RecordId v)
      else Inl InvalidRecordId)"

definition rid_is_root :: "record_id \<Rightarrow> bool" where
  "rid_is_root r = (rid_str r = [])"

definition rid_parent :: "record_id \<Rightarrow> record_id option" where
  "rid_parent r =
     (if rid_is_root r then None
      else Some (RecordId (case rsplit_once (CHR ''/'') (rid_str r) of
                             None \<Rightarrow> [] | Some (parent, _) \<Rightarrow> parent)))"

definition rid_contains :: "record_id \<Rightarrow> record_id \<Rightarrow> bool" where
  "rid_contains a b =
     (rid_is_root a \<or> a = b
      \<or> is_some_and (strip_prefix (rid_str a) (rid_str b))
          (\<lambda>tail. case tail of [] \<Rightarrow> False | c # _ \<Rightarrow> c = CHR ''/''))"

text \<open>The derived \<open>Ord\<close> of the newtype is the byte order of its text.\<close>

instantiation record_id :: linorder
begin

definition less_eq_record_id :: "record_id \<Rightarrow> record_id \<Rightarrow> bool" where
  "less_eq_record_id a b \<longleftrightarrow> rid_str a \<le> rid_str b"

definition less_record_id :: "record_id \<Rightarrow> record_id \<Rightarrow> bool" where
  "less_record_id a b \<longleftrightarrow> rid_str a < rid_str b"

instance
  by intro_classes
    (auto simp: less_eq_record_id_def less_record_id_def record_id.expand)

end

section \<open>Applications, text, progress\<close>

datatype app_id = AppId (app_str: string)

definition app_parse :: "string \<Rightarrow> value_error + app_id" where
  "app_parse v =
     (if v = [] \<or> MAX_APP_BYTES < length v \<or> \<not> list_all identifier_byte v
      then Inl InvalidAppId else Inr (AppId v))"

type_synonym single_line = string

definition single_line_parse :: "string \<Rightarrow> value_error + single_line" where
  "single_line_parse v =
     (if MAX_MSG_BYTES < length v \<or> has_control v then Inl InvalidText else Inr v)"

datatype progress = Progress (progress_get: u8)

definition progress_new :: "u8 \<Rightarrow> value_error + progress" where
  "progress_new v = (if v \<le> 100 then Inr (Progress v) else Inl InvalidProgress)"

section \<open>Statuses, records, commands\<close>

datatype blocked_kind = KPermission | KQuestion | KAuth

datatype program_status =
    PIdle
  | PWorking "progress option"
  | PBlocked "blocked_kind option" "progress option"
  | PDone
  | PError

record program_record =
  rec_id :: record_id
  rec_status :: program_status
  rec_app :: "app_id option"
  rec_title :: "single_line option"
  rec_msg :: "single_line option"

definition record_new :: "record_id \<Rightarrow> program_status \<Rightarrow> program_record" where
  "record_new i st =
     \<lparr>rec_id = i, rec_status = st, rec_app = None, rec_title = None, rec_msg = None\<rparr>"

definition with_title ::
  "program_record \<Rightarrow> single_line option \<Rightarrow> value_error + program_record" where
  "with_title r t =
     (if is_some_and t (\<lambda>s. MAX_TITLE_BYTES < length s) then Inl TitleTooLong
      else Inr (r\<lparr>rec_title := t\<rparr>))"

datatype program_command = Replace program_record | Clear record_id | Query

section \<open>tmux identifiers and events\<close>

definition parse_tmux_id :: "string \<Rightarrow> char \<Rightarrow> u32 option" where
  "parse_tmux_id v pfx =
     (case strip_prefix [pfx] v of
        None \<Rightarrow> None
      | Some digits \<Rightarrow>
          if digits = [] \<or> \<not> list_all is_digit digits then None else parse_uint u32_max digits)"

type_synonym pane_id = u32
type_synonym session_id = u32

definition pane_id_parse :: "string \<Rightarrow> value_error + pane_id" where
  "pane_id_parse v =
     (case parse_tmux_id v (CHR ''%'') of None \<Rightarrow> Inl InvalidPaneId | Some n \<Rightarrow> Inr n)"

definition session_id_parse :: "string \<Rightarrow> value_error + session_id" where
  "session_id_parse v =
     (case parse_tmux_id v (CHR ''$'') of None \<Rightarrow> Inl InvalidSessionId | Some n \<Rightarrow> Inr n)"

datatype terminal_lifecycle = FullReset | ShellPrompt | AttachedProcessExit

datatype observation_gap =
    Disconnected | OwnerChanged | Paused | MalformedTransport | FramingLoss
  | QueueOverflow | BudgetExceeded | WorkBudgetExceeded

datatype program_event =
    ECommand program_command | ELifecycle terminal_lifecycle | EGap observation_gap

record observed_event =
  oe_pane :: pane_id
  oe_connection :: u64
  oe_sequence :: u64
  oe_event :: program_event

section \<open>The subtree order\<close>

text \<open>What \<^const>\<open>rid_contains\<close> promises: an identifier addresses a path of segments, the root the
  empty path, and containment is the prefix order of the paths.\<close>

definition rid_path :: "record_id \<Rightarrow> string list" where
  "rid_path r = (if rid_str r = [] then [] else split_on (CHR ''/'') (rid_str r))"

lemma rid_path_inject: "rid_path a = rid_path b \<Longrightarrow> a = b"
  by (cases a; cases b) (auto simp: rid_path_def split: if_splits dest: arg_cong [of _ _ "join_with ''/''"])

lemma rid_str_root [simp]: "rid_str ROOT = []"
  by (simp add: ROOT_def)

lemma rid_path_root [simp]: "rid_path ROOT = []"
  by (simp add: rid_path_def ROOT_def)

lemma rid_contains_path: "rid_contains a b \<longleftrightarrow> prefix (rid_path a) (rid_path b)"
proof (cases "rid_is_root a")
  case True
  then show ?thesis by (simp add: rid_contains_def rid_is_root_def rid_path_def)
next
  case False
  then have pa: "rid_path a = split_on (CHR ''/'') (rid_str a)" and ne: "rid_str a \<noteq> []"
    by (simp_all add: rid_path_def rid_is_root_def)
  have tail: "is_some_and (strip_prefix (rid_str a) (rid_str b))
          (\<lambda>tail. case tail of [] \<Rightarrow> False | c # _ \<Rightarrow> c = CHR ''/'')
        \<longleftrightarrow> (\<exists>t. rid_str b = rid_str a @ CHR ''/'' # t)"
    by (auto simp: is_some_and_iff strip_prefix_Some_iff split: list.splits) (metis neq_Nil_conv)
  show ?thesis
  proof
    assume "rid_contains a b"
    then consider "a = b" | t where "rid_str b = rid_str a @ CHR ''/'' # t"
      using False tail by (auto simp: rid_contains_def)
    then show "prefix (rid_path a) (rid_path b)"
    proof cases
      case 2
      then have "rid_path b = rid_path a @ split_on (CHR ''/'') t"
        by (simp add: rid_path_def ne split_on_append_sep)
      then show ?thesis by simp
    qed simp
  next
    assume "prefix (rid_path a) (rid_path b)"
    then obtain rest where rest: "rid_path b = rid_path a @ rest" by (auto simp: prefix_def)
    show "rid_contains a b"
    proof (cases rest)
      case Nil
      with rest have "a = b" by (simp add: rid_path_inject)
      then show ?thesis by (simp add: rid_contains_def)
    next
      case (Cons p ps)
      have "rid_path b \<noteq> []" using rest pa by simp
      then have "split_on (CHR ''/'') (rid_str b) = split_on (CHR ''/'') (rid_str a) @ p # ps"
        using rest pa Cons by (auto simp: rid_path_def split: if_splits)
      then have "split_on (CHR ''/'') (rid_str b)
          = split_on (CHR ''/'') (rid_str a @ CHR ''/'' # join_with ''/'' (p # ps))"
        by (metis join_split_on split_on_append_sep split_on_eqD split_on_join split_on_parts
            append_is_Nil_conv in_set_conv_decomp list.distinct(1) set_append Un_iff)
      then have "rid_str b = rid_str a @ CHR ''/'' # join_with ''/'' (p # ps)"
        by (metis join_split_on)
      then show ?thesis using tail by (auto simp: rid_contains_def)
    qed
  qed
qed

lemma rid_contains_refl [simp]: "rid_contains a a"
  by (simp add: rid_contains_path)

lemma rid_contains_root [simp]: "rid_contains ROOT a"
  by (simp add: rid_contains_path)

lemma rid_contains_trans: "rid_contains a b \<Longrightarrow> rid_contains b c \<Longrightarrow> rid_contains a c"
  by (auto simp: rid_contains_path)

lemma rid_contains_antisym: "rid_contains a b \<Longrightarrow> rid_contains b a \<Longrightarrow> a = b"
  by (auto simp: rid_contains_path intro: rid_path_inject prefix_order.antisym)

lemma rid_contains_chain:
  "rid_contains a c \<Longrightarrow> rid_contains b c \<Longrightarrow> rid_contains a b \<or> rid_contains b a"
  by (auto simp: rid_contains_path dest: prefix_same_cases)

text \<open>Along one chain of ancestors the length of the text determines the identifier, which is why
  the store may look for the nearest ancestor by text length.\<close>

lemma rid_contains_length: "rid_contains a b \<Longrightarrow> length (rid_str a) \<le> length (rid_str b)"
  by (auto simp: rid_contains_def rid_is_root_def is_some_and_iff strip_prefix_Some_iff)

lemma rid_contains_same_length:
  "rid_contains a b \<Longrightarrow> length (rid_str a) = length (rid_str b) \<Longrightarrow> a = b"
  by (cases a; cases b)
    (auto simp: rid_contains_def rid_is_root_def is_some_and_iff strip_prefix_Some_iff
      neq_Nil_conv split: list.splits)

section \<open>Well-formed values\<close>

definition rid_valid :: "record_id \<Rightarrow> bool" where
  "rid_valid r = (r = ROOT \<or> rid_parse (rid_str r) = Inr r)"

definition app_valid :: "app_id \<Rightarrow> bool" where
  "app_valid a = (app_parse (app_str a) = Inr a)"

fun progress_of :: "program_status \<Rightarrow> progress option" where
  "progress_of (PWorking p) = p"
| "progress_of (PBlocked _ p) = p"
| "progress_of _ = None"

text \<open>The invariant the types of the source carry: what a \<open>RecordRef\<close> can be at all.\<close>

definition text_valid :: "nat \<Rightarrow> string \<Rightarrow> bool" where
  "text_valid mx t = (length t \<le> mx \<and> valid_utf8 t \<and> \<not> has_control t)"

definition record_valid :: "program_record \<Rightarrow> bool" where
  "record_valid r =
     (rid_valid (rec_id r)
      \<and> is_none_or (rec_app r) app_valid
      \<and> is_none_or (rec_title r) (text_valid MAX_TITLE_BYTES)
      \<and> is_none_or (rec_msg r) (text_valid MAX_MSG_BYTES)
      \<and> is_none_or (progress_of (rec_status r)) (\<lambda>p. progress_get p \<le> 100))"

fun command_valid :: "program_command \<Rightarrow> bool" where
  "command_valid (Replace r) = record_valid r"
| "command_valid (Clear i) = rid_valid i"
| "command_valid Query = True"

lemma identifier_byte_ascii: "identifier_byte c \<Longrightarrow> byte c < 128"
  by (auto simp: identifier_byte_def is_alnum_def is_digit_def is_lower_def is_upper_def byte_def)

lemma rid_segments_ok_iff:
  "rid_segments_ok n segs \<longleftrightarrow>
     n + length segs \<le> max n MAX_ID_LEVELS
     \<and> (\<forall>seg \<in> set segs. seg \<noteq> [] \<and> length seg \<le> MAX_ID_SEGMENT_BYTES \<and> list_all identifier_byte seg)"
  by (induction segs arbitrary: n) (auto simp: max_def split: if_splits)

lemma rid_parse_Inr:
  "rid_parse v = Inr r \<longleftrightarrow>
     r = RecordId v \<and> v \<noteq> [] \<and> length v \<le> MAX_ID_BYTES
     \<and> rid_segments_ok 0 (split_on (CHR ''/'') v)"
  by (auto simp: rid_parse_def split: if_splits)

lemma rid_parse_not_root: "rid_parse v = Inr r \<Longrightarrow> r \<noteq> ROOT"
  by (auto simp: rid_parse_Inr ROOT_def)

lemma rid_parse_valid: "rid_parse v = Inr r \<Longrightarrow> rid_valid r"
  by (auto simp: rid_parse_Inr rid_valid_def)

lemma rid_valid_root [simp]: "rid_valid ROOT"
  by (simp add: rid_valid_def)

lemma set_subset_split: "c \<in> set s \<Longrightarrow> c = d \<or> (\<exists>p \<in> set (split_on d s). c \<in> set p)"
  by (induction s) (auto split: list.splits)

lemma rid_valid_chars:
  assumes "rid_valid r" and "c \<in> set (rid_str r)"
  shows "identifier_byte c \<or> c = CHR ''/''"
proof (cases "r = ROOT")
  case True
  with assms show ?thesis by (simp add: ROOT_def)
next
  case False
  with assms have "rid_segments_ok 0 (split_on (CHR ''/'') (rid_str r))"
    by (auto simp: rid_valid_def rid_parse_Inr)
  with set_subset_split [OF assms(2), of "CHR ''/''"] show ?thesis
    by (auto simp: rid_segments_ok_iff list_all_iff)
qed

lemma rid_valid_length: "rid_valid r \<Longrightarrow> length (rid_str r) \<le> MAX_ID_BYTES"
  by (auto simp: rid_valid_def rid_parse_Inr ROOT_def)

lemma rid_path_valid_parts: "rid_valid r \<Longrightarrow> seg \<in> set (rid_path r) \<Longrightarrow> seg \<noteq> []"
  by (auto simp: rid_valid_def rid_parse_Inr rid_path_def rid_segments_ok_iff split: if_splits)

lemma rid_parent_path:
  assumes "rid_valid r" and "r \<noteq> ROOT"
  shows "\<exists>p. rid_parent r = Some p \<and> rid_path p = butlast (rid_path r)"
proof (cases "rsplit_once (CHR ''/'') (rid_str r)")
  case None
  then have "CHR ''/'' \<notin> set (rid_str r)" by (simp add: rsplit_once_None_iff)
  with assms None show ?thesis
    by (cases r) (auto simp: rid_parent_def rid_is_root_def rid_path_def ROOT_def)
next
  case (Some pl)
  then obtain p l where pl: "pl = (p, l)" and s: "rid_str r = p @ CHR ''/'' # l"
    and l: "CHR ''/'' \<notin> set l"
    by (cases pl) (auto simp: rsplit_once_Some_iff)
  have path: "rid_path r = split_on (CHR ''/'') p @ [l]"
    using s l by (simp add: rid_path_def split_on_append_sep)
  have "p \<noteq> []"
    using rid_path_valid_parts [OF assms(1), of "[]"] path by auto
  with path s Some pl show ?thesis
    by (simp add: rid_parent_def rid_is_root_def rid_path_def)
qed

lemma app_parse_Inr:
  "app_parse v = Inr a \<longleftrightarrow>
     a = AppId v \<and> v \<noteq> [] \<and> length v \<le> MAX_APP_BYTES \<and> list_all identifier_byte v"
  by (auto simp: app_parse_def not_less split: if_splits)

lemma app_parse_valid: "app_parse v = Inr a \<Longrightarrow> app_valid a"
  by (auto simp: app_parse_Inr app_valid_def)

text \<open>Identifier and application texts are codecs on their valid values.\<close>

interpretation rid_codec: codec rid_str "\<lambda>s. ok (rid_parse s)" "\<lambda>r. rid_valid r \<and> r \<noteq> ROOT"
  by unfold_locales (auto simp: ok_Some_iff rid_valid_def rid_parse_Inr ROOT_def)

interpretation app_codec: codec app_str "\<lambda>s. ok (app_parse s)" app_valid
  by unfold_locales (auto simp: ok_Some_iff app_valid_def app_parse_Inr)

definition pane_id_show :: "pane_id \<Rightarrow> string" where
  "pane_id_show n = CHR ''%'' # show_nat n"

lemma pane_id_parse_show [simp]: "n \<le> u32_max \<Longrightarrow> pane_id_parse (pane_id_show n) = Inr n"
  by (simp add: pane_id_parse_def pane_id_show_def parse_tmux_id_def strip_prefix_def)

end
