(* ===== verification/Program_Parse.thy ===== *)
theory Program_Parse
  imports Program_Types
begin

text \<open>
  The OSC 7501 frame parser (\<open>program_status/parse.rs\<close>). The base64 engines come from a
  third-party crate: the decoder is the parameter \<open>b64\<close>, given the engine (padded or not), the
  input and the size of the output buffer, and answering the decoded bytes or nothing. The caller's
  scratch buffers are represented by the text that was last decoded into them, which is what the
  source reads back from them.
\<close>

section \<open>The parser\<close>

datatype text_field = Message | TitleField

datatype reject_reason =
    FrameTooLong | InvalidFrame | KeyTooLong
  | EncodedTextTooLong text_field | DecodedTextTooLong text_field
  | InvalidBase64 text_field | InvalidUtf8 text_field | ControlText text_field
  | AppTooLong | IdTooLong | IdSegmentTooLong | IdTooDeep

datatype ignore_reason = MissingState | UnknownReport | InvalidId

datatype parse_outcome = Command program_command | Ignored ignore_reason

type_synonym base64 = "bool \<Rightarrow> string \<Rightarrow> nat \<Rightarrow> string option"

definition trim :: "string \<Rightarrow> string" where
  "trim s = rev (dropWhile is_ascii_ws (rev (dropWhile is_ascii_ws s)))"

definition value_byte :: "char \<Rightarrow> bool" where
  "value_byte c =
     (is_alnum c \<or> c \<in> {CHR ''_'', CHR ''.'', CHR '','', CHR ''+'', CHR ''/'', CHR ''='', CHR ''-''})"

definition decode_text ::
  "base64 \<Rightarrow> string \<Rightarrow> nat \<Rightarrow> text_field \<Rightarrow> nat \<Rightarrow> reject_reason + string" where
  "decode_text b64 v capacity field mx =
     (let padded = (v \<noteq> [] \<and> last v = CHR ''='') in
      case b64 padded v capacity of
        None \<Rightarrow> Inl (InvalidBase64 field)
      | Some text \<Rightarrow>
          if mx < length text then Inl (DecodedTextTooLong field)
          else if \<not> valid_utf8 text then Inl (InvalidUtf8 field)
          else if has_control text then Inl (ControlText field)
          else Inr text)"

text \<open>The mutable locals of the loop.\<close>

record parse_state =
  ps_state :: "string option"
  ps_id :: record_id
  ps_invalid_id :: bool
  ps_kind :: "blocked_kind option"
  ps_progress :: "progress option"
  ps_app :: "app_id option"
  ps_msg :: "string option"
  ps_title :: "string option"

definition parse_init :: parse_state where
  "parse_init = \<lparr>ps_state = None, ps_id = ROOT, ps_invalid_id = False, ps_kind = None,
     ps_progress = None, ps_app = None, ps_msg = None, ps_title = None\<rparr>"

text \<open>The first \<open>match key\<close>: limits, and the identifier, before any pair is skipped.\<close>

definition check_limits :: "string \<Rightarrow> string \<Rightarrow> parse_state \<Rightarrow> reject_reason + parse_state" where
  "check_limits key v ps =
     (if key = ''msg'' \<and> MAX_MSG_ENCODED_BYTES < length v then Inl (EncodedTextTooLong Message)
      else if key = ''title'' \<and> MAX_TITLE_ENCODED_BYTES < length v then
        Inl (EncodedTextTooLong TitleField)
      else if key = ''app'' \<and> MAX_APP_BYTES < length v then Inl AppTooLong
      else if key = ''id'' then
        (if MAX_ID_BYTES < length v then Inl IdTooLong
         else
           let segments = split_on (CHR ''/'') v in
           if list_ex (\<lambda>seg. MAX_ID_SEGMENT_BYTES < length seg) segments then Inl IdSegmentTooLong
           else if MAX_ID_LEVELS < length segments then Inl IdTooDeep
           else (case (if valid_utf8 v then ok (rid_parse v) else None) of
                   Some parsed \<Rightarrow> Inr (ps\<lparr>ps_id := parsed, ps_invalid_id := False\<rparr>)
                 | None \<Rightarrow> Inr (ps\<lparr>ps_invalid_id := True\<rparr>)))
      else Inr ps)"

definition parse_kind :: "string \<Rightarrow> blocked_kind option" where
  "parse_kind v =
     (if v = ''permission'' then Some KPermission
      else if v = ''question'' then Some KQuestion
      else if v = ''auth'' then Some KAuth
      else None)"

text \<open>\<open>try_fold\<close> with \<open>u8::checked_mul\<close> and \<open>u8::checked_add\<close>.\<close>

fun fold_u8 :: "nat \<Rightarrow> string \<Rightarrow> nat option" where
  "fold_u8 n [] = Some n"
| "fold_u8 n (c # cs) =
     (if u8_max < n * 10 then None
      else if u8_max < n * 10 + digit_val c then None
      else fold_u8 (n * 10 + digit_val c) cs)"

definition parse_progress :: "string \<Rightarrow> progress option" where
  "parse_progress v =
     (if v \<noteq> [] \<and> list_all is_digit v
      then Option.bind (fold_u8 0 v) (\<lambda>n. ok (progress_new n)) else None)"

text \<open>The second \<open>match key\<close>, reached by well-formed pairs only.\<close>

definition assign_pair ::
  "base64 \<Rightarrow> string \<Rightarrow> string \<Rightarrow> parse_state \<Rightarrow> reject_reason + parse_state" where
  "assign_pair b64 key v ps =
     (if key = ''state'' then Inr (ps\<lparr>ps_state := Some v\<rparr>)
      else if key = ''kind'' then Inr (ps\<lparr>ps_kind := parse_kind v\<rparr>)
      else if key = ''progress'' then Inr (ps\<lparr>ps_progress := parse_progress v\<rparr>)
      else if key = ''app'' then
        Inr (ps\<lparr>ps_app := (if valid_utf8 v then ok (app_parse v) else None)\<rparr>)
      else if key = ''msg'' then
        map_sum id (\<lambda>t. ps\<lparr>ps_msg := Some t\<rparr>)
          (decode_text b64 v (MAX_MSG_BYTES + 1) Message MAX_MSG_BYTES)
      else if key = ''title'' then
        map_sum id (\<lambda>t. ps\<lparr>ps_title := Some t\<rparr>)
          (decode_text b64 v MAX_TITLE_BYTES TitleField MAX_TITLE_BYTES)
      else Inr ps)"

definition parse_pair :: "base64 \<Rightarrow> string \<Rightarrow> parse_state \<Rightarrow> reject_reason + parse_state" where
  "parse_pair b64 pair ps =
     (case split_once (CHR ''='') pair of
        None \<Rightarrow> Inr ps
      | Some (raw_key, raw_value) \<Rightarrow>
          let key = trim raw_key; v = trim raw_value in
          if MAX_KEY_BYTES < length key then Inl KeyTooLong
          else (case check_limits key v ps of
                  Inl e \<Rightarrow> Inl e
                | Inr ps1 \<Rightarrow>
                    if key = [] \<or> \<not> list_all is_lower key \<or> \<not> list_all value_byte v then Inr ps1
                    else assign_pair b64 key v ps1))"

fun parse_pairs :: "base64 \<Rightarrow> string list \<Rightarrow> parse_state \<Rightarrow> reject_reason + parse_state" where
  "parse_pairs b64 [] ps = Inr ps"
| "parse_pairs b64 (p # rest) ps =
     (case parse_pair b64 p ps of Inl e \<Rightarrow> Inl e | Inr ps1 \<Rightarrow> parse_pairs b64 rest ps1)"

text \<open>What follows the loop: the report is ignored, a clear, or a full replacement.\<close>

definition parse_finish :: "parse_state \<Rightarrow> parse_outcome" where
  "parse_finish ps =
     (let replace = (\<lambda>st. Command (Replace
            \<lparr>rec_id = ps_id ps, rec_status = st, rec_app = ps_app ps,
             rec_title = ps_title ps, rec_msg = ps_msg ps\<rparr>))
      in if ps_invalid_id ps then Ignored InvalidId
         else (case ps_state ps of
                 None \<Rightarrow> Ignored MissingState
               | Some st \<Rightarrow>
                   if st = ''clear'' then Command (Clear (ps_id ps))
                   else if st = ''idle'' then replace PIdle
                   else if st = ''working'' then replace (PWorking (ps_progress ps))
                   else if st = ''blocked'' then replace (PBlocked (ps_kind ps) (ps_progress ps))
                   else if st = ''done'' then replace PDone
                   else if st = ''error'' then replace PError
                   else Ignored UnknownReport))"

definition ESC :: char where "ESC = CHR 0x1B"
definition BEL :: char where "BEL = CHR 0x07"

definition frame_intro :: string where "frame_intro = ESC # '']7501;''"

text \<open>The string terminator form is tried before the bell.\<close>

definition frame_body :: "string \<Rightarrow> string option" where
  "frame_body body =
     (case strip_suffix [ESC, CHR 0x5C] body of
        Some b \<Rightarrow> Some b
      | None \<Rightarrow> strip_suffix [BEL] body)"

definition parse_frame :: "base64 \<Rightarrow> string \<Rightarrow> reject_reason + parse_outcome" where
  "parse_frame b64 frame =
     (if MAX_FRAME_BYTES < length frame then Inl FrameTooLong
      else (case strip_prefix frame_intro frame of
              None \<Rightarrow> Inl InvalidFrame
            | Some rest \<Rightarrow>
                (case frame_body rest of
                   None \<Rightarrow> Inl InvalidFrame
                 | Some body \<Rightarrow>
                     if list_ex (\<lambda>c. c = ESC \<or> c = BEL) body then Inl InvalidFrame
                     else if body = ''?'' then Inr (Command Query)
                     else (case parse_pairs b64 (split_on (CHR '':'') body) parse_init of
                             Inl e \<Rightarrow> Inl e
                           | Inr ps \<Rightarrow> Inr (parse_finish ps)))))"

section \<open>Every accepted command is well formed\<close>

lemma fold_u8_value:
  "list_all is_digit cs \<Longrightarrow>
     fold_u8 n cs = (let v = foldl (\<lambda>n c. 10 * n + digit_val c) n cs
                     in if v \<le> u8_max then Some v else None)" if "n \<le> u8_max"
  using that
proof (induction cs arbitrary: n)
  case Nil
  then show ?case by simp
next
  case (Cons c cs)
  let ?m = "10 * n + digit_val c"
  have mono: "m \<le> foldl (\<lambda>n c. 10 * n + digit_val c) m cs" for m
  proof (induction cs arbitrary: m)
    case (Cons d ds)
    have "m \<le> 10 * m + digit_val d" by simp
    also have "\<dots> \<le> foldl (\<lambda>n c. 10 * n + digit_val c) (10 * m + digit_val d) ds"
      by (rule Cons.IH)
    finally show ?case by simp
  qed simp
  show ?case
  proof (cases "?m \<le> u8_max")
    case True
    then have "\<not> u8_max < n * 10" by (simp add: mult.commute)
    with Cons True show ?thesis by (simp add: Let_def mult.commute)
  next
    case False
    moreover have "?m \<le> foldl (\<lambda>n c. 10 * n + digit_val c) ?m cs" by (rule mono)
    ultimately have "\<not> foldl (\<lambda>n c. 10 * n + digit_val c) ?m cs \<le> u8_max" by linarith
    with False show ?thesis by (simp add: Let_def mult.commute)
  qed
qed

lemma parse_progress_value:
  "parse_progress v =
     (if v \<noteq> [] \<and> list_all is_digit v \<and> digits_val v \<le> 100
      then Some (Progress (digits_val v)) else None)"
  using fold_u8_value [of 0 v]
  by (auto simp: parse_progress_def digits_val_def progress_new_def Let_def u8_max_def)

definition parse_state_ok :: "parse_state \<Rightarrow> bool" where
  "parse_state_ok ps =
     (rid_valid (ps_id ps)
      \<and> is_none_or (ps_app ps) app_valid
      \<and> is_none_or (ps_title ps) (text_valid MAX_TITLE_BYTES)
      \<and> is_none_or (ps_msg ps) (text_valid MAX_MSG_BYTES)
      \<and> is_none_or (ps_progress ps) (\<lambda>p. progress_get p \<le> 100))"

lemma decode_text_Inr:
  "decode_text b64 v cap field mx = Inr t \<Longrightarrow> text_valid mx t"
  by (auto simp: decode_text_def text_valid_def Let_def split: option.splits if_splits)

lemma map_sum_Inr_iff: "map_sum f g x = Inr y \<longleftrightarrow> (\<exists>z. x = Inr z \<and> y = g z)"
  by (cases x) auto

lemma check_limits_ok:
  "check_limits key v ps = Inr ps1 \<Longrightarrow> parse_state_ok ps \<Longrightarrow> parse_state_ok ps1"
  by (auto simp: check_limits_def Let_def parse_state_ok_def ok_Some_iff rid_parse_valid
      split: if_splits option.splits)

lemma assign_pair_ok:
  "assign_pair b64 key v ps = Inr ps1 \<Longrightarrow> parse_state_ok ps \<Longrightarrow> parse_state_ok ps1"
  by (auto simp: assign_pair_def parse_state_ok_def map_sum_Inr_iff ok_Some_iff app_parse_valid
      is_none_or_iff parse_progress_value dest: decode_text_Inr split: if_splits)

lemma parse_pair_ok:
  "parse_pair b64 p ps = Inr ps1 \<Longrightarrow> parse_state_ok ps \<Longrightarrow> parse_state_ok ps1"
  by (auto simp: parse_pair_def Let_def split: option.splits prod.splits if_splits sum.splits
      dest: check_limits_ok assign_pair_ok)

lemma parse_pairs_ok:
  "parse_pairs b64 ps s = Inr s1 \<Longrightarrow> parse_state_ok s \<Longrightarrow> parse_state_ok s1"
  by (induction b64 ps s rule: parse_pairs.induct)
    (auto split: sum.splits dest: parse_pair_ok)

lemma parse_init_ok: "parse_state_ok parse_init"
  by (simp add: parse_state_ok_def parse_init_def)

lemma parse_finish_valid:
  "parse_state_ok ps \<Longrightarrow> parse_finish ps = Command c \<Longrightarrow> command_valid c"
  by (auto simp: parse_finish_def Let_def parse_state_ok_def record_valid_def
      split: if_splits option.splits)

lemma parse_frame_InrE:
  assumes "parse_frame b64 frame = Inr out"
  obtains (query) "out = Command Query"
  | (report) body ps where
      "length frame \<le> MAX_FRAME_BYTES"
      "frame = frame_intro @ body @ [ESC, CHR 0x5C] \<or> frame = frame_intro @ body @ [BEL]"
      "parse_pairs b64 (split_on (CHR '':'') body) parse_init = Inr ps"
      "out = parse_finish ps"
  using assms
  by (auto simp: parse_frame_def frame_body_def strip_prefix_Some_iff strip_suffix_Some_iff
      split: if_splits option.splits sum.splits)

section \<open>An addressed report never becomes a root mutation\<close>

definition pair_key :: "string \<Rightarrow> string option" where
  "pair_key p = map_option (\<lambda>(k, _). trim k) (split_once (CHR ''='') p)"

definition addressed :: "string list \<Rightarrow> bool" where
  "addressed pairs = list_ex (\<lambda>p. pair_key p = Some ''id'') pairs"

definition frame_pairs :: "string \<Rightarrow> string list option" where
  "frame_pairs frame =
     Option.bind (strip_prefix frame_intro frame)
       (\<lambda>rest. map_option (split_on (CHR '':'')) (frame_body rest))"

definition id_pinned :: "parse_state \<Rightarrow> bool" where
  "id_pinned ps = (ps_invalid_id ps \<or> ps_id ps \<noteq> ROOT)"

lemma assign_pair_id:
  "assign_pair b64 key v ps = Inr ps1 \<Longrightarrow>
     ps_id ps1 = ps_id ps \<and> ps_invalid_id ps1 = ps_invalid_id ps"
  by (auto simp: assign_pair_def map_sum_Inr_iff split: if_splits)

lemma check_limits_pinned:
  "check_limits key v ps = Inr ps1 \<Longrightarrow> key = ''id'' \<or> id_pinned ps \<Longrightarrow> id_pinned ps1"
  by (auto simp: check_limits_def id_pinned_def Let_def ok_Some_iff dest: rid_parse_not_root
      split: if_splits option.splits)

lemma parse_pair_pinned:
  "parse_pair b64 p ps = Inr ps1 \<Longrightarrow> pair_key p = Some ''id'' \<or> id_pinned ps \<Longrightarrow> id_pinned ps1"
  by (auto simp: parse_pair_def pair_key_def Let_def id_pinned_def
      split: option.splits prod.splits if_splits sum.splits
      dest!: assign_pair_id dest: check_limits_pinned [unfolded id_pinned_def])

lemma parse_pairs_pinned:
  "parse_pairs b64 ps s = Inr s1 \<Longrightarrow> addressed ps \<or> id_pinned s \<Longrightarrow> id_pinned s1"
  by (induction b64 ps s rule: parse_pairs.induct)
    (auto simp: addressed_def split: sum.splits dest: parse_pair_pinned)

section \<open>Rendering a record without text\<close>

text \<open>What an emitter of the protocol writes for a record that carries no base64 text; the parser
  reads it back. The specification side of the parser's completeness.\<close>

definition status_word :: "program_status \<Rightarrow> string" where
  "status_word st =
     (case st of PIdle \<Rightarrow> ''idle'' | PWorking _ \<Rightarrow> ''working'' | PBlocked _ _ \<Rightarrow> ''blocked''
      | PDone \<Rightarrow> ''done'' | PError \<Rightarrow> ''error'')"

definition kind_word :: "blocked_kind \<Rightarrow> string" where
  "kind_word k =
     (case k of KPermission \<Rightarrow> ''permission'' | KQuestion \<Rightarrow> ''question'' | KAuth \<Rightarrow> ''auth'')"

fun kind_of :: "program_status \<Rightarrow> blocked_kind option" where
  "kind_of (PBlocked k _) = k"
| "kind_of _ = None"

definition opt_pair :: "string \<Rightarrow> ('a \<Rightarrow> string) \<Rightarrow> 'a option \<Rightarrow> string list" where
  "opt_pair key f m = (case m of None \<Rightarrow> [] | Some x \<Rightarrow> [key @ ''='' @ f x])"

definition report_pairs :: "program_record \<Rightarrow> string list" where
  "report_pairs r =
     [''state='' @ status_word (rec_status r)]
     @ opt_pair ''id'' rid_str (if rec_id r = ROOT then None else Some (rec_id r))
     @ opt_pair ''kind'' kind_word (kind_of (rec_status r))
     @ opt_pair ''progress'' (\<lambda>p. show_nat (progress_get p)) (progress_of (rec_status r))
     @ opt_pair ''app'' app_str (rec_app r)"

definition report_frame :: "program_record \<Rightarrow> string" where
  "report_frame r = frame_intro @ join_with '':'' (report_pairs r) @ [BEL]"

lemma is_lower_value_byte: "is_lower c \<Longrightarrow> value_byte c"
  by (simp add: value_byte_def is_alnum_def)

lemma is_digit_value_byte: "is_digit c \<Longrightarrow> value_byte c"
  by (simp add: value_byte_def is_alnum_def)

lemma identifier_value_byte: "identifier_byte c \<Longrightarrow> value_byte c"
  by (auto simp: value_byte_def identifier_byte_def)

lemma value_byte_not_sep:
  "value_byte c \<Longrightarrow> c \<noteq> CHR '':'' \<and> c \<noteq> ESC \<and> c \<noteq> BEL \<and> c \<noteq> CHR ''?'' \<and> \<not> is_ascii_ws c"
  by (auto simp: value_byte_def is_alnum_def is_digit_def is_lower_def is_upper_def
      is_ascii_ws_def byte_def ESC_def BEL_def)

lemma dropWhile_id: "list_all (\<lambda>c. \<not> p c) s \<Longrightarrow> dropWhile p s = s"
  by (cases s) auto

lemma trim_id: "list_all (\<lambda>c. \<not> is_ascii_ws c) s \<Longrightarrow> trim s = s"
  by (simp add: trim_def dropWhile_id list_all_rev)

lemma trim_value: "list_all value_byte v \<Longrightarrow> trim v = v"
  by (rule trim_id) (auto simp: list_all_iff dest: value_byte_not_sep)

lemma parse_pair_step:
  assumes "list_all is_lower key" and "key \<noteq> []" and "length key \<le> MAX_KEY_BYTES"
    and "list_all value_byte v" and "check_limits key v ps = Inr ps1"
  shows "parse_pair b64 (key @ ''='' @ v) ps = assign_pair b64 key v ps1"
proof -
  have "CHR ''='' \<notin> set key"
    using assms(1) by (auto simp: list_all_iff is_lower_def byte_def)
  moreover have "trim key = key"
    using assms(1) by (intro trim_value) (auto simp: list_all_iff is_lower_value_byte)
  ultimately show ?thesis
    using assms by (simp add: parse_pair_def trim_value Let_def)
qed

lemma key_lower:
  "list_all is_lower ''state''" "list_all is_lower ''id''" "list_all is_lower ''kind''"
  "list_all is_lower ''progress''" "list_all is_lower ''app''"
  by (simp_all add: is_lower_def byte_def)

lemma status_word_bytes: "list_all value_byte (status_word st)"
  by (cases st) (simp_all add: status_word_def value_byte_def is_alnum_def is_lower_def byte_def)

lemma kind_word_bytes: "list_all value_byte (kind_word k)"
  by (cases k) (simp_all add: kind_word_def value_byte_def is_alnum_def is_lower_def byte_def)

lemma rid_bytes: "rid_valid r \<Longrightarrow> list_all value_byte (rid_str r)"
  unfolding list_all_iff
  by (auto simp: value_byte_def identifier_byte_def dest!: rid_valid_chars)

lemma app_bytes: "app_valid a \<Longrightarrow> list_all value_byte (app_str a)"
  by (auto simp: app_valid_def app_parse_Inr list_all_iff identifier_value_byte)

lemma show_nat_bytes: "list_all value_byte (show_nat n)"
  using show_nat_digits [of n] by (auto simp: list_all_iff is_digit_value_byte)

lemma app_valid_ascii: "app_valid a \<Longrightarrow> valid_utf8 (app_str a)"
  by (auto simp: app_valid_def app_parse_Inr valid_utf8_def list_all_iff identifier_byte_ascii
      intro!: exI utf8_decode_ascii)

lemma rid_valid_ascii: "rid_valid r \<Longrightarrow> valid_utf8 (rid_str r)"
proof -
  assume "rid_valid r"
  then have "list_all (\<lambda>c. byte c < 128) (rid_str r)"
    by (auto simp: list_all_iff byte_def dest!: rid_valid_chars)
      (metis byte_def identifier_byte_ascii)
  then show ?thesis by (simp add: valid_utf8_def utf8_decode_ascii)
qed

lemma parse_pair_state:
  "parse_pair b64 (''state='' @ status_word st) ps = Inr (ps\<lparr>ps_state := Some (status_word st)\<rparr>)"
  using parse_pair_step [OF key_lower(1) _ _ status_word_bytes [of st], of ps ps b64]
  by (simp add: check_limits_def assign_pair_def limit_defs)

lemma parse_pair_kind:
  "parse_pair b64 (''kind='' @ kind_word k) ps = Inr (ps\<lparr>ps_kind := Some k\<rparr>)"
  using parse_pair_step [OF key_lower(3) _ _ kind_word_bytes [of k], of ps ps b64]
  by (cases k) (simp_all add: check_limits_def assign_pair_def limit_defs parse_kind_def kind_word_def)

lemma parse_pair_progress:
  "n \<le> 100 \<Longrightarrow> parse_pair b64 (''progress='' @ show_nat n) ps
     = Inr (ps\<lparr>ps_progress := Some (Progress n)\<rparr>)"
  using parse_pair_step [OF key_lower(4) _ _ show_nat_bytes [of n], of ps ps b64]
  by (simp add: check_limits_def assign_pair_def limit_defs parse_progress_value)

lemma parse_pair_app:
  assumes "app_valid a"
  shows "parse_pair b64 (''app='' @ app_str a) ps = Inr (ps\<lparr>ps_app := Some a\<rparr>)"
proof -
  have "app_parse (app_str a) = Inr a" and "length (app_str a) \<le> MAX_APP_BYTES"
    using assms by (auto simp: app_valid_def app_parse_Inr)
  then show ?thesis
    using parse_pair_step [OF key_lower(5) _ _ app_bytes [OF assms], of ps ps b64]
      app_valid_ascii [OF assms]
    by (simp add: check_limits_def assign_pair_def MAX_KEY_BYTES_def)
qed

lemma parse_pair_id:
  assumes "rid_valid r" and "r \<noteq> ROOT"
  shows "parse_pair b64 (''id='' @ rid_str r) ps = Inr (ps\<lparr>ps_id := r, ps_invalid_id := False\<rparr>)"
proof -
  have parsed: "rid_parse (rid_str r) = Inr r"
    using assms by (simp add: rid_valid_def)
  then have segs: "rid_segments_ok 0 (split_on (CHR ''/'') (rid_str r))"
    by (simp add: rid_parse_Inr)
  have "check_limits ''id'' (rid_str r) ps = Inr (ps\<lparr>ps_id := r, ps_invalid_id := False\<rparr>)"
    using parsed segs rid_valid_ascii [OF assms(1)] rid_valid_length [OF assms(1)]
    by (auto simp: check_limits_def Let_def rid_segments_ok_iff list_ex_iff not_less)
  from parse_pair_step [OF key_lower(2) _ _ rid_bytes [OF assms(1)] this, of b64] show ?thesis
    by (simp add: assign_pair_def MAX_KEY_BYTES_def)
qed

lemma parse_pairs_append:
  "parse_pairs b64 (xs @ ys) ps =
     (case parse_pairs b64 xs ps of Inl e \<Rightarrow> Inl e | Inr ps1 \<Rightarrow> parse_pairs b64 ys ps1)"
  by (induction b64 xs ps rule: parse_pairs.induct) (auto split: sum.splits)

lemma pair_stages:
  "parse_pairs b64 [''state='' @ status_word st] ps
     = Inr (ps\<lparr>ps_state := Some (status_word st)\<rparr>)"
  "rid_valid r \<Longrightarrow>
     parse_pairs b64 (opt_pair ''id'' rid_str (if r = ROOT then None else Some r)) ps
       = Inr (if r = ROOT then ps else ps\<lparr>ps_id := r, ps_invalid_id := False\<rparr>)"
  "parse_pairs b64 (opt_pair ''kind'' kind_word k) ps
     = Inr (case k of None \<Rightarrow> ps | Some x \<Rightarrow> ps\<lparr>ps_kind := Some x\<rparr>)"
  "\<forall>p. pg = Some p \<longrightarrow> progress_get p \<le> 100 \<Longrightarrow>
     parse_pairs b64 (opt_pair ''progress'' (\<lambda>p. show_nat (progress_get p)) pg) ps
       = Inr (case pg of None \<Rightarrow> ps | Some p \<Rightarrow> ps\<lparr>ps_progress := Some p\<rparr>)"
  "\<forall>x. a = Some x \<longrightarrow> app_valid x \<Longrightarrow>
     parse_pairs b64 (opt_pair ''app'' app_str a) ps
       = Inr (case a of None \<Rightarrow> ps | Some x \<Rightarrow> ps\<lparr>ps_app := Some x\<rparr>)"
  using parse_pair_id [of r b64 ps]
  by (auto simp: opt_pair_def parse_pair_state [simplified] parse_pair_kind [simplified]
      parse_pair_progress [simplified] parse_pair_app [simplified] split: option.splits)

lemma parse_report_pairs:
  assumes "record_valid r" and "rec_title r = None" and "rec_msg r = None"
  shows "\<exists>ps. parse_pairs b64 (report_pairs r) parse_init = Inr ps
              \<and> parse_finish ps = Command (Replace r)"
proof -
  have r: "r = \<lparr>rec_id = rec_id r, rec_status = rec_status r, rec_app = rec_app r,
                rec_title = None, rec_msg = None\<rparr>"
    using assms by simp
  have valid: "\<forall>p. progress_of (rec_status r) = Some p \<longrightarrow> progress_get p \<le> 100"
    "rid_valid (rec_id r)" "\<forall>a. rec_app r = Some a \<longrightarrow> app_valid a"
    using assms by (auto simp: record_valid_def is_none_or_iff)
  let ?ps = "\<lparr>ps_state = Some (status_word (rec_status r)), ps_id = rec_id r,
      ps_invalid_id = False, ps_kind = kind_of (rec_status r),
      ps_progress = progress_of (rec_status r), ps_app = rec_app r,
      ps_msg = None, ps_title = None\<rparr>"
  have "parse_pairs b64 (report_pairs r) parse_init = Inr ?ps"
    unfolding report_pairs_def parse_pairs_append pair_stages(1) sum.case
      pair_stages(2) [OF valid(2)] pair_stages(3) pair_stages(4) [OF valid(1)]
      pair_stages(5) [OF valid(3)]
    by (simp add: parse_init_def split: option.splits)
  moreover have "parse_finish ?ps = Command (Replace r)"
    using r by (cases "rec_status r") (simp_all add: parse_finish_def status_word_def)
  ultimately show ?thesis by blast
qed

lemma report_pairs_bytes:
  assumes "record_valid r" and "p \<in> set (report_pairs r)"
  shows "list_all value_byte p"
proof -
  have lits: "list_all value_byte ''state=''" "list_all value_byte ''id=''"
    "list_all value_byte ''kind=''" "list_all value_byte ''progress=''" "list_all value_byte ''app=''"
    by (simp_all add: value_byte_def is_alnum_def is_lower_def byte_def)
  from assms show ?thesis
    using status_word_bytes kind_word_bytes rid_bytes app_bytes show_nat_bytes lits
    by (auto simp: report_pairs_def opt_pair_def record_valid_def is_none_or_iff
        split: option.splits if_splits)
qed

lemma length_join_le: "length (join_with [c] ps) \<le> sum_list (map (\<lambda>p. Suc (length p)) ps)"
  by (induction "[c]" ps rule: join_with.induct) auto

lemma show_nat_short: "n \<le> 100 \<Longrightarrow> length (show_nat n) \<le> 3"
  by (simp add: show_nat_length_10)

lemma report_frame_length:
  assumes "record_valid r"
  shows "length (report_frame r) \<le> MAX_FRAME_BYTES"
proof -
  have parts: "length (status_word (rec_status r)) \<le> 7" "\<And>k. length (kind_word k) \<le> 10"
    "length (rid_str (rec_id r)) \<le> 128" "\<And>a. rec_app r = Some a \<Longrightarrow> length (app_str a) \<le> 32"
    "\<And>p. progress_of (rec_status r) = Some p \<Longrightarrow> length (show_nat (progress_get p)) \<le> 3"
    using assms show_nat_short
    by (auto simp: status_word_def kind_word_def record_valid_def app_valid_def app_parse_Inr
        is_none_or_iff limit_defs split: program_status.splits blocked_kind.splits
        dest!: rid_valid_length)
  have "sum_list (map (\<lambda>p. Suc (length p)) (report_pairs r)) \<le> 400"
    using parts(1) parts(2) [of "the (kind_of (rec_status r))"] parts(3)
      parts(4) [of "the (rec_app r)"] parts(5) [of "the (progress_of (rec_status r))"]
    by (auto simp: report_pairs_def opt_pair_def split: option.splits)
  with length_join_le [of "CHR '':''" "report_pairs r"] show ?thesis
    by (simp add: report_frame_def frame_intro_def limit_defs)
qed

lemma report_body_bytes:
  assumes "record_valid r" and "c \<in> set (join_with '':'' (report_pairs r))"
  shows "value_byte c \<or> c = CHR '':''"
proof -
  have "c \<in> set (join_with [d] ps) \<Longrightarrow> c = d \<or> (\<exists>p \<in> set ps. c \<in> set p)" for d ps
    by (induction "[d]" ps rule: join_with.induct) auto
  with assms show ?thesis by (fastforce simp: list_all_iff dest: report_pairs_bytes)
qed

section \<open>Properties\<close>

definition sample_frame :: string where
  "sample_frame = ESC # '']7501;state=blocked:kind=question:id=a/b:progress=007'' @ [BEL]"

definition sample_record :: program_record where
  "sample_record = \<lparr>rec_id = RecordId ''a/b'',
     rec_status = PBlocked (Some KQuestion) (Some (Progress 7)),
     rec_app = None, rec_title = None, rec_msg = None\<rparr>"

definition no_base64 :: base64 where "no_base64 = (\<lambda>_ _ _. None)"

lemma sample_frame_parses:
  "parse_frame no_base64 sample_frame = Inr (Command (Replace sample_record))"
  by code_simp

lemma parse_frame_command_valid:
  assumes "parse_frame b64 frame = Inr (Command c)"
  shows "command_valid c"
  using assms
proof (cases rule: parse_frame_InrE)
  case (report body ps)
  then show ?thesis
    using parse_pairs_ok [OF _ parse_init_ok] parse_finish_valid by metis
qed simp

text \<open>C31 (parse_frame_valid). Whatever base64 decoder is used, a frame the parser accepts carries a
  well-formed command: the record identifier is the root or a valid path (at most 128 bytes and 8
  segments of at most 32 identifier bytes), the application identifier is valid, title and message
  are valid UTF-8 within 192 and 2048 bytes and free of control characters, and the progress is at
  most 100. So nothing outside these bounds can be retained.\<close>
theorem parse_frame_valid:
  assumes "parse_frame b64 frame = Inr (Command c)"
  shows "command_valid c"
  using assms by (rule parse_frame_command_valid)

theorem parse_frame_valid_witness: "command_valid (Replace sample_record)"
  by (rule parse_frame_valid [OF sample_frame_parses])

text \<open>A report that addresses a record at all, validly or not, is never
  taken as a report about the root: if any pair of the frame has the key \<open>id\<close>, an accepted command
  names a record other than the root.\<close>
theorem addressed_never_root:
  assumes "frame_pairs frame = Some pairs" and "addressed pairs"
    and "parse_frame b64 frame = Inr (Command c)"
  shows "case c of Replace r \<Rightarrow> rec_id r \<noteq> ROOT | Clear i \<Rightarrow> i \<noteq> ROOT | Query \<Rightarrow> False"
proof -
  obtain body rest where body: "strip_prefix frame_intro frame = Some rest"
    "frame_body rest = Some body" "pairs = split_on (CHR '':'') body"
    using assms(1) by (auto simp: frame_pairs_def bind_Some_iff)
  then have "body \<noteq> ''?''" using assms(2) by (auto simp: addressed_def pair_key_def)
  with body assms(3) obtain ps where
    "parse_pairs b64 pairs parse_init = Inr ps" "parse_finish ps = Command c"
    by (auto simp: parse_frame_def split: if_splits sum.splits)
  moreover from this(1) assms(2) have "id_pinned ps" by (blast intro: parse_pairs_pinned)
  ultimately show ?thesis
    by (auto simp: parse_finish_def id_pinned_def Let_def split: if_splits option.splits)
qed

theorem addressed_never_root_witness: "rec_id sample_record \<noteq> ROOT"
proof -
  have "frame_pairs sample_frame
      = Some [''state=blocked'', ''kind=question'', ''id=a/b'', ''progress=007'']"
    by code_simp
  moreover have "addressed [''state=blocked'', ''kind=question'', ''id=a/b'', ''progress=007'']"
    by code_simp
  ultimately show ?thesis
    using addressed_never_root [OF _ _ sample_frame_parses] by simp
qed

text \<open>The parser is complete for records without text: every well-formed
  record that carries neither title nor message is the parse of the frame that spells its status,
  identifier, kind, progress and application out, whatever base64 decoder is used.\<close>
theorem parse_report_frame:
  assumes "record_valid r" and "rec_title r = None" and "rec_msg r = None"
  shows "parse_frame b64 (report_frame r) = Inr (Command (Replace r))"
proof -
  let ?body = "join_with '':'' (report_pairs r)"
  have nonsep: "c \<noteq> ESC \<and> c \<noteq> BEL" if "c \<in> set ?body" for c
    using report_body_bytes [OF assms(1) that] value_byte_not_sep by (auto simp: ESC_def BEL_def)
  have "frame_body (?body @ [BEL]) = Some ?body"
    by (auto simp: frame_body_def strip_suffix_def ESC_def BEL_def)
  moreover have "split_on (CHR '':'') ?body = report_pairs r"
    using report_pairs_bytes [OF assms(1)] value_byte_not_sep
    by (intro split_on_join) (auto simp: report_pairs_def list_all_iff)
  moreover have "?body \<noteq> ''?''"
    by (cases "tl (report_pairs r)") (simp_all add: report_pairs_def join_with_Cons)
  ultimately show ?thesis
    using report_frame_length [OF assms(1)] parse_report_pairs [OF assms, of b64] nonsep
    by (auto simp: parse_frame_def report_frame_def strip_prefix_def list_ex_iff)
qed

theorem parse_report_frame_witness:
  "parse_frame no_base64 (report_frame sample_record) = Inr (Command (Replace sample_record))"
  by (rule parse_report_frame) code_simp+

text \<open>The checked 8-bit fold that reads a progress value never loses or
  invents one: it answers exactly the decimal value of a nonempty run of digits that is at most 100,
  leading zeroes included, and nothing otherwise.\<close>
theorem progress_reads_decimal:
  "parse_progress v =
     (if v \<noteq> [] \<and> list_all is_digit v \<and> digits_val v \<le> 100
      then Some (Progress (digits_val v)) else None)"
  by (rule parse_progress_value)

end
