(* ===== verification/Program_Store.thy ===== *)
theory Program_Store
  imports Program_Types "HOL-Library.Product_Lexorder" "HOL-Library.Multiset"
begin

text \<open>
  The bounded record store of OSC 7501 reports (\<open>program_status/store.rs\<close>) and the projection of a
  selection out of it (\<open>program_status/project.rs\<close>): definitions only. The invariant and the
  properties are in \<open>Store_Invariant\<close> and \<open>Store_Properties\<close>. A panic of the source (an exhausted
  counter) is \<^const>\<open>None\<close>.
\<close>

section \<open>Iterator helpers of the standard library\<close>

text \<open>\<open>max_by_key\<close> keeps the last of several maxima, \<open>min_by_key\<close> the first minimum.\<close>

fun max_by_key :: "('a \<Rightarrow> 'k::linorder) \<Rightarrow> 'a list \<Rightarrow> 'a option" where
  "max_by_key k [] = None"
| "max_by_key k (x # xs) = Some (foldl (\<lambda>b y. if k b \<le> k y then y else b) x xs)"

fun min_by_key :: "('a \<Rightarrow> 'k::linorder) \<Rightarrow> 'a list \<Rightarrow> 'a option" where
  "min_by_key k [] = None"
| "min_by_key k (x # xs) = Some (foldl (\<lambda>b y. if k y < k b then y else b) x xs)"

text \<open>\<open>position\<close> followed by \<open>Vec::remove\<close>: the first match and the list without it.\<close>

fun take_out :: "('a \<Rightarrow> bool) \<Rightarrow> 'a list \<Rightarrow> 'a option \<times> 'a list" where
  "take_out p [] = (None, [])"
| "take_out p (x # xs) =
     (if p x then (Some x, xs) else (case take_out p xs of (m, ys) \<Rightarrow> (m, x # ys)))"

definition remove_at :: "nat \<Rightarrow> 'a list \<Rightarrow> 'a list" where
  "remove_at i xs = take i xs @ drop (Suc i) xs"

section \<open>State\<close>

type_synonym episode_id = u64
type_synonym result_generation = u64
type_synonym work_cycle = u64

record live_episode =
  live_owner :: episode_id
  live_apps :: "app_id list"

definition live_matches :: "live_episode \<Rightarrow> app_id \<Rightarrow> bool" where
  "live_matches live app = list_ex (\<lambda>a. a = app) (live_apps live)"

record result_memory =
  rm_owner :: "episode_id option"
  rm_generation :: result_generation
  rm_cycle :: work_cycle
  rm_presented :: bool
  rm_acknowledged :: bool
  rm_superseded :: bool

record stored_record =
  sr_record :: program_record
  sr_updated :: u64
  sr_at :: u64
  sr_observed_owner :: "episode_id option"
  sr_owner :: "episode_id option"
  sr_historical :: bool
  sr_generation :: result_generation
  sr_result :: "result_memory option"

record record_store =
  st_records :: "stored_record list"
  st_ordinal :: u64
  st_cycle :: work_cycle
  st_active_owner :: "episode_id option"
  st_resets :: "(record_id \<times> bool) list"
  st_reset_all :: bool

abbreviation sr_id :: "stored_record \<Rightarrow> record_id" where
  "sr_id e \<equiv> rec_id (sr_record e)"

abbreviation sr_status :: "stored_record \<Rightarrow> program_status" where
  "sr_status e \<equiv> rec_status (sr_record e)"

definition store_new :: record_store where
  "store_new = \<lparr>st_records = [], st_ordinal = 0, st_cycle = 0, st_active_owner = None,
     st_resets = [], st_reset_all = False\<rparr>"

fun is_working :: "program_status \<Rightarrow> bool" where
  "is_working (PWorking _) = True" | "is_working _ = False"

fun is_blocked :: "program_status \<Rightarrow> bool" where
  "is_blocked (PBlocked _ _) = True" | "is_blocked _ = False"

fun is_result_status :: "program_status \<Rightarrow> bool" where
  "is_result_status PDone = True" | "is_result_status PError = True" | "is_result_status _ = False"

section \<open>Queries\<close>

definition effective_app :: "record_store \<Rightarrow> record_id \<Rightarrow> app_id option" where
  "effective_app st i =
     map_option snd
       (max_by_key fst
         (List.map_filter
           (\<lambda>e. map_option (\<lambda>app. (length (rid_str (sr_id e)), app)) (rec_app (sr_record e)))
           (filter (\<lambda>e. rid_contains (sr_id e) i) (st_records st))))"

definition has_anchor :: "record_store \<Rightarrow> record_id \<Rightarrow> live_episode \<Rightarrow> bool" where
  "has_anchor st i live =
     list_ex (\<lambda>anc. sr_observed_owner anc = Some (live_owner live) \<and> \<not> sr_historical anc
                    \<and> rid_contains (sr_id anc) i
                    \<and> (sr_owner anc = Some (live_owner live)
                       \<or> is_some_and (rec_app (sr_record anc)) (live_matches live)))
       (st_records st)"

definition eligible :: "record_store \<Rightarrow> stored_record \<Rightarrow> live_episode \<Rightarrow> bool" where
  "eligible st e live =
     (\<not> sr_historical e \<and> sr_owner e = Some (live_owner live)
      \<and> is_none_or (effective_app st (sr_id e)) (live_matches live))"

definition has_activity :: "record_store \<Rightarrow> live_episode \<Rightarrow> bool" where
  "has_activity st live =
     list_ex (\<lambda>e. eligible st e live \<and> (is_working (sr_status e) \<or> is_blocked (sr_status e)))
       (st_records st)"

definition recovery_retained_bytes :: "record_store \<Rightarrow> nat" where
  "recovery_retained_bytes st = sum_list (map (\<lambda>(i, _). length (rid_str i)) (st_resets st))"

definition record_bytes :: "program_record \<Rightarrow> nat" where
  "record_bytes r =
     length (rid_str (rec_id r))
     + (case rec_app r of None \<Rightarrow> 0 | Some a \<Rightarrow> length (app_str a))
     + (case rec_title r of None \<Rightarrow> 0 | Some t \<Rightarrow> length t)
     + (case rec_msg r of None \<Rightarrow> 0 | Some t \<Rightarrow> length t)"

definition retained_bytes :: "record_store \<Rightarrow> nat" where
  "retained_bytes st =
     sum_list (map (\<lambda>e. record_bytes (sr_record e)) (st_records st)) + recovery_retained_bytes st"

definition recovery_reservation :: "record_store \<Rightarrow> program_command \<Rightarrow> nat" where
  "recovery_reservation st c =
     recovery_retained_bytes st
     + (case c of
          Replace r \<Rightarrow> if rec_status r = PIdle then length (rid_str (rec_id r)) else 0
        | Clear i \<Rightarrow> length (rid_str i)
        | Query \<Rightarrow> 0)"

definition recovery_reset_for :: "record_store \<Rightarrow> record_id \<Rightarrow> bool" where
  "recovery_reset_for st i =
     (st_reset_all st
      \<or> list_ex (\<lambda>(reset, wide). if wide then rid_contains reset i else reset = i) (st_resets st))"

section \<open>Recovery resets\<close>

definition note_recovery_reset :: "record_id \<Rightarrow> bool \<Rightarrow> record_store \<Rightarrow> record_store" where
  "note_recovery_reset i subtree st =
     (if st_reset_all st
         \<or> list_ex (\<lambda>(reset, wide).
               if wide then rid_contains reset i else \<not> subtree \<and> reset = i) (st_resets st)
      then st
      else
        let kept = (if subtree then filter (\<lambda>(reset, _). \<not> rid_contains i reset) (st_resets st)
                    else st_resets st)
        in if length kept = MAX_RECORDS \<or> subtree \<and> rid_is_root i
           then st\<lparr>st_resets := [], st_reset_all := True\<rparr>
           else st\<lparr>st_resets := kept @ [(i, subtree)]\<rparr>)"

section \<open>Applying a command\<close>

definition next_ordinal :: "record_store \<Rightarrow> (u64 \<times> record_store) option" where
  "next_ordinal st =
     map_option (\<lambda>n. (n, st\<lparr>st_ordinal := n\<rparr>)) (checked_add (st_ordinal st) 1)"

text \<open>The eviction of the entry updated longest ago, at capacity only.\<close>

definition evict_oldest :: "stored_record list \<Rightarrow> stored_record list option" where
  "evict_oldest rs =
     (if length rs = MAX_RECORDS
      then map_option (\<lambda>(i, _). remove_at i rs)
             (min_by_key (\<lambda>(_, e). sr_updated e) (List.enumerate 0 rs))
      else Some rs)"

text \<open>What the replacement of a record tells the rest of \<open>apply\<close>.\<close>

record replace_flags =
  rf_idle_reset :: bool
  rf_dialog_restore :: bool
  rf_reported_activity :: bool

definition no_flags :: replace_flags where
  "no_flags = \<lparr>rf_idle_reset = False, rf_dialog_restore = False, rf_reported_activity = False\<rparr>"

definition report_eligible ::
  "record_store \<Rightarrow> program_record \<Rightarrow> stored_record option \<Rightarrow> live_episode option \<Rightarrow> bool" where
  "report_eligible st r lineage episode =
     is_some_and episode (\<lambda>live.
       is_none_or (case rec_app r of Some a \<Rightarrow> Some a | None \<Rightarrow> effective_app st (rec_id r))
         (live_matches live)
       \<and> (is_some_and (rec_app r) (live_matches live)
          \<or> is_some_and lineage (\<lambda>old. sr_owner old = Some (live_owner live))
          \<or> has_anchor st (rec_id r) live))"

definition resets_result :: "bool \<Rightarrow> program_status \<Rightarrow> stored_record option \<Rightarrow> bool" where
  "resets_result elig status lineage =
     is_none_or lineage (\<lambda>old.
       elig \<and> (if is_working status \<and> is_working (sr_status old)
                  \<or> status = PIdle \<and> sr_status old = PIdle
               then sr_result old \<noteq> None
               else is_working status \<or> status = PIdle))"

definition lineage_of :: "live_episode option \<Rightarrow> stored_record option \<Rightarrow> stored_record option" where
  "lineage_of episode previous =
     option_filter
       (\<lambda>old. sr_observed_owner old = map_option live_owner episode \<and> \<not> sr_historical old) previous"

definition flags_of :: "bool \<Rightarrow> program_status \<Rightarrow> stored_record option \<Rightarrow> replace_flags" where
  "flags_of elig status lineage =
     (let had_result = is_some_and lineage (\<lambda>old. sr_result old \<noteq> None);
          dialog_restore = (elig \<and> is_blocked status \<and> had_result)
      in \<lparr>rf_idle_reset = (elig \<and> status = PIdle \<and> had_result),
          rf_dialog_restore = dialog_restore,
          rf_reported_activity =
            (elig \<and> (is_working status \<or> is_blocked status \<and> \<not> dialog_restore))\<rparr>)"

text \<open>The entry that is pushed: generation and result memory are carried over from the lineage, or
  start afresh. The \<open>unwrap\<close> of the lineage is the option.\<close>

definition replace_result ::
  "program_status \<Rightarrow> bool \<Rightarrow> stored_record option \<Rightarrow> result_generation \<Rightarrow> work_cycle
     \<Rightarrow> result_memory option" where
  "replace_result status reset lineage generation cycle =
     (let result0 = (if reset then None else Option.bind lineage sr_result)
      in if is_result_status status \<and> result0 = None
         then Some \<lparr>rm_owner = None, rm_generation = generation, rm_cycle = cycle,
                    rm_presented = False, rm_acknowledged = False, rm_superseded = False\<rparr>
         else result0)"

definition replace_entry ::
  "program_record \<Rightarrow> u64 \<Rightarrow> live_episode option \<Rightarrow> u64 \<Rightarrow> bool \<Rightarrow> stored_record option \<Rightarrow> work_cycle
     \<Rightarrow> stored_record option" where
  "replace_entry r at episode ordinal reset lineage cycle =
     map_option (\<lambda>generation.
       \<lparr>sr_record = r, sr_updated = ordinal, sr_at = at,
        sr_observed_owner = map_option live_owner episode,
        sr_owner = Option.bind lineage sr_owner, sr_historical = False,
        sr_generation = generation,
        sr_result = replace_result (rec_status r) reset lineage generation cycle\<rparr>)
     (if reset then Some ordinal else map_option sr_generation lineage)"

definition replace_record ::
  "program_record \<Rightarrow> u64 \<Rightarrow> live_episode option \<Rightarrow> record_store
     \<Rightarrow> (replace_flags \<times> record_store) option" where
  "replace_record r at episode st0 =
     Option.bind (next_ordinal st0) (\<lambda>(ordinal, st1).
       case take_out (\<lambda>e. sr_id e = rec_id r) (st_records st1) of (previous, rest) \<Rightarrow>
       Option.bind (evict_oldest rest) (\<lambda>kept.
         let st2 = st1\<lparr>st_records := kept\<rparr>;
             lineage = lineage_of episode previous;
             elig = report_eligible st2 r lineage episode;
             reset = resets_result elig (rec_status r) lineage;
             st3 = (if elig \<and> rec_status r = PIdle
                    then note_recovery_reset (rec_id r) False st2 else st2)
         in map_option (\<lambda>entry. (flags_of elig (rec_status r) lineage,
                                 st3\<lparr>st_records := st_records st3 @ [entry]\<rparr>))
              (replace_entry r at episode ordinal reset lineage (st_cycle st3))))"

definition clear_subtree :: "record_id \<Rightarrow> record_store \<Rightarrow> record_store" where
  "clear_subtree i st0 =
     (let st = note_recovery_reset i True st0
      in st\<lparr>st_records := filter (\<lambda>e. \<not> rid_contains i (sr_id e)) (st_records st)\<rparr>)"

text \<open>\<open>reconcile_ownership\<close>: every owner is computed from the store before any is written.\<close>

definition reconciled_owner :: "record_store \<Rightarrow> live_episode \<Rightarrow> stored_record \<Rightarrow> episode_id option" where
  "reconciled_owner st live e =
     (if sr_historical e \<or> sr_observed_owner e \<noteq> Some (live_owner live) then None
      else if is_some_and (effective_app st (sr_id e)) (\<lambda>app. \<not> live_matches live app) then None
      else if has_anchor st (sr_id e) live \<or> sr_owner e = Some (live_owner live)
           then Some (live_owner live) else None)"

definition reconcile_ownership :: "live_episode \<Rightarrow> record_store \<Rightarrow> record_store" where
  "reconcile_ownership live st =
     st\<lparr>st_records := map (\<lambda>e. e\<lparr>sr_owner := reconciled_owner st live e\<rparr>) (st_records st)\<rparr>"

text \<open>The loop over the results after a cycle decision.\<close>

definition settle_result ::
  "live_episode \<Rightarrow> bool \<Rightarrow> work_cycle \<Rightarrow> stored_record \<Rightarrow> stored_record" where
  "settle_result live starts cycle e =
     (case sr_result e of
        None \<Rightarrow> e
      | Some result \<Rightarrow>
          if rm_owner result = Some (live_owner live) \<and> starts
          then e\<lparr>sr_result := Some (result\<lparr>rm_superseded := True\<rparr>)\<rparr>
          else if rm_owner result = None \<and> sr_owner e = Some (live_owner live)
          then e\<lparr>sr_result := Some (result\<lparr>rm_owner := Some (live_owner live), rm_cycle := cycle\<rparr>)\<rparr>
          else e)"

definition starts_cycle ::
  "record_store \<Rightarrow> live_episode \<Rightarrow> bool \<Rightarrow> replace_flags \<Rightarrow> bool" where
  "starts_cycle st live was_active fl =
     (let is_active = has_activity st live;
          changed_eligible = (st_records st \<noteq> [] \<and> eligible st (last (st_records st)) live)
      in is_active
           \<and> (\<not> was_active \<and> \<not> rf_dialog_restore fl
              \<or> st_active_owner st \<noteq> Some (live_owner live) \<and> rf_reported_activity fl
                \<and> changed_eligible)
         \<or> rf_idle_reset fl \<and> \<not> was_active \<and> changed_eligible)"

definition settle_episode ::
  "live_episode \<Rightarrow> bool \<Rightarrow> replace_flags \<Rightarrow> record_store \<Rightarrow> record_store option" where
  "settle_episode live was_active fl st0 =
     (let st = reconcile_ownership live st0;
          is_active = has_activity st live;
          starts = starts_cycle st live was_active fl
      in Option.bind (if starts then checked_add (st_cycle st) 1 else Some (st_cycle st)) (\<lambda>cycle.
         Some (st\<lparr>st_cycle := cycle,
                  st_records := map (settle_result live starts cycle) (st_records st),
                  st_active_owner := (if \<not> is_active then None
                                      else if starts then Some (live_owner live)
                                      else st_active_owner st)\<rparr>)))"

definition store_apply ::
  "program_command \<Rightarrow> u64 \<Rightarrow> live_episode option \<Rightarrow> record_store \<Rightarrow> record_store option" where
  "store_apply command at episode st =
     (let was_active = is_some_and episode (has_activity st);
          settle = (\<lambda>fl st'. case episode of
                               None \<Rightarrow> Some st'
                             | Some live \<Rightarrow> settle_episode live was_active fl st')
      in case command of
           Query \<Rightarrow> Some st
         | Replace r \<Rightarrow>
             Option.bind (replace_record r at episode st) (\<lambda>(fl, st'). settle fl st')
         | Clear i \<Rightarrow> settle no_flags (clear_subtree i st))"

section \<open>Terminal lifecycle and episode invalidation\<close>

definition retire_entry :: "stored_record \<Rightarrow> stored_record" where
  "retire_entry e =
     e\<lparr>sr_historical := True, sr_owner := None,
       sr_result := map_option (\<lambda>r. r\<lparr>rm_owner := None\<rparr>) (sr_result e)\<rparr>"

fun store_lifecycle :: "terminal_lifecycle \<Rightarrow> record_store \<Rightarrow> record_store" where
  "store_lifecycle FullReset st =
     st\<lparr>st_records := [], st_resets := [], st_reset_all := True, st_active_owner := None\<rparr>"
| "store_lifecycle _ st =
     st\<lparr>st_resets := [], st_reset_all := False,
        st_records := map retire_entry (filter (\<lambda>e. is_result_status (sr_status e)) (st_records st)),
        st_active_owner := None\<rparr>"

definition invalidate_episode :: "record_store \<Rightarrow> record_store" where
  "invalidate_episode st =
     st\<lparr>st_resets := [], st_reset_all := False,
        st_records := map (\<lambda>e. (retire_entry e)\<lparr>sr_observed_owner := None\<rparr>) (st_records st),
        st_active_owner := None\<rparr>"

section \<open>Selection\<close>

datatype result_kind = Completion | Failure
datatype result_disposition = DPresented | DAcknowledged

record result_identity =
  ri_owner :: episode_id
  ri_record :: record_id
  ri_generation :: result_generation

record program_result =
  pr_identity :: result_identity
  pr_kind :: result_kind
  pr_cycle :: work_cycle
  pr_pending :: bool

record program_selection =
  sel_owner :: episode_id
  sel_record :: record_id
  sel_updated :: u64
  sel_at :: u64
  sel_protocol :: program_status
  sel_state :: agent_state
  sel_detail :: "detail option"
  sel_result :: "program_result option"
  sel_recovery_reset :: bool

definition result_fresh :: "stored_record \<Rightarrow> result_memory option" where
  "result_fresh e = option_filter (\<lambda>r. \<not> rm_acknowledged r \<and> \<not> rm_superseded r) (sr_result e)"

definition rank :: "stored_record \<Rightarrow> nat" where
  "rank e =
     (case sr_status e of
        PBlocked _ _ \<Rightarrow> 4
      | PWorking _ \<Rightarrow> 3
      | PError \<Rightarrow> if result_fresh e \<noteq> None then 2 else 0
      | PDone \<Rightarrow> if result_fresh e \<noteq> None then 1 else 0
      | PIdle \<Rightarrow> 0)"

definition blocked_detail :: "blocked_kind \<Rightarrow> detail" where
  "blocked_detail k =
     (case k of KPermission \<Rightarrow> ''permission'' | KQuestion \<Rightarrow> ''question'' | KAuth \<Rightarrow> ''auth'')"

definition project_result ::
  "bool \<Rightarrow> live_episode \<Rightarrow> stored_record \<Rightarrow> program_result option" where
  "project_result active live e =
     (if active then None
      else map_option (\<lambda>r.
             \<lparr>pr_identity = \<lparr>ri_owner = live_owner live, ri_record = sr_id e,
                             ri_generation = rm_generation r\<rparr>,
              pr_kind = (if sr_status e = PError then Failure else Completion),
              pr_cycle = rm_cycle r, pr_pending = (\<not> rm_presented r)\<rparr>)
           (option_filter (\<lambda>_. is_result_status (sr_status e)) (result_fresh e)))"

definition project_state :: "stored_record \<Rightarrow> agent_state \<times> detail option" where
  "project_state e =
     (case sr_status e of
        PIdle \<Rightarrow> (Idle, None)
      | PDone \<Rightarrow> (Idle, None)
      | PWorking _ \<Rightarrow> (Working, None)
      | PBlocked kind _ \<Rightarrow> (Blocked, map_option blocked_detail kind)
      | PError \<Rightarrow> (Idle, map_option (\<lambda>_. ''error'') (result_fresh e)))"

definition select_key :: "stored_record \<Rightarrow> nat \<times> u64 \<times> record_id" where
  "select_key e = (rank e, sr_updated e, sr_id e)"

definition select_entry :: "record_store \<Rightarrow> live_episode \<Rightarrow> stored_record option" where
  "select_entry st live =
     max_by_key select_key (filter (\<lambda>e. eligible st e live) (st_records st))"

definition store_select :: "record_store \<Rightarrow> live_episode \<Rightarrow> program_selection option" where
  "store_select st live =
     (let active = has_activity st live in
      map_option (\<lambda>e.
        \<lparr>sel_owner = live_owner live, sel_record = sr_id e, sel_updated = sr_updated e,
         sel_at = sr_at e, sel_protocol = sr_status e,
         sel_state = fst (project_state e), sel_detail = snd (project_state e),
         sel_result = project_result active live e,
         sel_recovery_reset = recovery_reset_for st (sr_id e)\<rparr>)
      (select_entry st live))"

section \<open>Presentation and acknowledgement\<close>

definition pending_result :: "program_selection \<Rightarrow> program_result option" where
  "pending_result sel = option_filter pr_pending (sel_result sel)"

definition mark_entry :: "program_result \<Rightarrow> stored_record \<Rightarrow> stored_record" where
  "mark_entry effect e =
     (case sr_result e of
        None \<Rightarrow> e
      | Some result \<Rightarrow>
          if rm_owner result = Some (ri_owner (pr_identity effect)) then
            (if sr_id e = ri_record (pr_identity effect)
                \<and> rm_generation result = ri_generation (pr_identity effect)
             then e\<lparr>sr_result := Some (result\<lparr>rm_presented := True\<rparr>)\<rparr>
             else if rm_cycle result \<le> pr_cycle effect
             then e\<lparr>sr_result := Some (result\<lparr>rm_superseded := True\<rparr>)\<rparr>
             else e)
          else e)"

definition mark_presented ::
  "program_selection \<Rightarrow> live_episode \<Rightarrow> record_store \<Rightarrow> bool \<times> record_store" where
  "mark_presented sel live st =
     (case pending_result sel of
        None \<Rightarrow> (False, st)
      | Some effect \<Rightarrow>
          if live_owner live \<noteq> sel_owner sel then (False, st)
          else if has_activity st live then (False, st)
          else (case store_select st live of
                  None \<Rightarrow> (False, st)
                | Some current \<Rightarrow>
                    if sel_record current \<noteq> sel_record sel
                       \<or> sel_updated current \<noteq> sel_updated sel
                       \<or> map_option pr_identity (pending_result current) \<noteq> Some (pr_identity effect)
                    then (False, st)
                    else (True, st\<lparr>st_records := map (mark_entry effect) (st_records st)\<rparr>)))"

text \<open>\<open>iter_mut().find\<close>: the first match is the only entry that is written.\<close>

fun update_first :: "('a \<Rightarrow> bool) \<Rightarrow> ('a \<Rightarrow> 'a option) \<Rightarrow> 'a list \<Rightarrow> 'a list option" where
  "update_first p f [] = None"
| "update_first p f (x # xs) =
     (if p x then map_option (\<lambda>y. y # xs) (f x)
      else map_option (\<lambda>ys. x # ys) (update_first p f xs))"

definition acknowledge :: "result_identity \<Rightarrow> record_store \<Rightarrow> bool \<times> record_store" where
  "acknowledge ident st =
     (case update_first
             (\<lambda>e. sr_owner e = Some (ri_owner ident) \<and> sr_id e = ri_record ident)
             (\<lambda>e. map_option (\<lambda>r. e\<lparr>sr_result := Some (r\<lparr>rm_acknowledged := True\<rparr>)\<rparr>)
                    (option_filter (\<lambda>r. rm_generation r = ri_generation ident \<and> rm_presented r)
                      (sr_result e)))
             (st_records st) of
        None \<Rightarrow> (False, st)
      | Some rs \<Rightarrow> (True, st\<lparr>st_records := rs\<rparr>))"

text \<open>The \<open>unwrap\<close> of the selection's result is the outer option.\<close>

definition reconcile_result ::
  "program_selection \<Rightarrow> live_episode \<Rightarrow> result_disposition \<Rightarrow> record_store
     \<Rightarrow> (bool \<times> record_store) option" where
  "reconcile_result sel live disposition st =
     (case mark_presented sel live st of
        (False, st1) \<Rightarrow> Some (False, st1)
      | (True, st1) \<Rightarrow>
          (case disposition of
             DPresented \<Rightarrow> Some (True, st1)
           | DAcknowledged \<Rightarrow>
               map_option (\<lambda>r. acknowledge (pr_identity r) st1) (sel_result sel)))"

definition retains_result :: "record_store \<Rightarrow> result_identity \<Rightarrow> work_cycle \<Rightarrow> bool" where
  "retains_result st ident cycle =
     list_ex (\<lambda>e. sr_id e = ri_record ident
                  \<and> is_some_and (sr_result e) (\<lambda>r.
                      rm_owner r = Some (ri_owner ident)
                      \<and> rm_generation r = ri_generation ident
                      \<and> rm_cycle r = cycle \<and> \<not> rm_superseded r))
       (st_records st)"

end
