(* ===== verification/Store_Invariant.thy ===== *)
theory Store_Invariant
  imports Program_Store
begin

text \<open>
  The invariant of the record store and its preservation by every operation, the runs of a store as
  an inductive relation, and the invariant of all reachable stores. The iterator helpers get their
  specifications here.
\<close>

section \<open>Specifications of the iterator helpers\<close>

lemma foldl_max:
  fixes k :: "'a \<Rightarrow> 'k::linorder"
  defines "m \<equiv> \<lambda>x xs. foldl (\<lambda>b y. if k b \<le> k y then y else b) x xs"
  shows "m x xs \<in> insert x (set xs) \<and> (\<forall>y \<in> insert x (set xs). k y \<le> k (m x xs))"
proof (induction xs arbitrary: x)
  case Nil
  then show ?case by (simp add: m_def)
next
  case (Cons y ys)
  show ?case
  proof (cases "k x \<le> k y")
    case True
    then have "m x (y # ys) = m y ys" by (simp add: m_def)
    moreover have "k x \<le> k (m y ys)" using True Cons.IH [of y] by (auto intro: order_trans)
    ultimately show ?thesis using Cons.IH [of y] by auto
  next
    case False
    then have "m x (y # ys) = m x ys" by (simp add: m_def)
    moreover have "k y \<le> k (m x ys)" using False Cons.IH [of x] by (auto intro: order_trans)
    ultimately show ?thesis using Cons.IH [of x] by auto
  qed
qed

lemma max_by_key_Some:
  assumes "max_by_key k xs = Some x"
  shows "x \<in> set xs" and "y \<in> set xs \<Longrightarrow> k y \<le> k x"
  using assms foldl_max [of k] by (cases xs; fastforce)+

lemma max_by_key_None [simp]: "max_by_key k xs = None \<longleftrightarrow> xs = []"
  by (cases xs) simp_all

text \<open>With distinct keys the maximum does not depend on the order of the list.\<close>

lemma max_by_key_unique:
  assumes "inj_on k (set xs)" and "set xs = set ys"
  shows "max_by_key k xs = max_by_key k ys"
proof (cases "max_by_key k xs")
  case None
  with assms(2) show ?thesis by simp
next
  case (Some x)
  then obtain y where y: "max_by_key k ys = Some y"
    using assms(2) by (cases "max_by_key k ys") auto
  have "k x = k y"
    using max_by_key_Some [OF Some] max_by_key_Some [OF y] assms(2) by (simp add: order.antisym)
  then have "x = y"
    using assms max_by_key_Some(1) [OF Some] max_by_key_Some(1) [OF y] by (auto dest: inj_onD)
  with Some y show ?thesis by simp
qed

lemma min_by_key_first:
  "\<forall>y \<in> set xs. \<not> k y < k x \<Longrightarrow> min_by_key k (x # xs) = Some x"
proof -
  assume "\<forall>y \<in> set xs. \<not> k y < k x"
  then have "foldl (\<lambda>b y. if k y < k b then y else b) x xs = x"
    by (induction xs) auto
  then show ?thesis by simp
qed

lemma take_out_None: "take_out p xs = (None, ys) \<Longrightarrow> ys = xs \<and> (\<forall>x \<in> set xs. \<not> p x)"
  by (induction xs arbitrary: ys) (auto split: if_splits prod.splits)

lemma take_out_Some:
  "take_out p xs = (Some x, ys) \<Longrightarrow> \<exists>as bs. xs = as @ x # bs \<and> ys = as @ bs \<and> p x \<and> (\<forall>a \<in> set as. \<not> p a)"
proof (induction xs arbitrary: ys)
  case (Cons z zs)
  show ?case
  proof (cases "p z")
    case True
    with Cons.prems show ?thesis by (intro exI [of _ "[]"] exI [of _ zs]) simp
  next
    case False
    with Cons.prems obtain ys' where "take_out p zs = (Some x, ys')" "ys = z # ys'"
      by (auto split: prod.splits)
    with Cons.IH obtain as bs where "zs = as @ x # bs" "ys' = as @ bs" "p x" "\<forall>a \<in> set as. \<not> p a"
      by blast
    with False \<open>ys = z # ys'\<close> show ?thesis by (intro exI [of _ "z # as"] exI [of _ bs]) simp
  qed
qed simp

section \<open>Well-formed entries\<close>

text \<open>
  An entry is never newer than the store's ordinal, its result generation is the one of its result,
  and an owner is always the episode under which the record was observed, never a past one.
\<close>

definition entry_wf :: "u64 \<Rightarrow> work_cycle \<Rightarrow> stored_record \<Rightarrow> bool" where
  "entry_wf ord cyc e =
     (sr_updated e \<le> ord \<and> sr_generation e \<le> sr_updated e
      \<and> is_none_or (sr_owner e) (\<lambda>w. sr_observed_owner e = Some w \<and> \<not> sr_historical e)
      \<and> is_none_or (sr_result e) (\<lambda>r. rm_generation r = sr_generation e \<and> rm_cycle r \<le> cyc))"

definition entries_wf :: "u64 \<Rightarrow> work_cycle \<Rightarrow> stored_record list \<Rightarrow> bool" where
  "entries_wf ord cyc rs =
     (distinct (map sr_id rs) \<and> sorted_wrt (<) (map sr_updated rs)
      \<and> (\<forall>e \<in> set rs. entry_wf ord cyc e) \<and> length rs \<le> MAX_RECORDS)"

definition resets_wf :: "record_store \<Rightarrow> bool" where
  "resets_wf st =
     (length (st_resets st) \<le> MAX_RECORDS \<and> (st_reset_all st \<longrightarrow> st_resets st = []))"

definition store_wf :: "record_store \<Rightarrow> bool" where
  "store_wf st = (entries_wf (st_ordinal st) (st_cycle st) (st_records st) \<and> resets_wf st)"

lemma entry_wf_mono: "entry_wf o1 c1 e \<Longrightarrow> o1 \<le> o2 \<Longrightarrow> c1 \<le> c2 \<Longrightarrow> entry_wf o2 c2 e"
  by (auto simp: entry_wf_def is_none_or_iff)

lemma entries_wf_mono: "entries_wf o1 c1 rs \<Longrightarrow> o1 \<le> o2 \<Longrightarrow> c1 \<le> c2 \<Longrightarrow> entries_wf o2 c2 rs"
  by (auto simp: entries_wf_def intro: entry_wf_mono)

lemma entries_wf_filter: "entries_wf ord cyc rs \<Longrightarrow> entries_wf ord cyc (filter p rs)"
  unfolding entries_wf_def
  by (auto simp: distinct_map_filter sorted_wrt_map sorted_wrt_filter
      intro: order_trans [OF length_filter_le])

lemma entries_wf_drop_middle: "entries_wf ord cyc (as @ x # bs) \<Longrightarrow> entries_wf ord cyc (as @ bs)"
  by (auto simp: entries_wf_def sorted_wrt_append)

lemma entries_wf_tl: "entries_wf ord cyc rs \<Longrightarrow> entries_wf ord cyc (tl rs)"
  by (cases rs) (auto simp: entries_wf_def)

text \<open>An update that keeps identifiers and ordinals, and keeps each entry well formed.\<close>

lemma entries_wf_map:
  assumes "entries_wf ord cyc rs"
    and "\<And>e. e \<in> set rs \<Longrightarrow> sr_id (f e) = sr_id e \<and> sr_updated (f e) = sr_updated e"
    and "\<And>e. e \<in> set rs \<Longrightarrow> entry_wf ord cyc e \<Longrightarrow> entry_wf ord' cyc' (f e)"
  shows "entries_wf ord' cyc' (map f rs)"
proof -
  have "map sr_id (map f rs) = map sr_id rs" "map sr_updated (map f rs) = map sr_updated rs"
    using assms(2) by (simp_all add: list_eq_iff_nth_eq)
  moreover have "\<forall>e \<in> set (map f rs). entry_wf ord' cyc' e"
    using assms(1,3) by (auto simp: entries_wf_def)
  ultimately show ?thesis
    using assms(1) unfolding entries_wf_def by (metis length_map)
qed

lemma entries_wf_snoc:
  assumes "entries_wf ord cyc rs" and "length rs < MAX_RECORDS"
    and "sr_id e \<notin> sr_id ` set rs" and "entry_wf ord' cyc e"
    and "ord < sr_updated e" and "ord \<le> ord'"
  shows "entries_wf ord' cyc (rs @ [e])"
  using assms
  by (auto simp: entries_wf_def sorted_wrt_append entry_wf_def is_none_or_iff) 

section \<open>Eviction\<close>

lemma evict_oldest_wf:
  assumes "entries_wf ord cyc rs"
  shows "evict_oldest rs = Some (if length rs = MAX_RECORDS then tl rs else rs)"
proof (cases "length rs = MAX_RECORDS")
  case True
  then obtain x xs where rs: "rs = x # xs" by (cases rs) (auto simp: MAX_RECORDS_def)
  have "min_by_key (\<lambda>(_, e). sr_updated e) (List.enumerate 0 rs) = Some (0, x)"
    unfolding rs enumerate_simps
  proof (rule min_by_key_first, safe)
    fix i e
    assume "(i, e) \<in> set (List.enumerate (Suc 0) xs)"
    then have "e \<in> set xs" by (auto simp: in_set_enumerate_eq intro!: nth_mem)
    then have "sr_updated x < sr_updated e" using assms rs by (auto simp: entries_wf_def)
    moreover assume "sr_updated e < sr_updated x"
    ultimately show False by simp
  qed
  with True rs show ?thesis by (simp add: evict_oldest_def remove_at_def)
next
  case False
  then show ?thesis by (simp add: evict_oldest_def)
qed

section \<open>Every operation preserves the invariant\<close>

lemma store_wf_new: "store_wf store_new"
  by (simp add: store_wf_def store_new_def entries_wf_def resets_wf_def)

lemma note_reset_fields [simp]:
  "st_records (note_recovery_reset i w st) = st_records st"
  "st_ordinal (note_recovery_reset i w st) = st_ordinal st"
  "st_cycle (note_recovery_reset i w st) = st_cycle st"
  "st_active_owner (note_recovery_reset i w st) = st_active_owner st"
  by (simp_all add: note_recovery_reset_def Let_def)

lemma note_reset_wf: "resets_wf st \<Longrightarrow> resets_wf (note_recovery_reset i w st)"
proof -
  assume wf: "resets_wf st"
  have "length (filter (\<lambda>(reset, _). \<not> rid_contains i reset) (st_resets st)) \<le> MAX_RECORDS"
    using wf by (auto simp: resets_wf_def intro: order_trans [OF length_filter_le])
  with wf show ?thesis
    by (auto simp: note_recovery_reset_def resets_wf_def Let_def)
qed

lemma clear_subtree_wf: "store_wf st \<Longrightarrow> store_wf (clear_subtree i st)"
  using note_reset_wf [of st i True]
  by (simp add: store_wf_def clear_subtree_def Let_def entries_wf_filter resets_wf_def)

lemma next_ordinal_Some:
  "next_ordinal st = Some (n, st1) \<longleftrightarrow>
     n = Suc (st_ordinal st) \<and> n \<le> u64_max \<and> st1 = st\<lparr>st_ordinal := n\<rparr>"
  by (auto simp: next_ordinal_def)

text \<open>Taking the previous record out and evicting leaves a well-formed list with room for one
  entry and without the identifier.\<close>

lemma removal_wf:
  assumes "entries_wf ord cyc rs" and "take_out (\<lambda>e. sr_id e = i) rs = (previous, rest)"
    and "evict_oldest rest = Some kept"
  shows "entries_wf ord cyc kept" and "length kept < MAX_RECORDS" and "i \<notin> sr_id ` set kept"
    and "set kept \<subseteq> set rs" and "is_none_or previous (\<lambda>old. old \<in> set rs \<and> sr_id old = i)"
proof -
  have rest: "entries_wf ord cyc rest \<and> i \<notin> sr_id ` set rest \<and> set rest \<subseteq> set rs
      \<and> is_none_or previous (\<lambda>old. old \<in> set rs \<and> sr_id old = i)"
  proof (cases previous)
    case None
    then show ?thesis using assms(1,2) by (auto dest!: take_out_None)
  next
    case (Some old)
    with assms(2) obtain as bs where split: "rs = as @ old # bs" "rest = as @ bs" "sr_id old = i"
      using take_out_Some [of "\<lambda>e. sr_id e = i" rs old rest] by auto
    have "entries_wf ord cyc rest"
      using assms(1) unfolding split(1,2) by (rule entries_wf_drop_middle)
    moreover have "i \<notin> sr_id ` set rest" using assms(1) split by (auto simp: entries_wf_def)
    ultimately show ?thesis using split Some by auto
  qed
  have kept: "kept = (if length rest = MAX_RECORDS then tl rest else rest)"
    using evict_oldest_wf [of ord cyc rest] rest assms(3) by (auto split: if_splits)
  have sub: "set kept \<subseteq> set rest"
    unfolding kept by (cases rest) auto
  show "entries_wf ord cyc kept" using rest entries_wf_tl unfolding kept by auto
  show "length kept < MAX_RECORDS"
    using rest unfolding kept by (auto simp: entries_wf_def MAX_RECORDS_def)
  show "i \<notin> sr_id ` set kept" "set kept \<subseteq> set rs" using rest sub by auto
  show "is_none_or previous (\<lambda>old. old \<in> set rs \<and> sr_id old = i)" using rest by blast
qed

lemma replace_record_cases:
  assumes "replace_record r at episode st = Some (fl, st')"
  obtains previous rest kept lineage elig reset entry st2 st3 where
    "take_out (\<lambda>e. sr_id e = rec_id r) (st_records st) = (previous, rest)"
    "evict_oldest rest = Some kept"
    "lineage = lineage_of episode previous"
    "st2 = st\<lparr>st_ordinal := Suc (st_ordinal st), st_records := kept\<rparr>"
    "elig = report_eligible st2 r lineage episode"
    "reset = resets_result elig (rec_status r) lineage"
    "st3 = (if elig \<and> rec_status r = PIdle then note_recovery_reset (rec_id r) False st2 else st2)"
    "replace_entry r at episode (Suc (st_ordinal st)) reset lineage (st_cycle st) = Some entry"
    "fl = flags_of elig (rec_status r) lineage"
    "st' = st3\<lparr>st_records := kept @ [entry]\<rparr>"
    "Suc (st_ordinal st) \<le> u64_max"
proof -
  obtain previous rest where out: "take_out (\<lambda>e. sr_id e = rec_id r) (st_records st) = (previous, rest)"
    by fastforce
  from assms obtain n st1 where n: "next_ordinal st = Some (n, st1)"
    by (auto simp: replace_record_def bind_Some_iff)
  then have n': "n = Suc (st_ordinal st)" "n \<le> u64_max" "st1 = st\<lparr>st_ordinal := n\<rparr>"
    by (simp_all add: next_ordinal_Some)
  from assms n out obtain kept where kept: "evict_oldest rest = Some kept"
    by (auto simp: replace_record_def n' bind_Some_iff)
  define lineage where lineage: "lineage = lineage_of episode previous"
  define st2 where st2: "st2 = st\<lparr>st_ordinal := Suc (st_ordinal st), st_records := kept\<rparr>"
  define elig where elig: "elig = report_eligible st2 r lineage episode"
  define reset where reset: "reset = resets_result elig (rec_status r) lineage"
  define st3 where st3:
    "st3 = (if elig \<and> rec_status r = PIdle then note_recovery_reset (rec_id r) False st2 else st2)"
  have same: "st_cycle st3 = st_cycle st" "st_records st3 = kept"
    by (simp_all add: st3 st2)
  have "map_option (\<lambda>entry. (flags_of elig (rec_status r) lineage,
                             st3\<lparr>st_records := kept @ [entry]\<rparr>))
          (replace_entry r at episode (Suc (st_ordinal st)) reset lineage (st_cycle st)) = Some (fl, st')"
    using assms n out kept n'
    by (auto simp: replace_record_def Let_def lineage st2 elig reset st3 split: if_splits)
  then obtain entry where
    "replace_entry r at episode (Suc (st_ordinal st)) reset lineage (st_cycle st) = Some entry"
    "fl = flags_of elig (rec_status r) lineage" "st' = st3\<lparr>st_records := kept @ [entry]\<rparr>"
    by auto
  from that [OF out kept lineage st2 elig reset st3 this] n' show ?thesis by simp
qed

lemma replace_entry_fields:
  assumes "replace_entry r at episode ordinal reset lineage cycle = Some entry"
  shows "sr_record entry = r" "sr_updated entry = ordinal" "sr_at entry = at"
    "sr_observed_owner entry = map_option live_owner episode"
    "sr_owner entry = Option.bind lineage sr_owner" "\<not> sr_historical entry"
    "sr_result entry = replace_result (rec_status r) reset lineage (sr_generation entry) cycle"
    "if reset then sr_generation entry = ordinal
     else map_option sr_generation lineage = Some (sr_generation entry)"
  using assms by (auto simp: replace_entry_def split: if_splits)

lemma lineage_of_Some:
  "lineage_of episode previous = Some old \<longleftrightarrow>
     previous = Some old \<and> sr_observed_owner old = map_option live_owner episode \<and> \<not> sr_historical old"
  by (auto simp: lineage_of_def option_filter_Some)

text \<open>A report without a lineage always starts a new generation.\<close>

lemma resets_result_None [simp]: "resets_result elig status None"
  by (simp add: resets_result_def)

lemma replace_entry_total:
  "reset = resets_result elig status lineage \<Longrightarrow>
     replace_entry r at episode ordinal reset lineage cycle \<noteq> None"
  by (cases lineage) (auto simp: replace_entry_def)

lemma replace_entry_wf:
  assumes "replace_entry r at episode (Suc ord) reset lineage cyc = Some entry"
    and "lineage = lineage_of episode previous"
    and "is_none_or previous (entry_wf ord cyc)"
  shows "entry_wf (Suc ord) cyc entry"
proof (cases lineage)
  case None
  with assms show ?thesis
    by (auto simp: replace_entry_def entry_wf_def replace_result_def split: if_splits)
next
  case (Some old)
  then have old: "entry_wf ord cyc old" "sr_observed_owner old = map_option live_owner episode"
    using assms(2,3) by (auto simp: lineage_of_Some)
  have "is_none_or (sr_owner old) (\<lambda>w. map_option live_owner episode = Some w)"
    using old by (auto simp: entry_wf_def is_none_or_iff)
  moreover have "is_none_or (sr_result old) (\<lambda>m. rm_generation m = sr_generation old \<and> rm_cycle m \<le> cyc)"
    "sr_generation old \<le> Suc ord"
    using old(1) by (auto simp: entry_wf_def)
  ultimately show ?thesis
    using assms(1) Some
    by (auto simp: replace_entry_def entry_wf_def replace_result_def Let_def is_none_or_iff
        split: if_splits)
qed

lemma replace_record_wf:
  assumes "replace_record r at episode st = Some (fl, st')" and "store_wf st"
  shows "store_wf st'"
  using assms(1)
proof (cases rule: replace_record_cases)
  case (1 previous rest kept lineage elig reset entry st2 st3)
  have es: "entries_wf (st_ordinal st) (st_cycle st) (st_records st)"
    using assms(2) by (simp add: store_wf_def)
  note kept = removal_wf [OF es 1(1,2)]
  have "is_none_or previous (entry_wf (st_ordinal st) (st_cycle st))"
    using kept(5) es by (auto simp: is_none_or_iff entries_wf_def)
  from replace_entry_wf [OF 1(8) 1(3) this]
  have "entry_wf (Suc (st_ordinal st)) (st_cycle st) entry" .
  moreover have "sr_id entry = rec_id r" "sr_updated entry = Suc (st_ordinal st)"
    using replace_entry_fields [OF 1(8)] by simp_all
  ultimately have "entries_wf (Suc (st_ordinal st)) (st_cycle st) (kept @ [entry])"
    using kept(1-3) by (intro entries_wf_snoc [of "st_ordinal st"]) auto
  moreover have "resets_wf st3"
    using assms(2) note_reset_wf [of st2] by (auto simp: 1(7) 1(4) store_wf_def resets_wf_def)
  ultimately show ?thesis
    using 1(4,7,10) by (auto simp: store_wf_def resets_wf_def)
qed

lemma reconciled_owner_wf:
  "reconciled_owner st live e = Some w \<Longrightarrow> sr_observed_owner e = Some w \<and> \<not> sr_historical e"
  by (auto simp: reconciled_owner_def split: if_splits)

lemma reconcile_ownership_wf: "store_wf st \<Longrightarrow> store_wf (reconcile_ownership live st)"
  unfolding store_wf_def reconcile_ownership_def
  by (auto simp: resets_wf_def entry_wf_def is_none_or_iff dest: reconciled_owner_wf
      intro!: entries_wf_map [of "st_ordinal st" "st_cycle st"])

lemma settle_result_wf:
  "entry_wf ord cyc e \<Longrightarrow> cyc \<le> cycle \<Longrightarrow> entry_wf ord cycle (settle_result live starts cycle e)"
  by (auto simp: settle_result_def entry_wf_def is_none_or_iff split: option.splits)

lemma settle_result_id [simp]:
  "sr_record (settle_result live starts cycle e) = sr_record e"
  "sr_updated (settle_result live starts cycle e) = sr_updated e"
  "sr_owner (settle_result live starts cycle e) = sr_owner e"
  "sr_observed_owner (settle_result live starts cycle e) = sr_observed_owner e"
  "sr_historical (settle_result live starts cycle e) = sr_historical e"
  by (auto simp: settle_result_def split: option.splits)

lemma settle_episode_cases:
  assumes "settle_episode live was fl st0 = Some st'"
  obtains st starts cycle where "st = reconcile_ownership live st0"
    "starts = starts_cycle st live was fl"
    "cycle = (if starts then Suc (st_cycle st) else st_cycle st)" "cycle \<le> u64_max \<or> \<not> starts"
    "st' = st\<lparr>st_cycle := cycle, st_records := map (settle_result live starts cycle) (st_records st),
              st_active_owner := (if \<not> has_activity st live then None
                                  else if starts then Some (live_owner live)
                                  else st_active_owner st)\<rparr>"
  using assms unfolding settle_episode_def Let_def
  by (auto simp: bind_Some_iff split: if_splits)

lemma settle_episode_wf:
  assumes "settle_episode live was fl st0 = Some st'" and "store_wf st0"
  shows "store_wf st'"
  using assms(1)
proof (cases rule: settle_episode_cases)
  case (1 st starts cycle)
  have "store_wf st" using assms(2) 1(1) by (simp add: reconcile_ownership_wf)
  then have "entries_wf (st_ordinal st) cycle (map (settle_result live starts cycle) (st_records st))"
    using 1(3) unfolding store_wf_def
    by (auto intro!: entries_wf_map [of "st_ordinal st" "st_cycle st"] settle_result_wf split: if_splits)
  with \<open>store_wf st\<close> show ?thesis by (simp add: 1(5) store_wf_def resets_wf_def)
qed

lemma store_apply_wf:
  assumes "store_apply c at episode st = Some st'" and "store_wf st"
  shows "store_wf st'"
  using assms
  by (auto simp: store_apply_def bind_Some_iff Let_def
      split: program_command.splits option.splits
      intro: replace_record_wf settle_episode_wf clear_subtree_wf)

lemma retire_entry_wf:
  "entry_wf ord cyc e \<Longrightarrow> entry_wf ord cyc (retire_entry e)"
  by (auto simp: retire_entry_def entry_wf_def is_none_or_iff)

lemma retire_entry_id [simp]:
  "sr_record (retire_entry e) = sr_record e" "sr_updated (retire_entry e) = sr_updated e"
  "sr_owner (retire_entry e) = None" "sr_historical (retire_entry e)"
  by (simp_all add: retire_entry_def)

lemma store_lifecycle_wf: "store_wf st \<Longrightarrow> store_wf (store_lifecycle ev st)"
proof -
  assume wf: "store_wf st"
  have "entries_wf (st_ordinal st) (st_cycle st) (map retire_entry (filter p (st_records st)))" for p
    using wf unfolding store_wf_def
    by (auto intro!: entries_wf_map [of "st_ordinal st" "st_cycle st"] entries_wf_filter retire_entry_wf)
  then show ?thesis
    by (cases ev) (simp_all add: store_wf_def resets_wf_def entries_wf_def)
qed

lemma invalidate_episode_wf: "store_wf st \<Longrightarrow> store_wf (invalidate_episode st)"
  unfolding store_wf_def invalidate_episode_def
  by (auto simp: resets_wf_def retire_entry_def entry_wf_def is_none_or_iff
      intro!: entries_wf_map [of "st_ordinal st" "st_cycle st"])

lemma mark_entry_id [simp]:
  "sr_record (mark_entry eff e) = sr_record e" "sr_updated (mark_entry eff e) = sr_updated e"
  "sr_owner (mark_entry eff e) = sr_owner e" "sr_historical (mark_entry eff e) = sr_historical e"
  "sr_observed_owner (mark_entry eff e) = sr_observed_owner e"
  "sr_generation (mark_entry eff e) = sr_generation e" "sr_at (mark_entry eff e) = sr_at e"
  by (auto simp: mark_entry_def split: option.splits)

lemma mark_entry_wf: "entry_wf ord cyc e \<Longrightarrow> entry_wf ord cyc (mark_entry eff e)"
  by (auto simp: mark_entry_def entry_wf_def split: option.splits)

lemma mark_presented_wf:
  "mark_presented sel live st = (b, st') \<Longrightarrow> store_wf st \<Longrightarrow> store_wf st'"
  by (auto simp: mark_presented_def store_wf_def resets_wf_def
      intro!: entries_wf_map [of "st_ordinal st" "st_cycle st"] mark_entry_wf
      split: option.splits if_splits)

text \<open>An in-place update of the first match is an update of one position.\<close>

lemma update_first_Some:
  "update_first p f xs = Some ys \<Longrightarrow>
     \<exists>as x bs y. xs = as @ x # bs \<and> p x \<and> f x = Some y \<and> ys = as @ y # bs \<and> (\<forall>a \<in> set as. \<not> p a)"
proof (induction xs arbitrary: ys)
  case (Cons z zs)
  show ?case
  proof (cases "p z")
    case True
    with Cons.prems obtain y where "f z = Some y" "ys = y # zs" by auto
    with True show ?thesis by (intro exI [of _ "[]"] exI [of _ z] exI [of _ zs] exI [of _ y]) simp
  next
    case False
    with Cons.prems obtain ws where "update_first p f zs = Some ws" "ys = z # ws" by auto
    with Cons.IH obtain as x bs y where
      "zs = as @ x # bs" "p x" "f x = Some y" "ws = as @ y # bs" "\<forall>a \<in> set as. \<not> p a" by blast
    with False \<open>ys = z # ws\<close> show ?thesis
      by (intro exI [of _ "z # as"] exI [of _ x] exI [of _ bs] exI [of _ y]) simp
  qed
qed simp

lemma acknowledge_True:
  assumes "acknowledge ident st = (True, st')"
  obtains as e bs r where "st_records st = as @ e # bs" "sr_owner e = Some (ri_owner ident)"
    "sr_id e = ri_record ident" "sr_result e = Some r" "rm_generation r = ri_generation ident"
    "rm_presented r"
    "st' = st\<lparr>st_records := as @ e\<lparr>sr_result := Some (r\<lparr>rm_acknowledged := True\<rparr>)\<rparr> # bs\<rparr>"
    "\<forall>a \<in> set as. \<not> (sr_owner a = Some (ri_owner ident) \<and> sr_id a = ri_record ident)"
proof -
  from assms obtain rs where
    "update_first (\<lambda>e. sr_owner e = Some (ri_owner ident) \<and> sr_id e = ri_record ident)
       (\<lambda>e. map_option (\<lambda>r. e\<lparr>sr_result := Some (r\<lparr>rm_acknowledged := True\<rparr>)\<rparr>)
              (option_filter (\<lambda>r. rm_generation r = ri_generation ident \<and> rm_presented r)
                (sr_result e))) (st_records st) = Some rs" "st' = st\<lparr>st_records := rs\<rparr>"
    by (auto simp: acknowledge_def split: option.splits)
  from update_first_Some [OF this(1)] this(2) show ?thesis
    by (auto simp: option_filter_Some intro: that)
qed

lemma acknowledge_wf: "acknowledge ident st = (b, st') \<Longrightarrow> store_wf st \<Longrightarrow> store_wf st'"
proof (cases b)
  case False
  assume "acknowledge ident st = (b, st')" "store_wf st"
  with False show ?thesis by (auto simp: acknowledge_def split: option.splits)
next
  case True
  assume "acknowledge ident st = (b, st')" and wf: "store_wf st"
  with True have "acknowledge ident st = (True, st')" by simp
  then show ?thesis
  proof (cases rule: acknowledge_True)
    case (1 as e bs r)
    with wf show ?thesis
      by (auto simp: store_wf_def entries_wf_def resets_wf_def entry_wf_def is_none_or_iff)
  qed
qed

end
