(* ===== verification/Store_Runs.thy ===== *)
theory Store_Runs
  imports Store_Invariant
begin

text \<open>
  Runs of the record store. A run is a list of the operations of \<open>RecordStore\<close>; the store is an
  instance of the counted machine contract, whose invariant adds to the well-formedness of
  \<open>Store_Invariant\<close> that a result belongs to the episode its record was observed in and that only
  valid values are retained.
\<close>

section \<open>Runs\<close>

datatype store_op =
    OpApply program_command u64 "live_episode option"
  | OpLifecycle terminal_lifecycle
  | OpInvalidate
  | OpPresent program_selection live_episode
  | OpAcknowledge result_identity
  | OpReconcile program_selection live_episode result_disposition

text \<open>Commands reach the store only through the validating constructors of the source, so an
  ill-formed command is no operation.\<close>

fun store_exec :: "store_op \<Rightarrow> record_store \<Rightarrow> record_store option" where
  "store_exec (OpApply c at episode) st =
     (if command_valid c then store_apply c at episode st else Some st)"
| "store_exec (OpLifecycle ev) st = Some (store_lifecycle ev st)"
| "store_exec OpInvalidate st = Some (invalidate_episode st)"
| "store_exec (OpPresent sel live) st = Some (snd (mark_presented sel live st))"
| "store_exec (OpAcknowledge ident) st = Some (snd (acknowledge ident st))"
| "store_exec (OpReconcile sel live d) st = map_option snd (reconcile_result sel live d st)"

section \<open>The full invariant\<close>

text \<open>Result memories belong to the episode the record was observed in, and an owned record owns its
  result.\<close>

definition result_owned :: "stored_record \<Rightarrow> bool" where
  "result_owned e =
     is_none_or (sr_result e) (\<lambda>r.
       is_none_or (rm_owner r) (\<lambda>w. sr_observed_owner e = Some w)
       \<and> is_none_or (sr_owner e) (\<lambda>w. rm_owner r = Some w))"

text \<open>The first half alone, which a store also keeps between the replacement and the settlement.\<close>

definition result_observed :: "stored_record \<Rightarrow> bool" where
  "result_observed e =
     is_none_or (sr_result e) (\<lambda>r. is_none_or (rm_owner r) (\<lambda>w. sr_observed_owner e = Some w))"

definition store_valid :: "record_store \<Rightarrow> bool" where
  "store_valid st =
     (list_all (\<lambda>e. record_valid (sr_record e)) (st_records st)
      \<and> list_all (\<lambda>(i, _). rid_valid i) (st_resets st))"

definition store_inv :: "record_store \<Rightarrow> bool" where
  "store_inv st = (store_wf st \<and> list_all result_owned (st_records st) \<and> store_valid st)"

lemma result_owned_observed: "result_owned e \<Longrightarrow> result_observed e"
  by (auto simp: result_owned_def result_observed_def is_none_or_iff)

lemma set_mono_all: "set xs \<subseteq> set ys \<Longrightarrow> list_all p ys \<Longrightarrow> list_all p xs"
  by (auto simp: list_all_iff)

lemma replace_result_owner:
  assumes "replace_result status reset lineage g cyc = Some m" and "rm_owner m = Some w"
  obtains old where "lineage = Some old" "sr_result old = Some m"
  using assms by (cases lineage) (auto simp: replace_result_def Let_def split: if_splits)

lemma replace_record_observed:
  assumes "replace_record r at episode st = Some (fl, st')" and "store_inv st"
  obtains kept entry where "st_records st' = kept @ [entry]" "list_all result_owned kept"
    "result_observed entry" "sr_owner entry \<noteq> None \<longrightarrow> episode \<noteq> None"
  using assms(1)
proof (cases rule: replace_record_cases)
  case (1 previous rest kept lineage elig reset entry st2 st3)
  have wf: "entries_wf (st_ordinal st) (st_cycle st) (st_records st)"
    and owned: "list_all result_owned (st_records st)"
    using assms(2) by (simp_all add: store_inv_def store_wf_def)
  note rem = removal_wf [OF wf 1(1,2)]
  note entry = replace_entry_fields [OF 1(8)]
  have lin: "result_owned old \<and> entry_wf (st_ordinal st) (st_cycle st) old
      \<and> sr_observed_owner old = map_option live_owner episode" if "lineage = Some old" for old
  proof -
    from that have "previous = Some old" "sr_observed_owner old = map_option live_owner episode"
      by (simp_all add: 1(3) lineage_of_Some)
    moreover from this rem(5) have "old \<in> set (st_records st)" by simp
    ultimately show ?thesis using owned wf by (simp add: list_all_iff entries_wf_def)
  qed
  have "result_observed entry"
    unfolding result_observed_def is_none_or_iff
  proof (intro allI impI)
    fix m w assume m: "sr_result entry = Some m" and w: "rm_owner m = Some w"
    from m have "replace_result (rec_status r) reset lineage (sr_generation entry) (st_cycle st) = Some m"
      using entry(7) by simp
    from replace_result_owner [OF this w] obtain old
      where "lineage = Some old" "sr_result old = Some m" .
    with lin w show "sr_observed_owner entry = Some w"
      by (auto simp: entry(4) result_owned_def)
  qed
  moreover have "sr_owner entry \<noteq> None \<longrightarrow> episode \<noteq> None"
    using lin entry(5) by (cases lineage) (auto simp: entry_wf_def is_none_or_iff)
  moreover have "list_all result_owned kept" using owned rem(4) by (rule set_mono_all [rotated])
  ultimately show ?thesis using that 1(10) by simp
qed

lemma settle_result_owned:
  assumes "result_observed e"
  shows "result_owned (settle_result live starts cycle (e\<lparr>sr_owner := reconciled_owner st live e\<rparr>))"
proof (cases "sr_result e")
  case None
  then show ?thesis by (simp add: settle_result_def result_owned_def)
next
  case (Some m)
  have own: "is_none_or (reconciled_owner st live e)
      (\<lambda>w. w = live_owner live \<and> sr_observed_owner e = Some w)"
    by (auto simp: reconciled_owner_def)
  show ?thesis
  proof (cases "rm_owner m")
    case None
    with Some own show ?thesis
      by (cases "reconciled_owner st live e") (auto simp: settle_result_def result_owned_def)
  next
    case (Some w)
    with \<open>sr_result e = Some m\<close> assms own show ?thesis
      by (cases "reconciled_owner st live e")
        (auto simp: settle_result_def result_owned_def result_observed_def)
  qed
qed

lemma settle_episode_owned:
  assumes "settle_episode live was fl st0 = Some st'"
    and "list_all result_observed (st_records st0)"
  shows "list_all result_owned (st_records st')"
  using assms(1)
proof (cases rule: settle_episode_cases)
  case (1 st starts cycle)
  from assms(2) settle_result_owned show ?thesis
    by (auto simp: 1(5) 1(1) reconcile_ownership_def list_all_iff)
qed

lemma clear_subtree_records:
  "st_records (clear_subtree i st) = filter (\<lambda>e. \<not> rid_contains i (sr_id e)) (st_records st)"
  by (simp add: clear_subtree_def Let_def)

lemma store_apply_owned:
  assumes "store_apply c at episode st = Some st'" and "store_inv st"
  shows "list_all result_owned (st_records st')"
proof (cases c)
  case (Replace r)
  with assms(1) obtain fl st1 where st1: "replace_record r at episode st = Some (fl, st1)"
    and "(case episode of None \<Rightarrow> Some st1
          | Some live \<Rightarrow> settle_episode live (is_some_and episode (has_activity st)) fl st1) = Some st'"
    by (auto simp: store_apply_def bind_Some_iff Let_def)
  moreover from replace_record_observed [OF st1 assms(2)] obtain kept entry where
    "st_records st1 = kept @ [entry]" "list_all result_owned kept" "result_observed entry"
    "sr_owner entry \<noteq> None \<longrightarrow> episode \<noteq> None" .
  moreover from calculation have "list_all result_observed (st_records st1)"
    by (auto simp: list_all_iff result_owned_observed)
  moreover have "episode = None \<longrightarrow> result_owned entry"
    using calculation by (auto simp: result_owned_def result_observed_def is_none_or_iff)
  ultimately show ?thesis
    by (cases episode) (auto intro: settle_episode_owned)
next
  case (Clear i)
  have "list_all result_owned (st_records (clear_subtree i st))"
    using assms(2) by (auto simp: clear_subtree_records store_inv_def list_all_iff)
  then have "list_all result_observed (st_records (clear_subtree i st))"
    by (auto simp: list_all_iff result_owned_observed)
  with assms(1) Clear \<open>list_all result_owned _\<close> show ?thesis
    by (cases episode) (auto simp: store_apply_def Let_def intro: settle_episode_owned)
next
  case Query
  with assms show ?thesis by (simp add: store_apply_def store_inv_def)
qed

lemma mark_entry_owned: "result_owned e \<Longrightarrow> result_owned (mark_entry eff e)"
  by (auto simp: mark_entry_def result_owned_def split: option.splits)

lemma mark_presented_cases:
  assumes "mark_presented sel live st = (b, st')"
  obtains (no) "\<not> b" "st' = st"
  | (yes) effect current where "b" "pending_result sel = Some effect" "live_owner live = sel_owner sel"
      "\<not> has_activity st live" "store_select st live = Some current"
      "sel_record current = sel_record sel" "sel_updated current = sel_updated sel"
      "map_option pr_identity (pending_result current) = Some (pr_identity effect)"
      "st' = st\<lparr>st_records := map (mark_entry effect) (st_records st)\<rparr>"
  using assms by (auto simp: mark_presented_def split: option.splits if_splits)

text \<open>Every operation retains records it already had, and the command's.\<close>

lemma store_valid_mono:
  assumes "store_valid st" and "sr_record ` set (st_records st') \<subseteq> sr_record ` set (st_records st)"
    and "set (st_resets st') \<subseteq> set (st_resets st)"
  shows "store_valid st'"
proof -
  have "record_valid (sr_record e)" if "e \<in> set (st_records st')" for e
    using assms(1,2) that by (fastforce simp: store_valid_def list_all_iff)
  with assms(1,3) show ?thesis by (auto simp: store_valid_def list_all_iff)
qed

lemma note_reset_valid:
  "store_valid st \<Longrightarrow> rid_valid i \<Longrightarrow> store_valid (note_recovery_reset i w st)"
  by (auto simp: store_valid_def note_recovery_reset_def Let_def list_all_iff)

lemma settle_episode_valid:
  assumes "settle_episode live was fl st0 = Some st'" and "store_valid st0"
  shows "store_valid st'"
  using assms(1)
proof (cases rule: settle_episode_cases)
  case (1 st starts cycle)
  then show ?thesis
    by (intro store_valid_mono [OF assms(2)]) (auto simp: reconcile_ownership_def image_image)
qed

lemma replace_record_valid:
  assumes "replace_record r at episode st = Some (fl, st')" and "store_inv st" and "record_valid r"
  shows "store_valid st'"
  using assms(1)
proof (cases rule: replace_record_cases)
  case (1 previous rest kept lineage elig reset entry st2 st3)
  have "entries_wf (st_ordinal st) (st_cycle st) (st_records st)"
    using assms(2) by (simp add: store_inv_def store_wf_def)
  from removal_wf(4) [OF this 1(1,2)] have "set kept \<subseteq> set (st_records st)" .
  then have "store_valid st2"
    using assms(2) store_valid_mono [of st st2] by (simp add: store_inv_def 1(4) image_mono)
  then have "store_valid st3"
    using assms(3) by (auto simp: 1(7) record_valid_def intro: note_reset_valid)
  moreover have "sr_record entry = r" using replace_entry_fields [OF 1(8)] by simp
  ultimately show ?thesis
    using assms(3) 1(10) by (auto simp: store_valid_def 1(7) 1(4) split: if_splits)
qed

lemma clear_subtree_valid: "store_valid st \<Longrightarrow> rid_valid i \<Longrightarrow> store_valid (clear_subtree i st)"
  using note_reset_valid [of st i True]
  by (auto simp: clear_subtree_def Let_def store_valid_def list_all_iff)

lemma store_apply_valid:
  assumes "store_apply c at episode st = Some st'" and "store_inv st" and "command_valid c"
  shows "store_valid st'"
proof -
  have valid: "store_valid st" using assms(2) by (simp add: store_inv_def)
  have settle: "store_valid st'"
    if "(case episode of None \<Rightarrow> Some st1 | Some live \<Rightarrow> settle_episode live (was live) fl st1) = Some st'"
      and "store_valid st1" for st1 fl was
    using that by (cases episode) (auto intro: settle_episode_valid)
  show ?thesis
  proof (cases c)
    case (Replace r)
    with assms(1) obtain fl st1 where st1: "replace_record r at episode st = Some (fl, st1)"
      and rest: "(case episode of None \<Rightarrow> Some st1
            | Some live \<Rightarrow> settle_episode live (is_some_and episode (has_activity st)) fl st1) = Some st'"
      by (auto simp: store_apply_def bind_Some_iff Let_def)
    from Replace assms(3) have "record_valid r" by simp
    from settle [OF rest replace_record_valid [OF st1 assms(2) this]] show ?thesis .
  next
    case (Clear i)
    with assms(1) have rest: "(case episode of None \<Rightarrow> Some (clear_subtree i st)
            | Some live \<Rightarrow> settle_episode live (is_some_and episode (has_activity st)) no_flags
                (clear_subtree i st)) = Some st'"
      by (simp add: store_apply_def Let_def)
    from Clear assms(3) have "rid_valid i" by simp
    from settle [OF rest clear_subtree_valid [OF valid this]] show ?thesis .
  next
    case Query
    with assms(1) valid show ?thesis by (simp add: store_apply_def)
  qed
qed

lemma store_apply_inv:
  assumes "store_apply c at episode st = Some st'" and "store_inv st" and "command_valid c"
  shows "store_inv st'"
  using store_apply_wf [OF assms(1)] store_apply_owned [OF assms(1,2)] store_apply_valid [OF assms]
    assms(2) by (simp add: store_inv_def)

lemma retire_entry_owned: "result_owned (retire_entry e)"
  by (cases "sr_result e") (simp_all add: result_owned_def retire_entry_def)

lemma store_lifecycle_inv: "store_inv st \<Longrightarrow> store_inv (store_lifecycle ev st)"
proof -
  assume inv: "store_inv st"
  then have "list_all result_owned (st_records (store_lifecycle ev st))"
    using retire_entry_owned by (cases ev) (simp_all add: list_all_iff)
  moreover from inv have "store_valid (store_lifecycle ev st)"
    by (cases ev) (auto simp: store_inv_def store_valid_def list_all_iff)
  ultimately show ?thesis using inv by (simp add: store_inv_def store_lifecycle_wf)
qed

lemma invalidate_episode_inv: "store_inv st \<Longrightarrow> store_inv (invalidate_episode st)"
proof -
  assume inv: "store_inv st"
  have "result_owned ((retire_entry e)\<lparr>sr_observed_owner := None\<rparr>)" for e
    by (cases "sr_result e") (simp_all add: result_owned_def retire_entry_def)
  then have "list_all result_owned (st_records (invalidate_episode st))"
    by (simp add: list_all_iff invalidate_episode_def)
  moreover from inv have "store_valid (invalidate_episode st)"
    by (auto simp: store_inv_def store_valid_def list_all_iff invalidate_episode_def)
  ultimately show ?thesis using inv by (simp add: store_inv_def invalidate_episode_wf)
qed

lemma mark_presented_inv:
  assumes "mark_presented sel live st = (b, st')" and "store_inv st"
  shows "store_inv st'"
  using assms(1)
proof (cases rule: mark_presented_cases)
  case no
  with assms show ?thesis by simp
next
  case (yes effect current)
  then have "list_all result_owned (st_records st')"
    using assms(2) mark_entry_owned by (simp add: store_inv_def list_all_iff)
  moreover have "store_valid st'"
    using assms(2) store_valid_mono [of st st'] by (simp add: store_inv_def yes(9) image_image)
  ultimately show ?thesis
    using assms mark_presented_wf by (auto simp: store_inv_def)
qed

lemma acknowledge_inv:
  assumes "acknowledge ident st = (b, st')" and "store_inv st"
  shows "store_inv st'"
proof (cases b)
  case False
  with assms show ?thesis by (auto simp: acknowledge_def split: option.splits)
next
  case True
  with assms(1) have "acknowledge ident st = (True, st')" by simp
  then show ?thesis
  proof (cases rule: acknowledge_True)
    case (1 as e bs r)
    have all: "list_all result_owned (as @ e # bs)" "store_valid st"
      using assms(2) by (simp_all add: store_inv_def flip: 1(1))
    then have "list_all result_owned (st_records st')"
      using 1(4) by (simp add: 1(7) result_owned_def)
    moreover have "store_valid st'"
      by (rule store_valid_mono [OF all(2)]) (simp_all add: 1(7) 1(1))
    ultimately show ?thesis
      using acknowledge_wf [OF assms(1)] assms(2) by (simp add: store_inv_def)
  qed
qed

lemma reconcile_result_cases:
  assumes "reconcile_result sel live d st = Some (b, st')"
  obtains (no) "mark_presented sel live st = (False, st')" "\<not> b"
  | (shown) "mark_presented sel live st = (True, st')" "b" "d = DPresented"
  | (acked) st1 r where "mark_presented sel live st = (True, st1)" "d = DAcknowledged"
      "sel_result sel = Some r" "acknowledge (pr_identity r) st1 = (b, st')"
  using assms
  by (cases "mark_presented sel live st")
    (auto simp: reconcile_result_def split: bool.splits result_disposition.splits)

text \<open>The \<open>unwrap\<close> after a successful presentation never panics.\<close>

lemma reconcile_result_total: "reconcile_result sel live d st \<noteq> None"
proof (cases "mark_presented sel live st")
  case (Pair b st1)
  then show ?thesis
  proof (cases rule: mark_presented_cases)
    case no
    with Pair show ?thesis by (simp add: reconcile_result_def)
  next
    case (yes effect current)
    then obtain r where "sel_result sel = Some r"
      by (cases "sel_result sel") (simp_all add: pending_result_def)
    with Pair yes show ?thesis
      by (auto simp: reconcile_result_def split: result_disposition.splits)
  qed
qed

lemma reconcile_result_inv:
  "reconcile_result sel live d st = Some (b, st') \<Longrightarrow> store_inv st \<Longrightarrow> store_inv st'"
  by (erule reconcile_result_cases) (auto intro: mark_presented_inv acknowledge_inv)

lemma store_exec_inv:
  assumes "store_inv st" and "store_exec c st = Some st'"
  shows "store_inv st'"
  using assms
  by (cases c)
    (auto simp: store_lifecycle_inv invalidate_episode_inv split: if_splits
      intro: store_apply_inv mark_presented_inv [OF prod.collapse [symmetric]]
        acknowledge_inv [OF prod.collapse [symmetric]] reconcile_result_inv)

lemma store_inv_new: "store_inv store_new"
  using store_wf_new by (simp add: store_inv_def store_valid_def store_new_def)

section \<open>The store is a counted machine\<close>

definition store_count :: "record_store \<Rightarrow> nat" where
  "store_count st = max (st_ordinal st) (st_cycle st)"

lemma replace_record_total:
  assumes "store_wf st" and "st_ordinal st < u64_max"
  shows "\<exists>fl st'. replace_record r at episode st = Some (fl, st')
           \<and> st_ordinal st' = Suc (st_ordinal st) \<and> st_cycle st' = st_cycle st"
proof -
  obtain previous rest where out: "take_out (\<lambda>e. sr_id e = rec_id r) (st_records st) = (previous, rest)"
    by fastforce
  define st1 where "st1 = st\<lparr>st_ordinal := Suc (st_ordinal st)\<rparr>"
  have ord: "next_ordinal st = Some (Suc (st_ordinal st), st1)"
    using assms(2) by (simp add: next_ordinal_Some st1_def)
  have "entries_wf (st_ordinal st) (st_cycle st) rest"
  proof (cases previous)
    case None
    with out assms(1) show ?thesis by (auto simp: store_wf_def dest!: take_out_None)
  next
    case (Some old)
    with out take_out_Some [of _ "st_records st" old rest] obtain as bs where
      "st_records st = as @ old # bs" "rest = as @ bs" by blast
    with assms(1) entries_wf_drop_middle show ?thesis by (auto simp: store_wf_def)
  qed
  then obtain kept where kept: "evict_oldest rest = Some kept" by (auto simp: evict_oldest_wf)
  define st2 where "st2 = st1\<lparr>st_records := kept\<rparr>"
  define lineage where "lineage = lineage_of episode previous"
  define elig where "elig = report_eligible st2 r lineage episode"
  define st3 where
    "st3 = (if elig \<and> rec_status r = PIdle then note_recovery_reset (rec_id r) False st2 else st2)"
  have same: "st_cycle st3 = st_cycle st" "st_ordinal st3 = Suc (st_ordinal st)" "st_records st3 = kept"
    by (simp_all add: st3_def st2_def st1_def)
  obtain entry where entry: "replace_entry r at episode (Suc (st_ordinal st))
      (resets_result elig (rec_status r) lineage) lineage (st_cycle st3) = Some entry"
    using replace_entry_total [OF refl] by fast
  have out1: "take_out (\<lambda>e. sr_id e = rec_id r) (st_records st1) = (previous, rest)"
    using out by (simp add: st1_def)
  have "replace_record r at episode st
      = Some (flags_of elig (rec_status r) lineage, st3\<lparr>st_records := kept @ [entry]\<rparr>)"
    unfolding replace_record_def ord Option.bind.simps prod.case out1 kept Let_def
      st2_def [symmetric] lineage_def [symmetric] elig_def [symmetric] st3_def [symmetric] entry
      option.map same(3) ..
  with same show ?thesis by simp
qed

lemma settle_episode_total:
  assumes "st_cycle st < u64_max"
  shows "\<exists>st'. settle_episode live was fl st = Some st' \<and> st_ordinal st' = st_ordinal st
           \<and> st_cycle st' \<le> Suc (st_cycle st)"
  using assms by (auto simp: settle_episode_def Let_def reconcile_ownership_def checked_add_def)

lemma store_apply_total:
  assumes "store_wf st" and "store_count st < u64_max"
  shows "\<exists>st'. store_apply c at episode st = Some st' \<and> store_count st' \<le> Suc (store_count st)"
proof -
  have settle: "\<exists>st'. (case episode of None \<Rightarrow> Some st1
        | Some live \<Rightarrow> settle_episode live (is_some_and episode (has_activity st)) fl st1) = Some st'
      \<and> store_count st' \<le> Suc (store_count st)"
    if s1: "st_ordinal st1 \<le> Suc (st_ordinal st)" "st_cycle st1 = st_cycle st" for fl st1
  proof (cases episode)
    case None
    with s1 show ?thesis by (auto simp: store_count_def)
  next
    case (Some live)
    obtain st' where "settle_episode live (is_some_and episode (has_activity st)) fl st1 = Some st'"
      "st_ordinal st' = st_ordinal st1" "st_cycle st' \<le> Suc (st_cycle st1)"
      using settle_episode_total [of st1 live "is_some_and episode (has_activity st)" fl] s1 assms(2) by (auto simp: store_count_def)
    with Some s1 show ?thesis by (auto simp: store_count_def)
  qed
  show ?thesis
  proof (cases c)
    case (Replace r)
    obtain fl st1 where "replace_record r at episode st = Some (fl, st1)"
      "st_ordinal st1 = Suc (st_ordinal st)" "st_cycle st1 = st_cycle st"
      using replace_record_total [OF assms(1), of r at episode] assms(2)
      by (auto simp: store_count_def)
    with settle [of st1 fl] Replace show ?thesis by (simp add: store_apply_def Let_def)
  next
    case (Clear i)
    have "st_ordinal (clear_subtree i st) = st_ordinal st" "st_cycle (clear_subtree i st) = st_cycle st"
      by (simp_all add: clear_subtree_def Let_def)
    with settle [of "clear_subtree i st" no_flags] Clear show ?thesis
      by (simp add: store_apply_def Let_def)
  next
    case Query
    then show ?thesis by (simp add: store_apply_def)
  qed
qed

lemma mark_presented_count: "store_count (snd (mark_presented sel live st)) = store_count st"
  by (auto simp: mark_presented_def store_count_def split: option.splits)

lemma acknowledge_count: "store_count (snd (acknowledge ident st)) = store_count st"
  by (auto simp: acknowledge_def store_count_def split: option.splits)

lemma reconcile_result_count:
  "reconcile_result sel live d st = Some (b, st') \<Longrightarrow> store_count st' = store_count st"
  using mark_presented_count [of sel live st]
  by (erule_tac reconcile_result_cases) (metis acknowledge_count snd_conv)+

lemma store_exec_total:
  assumes "store_inv st" and "store_count st < u64_max"
  shows "\<exists>st'. store_exec c st = Some st' \<and> store_count st' \<le> Suc (store_count st)"
proof (cases c)
  case (OpApply cmd at episode)
  with store_apply_total [of st cmd at episode] assms show ?thesis by (simp add: store_inv_def)
next
  case (OpLifecycle ev)
  then show ?thesis by (cases ev) (auto simp: store_count_def)
next
  case (OpReconcile sel live d)
  then show ?thesis
    using reconcile_result_total [of sel live d st] reconcile_result_count [of sel live d st]
    by (cases "reconcile_result sel live d st") auto
qed (simp_all add: mark_presented_count acknowledge_count, auto simp: store_count_def invalidate_episode_def)

interpretation store: counted_machine store_new store_exec store_inv store_count u64_max
proof unfold_locales
  show "store_inv store_new" by (rule store_inv_new)
  show "store_count store_new = 0" by (simp add: store_count_def store_new_def)
qed (use store_exec_inv store_exec_total in blast)+

lemmas store_reach = store.inv_run [unfolded store_inv_def]

end
