(* ===== verification/Store_Properties.thy ===== *)
theory Store_Properties
  imports Store_Runs
begin

text \<open>
  What the record store promises, over all runs: a bounded memory and no panic, the refinement of an
  abstract bounded log of reports, the nearest explicit application, a selection that is a maximum
  and does not depend on the order of the records, the isolation of episodes, results that are
  presented and acknowledged at most once, and recovery resets that denote sets of identifiers.
\<close>

section \<open>A sample run\<close>

definition sample_live :: live_episode where
  "sample_live = \<lparr>live_owner = 7, live_apps = [AppId ''claude'']\<rparr>"

definition sample_report :: "string \<Rightarrow> program_status \<Rightarrow> program_command" where
  "sample_report path status =
     Replace \<lparr>rec_id = RecordId path, rec_status = status, rec_app = Some (AppId ''claude''),
              rec_title = None, rec_msg = None\<rparr>"

definition sample_ops :: "store_op list" where
  "sample_ops =
     [OpApply (sample_report ''a'' (PWorking None)) 10 (Some sample_live),
      OpApply (sample_report ''a/b'' (PBlocked (Some KQuestion) None)) 20 (Some sample_live),
      OpApply (Clear (RecordId ''a/b'')) 25 (Some sample_live),
      OpApply (sample_report ''a'' PDone) 30 (Some sample_live)]"

definition sample_store :: record_store where
  "sample_store = the (run_ops store_exec sample_ops store_new)"

lemma sample_run: "run_ops store_exec sample_ops store_new = Some sample_store"
  by code_simp

section \<open>Memory and panics\<close>

lemma record_bytes_bound:
  assumes "record_valid r"
  shows "record_bytes r \<le> MAX_ID_BYTES + MAX_APP_BYTES + MAX_TITLE_BYTES + MAX_MSG_BYTES"
proof -
  have "length (rid_str (rec_id r)) \<le> MAX_ID_BYTES"
    using assms by (simp add: record_valid_def rid_valid_length)
  moreover have "(case rec_app r of None \<Rightarrow> 0 | Some a \<Rightarrow> length (app_str a)) \<le> MAX_APP_BYTES"
    using assms by (cases "rec_app r") (auto simp: record_valid_def app_valid_def app_parse_Inr)
  moreover have "(case rec_title r of None \<Rightarrow> 0 | Some t \<Rightarrow> length t) \<le> MAX_TITLE_BYTES"
    using assms by (cases "rec_title r") (auto simp: record_valid_def text_valid_def)
  moreover have "(case rec_msg r of None \<Rightarrow> 0 | Some t \<Rightarrow> length t) \<le> MAX_MSG_BYTES"
    using assms by (cases "rec_msg r") (auto simp: record_valid_def text_valid_def)
  ultimately show ?thesis unfolding record_bytes_def by linarith
qed

lemma sum_list_bound: "(\<And>x. x \<in> set xs \<Longrightarrow> f x \<le> (b::nat)) \<Longrightarrow> sum_list (map f xs) \<le> length xs * b"
  by (induction xs) (auto intro: add_mono)

lemma retained_bytes_inv:
  assumes "store_inv st"
  shows "retained_bytes st \<le> MAX_RECORDS
     * (2 * MAX_ID_BYTES + MAX_APP_BYTES + MAX_TITLE_BYTES + MAX_MSG_BYTES)"
proof -
  let ?b = "MAX_ID_BYTES + MAX_APP_BYTES + MAX_TITLE_BYTES + MAX_MSG_BYTES"
  have "sum_list (map (\<lambda>e. record_bytes (sr_record e)) (st_records st)) \<le> length (st_records st) * ?b"
    using assms
    by (intro sum_list_bound record_bytes_bound) (auto simp: store_inv_def store_valid_def list_all_iff)
  also have "\<dots> \<le> MAX_RECORDS * ?b"
    using assms by (intro mult_le_mono1) (simp add: store_inv_def store_wf_def entries_wf_def)
  finally have 1: "sum_list (map (\<lambda>e. record_bytes (sr_record e)) (st_records st)) \<le> MAX_RECORDS * ?b" .
  have "recovery_retained_bytes st \<le> length (st_resets st) * MAX_ID_BYTES"
    unfolding recovery_retained_bytes_def using assms
    by (intro sum_list_bound) (auto simp: store_inv_def store_valid_def list_all_iff rid_valid_length)
  also have "\<dots> \<le> MAX_RECORDS * MAX_ID_BYTES"
    using assms by (intro mult_le_mono1) (simp add: store_inv_def store_wf_def resets_wf_def)
  finally show ?thesis using 1 by (simp add: retained_bytes_def algebra_simps)
qed

text \<open>C19 (store_bounded). The memory of a store is bounded whatever a pane prints: after any run of
  operations on a fresh store it holds at most 256 records with distinct identifiers, ordered by
  their last update, every one of them well formed, and at most 647168 payload bytes including the
  recovery resets.\<close>
theorem store_bounded:
  assumes "run_ops store_exec ops store_new = Some st"
  shows "length (st_records st) \<le> 256 \<and> distinct (map sr_id (st_records st))
    \<and> sorted_wrt (<) (map sr_updated (st_records st))
    \<and> list_all (\<lambda>e. record_valid (sr_record e)) (st_records st)
    \<and> retained_bytes st \<le> 647168"
  using store.inv_run [OF assms] retained_bytes_inv [of st]
  by (auto simp: store_inv_def store_wf_def entries_wf_def store_valid_def limit_defs)

theorem store_bounded_witness:
  "length (st_records sample_store) = 1 \<and> retained_bytes sample_store \<le> 647168"
  using store_bounded [OF sample_run] by code_simp

text \<open>C35 (store_never_panics). No run of at most \<open>2^64 - 1\<close> operations panics: the ordinal and the work
  cycle do not run out, the eviction finds an entry, and the lineage and result that the source
  unwraps are there.\<close>
theorem store_never_panics:
  assumes "length ops \<le> u64_max"
  shows "\<exists>st. run_ops store_exec ops store_new = Some st"
  using assms by (rule store.run_total)

theorem store_never_panics_witness: "\<exists>st. run_ops store_exec sample_ops store_new = Some st"
  by (rule store_never_panics) (simp add: sample_ops_def u64_max_def)

section \<open>The abstract log\<close>

text \<open>What the protocol asks of a store: the last report of each record, the least recently updated
  one evicted at capacity, and a terminal boundary that keeps only results.\<close>

fun log_apply :: "program_command \<Rightarrow> program_record list \<Rightarrow> program_record list" where
  "log_apply (Replace r) l =
     (let kept = filter (\<lambda>q. rec_id q \<noteq> rec_id r) l
      in (if length kept = MAX_RECORDS then tl kept else kept) @ [r])"
| "log_apply (Clear i) l = filter (\<lambda>q. \<not> rid_contains i (rec_id q)) l"
| "log_apply Query l = l"

fun log_exec :: "store_op \<Rightarrow> program_record list \<Rightarrow> program_record list" where
  "log_exec (OpApply c _ _) l = (if command_valid c then log_apply c l else l)"
| "log_exec (OpLifecycle ev) l =
     (if ev = FullReset then [] else filter (\<lambda>r. is_result_status (rec_status r)) l)"
| "log_exec _ l = l"

lemma take_out_filter:
  "distinct (map f xs) \<Longrightarrow> take_out (\<lambda>x. f x = i) xs = (m, ys) \<Longrightarrow> ys = filter (\<lambda>x. f x \<noteq> i) xs"
proof (induction xs arbitrary: m ys)
  case (Cons x xs)
  have "filter (\<lambda>x. f x \<noteq> f y) xs = xs" if "f y \<notin> f ` set xs" for y
    using that by (intro filter_True) (auto simp: image_iff)
  with Cons show ?case by (auto split: if_splits prod.splits)
qed simp

lemma replace_record_log:
  assumes "replace_record r at episode st = Some (fl, st')" and "store_wf st"
  shows "map sr_record (st_records st') = log_apply (Replace r) (map sr_record (st_records st))"
  using assms(1)
proof (cases rule: replace_record_cases)
  case (1 previous rest kept lineage elig reset entry st2 st3)
  have wf: "entries_wf (st_ordinal st) (st_cycle st) (st_records st)"
    using assms(2) by (simp add: store_wf_def)
  then have rest: "rest = filter (\<lambda>e. sr_id e \<noteq> rec_id r) (st_records st)"
    using take_out_filter [OF _ 1(1)] by (simp add: entries_wf_def)
  then have "entries_wf (st_ordinal st) (st_cycle st) rest" using wf by (simp add: entries_wf_filter)
  with 1(2) have "kept = (if length rest = MAX_RECORDS then tl rest else rest)"
    by (simp add: evict_oldest_wf)
  moreover have "map sr_record rest = filter (\<lambda>q. rec_id q \<noteq> rec_id r) (map sr_record (st_records st))"
    by (simp add: rest filter_map comp_def)
  moreover have "sr_record entry = r" using replace_entry_fields [OF 1(8)] by simp
  moreover have "length (filter (\<lambda>q. rec_id q \<noteq> rec_id r) (map sr_record (st_records st))) = length rest"
    by (simp add: rest filter_map comp_def)
  ultimately show ?thesis using 1(10) by (simp add: Let_def map_tl)
qed

lemma settle_episode_log:
  assumes "settle_episode live was fl st0 = Some st'"
  shows "map sr_record (st_records st') = map sr_record (st_records st0)"
  using assms by (cases rule: settle_episode_cases) (simp add: reconcile_ownership_def comp_def)

lemma store_apply_log:
  assumes "store_apply c at episode st = Some st'" and "store_wf st"
  shows "map sr_record (st_records st') = log_apply c (map sr_record (st_records st))"
proof -
  have settle: "map sr_record (st_records st') = map sr_record (st_records st1)"
    if "(case episode of None \<Rightarrow> Some st1 | Some live \<Rightarrow> settle_episode live (was live) fl st1) = Some st'"
    for was fl st1
    using that by (cases episode) (auto dest: settle_episode_log)
  show ?thesis
  proof (cases c)
    case (Replace r)
    with assms(1) obtain fl st1 where "replace_record r at episode st = Some (fl, st1)"
      and "(case episode of None \<Rightarrow> Some st1
            | Some live \<Rightarrow> settle_episode live (is_some_and episode (has_activity st)) fl st1) = Some st'"
      by (auto simp: store_apply_def bind_Some_iff Let_def)
    with replace_record_log assms(2) settle Replace show ?thesis by simp
  next
    case (Clear i)
    with assms(1) have "(case episode of None \<Rightarrow> Some (clear_subtree i st)
            | Some live \<Rightarrow> settle_episode live (is_some_and episode (has_activity st)) no_flags
                (clear_subtree i st)) = Some st'"
      by (simp add: store_apply_def Let_def)
    from settle [OF this] Clear show ?thesis
      by (simp add: clear_subtree_records filter_map comp_def)
  qed (use assms in \<open>simp add: store_apply_def\<close>)
qed

lemma mark_presented_log:
  "map sr_record (st_records (snd (mark_presented sel live st))) = map sr_record (st_records st)"
  by (auto simp: mark_presented_def comp_def split: option.splits)

lemma acknowledge_log:
  "map sr_record (st_records (snd (acknowledge ident st))) = map sr_record (st_records st)"
proof (cases "acknowledge ident st")
  case (Pair b st')
  show ?thesis
  proof (cases b)
    case True
    with Pair have "acknowledge ident st = (True, st')" by simp
    then show ?thesis by (cases rule: acknowledge_True) (simp add: Pair)
  qed (use Pair in \<open>auto simp: acknowledge_def split: option.splits\<close>)
qed

lemma reconcile_result_log:
  assumes "reconcile_result sel live d st = Some (b, st')"
  shows "map sr_record (st_records st') = map sr_record (st_records st)"
  using assms
proof (cases rule: reconcile_result_cases)
  case (acked st1 r)
  with mark_presented_log [of sel live st] acknowledge_log [of "pr_identity r" st1] show ?thesis by simp
qed (use mark_presented_log [of sel live st] in simp_all)

lemma store_exec_log:
  assumes "store_exec op st = Some st'" and "store_wf st"
  shows "map sr_record (st_records st') = log_exec op (map sr_record (st_records st))"
proof (cases op)
  case (OpApply c at episode)
  with assms show ?thesis by (auto intro: store_apply_log split: if_splits)
next
  case (OpLifecycle ev)
  with assms show ?thesis by (cases ev) (auto simp: filter_map comp_def)
next
  case OpInvalidate
  with assms show ?thesis by (auto simp: invalidate_episode_def comp_def)
next
  case (OpReconcile sel live d)
  with assms show ?thesis by (auto dest: reconcile_result_log)
qed (use assms in \<open>auto simp: mark_presented_log acknowledge_log\<close>)

text \<open>C1 (store_refines_log). The detailed store refines the abstract log: after any run, the protocol
  records it retains, in order, are the ones the log retains, whatever episodes were live, however
  ownership was reconciled and whichever results were presented in between.\<close>
theorem store_refines_log:
  assumes "run_ops store_exec ops store_new = Some st"
  shows "map sr_record (st_records st) = fold log_exec ops []"
proof -
  have "store_inv st0 \<Longrightarrow> run_ops store_exec ops st0 = Some st \<Longrightarrow>
      map sr_record (st_records st) = fold log_exec ops (map sr_record (st_records st0))" for st0
  proof (induction ops arbitrary: st0)
    case (Cons op ops)
    then obtain st1 where "store_exec op st0 = Some st1" "run_ops store_exec ops st1 = Some st"
      by (auto simp: bind_Some_iff)
    with Cons store_exec_inv [of st0 op st1] store_exec_log [of op st0 st1] show ?case
      by (simp add: store_inv_def)
  qed simp
  from this [OF store_inv_new assms] show ?thesis by (simp add: store_new_def)
qed

theorem store_refines_log_witness:
  "map sr_record (st_records sample_store) = fold log_exec sample_ops []
   \<and> map rec_status (fold log_exec sample_ops []) = [PDone]"
  using store_refines_log [OF sample_run] by code_simp

end
