(* ===== verification/Store_Selection.thy ===== *)
theory Store_Selection
  imports Store_Properties
begin

text \<open>
  Selection out of the record store (\<open>effective_app\<close>, \<open>eligible\<close>, \<open>select\<close>): the nearest explicit
  application as a fact about the set of records, the priority of activity over results, the
  independence of the order of the records, and the isolation of episodes.
\<close>

section \<open>The nearest explicit application\<close>

text \<open>An entry with an application of its own at or above an identifier.\<close>

definition explicit_above :: "record_store \<Rightarrow> record_id \<Rightarrow> stored_record \<Rightarrow> bool" where
  "explicit_above st i e =
     (e \<in> set (st_records st) \<and> rid_contains (sr_id e) i \<and> rec_app (sr_record e) \<noteq> None)"

definition nearest_app :: "record_store \<Rightarrow> record_id \<Rightarrow> stored_record \<Rightarrow> bool" where
  "nearest_app st i e =
     (explicit_above st i e
      \<and> (\<forall>e' \<in> set (st_records st). explicit_above st i e' \<longrightarrow> rid_contains (sr_id e') (sr_id e)))"

abbreviation distinct_ids :: "record_store \<Rightarrow> bool" where
  "distinct_ids st \<equiv> distinct (map sr_id (st_records st))"

lemma reach_distinct: "run_ops store_exec ops store_new = Some st \<Longrightarrow> distinct_ids st"
  using store.inv_run by (simp add: store_inv_def store_wf_def entries_wf_def)

lemma same_id:
  "distinct_ids st \<Longrightarrow> e \<in> set (st_records st) \<Longrightarrow> e' \<in> set (st_records st) \<Longrightarrow> sr_id e = sr_id e' \<Longrightarrow> e = e'"
  by (auto simp: distinct_map dest: inj_onD)

lemma nearest_app_unique:
  assumes "distinct_ids st" "nearest_app st i e" "nearest_app st i e'"
  shows "e = e'"
proof -
  have "rid_contains (sr_id e) (sr_id e')" "rid_contains (sr_id e') (sr_id e)"
    using assms(2,3) by (auto simp: nearest_app_def explicit_above_def)
  then have "sr_id e = sr_id e'" by (rule rid_contains_antisym)
  with assms show ?thesis by (auto simp: nearest_app_def explicit_above_def intro: same_id)
qed

lemma app_candidates:
  "(n, a) \<in> set (List.map_filter
       (\<lambda>e. map_option (\<lambda>app. (length (rid_str (sr_id e)), app)) (rec_app (sr_record e)))
       (filter (\<lambda>e. rid_contains (sr_id e) i) (st_records st)))
   \<longleftrightarrow> (\<exists>e. explicit_above st i e \<and> rec_app (sr_record e) = Some a \<and> n = length (rid_str (sr_id e)))"
  by (auto simp: List.map_filter_def image_iff explicit_above_def)

lemma effective_app_Some:
  assumes "distinct_ids st"
  shows "effective_app st i = Some a \<longleftrightarrow> (\<exists>e. nearest_app st i e \<and> rec_app (sr_record e) = Some a)"
proof -
  let ?L = "List.map_filter
       (\<lambda>e. map_option (\<lambda>app. (length (rid_str (sr_id e)), app)) (rec_app (sr_record e)))
       (filter (\<lambda>e. rid_contains (sr_id e) i) (st_records st))"
  have found: "\<exists>e. nearest_app st i e \<and> rec_app (sr_record e) = Some b"
    if eff: "effective_app st i = Some b" for b
  proof -
    from eff obtain n where mx: "max_by_key fst ?L = Some (n, b)"
      by (auto simp: effective_app_def)
    from max_by_key_Some(1) [OF mx] obtain e where e: "explicit_above st i e"
      "rec_app (sr_record e) = Some b" "n = length (rid_str (sr_id e))"
      unfolding app_candidates by blast
    have "rid_contains (sr_id e') (sr_id e)" if "explicit_above st i e'" for e'
    proof -
      from that obtain a' where "rec_app (sr_record e') = Some a'"
        by (auto simp: explicit_above_def)
      with that have "(length (rid_str (sr_id e')), a') \<in> set ?L" unfolding app_candidates by blast
      from max_by_key_Some(2) [OF mx this] have le: "length (rid_str (sr_id e')) \<le> length (rid_str (sr_id e))"
        by (simp add: e(3))
      from e(1) that have "rid_contains (sr_id e) (sr_id e') \<or> rid_contains (sr_id e') (sr_id e)"
        using rid_contains_chain [of "sr_id e" i "sr_id e'"] by (simp add: explicit_above_def)
      with le rid_contains_length [of "sr_id e" "sr_id e'"] rid_contains_same_length [of "sr_id e" "sr_id e'"]
      show ?thesis by (auto simp: le_antisym)
    qed
    with e show ?thesis by (auto simp: nearest_app_def)
  qed
  show ?thesis
  proof
    assume "\<exists>e. nearest_app st i e \<and> rec_app (sr_record e) = Some a"
    then obtain e where e: "nearest_app st i e" "rec_app (sr_record e) = Some a" by blast
    then have "(length (rid_str (sr_id e)), a) \<in> set ?L"
      unfolding app_candidates by (auto simp: nearest_app_def)
    then obtain b where b: "effective_app st i = Some b"
      by (cases "max_by_key fst ?L") (auto simp: effective_app_def)
    from found [OF b] e nearest_app_unique [OF assms] show "effective_app st i = Some a"
      using b by fastforce
  qed (rule found)
qed

lemma option_same: "(\<And>a. x = Some a \<longleftrightarrow> y = Some a) \<Longrightarrow> x = y"
  by (metis option.exhaust)

lemma nearest_app_perm:
  "set (st_records st) = set (st_records st') \<Longrightarrow> nearest_app st i e = nearest_app st' i e"
  by (simp add: nearest_app_def explicit_above_def)

lemma effective_app_perm:
  assumes "distinct_ids st" "distinct_ids st'" "set (st_records st) = set (st_records st')"
  shows "effective_app st i = effective_app st' i"
proof -
  have "effective_app st i = Some a \<longleftrightarrow> effective_app st' i = Some a" for a
    using effective_app_Some [OF assms(1), of i a] effective_app_Some [OF assms(2), of i a]
      nearest_app_perm [OF assms(3), of i] by simp
  then show ?thesis by (intro option_same) simp
qed

text \<open>After any run, the application that the store takes a record to
  belong to is the one of the nearest record at or above it that names an application: such a record
  is one whose identifier every other candidate contains. Taking the longest identifier text among
  the candidates finds it.\<close>
theorem effective_app_nearest:
  assumes "run_ops store_exec ops store_new = Some st"
  shows "effective_app st i = Some a \<longleftrightarrow>
    (\<exists>e \<in> set (st_records st). rid_contains (sr_id e) i \<and> rec_app (sr_record e) = Some a
       \<and> (\<forall>e' \<in> set (st_records st). rid_contains (sr_id e') i \<and> rec_app (sr_record e') \<noteq> None
            \<longrightarrow> rid_contains (sr_id e') (sr_id e)))"
  using effective_app_Some [OF reach_distinct [OF assms], of i a]
  by (auto simp: nearest_app_def explicit_above_def)

theorem effective_app_nearest_witness:
  "effective_app sample_store (RecordId ''a/x'') = Some (AppId ''claude'')"
  unfolding effective_app_nearest [OF sample_run] by code_simp

section \<open>Selection\<close>

lemma eligible_perm:
  "distinct_ids st \<Longrightarrow> distinct_ids st' \<Longrightarrow> set (st_records st) = set (st_records st') \<Longrightarrow>
     eligible st e live = eligible st' e live"
  using effective_app_perm [of st st'] by (simp add: eligible_def)

lemma select_key_inj: "distinct_ids st \<Longrightarrow> inj_on select_key (set (filter p (st_records st)))"
  by (auto simp: inj_on_def select_key_def intro: same_id)

lemma select_entry_Some:
  assumes "select_entry st live = Some e"
  shows "e \<in> set (st_records st)" and "eligible st e live"
    and "e' \<in> set (st_records st) \<Longrightarrow> eligible st e' live \<Longrightarrow> rank e' \<le> rank e"
  using max_by_key_Some [OF assms [unfolded select_entry_def]]
  by (force simp: select_key_def)+

lemma select_entry_None:
  "select_entry st live = None \<longleftrightarrow> (\<forall>e \<in> set (st_records st). \<not> eligible st e live)"
  by (simp add: select_entry_def filter_empty_conv)

lemma store_select_Some:
  assumes "store_select st live = Some sel"
  obtains e where "select_entry st live = Some e" "sel_owner sel = live_owner live"
    "sel_record sel = sr_id e" "sel_updated sel = sr_updated e" "sel_protocol sel = sr_status e"
    "sel_state sel = fst (project_state e)" "sel_detail sel = snd (project_state e)"
    "sel_result sel = project_result (has_activity st live) live e"
    "sel_recovery_reset sel = recovery_reset_for st (sr_id e)"
  using assms by (auto simp: store_select_def Let_def)

text \<open>Which record is selected, and everything that is projected from
  it, depends on the set of retained records only: after any run, permuting the records, as the
  remove-and-push of the store does on every report, does not change a selection.\<close>
theorem select_order_independent:
  assumes "run_ops store_exec ops store_new = Some st" and "mset rs = mset (st_records st)"
  shows "store_select (st\<lparr>st_records := rs\<rparr>) live = store_select st live"
proof -
  let ?st = "st\<lparr>st_records := rs\<rparr>"
  note wf = reach_distinct [OF assms(1)]
  have sets: "set rs = set (st_records st)" using assms(2) by (rule mset_eq_setD)
  have "mset (map sr_id rs) = mset (map sr_id (st_records st))" using assms(2) by simp
  then have wf': "distinct_ids ?st" using wf mset_eq_imp_distinct_iff by fastforce
  have elig: "eligible ?st e live = eligible st e live" for e
    using eligible_perm [OF wf' wf] sets by simp
  have act: "has_activity ?st live = has_activity st live"
    by (simp add: has_activity_def list_ex_iff elig sets)
  have "select_entry ?st live = select_entry st live"
    unfolding select_entry_def elig using sets
    by (intro max_by_key_unique) (use select_key_inj [OF wf'] sets in \<open>simp_all add: elig\<close>)
  then show ?thesis by (simp add: store_select_def act recovery_reset_for_def)
qed

theorem select_order_independent_witness:
  "\<forall>live. store_select (sample_store\<lparr>st_records := rev (st_records sample_store)\<rparr>) live
     = store_select sample_store live"
  by (intro allI select_order_independent [OF sample_run]) simp

lemma rank_of:
  "is_blocked (sr_status e) \<longleftrightarrow> rank e = 4"
  "is_working (sr_status e) \<longleftrightarrow> rank e = 3"
  "sr_status e = PError \<and> result_fresh e \<noteq> None \<longleftrightarrow> rank e = 2"
  "sr_status e = PDone \<and> result_fresh e \<noteq> None \<longleftrightarrow> rank e = 1"
  by (auto simp: rank_def split: program_status.split)

lemma project_state_rank:
  "fst (project_state e) = (if rank e = 4 then Blocked else if rank e = 3 then Working else Idle)"
  by (simp add: project_state_def rank_def split: program_status.split)

lemma project_result_rank:
  "map_option pr_kind (project_result active live e) =
     (if active then None else if rank e = 2 then Some Failure
      else if rank e = 1 then Some Completion else None)"
  by (cases "result_fresh e")
    (auto simp: project_result_def rank_def split: program_status.split)

lemma list_ex_disj: "list_ex (\<lambda>x. p x \<or> q x) xs \<longleftrightarrow> list_ex p xs \<or> list_ex q xs"
  by (auto simp: list_ex_iff)

text \<open>Activity wins over results: the state selected for a live episode is
  blocked when any eligible record is blocked, otherwise working when any is working, otherwise
  idle, and there is a selection exactly when some record is eligible. A result is exposed only when
  nothing is active, and then a fresh failure is preferred to a fresh completion.\<close>
theorem selection_priority:
  "let es = filter (\<lambda>e. eligible st e live) (st_records st) in
     map_option sel_state (store_select st live)
       = (if es = [] then None
          else if list_ex (\<lambda>e. is_blocked (sr_status e)) es then Some Blocked
          else if list_ex (\<lambda>e. is_working (sr_status e)) es then Some Working
          else Some Idle)
     \<and> map_option pr_kind (Option.bind (store_select st live) sel_result)
       = (if list_ex (\<lambda>e. is_blocked (sr_status e) \<or> is_working (sr_status e)) es then None
          else if list_ex (\<lambda>e. sr_status e = PError \<and> result_fresh e \<noteq> None) es then Some Failure
          else if list_ex (\<lambda>e. sr_status e = PDone \<and> result_fresh e \<noteq> None) es then Some Completion
          else None)"
proof -
  let ?es = "filter (\<lambda>e. eligible st e live) (st_records st)"
  have act: "has_activity st live \<longleftrightarrow> list_ex (\<lambda>e. is_blocked (sr_status e) \<or> is_working (sr_status e)) ?es"
    by (auto simp: has_activity_def list_ex_iff)
  show ?thesis
  proof (cases "select_entry st live")
    case None
    then have "?es = []" by (simp add: select_entry_None filter_empty_conv)
    with None show ?thesis by (simp add: store_select_def)
  next
    case (Some e)
    note e = select_entry_Some [OF Some]
    have mem: "e \<in> set ?es" "?es \<noteq> []" using e(1,2) by (auto simp: filter_empty_conv)
    have top: "rank e' \<le> rank e" if "e' \<in> set ?es" for e' using e(3) that by simp
    have ex: "list_ex (\<lambda>e. rank e = k) ?es \<Longrightarrow> k \<le> rank e" "rank e = k \<Longrightarrow> list_ex (\<lambda>e. rank e = k) ?es" for k
      using mem(1) top unfolding list_ex_iff by blast+
    have le: "rank e \<le> 4" by (simp add: rank_def split: program_status.split)
    have active: "has_activity st live \<longleftrightarrow> 3 \<le> rank e"
      using ex [of 3] ex [of 4] le unfolding act rank_of list_ex_disj by linarith
    have state: "map_option sel_state (store_select st live)
        = Some (if rank e = 4 then Blocked else if rank e = 3 then Working else Idle)"
      using Some by (simp add: store_select_def Let_def project_state_rank)
    have kind: "map_option pr_kind (Option.bind (store_select st live) sel_result)
        = (if 3 \<le> rank e then None else if rank e = 2 then Some Failure
           else if rank e = 1 then Some Completion else None)"
      using Some active by (simp add: store_select_def Let_def project_result_rank)
    show ?thesis
      unfolding Let_def state kind rank_of list_ex_disj
      using ex [of 4] ex [of 3] ex [of 2] ex [of 1] le mem(2) by (auto simp: not_le)
  qed
qed

end
