(* ===== verification/Store_Results.thy ===== *)
theory Store_Results
  imports Store_Selection
begin

text \<open>
  Where the entries of a store come from, and what happens to results: an operation lets entries
  evolve or pushes the one of its report; a mark on a result (presented, acknowledged, superseded)
  is a latch; so an episode sees only its own reports and a result is announced at most once.
\<close>

section \<open>The evolution of entries\<close>

definition result_le :: "result_memory \<Rightarrow> result_memory \<Rightarrow> bool" where
  "result_le m m' =
     (rm_generation m' = rm_generation m \<and> (rm_presented m \<longrightarrow> rm_presented m')
      \<and> (rm_acknowledged m \<longrightarrow> rm_acknowledged m') \<and> (rm_superseded m \<longrightarrow> rm_superseded m'))"

definition evolves :: "stored_record \<Rightarrow> stored_record \<Rightarrow> bool" where
  "evolves e e' =
     (sr_record e' = sr_record e \<and> sr_generation e' = sr_generation e
      \<and> (sr_observed_owner e' = None \<or> sr_observed_owner e' = sr_observed_owner e)
      \<and> rel_option result_le (sr_result e) (sr_result e'))"

lemma result_le_refl [simp]: "result_le m m"
  by (simp add: result_le_def)

lemma evolves_refl [simp]: "evolves e e"
  by (simp add: evolves_def option.rel_refl)

lemma evolves_self: "e \<in> S \<Longrightarrow> \<exists>x \<in> S. evolves x e"
  using evolves_refl by blast

lemma evolves_settle: "evolves e (settle_result live starts cycle (e\<lparr>sr_owner := w\<rparr>))"
  by (cases "sr_result e") (auto simp: evolves_def settle_result_def result_le_def)

lemma evolves_retire: "evolves e (retire_entry e)" "evolves e ((retire_entry e)\<lparr>sr_observed_owner := None\<rparr>)"
  by (cases "sr_result e"; simp add: evolves_def retire_entry_def result_le_def)+

lemma evolves_mark_entry: "evolves e (mark_entry effect e)"
  by (cases "sr_result e") (auto simp: evolves_def mark_entry_def result_le_def)

text \<open>An entry that a report pushed: either a new generation, or the one of the entry it replaced with
  the result carried over.\<close>

definition pushed ::
  "record_store \<Rightarrow> program_record \<Rightarrow> live_episode option \<Rightarrow> stored_record \<Rightarrow> bool" where
  "pushed st r episode e =
     (sr_record e = r \<and> sr_observed_owner e = map_option live_owner episode
      \<and> (sr_generation e = Suc (st_ordinal st)
         \<or> (\<exists>old \<in> set (st_records st). sr_id old = rec_id r \<and> sr_generation e = sr_generation old
              \<and> (sr_result old = None \<or> sr_result e = sr_result old))))"

lemma replace_record_origin:
  assumes "replace_record r at episode st = Some (fl, st')" and "store_wf st"
    and "e \<in> set (st_records st')"
  shows "e \<in> set (st_records st) \<or> pushed st r episode e"
  using assms(1)
proof (cases rule: replace_record_cases)
  case (1 previous rest kept lineage elig reset entry st2 st3)
  have wf: "entries_wf (st_ordinal st) (st_cycle st) (st_records st)"
    using assms(2) by (simp add: store_wf_def)
  note rem = removal_wf [OF wf 1(1,2)]
  note entry = replace_entry_fields [OF 1(8)]
  have "pushed st r episode entry"
  proof (cases reset)
    case True
    with entry(8) show ?thesis by (simp add: pushed_def entry(1,4))
  next
    case False
    with entry(8) obtain old where old: "lineage = Some old" "sr_generation entry = sr_generation old"
      by auto
    then have "previous = Some old" by (simp add: 1(3) lineage_of_Some)
    with rem(5) have "old \<in> set (st_records st)" "sr_id old = rec_id r" by auto
    moreover have "sr_result old = None \<or> sr_result entry = sr_result old"
      using entry(7) old False by (auto simp: replace_result_def Let_def)
    ultimately show ?thesis using old by (auto simp: pushed_def entry(1,4))
  qed
  with assms(3) rem(4) 1(10) show ?thesis by auto
qed

lemma settle_episode_origin:
  assumes "settle_episode live was fl st0 = Some st'" and "e' \<in> set (st_records st')"
  shows "\<exists>e \<in> set (st_records st0). evolves e e'"
  using assms(1)
proof (cases rule: settle_episode_cases)
  case (1 st starts cycle)
  with assms(2) obtain x where "x \<in> set (st_records st0)"
    "e' = settle_result live starts cycle (x\<lparr>sr_owner := reconciled_owner st0 live x\<rparr>)"
    unfolding 1(1,5) by (force simp: reconcile_ownership_def)
  with evolves_settle show ?thesis by blast
qed

lemma settled_origin:
  assumes "(case episode of None \<Rightarrow> Some st0 | Some live \<Rightarrow> settle_episode live (was live) fl st0) = Some st'"
    and "e' \<in> set (st_records st')"
  shows "\<exists>e \<in> set (st_records st0). evolves e e'"
  using assms by (cases episode) (auto dest: settle_episode_origin intro: evolves_refl)

text \<open>Every entry after an operation evolved from one before it, or from the one its report pushed.\<close>

lemma store_apply_origin:
  assumes "store_apply c at episode st = Some st'" and "store_wf st" and "e' \<in> set (st_records st')"
  shows "\<exists>e. evolves e e' \<and> (e \<in> set (st_records st) \<or> (\<exists>r. c = Replace r \<and> pushed st r episode e))"
proof (cases c)
  case (Replace r)
  with assms(1) obtain fl st1 where st1: "replace_record r at episode st = Some (fl, st1)"
    and rest: "(case episode of None \<Rightarrow> Some st1
          | Some live \<Rightarrow> settle_episode live (is_some_and episode (has_activity st)) fl st1) = Some st'"
    by (auto simp: store_apply_def bind_Some_iff Let_def)
  from settled_origin [OF rest assms(3)] replace_record_origin [OF st1 assms(2)] Replace
  show ?thesis by blast
next
  case (Clear i)
  with assms(1) have rest: "(case episode of None \<Rightarrow> Some (clear_subtree i st)
          | Some live \<Rightarrow> settle_episode live (is_some_and episode (has_activity st)) no_flags
              (clear_subtree i st)) = Some st'"
    by (simp add: store_apply_def Let_def)
  from settled_origin [OF rest assms(3)] show ?thesis by (auto simp: clear_subtree_records)
next
  case Query
  with assms show ?thesis by (auto simp: store_apply_def intro: evolves_refl)
qed

lemma mark_presented_origin:
  assumes "e' \<in> set (st_records (snd (mark_presented sel live st)))"
  shows "\<exists>e \<in> set (st_records st). evolves e e'"
proof (cases "mark_presented sel live st")
  case (Pair b st')
  then show ?thesis
  proof (cases rule: mark_presented_cases)
    case no
    with assms Pair show ?thesis by (auto intro: evolves_self)
  next
    case (yes effect current)
    with assms Pair have "e' \<in> mark_entry effect ` set (st_records st)" by simp
    then show ?thesis using evolves_mark_entry by blast
  qed
qed

lemma acknowledge_origin:
  assumes "e' \<in> set (st_records (snd (acknowledge ident st)))"
  shows "\<exists>e \<in> set (st_records st). evolves e e'"
proof (cases "acknowledge ident st")
  case (Pair b st')
  show ?thesis
  proof (cases b)
    case True
    with Pair have "acknowledge ident st = (True, st')" by simp
    then show ?thesis
    proof (cases rule: acknowledge_True)
      case (1 as e bs r)
      then have "evolves e (e\<lparr>sr_result := Some (r\<lparr>rm_acknowledged := True\<rparr>)\<rparr>)"
        by (simp add: evolves_def result_le_def)
      moreover from assms Pair 1(7) have
        "e' \<in> set (as @ e\<lparr>sr_result := Some (r\<lparr>rm_acknowledged := True\<rparr>)\<rparr> # bs)" by simp
      ultimately show ?thesis unfolding 1(1) by (auto intro: evolves_self)
    qed
  next
    case False
    with Pair assms show ?thesis by (auto simp: acknowledge_def intro: evolves_refl split: option.splits)
  qed
qed

lemma evolves_trans: "evolves a b \<Longrightarrow> evolves b c \<Longrightarrow> evolves a c"
  by (cases "sr_result a"; cases "sr_result b"; cases "sr_result c")
    (auto simp: evolves_def result_le_def)

lemma store_exec_origin:
  assumes "store_exec op st = Some st'" and "store_inv st" and "e' \<in> set (st_records st')"
  shows "\<exists>e. evolves e e' \<and> (e \<in> set (st_records st)
           \<or> (\<exists>r at episode. op = OpApply (Replace r) at episode \<and> pushed st r episode e))"
proof (cases op)
  case (OpApply c at episode)
  with assms show ?thesis
    using store_apply_origin [of c at episode st st' e']
    by (cases "command_valid c") (auto simp: store_inv_def intro: evolves_refl)
next
  case (OpLifecycle ev)
  with assms(1,3) obtain x where "e' = retire_entry x" "x \<in> set (st_records st)"
    by (cases ev) auto
  with evolves_retire(1) show ?thesis by blast
next
  case OpInvalidate
  with assms(1,3) obtain x where "e' = (retire_entry x)\<lparr>sr_observed_owner := None\<rparr>"
    "x \<in> set (st_records st)"
    by (auto simp: invalidate_episode_def)
  with evolves_retire(2) show ?thesis by blast
next
  case (OpPresent sel live)
  with assms(1,3) mark_presented_origin [of e' sel live st] show ?thesis by auto
next
  case (OpAcknowledge ident)
  with assms(1,3) acknowledge_origin [of e' ident st] show ?thesis by auto
next
  case (OpReconcile sel live d)
  with assms(1) obtain b where "reconcile_result sel live d st = Some (b, st')" by auto
  then show ?thesis
  proof (cases rule: reconcile_result_cases)
    case (acked st1 r)
    with assms(3) acknowledge_origin [of e' "pr_identity r" st1] obtain e1 where
      "e1 \<in> set (st_records st1)" "evolves e1 e'" by auto
    with acked mark_presented_origin [of e1 sel live st] evolves_trans show ?thesis by fastforce
  qed (use assms(3) mark_presented_origin [of e' sel live st] in auto)
qed

lemma settle_ordinal:
  "settle_episode live was fl st0 = Some st' \<Longrightarrow> st_ordinal st' = st_ordinal st0"
  by (erule settle_episode_cases) (simp add: reconcile_ownership_def)

lemma store_exec_ordinal:
  assumes "store_exec op st = Some st'" and "store_wf st"
  shows "st_ordinal st \<le> st_ordinal st'"
proof -
  have apply_ord: "st_ordinal st \<le> st_ordinal st''"
    if app: "store_apply c at episode st = Some st''" for c at episode st''
  proof (cases c)
    case (Replace r)
    with app obtain fl st1 where st1: "replace_record r at episode st = Some (fl, st1)"
      and "(case episode of None \<Rightarrow> Some st1
            | Some live \<Rightarrow> settle_episode live (is_some_and episode (has_activity st)) fl st1) = Some st''"
      by (auto simp: store_apply_def bind_Some_iff Let_def)
    then have "st_ordinal st'' = st_ordinal st1" by (cases episode) (auto dest: settle_ordinal)
    with st1 show ?thesis by (auto elim!: replace_record_cases)
  next
    case (Clear i)
    with app show ?thesis
      by (cases episode) (auto simp: store_apply_def Let_def clear_subtree_def dest: settle_ordinal)
  qed (use app in \<open>simp add: store_apply_def\<close>)
  show ?thesis
  proof (cases op)
    case (OpLifecycle ev)
    with assms show ?thesis by (cases ev) auto
  next
    case (OpReconcile sel live d)
    with assms obtain b where "reconcile_result sel live d st = Some (b, st')" by auto
    then show ?thesis
      by (cases rule: reconcile_result_cases)
        (auto elim!: mark_presented_cases acknowledge_True
          simp: acknowledge_def split: option.splits)
  qed (use assms apply_ord in \<open>auto simp: invalidate_episode_def mark_presented_def acknowledge_def
         split: if_splits option.splits\<close>)
qed

section \<open>Latches\<close>

text \<open>A result identity is spent with respect to a mark when the generation has been issued and any
  record that still carries it has a result with the mark.\<close>

definition spent :: "(result_memory \<Rightarrow> bool) \<Rightarrow> result_identity \<Rightarrow> record_store \<Rightarrow> bool" where
  "spent mark ident st =
     (ri_generation ident \<le> st_ordinal st
      \<and> (\<forall>e \<in> set (st_records st).
            sr_id e = ri_record ident \<and> sr_generation e = ri_generation ident
            \<longrightarrow> is_some_and (sr_result e) mark))"

text \<open>The contract of a mark: it survives the evolution of a result. Its clients learn that a spent
  identity stays spent, whatever happens to the store.\<close>

locale result_latch =
  fixes mark :: "result_memory \<Rightarrow> bool"
  assumes mark_mono: "result_le m m' \<Longrightarrow> mark m \<Longrightarrow> mark m'"
begin

lemma evolves_mark: "evolves e e' \<Longrightarrow> is_some_and (sr_result e) mark \<Longrightarrow> is_some_and (sr_result e') mark"
  by (cases "sr_result e"; cases "sr_result e'") (auto simp: evolves_def intro: mark_mono)

lemma spent_exec:
  assumes "spent mark ident st" and "store_inv st" and "store_exec op st = Some st'"
  shows "spent mark ident st'"
  unfolding spent_def
proof (intro conjI ballI impI)
  have wf: "store_wf st" using assms(2) by (simp add: store_inv_def)
  show "ri_generation ident \<le> st_ordinal st'"
    using assms(1) store_exec_ordinal [OF assms(3) wf] by (simp add: spent_def)
  fix e' assume e': "e' \<in> set (st_records st')"
    and id: "sr_id e' = ri_record ident \<and> sr_generation e' = ri_generation ident"
  from store_exec_origin [OF assms(3,2) e'] obtain e where e: "evolves e e'"
    and origin: "e \<in> set (st_records st)
      \<or> (\<exists>r at episode. op = OpApply (Replace r) at episode \<and> pushed st r episode e)" by blast
  from e id have id': "sr_id e = ri_record ident" "sr_generation e = ri_generation ident"
    by (auto simp: evolves_def)
  have "is_some_and (sr_result e) mark"
    using origin
  proof
    assume "e \<in> set (st_records st)"
    with assms(1) id' show ?thesis by (simp add: spent_def)
  next
    assume "\<exists>r at episode. op = OpApply (Replace r) at episode \<and> pushed st r episode e"
    then obtain r episode where "pushed st r episode e" by blast
    moreover have "sr_generation e \<noteq> Suc (st_ordinal st)"
      using assms(1) id' by (simp add: spent_def)
    ultimately obtain old where old: "old \<in> set (st_records st)" "sr_id old = sr_id e"
      "sr_generation e = sr_generation old" "sr_result old = None \<or> sr_result e = sr_result old"
      by (auto simp: pushed_def)
    with assms(1) id' have "is_some_and (sr_result old) mark" by (simp add: spent_def)
    with old(4) show ?thesis by auto
  qed
  with e show "is_some_and (sr_result e') mark" by (rule evolves_mark)
qed

lemma spent_run:
  "spent mark ident st \<Longrightarrow> store_inv st \<Longrightarrow> run_ops store_exec ops st = Some st' \<Longrightarrow> spent mark ident st'"
proof (induction ops arbitrary: st)
  case (Cons op ops)
  then obtain st1 where "store_exec op st = Some st1" "run_ops store_exec ops st1 = Some st'"
    by (auto simp: bind_Some_iff)
  with Cons spent_exec store_exec_inv show ?case by blast
qed simp

end

interpretation presented_latch: result_latch rm_presented
  by unfold_locales (simp add: result_le_def)

interpretation acknowledged_latch: result_latch rm_acknowledged
  by unfold_locales (simp add: result_le_def)

text \<open>What the selection of a result says of the entry behind it.\<close>

lemma select_result_entry:
  assumes "store_select st live = Some sel" and "sel_result sel = Some r" and "store_wf st"
  obtains e m where "e \<in> set (st_records st)" "sr_owner e = Some (ri_owner (pr_identity r))"
    "sr_id e = ri_record (pr_identity r)"
    "sr_generation e = ri_generation (pr_identity r)" "sr_result e = Some m"
    "\<not> rm_acknowledged m" "pr_pending r \<longleftrightarrow> \<not> rm_presented m" "pr_cycle r = rm_cycle m"
    "\<not> rm_superseded m" "ri_owner (pr_identity r) = live_owner live"
proof -
  from assms(1) obtain e where sel: "select_entry st live = Some e"
    and r: "sel_result sel = project_result (has_activity st live) live e"
    by (rule store_select_Some)
  from r assms(2) have "project_result (has_activity st live) live e = Some r" by simp
  then obtain m where m: "sr_result e = Some m" "\<not> rm_acknowledged m" "\<not> rm_superseded m"
    "r = \<lparr>pr_identity = \<lparr>ri_owner = live_owner live, ri_record = sr_id e, ri_generation = rm_generation m\<rparr>,
          pr_kind = (if sr_status e = PError then Failure else Completion),
          pr_cycle = rm_cycle m, pr_pending = (\<not> rm_presented m)\<rparr>"
    by (auto simp: project_result_def result_fresh_def option_filter_Some map_option_eq_Some
        split: if_splits)
  note e = select_entry_Some(1,2) [OF sel]
  from e(1) assms(3) m(1) have "rm_generation m = sr_generation e"
    by (auto simp: store_wf_def entries_wf_def entry_wf_def)
  with e m that show ?thesis by (auto simp: eligible_def)
qed

section \<open>Announced at most once\<close>

lemma entry_generation_le:
  "store_wf st \<Longrightarrow> e \<in> set (st_records st) \<Longrightarrow> sr_generation e \<le> st_ordinal st"
  by (auto simp: store_wf_def entries_wf_def entry_wf_def)

lemma inv_distinct: "store_inv st \<Longrightarrow> distinct_ids st"
  by (simp add: store_inv_def store_wf_def entries_wf_def)

lemma mark_presented_spent:
  assumes "mark_presented sel live st = (True, st')" and "store_inv st"
  obtains effect where "pending_result sel = Some effect" "spent rm_presented (pr_identity effect) st'"
  using assms(1)
proof (cases rule: mark_presented_cases)
  case (yes effect current)
  let ?id = "pr_identity effect"
  have wf: "store_wf st" using assms(2) by (simp add: store_inv_def)
  from yes(8) obtain r where r: "sel_result current = Some r" "pr_identity r = ?id"
    by (auto simp: pending_result_def option_filter_Some)
  from select_result_entry [OF yes(5) r(1) wf] obtain e m where
    e: "e \<in> set (st_records st)" "sr_owner e = Some (ri_owner ?id)" "sr_id e = ri_record ?id"
    "sr_generation e = ri_generation ?id" "sr_result e = Some m" unfolding r(2) by metis
  have gen: "rm_generation m = ri_generation ?id"
    using wf e by (auto simp: store_wf_def entries_wf_def entry_wf_def)
  have own: "rm_owner m = Some (ri_owner ?id)"
    using assms(2) e by (auto simp: store_inv_def list_all_iff result_owned_def)
  have "is_some_and (sr_result e') rm_presented"
    if "e' \<in> set (st_records st')" "sr_id e' = ri_record ?id" for e'
  proof -
    from that yes(9) obtain x where x: "x \<in> set (st_records st)" "e' = mark_entry effect x" by auto
    with that(2) e(1,3) same_id [OF inv_distinct [OF assms(2)]] have "x = e" by auto
    with x(2) e gen own show ?thesis by (simp add: mark_entry_def)
  qed
  moreover have "ri_generation ?id \<le> st_ordinal st'"
    using entry_generation_le [OF wf e(1)] e(4) yes(9) by simp
  ultimately show ?thesis using that yes(2) by (simp add: spent_def)
qed simp

lemma acknowledge_spent:
  assumes "acknowledge ident st = (True, st')" and "store_inv st"
  shows "spent rm_acknowledged ident st'"
  using assms(1)
proof (cases rule: acknowledge_True)
  case (1 as e bs r)
  have wf: "store_wf st" using assms(2) by (simp add: store_inv_def)
  then have "sr_generation e = ri_generation ident"
    using 1 by (auto simp: store_wf_def entries_wf_def entry_wf_def)
  moreover have "sr_generation e \<le> st_ordinal st"
    using 1(1) by (intro entry_generation_le [OF wf]) simp
  moreover have "\<forall>x \<in> set as \<union> set bs. sr_id x \<noteq> ri_record ident"
    using inv_distinct [OF assms(2)] 1(1,3) by (auto simp: image_iff)
  ultimately show ?thesis by (auto simp: spent_def 1(7))
qed

text \<open>C17 (presented_once). A result is announced at most once: after a selection's pending result was
  marked presented, no continuation of the run (reports, terminal resets, lost episodes, other
  presentations) ever selects the same result identity as pending again, under any live episode.\<close>
theorem presented_once:
  assumes "run_ops store_exec before store_new = Some st"
    and "mark_presented sel live st = (True, st1)"
    and "run_ops store_exec after st1 = Some st2"
    and "store_select st2 live2 = Some sel2" and "pending_result sel2 = Some r2"
  shows "map_option pr_identity (pending_result sel) \<noteq> Some (pr_identity r2)"
proof
  assume same: "map_option pr_identity (pending_result sel) = Some (pr_identity r2)"
  have inv: "store_inv st" by (rule store.inv_run [OF assms(1)])
  have inv1: "store_inv st1" by (rule mark_presented_inv [OF assms(2) inv])
  have inv2: "store_inv st2" by (rule store.inv_run_from [OF inv1 assms(3)])
  from mark_presented_spent [OF assms(2) inv] obtain effect where
    "pending_result sel = Some effect" "spent rm_presented (pr_identity effect) st1" .
  with same have "spent rm_presented (pr_identity r2) st1" by simp
  then have spent: "spent rm_presented (pr_identity r2) st2"
    using presented_latch.spent_run inv1 assms(3) by blast
  have r2: "sel_result sel2 = Some r2" "pr_pending r2"
    using assms(5) by (simp_all add: pending_result_def option_filter_Some)
  from inv2 have "store_wf st2" by (simp add: store_inv_def)
  from select_result_entry [OF assms(4) r2(1) this] obtain e m where
    "e \<in> set (st_records st2)" "sr_id e = ri_record (pr_identity r2)"
    "sr_generation e = ri_generation (pr_identity r2)" "sr_result e = Some m" "\<not> rm_presented m"
    using r2(2) by metis
  with spent show False by (auto simp: spent_def)
qed

definition sample_selection :: program_selection where
  "sample_selection = the (store_select sample_store sample_live)"

definition sample_presented :: record_store where
  "sample_presented = snd (mark_presented sample_selection sample_live sample_store)"

definition sample_again :: "store_op list" where
  "sample_again = [OpApply (sample_report ''a'' (PWorking None)) 40 (Some sample_live),
     OpApply (sample_report ''a'' PDone) 50 (Some sample_live)]"

definition sample_later :: record_store where
  "sample_later = the (run_ops store_exec sample_again sample_presented)"

theorem presented_once_witness:
  "map_option pr_identity (pending_result sample_selection)
     \<noteq> Some (pr_identity (the (pending_result (the (store_select sample_later sample_live)))))"
proof -
  have 1: "mark_presented sample_selection sample_live sample_store = (True, sample_presented)"
    by code_simp
  have 2: "run_ops store_exec sample_again sample_presented = Some sample_later" by code_simp
  have 3: "store_select sample_later sample_live = Some (the (store_select sample_later sample_live))"
    by code_simp
  have 4: "pending_result (the (store_select sample_later sample_live))
      = Some (the (pending_result (the (store_select sample_later sample_live))))"
    by code_simp
  show ?thesis by (rule presented_once [OF sample_run 1 2 3 4])
qed

text \<open>Once a result was acknowledged it is never selected again, pending
  or not, along any continuation of the run and under any live episode; in particular the same
  acknowledgement cannot be lost by a later report of the same record.\<close>
theorem acknowledged_never_returns:
  assumes "run_ops store_exec before store_new = Some st"
    and "acknowledge ident st = (True, st1)"
    and "run_ops store_exec after st1 = Some st2"
    and "store_select st2 live2 = Some sel2"
  shows "map_option pr_identity (sel_result sel2) \<noteq> Some ident"
proof
  assume "map_option pr_identity (sel_result sel2) = Some ident"
  then obtain r2 where r2: "sel_result sel2 = Some r2" "pr_identity r2 = ident" by auto
  have inv: "store_inv st" by (rule store.inv_run [OF assms(1)])
  have inv1: "store_inv st1" by (rule acknowledge_inv [OF assms(2) inv])
  have "store_wf st2" using store.inv_run_from [OF inv1 assms(3)] by (simp add: store_inv_def)
  from select_result_entry [OF assms(4) r2(1) this] obtain e m where
    "e \<in> set (st_records st2)" "sr_id e = ri_record ident" "sr_generation e = ri_generation ident"
    "sr_result e = Some m" "\<not> rm_acknowledged m"
    unfolding r2(2) by metis
  moreover have "spent rm_acknowledged ident st2"
    using acknowledged_latch.spent_run acknowledge_spent [OF assms(2) inv] inv1 assms(3) by blast
  ultimately show False by (auto simp: spent_def)
qed

definition sample_ident :: result_identity where
  "sample_ident = \<lparr>ri_owner = 7, ri_record = RecordId ''a'', ri_generation = 1\<rparr>"

definition sample_acknowledged :: record_store where
  "sample_acknowledged = snd (acknowledge sample_ident sample_presented)"

theorem acknowledged_never_returns_witness:
  "map_option pr_identity (sel_result (the (store_select
      (the (run_ops store_exec sample_again sample_acknowledged)) sample_live))) \<noteq> Some sample_ident"
proof -
  have 1: "run_ops store_exec (sample_ops @ [OpPresent sample_selection sample_live]) store_new
      = Some sample_presented"
    by code_simp
  have 2: "acknowledge sample_ident sample_presented = (True, sample_acknowledged)" by code_simp
  have 3: "run_ops store_exec sample_again sample_acknowledged
      = Some (the (run_ops store_exec sample_again sample_acknowledged))" by code_simp
  show ?thesis
    by (rule acknowledged_never_returns [OF 1 2 3, of sample_live]) code_simp
qed

end
