(* ===== verification/Store_Episodes.thy ===== *)
theory Store_Episodes
  imports Store_Results
begin

text \<open>
  The isolation of episodes, the exactness of acknowledgement and the recovery resets of the record
  store: a selection shows what was reported in the very episode that asks, an acknowledgement needs
  the exact presented result of the record's current owner, and a reset covers at least the
  identifiers it names.
\<close>

section \<open>Episodes\<close>

definition reported_in :: "store_op list \<Rightarrow> episode_id \<Rightarrow> program_record \<Rightarrow> bool" where
  "reported_in ops w r =
     list_ex (\<lambda>op. case op of
         OpApply (Replace r') _ (Some live) \<Rightarrow> r' = r \<and> live_owner live = w
       | _ \<Rightarrow> False) ops"

lemma reported_in_append [simp]:
  "reported_in (xs @ ys) w r \<longleftrightarrow> reported_in xs w r \<or> reported_in ys w r"
  by (simp add: reported_in_def)

definition traced :: "store_op list \<Rightarrow> record_store \<Rightarrow> bool" where
  "traced ops st =
     (\<forall>e \<in> set (st_records st). \<forall>w. sr_observed_owner e = Some w \<longrightarrow> reported_in ops w (sr_record e))"

lemma traced_exec:
  assumes "traced ops st" and "store_inv st" and "store_exec op st = Some st'"
  shows "traced (ops @ [op]) st'"
  unfolding traced_def
proof (intro ballI allI impI)
  fix e' w assume e': "e' \<in> set (st_records st')" and w: "sr_observed_owner e' = Some w"
  from store_exec_origin [OF assms(3,2) e'] obtain e where e: "evolves e e'"
    and origin: "e \<in> set (st_records st)
      \<or> (\<exists>r at episode. op = OpApply (Replace r) at episode \<and> pushed st r episode e)" by blast
  from e w have ew: "sr_observed_owner e = Some w" "sr_record e' = sr_record e"
    by (auto simp: evolves_def)
  from origin show "reported_in (ops @ [op]) w (sr_record e')"
  proof
    assume "e \<in> set (st_records st)"
    with assms(1) ew show ?thesis by (simp add: traced_def)
  next
    assume "\<exists>r at episode. op = OpApply (Replace r) at episode \<and> pushed st r episode e"
    then obtain r at episode where op: "op = OpApply (Replace r) at episode" "pushed st r episode e"
      by blast
    with ew obtain live where "episode = Some live" "live_owner live = w" "sr_record e' = r"
      by (cases episode) (simp_all add: pushed_def)
    with op(1) have "reported_in [op] w (sr_record e')" by (simp add: reported_in_def)
    then show ?thesis by simp
  qed
qed

lemma traced_run:
  "traced done st \<Longrightarrow> store_inv st \<Longrightarrow> run_ops store_exec ops st = Some st' \<Longrightarrow> traced (done @ ops) st'"
proof (induction ops arbitrary: st "done")
  case (Cons op ops)
  then obtain st1 where st1: "store_exec op st = Some st1" "run_ops store_exec ops st1 = Some st'"
    by (auto simp: bind_Some_iff)
  from Cons.IH [OF traced_exec [OF Cons.prems(1,2) st1(1)] store_exec_inv [OF Cons.prems(2) st1(1)] st1(2)]
  show ?case by simp
qed simp

text \<open>C22 (episode_isolation). A selection never shows another episode's work: after any run, what is
  selected for a live episode is the status of a report that was applied while an episode with that
  very owner was live, and the nearest application named at or above its record, if any, is one the
  episode owns.\<close>
theorem episode_isolation:
  assumes "run_ops store_exec ops store_new = Some st" and "store_select st live = Some sel"
  shows "\<exists>r. reported_in ops (live_owner live) r \<and> rec_id r = sel_record sel
    \<and> rec_status r = sel_protocol sel \<and> sel_owner sel = live_owner live
    \<and> is_none_or (effective_app st (rec_id r)) (live_matches live)"
proof -
  from assms(2) obtain e where e: "select_entry st live = Some e" "sel_owner sel = live_owner live"
    "sel_record sel = sr_id e" "sel_protocol sel = sr_status e" by (rule store_select_Some)
  note sel = select_entry_Some(1,2) [OF e(1)]
  have "store_wf st" using store.inv_run [OF assms(1)] by (simp add: store_inv_def)
  with sel have "sr_observed_owner e = Some (live_owner live)"
    by (auto simp: eligible_def store_wf_def entries_wf_def entry_wf_def)
  moreover have "traced ([] @ ops) st"
    using assms(1) by (intro traced_run [OF _ store_inv_new]) (simp_all add: traced_def store_new_def)
  ultimately have "reported_in ops (live_owner live) (sr_record e)"
    using sel(1) by (simp add: traced_def)
  with e sel(2) show ?thesis by (intro exI [of _ "sr_record e"]) (simp add: eligible_def)
qed

theorem episode_isolation_witness:
  "\<exists>r. reported_in sample_ops 7 r \<and> rec_id r = RecordId ''a'' \<and> rec_status r = PDone"
proof -
  have "store_select sample_store sample_live = Some sample_selection" by code_simp
  moreover have "sel_record sample_selection = RecordId ''a''" "sel_protocol sample_selection = PDone"
    by code_simp+
  ultimately show ?thesis
    using episode_isolation [OF sample_run, of sample_live sample_selection]
    by (auto simp: sample_live_def)
qed

text \<open>A terminal boundary or the loss of an episode withdraws everything at
  once: right after either, no live episode has a selection or any activity.\<close>
theorem boundary_withdraws:
  "store_select (invalidate_episode st) live = None \<and> \<not> has_activity (invalidate_episode st) live
   \<and> store_select (store_lifecycle ev st) live = None \<and> \<not> has_activity (store_lifecycle ev st) live"
  by (cases ev)
    (auto simp: store_select_def select_entry_def filter_empty_conv eligible_def has_activity_def
      list_ex_iff invalidate_episode_def)

section \<open>Acknowledgement\<close>

lemma update_first_total:
  "x \<in> set xs \<Longrightarrow> p x \<Longrightarrow> (\<And>y. y \<in> set xs \<Longrightarrow> p y \<Longrightarrow> f y \<noteq> None) \<Longrightarrow> update_first p f xs \<noteq> None"
  by (induction xs) auto

text \<open>An acknowledgement is taken exactly when the record it names is owned by
  the episode it names and its current result is of that very generation and has been presented;
  otherwise it is refused and the store is unchanged. An absent flag is never an acknowledgement.\<close>
theorem acknowledge_exact:
  assumes "run_ops store_exec ops store_new = Some st"
  shows "(fst (acknowledge ident st) \<longleftrightarrow>
      list_ex (\<lambda>e. sr_owner e = Some (ri_owner ident) \<and> sr_id e = ri_record ident
                   \<and> is_some_and (sr_result e) (\<lambda>r. rm_generation r = ri_generation ident \<and> rm_presented r))
        (st_records st))
    \<and> (fst (acknowledge ident st) \<or> snd (acknowledge ident st) = st)"
    (is "(?L \<longleftrightarrow> ?R) \<and> _")
proof
  show "?L \<longleftrightarrow> ?R"
  proof
    assume ?L
    then have "acknowledge ident st = (True, snd (acknowledge ident st))"
      by (cases "acknowledge ident st") simp
    then show ?R by (cases rule: acknowledge_True) simp
  next
    assume ?R
    then obtain e r where e: "e \<in> set (st_records st)" "sr_owner e = Some (ri_owner ident)"
      "sr_id e = ri_record ident" "sr_result e = Some r"
      "rm_generation r = ri_generation ident" "rm_presented r"
      by (auto simp: list_ex_iff is_some_and_iff)
    have only: "x = e" if "x \<in> set (st_records st)" "sr_id x = ri_record ident" for x
      using same_id [OF reach_distinct [OF assms] that(1) e(1)] that(2) e(3) by simp
    have "update_first (\<lambda>e. sr_owner e = Some (ri_owner ident) \<and> sr_id e = ri_record ident)
       (\<lambda>e. map_option (\<lambda>r. e\<lparr>sr_result := Some (r\<lparr>rm_acknowledged := True\<rparr>)\<rparr>)
              (option_filter (\<lambda>r. rm_generation r = ri_generation ident \<and> rm_presented r)
                (sr_result e))) (st_records st) \<noteq> None"
    proof (rule update_first_total [OF e(1)])
      fix y assume "y \<in> set (st_records st)" "sr_owner y = Some (ri_owner ident) \<and> sr_id y = ri_record ident"
      with only have "y = e" by simp
      with e(4-6) show "map_option (\<lambda>r. y\<lparr>sr_result := Some (r\<lparr>rm_acknowledged := True\<rparr>)\<rparr>)
          (option_filter (\<lambda>r. rm_generation r = ri_generation ident \<and> rm_presented r) (sr_result y)) \<noteq> None"
        by simp
    qed (simp add: e(2,3))
    then show ?L by (auto simp: acknowledge_def)
  qed
  show "fst (acknowledge ident st) \<or> snd (acknowledge ident st) = st"
    by (simp add: acknowledge_def split: option.splits)
qed

theorem acknowledge_exact_witness:
  "\<not> fst (acknowledge sample_ident sample_store) \<and> fst (acknowledge sample_ident sample_presented)"
proof
  show "\<not> fst (acknowledge sample_ident sample_store)"
    unfolding conjunct1 [OF acknowledge_exact [OF sample_run]] by code_simp
  show "fst (acknowledge sample_ident sample_presented)" by code_simp
qed

section \<open>Recovery resets\<close>

text \<open>The identifiers one reset is meant to cover.\<close>

definition covers :: "record_id \<Rightarrow> bool \<Rightarrow> record_id \<Rightarrow> bool" where
  "covers i wide j = (if wide then rid_contains i j else i = j)"

lemma reset_for_covers:
  "recovery_reset_for st j \<longleftrightarrow> st_reset_all st \<or> list_ex (\<lambda>(i, wide). covers i wide j) (st_resets st)"
  by (simp add: recovery_reset_for_def covers_def)

lemma covers_trans: "covers i True k \<Longrightarrow> covers k wide j \<Longrightarrow> covers i True j"
  by (auto simp: covers_def intro: rid_contains_trans split: if_splits)

lemma note_reset_for:
  obtains (exact) "\<And>j. recovery_reset_for (note_recovery_reset i wide st) j
      \<longleftrightarrow> covers i wide j \<or> recovery_reset_for st j"
  | (full) "st_reset_all (note_recovery_reset i wide st)" "MAX_RECORDS \<le> length (st_resets st)"
proof (cases "st_reset_all st \<or> list_ex (\<lambda>(reset, w).
               if w then rid_contains reset i else \<not> wide \<and> reset = i) (st_resets st)")
  case True
  then have "covers i wide j \<longrightarrow> recovery_reset_for st j" for j
  proof
    assume "list_ex (\<lambda>(reset, w). if w then rid_contains reset i else \<not> wide \<and> reset = i) (st_resets st)"
    then obtain reset w where rw: "(reset, w) \<in> set (st_resets st)"
      "if w then rid_contains reset i else \<not> wide \<and> reset = i"
      by (auto simp: list_ex_iff)
    then have "covers i wide j \<longrightarrow> covers reset w j"
      using covers_trans [of reset i wide j] by (cases w) (simp_all add: covers_def)
    with rw(1) show ?thesis by (auto simp: reset_for_covers list_ex_iff)
  qed (simp add: reset_for_covers)
  moreover from True have "note_recovery_reset i wide st = st" by (simp add: note_recovery_reset_def)
  ultimately show ?thesis by (intro exact) auto
next
  case False
  let ?kept = "if wide then filter (\<lambda>(reset, _). \<not> rid_contains i reset) (st_resets st) else st_resets st"
  have kept: "covers i wide j \<or> list_ex (\<lambda>(k, w). covers k w j) ?kept
      \<longleftrightarrow> covers i wide j \<or> list_ex (\<lambda>(k, w). covers k w j) (st_resets st)" for j
  proof (cases wide)
    case True
    then have "covers i wide j" if "rid_contains i k" "covers k w j" for k w
      using that covers_trans [of i k w j] by (simp add: covers_def)
    with True show ?thesis by (fastforce simp: list_ex_iff)
  qed simp
  consider (root) "wide" "rid_is_root i" | (over) "length ?kept = MAX_RECORDS"
    | (room) "length ?kept \<noteq> MAX_RECORDS" "\<not> (wide \<and> rid_is_root i)" by blast
  then show ?thesis
  proof cases
    case root
    then have "covers i wide j" for j by (simp add: covers_def rid_contains_def)
    moreover have "st_reset_all (note_recovery_reset i wide st)"
      unfolding note_recovery_reset_def if_not_P [OF False] Let_def using root by simp
    ultimately show ?thesis by (intro exact) (simp add: reset_for_covers)
  next
    case over
    then have "MAX_RECORDS \<le> length (st_resets st)"
      by (cases wide) (simp_all, metis length_filter_le)
    with over False show ?thesis by (intro full) (simp_all add: note_recovery_reset_def Let_def)
  next
    case room
    then have "note_recovery_reset i wide st = st\<lparr>st_resets := ?kept @ [(i, wide)]\<rparr>"
      using False by (simp add: note_recovery_reset_def Let_def)
    moreover have all: "\<not> st_reset_all st" using False by simp
    ultimately have "recovery_reset_for (note_recovery_reset i wide st) j
        \<longleftrightarrow> covers i wide j \<or> list_ex (\<lambda>(k, w). covers k w j) ?kept" for j
      by (simp only: reset_for_covers) auto
    with kept all show ?thesis by (intro exact) (simp only: reset_for_covers simp_thms)
  qed
qed

lemma settle_resets:
  assumes "(case episode of None \<Rightarrow> Some base | Some live \<Rightarrow> settle_episode live (was live) fl base) = Some st'"
  shows "st_resets st' = st_resets base" and "st_reset_all st' = st_reset_all base"
  using assms
  by (cases episode; force elim!: settle_episode_cases simp: reconcile_ownership_def)+

lemma clear_resets:
  assumes "store_apply (Clear i) at episode st = Some st'"
  shows "st_resets st' = st_resets (note_recovery_reset i True st)"
    and "st_reset_all st' = st_reset_all (note_recovery_reset i True st)"
proof -
  have "(case episode of None \<Rightarrow> Some (clear_subtree i st)
      | Some live \<Rightarrow> settle_episode live (is_some_and episode (has_activity st)) no_flags
          (clear_subtree i st)) = Some st'"
    using assms by (simp add: store_apply_def Let_def)
  from settle_resets [OF this]
  show "st_resets st' = st_resets (note_recovery_reset i True st)"
    and "st_reset_all st' = st_reset_all (note_recovery_reset i True st)"
    by (simp_all add: clear_subtree_def Let_def)
qed

text \<open>Clearing a record resets the recovery of its whole subtree and
  forgets none of the earlier resets. While fewer than 256 resets are held the recorded set grows by
  exactly that subtree; at capacity everything counts as reset, never less.\<close>
theorem clear_resets_subtree:
  assumes "store_apply (Clear i) at episode st = Some st'"
  shows "(rid_contains i j \<or> recovery_reset_for st j \<longrightarrow> recovery_reset_for st' j)
    \<and> (length (st_resets st) < MAX_RECORDS
        \<longrightarrow> (recovery_reset_for st' j \<longleftrightarrow> rid_contains i j \<or> recovery_reset_for st j))"
proof -
  have same: "recovery_reset_for st' j \<longleftrightarrow> recovery_reset_for (note_recovery_reset i True st) j"
    using clear_resets [OF assms] by (simp add: recovery_reset_for_def)
  show ?thesis
  proof (cases rule: note_reset_for [of i True st])
    case exact
    then show ?thesis by (simp add: same covers_def)
  next
    case full
    then have "recovery_reset_for st' j" unfolding same by (simp add: recovery_reset_for_def)
    with full(2) show ?thesis by simp
  qed
qed

theorem clear_resets_subtree_witness:
  "recovery_reset_for (the (store_apply (Clear (RecordId ''a'')) 1 None store_new)) (RecordId ''a/b'')"
proof -
  have "store_apply (Clear (RecordId ''a'')) 1 None store_new
      = Some (the (store_apply (Clear (RecordId ''a'')) 1 None store_new))"
    by code_simp
  moreover have "rid_contains (RecordId ''a'') (RecordId ''a/b'')" by code_simp
  ultimately show ?thesis using clear_resets_subtree by blast
qed

text \<open>The bytes reserved before a command is applied always suffice for the
  recovery resets retained after it, on every branch of the application.\<close>
theorem reservation_suffices:
  assumes "store_apply c at episode st = Some st'"
  shows "recovery_retained_bytes st' \<le> recovery_reservation st c"
proof -
  have noted: "recovery_retained_bytes (note_recovery_reset i wide st1)
      \<le> recovery_retained_bytes st1 + length (rid_str i)" for i wide st1
  proof -
    have "sum_list (map f (filter p xs)) \<le> sum_list (map f xs)" for f :: "record_id \<times> bool \<Rightarrow> nat" and p xs
      by (induction xs) auto
    then show ?thesis
      by (simp add: note_recovery_reset_def recovery_retained_bytes_def Let_def)
  qed
  have frame: "recovery_retained_bytes st' = recovery_retained_bytes st1"
    if "st_resets st' = st_resets st1" for st1
    using that by (simp add: recovery_retained_bytes_def)
  show ?thesis
  proof (cases c)
    case (Replace r)
    with assms obtain fl st1 where st1: "replace_record r at episode st = Some (fl, st1)"
      and rest: "(case episode of None \<Rightarrow> Some st1
            | Some live \<Rightarrow> settle_episode live (is_some_and episode (has_activity st)) fl st1) = Some st'"
      by (auto simp: store_apply_def bind_Some_iff Let_def)
    from st1 have "recovery_retained_bytes st1 \<le> recovery_reservation st c"
    proof (cases rule: replace_record_cases)
      case (1 previous rest kept lineage elig reset entry st2 st3)
      have "recovery_retained_bytes st2 = recovery_retained_bytes st"
        by (simp add: 1(4) recovery_retained_bytes_def)
      moreover have "recovery_retained_bytes st1 = recovery_retained_bytes st3"
        by (simp add: 1(10) recovery_retained_bytes_def)
      ultimately show ?thesis
        using noted [of "rec_id r" False st2] by (simp add: 1(7) Replace recovery_reservation_def)
    qed
    with frame [OF settle_resets(1) [OF rest]] show ?thesis by simp
  next
    case (Clear i)
    with assms clear_resets(1) [of i at episode st st'] noted [of i True st] frame show ?thesis
      by (simp add: recovery_reservation_def)
  next
    case Query
    with assms show ?thesis by (simp add: store_apply_def recovery_reservation_def)
  qed
qed

theorem reservation_suffices_witness:
  "recovery_retained_bytes (the (store_apply (Clear (RecordId ''a'')) 1 None store_new)) \<le> 1"
proof -
  have "store_apply (Clear (RecordId ''a'')) 1 None store_new
      = Some (the (store_apply (Clear (RecordId ''a'')) 1 None store_new))"
    by code_simp
  from reservation_suffices [OF this] show ?thesis
    by (simp add: recovery_reservation_def recovery_retained_bytes_def store_new_def)
qed

end
