(* ===== verification/Stamp.thy ===== *)
theory Stamp
  imports Core_Types
begin

text \<open>
  The pane-option tuple (\<open>stamp.rs\<close>): the option keys, the decoded \<open>StampedState\<close>, its decoding
  from a map of options with the legacy-seconds normalization, the torn-read test and the
  clock-step exception, the mute deadline. A \<open>HashMap<String, String>\<close> is a partial map.
\<close>

section \<open>Option keys\<close>

type_synonym options = "string \<Rightarrow> string option"

definition OPT_NAME :: string where "OPT_NAME = ''@agent_name''"
definition OPT_STATE :: string where "OPT_STATE = ''@agent_state''"
definition OPT_DETAIL :: string where "OPT_DETAIL = ''@agent_detail''"
definition OPT_SOURCE :: string where "OPT_SOURCE = ''@agent_source''"
definition OPT_EVIDENCE_AT :: string where "OPT_EVIDENCE_AT = ''@agent_evidence_at''"
definition OPT_SINCE :: string where "OPT_SINCE = ''@agent_since''"
definition OPT_STAMPED_AT :: string where "OPT_STAMPED_AT = ''@agent_stamped_at''"
definition OPT_ATTENTION :: string where "OPT_ATTENTION = ''@agent_attention''"
definition OPT_NOTIFIED_AT :: string where "OPT_NOTIFIED_AT = ''@agent_notified_at''"
definition OPT_TURN_AT :: string where "OPT_TURN_AT = ''@agent_turn_at''"
definition OPT_HASH :: string where "OPT_HASH = ''@agent_hash''"
definition OPT_PID :: string where "OPT_PID = ''@agent_pid''"
definition OPT_SESSION :: string where "OPT_SESSION = ''@agent_session''"
definition OPT_TRANSCRIPT :: string where "OPT_TRANSCRIPT = ''@agent_transcript''"
definition OPT_SUBAGENTS :: string where "OPT_SUBAGENTS = ''@agent_subagents''"
definition OPT_CONTEXT_PCT :: string where "OPT_CONTEXT_PCT = ''@agent_context_pct''"
definition OPT_CONTEXT_AT :: string where "OPT_CONTEXT_AT = ''@agent_context_at''"
definition OPT_TOKENS :: string where "OPT_TOKENS = ''@agent_tokens''"
definition OPT_TOKENS_AT :: string where "OPT_TOKENS_AT = ''@agent_tokens_at''"
definition OPT_QUOTA_PCT :: string where "OPT_QUOTA_PCT = ''@agent_quota_pct''"
definition OPT_QUOTA_WINDOW :: string where "OPT_QUOTA_WINDOW = ''@agent_quota_window''"
definition OPT_QUOTA_RESETS_AT :: string where "OPT_QUOTA_RESETS_AT = ''@agent_quota_resets_at''"
definition OPT_QUOTA_AT :: string where "OPT_QUOTA_AT = ''@agent_quota_at''"
definition OPT_COST_USD :: string where "OPT_COST_USD = ''@agent_cost_usd''"
definition OPT_CONTEXT_NOTIFIED_AT :: string where
  "OPT_CONTEXT_NOTIFIED_AT = ''@agent_context_notified_at''"
definition OPT_STALL_NOTIFIED_AT :: string where
  "OPT_STALL_NOTIFIED_AT = ''@agent_stall_notified_at''"
definition OPT_MODEL :: string where "OPT_MODEL = ''@agent_model''"
definition OPT_PERMISSION_REQUEST :: string where
  "OPT_PERMISSION_REQUEST = ''@agent_permission_request''"
definition OPT_QUESTION_REQUEST :: string where "OPT_QUESTION_REQUEST = ''@agent_question_request''"
definition OPT_PENDING_TOOL :: string where "OPT_PENDING_TOOL = ''@agent_pending_tool''"
definition OPT_PENDING_CALL :: string where "OPT_PENDING_CALL = ''@agent_pending_call''"
definition OPT_PENDING_SUMMARY :: string where "OPT_PENDING_SUMMARY = ''@agent_pending_summary''"
definition OPT_API_ENDPOINT :: string where "OPT_API_ENDPOINT = ''@agent_api_endpoint''"
definition OPT_ACTION :: string where "OPT_ACTION = ''@agent_action''"
definition OPT_ACT_REPEAT :: string where "OPT_ACT_REPEAT = ''@agent_act_repeat''"
definition OPT_MUTE_UNTIL :: string where "OPT_MUTE_UNTIL = ''@agent_mute_until''"
definition OPT_SUMMARY :: string where "OPT_SUMMARY = ''@agent_summary''"
definition OPT_SESSION_SUMMARY :: string where "OPT_SESSION_SUMMARY = ''@agent_session_summary''"
definition OPT_WATCH_PID :: string where "OPT_WATCH_PID = ''@tma_watch_pid''"
definition OPT_TITLE_MATCH_PID :: string where "OPT_TITLE_MATCH_PID = ''@tma_title_match_pid''"
definition OPT_REG_DEAD_SINCE :: string where "OPT_REG_DEAD_SINCE = ''@tma_reg_dead_since''"

lemmas opt_defs = OPT_NAME_def OPT_STATE_def OPT_DETAIL_def OPT_SOURCE_def OPT_EVIDENCE_AT_def
  OPT_SINCE_def OPT_STAMPED_AT_def OPT_ATTENTION_def OPT_NOTIFIED_AT_def OPT_TURN_AT_def
  OPT_HASH_def OPT_PID_def OPT_SESSION_def OPT_TRANSCRIPT_def OPT_SUBAGENTS_def
  OPT_CONTEXT_PCT_def OPT_CONTEXT_AT_def OPT_TOKENS_def OPT_TOKENS_AT_def OPT_QUOTA_PCT_def
  OPT_QUOTA_WINDOW_def OPT_QUOTA_RESETS_AT_def OPT_QUOTA_AT_def OPT_COST_USD_def
  OPT_CONTEXT_NOTIFIED_AT_def OPT_STALL_NOTIFIED_AT_def OPT_MODEL_def OPT_PERMISSION_REQUEST_def
  OPT_QUESTION_REQUEST_def OPT_PENDING_TOOL_def OPT_PENDING_CALL_def OPT_PENDING_SUMMARY_def
  OPT_API_ENDPOINT_def OPT_ACTION_def OPT_ACT_REPEAT_def OPT_MUTE_UNTIL_def OPT_SUMMARY_def
  OPT_SESSION_SUMMARY_def OPT_WATCH_PID_def OPT_TITLE_MATCH_PID_def OPT_REG_DEAD_SINCE_def

section \<open>The tuple\<close>

record stamped_state =
  sp_state :: agent_state
  sp_detail :: "detail option"
  sp_source :: provenance
  sp_evidence_at :: u64
  sp_since :: u64
  sp_stamped_at :: u64
  sp_attention :: bool
  sp_notified_at :: "u64 option"
  sp_turn_at :: u64
  sp_hash :: "u64 option"
  sp_pid :: u32
  sp_session :: "string option"
  sp_subagents :: "string list"

datatype read_result = Settled stamped_state | InProgress stamped_state

fun into_inner :: "read_result \<Rightarrow> stamped_state" where
  "into_inner (Settled s) = s"
| "into_inner (InProgress s) = s"

definition MUTE_FOREVER_MS :: u64 where "MUTE_FOREVER_MS = 99999999999999"

definition mute_active :: "u64 option \<Rightarrow> u64 \<Rightarrow> bool" where
  "mute_active mute_until now = is_some_and mute_until (\<lambda>until. now < until)"

definition CLOCK_STEP_SKEW_MS :: u64 where "CLOCK_STEP_SKEW_MS = 2000"

definition since_clock_stepped :: "u64 \<Rightarrow> u64 \<Rightarrow> bool" where
  "since_clock_stepped since stamped_at = (sat_add stamped_at CLOCK_STEP_SKEW_MS < since)"

definition MILLIS_FLOOR :: u64 where "MILLIS_FLOOR = 1000000000000"

definition to_millis :: "u64 \<Rightarrow> u64" where
  "to_millis v = (if v \<noteq> 0 \<and> v < MILLIS_FLOOR then sat_mul v 1000 else v)"

definition parse_int :: "options \<Rightarrow> string \<Rightarrow> grammar_error + u64" where
  "parse_int opts key =
     (case opts key of
        None \<Rightarrow> Inr 0
      | Some v \<Rightarrow> (case parse_uint u64_max v of Some n \<Rightarrow> Inr n | None \<Rightarrow> Inl (BadInteger key v)))"

definition parse_opt_int :: "options \<Rightarrow> string \<Rightarrow> grammar_error + u64 option" where
  "parse_opt_int opts key =
     (case opts key of
        None \<Rightarrow> Inr None
      | Some v \<Rightarrow> (case parse_uint u64_max v of Some n \<Rightarrow> Inr (Some n) | None \<Rightarrow> Inl (BadInteger key v)))"

definition episode_at :: "stamped_state \<Rightarrow> u64" where
  "episode_at s = max (sp_since s) (sp_turn_at s)"

text \<open>\<open>str::split_whitespace\<close> over the UTF-8 bytes: the length of the white space character a text
  starts with, zero for none. Bytes of one character never start another in valid UTF-8.\<close>

fun ws_length :: "nat list \<Rightarrow> nat" where
  "ws_length [] = 0"
| "ws_length (a # r) =
     (if 9 \<le> a \<and> a \<le> 13 \<or> a = 32 then 1
      else (case r of
              [] \<Rightarrow> 0
            | b # r1 \<Rightarrow>
                if a = 194 \<and> (b = 133 \<or> b = 160) then 2
                else (case r1 of
                        [] \<Rightarrow> 0
                      | c # _ \<Rightarrow>
                          if a = 225 \<and> b = 154 \<and> c = 128
                             \<or> a = 226 \<and> b = 128 \<and> (128 \<le> c \<and> c \<le> 138 \<or> c \<in> {168, 169, 175})
                             \<or> a = 226 \<and> b = 129 \<and> c = 159
                             \<or> a = 227 \<and> b = 128 \<and> c = 128 then 3 else 0)))"

text \<open>The words found so far are in \<open>acc\<close>'s order; \<open>skip\<close> counts the remaining bytes of a white
  space character.\<close>

fun split_ws :: "nat \<Rightarrow> string \<Rightarrow> string \<Rightarrow> string list" where
  "split_ws skip cur [] = (if cur = [] then [] else [cur])"
| "split_ws skip cur (c # cs) =
     (if 0 < skip then split_ws (skip - 1) cur cs
      else let n = ws_length (map byte (c # cs)) in
           if n = 0 then split_ws 0 (cur @ [c]) cs
           else (if cur = [] then [] else [cur]) @ split_ws (n - 1) [] cs)"

definition split_whitespace :: "string \<Rightarrow> string list" where
  "split_whitespace s = split_ws 0 [] s"

section \<open>Decoding\<close>

definition read_tuple :: "options \<Rightarrow> agent_state \<Rightarrow> grammar_error + stamped_state" where
  "read_tuple opts state =
     sum_bind (case opts OPT_SOURCE of None \<Rightarrow> Inr Capture | Some v \<Rightarrow> provenance_from_str v) (\<lambda>source.
     sum_bind (parse_int opts OPT_EVIDENCE_AT) (\<lambda>evidence_at.
     sum_bind (parse_int opts OPT_SINCE) (\<lambda>since.
     sum_bind (parse_int opts OPT_STAMPED_AT) (\<lambda>stamped_at.
     sum_bind (sum_bind (parse_int opts OPT_PID) (\<lambda>p.
                 if p \<le> u32_max then Inr p
                 else Inl (BadInteger OPT_PID (case opts OPT_PID of None \<Rightarrow> [] | Some v \<Rightarrow> v)))) (\<lambda>pid.
     sum_bind (parse_opt_int opts OPT_NOTIFIED_AT) (\<lambda>notified_at.
     sum_bind (parse_int opts OPT_TURN_AT) (\<lambda>turn_at.
     sum_bind (parse_opt_int opts OPT_HASH) (\<lambda>hash.
       Inr \<lparr>sp_state = state,
            sp_detail = option_filter (\<lambda>v. v \<noteq> []) (opts OPT_DETAIL),
            sp_source = source,
            sp_evidence_at = to_millis evidence_at,
            sp_since = to_millis since,
            sp_stamped_at = to_millis stamped_at,
            sp_attention = (opts OPT_ATTENTION = Some ''1''),
            sp_notified_at = map_option to_millis notified_at,
            sp_turn_at = to_millis turn_at,
            sp_hash = hash,
            sp_pid = pid,
            sp_session = option_filter (\<lambda>v. v \<noteq> []) (opts OPT_SESSION),
            sp_subagents = (case opts OPT_SUBAGENTS of None \<Rightarrow> [] | Some v \<Rightarrow> split_whitespace v)\<rparr>))))))))"

definition in_progress :: "stamped_state \<Rightarrow> bool" where
  "in_progress s =
     (\<not> since_clock_stepped (sp_since s) (sp_stamped_at s)
      \<and> (sp_stamped_at s < sp_since s \<or> sp_stamped_at s < sp_evidence_at s))"

definition from_options :: "options \<Rightarrow> grammar_error + read_result option" where
  "from_options opts =
     (case opts OPT_STATE of
        None \<Rightarrow> Inr None
      | Some v \<Rightarrow>
          sum_bind (state_from_str v) (\<lambda>state.
          sum_bind (read_tuple opts state) (\<lambda>stamp.
            Inr (Some (if in_progress stamp then InProgress stamp else Settled stamp)))))"

section \<open>Lemmas\<close>

lemma to_millis_0 [simp]: "to_millis 0 = 0"
  by (simp add: to_millis_def)

lemma to_millis_ms: "MILLIS_FLOOR \<le> v \<Longrightarrow> to_millis v = v"
  by (simp add: to_millis_def)

lemma to_millis_seconds: "0 < v \<Longrightarrow> v < MILLIS_FLOOR \<Longrightarrow> to_millis v = v * 1000"
  by (simp add: to_millis_def sat_mul_def MILLIS_FLOOR_def u64_max_def)

lemma to_millis_ge: "v \<le> u64_max \<Longrightarrow> v \<le> to_millis v"
  by (auto simp: to_millis_def sat_mul_def)

lemma to_millis_mono:
  assumes "v \<le> w" and "w < MILLIS_FLOOR \<or> MILLIS_FLOOR \<le> v"
  shows "to_millis v \<le> to_millis w"
  using assms by (auto simp: to_millis_def sat_mul_def not_less intro: order_trans [of _ "w * 1000"])

lemma parse_int_show [simp]:
  "opts key = Some (show_nat n) \<Longrightarrow> n \<le> u64_max \<Longrightarrow> parse_int opts key = Inr n"
  by (simp add: parse_int_def)

lemma parse_int_absent [simp]: "opts key = None \<Longrightarrow> parse_int opts key = Inr 0"
  by (simp add: parse_int_def)

lemma parse_int_total: "parse_int opts key = Inl e \<Longrightarrow> \<exists>v. opts key = Some v \<and> e = BadInteger key v"
  by (auto simp: parse_int_def split: option.splits)

text \<open>No separator character survives in a word.\<close>

lemma split_ws_nonempty: "w \<in> set (split_ws skip cur s) \<Longrightarrow> w \<noteq> []"
  by (induction skip cur s rule: split_ws.induct) (auto simp: Let_def split: if_splits)

text \<open>Whether a read is torn depends on the three instants only.\<close>

lemma in_progress_iff:
  "sp_since s \<le> u64_max \<Longrightarrow> in_progress s \<longleftrightarrow>
     (if sp_since s \<le> sp_stamped_at s then sp_stamped_at s < sp_evidence_at s
      else sp_since s \<le> sat_add (sp_stamped_at s) CLOCK_STEP_SKEW_MS)"
  by (auto simp: in_progress_def since_clock_stepped_def sat_add_def not_less)

end
