(* ===== verification/Fold.thy ===== *)
theory Fold
  imports Stamp Program_Store
begin

text \<open>
  The verdict fold (\<open>fold.rs\<close>, \<open>verdict.rs\<close>): the pure function from the prior stamp and one cycle's
  evidence to a verdict and a write plan, with its precedence ladder (program selection, fresh hook,
  foreground cap, freeze, screen claims against the persisted claim). Times are injected
  milliseconds. The manifest is read through its \<open>[capture] visible\<close> list only.
\<close>

section \<open>Configuration and facts\<close>

record fold_config =
  dwell_secs :: u64
  hook_decay_secs :: u64
  blocked_decay_secs :: u64
  freshness_secs :: u64

definition fold_config_default :: fold_config where
  "fold_config_default = \<lparr>dwell_secs = 3, hook_decay_secs = 60, blocked_decay_secs = 300,
     freshness_secs = 3\<rparr>"

definition dwell_ms :: "fold_config \<Rightarrow> u64" where
  "dwell_ms cfg = sat_mul (dwell_secs cfg) 1000"

definition hook_decay_ms :: "fold_config \<Rightarrow> u64" where
  "hook_decay_ms cfg = sat_mul (hook_decay_secs cfg) 1000"

definition blocked_decay_ms :: "fold_config \<Rightarrow> u64" where
  "blocked_decay_ms cfg = sat_mul (blocked_decay_secs cfg) 1000"

definition decay_ms_for :: "fold_config \<Rightarrow> agent_state \<Rightarrow> u64" where
  "decay_ms_for cfg st = (case st of Blocked \<Rightarrow> blocked_decay_ms cfg | _ \<Rightarrow> hook_decay_ms cfg)"

definition freshness_ms :: "fold_config \<Rightarrow> u64" where
  "freshness_ms cfg = sat_mul (freshness_secs cfg) 1000"

record snapshot_facts =
  sf_pid :: u32
  sf_foreground_is_agent :: bool
  sf_scrolled :: bool
  sf_history_view :: bool

text \<open>The part of a manifest the fold reads.\<close>

record manifest =
  capture_visible :: "agent_state list"

section \<open>Verdicts\<close>

datatype write_action = WPublish | WHold

record write_plan =
  wp_action :: write_action
  wp_may_override :: bool
  wp_set_attention :: bool
  wp_episode_reset :: bool

record winning_evidence =
  we_origin :: "source option"
  we_source :: provenance
  we_at :: u64
  we_label :: string

record program_verdict =
  pv_authority :: episode_id
  pv_result :: "program_result option"

record verdict =
  vd_state :: agent_state
  vd_detail :: "detail option"
  vd_winning :: winning_evidence
  vd_writes :: write_plan
  vd_program :: "program_verdict option"

section \<open>Helpers of the ladder\<close>

fun claim_state :: "claim \<Rightarrow> agent_state option" where
  "claim_state (StateClaim sc) = Some (sc_state sc)"
| "claim_state (LifecycleClaim _) = None"

fun claim_detail :: "claim \<Rightarrow> detail option" where
  "claim_detail (StateClaim sc) = sc_detail sc"
| "claim_detail (LifecycleClaim _) = None"

fun source_name :: "source \<Rightarrow> string" where
  "source_name ProgramStatusSource = ''program-status''"
| "source_name HookEvent = ''hook''"
| "source_name ScreenRule = ''screen''"
| "source_name Title = ''title''"

definition latest :: "evidence list \<Rightarrow> (evidence \<Rightarrow> bool) \<Rightarrow> evidence option" where
  "latest evidence pred = max_by_key ev_at (filter pred evidence)"

definition protected_hook :: "stamped_state option \<Rightarrow> stamped_state option" where
  "protected_hook prev = option_filter (\<lambda>p. sp_source p = Hook \<and> sp_state p \<noteq> Unknown) prev"

record publish =
  pb_state :: agent_state
  pb_detail :: "detail option"
  pb_source :: provenance
  pb_origin :: "source option"
  pb_at :: u64
  pb_may_override :: bool
  pb_label :: string

definition publish_from :: "evidence \<Rightarrow> agent_state \<Rightarrow> publish" where
  "publish_from e st =
     \<lparr>pb_state = st, pb_detail = claim_detail (ev_claim e),
      pb_source = source_provenance (ev_source e), pb_origin = Some (ev_source e), pb_at = ev_at e,
      pb_may_override = False,
      pb_label = source_name (ev_source e) @ '' evidence ('' @ ev_meta e @ '')''\<rparr>"

definition finish_publish :: "publish \<Rightarrow> stamped_state option \<Rightarrow> bool \<Rightarrow> verdict" where
  "finish_publish p prev episode_reset =
     (let prev_state = map_option sp_state prev;
          set_attention = (case pb_state p of
                             Blocked \<Rightarrow> prev_state \<noteq> Some Blocked
                           | Idle \<Rightarrow> prev_state = Some Working
                           | _ \<Rightarrow> False)
      in \<lparr>vd_state = pb_state p, vd_detail = pb_detail p,
          vd_winning = \<lparr>we_origin = pb_origin p, we_source = pb_source p, we_at = pb_at p,
                        we_label = pb_label p\<rparr>,
          vd_writes = \<lparr>wp_action = WPublish, wp_may_override = pb_may_override p,
                       wp_set_attention = set_attention, wp_episode_reset = episode_reset\<rparr>,
          vd_program = None\<rparr>)"

definition hold :: "stamped_state option \<Rightarrow> string \<Rightarrow> bool \<Rightarrow> u64 \<Rightarrow> verdict" where
  "hold prev label episode_reset now =
     (case prev of
        Some p \<Rightarrow>
          \<lparr>vd_state = sp_state p, vd_detail = sp_detail p,
           vd_winning = \<lparr>we_origin = None, we_source = sp_source p, we_at = sp_evidence_at p,
                         we_label = label\<rparr>,
           vd_writes = \<lparr>wp_action = WHold, wp_may_override = False, wp_set_attention = False,
                        wp_episode_reset = episode_reset\<rparr>,
           vd_program = None\<rparr>
      | None \<Rightarrow>
          \<lparr>vd_state = Unknown, vd_detail = None,
           vd_winning = \<lparr>we_origin = None, we_source = Capture, we_at = now,
                         we_label = label @ '' (no prior; unknown)''\<rparr>,
           vd_writes = \<lparr>wp_action = WPublish, wp_may_override = False, wp_set_attention = False,
                        wp_episode_reset = episode_reset\<rparr>,
           vd_program = None\<rparr>)"

definition corroborate :: "stamped_state \<Rightarrow> evidence \<Rightarrow> bool \<Rightarrow> verdict" where
  "corroborate p e episode_reset =
     \<lparr>vd_state = sp_state p, vd_detail = sp_detail p,
      vd_winning = \<lparr>we_origin = None, we_source = Hook, we_at = ev_at e,
                    we_label = ''hook '' @ state_token (sp_state p) @ '' corroborated by ''
                               @ source_name (ev_source e)\<rparr>,
      vd_writes = \<lparr>wp_action = WPublish, wp_may_override = False, wp_set_attention = False,
                   wp_episode_reset = episode_reset\<rparr>,
      vd_program = None\<rparr>"

section \<open>Screen claims\<close>

record screen_claims =
  scl_blocker :: "evidence option"
  scl_working :: "evidence option"
  scl_idle :: "evidence option"

definition screen_claim :: "evidence list \<Rightarrow> agent_state \<Rightarrow> evidence option" where
  "screen_claim evidence st =
     latest evidence (\<lambda>e. ev_source e \<in> {ScreenRule, Title} \<and> claim_state (ev_claim e) = Some st)"

definition screen_claims_of :: "evidence list \<Rightarrow> screen_claims" where
  "screen_claims_of evidence =
     \<lparr>scl_blocker = screen_claim evidence Blocked, scl_working = screen_claim evidence Working,
      scl_idle = screen_claim evidence Idle\<rparr>"

text \<open>The arrow of the dwell label, in UTF-8.\<close>

definition dwell_label :: string where
  "dwell_label = ''dwell suppresses working'' @ [CHR 0xE2, CHR 0x86, CHR 0x92] @ ''idle''"

definition fold_against_hook ::
  "stamped_state \<Rightarrow> screen_claims \<Rightarrow> manifest \<Rightarrow> fold_config \<Rightarrow> u64 \<Rightarrow> bool \<Rightarrow> verdict" where
  "fold_against_hook p claims manifest cfg now episode_reset =
     (let no_blocker =
        (case (case scl_working claims of Some w \<Rightarrow> Some w | None \<Rightarrow> scl_idle claims) of
           None \<Rightarrow> hold (Some p) ''hook held: no fresh screen evidence'' episode_reset now
         | Some c \<Rightarrow>
             (let c_state = the (claim_state (ev_claim c)) in
              if c_state = sp_state p then corroborate p c episode_reset
              else
                let decayed = decay_ms_for cfg (sp_state p) < sat_sub now (sp_evidence_at p)
                              \<and> list_ex (\<lambda>s. s = sp_state p) (capture_visible manifest)
                in if \<not> decayed
                   then hold (Some p) ''hook not decayed: contradicting screen evidence suppressed''
                          episode_reset now
                   else if sp_state p = Working \<and> c_state = Idle
                           \<and> sat_sub now (sp_evidence_at p) \<le> dwell_ms cfg
                   then hold (Some p) dwell_label episode_reset now
                   else finish_publish
                          ((publish_from c c_state)
                             \<lparr>pb_may_override := True,
                              pb_label := ''hook decayed; '' @ source_name (ev_source c) @ '' wins''\<rparr>)
                          (Some p) episode_reset))
      in case scl_blocker claims of
           None \<Rightarrow> no_blocker
         | Some b \<Rightarrow>
             if sp_state p = Blocked then corroborate p b episode_reset
             else if sp_evidence_at p < ev_at b
             then finish_publish (publish_from b Blocked) (Some p) episode_reset
             else hold (Some p)
                    ''hook claim newer than blocker chrome: carve-out suppressed (answered-prompt race)''
                    episode_reset now)"

section \<open>The fold\<close>

definition episode_reset_of :: "stamped_state option \<Rightarrow> snapshot_facts \<Rightarrow> bool" where
  "episode_reset_of prev facts =
     (case prev of
        Some p \<Rightarrow> sp_pid p \<noteq> 0 \<and> sf_pid facts \<noteq> 0 \<and> sp_pid p \<noteq> sf_pid facts
      | None \<Rightarrow> False)"

definition fold_program ::
  "stamped_state option \<Rightarrow> bool \<Rightarrow> program_selection \<Rightarrow> verdict" where
  "fold_program prev episode_reset program =
     (let decision = finish_publish
            \<lparr>pb_state = sel_state program, pb_detail = sel_detail program, pb_source = Hook,
             pb_origin = Some ProgramStatusSource, pb_at = sel_at program, pb_may_override = True,
             pb_label = ''program status''\<rparr> prev episode_reset;
          attention = (if sel_state program = Blocked
                       then is_none_or prev (\<lambda>previous. sp_state previous \<noteq> Blocked)
                       else is_some_and (sel_result program) pr_pending)
      in decision\<lparr>vd_writes := (vd_writes decision)\<lparr>wp_set_attention := attention\<rparr>,
                  vd_program := Some \<lparr>pv_authority = sel_owner program,
                                      pv_result = sel_result program\<rparr>\<rparr>)"

definition fresh_hook :: "evidence list \<Rightarrow> evidence option" where
  "fresh_hook evidence =
     latest evidence (\<lambda>e. ev_source e = HookEvent \<and> claim_state (ev_claim e) \<noteq> None)"

definition fold_screen ::
  "stamped_state option \<Rightarrow> evidence list \<Rightarrow> manifest \<Rightarrow> fold_config \<Rightarrow> u64 \<Rightarrow> bool \<Rightarrow> verdict" where
  "fold_screen prev evidence manifest cfg now episode_reset =
     (let claims = screen_claims_of evidence in
      case protected_hook prev of
        Some p \<Rightarrow> fold_against_hook p claims manifest cfg now episode_reset
      | None \<Rightarrow>
          (case scl_blocker claims of
             Some b \<Rightarrow> finish_publish (publish_from b Blocked) prev episode_reset
           | None \<Rightarrow>
          (case scl_working claims of
             Some w \<Rightarrow> finish_publish (publish_from w Working) prev episode_reset
           | None \<Rightarrow>
          (case scl_idle claims of
             Some i \<Rightarrow>
               if map_option sp_state prev = Some Working
                  \<and> sat_sub now (case prev of None \<Rightarrow> 0 | Some p \<Rightarrow> sp_evidence_at p) \<le> dwell_ms cfg
               then hold prev dwell_label episode_reset now
               else finish_publish (publish_from i Idle) prev episode_reset
           | None \<Rightarrow> hold prev ''hold previous (no fresh evidence)'' episode_reset now))))"

definition verdict_with_program ::
  "stamped_state option \<Rightarrow> snapshot_facts \<Rightarrow> evidence list \<Rightarrow> manifest \<Rightarrow> fold_config \<Rightarrow> u64
     \<Rightarrow> program_selection option \<Rightarrow> verdict" where
  "verdict_with_program prev0 facts evidence manifest cfg now program =
     (let episode_reset = episode_reset_of prev0 facts;
          prev = (if episode_reset then None else prev0)
      in case program of
           Some sel \<Rightarrow> fold_program prev episode_reset sel
         | None \<Rightarrow>
      (case fresh_hook evidence of
         Some hook \<Rightarrow>
           finish_publish
             \<lparr>pb_state = the (claim_state (ev_claim hook)), pb_detail = claim_detail (ev_claim hook),
              pb_source = Hook, pb_origin = Some HookEvent, pb_at = ev_at hook,
              pb_may_override = True, pb_label = ''fresh hook event ('' @ ev_meta hook @ '')''\<rparr>
             prev episode_reset
       | None \<Rightarrow>
      (if \<not> sf_foreground_is_agent facts then
         (case option_filter (\<lambda>_. sf_pid facts \<noteq> 0) (protected_hook prev) of
            Some p \<Rightarrow> hold (Some p) ''foreground is not the agent; hook claim held (agent alive)''
                        episode_reset now
          | None \<Rightarrow>
              finish_publish
                \<lparr>pb_state = Unknown, pb_detail = None, pb_source = Process, pb_origin = None,
                 pb_at = now, pb_may_override = True, pb_label = ''foreground is not the agent''\<rparr>
                prev episode_reset)
       else if sf_scrolled facts \<or> sf_history_view facts then
         hold prev (if sf_scrolled facts then ''frozen: pane scrolled'' else ''frozen: history view'')
           episode_reset now
       else fold_screen prev evidence manifest cfg now episode_reset)))"

definition fold_verdict ::
  "stamped_state option \<Rightarrow> snapshot_facts \<Rightarrow> evidence list \<Rightarrow> manifest \<Rightarrow> fold_config \<Rightarrow> u64 \<Rightarrow> verdict" where
  "fold_verdict prev facts evidence manifest cfg now =
     verdict_with_program prev facts evidence manifest cfg now None"

end
