(* ===== verification/Fold_Properties.thy ===== *)
theory Fold_Properties
  imports Fold Store_Invariant
begin

text \<open>
  What the verdict fold promises: a hook claim is flipped only by the carve-out, by decay or by the
  death of its agent; a pane that is not showing the agent's live screen is never matched; the dwell
  ends; the program lane wins; attention marks exactly the noteworthy transitions; a new episode
  forgets the old one; a hold holds.
\<close>

lemma latest_Some:
  "latest es p = Some e \<Longrightarrow> e \<in> set es \<and> p e \<and> (\<forall>e' \<in> set es. p e' \<longrightarrow> ev_at e' \<le> ev_at e)"
  unfolding latest_def using max_by_key_Some by fastforce

lemma latest_None [simp]: "latest es p = None \<longleftrightarrow> (\<forall>e \<in> set es. \<not> p e)"
  by (simp add: latest_def filter_empty_conv)

text \<open>A screen claim found for a state is evidence from the screen or the title with that claim.\<close>

definition screen_evidence :: "agent_state \<Rightarrow> evidence \<Rightarrow> bool" where
  "screen_evidence st e =
     (ev_source e \<in> {ScreenRule, Title} \<and> claim_state (ev_claim e) = Some st)"

lemma screen_claim_Some:
  "screen_claim es st = Some e \<Longrightarrow> e \<in> set es \<and> screen_evidence st e"
  unfolding screen_claim_def screen_evidence_def by (auto dest: latest_Some)

lemma screen_claim_None: "screen_claim es st = None \<longleftrightarrow> \<not> list_ex (screen_evidence st) es"
  by (auto simp: screen_claim_def screen_evidence_def list_ex_iff)

lemma screen_claims_of_fields [simp]:
  "scl_blocker (screen_claims_of es) = screen_claim es Blocked"
  "scl_working (screen_claims_of es) = screen_claim es Working"
  "scl_idle (screen_claims_of es) = screen_claim es Idle"
  by (simp_all add: screen_claims_of_def)

lemma protected_hook_Some:
  "protected_hook prev = Some p \<longleftrightarrow> prev = Some p \<and> sp_source p = Hook \<and> sp_state p \<noteq> Unknown"
  by (auto simp: protected_hook_def option_filter_Some)

lemma finish_publish_fields [simp]:
  "vd_state (finish_publish p prev r) = pb_state p"
  "vd_detail (finish_publish p prev r) = pb_detail p"
  "we_at (vd_winning (finish_publish p prev r)) = pb_at p"
  "we_source (vd_winning (finish_publish p prev r)) = pb_source p"
  "wp_action (vd_writes (finish_publish p prev r)) = WPublish"
  "wp_may_override (vd_writes (finish_publish p prev r)) = pb_may_override p"
  "wp_episode_reset (vd_writes (finish_publish p prev r)) = r"
  "vd_program (finish_publish p prev r) = None"
  by (simp_all add: finish_publish_def Let_def)

lemma hold_Some_fields [simp]:
  "vd_state (hold (Some p) l r now) = sp_state p"
  "vd_detail (hold (Some p) l r now) = sp_detail p"
  "we_at (vd_winning (hold (Some p) l r now)) = sp_evidence_at p"
  "we_source (vd_winning (hold (Some p) l r now)) = sp_source p"
  "wp_action (vd_writes (hold (Some p) l r now)) = WHold"
  "wp_set_attention (vd_writes (hold (Some p) l r now)) = False"
  "wp_episode_reset (vd_writes (hold (Some p) l r now)) = r"
  by (simp_all add: hold_def)

lemma hold_None_fields [simp]:
  "vd_state (hold None l r now) = Unknown"
  "wp_action (vd_writes (hold None l r now)) = WPublish"
  "wp_set_attention (vd_writes (hold None l r now)) = False"
  by (simp_all add: hold_def)

lemma corroborate_fields [simp]:
  "vd_state (corroborate p e r) = sp_state p"
  "wp_action (vd_writes (corroborate p e r)) = WPublish"
  "wp_set_attention (vd_writes (corroborate p e r)) = False"
  "we_source (vd_winning (corroborate p e r)) = Hook"
  by (simp_all add: corroborate_def)

lemma publish_from_fields [simp]:
  "pb_state (publish_from e st) = st" "pb_at (publish_from e st) = ev_at e"
  "pb_may_override (publish_from e st) = False"
  by (simp_all add: publish_from_def)

text \<open>The rungs a claim-less, program-less cycle reaches.\<close>

lemma verdict_screen:
  assumes "\<not> episode_reset_of prev facts" and "fresh_hook es = None"
    and "sf_foreground_is_agent facts" and "\<not> sf_scrolled facts" and "\<not> sf_history_view facts"
  shows "fold_verdict prev facts es mf cfg now = fold_screen prev es mf cfg now False"
  using assms by (simp add: fold_verdict_def verdict_with_program_def Let_def)

section \<open>Protection of hook claims\<close>

text \<open>What may replace a protected claim by a state read off the screen.\<close>

definition carve_out :: "stamped_state \<Rightarrow> evidence list \<Rightarrow> verdict \<Rightarrow> bool" where
  "carve_out p es v =
     (vd_state v = Blocked
      \<and> list_ex (\<lambda>e. screen_evidence Blocked e \<and> sp_evidence_at p < ev_at e) es)"

definition decayed_claim ::
  "stamped_state \<Rightarrow> evidence list \<Rightarrow> manifest \<Rightarrow> fold_config \<Rightarrow> u64 \<Rightarrow> verdict \<Rightarrow> bool" where
  "decayed_claim p es mf cfg now v =
     (decay_ms_for cfg (sp_state p) < sat_sub now (sp_evidence_at p)
      \<and> sp_state p \<in> set (capture_visible mf)
      \<and> \<not> list_ex (screen_evidence Blocked) es
      \<and> list_ex (screen_evidence (vd_state v)) es
      \<and> (sp_state p = Working \<and> vd_state v = Idle \<longrightarrow> dwell_ms cfg < sat_sub now (sp_evidence_at p)))"

lemma fold_against_hook_flip:
  assumes "vd_state (fold_against_hook p (screen_claims_of es) mf cfg now r) \<noteq> sp_state p"
  shows "carve_out p es (fold_against_hook p (screen_claims_of es) mf cfg now r)
    \<or> decayed_claim p es mf cfg now (fold_against_hook p (screen_claims_of es) mf cfg now r)"
proof (cases "screen_claim es Blocked")
  case (Some b)
  with assms have "sp_state p \<noteq> Blocked" "sp_evidence_at p < ev_at b"
    by (auto simp: fold_against_hook_def Let_def split: if_splits)
  with Some screen_claim_Some [OF Some] show ?thesis
    by (auto simp: fold_against_hook_def Let_def carve_out_def list_ex_iff)
next
  case None
  let ?cand = "case screen_claim es Working of Some w \<Rightarrow> Some w | None \<Rightarrow> screen_claim es Idle"
  show ?thesis
  proof (cases ?cand)
    case cand_None: None
    then have "screen_claim es Working = None" "screen_claim es Idle = None"
      by (auto split: option.splits)
    with assms None show ?thesis by (simp add: fold_against_hook_def)
  next
    case (Some c)
    then obtain st where c: "screen_evidence st c" "c \<in> set es"
      using screen_claim_Some by (auto split: option.splits)
    then have st: "claim_state (ev_claim c) = Some st" by (simp add: screen_evidence_def)
    let ?v = "fold_against_hook p (screen_claims_of es) mf cfg now r"
    let ?decayed = "decay_ms_for cfg (sp_state p) < sat_sub now (sp_evidence_at p)
        \<and> list_ex (\<lambda>s. s = sp_state p) (capture_visible mf)"
    have v: "?v = (if st = sp_state p then corroborate p c r
        else if \<not> ?decayed
        then hold (Some p) ''hook not decayed: contradicting screen evidence suppressed'' r now
        else if sp_state p = Working \<and> st = Idle \<and> sat_sub now (sp_evidence_at p) \<le> dwell_ms cfg
        then hold (Some p) dwell_label r now
        else finish_publish ((publish_from c st)\<lparr>pb_may_override := True,
               pb_label := ''hook decayed; '' @ source_name (ev_source c) @ '' wins''\<rparr>) (Some p) r)"
      using None Some st by (cases "screen_claim es Working") (simp_all add: fold_against_hook_def Let_def)
    from assms have "st \<noteq> sp_state p" "?decayed"
      "\<not> (sp_state p = Working \<and> st = Idle \<and> sat_sub now (sp_evidence_at p) \<le> dwell_ms cfg)"
      unfolding v by (auto split: if_splits)
    moreover from this have "vd_state ?v = st" unfolding v by simp
    ultimately show ?thesis
      using c None by (auto simp: decayed_claim_def list_ex_iff screen_claim_None)
  qed
qed

text \<open>C16 (hook_protection). A live hook claim (hook provenance and a real state, in the same episode)
  keeps its state against anything that is not a program selection or a fresh hook event, except in
  three cases: the agent's process is gone while something else is in the foreground, newer blocker
  chrome overrides it as blocked, or a contradicting screen claim meets a claim past its decay
  window whose state the manifest says is capture-visible, with the working-to-idle dwell past.\<close>
theorem hook_protection:
  assumes "sp_source p = Hook" and "sp_state p \<noteq> Unknown"
    and "\<not> episode_reset_of (Some p) facts" and "fresh_hook es = None"
    and "vd_state (fold_verdict (Some p) facts es mf cfg now) \<noteq> sp_state p"
  shows "\<not> sf_foreground_is_agent facts \<and> sf_pid facts = 0
             \<and> vd_state (fold_verdict (Some p) facts es mf cfg now) = Unknown
       \<or> sf_foreground_is_agent facts \<and> \<not> sf_scrolled facts \<and> \<not> sf_history_view facts
          \<and> (carve_out p es (fold_verdict (Some p) facts es mf cfg now)
             \<or> decayed_claim p es mf cfg now (fold_verdict (Some p) facts es mf cfg now))"
proof -
  have prot: "protected_hook (Some p) = Some p" using assms(1,2) by (simp add: protected_hook_Some)
  show ?thesis
  proof (cases "sf_foreground_is_agent facts")
    case False
    have "sf_pid facts = 0"
    proof (rule ccontr)
      assume "sf_pid facts \<noteq> 0"
      with False prot assms(3,4,5) show "False"
        by (simp add: fold_verdict_def verdict_with_program_def Let_def)
    qed
    with False prot assms(3,4) show ?thesis
      by (simp add: fold_verdict_def verdict_with_program_def Let_def)
  next
    case fg: True
    show ?thesis
    proof (cases "sf_scrolled facts \<or> sf_history_view facts")
      case True
      with fg assms(3,4,5) show ?thesis
        by (simp add: fold_verdict_def verdict_with_program_def Let_def)
    next
      case False
      then have "fold_verdict (Some p) facts es mf cfg now
          = fold_against_hook p (screen_claims_of es) mf cfg now False"
        using verdict_screen [OF assms(3,4) fg] prot by (simp add: fold_screen_def)
      with fold_against_hook_flip [of p es mf cfg now False] assms(5) fg False show ?thesis by simp
    qed
  qed
qed

text \<open>A sample: a working hook claim and the evidence that meets it.\<close>

definition sample_stamp :: stamped_state where
  "sample_stamp = \<lparr>sp_state = Working, sp_detail = None, sp_source = Hook,
     sp_evidence_at = 1700000000000, sp_since = 1700000000000, sp_stamped_at = 1700000000000,
     sp_attention = False, sp_notified_at = None, sp_turn_at = 0, sp_hash = None, sp_pid = 42,
     sp_session = None, sp_subagents = []\<rparr>"

definition sample_facts :: snapshot_facts where
  "sample_facts = \<lparr>sf_pid = 42, sf_foreground_is_agent = True, sf_scrolled = False,
     sf_history_view = False\<rparr>"

definition sample_evidence :: "agent_state \<Rightarrow> u64 \<Rightarrow> evidence" where
  "sample_evidence st at = \<lparr>ev_source = ScreenRule,
     ev_claim = StateClaim \<lparr>sc_state = st, sc_detail = None\<rparr>, ev_at = at, ev_meta = ''rule''\<rparr>"

definition sample_manifest :: manifest where
  "sample_manifest = \<lparr>capture_visible = [Working, Idle, Blocked]\<rparr>"

abbreviation sample_fold :: "stamped_state \<Rightarrow> evidence list \<Rightarrow> u64 \<Rightarrow> verdict" where
  "sample_fold p es now \<equiv> fold_verdict (Some p) sample_facts es sample_manifest fold_config_default now"

theorem hook_protection_witness:
  "carve_out sample_stamp [sample_evidence Blocked 1700000001000]
     (sample_fold sample_stamp [sample_evidence Blocked 1700000001000] 1700000001000)"
proof -
  have "\<not> decayed_claim sample_stamp [sample_evidence Blocked 1700000001000] sample_manifest
      fold_config_default 1700000001000
      (sample_fold sample_stamp [sample_evidence Blocked 1700000001000] 1700000001000)"
    by code_simp
  moreover have "sp_source sample_stamp = Hook" "sp_state sample_stamp \<noteq> Unknown"
    "\<not> episode_reset_of (Some sample_stamp) sample_facts"
    "fresh_hook [sample_evidence Blocked 1700000001000] = None"
    "vd_state (sample_fold sample_stamp [sample_evidence Blocked 1700000001000] 1700000001000)
       \<noteq> sp_state sample_stamp"
    "sf_foreground_is_agent sample_facts"
    by code_simp+
  ultimately show ?thesis using hook_protection by blast
qed

section \<open>The screen is only read when it is the agent's live screen\<close>

definition off_screen :: "evidence \<Rightarrow> bool" where
  "off_screen e = (ev_source e \<notin> {ScreenRule, Title})"

lemma fresh_hook_off_screen: "fresh_hook (filter off_screen es) = fresh_hook es"
proof -
  have "filter (\<lambda>e. ev_source e = HookEvent \<and> claim_state (ev_claim e) \<noteq> None) (filter off_screen es)
      = filter (\<lambda>e. ev_source e = HookEvent \<and> claim_state (ev_claim e) \<noteq> None) es"
    by (induction es) (auto simp: off_screen_def)
  then show ?thesis by (simp add: fresh_hook_def latest_def)
qed

text \<open>When the agent is not in the foreground, or the pane is scrolled or
  shows a history view, no screen or title evidence can influence the verdict: it is the one the
  remaining evidence gives, with or without a program selection.\<close>
theorem frozen_ignores_screen:
  assumes "\<not> sf_foreground_is_agent facts \<or> sf_scrolled facts \<or> sf_history_view facts"
  shows "verdict_with_program prev facts es mf cfg now program
    = verdict_with_program prev facts (filter off_screen es) mf cfg now program"
  using assms
  by (auto simp: verdict_with_program_def Let_def fresh_hook_off_screen split: option.splits)

theorem frozen_ignores_screen_witness:
  "vd_state (fold_verdict (Some sample_stamp) (sample_facts\<lparr>sf_scrolled := True\<rparr>)
     [sample_evidence Blocked 1700000001000] sample_manifest fold_config_default 1700000001000) = Working"
  unfolding fold_verdict_def
  by (subst frozen_ignores_screen) code_simp+

section \<open>The dwell ends\<close>

text \<open>C32 (working_to_idle_dwell). The asymmetric dwell never livelocks: for a working claim that is not
  a protected hook claim, with idle chrome and no blocked or working chrome on the agent's live
  screen, the verdict is idle exactly when the claim's evidence is more than the dwell window old;
  until then it is a hold that leaves the evidence time where it was, so waiting alone ends it.\<close>
theorem working_to_idle_dwell:
  assumes "sp_state p = Working" and "sp_source p \<noteq> Hook"
    and "\<not> episode_reset_of (Some p) facts" and "fresh_hook es = None"
    and "sf_foreground_is_agent facts" and "\<not> sf_scrolled facts" and "\<not> sf_history_view facts"
    and "\<not> list_ex (screen_evidence Blocked) es" and "\<not> list_ex (screen_evidence Working) es"
    and "list_ex (screen_evidence Idle) es"
  shows "let v = fold_verdict (Some p) facts es mf cfg now in
    if dwell_ms cfg < sat_sub now (sp_evidence_at p)
    then vd_state v = Idle \<and> wp_action (vd_writes v) = WPublish \<and> wp_set_attention (vd_writes v)
    else vd_state v = Working \<and> wp_action (vd_writes v) = WHold
         \<and> we_at (vd_winning v) = sp_evidence_at p"
proof -
  obtain i where i: "screen_claim es Idle = Some i"
    using assms(10) screen_claim_None [of es Idle] by auto
  have none: "screen_claim es Blocked = None" "screen_claim es Working = None"
    using assms(8,9) by (simp_all add: screen_claim_None)
  have unprotected: "protected_hook (Some p) = None"
    using assms(2) by (simp add: protected_hook_def)
  have "fold_verdict (Some p) facts es mf cfg now
      = (if sat_sub now (sp_evidence_at p) \<le> dwell_ms cfg then hold (Some p) dwell_label False now
         else finish_publish (publish_from i Idle) (Some p) False)"
    using verdict_screen [OF assms(3-7)] unprotected none i assms(1) by (simp add: fold_screen_def)
  then show ?thesis using assms(1) by (simp add: Let_def finish_publish_def)
qed

theorem working_to_idle_dwell_witness:
  "vd_state (sample_fold (sample_stamp\<lparr>sp_source := Capture\<rparr>) [sample_evidence Idle 1700000003001] 1700000003001)
     = Idle"
proof -
  have "dwell_ms fold_config_default
      < sat_sub 1700000003001 (sp_evidence_at (sample_stamp\<lparr>sp_source := Capture\<rparr>))"
    by code_simp
  moreover have "sp_state (sample_stamp\<lparr>sp_source := Capture\<rparr>) = Working"
    "sp_source (sample_stamp\<lparr>sp_source := Capture\<rparr>) \<noteq> Hook"
    "\<not> episode_reset_of (Some (sample_stamp\<lparr>sp_source := Capture\<rparr>)) sample_facts"
    "fresh_hook [sample_evidence Idle 1700000003001] = None" "sf_foreground_is_agent sample_facts"
    "\<not> sf_scrolled sample_facts" "\<not> sf_history_view sample_facts"
    "\<not> list_ex (screen_evidence Blocked) [sample_evidence Idle 1700000003001]"
    "\<not> list_ex (screen_evidence Working) [sample_evidence Idle 1700000003001]"
    "list_ex (screen_evidence Idle) [sample_evidence Idle 1700000003001]"
    by code_simp+
  note working_to_idle_dwell [OF this, of sample_manifest fold_config_default 1700000003001]
  ultimately show ?thesis by (simp add: Let_def)
qed

section \<open>The program lane\<close>

text \<open>A validated program selection decides alone: whatever the evidence, the
  foreground, the freeze, the manifest and the clock say, the verdict publishes the selection's
  state, detail and time under hook provenance with the right to override, carries its authority and
  result, and raises attention exactly on an entry into blocked or on a pending result, so that a
  completion is announced even when idle follows idle.\<close>
theorem program_lane_wins:
  "let v = verdict_with_program prev facts es mf cfg now (Some sel);
       before = (if episode_reset_of prev facts then None else map_option sp_state prev) in
   vd_state v = sel_state sel \<and> vd_detail v = sel_detail sel
   \<and> we_at (vd_winning v) = sel_at sel \<and> we_source (vd_winning v) = Hook
   \<and> wp_action (vd_writes v) = WPublish \<and> wp_may_override (vd_writes v)
   \<and> vd_program v = Some \<lparr>pv_authority = sel_owner sel, pv_result = sel_result sel\<rparr>
   \<and> (wp_set_attention (vd_writes v) \<longleftrightarrow>
        (if sel_state sel = Blocked then before \<noteq> Some Blocked
         else is_some_and (sel_result sel) pr_pending))"
  by (cases prev) (simp_all add: verdict_with_program_def fold_program_def Let_def finish_publish_def)

section \<open>Attention, episodes, holds\<close>

lemma finish_publish_attention [simp]:
  "wp_set_attention (vd_writes (finish_publish p prev r)) \<longleftrightarrow>
     pb_state p = Blocked \<and> map_option sp_state prev \<noteq> Some Blocked
     \<or> pb_state p = Idle \<and> map_option sp_state prev = Some Working"
  by (simp add: finish_publish_def Let_def split: agent_state.splits)

definition noteworthy :: "stamped_state option \<Rightarrow> verdict \<Rightarrow> bool" where
  "noteworthy prev v =
     (vd_state v = Blocked \<and> map_option sp_state prev \<noteq> Some Blocked
      \<or> vd_state v = Idle \<and> map_option sp_state prev = Some Working)"

definition held_from :: "stamped_state option \<Rightarrow> verdict \<Rightarrow> bool" where
  "held_from prev v =
     is_some_and prev (\<lambda>p. vd_state v = sp_state p \<and> vd_detail v = sp_detail p
       \<and> we_source (vd_winning v) = sp_source p \<and> we_at (vd_winning v) = sp_evidence_at p)"

text \<open>The two facts every rung of the ladder keeps.\<close>

definition rung_ok :: "stamped_state option \<Rightarrow> verdict \<Rightarrow> bool" where
  "rung_ok prev v =
     ((wp_set_attention (vd_writes v) \<longleftrightarrow> noteworthy prev v)
      \<and> (wp_action (vd_writes v) = WHold \<longrightarrow> held_from prev v \<and> \<not> wp_may_override (vd_writes v)))"

lemma rung_finish: "rung_ok prev (finish_publish p prev r)"
  by (simp add: rung_ok_def noteworthy_def)

lemma rung_hold: "rung_ok prev (hold prev l r now)"
  by (cases prev) (auto simp: rung_ok_def noteworthy_def held_from_def hold_def)

lemma rung_corroborate: "rung_ok (Some p) (corroborate p e r)"
  by (auto simp: rung_ok_def noteworthy_def)

lemmas rungs = rung_finish rung_hold rung_corroborate

lemma rung_against_hook: "rung_ok (Some p) (fold_against_hook p claims mf cfg now r)"
  unfolding fold_against_hook_def Let_def by (auto intro: rungs split: option.split)

lemma rung_screen: "rung_ok prev (fold_screen prev es mf cfg now r)"
proof (cases "protected_hook prev")
  case (Some p)
  then have "prev = Some p" by (simp add: protected_hook_Some)
  with Some rung_against_hook show ?thesis by (simp add: fold_screen_def Let_def)
next
  case None
  then show ?thesis
    unfolding fold_screen_def Let_def by (auto intro: rungs split: option.split)
qed

lemma rung_verdict:
  "rung_ok (if episode_reset_of prev facts then None else prev) (fold_verdict prev facts es mf cfg now)"
proof -
  define q where "q = (if episode_reset_of prev facts then None else prev)"
  show ?thesis
    unfolding fold_verdict_def verdict_with_program_def Let_def q_def [symmetric] option.case
    by (auto simp: option_filter_Some protected_hook_Some intro: rungs rung_screen split: option.split)
qed

text \<open>Without a program selection the attention flag is raised on exactly
  the noteworthy transitions of the episode: an entry into blocked, first sight included, and the
  completion from working to idle; never by a hold, a corroboration or a fall to unknown.\<close>
theorem attention_transitions:
  "let v = fold_verdict prev facts es mf cfg now;
       before = (if episode_reset_of prev facts then None else map_option sp_state prev) in
   wp_set_attention (vd_writes v) \<longleftrightarrow>
     vd_state v = Blocked \<and> before \<noteq> Some Blocked \<or> vd_state v = Idle \<and> before = Some Working"
  using rung_verdict [of prev facts es mf cfg now]
  by (simp add: rung_ok_def noteworthy_def Let_def)

text \<open>A verdict whose plan is to hold repeats the prior stamp of the same episode in
  state, detail, provenance and evidence time, and claims no right to override: a hold can only
  refresh the freshness markers.\<close>
theorem hold_holds:
  assumes "wp_action (vd_writes (fold_verdict prev facts es mf cfg now)) = WHold"
  shows "\<exists>p. prev = Some p \<and> \<not> episode_reset_of prev facts
    \<and> vd_state (fold_verdict prev facts es mf cfg now) = sp_state p
    \<and> vd_detail (fold_verdict prev facts es mf cfg now) = sp_detail p
    \<and> we_source (vd_winning (fold_verdict prev facts es mf cfg now)) = sp_source p
    \<and> we_at (vd_winning (fold_verdict prev facts es mf cfg now)) = sp_evidence_at p
    \<and> \<not> wp_may_override (vd_writes (fold_verdict prev facts es mf cfg now))"
  using rung_verdict [of prev facts es mf cfg now] assms
  by (auto simp: rung_ok_def held_from_def is_some_and_iff split: if_splits)

theorem hold_holds_witness: "\<exists>p. Some sample_stamp = Some p \<and> sp_evidence_at p = 1700000000000"
proof -
  have "wp_action (vd_writes (sample_fold sample_stamp [] 1700000001000)) = WHold" by code_simp
  from hold_holds [OF this] show ?thesis by (simp add: sample_stamp_def)
qed

text \<open>When the pane's agent was replaced by another process, nothing of the
  prior stamp survives: the verdict is the one of a pane never seen before, with the reset flagged.\<close>
theorem episode_reset_forgets:
  assumes "sp_pid p \<noteq> 0" and "sf_pid facts \<noteq> 0" and "sp_pid p \<noteq> sf_pid facts"
  shows "\<exists>v. fold_verdict None facts es mf cfg now = v
    \<and> fold_verdict (Some p) facts es mf cfg now = v\<lparr>vd_writes := (vd_writes v)\<lparr>wp_episode_reset := True\<rparr>\<rparr>"
proof -
  have "episode_reset_of (Some p) facts" "\<not> episode_reset_of None facts"
    using assms by (simp_all add: episode_reset_of_def)
  then show ?thesis
    by (simp add: fold_verdict_def verdict_with_program_def Let_def finish_publish_def hold_def
        fold_screen_def protected_hook_def split: option.split)
qed

theorem episode_reset_forgets_witness:
  "vd_state (fold_verdict (Some sample_stamp) (sample_facts\<lparr>sf_pid := 43\<rparr>) [] sample_manifest
     fold_config_default 1700000001000) = Unknown"
proof -
  have "sp_pid sample_stamp \<noteq> 0" "sf_pid (sample_facts\<lparr>sf_pid := 43\<rparr>) \<noteq> 0"
    "sp_pid sample_stamp \<noteq> sf_pid (sample_facts\<lparr>sf_pid := 43\<rparr>)"
    by (simp_all add: sample_stamp_def sample_facts_def)
  from episode_reset_forgets [OF this, of "[]" sample_manifest fold_config_default 1700000001000]
  have "vd_state (fold_verdict (Some sample_stamp) (sample_facts\<lparr>sf_pid := 43\<rparr>) [] sample_manifest
        fold_config_default 1700000001000)
      = vd_state (fold_verdict None (sample_facts\<lparr>sf_pid := 43\<rparr>) [] sample_manifest
          fold_config_default 1700000001000)"
    by auto
  also have "\<dots> = Unknown" by code_simp
  finally show ?thesis .
qed

end
