(* ===== verification/Persistence.thy ===== *)
theory Persistence
  imports Stamp Program_Store "HOL-Library.Monad_Syntax"
begin

text \<open>
  The private persistence protocol (\<open>persistence.rs\<close>): the text forms of leases, process chains,
  owners, commit markers, results, claims, blocked history, attention revisions and metadata, the
  projection of a pane's options under a collector lease, and the lease schedule. Definitions only;
  the codecs and the properties are in \<open>Persistence_Codecs\<close> and \<open>Persistence_Properties\<close>.
\<close>

section \<open>Keys and limits\<close>

definition OPT_COLLECTOR :: string where "OPT_COLLECTOR = ''@tma_program_collector''"
definition OPT_ORIGIN :: string where "OPT_ORIGIN = ''@tma_program_origin''"
definition OPT_OWNER :: string where "OPT_OWNER = ''@tma_program_owner''"
definition OPT_COMMIT :: string where "OPT_COMMIT = ''@tma_program_commit''"
definition OPT_RESULT :: string where "OPT_RESULT = ''@tma_program_result''"
definition OPT_BLOCKED_HISTORY :: string where "OPT_BLOCKED_HISTORY = ''@tma_blocked_history''"
definition OPT_INVALIDATED :: string where "OPT_INVALIDATED = ''@tma_result_invalidated''"
definition OPT_ACK :: string where "OPT_ACK = ''@tma_program_ack''"
definition OPT_NOTIFIED :: string where "OPT_NOTIFIED = ''@tma_program_notified''"
definition OPT_RECEIPT :: string where "OPT_RECEIPT = ''@tma_write_receipt''"
definition OPT_ATTENTION_EPISODE :: string where "OPT_ATTENTION_EPISODE = ''@tma_attention_episode''"
definition OPT_EPISODE_NOTIFIED :: string where "OPT_EPISODE_NOTIFIED = ''@tma_episode_notified''"
definition OPT_METADATA_UPDATE :: string where "OPT_METADATA_UPDATE = ''@tma_metadata_update''"
definition OPT_MARKER_CLAIM :: string where "OPT_MARKER_CLAIM = ''@tma_marker_claim''"
definition OPT_METADATA_OWNER :: string where "OPT_METADATA_OWNER = ''@tma_metadata_owner''"

definition PANE_KEYS :: "string list" where
  "PANE_KEYS = [OPT_ORIGIN, OPT_OWNER, OPT_COMMIT, OPT_RESULT, OPT_INVALIDATED, OPT_BLOCKED_HISTORY,
     OPT_ACK, OPT_NOTIFIED, OPT_RECEIPT, OPT_METADATA_OWNER, OPT_ATTENTION_EPISODE,
     OPT_EPISODE_NOTIFIED, OPT_MARKER_CLAIM, OPT_METADATA_UPDATE]"

lemmas private_opt_defs = OPT_COLLECTOR_def OPT_ORIGIN_def OPT_OWNER_def OPT_COMMIT_def
  OPT_RESULT_def OPT_BLOCKED_HISTORY_def OPT_INVALIDATED_def OPT_ACK_def OPT_NOTIFIED_def
  OPT_RECEIPT_def OPT_ATTENTION_EPISODE_def OPT_EPISODE_NOTIFIED_def OPT_METADATA_UPDATE_def
  OPT_MARKER_CLAIM_def OPT_METADATA_OWNER_def

definition LEASE_RENEW_MS :: u64 where "LEASE_RENEW_MS = 5000"
definition LEASE_DURATION_MS :: u64 where "LEASE_DURATION_MS = 15000"
definition LEASE_FUTURE_MS :: u64 where "LEASE_FUTURE_MS = 17000"
definition CLOCK_SLACK_MS :: u64 where "CLOCK_SLACK_MS = 2000"

definition MAX_PROCESS_BYTES :: nat where "MAX_PROCESS_BYTES = 10 + 3 + 20 + 1 + 6"
definition MAX_CHAIN_BYTES :: nat where "MAX_CHAIN_BYTES = 256 * (MAX_PROCESS_BYTES + 1) - 1"
definition MAX_OWNER_BYTES :: nat where
  "MAX_OWNER_BYTES = 32 + 1 + 20 + 1 + 20 + 1 + MAX_CHAIN_BYTES"
definition MAX_RESULT_BYTES :: nat where
  "MAX_RESULT_BYTES = MAX_OWNER_BYTES + MAX_ID_BYTES + 20 + 20 + 5 + 4"

lemmas byte_limit_defs = MAX_PROCESS_BYTES_def MAX_CHAIN_BYTES_def MAX_OWNER_BYTES_def
  MAX_RESULT_BYTES_def

section \<open>Tokens, numbers, leases\<close>

datatype token = Token (token_str: string)

definition is_hex :: "char \<Rightarrow> bool" where
  "is_hex c = (is_digit c \<or> 97 \<le> byte c \<and> byte c \<le> 102)"

definition token_parse :: "string \<Rightarrow> token option" where
  "token_parse v = (if length v = 32 \<and> list_all is_hex v then Some (Token v) else None)"

definition number :: "string \<Rightarrow> u64 option" where
  "number v =
     (if v = [] \<or> 20 < length v \<or> \<not> list_all is_digit v then None
      else do { n \<leftarrow> parse_uint u64_max v; if show_nat n = v then Some n else None })"

record collector_lease =
  cl_token :: token
  cl_expires_at :: u64

definition lease_encode :: "collector_lease \<Rightarrow> string" where
  "lease_encode l = show_nat (cl_expires_at l) @ '':'' @ token_str (cl_token l)"

definition lease_parse :: "string \<Rightarrow> collector_lease option" where
  "lease_parse raw =
     (if 20 + 1 + 32 < length raw then None
      else do {
        (expiry, tok) \<leftarrow> split_once (CHR '':'') raw;
        t \<leftarrow> token_parse tok;
        e \<leftarrow> number expiry;
        Some \<lparr>cl_token = t, cl_expires_at = e\<rparr> })"

definition lease_live_at :: "collector_lease \<Rightarrow> u64 \<Rightarrow> bool" where
  "lease_live_at l now =
     (now < cl_expires_at l \<and> cl_expires_at l \<le> sat_add now LEASE_FUTURE_MS)"

section \<open>Processes\<close>

definition process_fields :: "process_identity \<Rightarrow> string" where
  "process_fields p =
     (case pi_birth p of
        LinuxStartTicks ticks \<Rightarrow> show_nat (pi_pid p) @ '':l:'' @ show_nat ticks
      | MacOsStart secs micros \<Rightarrow>
          show_nat (pi_pid p) @ '':m:'' @ show_nat secs @ '':'' @ show_nat micros)"

definition number_u32 :: "string \<Rightarrow> u32 option" where
  "number_u32 v = do { n \<leftarrow> number v; if n \<le> u32_max then Some n else None }"

text \<open>The iterator of fields is a list; what is left of it is part of the answer.\<close>

definition next_field :: "string list \<Rightarrow> (string \<times> string list) option" where
  "next_field fs = (case fs of [] \<Rightarrow> None | f # r \<Rightarrow> Some (f, r))"

definition parse_process :: "string list \<Rightarrow> (process_identity \<times> string list) option" where
  "parse_process fs0 = do {
     (f, fs1) \<leftarrow> next_field fs0;
     pid \<leftarrow> number_u32 f;
     if pid = 0 then None else do {
       (kind, fs2) \<leftarrow> next_field fs1;
       if kind = ''l'' then do {
         (t, fs3) \<leftarrow> next_field fs2;
         ticks \<leftarrow> number t;
         Some (\<lparr>pi_pid = pid, pi_birth = LinuxStartTicks ticks\<rparr>, fs3) }
       else if kind = ''m'' then do {
         (s, fs3) \<leftarrow> next_field fs2;
         secs \<leftarrow> number s;
         (u, fs4) \<leftarrow> next_field fs3;
         micros \<leftarrow> number_u32 u;
         if 1000000 \<le> micros then None
         else Some (\<lparr>pi_pid = pid, pi_birth = MacOsStart secs micros\<rparr>, fs4) }
       else None } }"

definition parse_whole_process :: "string \<Rightarrow> process_identity option" where
  "parse_whole_process s = do {
     (p, rest) \<leftarrow> parse_process (split_on (CHR '':'') s);
     if rest = [] then Some p else None }"

type_synonym process_chain = "process_identity list"

fun birth_ok :: "process_birth \<Rightarrow> bool" where
  "birth_ok (LinuxStartTicks _) = True"
| "birth_ok (MacOsStart _ micros) = (micros < 1000000)"

definition chain_new :: "process_identity list \<Rightarrow> process_chain option" where
  "chain_new ps =
     (if ps = [] \<or> 256 < length ps \<or> list_ex (\<lambda>p. pi_pid p = 0 \<or> \<not> birth_ok (pi_birth p)) ps
         \<or> list_ex (\<lambda>(i, p). list_ex (\<lambda>prior. pi_pid prior = pi_pid p) (take i ps)) (List.enumerate 0 ps)
      then None else Some ps)"

definition chain_agent :: "process_chain \<Rightarrow> process_identity" where
  "chain_agent ps = ps ! (length ps - 1)"

definition chain_encode :: "process_chain \<Rightarrow> string" where
  "chain_encode ps = join_with ''~'' (map process_fields ps)"

fun collect_options :: "'a option list \<Rightarrow> 'a list option" where
  "collect_options [] = Some []"
| "collect_options (m # ms) = do { x \<leftarrow> m; xs \<leftarrow> collect_options ms; Some (x # xs) }"

definition chain_parse :: "string \<Rightarrow> process_chain option" where
  "chain_parse raw =
     (if MAX_CHAIN_BYTES < length raw then None
      else do {
        ps \<leftarrow> collect_options (map parse_whole_process (take 257 (split_on (CHR ''~'') raw)));
        chain_new ps })"

section \<open>Owners, commits, results\<close>

record pane_owner =
  po_collector :: token
  po_episode :: episode_id
  po_processes :: process_chain
  po_stream_epoch :: u64

definition owner_encode :: "pane_owner \<Rightarrow> string" where
  "owner_encode w =
     token_str (po_collector w) @ '':'' @ show_nat (po_episode w) @ '':'' @
     show_nat (po_stream_epoch w) @ '':'' @ chain_encode (po_processes w)"

definition owner_parse :: "string \<Rightarrow> pane_owner option" where
  "owner_parse raw =
     (if MAX_OWNER_BYTES < length raw then None
      else do {
        (a, f1) \<leftarrow> next_field (splitn 4 (CHR '':'') raw);
        collector \<leftarrow> token_parse a;
        (b, f2) \<leftarrow> next_field f1;
        episode \<leftarrow> number b;
        (c, f3) \<leftarrow> next_field f2;
        stream_epoch \<leftarrow> number c;
        (d, _) \<leftarrow> next_field f3;
        processes \<leftarrow> chain_parse d;
        if episode = 0 \<or> stream_epoch = 0 then None
        else Some \<lparr>po_collector = collector, po_episode = episode, po_processes = processes,
                   po_stream_epoch = stream_epoch\<rparr> })"

record commit_marker =
  cm_write :: token
  cm_owner :: pane_owner

definition commit_encode :: "commit_marker \<Rightarrow> string" where
  "commit_encode c = token_str (cm_write c) @ ''|'' @ owner_encode (cm_owner c)"

definition commit_parse :: "string \<Rightarrow> commit_marker option" where
  "commit_parse raw =
     (if 32 + 1 + MAX_OWNER_BYTES < length raw then None
      else do {
        (w, owner) \<leftarrow> split_once (CHR ''|'') raw;
        t \<leftarrow> token_parse w;
        o' \<leftarrow> owner_parse owner;
        Some \<lparr>cm_write = t, cm_owner = o'\<rparr> })"

record persisted_result =
  pe_owner :: pane_owner
  pe_identity :: result_identity
  pe_cycle :: work_cycle
  pe_kind :: result_kind

definition persisted_new :: "pane_owner \<Rightarrow> program_result \<Rightarrow> persisted_result option" where
  "persisted_new owner result =
     (if po_episode owner = ri_owner (pr_identity result)
      then Some \<lparr>pe_owner = owner, pe_identity = pr_identity result, pe_cycle = pr_cycle result,
                 pe_kind = pr_kind result\<rparr>
      else None)"

fun kind_token :: "result_kind \<Rightarrow> string" where
  "kind_token Completion = ''done''"
| "kind_token Failure = ''error''"

definition kind_parse :: "string \<Rightarrow> result_kind option" where
  "kind_parse v = (if v = ''done'' then Some Completion else if v = ''error'' then Some Failure else None)"

definition result_encode :: "persisted_result \<Rightarrow> string" where
  "result_encode r =
     owner_encode (pe_owner r) @ ''|'' @ rid_str (ri_record (pe_identity r)) @ ''|'' @
     show_nat (ri_generation (pe_identity r)) @ ''|'' @ show_nat (pe_cycle r) @ ''|'' @
     kind_token (pe_kind r)"

definition record_field :: "string \<Rightarrow> record_id option" where
  "record_field v = (if v = [] then Some ROOT else ok (rid_parse v))"

definition result_parse :: "string \<Rightarrow> persisted_result option" where
  "result_parse raw =
     (if MAX_RESULT_BYTES < length raw then None
      else do {
        (a, f1) \<leftarrow> next_field (split_on (CHR ''|'') raw);
        owner \<leftarrow> owner_parse a;
        (b, f2) \<leftarrow> next_field f1;
        rec \<leftarrow> record_field b;
        (c, f3) \<leftarrow> next_field f2;
        generation \<leftarrow> number c;
        (d, f4) \<leftarrow> next_field f3;
        cycle \<leftarrow> number d;
        (e, f5) \<leftarrow> next_field f4;
        kind \<leftarrow> kind_parse e;
        if f5 \<noteq> [] \<or> generation = 0 then None
        else Some \<lparr>pe_owner = owner,
                   pe_identity = \<lparr>ri_owner = po_episode owner, ri_record = rec,
                                  ri_generation = generation\<rparr>,
                   pe_cycle = cycle, pe_kind = kind\<rparr> })"

record notification_claim =
  nc_token :: token
  nc_result :: persisted_result

definition claim_encode :: "notification_claim \<Rightarrow> string" where
  "claim_encode c = token_str (nc_token c) @ ''|'' @ result_encode (nc_result c)"

definition claim_parse :: "string \<Rightarrow> notification_claim option" where
  "claim_parse raw =
     (if 32 + 1 + MAX_RESULT_BYTES < length raw then None
      else do {
        (tok, result) \<leftarrow> split_once (CHR ''|'') raw;
        t \<leftarrow> token_parse tok;
        r \<leftarrow> result_parse result;
        Some \<lparr>nc_token = t, nc_result = r\<rparr> })"

datatype result_history = Retain | Reset | Rebind bool bool

datatype history_invalidation = InvalidateAll | Subtree record_id

fun invalidation_affects :: "history_invalidation \<Rightarrow> persisted_result \<Rightarrow> bool" where
  "invalidation_affects InvalidateAll r = True"
| "invalidation_affects (Subtree i) r = rid_contains i (ri_record (pe_identity r))"

record blocked_history =
  bh_processes :: process_chain
  bh_episode :: token
  bh_acknowledged :: bool
  bh_record :: record_id

definition blocked_identity :: "blocked_history \<Rightarrow> string" where
  "blocked_identity h =
     ''blocked|'' @ chain_encode (bh_processes h) @ ''|'' @ token_str (bh_episode h)"

definition blocked_encode :: "blocked_history \<Rightarrow> string" where
  "blocked_encode h =
     chain_encode (bh_processes h) @ ''|'' @ token_str (bh_episode h) @ ''|'' @
     show_nat (if bh_acknowledged h then 1 else 0) @ ''|'' @ rid_str (bh_record h)"

definition flag_parse :: "string \<Rightarrow> bool option" where
  "flag_parse v = (if v = ''0'' then Some False else if v = ''1'' then Some True else None)"

definition blocked_parse :: "string \<Rightarrow> blocked_history option" where
  "blocked_parse raw =
     (if MAX_CHAIN_BYTES + 36 + MAX_ID_BYTES < length raw then None
      else do {
        (a, f1) \<leftarrow> next_field (split_on (CHR ''|'') raw);
        processes \<leftarrow> chain_parse a;
        (b, f2) \<leftarrow> next_field f1;
        episode \<leftarrow> token_parse b;
        (c, f3) \<leftarrow> next_field f2;
        acknowledged \<leftarrow> flag_parse c;
        (d, f4) \<leftarrow> next_field f3;
        rec \<leftarrow> record_field d;
        if f4 \<noteq> [] then None
        else Some \<lparr>bh_processes = processes, bh_episode = episode, bh_acknowledged = acknowledged,
                   bh_record = rec\<rparr> })"

end
