(* ===== verification/Projection.thy ===== *)
theory Projection
  imports Persistence
begin

text \<open>
  The second half of \<open>persistence.rs\<close>: presentation identities, the hook-dispatch witness, metadata
  owners and updates, the projection of a pane's options under the collector lease, and the lease
  schedule. Definitions only.
\<close>

section \<open>Observation identities\<close>

datatype observation_identity =
    ObsResult persisted_result
  | ObsBlocked pane_owner token
  | ObsLegacy "blocked_history option" "token option" u32 agent_state provenance u64 u64

fun observation_encode :: "observation_identity \<Rightarrow> string" where
  "observation_encode (ObsResult r) = ''result|'' @ result_encode r"
| "observation_encode (ObsBlocked owner episode) =
     ''blocked|'' @ chain_encode (po_processes owner) @ ''|'' @ token_str episode"
| "observation_encode (ObsLegacy (Some history) _ _ _ _ _ _) = blocked_identity history"
| "observation_encode (ObsLegacy None (Some episode) _ _ _ _ _) = ''legacy|'' @ token_str episode"
| "observation_encode (ObsLegacy None None pid st _ since turn_at) =
     ''legacy||'' @ show_nat pid @ ''|'' @ state_token st @ ''|'' @ show_nat since @ ''|'' @
     show_nat turn_at"

section \<open>The hook-dispatch witness\<close>

record attention_revision =
  ar_session :: session_id
  ar_pane :: pane_id
  ar_receipt :: "token option"
  ar_episode :: "token option"
  ar_commit :: "token option"
  ar_origin :: bool
  ar_state :: agent_state
  ar_source :: provenance
  ar_pid :: u32
  ar_since :: u64
  ar_turn :: u64

definition optional_token :: "string \<Rightarrow> token option option" where
  "optional_token raw = (if raw = [] then Some None else map_option Some (token_parse raw))"

definition epoch_field :: "string \<Rightarrow> u64 option" where
  "epoch_field raw = (if raw = [] then Some 0 else number raw)"

definition revision_parse :: "string \<Rightarrow> attention_revision option" where
  "revision_parse raw =
     (if 256 < length raw then None
      else do {
        (a, f1) \<leftarrow> next_field (split_on (CHR ''|'') raw);
        session \<leftarrow> ok (session_id_parse a);
        (b, f2) \<leftarrow> next_field f1;
        pane \<leftarrow> ok (pane_id_parse b);
        (c, f3) \<leftarrow> next_field f2;
        receipt \<leftarrow> optional_token c;
        (d, f4) \<leftarrow> next_field f3;
        episode \<leftarrow> optional_token d;
        (e, f5) \<leftarrow> next_field f4;
        commit \<leftarrow> optional_token e;
        (f, f6) \<leftarrow> next_field f5;
        origin \<leftarrow> (if f = [] then Some False else if f = ''1'' then Some True else None);
        (g, f7) \<leftarrow> next_field f6;
        st \<leftarrow> ok (state_from_str g);
        (h, f8) \<leftarrow> next_field f7;
        source \<leftarrow> (if h = [] then Some Capture else ok (provenance_from_str h));
        (i, f9) \<leftarrow> next_field f8;
        p \<leftarrow> epoch_field i;
        pid \<leftarrow> (if p \<le> u32_max then Some p else None);
        (j, f10) \<leftarrow> next_field f9;
        since \<leftarrow> epoch_field j;
        (k, f11) \<leftarrow> next_field f10;
        turn \<leftarrow> epoch_field k;
        (l, f12) \<leftarrow> next_field f11;
        if l \<noteq> ''1'' \<or> f12 \<noteq> [] then None
        else Some \<lparr>ar_session = session, ar_pane = pane, ar_receipt = receipt, ar_episode = episode,
                   ar_commit = commit, ar_origin = origin, ar_state = st, ar_source = source,
                   ar_pid = pid, ar_since = since, ar_turn = turn\<rparr> })"

definition opt_value :: "options \<Rightarrow> string \<Rightarrow> string" where
  "opt_value opts key = (case opts key of None \<Rightarrow> [] | Some v \<Rightarrow> v)"

definition revision_matches :: "attention_revision \<Rightarrow> options \<Rightarrow> bool" where
  "revision_matches r opts =
     (let value = opt_value opts;
          token_is = (\<lambda>expected raw. raw = (case expected of None \<Rightarrow> [] | Some t \<Rightarrow> token_str t));
          epoch = (\<lambda>key. epoch_field (value key))
      in token_is (ar_receipt r) (value OPT_RECEIPT)
         \<and> token_is (ar_episode r) (value OPT_ATTENTION_EPISODE)
         \<and> (if value OPT_COMMIT = [] then ar_commit r = None
            else is_some_and (commit_parse (value OPT_COMMIT)) (\<lambda>m. Some (cm_write m) = ar_commit r))
         \<and> value OPT_ORIGIN = (if ar_origin r then ''1'' else [])
         \<and> value OPT_STATE = state_token (ar_state r)
         \<and> (value OPT_SOURCE = provenance_token (ar_source r)
            \<or> value OPT_SOURCE = [] \<and> ar_source r = Capture)
         \<and> epoch OPT_PID = Some (ar_pid r)
         \<and> epoch OPT_SINCE = Some (ar_since r)
         \<and> epoch OPT_TURN_AT = Some (ar_turn r)
         \<and> value OPT_ATTENTION = ''1'')"

section \<open>Metadata\<close>

datatype metadata_evidence = EvContext u64 | EvQuota u64

fun metadata_key :: "metadata_evidence \<Rightarrow> string" where
  "metadata_key (EvContext _) = OPT_CONTEXT_AT"
| "metadata_key (EvQuota _) = OPT_QUOTA_AT"

fun metadata_at :: "metadata_evidence \<Rightarrow> u64" where
  "metadata_at (EvContext at) = at"
| "metadata_at (EvQuota at) = at"

record metadata_update =
  mu_token :: token
  mu_evidence :: "metadata_evidence option"

definition update_encode :: "metadata_update \<Rightarrow> string" where
  "update_encode u =
     (case (case mu_evidence u of
              Some (EvContext at) \<Rightarrow> (''c'', at)
            | Some (EvQuota at) \<Rightarrow> (''q'', at)
            | None \<Rightarrow> (''n'', 0)) of
        (lane, at) \<Rightarrow> token_str (mu_token u) @ ''|'' @ lane @ ''|'' @ show_nat at)"

definition update_parse :: "string \<Rightarrow> metadata_update option" where
  "update_parse raw =
     (if 56 < length raw then None
      else do {
        (a, f1) \<leftarrow> next_field (split_on (CHR ''|'') raw);
        tok \<leftarrow> token_parse a;
        (lane, f2) \<leftarrow> next_field f1;
        (c, f3) \<leftarrow> next_field f2;
        at \<leftarrow> number c;
        if f3 \<noteq> [] then None
        else if lane = ''c'' then Some \<lparr>mu_token = tok, mu_evidence = Some (EvContext at)\<rparr>
        else if lane = ''q'' then Some \<lparr>mu_token = tok, mu_evidence = Some (EvQuota at)\<rparr>
        else if lane = ''n'' \<and> at = 0 then Some \<lparr>mu_token = tok, mu_evidence = None\<rparr>
        else None })"

definition METADATA_KEYS :: "string list" where
  "METADATA_KEYS = [OPT_SESSION, OPT_TRANSCRIPT, OPT_SUBAGENTS, OPT_CONTEXT_PCT, OPT_CONTEXT_AT,
     OPT_TOKENS, OPT_TOKENS_AT, OPT_QUOTA_PCT, OPT_QUOTA_AT, OPT_QUOTA_WINDOW, OPT_QUOTA_RESETS_AT,
     OPT_COST_USD, OPT_MODEL, OPT_API_ENDPOINT, OPT_PERMISSION_REQUEST, OPT_QUESTION_REQUEST,
     OPT_PENDING_TOOL, OPT_PENDING_CALL, OPT_PENDING_SUMMARY, OPT_ACT_REPEAT]"

record metadata_owner =
  mo_process :: process_identity
  mo_session :: string

text \<open>\<open>{b:02x}\<close> and \<open>u8::from_str_radix(_, 16)\<close> on two lower-case digits.\<close>

definition hex_digit :: "nat \<Rightarrow> char" where
  "hex_digit n = (if n < 10 then char_of (48 + n) else char_of (87 + n))"

definition hex_val :: "char \<Rightarrow> nat" where
  "hex_val c = (if is_digit c then byte c - 48 else byte c - 87)"

definition hex_encode :: "string \<Rightarrow> string" where
  "hex_encode s = concat (map (\<lambda>c. [hex_digit (byte c div 16), hex_digit (byte c mod 16)]) s)"

fun hex_decode :: "string \<Rightarrow> string" where
  "hex_decode (a # b # r) = char_of (16 * hex_val a + hex_val b) # hex_decode r"
| "hex_decode _ = []"

definition metadata_owner_encode :: "metadata_owner \<Rightarrow> string" where
  "metadata_owner_encode w = process_fields (mo_process w) @ ''|'' @ hex_encode (mo_session w)"

definition metadata_owner_parse :: "string \<Rightarrow> metadata_owner option" where
  "metadata_owner_parse raw =
     (if MAX_PROCESS_BYTES + 1 + 2048 < length raw then None
      else do {
        (process, session) \<leftarrow> split_once (CHR ''|'') raw;
        (p, rest) \<leftarrow> parse_process (split_on (CHR '':'') process);
        if rest \<noteq> [] \<or> session = [] \<or> 2048 < length session \<or> length session mod 2 \<noteq> 0
           \<or> \<not> list_all is_hex session then None
        else if \<not> valid_utf8 (hex_decode session) then None
        else if has_control (hex_decode session) then None
        else Some \<lparr>mo_process = p, mo_session = hex_decode session\<rparr> })"

section \<open>The projection\<close>

datatype projection_read =
    PLegacy "read_result option"
  | PLive stamped_state pane_owner commit_marker
  | PStale

record program_metadata =
  pm_program_origin :: bool
  pm_origin_complete :: bool
  pm_owner :: "pane_owner option"
  pm_commit :: "commit_marker option"
  pm_lease :: "collector_lease option"
  pm_result :: "persisted_result option"
  pm_invalidated :: "persisted_result option"
  pm_acknowledged :: "persisted_result option"
  pm_notified :: "notification_claim option"

definition metadata_from_options :: "options \<Rightarrow> program_metadata" where
  "metadata_from_options opts =
     \<lparr>pm_program_origin =
        list_ex (\<lambda>key. is_some_and (opts key) (\<lambda>v. v \<noteq> [])) [OPT_ORIGIN, OPT_OWNER, OPT_COMMIT],
      pm_origin_complete = (opts OPT_ORIGIN = Some ''1''),
      pm_owner = Option.bind (opts OPT_OWNER) owner_parse,
      pm_commit = Option.bind (opts OPT_COMMIT) commit_parse,
      pm_lease = Option.bind (opts OPT_COLLECTOR) lease_parse,
      pm_result = Option.bind (opts OPT_RESULT) result_parse,
      pm_invalidated = Option.bind (opts OPT_INVALIDATED) result_parse,
      pm_acknowledged = Option.bind (opts OPT_ACK) result_parse,
      pm_notified = Option.bind (opts OPT_NOTIFIED) claim_parse\<rparr>"

definition projection ::
  "program_metadata \<Rightarrow> options \<Rightarrow> u64 \<Rightarrow> grammar_error + projection_read" where
  "projection m opts now =
     (if \<not> pm_program_origin m then map_sum id PLegacy (from_options opts)
      else
        (case (pm_owner m, pm_commit m, pm_lease m) of
           (Some owner, Some commit, Some lease) \<Rightarrow>
             if \<not> pm_origin_complete m \<or> cm_owner commit \<noteq> owner
                \<or> cl_token lease \<noteq> po_collector owner \<or> \<not> lease_live_at lease now
             then Inr PStale
             else
               sum_bind (from_options opts) (\<lambda>read.
                 case read of
                   Some (Settled stamp) \<Rightarrow>
                     if sp_pid stamp = pi_pid (chain_agent (po_processes owner)) \<and> sp_source stamp = Hook
                     then Inr (PLive stamp owner commit) else Inr PStale
                 | _ \<Rightarrow> Inr PStale)
         | _ \<Rightarrow> Inr PStale))"

definition read_projection :: "options \<Rightarrow> u64 \<Rightarrow> grammar_error + projection_read" where
  "read_projection opts now = projection (metadata_from_options opts) opts now"

definition current_stamp :: "options \<Rightarrow> u64 \<Rightarrow> grammar_error + read_result option" where
  "current_stamp opts now =
     sum_bind (read_projection opts now) (\<lambda>p.
       case p of
         PLegacy read \<Rightarrow> Inr read
       | PLive stamp _ _ \<Rightarrow> Inr (Some (Settled stamp))
       | PStale \<Rightarrow> Inr None)"

definition attention_observation ::
  "program_metadata \<Rightarrow> options \<Rightarrow> u64 \<Rightarrow> (stamped_state \<times> observation_identity) option" where
  "attention_observation m opts now =
     (case projection m opts now of
        Inl _ \<Rightarrow> None
      | Inr PStale \<Rightarrow> None
      | Inr (PLive stamp owner _) \<Rightarrow>
          (if sp_state stamp = Blocked then
             map_option (\<lambda>episode. (stamp, ObsBlocked owner episode))
               (token_parse (opt_value opts OPT_ATTENTION_EPISODE))
           else if sp_state stamp = Idle \<and> sp_attention stamp then
             Option.bind (pm_result m) (\<lambda>result.
               if pe_owner result \<noteq> owner then None else Some (stamp, ObsResult result))
           else None)
      | Inr (PLegacy (Some read)) \<Rightarrow>
          (let stamp = into_inner read;
               blocked = option_filter (\<lambda>history.
                   sp_state stamp = Blocked
                   \<and> opt_value opts OPT_ATTENTION_EPISODE = token_str (bh_episode history))
                 (blocked_parse (opt_value opts OPT_BLOCKED_HISTORY))
           in Some (stamp, ObsLegacy blocked (token_parse (opt_value opts OPT_ATTENTION_EPISODE))
                (sp_pid stamp) (sp_state stamp) (sp_source stamp) (sp_since stamp) (sp_turn_at stamp)))
      | Inr (PLegacy None) \<Rightarrow> None)"

section \<open>The lease schedule\<close>

datatype lease_action = LWait | LRenew u64 | LRevoke

record lease_time =
  lt_monotonic :: u64
  lt_epoch :: u64

record lease_schedule =
  ls_last :: lease_time
  ls_revoked :: bool

definition lease_committed :: "lease_time \<Rightarrow> lease_schedule" where
  "lease_committed at = \<lparr>ls_last = at, ls_revoked = False\<rparr>"

text \<open>The two elapsed times of a pair of samples, when neither clock went backwards, and the test that
  they agree.\<close>

definition clocks_agree :: "lease_time \<Rightarrow> lease_time \<Rightarrow> bool" where
  "clocks_agree earlier later =
     (case (checked_sub (lt_monotonic later) (lt_monotonic earlier),
            checked_sub (lt_epoch later) (lt_epoch earlier)) of
        (Some elapsed, Some wall) \<Rightarrow> abs_diff elapsed wall \<le> CLOCK_SLACK_MS
      | _ \<Rightarrow> False)"

definition lease_step :: "lease_time \<Rightarrow> lease_schedule \<Rightarrow> lease_action \<times> lease_schedule" where
  "lease_step at s =
     (let elapsed = (case checked_sub (lt_monotonic at) (lt_monotonic (ls_last s)) of
                       None \<Rightarrow> 0 | Some e \<Rightarrow> e)
      in if ls_revoked s \<or> LEASE_DURATION_MS \<le> elapsed \<or> \<not> clocks_agree (ls_last s) at
         then (LRevoke, s\<lparr>ls_revoked := True\<rparr>)
         else if elapsed < LEASE_RENEW_MS then (LWait, s)
         else (LRenew (sat_add (lt_epoch at) LEASE_DURATION_MS), s))"

definition lease_confirm :: "lease_time \<Rightarrow> lease_time \<Rightarrow> lease_schedule \<Rightarrow> bool \<times> lease_schedule" where
  "lease_confirm submission completion s =
     (if \<not> clocks_agree submission completion then (False, s\<lparr>ls_revoked := True\<rparr>)
      else case lease_step completion s of
             (LRevoke, s1) \<Rightarrow> (False, s1)
           | (_, s1) \<Rightarrow>
               (case lease_step submission s1 of
                  (LRenew _, s2) \<Rightarrow> (True, s2\<lparr>ls_last := submission\<rparr>)
                | (_, s2) \<Rightarrow> (False, s2)))"

end
