(* ===== verification/Persistence_Codecs.thy ===== *)
theory Persistence_Codecs
  imports Projection
begin

text \<open>
  Every text form of the persistence protocol is a codec: on its well-formed values the parser
  inverts the encoder within the byte limits, and it accepts nothing but canonical encodings of
  well-formed values. So an equality of stored texts is an equality of owners, results and tokens,
  which is what the guarded writes compare.
\<close>

section \<open>Fields\<close>

lemma next_field_simps [simp]: "next_field [] = None" "next_field (f # r) = Some (f, r)"
  by (simp_all add: next_field_def)

lemma next_field_Some [simp]: "next_field fs = Some (f, r) \<longleftrightarrow> fs = f # r"
  by (cases fs) auto

lemma sep_not_digit [simp]:
  "\<not> is_digit (CHR '':'')" "\<not> is_digit (CHR ''|'')" "\<not> is_digit (CHR ''~'')"
  by (simp_all add: is_digit_def byte_def)

lemma sep_not_hex [simp]:
  "\<not> is_hex (CHR '':'')" "\<not> is_hex (CHR ''|'')" "\<not> is_hex (CHR ''~'')"
  by (simp_all add: is_hex_def is_digit_def byte_def)

lemma show_nat_sep [simp]:
  "CHR '':'' \<notin> set (show_nat n)" "CHR ''|'' \<notin> set (show_nat n)" "CHR ''~'' \<notin> set (show_nat n)"
  by (simp_all add: not_digit_notin_show)

lemma show_nat_u64: "n \<le> u64_max \<Longrightarrow> length (show_nat n) \<le> 20"
  by (simp add: show_nat_length_10 u64_max_def)

lemma show_nat_u32: "n \<le> u32_max \<Longrightarrow> length (show_nat n) \<le> 10"
  by (simp add: show_nat_length_10 u32_max_def)

lemma number_show [simp]: "n \<le> u64_max \<Longrightarrow> number (show_nat n) = Some n"
  using show_nat_u64 [of n] by (simp add: number_def)

lemma number_Some: "number v = Some n \<longleftrightarrow> n \<le> u64_max \<and> v = show_nat n"
proof
  assume "number v = Some n"
  then show "n \<le> u64_max \<and> v = show_nat n"
    by (auto simp: number_def bind_Some_iff split: if_splits dest: parse_uint_le)
qed simp

lemma number_u32_Some: "number_u32 v = Some n \<longleftrightarrow> n \<le> u32_max \<and> v = show_nat n"
  by (auto simp: number_u32_def bind_Some_iff number_Some u32_max_def u64_max_def split: if_splits)

interpretation number_codec: codec show_nat number "\<lambda>n. n \<le> u64_max"
  by unfold_locales (auto simp: number_Some)

definition token_wf :: "token \<Rightarrow> bool" where
  "token_wf t = (length (token_str t) = 32 \<and> list_all is_hex (token_str t))"

lemma token_parse_Some: "token_parse v = Some t \<longleftrightarrow> token_wf t \<and> v = token_str t"
  by (cases t) (auto simp: token_parse_def token_wf_def)

interpretation token_codec: codec token_str token_parse token_wf
  by unfold_locales (auto simp: token_parse_Some)

lemma token_sep:
  "token_wf t \<Longrightarrow> CHR '':'' \<notin> set (token_str t)" "token_wf t \<Longrightarrow> CHR ''|'' \<notin> set (token_str t)"
  by (auto simp: token_wf_def list_all_iff)

lemma token_length: "token_wf t \<Longrightarrow> length (token_str t) = 32"
  by (simp add: token_wf_def)

definition lease_wf :: "collector_lease \<Rightarrow> bool" where
  "lease_wf l = (token_wf (cl_token l) \<and> cl_expires_at l \<le> u64_max)"

lemma lease_parse_Some: "lease_parse raw = Some l \<longleftrightarrow> lease_wf l \<and> raw = lease_encode l"
proof
  assume "lease_parse raw = Some l"
  then show "lease_wf l \<and> raw = lease_encode l"
    by (auto simp: lease_parse_def bind_Some_iff token_parse_Some number_Some lease_wf_def
        lease_encode_def split_once_Some_iff split: if_splits)
next
  assume "lease_wf l \<and> raw = lease_encode l"
  then show "lease_parse raw = Some l"
    using show_nat_u64 [of "cl_expires_at l"]
    by (simp add: lease_parse_def lease_encode_def lease_wf_def token_length token_codec.dec_enc)
qed

interpretation lease_codec: codec lease_encode lease_parse lease_wf
  by unfold_locales (auto simp: lease_parse_Some)

section \<open>Processes and chains\<close>

fun birth_wf :: "process_birth \<Rightarrow> bool" where
  "birth_wf (LinuxStartTicks ticks) = (ticks \<le> u64_max)"
| "birth_wf (MacOsStart secs micros) = (secs \<le> u64_max \<and> micros < 1000000)"

definition process_wf :: "process_identity \<Rightarrow> bool" where
  "process_wf p = (pi_pid p \<noteq> 0 \<and> pi_pid p \<le> u32_max \<and> birth_wf (pi_birth p))"

definition process_parts :: "process_identity \<Rightarrow> string list" where
  "process_parts p =
     (case pi_birth p of
        LinuxStartTicks ticks \<Rightarrow> [show_nat (pi_pid p), ''l'', show_nat ticks]
      | MacOsStart secs micros \<Rightarrow> [show_nat (pi_pid p), ''m'', show_nat secs, show_nat micros])"

lemma process_fields_parts: "process_fields p = join_with '':'' (process_parts p)"
  by (simp add: process_fields_def process_parts_def split: process_birth.split)

lemma split_process_fields: "split_on (CHR '':'') (process_fields p) = process_parts p"
  unfolding process_fields_parts
  by (rule split_on_join) (auto simp: process_parts_def split: process_birth.splits)

lemma parse_process_Some:
  "parse_process fs = Some (p, rest) \<longleftrightarrow> process_wf p \<and> fs = process_parts p @ rest"
proof
  assume "parse_process fs = Some (p, rest)"
  then show "process_wf p \<and> fs = process_parts p @ rest"
    by (auto simp: parse_process_def bind_Some_iff number_u32_Some number_Some process_wf_def
        process_parts_def split: if_splits)
next
  assume "process_wf p \<and> fs = process_parts p @ rest"
  then show "parse_process fs = Some (p, rest)"
    by (cases "pi_birth p")
      (auto simp: parse_process_def process_wf_def process_parts_def number_u32_def u32_max_def
        u64_max_def)
qed

lemma parse_whole_process_Some:
  "parse_whole_process s = Some p \<longleftrightarrow> process_wf p \<and> s = process_fields p"
proof
  assume "parse_whole_process s = Some p"
  then have "process_wf p" "split_on (CHR '':'') s = process_parts p"
    by (auto simp: parse_whole_process_def bind_Some_iff parse_process_Some split: if_splits)
  then show "process_wf p \<and> s = process_fields p"
    by (simp add: process_fields_parts split_on_eqD)
next
  assume "process_wf p \<and> s = process_fields p"
  then have "parse_process (split_on (CHR '':'') s) = Some (p, [])"
    by (simp add: split_process_fields parse_process_Some)
  then show "parse_whole_process s = Some p" by (simp add: parse_whole_process_def)
qed

interpretation process_codec: codec process_fields parse_whole_process process_wf
  by unfold_locales (auto simp: parse_whole_process_Some)

lemma process_fields_sep [simp]:
  "CHR ''~'' \<notin> set (process_fields p)" "CHR ''|'' \<notin> set (process_fields p)"
  by (auto simp: process_fields_def split: process_birth.splits)

lemma process_fields_length: "process_wf p \<Longrightarrow> length (process_fields p) \<le> MAX_PROCESS_BYTES"
proof -
  assume wf: "process_wf p"
  have micros: "length (show_nat m) \<le> 6" if "m < 1000000" for m
    using that by (simp add: show_nat_length_10)
  show ?thesis
    using wf show_nat_u32 [of "pi_pid p"] micros
    by (cases "pi_birth p")
      (auto simp: process_wf_def process_fields_def MAX_PROCESS_BYTES_def
        intro!: add_mono [of _ 10 _ 30, simplified] dest!: show_nat_u64 micros)
qed

definition chain_wf :: "process_chain \<Rightarrow> bool" where
  "chain_wf ps =
     (ps \<noteq> [] \<and> length ps \<le> 256 \<and> list_all process_wf ps \<and> distinct (map pi_pid ps))"

lemma enumerate_prior:
  "list_ex (\<lambda>(i, p). list_ex (\<lambda>prior. f prior = f p) (take i ps)) (List.enumerate 0 ps)
     \<longleftrightarrow> \<not> distinct (map f ps)"
proof -
  have take: "prior \<in> set (take i ps) \<longleftrightarrow> (\<exists>j < i. prior = ps ! j)" if "i < length ps" for i prior
  proof -
    have "set (take i ps) = (!) ps ` {0..<i}" using nth_image [of i ps] that by simp
    then show ?thesis by auto
  qed
  have "list_ex (\<lambda>(i, p). list_ex (\<lambda>prior. f prior = f p) (take i ps)) (List.enumerate 0 ps)
      \<longleftrightarrow> (\<exists>ip \<in> set (List.enumerate 0 ps). \<exists>prior \<in> set (take (fst ip) ps). f prior = f (snd ip))"
    by (simp add: list_ex_iff case_prod_beta)
  also have "\<dots> \<longleftrightarrow> (\<exists>i < length ps. \<exists>prior \<in> set (take i ps). f prior = f (ps ! i))"
  proof
    assume "\<exists>ip \<in> set (List.enumerate 0 ps). \<exists>prior \<in> set (take (fst ip) ps). f prior = f (snd ip)"
    then obtain i p prior where "(i, p) \<in> set (List.enumerate 0 ps)" "prior \<in> set (take i ps)" "f prior = f p"
      by auto
    then show "\<exists>i < length ps. \<exists>prior \<in> set (take i ps). f prior = f (ps ! i)"
      by (auto simp: in_set_enumerate_eq)
  next
    assume "\<exists>i < length ps. \<exists>prior \<in> set (take i ps). f prior = f (ps ! i)"
    then obtain i prior where i: "i < length ps" "prior \<in> set (take i ps)" "f prior = f (ps ! i)" by blast
    then have "(i, ps ! i) \<in> set (List.enumerate 0 ps)" by (simp add: in_set_enumerate_eq)
    with i(2,3) show "\<exists>ip \<in> set (List.enumerate 0 ps). \<exists>prior \<in> set (take (fst ip) ps). f prior = f (snd ip)"
      by (intro bexI [of _ "(i, ps ! i)"]) (simp_all, rule bexI)
  qed
  also have "\<dots> \<longleftrightarrow> (\<exists>i < length ps. \<exists>j < i. f (ps ! j) = f (ps ! i))"
    by (simp add: Bex_def take cong: conj_cong) blast
  also have "\<dots> \<longleftrightarrow> \<not> distinct (map f ps)"
  proof
    assume "\<exists>i < length ps. \<exists>j < i. f (ps ! j) = f (ps ! i)"
    then obtain i j where ij: "i < length ps" "j < i" "f (ps ! j) = f (ps ! i)" by blast
    show "\<not> distinct (map f ps)"
    proof
      assume "distinct (map f ps)"
      with ij nth_eq_iff_index_eq [of "map f ps" j i] show False by simp
    qed
  next
    assume "\<not> distinct (map f ps)"
    then obtain i j where "i < length ps" "j < length ps" "i \<noteq> j" "f (ps ! i) = f (ps ! j)"
      by (auto simp: distinct_conv_nth)
    then show "\<exists>i < length ps. \<exists>j < i. f (ps ! j) = f (ps ! i)"
      by (cases "i < j") force+
  qed
  finally show ?thesis .
qed

lemma birth_wf_ok: "birth_wf b \<Longrightarrow> birth_ok b"
  by (cases b) auto

lemma chain_new_Some:
  "list_all process_wf ps \<Longrightarrow> chain_new ps = Some qs \<longleftrightarrow> qs = ps \<and> chain_wf ps"
  unfolding chain_new_def enumerate_prior
  by (auto simp: chain_wf_def list_all_iff list_ex_iff process_wf_def dest: birth_wf_ok)

lemma collect_options_Some:
  "collect_options (map f xs) = Some ys \<longleftrightarrow> list_all2 (\<lambda>x y. f x = Some y) xs ys"
  by (induction xs arbitrary: ys) (auto simp: bind_Some_iff list_all2_Cons1)

lemma list_all2_map:
  "list_all2 (\<lambda>x y. P y \<and> x = f y) xs ys \<Longrightarrow> list_all P ys \<and> xs = map f ys"
  by (induction rule: list_all2_induct) auto

lemma chain_encode_sep [simp]: "CHR ''|'' \<notin> set (chain_encode ps)"
proof -
  have "c \<notin> set (join_with sep qs)" if "c \<notin> set sep" "\<forall>q \<in> set qs. c \<notin> set q" for c :: char and sep qs
    using that by (induction sep qs rule: join_with.induct) auto
  then show ?thesis by (simp add: chain_encode_def)
qed

lemma chain_length: "chain_wf ps \<Longrightarrow> length (chain_encode ps) \<le> MAX_CHAIN_BYTES"
proof -
  assume wf: "chain_wf ps"
  have "length (join_with ''~'' qs) + 1 \<le> length qs * (MAX_PROCESS_BYTES + 1)"
    if "qs \<noteq> []" "\<forall>q \<in> set qs. length q \<le> MAX_PROCESS_BYTES" for qs
    using that by (induction "''~''" qs rule: join_with.induct) auto
  from this [of "map process_fields ps"] wf process_fields_length
  have "length (chain_encode ps) + 1 \<le> length ps * (MAX_PROCESS_BYTES + 1)"
    by (auto simp: chain_encode_def chain_wf_def list_all_iff)
  also have "\<dots> \<le> 256 * (MAX_PROCESS_BYTES + 1)"
    using wf by (intro mult_le_mono1) (simp add: chain_wf_def)
  finally show ?thesis by (simp add: MAX_CHAIN_BYTES_def)
qed

lemma chain_parse_Some: "chain_parse raw = Some ps \<longleftrightarrow> chain_wf ps \<and> raw = chain_encode ps"
proof
  assume parsed: "chain_parse raw = Some ps"
  then obtain qs where qs: "collect_options (map parse_whole_process (take 257 (split_on (CHR ''~'') raw))) = Some qs"
    "chain_new qs = Some ps"
    by (auto simp: chain_parse_def bind_Some_iff split: if_splits)
  then have all: "list_all2 (\<lambda>x y. process_wf y \<and> x = process_fields y) (take 257 (split_on (CHR ''~'') raw)) qs"
    by (simp add: collect_options_Some parse_whole_process_Some)
  then have wfs: "list_all process_wf qs" and texts: "take 257 (split_on (CHR ''~'') raw) = map process_fields qs"
    using list_all2_map by blast+
  from wfs qs(2) have ps: "qs = ps" "chain_wf ps" by (auto simp: chain_new_Some)
  then have "length (take 257 (split_on (CHR ''~'') raw)) \<le> 256"
    using texts by (simp add: chain_wf_def)
  then have "take 257 (split_on (CHR ''~'') raw) = split_on (CHR ''~'') raw" by auto
  with texts ps have "split_on (CHR ''~'') raw = map process_fields ps" by simp
  then show "chain_wf ps \<and> raw = chain_encode ps"
    using ps(2) split_on_eqD [of "CHR ''~''" raw "map process_fields ps"]
    unfolding chain_encode_def by (intro conjI)
next
  assume enc: "chain_wf ps \<and> raw = chain_encode ps"
  then have wf: "list_all process_wf ps" "ps \<noteq> []" "length ps \<le> 256" by (simp_all add: chain_wf_def)
  have "split_on (CHR ''~'') raw = map process_fields ps"
    using enc wf(2) by (auto simp: chain_encode_def intro!: split_on_join)
  moreover have "collect_options (map parse_whole_process (map process_fields ps)) = Some ps"
    using wf(1) unfolding collect_options_Some
    by (simp add: list_all2_conv_all_nth parse_whole_process_Some list_all_length)
  ultimately show "chain_parse raw = Some ps"
    using enc wf(3) chain_length [of ps] chain_new_Some [OF wf(1)]
    by (simp add: chain_parse_def not_less)
qed

interpretation chain_codec: codec chain_encode chain_parse chain_wf
  by unfold_locales (auto simp: chain_parse_Some)

section \<open>Owners, commits, results, claims\<close>

definition owner_wf :: "pane_owner \<Rightarrow> bool" where
  "owner_wf w =
     (token_wf (po_collector w) \<and> 0 < po_episode w \<and> po_episode w \<le> u64_max
      \<and> 0 < po_stream_epoch w \<and> po_stream_epoch w \<le> u64_max \<and> chain_wf (po_processes w))"

lemma owner_encode_sep [simp]: "owner_wf w \<Longrightarrow> CHR ''|'' \<notin> set (owner_encode w)"
  by (auto simp: owner_encode_def owner_wf_def dest: token_sep)

lemma owner_length: "owner_wf w \<Longrightarrow> length (owner_encode w) \<le> MAX_OWNER_BYTES"
  using show_nat_u64 [of "po_episode w"] show_nat_u64 [of "po_stream_epoch w"]
    chain_length [of "po_processes w"] token_length [of "po_collector w"]
  by (simp add: owner_encode_def owner_wf_def MAX_OWNER_BYTES_def)

lemma owner_parse_Some: "owner_parse raw = Some w \<longleftrightarrow> owner_wf w \<and> raw = owner_encode w"
proof
  assume "owner_parse raw = Some w"
  then obtain a b c d f where "splitn 4 (CHR '':'') raw = a # b # c # d # f"
    and w: "token_parse a = Some (po_collector w)" "number b = Some (po_episode w)"
      "number c = Some (po_stream_epoch w)" "chain_parse d = Some (po_processes w)"
      "po_episode w \<noteq> 0" "po_stream_epoch w \<noteq> 0"
    by (auto simp: owner_parse_def bind_Some_iff split: if_splits)
  then have "raw = a @ '':'' @ b @ '':'' @ c @ '':'' @ d"
    by (auto simp: numeral_eq_Suc split_once_Some_iff split: option.splits)
  with w show "owner_wf w \<and> raw = owner_encode w"
    by (auto simp: owner_wf_def owner_encode_def token_parse_Some number_Some chain_parse_Some)
next
  assume enc: "owner_wf w \<and> raw = owner_encode w"
  then have "splitn 4 (CHR '':'') raw = [token_str (po_collector w), show_nat (po_episode w),
      show_nat (po_stream_epoch w), chain_encode (po_processes w)]"
    by (simp add: numeral_eq_Suc owner_encode_def owner_wf_def token_sep)
  with enc owner_length [of w] show "owner_parse raw = Some w"
    by (simp add: owner_parse_def owner_wf_def token_codec.dec_enc chain_codec.dec_enc not_less)
qed

interpretation owner_codec: codec owner_encode owner_parse owner_wf
  by unfold_locales (auto simp: owner_parse_Some)

definition commit_wf :: "commit_marker \<Rightarrow> bool" where
  "commit_wf c = (token_wf (cm_write c) \<and> owner_wf (cm_owner c))"

lemma commit_parse_Some: "commit_parse raw = Some c \<longleftrightarrow> commit_wf c \<and> raw = commit_encode c"
proof
  assume "commit_parse raw = Some c"
  then show "commit_wf c \<and> raw = commit_encode c"
    by (auto simp: commit_parse_def bind_Some_iff token_parse_Some owner_parse_Some commit_wf_def
        commit_encode_def split_once_Some_iff split: if_splits)
next
  assume "commit_wf c \<and> raw = commit_encode c"
  then show "commit_parse raw = Some c"
    using owner_length [of "cm_owner c"] token_length [of "cm_write c"]
    by (simp add: commit_parse_def commit_encode_def commit_wf_def token_sep token_codec.dec_enc
        owner_codec.dec_enc)
qed

interpretation commit_codec: codec commit_encode commit_parse commit_wf
  by unfold_locales (auto simp: commit_parse_Some)

definition result_wf :: "persisted_result \<Rightarrow> bool" where
  "result_wf r =
     (owner_wf (pe_owner r) \<and> ri_owner (pe_identity r) = po_episode (pe_owner r)
      \<and> rid_valid (ri_record (pe_identity r))
      \<and> 0 < ri_generation (pe_identity r) \<and> ri_generation (pe_identity r) \<le> u64_max
      \<and> pe_cycle r \<le> u64_max)"

lemma record_field_Some: "record_field v = Some r \<longleftrightarrow> rid_valid r \<and> v = rid_str r"
proof (cases "v = []")
  case True
  then show ?thesis
    by (cases r) (auto simp: record_field_def ROOT_def rid_valid_def rid_parse_Inr)
next
  case False
  then show ?thesis
    by (cases r) (auto simp: record_field_def ok_Some_iff rid_valid_def rid_parse_Inr ROOT_def)
qed

lemma rid_str_sep: "rid_valid r \<Longrightarrow> CHR ''|'' \<notin> set (rid_str r)"
  using rid_valid_chars [of r "CHR ''|''"]
  by (auto simp: identifier_byte_def is_alnum_def is_digit_def is_lower_def is_upper_def byte_def)

lemma kind_parse_Some: "kind_parse v = Some k \<longleftrightarrow> v = kind_token k"
  by (cases k) (auto simp: kind_parse_def)

lemma kind_token_sep [simp]: "CHR ''|'' \<notin> set (kind_token k)"
  by (cases k) simp_all

lemma result_length: "result_wf r \<Longrightarrow> length (result_encode r) \<le> MAX_RESULT_BYTES"
proof -
  assume wf: "result_wf r"
  have "length (kind_token (pe_kind r)) \<le> 5" by (cases "pe_kind r") simp_all
  then show ?thesis
    using wf owner_length [of "pe_owner r"] rid_valid_length [of "ri_record (pe_identity r)"]
      show_nat_u64 [of "ri_generation (pe_identity r)"] show_nat_u64 [of "pe_cycle r"]
    by (simp add: result_wf_def result_encode_def MAX_RESULT_BYTES_def)
qed

lemma split_five:
  assumes "c \<notin> set a" "c \<notin> set b" "c \<notin> set d" "c \<notin> set e" "c \<notin> set f"
  shows "split_on c (a @ [c] @ b @ [c] @ d @ [c] @ e @ [c] @ f) = [a, b, d, e, f]"
  using assms by simp

lemma result_parse_Some: "result_parse raw = Some r \<longleftrightarrow> result_wf r \<and> raw = result_encode r"
proof
  assume "result_parse raw = Some r"
  then obtain a b c d e where "split_on (CHR ''|'') raw = [a, b, c, d, e]"
    and r: "owner_parse a = Some (pe_owner r)" "record_field b = Some (ri_record (pe_identity r))"
      "number c = Some (ri_generation (pe_identity r))" "number d = Some (pe_cycle r)"
      "kind_parse e = Some (pe_kind r)" "ri_generation (pe_identity r) \<noteq> 0"
      "ri_owner (pe_identity r) = po_episode (pe_owner r)"
    by (auto simp: result_parse_def bind_Some_iff split: if_splits)
  then have "raw = join_with ''|'' [a, b, c, d, e]" by (intro split_on_eqD)
  with r show "result_wf r \<and> raw = result_encode r"
    by (auto simp: result_wf_def result_encode_def owner_parse_Some record_field_Some number_Some
        kind_parse_Some)
next
  assume enc: "result_wf r \<and> raw = result_encode r"
  then have "split_on (CHR ''|'') raw = [owner_encode (pe_owner r), rid_str (ri_record (pe_identity r)),
      show_nat (ri_generation (pe_identity r)), show_nat (pe_cycle r), kind_token (pe_kind r)]"
    using split_five [of "CHR ''|''" "owner_encode (pe_owner r)" "rid_str (ri_record (pe_identity r))"]
    by (simp add: result_encode_def result_wf_def rid_str_sep)
  moreover have "record_field (rid_str (ri_record (pe_identity r))) = Some (ri_record (pe_identity r))"
    "kind_parse (kind_token (pe_kind r)) = Some (pe_kind r)"
    using enc by (simp_all add: record_field_Some kind_parse_Some result_wf_def)
  ultimately show "result_parse raw = Some r"
    using enc result_length [of r]
    by (simp add: result_parse_def result_wf_def owner_codec.dec_enc not_less)
qed

interpretation result_codec: codec result_encode result_parse result_wf
  by unfold_locales (auto simp: result_parse_Some)

definition notification_wf :: "notification_claim \<Rightarrow> bool" where
  "notification_wf c = (token_wf (nc_token c) \<and> result_wf (nc_result c))"

lemma claim_parse_Some: "claim_parse raw = Some c \<longleftrightarrow> notification_wf c \<and> raw = claim_encode c"
proof
  assume "claim_parse raw = Some c"
  then show "notification_wf c \<and> raw = claim_encode c"
    by (auto simp: claim_parse_def bind_Some_iff token_parse_Some result_parse_Some notification_wf_def
        claim_encode_def split_once_Some_iff split: if_splits)
next
  assume "notification_wf c \<and> raw = claim_encode c"
  then show "claim_parse raw = Some c"
    using result_length [of "nc_result c"] token_length [of "nc_token c"]
    by (simp add: claim_parse_def claim_encode_def notification_wf_def token_sep token_codec.dec_enc
        result_codec.dec_enc)
qed

interpretation claim_codec: codec claim_encode claim_parse notification_wf
  by unfold_locales (auto simp: claim_parse_Some)

section \<open>Blocked history and metadata\<close>

definition blocked_wf :: "blocked_history \<Rightarrow> bool" where
  "blocked_wf h = (chain_wf (bh_processes h) \<and> token_wf (bh_episode h) \<and> rid_valid (bh_record h))"

lemma show_flag: "show_nat (if b then 1 else 0) = (if b then ''1'' else ''0'')"
proof -
  have "show_nat 1 = ''1''" "show_nat 0 = ''0''" by code_simp+
  then show ?thesis by (cases b) (simp_all only: if_True if_False)
qed

lemma flag_parse_Some: "flag_parse v = Some b \<longleftrightarrow> v = show_nat (if b then 1 else 0)"
  unfolding show_flag by (cases b) (auto simp: flag_parse_def)

lemma split_four:
  assumes "c \<notin> set a" "c \<notin> set b" "c \<notin> set d" "c \<notin> set e"
  shows "split_on c (a @ [c] @ b @ [c] @ d @ [c] @ e) = [a, b, d, e]"
  using assms by simp

lemma blocked_parse_Some: "blocked_parse raw = Some h \<longleftrightarrow> blocked_wf h \<and> raw = blocked_encode h"
proof
  assume "blocked_parse raw = Some h"
  then obtain a b c d where "split_on (CHR ''|'') raw = [a, b, c, d]"
    and h: "chain_parse a = Some (bh_processes h)" "token_parse b = Some (bh_episode h)"
      "flag_parse c = Some (bh_acknowledged h)" "record_field d = Some (bh_record h)"
    by (auto simp: blocked_parse_def bind_Some_iff split: if_splits)
  then have "raw = join_with ''|'' [a, b, c, d]" by (intro split_on_eqD)
  with h show "blocked_wf h \<and> raw = blocked_encode h"
    by (auto simp: blocked_wf_def blocked_encode_def chain_parse_Some token_parse_Some
        flag_parse_Some record_field_Some)
next
  assume enc: "blocked_wf h \<and> raw = blocked_encode h"
  let ?flag = "show_nat (if bh_acknowledged h then 1 else 0)"
  have "split_on (CHR ''|'') raw
      = [chain_encode (bh_processes h), token_str (bh_episode h), ?flag, rid_str (bh_record h)]"
    using enc split_four [of "CHR ''|''" "chain_encode (bh_processes h)" "token_str (bh_episode h)"
        ?flag "rid_str (bh_record h)"]
    by (simp add: blocked_encode_def blocked_wf_def rid_str_sep token_sep)
  moreover have "flag_parse ?flag = Some (bh_acknowledged h)" by (simp add: flag_parse_Some)
  moreover have "record_field (rid_str (bh_record h)) = Some (bh_record h)"
    using enc by (simp add: record_field_Some blocked_wf_def)
  moreover have "length ?flag = 1" unfolding show_flag by simp
  ultimately show "blocked_parse raw = Some h"
    using enc chain_length [of "bh_processes h"] token_length [of "bh_episode h"]
      rid_valid_length [of "bh_record h"]
    by (simp add: blocked_parse_def blocked_wf_def blocked_encode_def chain_codec.dec_enc
        token_codec.dec_enc)
qed

interpretation blocked_codec: codec blocked_encode blocked_parse blocked_wf
  by unfold_locales (auto simp: blocked_parse_Some)

definition update_wf :: "metadata_update \<Rightarrow> bool" where
  "update_wf u =
     (token_wf (mu_token u) \<and> is_none_or (mu_evidence u) (\<lambda>e. metadata_at e \<le> u64_max))"

lemma split_three:
  assumes "c \<notin> set a" "c \<notin> set b" "c \<notin> set d"
  shows "split_on c (a @ [c] @ b @ [c] @ d) = [a, b, d]"
  using assms by simp

definition update_lane :: "metadata_update \<Rightarrow> string \<times> u64" where
  "update_lane u =
     (case mu_evidence u of
        Some (EvContext at) \<Rightarrow> (''c'', at) | Some (EvQuota at) \<Rightarrow> (''q'', at) | None \<Rightarrow> (''n'', 0))"

lemma update_encode_lane:
  "update_encode u = token_str (mu_token u) @ ''|'' @ fst (update_lane u) @ ''|'' @
     show_nat (snd (update_lane u))"
  by (simp add: update_encode_def update_lane_def split: option.split metadata_evidence.split)

lemma update_parse_Some: "update_parse raw = Some u \<longleftrightarrow> update_wf u \<and> raw = update_encode u"
proof
  assume "update_parse raw = Some u"
  then obtain a lane c where "split_on (CHR ''|'') raw = [a, lane, c]"
    and u: "token_parse a = Some (mu_token u)" "number c = Some (snd (update_lane u))"
      "lane = fst (update_lane u)"
      "is_none_or (mu_evidence u) (\<lambda>e. metadata_at e = snd (update_lane u))"
    by (auto simp: update_parse_def bind_Some_iff update_lane_def split: if_splits)
  then have "raw = join_with ''|'' [a, lane, c]" by (intro split_on_eqD)
  with u show "update_wf u \<and> raw = update_encode u"
    by (auto simp: update_wf_def update_encode_lane token_parse_Some number_Some is_none_or_iff)
next
  assume enc: "update_wf u \<and> raw = update_encode u"
  have lane: "snd (update_lane u) \<le> u64_max" "CHR ''|'' \<notin> set (fst (update_lane u))"
    "length (fst (update_lane u)) = 1"
    using enc by (auto simp: update_lane_def update_wf_def split: option.splits metadata_evidence.splits)
  have "split_on (CHR ''|'') raw = [token_str (mu_token u), fst (update_lane u), show_nat (snd (update_lane u))]"
    using enc lane(2) split_three [of "CHR ''|''" "token_str (mu_token u)" "fst (update_lane u)"]
    by (simp add: update_encode_lane update_wf_def token_sep)
  moreover have "length raw \<le> 56"
    using enc lane(1,3) show_nat_u64 [of "snd (update_lane u)"] token_length [of "mu_token u"]
    by (simp add: update_encode_lane update_wf_def)
  ultimately show "update_parse raw = Some u"
    using enc lane(1)
    by (cases u) (auto simp: update_parse_def update_wf_def token_codec.dec_enc update_lane_def
        split: option.splits metadata_evidence.splits)
qed

interpretation update_codec: codec update_encode update_parse update_wf
  by unfold_locales (auto simp: update_parse_Some)

subsection \<open>Hexadecimal\<close>

lemma hex_digit_hex: "n < 16 \<Longrightarrow> is_hex (hex_digit n)"
  by (auto simp: hex_digit_def is_hex_def is_digit_def byte_def)

lemma hex_val_digit: "n < 16 \<Longrightarrow> hex_val (hex_digit n) = n"
  by (auto simp: hex_digit_def hex_val_def is_digit_def byte_def)

lemma hex_digit_val: "is_hex c \<Longrightarrow> hex_digit (hex_val c) = c"
  by (auto simp: hex_digit_def hex_val_def is_hex_def is_digit_def byte_def)

lemma hex_val_less: "is_hex c \<Longrightarrow> hex_val c < 16"
  by (auto simp: hex_val_def is_hex_def is_digit_def)

lemma hex_decode_encode: "hex_decode (hex_encode s) = s"
proof (induction s)
  case (Cons c cs)
  have b: "byte c < 256" by simp
  have "char_of (16 * (byte c div 16) + byte c mod 16) = c"
    unfolding mult_div_mod_eq by (simp add: byte_def)
  with Cons b show ?case
    by (simp add: hex_encode_def hex_val_digit less_mult_imp_div_less)
qed (simp add: hex_encode_def)

lemma hex_encode_decode: "even (length s) \<Longrightarrow> list_all is_hex s \<Longrightarrow> hex_encode (hex_decode s) = s"
proof (induction s rule: hex_decode.induct)
  case (1 a b r)
  have bounds: "hex_val a < 16" "hex_val b < 16" using 1 by (simp_all add: hex_val_less)
  then have "byte (char_of (16 * hex_val a + hex_val b)) = 16 * hex_val a + hex_val b"
    by (simp add: byte_def)
  then show ?case
    using 1 bounds by (simp add: hex_encode_def hex_digit_val)
qed (simp_all add: hex_encode_def)

lemma hex_encode_props:
  "length (hex_encode s) = 2 * length s" "list_all is_hex (hex_encode s)"
  by (induction s) (auto simp: hex_encode_def hex_digit_hex less_mult_imp_div_less)

lemma hex_decode_length: "length (hex_decode s) = length s div 2"
  by (induction s rule: hex_decode.induct) auto

definition metadata_owner_wf :: "metadata_owner \<Rightarrow> bool" where
  "metadata_owner_wf w =
     (process_wf (mo_process w) \<and> mo_session w \<noteq> [] \<and> length (mo_session w) \<le> 1024
      \<and> valid_utf8 (mo_session w) \<and> \<not> has_control (mo_session w))"

lemma metadata_owner_parse_Some:
  "metadata_owner_parse raw = Some w \<longleftrightarrow> metadata_owner_wf w \<and> raw = metadata_owner_encode w"
proof
  assume "metadata_owner_parse raw = Some w"
  then obtain process session where "split_once (CHR ''|'') raw = Some (process, session)"
    and p: "parse_process (split_on (CHR '':'') process) = Some (mo_process w, [])"
    and s: "session \<noteq> []" "length session \<le> 2048" "even (length session)" "list_all is_hex session"
      "valid_utf8 (hex_decode session)" "\<not> has_control (hex_decode session)"
      "mo_session w = hex_decode session"
    by (auto simp: metadata_owner_parse_def bind_Some_iff even_iff_mod_2_eq_zero split: if_splits)
  then have raw: "raw = process @ CHR ''|'' # session" by (simp add: split_once_Some_iff)
  have "hex_decode session \<noteq> []"
    using s(1,3) by (cases session rule: hex_decode.cases) auto
  moreover from p have "parse_whole_process process = Some (mo_process w)"
    by (simp add: parse_whole_process_def)
  ultimately show "metadata_owner_wf w \<and> raw = metadata_owner_encode w"
    using s raw hex_encode_decode [of session]
    by (auto simp: metadata_owner_wf_def metadata_owner_encode_def parse_whole_process_Some
        hex_decode_length)
next
  assume enc: "metadata_owner_wf w \<and> raw = metadata_owner_encode w"
  then have "process_wf (mo_process w)" by (simp add: metadata_owner_wf_def)
  then have p: "parse_process (split_on (CHR '':'') (process_fields (mo_process w))) = Some (mo_process w, [])"
    by (simp add: split_process_fields parse_process_Some)
  have "hex_encode (mo_session w) \<noteq> []"
    using enc hex_encode_props(1) [of "mo_session w"] by (auto simp: metadata_owner_wf_def)
  with enc p process_fields_length [OF \<open>process_wf (mo_process w)\<close>] hex_encode_props [of "mo_session w"]
  show "metadata_owner_parse raw = Some w"
    by (auto simp: metadata_owner_parse_def metadata_owner_encode_def metadata_owner_wf_def
        hex_decode_encode)
qed

interpretation metadata_owner_codec:
  codec metadata_owner_encode metadata_owner_parse metadata_owner_wf
  by unfold_locales (auto simp: metadata_owner_parse_Some)

end
