(* ===== verification/Persistence_Properties.thy ===== *)
theory Persistence_Properties
  imports Persistence_Codecs
begin

text \<open>
  What the persistence protocol promises: canonical texts, a live projection exactly under a current
  lease with matching owner, commit and process, a private origin that fails closed, and a lease
  schedule without gaps whose revocation is terminal.
\<close>

section \<open>Canonical texts\<close>

text \<open>Every stored identity has exactly one text: the parsers of owners,
  commit markers, results, notification claims and blocked histories accept precisely the encodings
  of well-formed values, within the byte limits, and give the value back. So the guarded writes, which
  compare texts, compare owners and results.\<close>
theorem stored_texts_canonical:
  "(owner_parse raw = Some w \<longleftrightarrow> owner_wf w \<and> raw = owner_encode w)
   \<and> (commit_parse raw = Some c \<longleftrightarrow> commit_wf c \<and> raw = commit_encode c)
   \<and> (result_parse raw = Some r \<longleftrightarrow> result_wf r \<and> raw = result_encode r)
   \<and> (claim_parse raw = Some n \<longleftrightarrow> notification_wf n \<and> raw = claim_encode n)
   \<and> (blocked_parse raw = Some h \<longleftrightarrow> blocked_wf h \<and> raw = blocked_encode h)"
  by (simp add: owner_codec.dec_iff commit_codec.dec_iff result_codec.dec_iff claim_codec.dec_iff
      blocked_codec.dec_iff)

section \<open>The projection\<close>

lemma bind_parse_Some:
  "Option.bind (opts k) parse = Some x \<longleftrightarrow> (\<exists>raw. opts k = Some raw \<and> parse raw = Some x)"
  by (cases "opts k") auto

lemma bind_codec:
  "Option.bind (opts k) owner_parse = Some w \<longleftrightarrow> owner_wf w \<and> opts k = Some (owner_encode w)"
  "Option.bind (opts k) commit_parse = Some c \<longleftrightarrow> commit_wf c \<and> opts k = Some (commit_encode c)"
  "Option.bind (opts k) lease_parse = Some l \<longleftrightarrow> lease_wf l \<and> opts k = Some (lease_encode l)"
  by (auto simp: bind_parse_Some owner_codec.dec_iff commit_codec.dec_iff lease_codec.dec_iff)

text \<open>Parsed commits belong to nonempty origins, so the origin flag follows from the texts.\<close>

lemma owner_encode_not_Nil [simp]: "owner_encode w \<noteq> []"
  by (simp add: owner_encode_def)

lemma projection_live:
  "read_projection opts now = Inr (PLive stamp owner commit) \<longleftrightarrow>
     pm_owner (metadata_from_options opts) = Some owner
     \<and> pm_commit (metadata_from_options opts) = Some commit
     \<and> opts OPT_ORIGIN = Some ''1'' \<and> cm_owner commit = owner
     \<and> (\<exists>lease. pm_lease (metadata_from_options opts) = Some lease
          \<and> cl_token lease = po_collector owner \<and> lease_live_at lease now)
     \<and> from_options opts = Inr (Some (Settled stamp))
     \<and> sp_pid stamp = pi_pid (chain_agent (po_processes owner)) \<and> sp_source stamp = Hook"
proof (cases "pm_program_origin (metadata_from_options opts)")
  case False
  then have "opts OPT_ORIGIN \<noteq> Some ''1''"
    by (auto simp: metadata_from_options_def)
  moreover from False have "read_projection opts now = map_sum id PLegacy (from_options opts)"
    by (simp add: read_projection_def projection_def)
  ultimately show ?thesis by (cases "from_options opts") auto
next
  case True
  have origin: "pm_origin_complete (metadata_from_options opts) \<longleftrightarrow> opts OPT_ORIGIN = Some ''1''"
    by (simp add: metadata_from_options_def)
  let ?m = "metadata_from_options opts"
  show ?thesis
  proof (cases "\<exists>w c l. pm_owner ?m = Some w \<and> pm_commit ?m = Some c \<and> pm_lease ?m = Some l")
    case False
    then show ?thesis
      using True
      by (cases "pm_owner ?m"; cases "pm_commit ?m"; cases "pm_lease ?m")
        (simp_all add: read_projection_def projection_def)
  next
    case parsed: True
    then obtain w c l where wcl: "pm_owner ?m = Some w" "pm_commit ?m = Some c" "pm_lease ?m = Some l"
      by blast
    define body where "body = sum_bind (from_options opts) (\<lambda>read.
                 case read of
                   Some (Settled stamp) \<Rightarrow>
                     if sp_pid stamp = pi_pid (chain_agent (po_processes w)) \<and> sp_source stamp = Hook
                     then Inr (PLive stamp w c) else Inr PStale
                 | _ \<Rightarrow> Inr PStale)"
    have read: "read_projection opts now
        = (if opts OPT_ORIGIN \<noteq> Some ''1'' \<or> cm_owner c \<noteq> w \<or> cl_token l \<noteq> po_collector w
              \<or> \<not> lease_live_at l now then Inr PStale
           else body)"
      using True wcl by (simp add: read_projection_def projection_def origin body_def)
    have settle: "body = Inr (PLive stamp owner commit)
        \<longleftrightarrow> from_options opts = Inr (Some (Settled stamp)) \<and> owner = w \<and> commit = c
            \<and> sp_pid stamp = pi_pid (chain_agent (po_processes w)) \<and> sp_source stamp = Hook"
    proof (cases "from_options opts")
      case (Inr r)
      show ?thesis
      proof (cases r)
        case (Some rr)
        with Inr show ?thesis by (cases rr) (auto simp: body_def)
      qed (simp add: Inr body_def)
    qed (simp add: body_def)
    show ?thesis
      unfolding read if_distrib [of "\<lambda>x. x = Inr (PLive stamp owner commit)"] settle
      by (auto simp: wcl)
  qed
qed

text \<open>C20 (live_projection_iff). A pane's options are projected as live program state exactly when all of
  these hold: the owner and commit texts are canonical encodings and the commit marker names that
  very owner, the origin is complete, the server holds a canonical lease of the owner's collector
  that is unexpired and not further in the future than a lease can be, and the public tuple is
  settled, hook-sourced and stamped with the pid of the last process of the owner's chain.\<close>
theorem live_projection_iff:
  "read_projection opts now = Inr (PLive stamp owner commit) \<longleftrightarrow>
     owner_wf owner \<and> opts OPT_OWNER = Some (owner_encode owner)
     \<and> token_wf (cm_write commit) \<and> opts OPT_COMMIT = Some (commit_encode commit)
     \<and> cm_owner commit = owner \<and> opts OPT_ORIGIN = Some ''1''
     \<and> (\<exists>expires. now < expires \<and> expires \<le> sat_add now 17000 \<and> expires \<le> u64_max
          \<and> opts OPT_COLLECTOR = Some (show_nat expires @ '':'' @ token_str (po_collector owner)))
     \<and> from_options opts = Inr (Some (Settled stamp))
     \<and> sp_pid stamp = pi_pid (chain_agent (po_processes owner)) \<and> sp_source stamp = Hook"
proof -
  have lease: "(\<exists>lease. Option.bind (opts OPT_COLLECTOR) lease_parse = Some lease
        \<and> cl_token lease = po_collector owner \<and> lease_live_at lease now)
    \<longleftrightarrow> (\<exists>expires. now < expires \<and> expires \<le> sat_add now 17000 \<and> expires \<le> u64_max
        \<and> opts OPT_COLLECTOR = Some (show_nat expires @ '':'' @ token_str (po_collector owner)))"
    if "owner_wf owner"
  proof
    assume "\<exists>lease. Option.bind (opts OPT_COLLECTOR) lease_parse = Some lease
        \<and> cl_token lease = po_collector owner \<and> lease_live_at lease now"
    then obtain lease where "lease_wf lease" "opts OPT_COLLECTOR = Some (lease_encode lease)"
      "cl_token lease = po_collector owner" "lease_live_at lease now"
      by (auto simp: bind_codec)
    then show "\<exists>expires. now < expires \<and> expires \<le> sat_add now 17000 \<and> expires \<le> u64_max
        \<and> opts OPT_COLLECTOR = Some (show_nat expires @ '':'' @ token_str (po_collector owner))"
      by (intro exI [of _ "cl_expires_at lease"])
        (simp add: lease_encode_def lease_live_at_def lease_wf_def LEASE_FUTURE_MS_def)
  next
    assume "\<exists>expires. now < expires \<and> expires \<le> sat_add now 17000 \<and> expires \<le> u64_max
        \<and> opts OPT_COLLECTOR = Some (show_nat expires @ '':'' @ token_str (po_collector owner))"
    then obtain expires where "now < expires" "expires \<le> sat_add now 17000" "expires \<le> u64_max"
      "opts OPT_COLLECTOR = Some (show_nat expires @ '':'' @ token_str (po_collector owner))" by blast
    with that show "\<exists>lease. Option.bind (opts OPT_COLLECTOR) lease_parse = Some lease
        \<and> cl_token lease = po_collector owner \<and> lease_live_at lease now"
      unfolding bind_codec
      by (intro exI [of _ "\<lparr>cl_token = po_collector owner, cl_expires_at = expires\<rparr>"])
        (simp add: lease_encode_def lease_live_at_def lease_wf_def owner_wf_def LEASE_FUTURE_MS_def)
  qed
  show ?thesis
  proof (cases "owner_wf owner")
    case True
    with lease [OF True] show ?thesis
      unfolding projection_live
      by (auto simp: metadata_from_options_def bind_codec commit_wf_def)
  next
    case False
    then show ?thesis
      unfolding projection_live by (auto simp: metadata_from_options_def bind_codec)
  qed
qed

text \<open>C21 (private_origin_fails_closed). Once a pane carries any private program marker, its hook-like
  tuple is never again read as a legacy hook claim: at every instant the projection is live, stale
  or an error of the tuple, and from the expiry of the stored lease on it is stale, so the pane has
  no current stamp.\<close>
theorem private_origin_fails_closed:
  assumes "opts key = Some v" and "v \<noteq> []" and "key \<in> {OPT_ORIGIN, OPT_OWNER, OPT_COMMIT}"
  shows "read_projection opts now \<noteq> Inr (PLegacy read)
    \<and> (\<forall>lease. Option.bind (opts OPT_COLLECTOR) lease_parse = Some lease \<longrightarrow> cl_expires_at lease \<le> now
          \<longrightarrow> current_stamp opts now = Inr None)"
proof -
  have origin: "pm_program_origin (metadata_from_options opts)"
    using assms by (auto simp: metadata_from_options_def)
  have "read_projection opts now \<noteq> Inr (PLegacy read)"
    using origin
    by (auto simp: read_projection_def projection_def sum_bind_Inr split: option.splits
        read_result.splits if_splits)
  moreover have "read_projection opts now = Inr PStale"
    if "Option.bind (opts OPT_COLLECTOR) lease_parse = Some lease" "cl_expires_at lease \<le> now" for lease
  proof -
    from that(1) have "pm_lease (metadata_from_options opts) = Some lease"
      by (simp add: metadata_from_options_def)
    with origin that(2) show ?thesis
      by (auto simp: read_projection_def projection_def lease_live_at_def split: option.splits)
  qed
  ultimately show ?thesis by (auto simp: current_stamp_def)
qed

definition sample_options :: options where
  "sample_options = (\<lambda>_. None)(OPT_STATE \<mapsto> ''working'', OPT_SOURCE \<mapsto> ''hook'', OPT_ORIGIN \<mapsto> ''1'',
     OPT_COLLECTOR \<mapsto> ''1700000015000:0123456789abcdef0123456789abcdef'')"

theorem private_origin_fails_closed_witness:
  "read_projection sample_options 1700000000000 \<noteq> Inr (PLegacy None)
   \<and> current_stamp sample_options 1700000015000 = Inr None"
proof -
  have 1: "sample_options OPT_ORIGIN = Some ''1''" by code_simp
  have 2: "Option.bind (sample_options OPT_COLLECTOR) lease_parse
      = Some \<lparr>cl_token = Token ''0123456789abcdef0123456789abcdef'', cl_expires_at = 1700000015000\<rparr>"
    by code_simp
  show ?thesis
    using private_origin_fails_closed [of sample_options OPT_ORIGIN "''1''"] 1 2 by simp
qed

section \<open>The lease schedule\<close>

lemma clocks_agree_iff:
  "clocks_agree earlier later \<longleftrightarrow>
     lt_monotonic earlier \<le> lt_monotonic later \<and> lt_epoch earlier \<le> lt_epoch later
     \<and> lt_monotonic later - lt_monotonic earlier \<le> lt_epoch later - lt_epoch earlier + CLOCK_SLACK_MS
     \<and> lt_epoch later - lt_epoch earlier \<le> lt_monotonic later - lt_monotonic earlier + CLOCK_SLACK_MS"
  by (auto simp: clocks_agree_def checked_sub_def abs_diff_def)

lemma lease_step_cases:
  assumes "lease_step at s = (a, s')"
  obtains (revoke) "a = LRevoke" "s' = s\<lparr>ls_revoked := True\<rparr>"
  | (alive) "a \<noteq> LRevoke" "s' = s" "\<not> ls_revoked s" "clocks_agree (ls_last s) at"
      "lt_monotonic at < lt_monotonic (ls_last s) + LEASE_DURATION_MS"
      "a = LWait \<longleftrightarrow> lt_monotonic at < lt_monotonic (ls_last s) + LEASE_RENEW_MS"
  using assms
  by (auto simp: lease_step_def Let_def clocks_agree_iff checked_sub_def split: if_splits)

text \<open>A confirmed renewal leaves no gap: neither clock went backwards
  and they agree within the slack, the write completed before the previous lease ran out on the
  monotonic clock, the renewal was due, and the new deadline is anchored at the submission of the
  write and not at its later completion; a refused confirmation does not move the anchor.\<close>
theorem lease_confirm_continuity:
  "case lease_confirm submission completion s of
     (True, s') \<Rightarrow>
       ls_last s' = submission \<and> \<not> ls_revoked s' \<and> \<not> ls_revoked s
       \<and> lt_monotonic (ls_last s) + 5000 \<le> lt_monotonic submission
       \<and> lt_monotonic submission \<le> lt_monotonic completion
       \<and> lt_monotonic completion < lt_monotonic (ls_last s) + 15000
       \<and> lt_epoch submission \<le> lt_epoch completion
       \<and> lt_epoch completion < lt_epoch (ls_last s) + 17000
   | (False, s') \<Rightarrow> ls_last s' = ls_last s"
proof (cases "clocks_agree submission completion")
  case False
  then show ?thesis by (simp add: lease_confirm_def)
next
  case True
  obtain a s1 where 1: "lease_step completion s = (a, s1)" by fastforce
  then show ?thesis
  proof (cases rule: lease_step_cases)
    case revoke
    with True 1 show ?thesis by (simp add: lease_confirm_def)
  next
    case alive
    obtain b s2 where 2: "lease_step submission s = (b, s2)" by fastforce
    from alive 1 2 True have confirm: "lease_confirm submission completion s
        = (case b of LRenew _ \<Rightarrow> (True, s2\<lparr>ls_last := submission\<rparr>) | _ \<Rightarrow> (False, s2))"
      by (simp add: lease_confirm_def split: lease_action.splits)
    from 2 show ?thesis
    proof (cases rule: lease_step_cases)
      case revoke2: revoke
      with confirm show ?thesis by simp
    next
      case alive2: alive
      have "lt_epoch completion < lt_epoch (ls_last s) + 17000"
        using alive(4,5) unfolding clocks_agree_iff LEASE_DURATION_MS_def CLOCK_SLACK_MS_def by linarith
      with confirm alive alive2 True show ?thesis
        by (cases b) (simp_all add: clocks_agree_iff LEASE_RENEW_MS_def LEASE_DURATION_MS_def)
    qed
  qed
qed

text \<open>The calls of one collector on its schedule.\<close>

datatype schedule_call = CAction lease_time | CConfirm lease_time lease_time

fun lease_call :: "schedule_call \<Rightarrow> lease_schedule \<Rightarrow> bool \<times> lease_schedule" where
  "lease_call (CAction at) s = (case lease_step at s of (a, s') \<Rightarrow> (a \<noteq> LRevoke, s'))"
| "lease_call (CConfirm sub finish) s = lease_confirm sub finish s"

fun lease_calls :: "schedule_call list \<Rightarrow> lease_schedule \<Rightarrow> bool list \<times> lease_schedule" where
  "lease_calls [] s = ([], s)"
| "lease_calls (c # cs) s =
     (case lease_call c s of (b, s1) \<Rightarrow> case lease_calls cs s1 of (bs, s2) \<Rightarrow> (b # bs, s2))"

lemma lease_call_revoked:
  assumes "ls_revoked s"
  shows "\<exists>s'. lease_call c s = (False, s') \<and> ls_revoked s'"
proof -
  have step: "lease_step at s = (LRevoke, s\<lparr>ls_revoked := True\<rparr>)" for at
    using assms by (simp add: lease_step_def)
  show ?thesis by (cases c) (simp_all add: step lease_confirm_def)
qed

text \<open>Revocation is terminal: once a schedule was revoked, by a clock
  that went backwards, clocks that disagree or a lease that ran out, every later call on it, in any
  order and at any time, answers to revoke or refuses, so the collector can only start over with a
  fresh token.\<close>
theorem lease_revocation_terminal:
  assumes "ls_revoked s"
  shows "ls_revoked (snd (lease_calls cs s)) \<and> list_all (\<lambda>b. \<not> b) (fst (lease_calls cs s))"
  using assms
proof (induction cs arbitrary: s)
  case (Cons c cs)
  obtain s1 where "lease_call c s = (False, s1)" "ls_revoked s1"
    using lease_call_revoked [OF Cons.prems] by blast
  with Cons.IH [of s1] show ?case by (auto split: prod.split)
qed simp

theorem lease_revocation_terminal_witness:
  "\<not> hd (fst (lease_calls [CAction \<lparr>lt_monotonic = 6000, lt_epoch = 1700000006000\<rparr>]
       (snd (lease_step \<lparr>lt_monotonic = 5000, lt_epoch = 1700000009000\<rparr>
          (lease_committed \<lparr>lt_monotonic = 0, lt_epoch = 1700000000000\<rparr>)))))"
proof -
  let ?s = "snd (lease_step \<lparr>lt_monotonic = 5000, lt_epoch = 1700000009000\<rparr>
          (lease_committed \<lparr>lt_monotonic = 0, lt_epoch = 1700000000000\<rparr>))"
  have "ls_revoked ?s" by code_simp
  from lease_revocation_terminal [OF this,
      of "[CAction \<lparr>lt_monotonic = 6000, lt_epoch = 1700000006000\<rparr>]"]
  show ?thesis by (simp split: prod.splits)
qed

end
