(* ===== verification/Render.thy ===== *)
theory Render
  imports Projection
begin

text \<open>
  The rendering of writes into chained \<open>tmux set-option\<close> commands (\<open>render.rs\<close>): guards and their
  client-side mirror, the guarded and the advisory publish, holds, metric and quota chains, notify
  markers, removals and the summary rollup. Definitions only. A command is its argument vector; what
  tmux does with it is not defined here.
\<close>

section \<open>Commands and quoting\<close>

record stamp_command =
  sc_argv :: "string list"

definition argv :: "string list \<Rightarrow> stamp_command" where
  "argv xs = \<lparr>sc_argv = xs\<rparr>"

definition NEWLINE :: char where "NEWLINE = CHR 0x0A"
definition QUOTE :: char where "QUOTE = CHR 0x27"
definition BACKSLASH :: char where "BACKSLASH = CHR 0x5C"

text \<open>\<open>replace\<close> of the quote, then of the newline.\<close>

definition quote_tmux_argument :: "string \<Rightarrow> string" where
  "quote_tmux_argument v =
     [QUOTE] @
     concat (map (\<lambda>c. if c = NEWLINE then [QUOTE, BACKSLASH] @ ''012'' @ [QUOTE] else [c])
       (concat (map (\<lambda>c. if c = QUOTE then [QUOTE, BACKSLASH, QUOTE, QUOTE] else [c]) v)))
     @ [QUOTE]"

definition literal_tmux_format :: "string \<Rightarrow> string" where
  "literal_tmux_format v =
     ''#{l:'' @ concat (map (\<lambda>c. if c \<in> {CHR ''#'', CHR ''}'', CHR '',''} then [CHR ''#'', c] else [c]) v) @ ''}''"

definition conditional_group :: "string \<Rightarrow> string \<Rightarrow> stamp_command list \<Rightarrow> stamp_command" where
  "conditional_group pane predicate body =
     argv [''if-shell'', ''-F'', ''-t'', pane, predicate,
       join_with '' ; '' (map (\<lambda>c. join_with '' '' (map quote_tmux_argument (sc_argv c))) body)]"

section \<open>Guards\<close>

datatype guard =
    Unconditional
  | ProtectHook
  | CarveOut u64
  | RefreshClaim agent_state
  | HookArbitrate u64

definition lookup_fmt :: "string \<Rightarrow> string" where
  "lookup_fmt key = ''#{'' @ key @ ''}''"

fun suppress_expr :: "guard \<Rightarrow> string" where
  "suppress_expr Unconditional = ''0''"
| "suppress_expr ProtectHook = ''#{==:'' @ lookup_fmt OPT_SOURCE @ '',hook}''"
| "suppress_expr (CarveOut capture_at) =
     ''#{&&:#{==:'' @ lookup_fmt OPT_SOURCE @ '',hook},#{e|<=:'' @ show_nat capture_at @ '','' @
     lookup_fmt OPT_EVIDENCE_AT @ ''}}''"
| "suppress_expr (RefreshClaim st) =
     ''#{?#{==:'' @ lookup_fmt OPT_STATE @ '','' @ state_token st @ ''},0,1}''"
| "suppress_expr (HookArbitrate evidence_at) =
     ''#{&&:#{==:'' @ lookup_fmt OPT_SOURCE @ '',hook},#{e|<:'' @ show_nat evidence_at @ '','' @
     lookup_fmt OPT_EVIDENCE_AT @ ''}}''"

fun suppresses :: "guard \<Rightarrow> stamped_state option \<Rightarrow> bool" where
  "suppresses Unconditional prev = False"
| "suppresses ProtectHook prev = is_some_and prev (\<lambda>p. sp_source p = Hook)"
| "suppresses (CarveOut capture_at) prev =
     is_some_and prev (\<lambda>p. sp_source p = Hook \<and> capture_at \<le> sp_evidence_at p)"
| "suppresses (RefreshClaim st) prev = is_none_or prev (\<lambda>p. sp_state p \<noteq> st)"
| "suppresses (HookArbitrate evidence_at) prev =
     is_some_and prev (\<lambda>p. sp_source p = Hook \<and> evidence_at < sp_evidence_at p)"

section \<open>Publishing\<close>

record write_publish =
  wr_pane_id :: string
  wr_state :: agent_state
  wr_detail :: "detail option"
  wr_source :: provenance
  wr_evidence_at :: u64
  wr_since :: u64
  wr_stamped_at :: u64
  wr_hash :: "u64 option"
  wr_pid :: u32
  wr_name :: string
  wr_set_attention :: bool
  wr_episode_reset :: bool
  wr_guard :: guard

definition set_fmt :: "string \<Rightarrow> string \<Rightarrow> string \<Rightarrow> stamp_command" where
  "set_fmt pane key value = argv [''set-option'', ''-p'', ''-F'', ''-t'', pane, key, value]"

definition set_plain :: "string \<Rightarrow> string \<Rightarrow> string \<Rightarrow> stamp_command" where
  "set_plain pane key value = argv [''set-option'', ''-p'', ''-t'', pane, key, value]"

definition unset_pane :: "string \<Rightarrow> string \<Rightarrow> stamp_command" where
  "unset_pane pane key = argv [''set-option'', ''-p'', ''-u'', ''-t'', pane, key]"

definition guarded :: "string \<Rightarrow> string \<Rightarrow> string \<Rightarrow> string" where
  "guarded suppress key new_value =
     ''#{?'' @ suppress @ '','' @ lookup_fmt key @ '','' @ new_value @ ''}''"

definition safe_detail :: "string \<Rightarrow> string" where
  "safe_detail detail =
     (if list_ex (\<lambda>b. b \<in> {CHR ''#'', CHR ''{'', CHR ''}'', CHR '',''} \<or> is_ascii_ws b \<or> is_ascii_control b)
           detail
      then [] else detail)"

text \<open>The two groups of commands that both renderings share.\<close>

definition set_detail :: "write_publish \<Rightarrow> stamp_command" where
  "set_detail p =
     (case wr_detail p of Some d \<Rightarrow> set_plain (wr_pane_id p) OPT_DETAIL d
      | None \<Rightarrow> unset_pane (wr_pane_id p) OPT_DETAIL)"

definition reset_commands :: "write_publish \<Rightarrow> stamp_command list" where
  "reset_commands p =
     (let t = wr_pane_id p in
      [set_plain t OPT_SINCE (show_nat (wr_since p)),
       set_plain t OPT_STATE (state_token (wr_state p)),
       set_detail p,
       set_plain t OPT_SOURCE (provenance_token (wr_source p)),
       set_plain t OPT_EVIDENCE_AT (show_nat (wr_evidence_at p)),
       (if wr_set_attention p then set_plain t OPT_ATTENTION ''1'' else unset_pane t OPT_ATTENTION),
       unset_pane t OPT_NOTIFIED_AT,
       unset_pane t OPT_TURN_AT])"

definition freshness_commands :: "write_publish \<Rightarrow> stamp_command list" where
  "freshness_commands p =
     (let t = wr_pane_id p in
      (case wr_hash p of None \<Rightarrow> [] | Some h \<Rightarrow> [set_plain t OPT_HASH (show_nat h)])
      @ [set_plain t OPT_PID (show_nat (wr_pid p))]
      @ (if wr_name p = [] then [] else [set_plain t OPT_NAME (wr_name p)])
      @ [set_plain t OPT_STAMPED_AT (show_nat (wr_stamped_at p))])"

definition since_once_fmt :: "write_publish \<Rightarrow> string" where
  "since_once_fmt p =
     ''#{?#{&&:#{==:'' @ lookup_fmt OPT_STATE @ '','' @ state_token (wr_state p) @ ''},#{e|<=:'' @
     lookup_fmt OPT_SINCE @ '','' @ show_nat (sat_add (wr_stamped_at p) CLOCK_STEP_SKEW_MS) @
     ''}},'' @ lookup_fmt OPT_SINCE @ '','' @ show_nat (wr_since p) @ ''}''"

definition render_publish :: "write_publish \<Rightarrow> stamp_command list" where
  "render_publish p =
     (let t = wr_pane_id p;
          suppress = suppress_expr (wr_guard p);
          detail_new = safe_detail (case wr_detail p of None \<Rightarrow> [] | Some d \<Rightarrow> d)
      in (if wr_episode_reset p then reset_commands p
          else
            [set_fmt t OPT_SINCE (guarded suppress OPT_SINCE (since_once_fmt p)),
             set_fmt t OPT_STATE (guarded suppress OPT_STATE (state_token (wr_state p))),
             set_fmt t OPT_DETAIL (guarded suppress OPT_DETAIL detail_new),
             set_fmt t OPT_SOURCE (guarded suppress OPT_SOURCE (provenance_token (wr_source p))),
             set_fmt t OPT_EVIDENCE_AT (guarded suppress OPT_EVIDENCE_AT (show_nat (wr_evidence_at p)))]
            @ (if wr_set_attention p
               then [set_fmt t OPT_ATTENTION (guarded suppress OPT_ATTENTION ''1'')] else []))
         @ freshness_commands p)"

record row_projection =
  rp_state :: agent_state
  rp_since :: u64
  rp_attention :: bool

definition project_publish :: "stamped_state option \<Rightarrow> write_publish \<Rightarrow> row_projection" where
  "project_publish prev p =
     (if \<not> wr_episode_reset p \<and> suppresses (wr_guard p) prev then
        (case prev of
           Some held \<Rightarrow> \<lparr>rp_state = sp_state held, rp_since = sp_since held,
                         rp_attention = sp_attention held\<rparr>
         | None \<Rightarrow> \<lparr>rp_state = wr_state p, rp_since = wr_since p, rp_attention = wr_set_attention p\<rparr>)
      else
        \<lparr>rp_state = wr_state p,
         rp_since =
           (case prev of
              Some q \<Rightarrow>
                if \<not> wr_episode_reset p \<and> sp_state q = wr_state p
                   \<and> \<not> since_clock_stepped (sp_since q) (wr_stamped_at p)
                then sp_since q else wr_since p
            | None \<Rightarrow> wr_since p),
         rp_attention =
           (wr_set_attention p \<or> (\<not> wr_episode_reset p \<and> is_some_and prev sp_attention))\<rparr>)"

definition render_publish_advisory ::
  "write_publish \<Rightarrow> agent_state option \<Rightarrow> u64 \<Rightarrow> stamp_command list" where
  "render_publish_advisory p prev_state prev_since =
     (let t = wr_pane_id p in
      (if wr_episode_reset p then reset_commands p
       else
         let since = (if prev_state = Some (wr_state p)
                         \<and> \<not> since_clock_stepped prev_since (wr_stamped_at p)
                      then prev_since else wr_since p)
         in [set_plain t OPT_SINCE (show_nat since),
             set_plain t OPT_STATE (state_token (wr_state p)),
             set_detail p,
             set_plain t OPT_SOURCE (provenance_token (wr_source p)),
             set_plain t OPT_EVIDENCE_AT (show_nat (wr_evidence_at p))]
            @ (if wr_set_attention p then [set_plain t OPT_ATTENTION ''1''] else []))
      @ freshness_commands p)"

definition set_pane_option :: "string \<Rightarrow> string \<Rightarrow> string \<Rightarrow> stamp_command" where
  "set_pane_option pane key value = set_plain pane key value"

definition set_server_option :: "string \<Rightarrow> string \<Rightarrow> stamp_command" where
  "set_server_option key value = argv [''set-option'', ''-s'', key, value]"

definition set_pane_option_guarded :: "string \<Rightarrow> string \<Rightarrow> guard \<Rightarrow> string \<Rightarrow> stamp_command" where
  "set_pane_option_guarded pane key g value = set_fmt pane key (guarded (suppress_expr g) key value)"

definition unset_pane_option :: "string \<Rightarrow> string \<Rightarrow> stamp_command" where
  "unset_pane_option pane key = unset_pane pane key"

definition render_hold :: "string \<Rightarrow> u64 \<Rightarrow> u64 option \<Rightarrow> stamp_command list" where
  "render_hold pane stamped_at hash =
     (case hash of None \<Rightarrow> [] | Some h \<Rightarrow> [set_plain pane OPT_HASH (show_nat h)])
     @ [set_plain pane OPT_STAMPED_AT (show_nat stamped_at)]"

section \<open>Metrics and markers\<close>

definition opt_text :: "('a \<Rightarrow> string) \<Rightarrow> 'a option \<Rightarrow> string" where
  "opt_text f m = (case m of None \<Rightarrow> [] | Some x \<Rightarrow> f x)"

definition set_or_unset :: "string \<Rightarrow> string \<Rightarrow> string option \<Rightarrow> stamp_command" where
  "set_or_unset pane key v = (case v of Some x \<Rightarrow> set_plain pane key x | None \<Rightarrow> unset_pane pane key)"

definition context_suppress_expr :: "u64 \<Rightarrow> string" where
  "context_suppress_expr evidence_at =
     ''#{e|>:'' @ lookup_fmt OPT_CONTEXT_AT @ '','' @ show_nat evidence_at @ ''}''"

definition render_context :: "string \<Rightarrow> u8 option \<Rightarrow> u64 option \<Rightarrow> u64 \<Rightarrow> stamp_command list" where
  "render_context pane pct tokens evidence_at =
     map (\<lambda>(key, v). set_fmt pane key (guarded (context_suppress_expr evidence_at) key v))
       [(OPT_CONTEXT_PCT, opt_text show_nat pct),
        (OPT_TOKENS, opt_text show_nat tokens),
        (OPT_TOKENS_AT, opt_text (\<lambda>_. show_nat evidence_at) tokens),
        (OPT_CONTEXT_AT, show_nat evidence_at)]"

definition render_context_advisory ::
  "string \<Rightarrow> u8 option \<Rightarrow> u64 option \<Rightarrow> u64 \<Rightarrow> stamp_command list" where
  "render_context_advisory pane pct tokens evidence_at =
     [set_or_unset pane OPT_CONTEXT_PCT (map_option show_nat pct),
      set_or_unset pane OPT_TOKENS (map_option show_nat tokens),
      set_or_unset pane OPT_TOKENS_AT (map_option (\<lambda>_. show_nat evidence_at) tokens),
      set_plain pane OPT_CONTEXT_AT (show_nat evidence_at)]"

record quota_stamp =
  qs_pct :: "u8 option"
  qs_window :: "string option"
  qs_resets_at_ms :: "u64 option"
  qs_cost_usd :: "string option"

definition quota_suppress_expr :: "u64 \<Rightarrow> string" where
  "quota_suppress_expr evidence_at =
     ''#{e|>:'' @ lookup_fmt OPT_QUOTA_AT @ '','' @ show_nat evidence_at @ ''}''"

definition quota_fields :: "quota_stamp \<Rightarrow> (string \<times> string option) list" where
  "quota_fields q =
     [(OPT_QUOTA_PCT, map_option show_nat (qs_pct q)), (OPT_QUOTA_WINDOW, qs_window q),
      (OPT_QUOTA_RESETS_AT, map_option show_nat (qs_resets_at_ms q)), (OPT_COST_USD, qs_cost_usd q)]"

definition render_quota :: "string \<Rightarrow> quota_stamp \<Rightarrow> u64 \<Rightarrow> stamp_command list" where
  "render_quota pane q evidence_at =
     map (\<lambda>(key, v). set_fmt pane key (guarded (quota_suppress_expr evidence_at) key (opt_text id v)))
       (quota_fields q)
     @ [set_fmt pane OPT_QUOTA_AT
          (guarded (quota_suppress_expr evidence_at) OPT_QUOTA_AT (show_nat evidence_at))]"

definition render_quota_advisory :: "string \<Rightarrow> quota_stamp \<Rightarrow> u64 \<Rightarrow> stamp_command list" where
  "render_quota_advisory pane q evidence_at =
     map (\<lambda>(key, v). set_or_unset pane key v) (quota_fields q)
     @ [set_plain pane OPT_QUOTA_AT (show_nat evidence_at)]"

definition render_notify_arm :: "string \<Rightarrow> string \<Rightarrow> u64 \<Rightarrow> stamp_command" where
  "render_notify_arm pane key now =
     set_fmt pane key
       (''#{?#{==:'' @ lookup_fmt key @ '',},'' @ show_nat now @ '','' @ lookup_fmt key @ ''}'')"

definition render_notify_arm_advisory :: "string \<Rightarrow> string \<Rightarrow> u64 \<Rightarrow> stamp_command" where
  "render_notify_arm_advisory pane key now = set_plain pane key (show_nat now)"

definition render_notify_rearm :: "string \<Rightarrow> string \<Rightarrow> stamp_command" where
  "render_notify_rearm pane key = unset_pane pane key"

section \<open>Removals\<close>

definition REMOVABLE :: "string list" where
  "REMOVABLE = [OPT_STATE, OPT_DETAIL, OPT_SOURCE, OPT_EVIDENCE_AT, OPT_SINCE, OPT_STAMPED_AT,
     OPT_ATTENTION, OPT_NOTIFIED_AT, OPT_TURN_AT, OPT_HASH, OPT_PID, OPT_NAME, OPT_SESSION,
     OPT_TRANSCRIPT, OPT_SUBAGENTS, OPT_CONTEXT_PCT, OPT_CONTEXT_AT, OPT_TOKENS, OPT_TOKENS_AT,
     OPT_CONTEXT_NOTIFIED_AT, OPT_STALL_NOTIFIED_AT, OPT_QUOTA_PCT, OPT_QUOTA_WINDOW,
     OPT_QUOTA_RESETS_AT, OPT_QUOTA_AT, OPT_COST_USD, OPT_MODEL, OPT_PERMISSION_REQUEST,
     OPT_QUESTION_REQUEST, OPT_PENDING_TOOL, OPT_PENDING_CALL, OPT_PENDING_SUMMARY,
     OPT_API_ENDPOINT, OPT_TITLE_MATCH_PID, OPT_REG_DEAD_SINCE]"

definition render_remove :: "string \<Rightarrow> stamp_command list" where
  "render_remove pane = map (unset_pane pane) REMOVABLE"

definition SESSION_LANE :: "string list" where
  "SESSION_LANE = [OPT_SESSION, OPT_TRANSCRIPT, OPT_SUBAGENTS, OPT_PERMISSION_REQUEST,
     OPT_QUESTION_REQUEST, OPT_PENDING_TOOL, OPT_PENDING_CALL, OPT_PENDING_SUMMARY]"

definition render_end_session :: "string \<Rightarrow> stamp_command list" where
  "render_end_session pane = map (unset_pane pane) SESSION_LANE"

definition PURGEABLE :: "string list" where
  "PURGEABLE = [OPT_ACTION, OPT_WATCH_PID, OPT_MUTE_UNTIL]"

section \<open>The summary rollup\<close>

definition state_count :: "agent_state \<Rightarrow> agent_state list \<Rightarrow> u32" where
  "state_count st states = length (filter (\<lambda>s. s = st) states)"

definition summary_string :: "agent_state list \<Rightarrow> string option" where
  "summary_string states =
     (let part = (\<lambda>st. if 0 < state_count st states
                       then [state_token st @ '':'' @ show_nat (state_count st states)] else [])
      in if state_count Blocked states + state_count Working states + state_count Idle states
            + state_count Unknown states = 0 then None
         else Some (join_with '' '' (part Blocked @ part Working @ part Idle @ part Unknown)))"

datatype summary_scope = WindowScope | SessionScope

fun scope_key :: "summary_scope \<Rightarrow> string" where
  "scope_key WindowScope = OPT_SUMMARY"
| "scope_key SessionScope = OPT_SESSION_SUMMARY"

fun scope_flag :: "summary_scope \<Rightarrow> string option" where
  "scope_flag WindowScope = Some ''-w''"
| "scope_flag SessionScope = None"

definition summary_command :: "summary_scope \<Rightarrow> string \<Rightarrow> string option \<Rightarrow> bool \<Rightarrow> stamp_command" where
  "summary_command scope target value fmt =
     argv ([''set-option'']
       @ (case scope_flag scope of None \<Rightarrow> [] | Some f \<Rightarrow> [f])
       @ (if fmt then [''-F''] else [])
       @ (if value = None then [''-u''] else [])
       @ [''-t'', target, scope_key scope]
       @ (case value of None \<Rightarrow> [] | Some v \<Rightarrow> [v]))"

definition render_summary :: "summary_scope \<Rightarrow> string \<Rightarrow> string option \<Rightarrow> stamp_command" where
  "render_summary scope target summary = summary_command scope target summary False"

definition render_summary_guarded ::
  "summary_scope \<Rightarrow> string \<Rightarrow> string option \<Rightarrow> guard \<Rightarrow> stamp_command" where
  "render_summary_guarded scope target summary g =
     (case summary of
        Some s \<Rightarrow> summary_command scope target (Some (guarded (suppress_expr g) (scope_key scope) s)) True
      | None \<Rightarrow> render_summary scope target None)"

definition render_purge :: "string \<Rightarrow> stamp_command list" where
  "render_purge pane =
     render_remove pane @ map (unset_pane pane) PURGEABLE @ map (unset_pane pane) PANE_KEYS
     @ [render_summary WindowScope pane None, render_summary SessionScope pane None]"

end
