(* ===== verification/Render_Properties.thy ===== *)
theory Render_Properties
  imports Render "HOL-Library.Multiset"
begin

text \<open>
  What the rendered writes promise of a server that carries out plain pane-option commands: an
  advisory publish reads back as the projected row, the end of a session keeps the state tuple, a
  removal leaves nothing, and the summary text is as informative as the multiset of states.
\<close>

section \<open>A server of plain pane options\<close>

text \<open>tmux itself is not part of the sources: its effect on one pane's options is a parameter with the
  documented behaviour of \<open>set-option -p\<close> and \<open>set-option -pu\<close>. \<open>exec_plain\<close> is one such server.\<close>

locale plain_server =
  fixes run :: "stamp_command \<Rightarrow> options \<Rightarrow> options"
  assumes run_set: "run (set_plain pane key v) opts = opts(key := Some v)"
    and run_unset: "run (unset_pane pane key) opts = opts(key := None)"
begin

lemma run_unsets:
  "fold run (map (unset_pane pane) keys) opts = (\<lambda>k. if k \<in> set keys then None else opts k)"
  by (induction keys arbitrary: opts) (auto simp: run_unset fun_eq_iff)

end

text \<open>The window and session rollups are not pane options: writing them leaves the pane's options.\<close>

locale purging_server = plain_server +
  assumes run_summary: "run (render_summary scope target v) opts = opts"
begin

lemma run_purge:
  "fold run (render_purge pane) opts =
     (\<lambda>k. if k \<in> set REMOVABLE \<union> set PURGEABLE \<union> set PANE_KEYS then None else opts k)"
  by (simp only: render_purge_def render_remove_def fold_append comp_apply run_unsets fold.simps
      run_summary id_apply) (auto simp: fun_eq_iff)

end

text \<open>A server that applies exactly these commands.\<close>

definition exec_plain :: "stamp_command \<Rightarrow> options \<Rightarrow> options" where
  "exec_plain c opts =
     (case sc_argv c of
        [_, scope, flag, _, key, v] \<Rightarrow>
          if scope \<noteq> ''-p'' then opts
          else if flag = ''-u'' then opts(v := None) else opts(key := Some v)
      | _ \<Rightarrow> opts)"

interpretation exec_plain: purging_server exec_plain
proof
  fix scope target v opts
  show "exec_plain (render_summary scope target v) opts = opts"
    by (cases scope; cases v)
       (simp_all add: exec_plain_def render_summary_def summary_command_def argv_def)
qed (simp_all add: exec_plain_def set_plain_def unset_pane_def argv_def)

section \<open>Reading back a publish\<close>

definition ms_ok :: "u64 \<Rightarrow> bool" where
  "ms_ok v = ((v = 0 \<or> MILLIS_FLOOR \<le> v) \<and> v \<le> u64_max)"

lemma ms_ok_parse: "opts key = Some (show_nat v) \<Longrightarrow> ms_ok v \<Longrightarrow>
    parse_int opts key = Inr v \<and> to_millis v = v"
  by (auto simp: ms_ok_def to_millis_ms)

definition publish_wf :: "write_publish \<Rightarrow> bool" where
  "publish_wf p =
     (ms_ok (wr_evidence_at p) \<and> ms_ok (wr_since p) \<and> ms_ok (wr_stamped_at p)
      \<and> wr_pid p \<le> u32_max \<and> wr_detail p \<noteq> Some [] \<and> is_none_or (wr_hash p) (\<lambda>h. h \<le> u64_max))"

text \<open>The tuple an unguarded publish is meant to leave.\<close>

definition committed :: "write_publish \<Rightarrow> stamped_state \<Rightarrow> stamped_state" where
  "committed p prev =
     (let row = project_publish (Some prev) (p\<lparr>wr_guard := Unconditional\<rparr>) in
      \<lparr>sp_state = rp_state row, sp_detail = wr_detail p, sp_source = wr_source p,
           sp_evidence_at = wr_evidence_at p, sp_since = rp_since row,
           sp_stamped_at = wr_stamped_at p, sp_attention = rp_attention row,
           sp_notified_at = (if wr_episode_reset p then None else sp_notified_at prev),
           sp_turn_at = (if wr_episode_reset p then 0 else sp_turn_at prev),
           sp_hash = (case wr_hash p of None \<Rightarrow> sp_hash prev | Some h \<Rightarrow> Some h),
           sp_pid = wr_pid p,
       sp_session = sp_session prev, sp_subagents = sp_subagents prev\<rparr>)"

text \<open>What a successful decode says of the options it read.\<close>

lemma from_options_Some:
  "from_options opts = Inr (Some r) \<longleftrightarrow>
     (\<exists>v st. opts OPT_STATE = Some v \<and> state_from_str v = Inr st \<and> read_tuple opts st = Inr (into_inner r)
        \<and> r = (if in_progress (into_inner r) then InProgress (into_inner r) else Settled (into_inner r)))"
  by (cases r) (auto simp: from_options_def sum_bind_Inr split: option.splits if_splits)

lemma read_tuple_Inr:
  "read_tuple opts st = Inr s \<longleftrightarrow>
     (\<exists>source evidence since stamped pid notified turn hash.
        (case opts OPT_SOURCE of None \<Rightarrow> Inr Capture | Some v \<Rightarrow> provenance_from_str v) = Inr source
        \<and> parse_int opts OPT_EVIDENCE_AT = Inr evidence \<and> parse_int opts OPT_SINCE = Inr since
        \<and> parse_int opts OPT_STAMPED_AT = Inr stamped \<and> parse_int opts OPT_PID = Inr pid \<and> pid \<le> u32_max
        \<and> parse_opt_int opts OPT_NOTIFIED_AT = Inr notified \<and> parse_int opts OPT_TURN_AT = Inr turn
        \<and> parse_opt_int opts OPT_HASH = Inr hash
        \<and> s = \<lparr>sp_state = st, sp_detail = option_filter (\<lambda>v. v \<noteq> []) (opts OPT_DETAIL),
            sp_source = source, sp_evidence_at = to_millis evidence, sp_since = to_millis since,
            sp_stamped_at = to_millis stamped, sp_attention = (opts OPT_ATTENTION = Some ''1''),
            sp_notified_at = map_option to_millis notified, sp_turn_at = to_millis turn,
            sp_hash = hash, sp_pid = pid,
            sp_session = option_filter (\<lambda>v. v \<noteq> []) (opts OPT_SESSION),
            sp_subagents = (case opts OPT_SUBAGENTS of None \<Rightarrow> [] | Some v \<Rightarrow> split_whitespace v)\<rparr>)"
  by (auto simp: read_tuple_def sum_bind_Inr split: if_splits)

lemma tuple_keys_distinct:
  "distinct [OPT_STATE, OPT_DETAIL, OPT_SOURCE, OPT_EVIDENCE_AT, OPT_SINCE, OPT_STAMPED_AT,
     OPT_ATTENTION, OPT_NOTIFIED_AT, OPT_TURN_AT, OPT_HASH, OPT_PID, OPT_NAME, OPT_SESSION,
     OPT_SUBAGENTS]"
  by code_simp

lemma tuple_keys_distinct_rev:
  "distinct (rev [OPT_STATE, OPT_DETAIL, OPT_SOURCE, OPT_EVIDENCE_AT, OPT_SINCE, OPT_STAMPED_AT,
     OPT_ATTENTION, OPT_NOTIFIED_AT, OPT_TURN_AT, OPT_HASH, OPT_PID, OPT_NAME, OPT_SESSION,
     OPT_SUBAGENTS])"
  using tuple_keys_distinct by (simp only: distinct_rev)

lemmas key_neqs = tuple_keys_distinct [simplified] tuple_keys_distinct_rev [simplified]

context plain_server
begin

lemma run_detail: "run (set_detail p) opts = opts(OPT_DETAIL := wr_detail p)"
  by (simp add: set_detail_def run_set run_unset split: option.split)

lemmas run_simps = run_set run_unset run_detail fold_append comp_apply

lemma run_freshness:
  "fold run (freshness_commands p) opts =
     (let hashed = (case wr_hash p of None \<Rightarrow> opts | Some h \<Rightarrow> opts(OPT_HASH := Some (show_nat h)));
          live = hashed(OPT_PID := Some (show_nat (wr_pid p)));
          named = (if wr_name p = [] then live else live(OPT_NAME := Some (wr_name p)))
      in named(OPT_STAMPED_AT := Some (show_nat (wr_stamped_at p))))"
  by (simp add: freshness_commands_def Let_def run_simps split: option.split)

lemma run_reset:
  "fold run (reset_commands p) opts =
     opts(OPT_SINCE := Some (show_nat (wr_since p)),
          OPT_STATE := Some (state_token (wr_state p)), OPT_DETAIL := wr_detail p,
          OPT_SOURCE := Some (provenance_token (wr_source p)),
          OPT_EVIDENCE_AT := Some (show_nat (wr_evidence_at p)),
          OPT_ATTENTION := (if wr_set_attention p then Some ''1'' else None),
          OPT_NOTIFIED_AT := None, OPT_TURN_AT := None)"
  by (simp add: reset_commands_def Let_def run_simps)

lemma run_advisory:
  "fold run (render_publish_advisory p prev_state prev_since) opts =
     fold run (freshness_commands p)
       (if wr_episode_reset p then fold run (reset_commands p) opts
        else
          let since = (if prev_state = Some (wr_state p)
                          \<and> \<not> since_clock_stepped prev_since (wr_stamped_at p)
                       then prev_since else wr_since p);
              tuple = opts(OPT_SINCE := Some (show_nat since),
                OPT_STATE := Some (state_token (wr_state p)), OPT_DETAIL := wr_detail p,
                OPT_SOURCE := Some (provenance_token (wr_source p)),
                OPT_EVIDENCE_AT := Some (show_nat (wr_evidence_at p)))
          in if wr_set_attention p then tuple(OPT_ATTENTION := Some ''1'') else tuple)"
  by (simp only: render_publish_advisory_def Let_def fold_append comp_apply if_distrib [of "\<lambda>l. fold run l opts"])
     (simp add: run_simps)

text \<open>What each key of the tuple holds afterwards.\<close>

lemma advisory_reads:
  fixes p prev_state prev_since opts
  defines "after \<equiv> fold run (render_publish_advisory p prev_state prev_since) opts"
  shows "after OPT_STATE = Some (state_token (wr_state p))" (is ?st)
    and "after OPT_DETAIL = wr_detail p" (is ?dt)
    and "after OPT_SOURCE = Some (provenance_token (wr_source p))" (is ?sr)
    and "after OPT_EVIDENCE_AT = Some (show_nat (wr_evidence_at p))" (is ?ev)
    and "after OPT_STAMPED_AT = Some (show_nat (wr_stamped_at p))" (is ?sa)
    and "after OPT_PID = Some (show_nat (wr_pid p))" (is ?pd)
    and "after OPT_HASH =
           (case wr_hash p of None \<Rightarrow> opts OPT_HASH | Some h \<Rightarrow> Some (show_nat h))" (is ?hs)
    and "after OPT_SINCE =
           Some (show_nat (if \<not> wr_episode_reset p \<and> prev_state = Some (wr_state p)
             \<and> \<not> since_clock_stepped prev_since (wr_stamped_at p) then prev_since else wr_since p))" (is ?si)
    and "after OPT_ATTENTION =
           (if wr_set_attention p then Some ''1''
            else if wr_episode_reset p then None else opts OPT_ATTENTION)" (is ?at)
    and "after OPT_NOTIFIED_AT = (if wr_episode_reset p then None else opts OPT_NOTIFIED_AT)" (is ?no)
    and "after OPT_TURN_AT = (if wr_episode_reset p then None else opts OPT_TURN_AT)" (is ?tu)
    and "after OPT_SESSION = opts OPT_SESSION" (is ?se)
    and "after OPT_SUBAGENTS = opts OPT_SUBAGENTS" (is ?su)
proof -
  have "?st \<and> ?dt \<and> ?sr \<and> ?ev \<and> ?sa \<and> ?pd \<and> ?hs \<and> ?si \<and> ?at \<and> ?no \<and> ?tu \<and> ?se \<and> ?su"
    unfolding after_def run_advisory run_freshness run_reset
    by (cases "wr_episode_reset p"; cases "wr_set_attention p"; cases "wr_hash p"; cases "wr_name p = []")
       (simp_all add: key_neqs Let_def)
  then show ?st ?dt ?sr ?ev ?sa ?pd ?hs ?si ?at ?no ?tu ?se ?su by simp_all
qed

end

fun without_session :: "read_result \<Rightarrow> read_result" where
  "without_session (Settled s) = Settled (s\<lparr>sp_session := None, sp_subagents := []\<rparr>)"
| "without_session (InProgress s) = InProgress (s\<lparr>sp_session := None, sp_subagents := []\<rparr>)"

section \<open>The properties\<close>

lemma parse_int_pid: "opts OPT_PID = Some (show_nat n) \<Longrightarrow> n \<le> u32_max \<Longrightarrow> parse_int opts OPT_PID = Inr n"
  by (simp add: u32_max_def u64_max_def)

text \<open>C18 (publish_advisory_readback). An advisory publish onto a pane that holds a tuple is read
  back as the row the daemon projected for it: state, since and attention as \<open>project_publish\<close> says,
  the markers of the old episode cleared by a reset and kept otherwise, the stored hash kept when none
  is published, session and subagents untouched. \<open>run\<close> is any server that carries out plain
  pane-option commands.\<close>

theorem publish_advisory_readback:
  assumes "plain_server run"
    and "from_options opts = Inr (Some held)"
    and "publish_wf p" and "ms_ok (sp_since (into_inner held))"
  shows "from_options (fold run (render_publish_advisory p (Some (sp_state (into_inner held)))
             (sp_since (into_inner held))) opts)
         = Inr (Some (let c = committed p (into_inner held)
                      in if in_progress c then InProgress c else Settled c))"
proof -
  let ?prev = "into_inner held"
  let ?after = "fold run (render_publish_advisory p (Some (sp_state ?prev)) (sp_since ?prev)) opts"
  note reads = plain_server.advisory_reads [OF assms(1), of p "Some (sp_state ?prev)" "sp_since ?prev" opts]
  obtain st where st: "read_tuple opts st = Inr ?prev"
    using assms(2) by (auto simp: from_options_Some)
  have wf: "ms_ok (wr_evidence_at p)" "ms_ok (wr_since p)" "ms_ok (wr_stamped_at p)"
    "wr_pid p \<le> u32_max" "wr_detail p \<noteq> Some []"
    "\<And>h. wr_hash p = Some h \<Longrightarrow> h \<le> u64_max"
    using assms(3) by (auto simp: publish_wf_def)
  obtain notified turn hash where old:
    "parse_opt_int opts OPT_NOTIFIED_AT = Inr notified" "parse_int opts OPT_TURN_AT = Inr turn"
    "parse_opt_int opts OPT_HASH = Inr hash"
    "sp_notified_at ?prev = map_option to_millis notified" "sp_turn_at ?prev = to_millis turn"
    "sp_hash ?prev = hash" "sp_attention ?prev = (opts OPT_ATTENTION = Some ''1'')"
    "sp_session ?prev = option_filter (\<lambda>v. v \<noteq> []) (opts OPT_SESSION)"
    "sp_subagents ?prev = (case opts OPT_SUBAGENTS of None \<Rightarrow> [] | Some v \<Rightarrow> split_whitespace v)"
    using st by (auto simp: read_tuple_Inr)
  have row: "rp_state (project_publish (Some ?prev) (p\<lparr>wr_guard := Unconditional\<rparr>)) = wr_state p"
    "rp_since (project_publish (Some ?prev) (p\<lparr>wr_guard := Unconditional\<rparr>)) =
       (if \<not> wr_episode_reset p \<and> sp_state ?prev = wr_state p
           \<and> \<not> since_clock_stepped (sp_since ?prev) (wr_stamped_at p) then sp_since ?prev else wr_since p)"
    "rp_attention (project_publish (Some ?prev) (p\<lparr>wr_guard := Unconditional\<rparr>)) =
       (wr_set_attention p \<or> \<not> wr_episode_reset p \<and> sp_attention ?prev)"
    by (simp_all add: project_publish_def)
  define since where "since = (if \<not> wr_episode_reset p \<and> sp_state ?prev = wr_state p
           \<and> \<not> since_clock_stepped (sp_since ?prev) (wr_stamped_at p) then sp_since ?prev else wr_since p)"
  have ints: "parse_int ?after OPT_EVIDENCE_AT = Inr (wr_evidence_at p)"
    "parse_int ?after OPT_SINCE = Inr since" "parse_int ?after OPT_STAMPED_AT = Inr (wr_stamped_at p)"
    "to_millis (wr_evidence_at p) = wr_evidence_at p" "to_millis since = since"
    "to_millis (wr_stamped_at p) = wr_stamped_at p"
    using ms_ok_parse [of ?after OPT_EVIDENCE_AT] ms_ok_parse [of ?after OPT_STAMPED_AT]
      ms_ok_parse [of ?after OPT_SINCE] reads(4,5,8) wf(1-3) assms(4)
    by (simp_all add: since_def)
  have markers: "parse_int ?after OPT_PID = Inr (wr_pid p)"
    "parse_opt_int ?after OPT_NOTIFIED_AT = Inr (if wr_episode_reset p then None else notified)"
    "parse_int ?after OPT_TURN_AT = Inr (if wr_episode_reset p then 0 else turn)"
    "parse_opt_int ?after OPT_HASH = Inr (case wr_hash p of None \<Rightarrow> hash | Some h \<Rightarrow> Some h)"
    subgoal using reads(6) wf(4) by (simp add: parse_int_pid)
    subgoal using old(1) reads(10) by (auto simp: parse_opt_int_def)
    subgoal using old(2) reads(11) by (auto simp: parse_int_def)
    subgoal using old(3) reads(7) wf(6) by (cases "wr_hash p") (simp_all add: parse_opt_int_def)
    done
  have "read_tuple ?after (wr_state p) = Inr (committed p ?prev)"
    by (simp add: read_tuple_def ints markers wf(4) committed_def Let_def row old
        reads(2,3,9,12,13) since_def [symmetric])
       (simp add: wf(5) old(6) option_filter_def split: option.split)
  then show ?thesis
    by (simp add: from_options_def reads(1) Let_def)
qed

lemma publish_advisory_readback_witness:
  "\<exists>opts p held. from_options opts = Inr (Some held) \<and> publish_wf p \<and> wr_detail p = Some ''x''
     \<and> from_options (fold exec_plain (render_publish_advisory p (Some (sp_state (into_inner held)))
             (sp_since (into_inner held))) opts)
         = Inr (Some (let c = committed p (into_inner held)
                      in if in_progress c then InProgress c else Settled c))"
proof -
  let ?opts = "[OPT_STATE \<mapsto> ''working'', OPT_SINCE \<mapsto> ''1700000000000'',
     OPT_STAMPED_AT \<mapsto> ''1700000000000'', OPT_SOURCE \<mapsto> ''hook'']"
  let ?p = "\<lparr>wr_pane_id = ''%1'', wr_state = Blocked, wr_detail = Some ''x'', wr_source = Hook,
     wr_evidence_at = 1700000001000, wr_since = 1700000001000, wr_stamped_at = 1700000001000,
     wr_hash = None, wr_pid = 7, wr_name = [], wr_set_attention = True, wr_episode_reset = False,
     wr_guard = Unconditional\<rparr>"
  let ?held = "Settled \<lparr>sp_state = Working, sp_detail = None, sp_source = Hook, sp_evidence_at = 0,
     sp_since = 1700000000000, sp_stamped_at = 1700000000000, sp_attention = False,
     sp_notified_at = None, sp_turn_at = 0, sp_hash = None, sp_pid = 0, sp_session = None,
     sp_subagents = []\<rparr>"
  have held: "from_options ?opts = Inr (Some ?held)" by code_simp
  have since: "ms_ok (sp_since (into_inner ?held))" by code_simp
  have wf: "publish_wf ?p" by code_simp
  show ?thesis
    by (intro exI [of _ ?opts] exI [of _ ?p] exI [of _ ?held] conjI held wf
        publish_advisory_readback [OF exec_plain.plain_server_axioms held wf since]) simp
qed

text \<open>Decoding reads thirteen keys.\<close>

lemma from_options_cong:
  assumes "\<And>k. k \<notin> set SESSION_LANE \<Longrightarrow> after k = opts k"
    and "after OPT_SESSION = None" and "after OPT_SUBAGENTS = None"
  shows "from_options after =
    map_sum id (map_option without_session) (from_options opts)"
proof -
  have keep: "after k = opts k" if "k \<in> {OPT_STATE, OPT_SOURCE, OPT_EVIDENCE_AT, OPT_SINCE,
    OPT_STAMPED_AT, OPT_PID, OPT_NOTIFIED_AT, OPT_TURN_AT, OPT_HASH, OPT_DETAIL, OPT_ATTENTION}" for k
  proof -
    have "\<forall>k \<in> {OPT_STATE, OPT_SOURCE, OPT_EVIDENCE_AT, OPT_SINCE, OPT_STAMPED_AT, OPT_PID,
      OPT_NOTIFIED_AT, OPT_TURN_AT, OPT_HASH, OPT_DETAIL, OPT_ATTENTION}. k \<notin> set SESSION_LANE"
      by code_simp
    then show ?thesis using that assms(1) by blast
  qed
  have ints: "parse_int after k = parse_int opts k" "parse_opt_int after k = parse_opt_int opts k"
    if "after k = opts k" for k
    using that by (simp_all add: parse_int_def parse_opt_int_def)
  have tuple: "read_tuple after st = map_sum id (\<lambda>s. s\<lparr>sp_session := None, sp_subagents := []\<rparr>) (read_tuple opts st)" for st
    by (auto simp: read_tuple_def keep ints assms(2,3) sum_bind_def split: sum.splits)
  show ?thesis
    by (auto simp: from_options_def keep tuple sum_bind_def in_progress_def split: sum.splits option.splits)
qed

text \<open>Ending an agent's session on a pane whose process still runs
  leaves the decoded tuple as it was, a malformed one malformed in the same way, except that the
  session and its subagents are gone.\<close>

theorem end_session_keeps_state:
  assumes "plain_server run"
  shows "from_options (fold run (render_end_session pane) opts)
         = map_sum id (map_option without_session) (from_options opts)"
proof (rule from_options_cong)
  note after = plain_server.run_unsets [OF assms, of pane SESSION_LANE opts, folded render_end_session_def]
  show "fold run (render_end_session pane) opts k = opts k" if "k \<notin> set SESSION_LANE" for k
    using that by (simp add: after)
  have "OPT_SESSION \<in> set SESSION_LANE" "OPT_SUBAGENTS \<in> set SESSION_LANE" by code_simp+
  then show "fold run (render_end_session pane) opts OPT_SESSION = None"
    "fold run (render_end_session pane) opts OPT_SUBAGENTS = None"
    by (simp_all add: after)
qed

lemma end_session_keeps_state_witness:
  "from_options (fold exec_plain (render_end_session ''%1'') [OPT_STATE \<mapsto> ''idle'', OPT_SESSION \<mapsto> ''s''])
   = map_sum id (map_option without_session) (from_options [OPT_STATE \<mapsto> ''idle'', OPT_SESSION \<mapsto> ''s''])"
  by (rule end_session_keeps_state [OF exec_plain.plain_server_axioms])

text \<open>After the uninstall sweep a pane decodes as untracked, whatever it
  held, and no removable, purgeable or durable key is left, while a key outside these groups keeps its
  value.\<close>

theorem purge_leaves_nothing:
  assumes "purging_server run"
  shows "from_options (fold run (render_purge pane) opts) = Inr None
    \<and> fold run (render_purge pane) opts =
        (\<lambda>k. if k \<in> set REMOVABLE \<union> set PURGEABLE \<union> set PANE_KEYS then None else opts k)"
proof -
  have "OPT_STATE \<in> set REMOVABLE" by (simp add: REMOVABLE_def)
  then show ?thesis
    by (simp add: purging_server.run_purge [OF assms] from_options_def)
qed

lemma purge_leaves_nothing_witness:
  "from_options (fold exec_plain (render_purge ''%1'') [OPT_STATE \<mapsto> ''idle'']) = Inr None"
  by (rule conjunct1 [OF purge_leaves_nothing [OF exec_plain.purging_server_axioms]])

section \<open>The summary\<close>

definition summary_part :: "(agent_state \<Rightarrow> nat) \<Rightarrow> agent_state \<Rightarrow> string list" where
  "summary_part cnt st = (if 0 < cnt st then [state_token st @ '':'' @ show_nat (cnt st)] else [])"

definition summary_parts :: "(agent_state \<Rightarrow> nat) \<Rightarrow> string list" where
  "summary_parts cnt = concat (map (summary_part cnt) [Blocked, Working, Idle, Unknown])"

lemma summary_string_parts:
  "summary_string xs =
     (let ps = summary_parts (\<lambda>st. state_count st xs) in if ps = [] then None else Some (join_with '' '' ps))"
  by (simp add: summary_string_def summary_parts_def summary_part_def Let_def)

lemma state_token_no_colon: "CHR '':'' \<notin> set (state_token st)" "CHR '' '' \<notin> set (state_token st)"
  by (cases st; simp)+

lemma summary_part_inject:
  "state_token a @ '':'' @ x = state_token b @ '':'' @ y \<longleftrightarrow> a = b \<and> x = y"
proof
  have split: "split_once (CHR '':'') (state_token st @ '':'' @ t) = Some (state_token st, t)" for st t
    using state_token_no_colon(1) by simp
  assume "state_token a @ '':'' @ x = state_token b @ '':'' @ y"
  then have "Some (state_token a, x) = Some (state_token b, y)" by (simp only: split [symmetric])
  then show "a = b \<and> x = y" by (simp only: option.inject prod.inject state_token_inject)
qed simp

lemma all_states: "set [Blocked, Working, Idle, Unknown] = UNIV"
  by (auto intro: agent_state.exhaust)

lemma set_summary_parts:
  "set (summary_parts cnt) = {state_token b @ '':'' @ show_nat (cnt b) | b. 0 < cnt b}"
proof -
  have "set (summary_parts cnt) = (\<Union>b \<in> set [Blocked, Working, Idle, Unknown]. set (summary_part cnt b))"
    by (simp only: summary_parts_def set_concat set_map image_image)
  also have "\<dots> = {state_token b @ '':'' @ show_nat (cnt b) | b. 0 < cnt b}"
    unfolding all_states summary_part_def by auto
  finally show ?thesis .
qed

lemma summary_parts_mem:
  "state_token st @ '':'' @ show_nat n \<in> set (summary_parts cnt) \<longleftrightarrow> 0 < n \<and> cnt st = n"
  unfolding set_summary_parts mem_Collect_eq summary_part_inject show_nat_inject by blast

lemma summary_parts_eq:
  assumes "summary_parts c = summary_parts d"
  shows "c st = d st"
proof -
  have same: "0 < n \<and> c st = n \<longleftrightarrow> 0 < n \<and> d st = n" for n
    using assms summary_parts_mem [of st n c] summary_parts_mem [of st n d] by simp
  show ?thesis using same [of "c st"] same [of "d st"] by (cases "c st"; cases "d st") auto
qed

lemma summary_parts_no_space: "p \<in> set (summary_parts c) \<Longrightarrow> CHR '' '' \<notin> set p"
proof -
  have "\<not> is_digit (CHR '' '')" by code_simp
  then show "p \<in> set (summary_parts c) \<Longrightarrow> CHR '' '' \<notin> set p"
    unfolding set_summary_parts by (auto simp: state_token_no_colon dest: show_nat_set_digit)
qed

lemma mset_state_count: "mset xs = mset ys \<longleftrightarrow> (\<forall>st. state_count st xs = state_count st ys)"
proof -
  have "(\<lambda>s. s = st) = (=) st" for st :: agent_state by auto
  then show ?thesis
    by (simp add: multiset_eq_iff state_count_def count_mset count_list_eq_length_filter)
qed

text \<open>Two lists of sibling states have the same summary text exactly when they
  are permutations of each other: the rollup never conflates two different states of a window, and
  does not depend on the order of its panes.\<close>

theorem summary_faithful: "summary_string xs = summary_string ys \<longleftrightarrow> mset xs = mset ys"
proof
  assume eq: "summary_string xs = summary_string ys"
  let ?px = "summary_parts (\<lambda>st. state_count st xs)" and ?py = "summary_parts (\<lambda>st. state_count st ys)"
  have "?px = [] \<longleftrightarrow> ?py = []" and join: "?px \<noteq> [] \<Longrightarrow> join_with '' '' ?px = join_with '' '' ?py"
    using eq by (auto simp: summary_string_parts Let_def split: if_splits)
  moreover have "split_on (CHR '' '') (join_with '' '' (summary_parts c)) = summary_parts c"
    if "summary_parts c \<noteq> []" for c
    by (rule split_on_join [OF that summary_parts_no_space])
  ultimately have "?px = ?py" by metis
  then show "mset xs = mset ys" by (auto simp: mset_state_count dest: summary_parts_eq)
next
  assume "mset xs = mset ys"
  then show "summary_string xs = summary_string ys"
    by (simp add: mset_state_count summary_string_def)
qed

end
