(* ===== verification/Rows.thy ===== *)
theory Rows
  imports Projection
begin

text \<open>
  The resolved row that every surface shows (\<open>row.rs\<close>): its class in the disjoint reading of the
  state vocabulary, its rank, the selector; and the state-transition edges between two observations
  of the rows (\<open>edge.rs\<close>).
\<close>

section \<open>Rows\<close>

record repo_label =
  rl_name :: string
  rl_branch :: string
  rl_worktree :: bool

record pending_call =
  pc_tool :: string
  pc_call :: string
  pc_summary :: string

record quota_label =
  ql_pct :: u8
  ql_window :: string
  ql_resets_at_ms :: "u64 option"

text \<open>A binary64 value that is carried and never looked at: its bits.\<close>

type_synonym f64 = nat

record agent_row =
  row_acknowledgement :: "observation_identity option"
  row_pane_id :: string
  row_agent :: string
  row_state :: agent_state
  row_detail :: "string option"
  row_since :: u64
  row_turn_at :: u64
  row_session :: string
  row_window_index :: u32
  row_pane_index :: u32
  row_title :: string
  row_attention :: bool
  row_agent_session :: "string option"
  row_transcript :: "string option"
  row_permission_request :: "string option"
  row_stamped_at :: "u64 option"
  row_context_pct :: "u8 option"
  row_context_at :: "u64 option"
  row_tokens :: "u64 option"
  row_quota :: "quota_label option"
  row_cost_usd :: "f64 option"
  row_muted :: bool
  row_model :: "string option"
  row_cwd :: "string option"
  row_repo :: "repo_label option"
  row_pending :: "pending_call option"

definition row_episode_at :: "agent_row \<Rightarrow> u64" where
  "row_episode_at r = max (row_since r) (row_turn_at r)"

definition row_locator :: "agent_row \<Rightarrow> string" where
  "row_locator r = row_session r @ '':'' @ show_nat (row_window_index r) @ ''.'' @ show_nat (row_pane_index r)"

definition row_branch :: "agent_row \<Rightarrow> string option" where
  "row_branch r = map_option rl_branch (row_repo r)"

fun sort_rank :: "agent_state \<Rightarrow> u8" where
  "sort_rank Blocked = 0"
| "sort_rank Working = 2"
| "sort_rank Idle = 3"
| "sort_rank Unknown = 4"

definition is_done :: "agent_row \<Rightarrow> bool" where
  "is_done r = (row_state r = Idle \<and> row_attention r)"

definition row_rank :: "agent_row \<Rightarrow> u8" where
  "row_rank r = (if is_done r then 1 else sort_rank (row_state r))"

section \<open>State tokens\<close>

datatype state_token_t = Closed agent_state | DoneToken

definition VOCABULARY :: string where
  "VOCABULARY = ''idle, working, blocked, unknown, done''"

definition ALL_TOKENS :: "state_token_t list" where
  "ALL_TOKENS = [Closed Idle, Closed Working, Closed Blocked, Closed Unknown, DoneToken]"

definition token_of :: "agent_row \<Rightarrow> state_token_t" where
  "token_of r = (if is_done r then DoneToken else Closed (row_state r))"

fun token_matches :: "state_token_t \<Rightarrow> agent_row \<Rightarrow> bool" where
  "token_matches (Closed st) r = (row_state r = st)"
| "token_matches DoneToken r = is_done r"

fun token_text :: "state_token_t \<Rightarrow> string" where
  "token_text (Closed st) = state_token st"
| "token_text DoneToken = ''done''"

definition token_from_str :: "string \<Rightarrow> grammar_error + state_token_t" where
  "token_from_str s =
     (if s = ''done'' then Inr DoneToken else map_sum id Closed (state_from_str s))"

section \<open>Selectors\<close>

record selector =
  sl_session :: "string option"
  sl_repo :: "string option"
  sl_branch :: "string option"
  sl_agent :: "string option"
  sl_state :: "state_token_t list"

definition selector_is_empty :: "selector \<Rightarrow> bool" where
  "selector_is_empty s =
     (sl_session s = None \<and> sl_repo s = None \<and> sl_branch s = None \<and> sl_agent s = None \<and> sl_state s = [])"

definition needs_repo :: "selector \<Rightarrow> bool" where
  "needs_repo s = (sl_repo s \<noteq> None \<or> sl_branch s \<noteq> None)"

definition unwrap_text :: "string option \<Rightarrow> string" where
  "unwrap_text m = (case m of None \<Rightarrow> [] | Some x \<Rightarrow> x)"

definition selector_matches :: "selector \<Rightarrow> agent_row \<Rightarrow> bool" where
  "selector_matches s r =
     (is_none_or (sl_session s) (\<lambda>w. w = row_session r)
      \<and> is_none_or (sl_agent s) (\<lambda>w. w = row_agent r)
      \<and> is_none_or (sl_repo s) (\<lambda>w. w = unwrap_text (map_option rl_name (row_repo r)))
      \<and> is_none_or (sl_branch s) (\<lambda>w. w = unwrap_text (row_branch r))
      \<and> (sl_state s = [] \<or> list_ex (\<lambda>t. token_matches t r) (sl_state s)))"

definition selector_retain :: "selector \<Rightarrow> agent_row list \<Rightarrow> agent_row list" where
  "selector_retain s rows = (if selector_is_empty s then rows else filter (selector_matches s) rows)"

section \<open>Edges\<close>

record row_edge =
  ed_pane_id :: string
  ed_agent :: string
  ed_from :: "state_token_t option"
  ed_to :: "state_token_t option"
  ed_detail :: "string option"
  ed_locator :: string
  ed_repo :: "repo_label option"

definition edge_of :: "agent_row \<Rightarrow> state_token_t option \<Rightarrow> state_token_t option \<Rightarrow> row_edge" where
  "edge_of r f t = \<lparr>ed_pane_id = row_pane_id r, ed_agent = row_agent r, ed_from = f, ed_to = t,
     ed_detail = row_detail r, ed_locator = row_locator r, ed_repo = row_repo r\<rparr>"

text \<open>Collecting pairs into a \<open>HashMap\<close>: of two entries with one key the later one stays.\<close>

definition by_pane :: "agent_row list \<Rightarrow> string \<Rightarrow> agent_row option" where
  "by_pane rows = fold (\<lambda>r m. m(row_pane_id r \<mapsto> r)) rows (\<lambda>_. None)"

definition row_edges :: "agent_row list \<Rightarrow> agent_row \<Rightarrow> row_edge list" where
  "row_edges prev r =
     (case by_pane prev (row_pane_id r) of
        Some before \<Rightarrow>
          if token_of before \<noteq> token_of r then [edge_of r (Some (token_of before)) (Some (token_of r))] else []
      | None \<Rightarrow> [edge_of r None (Some (token_of r))])"

definition departures :: "agent_row list \<Rightarrow> agent_row list \<Rightarrow> row_edge list" where
  "departures prev nxt =
     map (\<lambda>r. edge_of r (Some (token_of r)) None)
       (filter (\<lambda>r. row_pane_id r \<notin> set (map row_pane_id nxt)) prev)"

definition diff_rows :: "agent_row list \<Rightarrow> agent_row list \<Rightarrow> row_edge list" where
  "diff_rows prev nxt = concat (map (row_edges prev) nxt) @ departures prev nxt"

section \<open>Lemmas\<close>

text \<open>The class map an observation stands for, and the effect of one edge on it.\<close>

definition class_map :: "agent_row list \<Rightarrow> string \<Rightarrow> state_token_t option" where
  "class_map rows p = map_option token_of (by_pane rows p)"

definition apply_edge :: "row_edge \<Rightarrow> (string \<Rightarrow> state_token_t option) \<Rightarrow> string \<Rightarrow> state_token_t option" where
  "apply_edge e m = m(ed_pane_id e := ed_to e)"

lemma edge_of_simps [simp]:
  "ed_pane_id (edge_of r f t) = row_pane_id r" "ed_from (edge_of r f t) = f" "ed_to (edge_of r f t) = t"
  by (simp_all add: edge_of_def)

lemma by_pane_notin: "p \<notin> row_pane_id ` set rows \<Longrightarrow> fold (\<lambda>r m. m(row_pane_id r \<mapsto> r)) rows m p = m p"
  by (induction rows arbitrary: m) auto

lemma by_pane_None: "p \<notin> row_pane_id ` set rows \<Longrightarrow> by_pane rows p = None"
  by (simp add: by_pane_def by_pane_notin)

lemma by_pane_mem:
  assumes "distinct (map row_pane_id rows)" and "r \<in> set rows"
  shows "by_pane rows (row_pane_id r) = Some r"
proof -
  have "fold (\<lambda>r m. m(row_pane_id r \<mapsto> r)) rows m (row_pane_id r) = Some r" for m
    using assms by (induction rows arbitrary: m) (auto simp: by_pane_notin)
  then show ?thesis by (simp add: by_pane_def)
qed

lemma by_pane_Some: "distinct (map row_pane_id rows) \<Longrightarrow>
    by_pane rows p = Some r \<longleftrightarrow> r \<in> set rows \<and> row_pane_id r = p"
  using by_pane_mem by_pane_None by (metis imageE option.distinct(1) option.inject)

text \<open>The edges of one observation, pane by pane.\<close>

lemma row_edges_mem:
  "e \<in> set (row_edges prev r) \<longleftrightarrow>
     e = edge_of r (class_map prev (row_pane_id r)) (Some (token_of r))
     \<and> class_map prev (row_pane_id r) \<noteq> Some (token_of r)"
  by (auto simp: row_edges_def class_map_def split: option.split)

lemma diff_rows_mem:
  "e \<in> set (diff_rows prev nxt) \<longleftrightarrow>
     (\<exists>r \<in> set nxt. e \<in> set (row_edges prev r)) \<or> e \<in> set (departures prev nxt)"
  by (simp add: diff_rows_def)

lemma row_edges_length: "length (row_edges prev r) \<le> 1"
  by (simp add: row_edges_def split: option.split)

lemma departures_mem:
  assumes "distinct (map row_pane_id prev)" and "distinct (map row_pane_id nxt)"
  shows "(\<exists>e \<in> set (departures prev nxt). ed_pane_id e = p \<and> ed_from e = f \<and> ed_to e = t)
    \<longleftrightarrow> f \<noteq> None \<and> class_map prev p = f \<and> by_pane nxt p = None \<and> t = None"
proof -
  have "by_pane nxt p = None \<longleftrightarrow> p \<notin> row_pane_id ` set nxt"
    using by_pane_None by_pane_mem [OF assms(2)] by fastforce
  then show ?thesis
    using by_pane_Some [OF assms(1)] by (fastforce simp: departures_def class_map_def)
qed

lemma arrivals_mem:
  assumes "distinct (map row_pane_id nxt)"
  shows "(\<exists>r \<in> set nxt. \<exists>e \<in> set (row_edges prev r). ed_pane_id e = p \<and> ed_from e = f \<and> ed_to e = t)
    \<longleftrightarrow> class_map prev p = f \<and> class_map nxt p = t \<and> t \<noteq> None \<and> f \<noteq> t"
proof -
  have "(\<exists>e \<in> set (row_edges prev r). ed_pane_id e = p \<and> ed_from e = f \<and> ed_to e = t) \<longleftrightarrow>
      row_pane_id r = p \<and> class_map prev p = f \<and> t = Some (token_of r) \<and> f \<noteq> t" for r
    by (auto simp only: Bex_def row_edges_mem edge_of_simps)
  then have "(\<exists>r \<in> set nxt. \<exists>e \<in> set (row_edges prev r). ed_pane_id e = p \<and> ed_from e = f \<and> ed_to e = t)
      \<longleftrightarrow> (\<exists>r. by_pane nxt p = Some r \<and> class_map prev p = f \<and> t = Some (token_of r) \<and> f \<noteq> t)"
    using by_pane_Some [OF assms] by auto
  then show ?thesis by (auto simp: class_map_def)
qed

lemma distinct_at_most_one:
  "distinct (map f xs) \<Longrightarrow> (\<And>x e. x \<in> set xs \<Longrightarrow> e \<in> set (g x) \<Longrightarrow> h e = f x)
    \<Longrightarrow> (\<And>x. length (g x) \<le> 1) \<Longrightarrow> distinct (map h (concat (map g xs)))"
proof (induction xs)
  case (Cons x xs)
  have "distinct (map h (g x))" using Cons.prems(3) [of x] by (cases "g x") auto
  moreover have "h ` set (g x) \<inter> h ` (\<Union> (set ` g ` set xs)) = {}"
    using Cons.prems(1,2) by fastforce
  ultimately show ?case using Cons by simp
qed simp

lemma diff_edges:
  assumes "distinct (map row_pane_id prev)" and "distinct (map row_pane_id nxt)"
  shows "((\<exists>e. e \<in> set (diff_rows prev nxt) \<and> ed_pane_id e = p \<and> ed_from e = f \<and> ed_to e = t)
      \<longleftrightarrow> class_map prev p = f \<and> class_map nxt p = t \<and> f \<noteq> t)
    \<and> distinct (map ed_pane_id (diff_rows prev nxt))"
proof
  have none: "by_pane nxt p = None \<longleftrightarrow> class_map nxt p = None" by (simp add: class_map_def)
  have "(\<exists>e. e \<in> set (diff_rows prev nxt) \<and> ed_pane_id e = p \<and> ed_from e = f \<and> ed_to e = t)
      \<longleftrightarrow> (\<exists>r \<in> set nxt. \<exists>e \<in> set (row_edges prev r). ed_pane_id e = p \<and> ed_from e = f \<and> ed_to e = t)
        \<or> (\<exists>e \<in> set (departures prev nxt). ed_pane_id e = p \<and> ed_from e = f \<and> ed_to e = t)"
    unfolding diff_rows_mem by blast
  then show "(\<exists>e. e \<in> set (diff_rows prev nxt) \<and> ed_pane_id e = p \<and> ed_from e = f \<and> ed_to e = t)
      \<longleftrightarrow> class_map prev p = f \<and> class_map nxt p = t \<and> f \<noteq> t"
    unfolding arrivals_mem [OF assms(2)] departures_mem [OF assms] none by auto
  have "distinct (map ed_pane_id (concat (map (row_edges prev) nxt)))"
    by (rule distinct_at_most_one [OF assms(2) _ row_edges_length]) (auto simp: row_edges_mem)
  moreover have "distinct (map ed_pane_id (departures prev nxt))"
    using assms(1) by (simp add: departures_def comp_def distinct_map_filter)
  ultimately show "distinct (map ed_pane_id (diff_rows prev nxt))"
    by (auto simp: diff_rows_def row_edges_mem departures_def) (metis imageI)
qed

lemma fold_apply_edge:
  "distinct (map ed_pane_id es) \<Longrightarrow> e \<in> set es \<Longrightarrow> fold apply_edge es m (ed_pane_id e) = ed_to e"
  "p \<notin> ed_pane_id ` set es \<Longrightarrow> fold apply_edge es m p = m p"
proof -
  show untouched: "p \<notin> ed_pane_id ` set es \<Longrightarrow> fold apply_edge es m p = m p" for p m and es :: "row_edge list"
    by (induction es arbitrary: m) (auto simp: apply_edge_def)
  show "distinct (map ed_pane_id es) \<Longrightarrow> e \<in> set es \<Longrightarrow> fold apply_edge es m (ed_pane_id e) = ed_to e"
    by (induction es arbitrary: m) (auto simp: untouched, simp add: apply_edge_def)
qed

section \<open>The properties\<close>

text \<open>The edges are exactly the changes: a pane has an edge from one class to another
  when the two observations class it so and differently, an absent pane having no class, and no pane
  has two edges.\<close>

theorem diff_exact:
  assumes "distinct (map row_pane_id prev)" and "distinct (map row_pane_id nxt)"
  shows "((\<exists>e. e \<in> set (diff_rows prev nxt) \<and> ed_pane_id e = p \<and> ed_from e = f \<and> ed_to e = t)
      \<longleftrightarrow> class_map prev p = f \<and> class_map nxt p = t \<and> f \<noteq> t)
    \<and> distinct (map ed_pane_id (diff_rows prev nxt))"
  by (rule diff_edges [OF assms])

text \<open>A row as the source's own tests build it.\<close>

definition plain_row :: "string \<Rightarrow> agent_state \<Rightarrow> bool \<Rightarrow> agent_row" where
  "plain_row pane st attention =
     \<lparr>row_acknowledgement = None, row_pane_id = pane, row_agent = ''claude'', row_state = st,
      row_detail = None, row_since = 0, row_turn_at = 0, row_session = ''work'', row_window_index = 1,
      row_pane_index = 0, row_title = [], row_attention = attention, row_agent_session = None,
      row_transcript = None, row_permission_request = None, row_stamped_at = None,
      row_context_pct = None, row_context_at = None, row_tokens = None, row_quota = None,
      row_cost_usd = None, row_muted = False, row_model = None, row_cwd = None, row_repo = None,
      row_pending = None\<rparr>"

lemma diff_exact_witness:
  "\<exists>e. e \<in> set (diff_rows [plain_row ''%1'' Working False, plain_row ''%2'' Idle False]
                [plain_row ''%2'' Idle True, plain_row ''%3'' Blocked False])
     \<and> ed_pane_id e = ''%2'' \<and> ed_from e = Some (Closed Idle) \<and> ed_to e = Some DoneToken"
proof -
  let ?a = "[plain_row ''%1'' Working False, plain_row ''%2'' Idle False]"
  let ?b = "[plain_row ''%2'' Idle True, plain_row ''%3'' Blocked False]"
  have dist: "distinct (map row_pane_id ?a)" "distinct (map row_pane_id ?b)" by code_simp+
  have "class_map ?a ''%2'' = Some (Closed Idle) \<and> class_map ?b ''%2'' = Some DoneToken
      \<and> Some (Closed Idle) \<noteq> Some DoneToken"
    by code_simp
  then show ?thesis by (rule iffD2 [OF conjunct1 [OF diff_exact [OF dist]]])
qed

text \<open>C23 (diff_replays). A subscriber that applies the edges to the classes it knew holds the classes of
  the new observation, and from there on the edges of any further one, in whatever order the rows of
  each observation come.\<close>

theorem diff_replays:
  assumes "distinct (map row_pane_id a)" and "distinct (map row_pane_id b)"
    and "distinct (map row_pane_id c)"
  shows "fold apply_edge (diff_rows a b) (class_map a) = class_map b
    \<and> fold apply_edge (diff_rows a b @ diff_rows b c) (class_map a) = class_map c"
proof -
  have step: "fold apply_edge (diff_rows a b) (class_map a) = class_map b"
    if dist: "distinct (map row_pane_id a)" "distinct (map row_pane_id b)" for a b
  proof
    fix p
    show "fold apply_edge (diff_rows a b) (class_map a) p = class_map b p"
    proof (cases "class_map a p = class_map b p")
      case True
      have "ed_pane_id e \<noteq> p" if "e \<in> set (diff_rows a b)" for e
        using conjunct1 [OF diff_edges [OF dist, of p "ed_from e" "ed_to e"]] that True by auto
      then have "p \<notin> ed_pane_id ` set (diff_rows a b)" by blast
      then show ?thesis using True by (simp add: fold_apply_edge(2))
    next
      case False
      then obtain e where e: "e \<in> set (diff_rows a b)" "ed_pane_id e = p" "ed_to e = class_map b p"
        using conjunct1 [OF diff_edges [OF dist, of p "class_map a p" "class_map b p"]] by auto
      have "fold apply_edge (diff_rows a b) (class_map a) (ed_pane_id e) = ed_to e"
        by (rule fold_apply_edge(1) [OF conjunct2 [OF diff_edges [OF dist]] e(1)])
      with e(2,3) show ?thesis by simp
    qed
  qed
  show ?thesis using step [OF assms(1,2)] step [OF assms(2,3)] by simp
qed

lemma diff_replays_witness:
  "fold apply_edge (diff_rows [plain_row ''%1'' Working False] [plain_row ''%1'' Idle True])
     (class_map [plain_row ''%1'' Working False]) = class_map [plain_row ''%1'' Idle True]"
  by (rule conjunct1 [OF diff_replays [of _ _ "[]"]]) code_simp+

section \<open>Classes and selectors\<close>

lemma token_codec_text: "token_from_str s = Inr t \<longleftrightarrow> s = token_text t"
proof (cases "s = ''done''")
  case True
  have "state_token st \<noteq> ''done''" for st by (cases st) simp_all
  then have "s \<noteq> state_token st" for st using True by metis
  with True show ?thesis by (cases t) (simp_all add: token_from_str_def)
next
  case False
  then show ?thesis
    by (cases "state_from_str s"; cases t)
       (auto simp: token_from_str_def simp flip: state_from_str_Inr)
qed

interpretation token_codec: codec token_text "\<lambda>s. ok (token_from_str s)" "\<lambda>_. True"
  by unfold_locales (auto simp: ok_Some_iff token_codec_text)

lemma vocabulary_lists_tokens: "VOCABULARY = join_with '', '' (map token_text ALL_TOKENS)"
  by code_simp

text \<open>The rank orders the classes, and only them.\<close>

lemma row_rank_class: "row_rank a = row_rank b \<longleftrightarrow> token_of a = token_of b"
  by (cases "row_state a"; cases "row_state b") (auto simp: row_rank_def token_of_def is_done_def)

text \<open>A row is in its own class's selection; \<open>idle\<close> also selects the done rows.\<close>

lemma token_matches_of: "token_matches t r \<longleftrightarrow> t = token_of r \<or> (t = Closed Idle \<and> token_of r = DoneToken)"
  by (cases t) (auto simp: token_of_def is_done_def)

lemma selector_empty_matches: "selector_is_empty s \<Longrightarrow> selector_matches s r"
  by (simp add: selector_is_empty_def selector_matches_def)

lemma selector_retain_filter: "selector_retain s rows = filter (selector_matches s) rows"
  by (auto simp: selector_retain_def selector_empty_matches)

text \<open>The comment on \<open>Selector\<close> has a pane whose cwd resolved to no repo match neither a \<open>repo\<close> nor a
  \<open>branch\<close> selection. It does match the empty name.\<close>

lemma selector_repo_unresolved:
  "row_repo r = None \<Longrightarrow> sl_repo s = Some w \<Longrightarrow> selector_matches s r \<Longrightarrow> w = []"
  by (simp add: selector_matches_def unwrap_text_def)

lemma selector_empty_repo_name:
  "selector_matches \<lparr>sl_session = None, sl_repo = Some [], sl_branch = None, sl_agent = None, sl_state = []\<rparr>
     (plain_row ''%1'' Idle False)"
  by (simp add: selector_matches_def unwrap_text_def plain_row_def)

end
