(* ===== verification/Action.thy ===== *)
theory Action
  imports Stamp
begin

text \<open>
  Action manifests (\<open>action.rs\<close>, \<open>action/schema.rs\<close>): the three kinds of action, their transports,
  and the validating loader. TOML decoding is a library: the two decoders the loader calls, the
  lenient version probe and the strict shape, are parameters, as is the engine's own version, which
  the build supplies. A \<open>BTreeMap\<close> is the list of its entries in key order.
\<close>

section \<open>Versions and tokens\<close>

record version =
  ver_major :: u64
  ver_minor :: u64
  ver_patch :: u64

definition version_less :: "version \<Rightarrow> version \<Rightarrow> bool" where
  "version_less a b =
     (ver_major a < ver_major b
      \<or> ver_major a = ver_major b
        \<and> (ver_minor a < ver_minor b
           \<or> ver_minor a = ver_minor b \<and> ver_patch a < ver_patch b))"

datatype version_error = NotANumber string string | TooManyComponents string

definition version_component :: "string \<Rightarrow> string list \<Rightarrow> nat \<Rightarrow> version_error + u64" where
  "version_component label parts i =
     (if length parts \<le> i then Inr 0
      else (case parse_uint u64_max (parts ! i) of
              Some n \<Rightarrow> Inr n | None \<Rightarrow> Inl (NotANumber label (parts ! i))))"

definition version_from_str :: "string \<Rightarrow> version_error + version" where
  "version_from_str s =
     (let parts = split_on (CHR ''.'') s in
      sum_bind (version_component ''major'' parts 0) (\<lambda>major.
      sum_bind (version_component ''minor'' parts 1) (\<lambda>minor.
      sum_bind (version_component ''patch'' parts 2) (\<lambda>patch.
        if 3 < length parts then Inl (TooManyComponents s)
        else Inr \<lparr>ver_major = major, ver_minor = minor, ver_patch = patch\<rparr>))))"

definition is_ascii_lower :: "char \<Rightarrow> bool" where
  "is_ascii_lower c = (97 \<le> byte c \<and> byte c \<le> 122)"

definition is_safe_token :: "string \<Rightarrow> bool" where
  "is_safe_token token =
     (token \<noteq> []
      \<and> list_all (\<lambda>b. is_ascii_lower b \<or> is_digit b \<or> b = CHR ''_'' \<or> b = CHR ''-'') token)"

section \<open>The schema\<close>

datatype api_op = PermissionReply | QuestionReply | QuestionReject | Interrupt

fun api_op_token :: "api_op \<Rightarrow> string" where
  "api_op_token PermissionReply = ''permission-reply''"
| "api_op_token QuestionReply = ''question-reply''"
| "api_op_token QuestionReject = ''question-reject''"
| "api_op_token Interrupt = ''interrupt''"

definition takes_reply :: "api_op \<Rightarrow> bool" where
  "takes_reply op = (op = PermissionReply)"

definition answers_a_request :: "api_op \<Rightarrow> bool" where
  "answers_a_request op = (op \<in> {PermissionReply, QuestionReply, QuestionReject})"

definition takes_answers :: "api_op \<Rightarrow> bool" where
  "takes_answers op = (op = QuestionReply)"

datatype api_reply = Once | Always | Reject

fun api_reply_token :: "api_reply \<Rightarrow> string" where
  "api_reply_token Once = ''once''"
| "api_reply_token Always = ''always''"
| "api_reply_token Reject = ''reject''"

record api_transport =
  ap_op :: api_op
  ap_reply :: "api_reply option"

record text_transport =
  tx_prefix :: "string list"
  tx_suffix :: "string list"
  tx_steer_now :: bool

datatype hook_verdict = Allow | Deny

fun hook_verdict_token :: "hook_verdict \<Rightarrow> string" where
  "hook_verdict_token Allow = ''allow''"
| "hook_verdict_token Deny = ''deny''"

record hook_transport =
  hk_verdict :: hook_verdict

datatype action_kind = Keys | Exec | TextKind

fun sends_keystrokes :: "action_kind \<Rightarrow> bool" where
  "sends_keystrokes Keys = True"
| "sends_keystrokes TextKind = True"
| "sends_keystrokes Exec = False"

record when_t =
  wh_state :: "agent_state list"
  wh_detail :: "detail list"
  wh_context_pct_min :: "u8 option"
  wh_context_pct_max :: "u8 option"

datatype requirement = ReqSession | ReqCwd | ReqPid | ReqTitle

fun requirement_token :: "requirement \<Rightarrow> string" where
  "requirement_token ReqSession = ''session''"
| "requirement_token ReqCwd = ''cwd''"
| "requirement_token ReqPid = ''pid''"
| "requirement_token ReqTitle = ''title''"

text \<open>The refusal carries the token; the rendered message around it is presentation.\<close>

definition requirement_from_str :: "string \<Rightarrow> string + requirement" where
  "requirement_from_str s =
     (if s = ''session'' then Inr ReqSession
      else if s = ''cwd'' then Inr ReqCwd
      else if s = ''pid'' then Inr ReqPid
      else if s = ''title'' then Inr ReqTitle
      else Inl s)"

type_synonym 'v table = "(string \<times> 'v) list"

record action_manifest =
  am_min_engine_version :: version
  am_name :: string
  am_label :: string
  am_kind :: action_kind
  am_when :: "when_t option"
  am_agents :: "string list"
  am_requires :: "requirement list"
  am_confirm :: bool
  am_detach :: bool
  am_timeout_ms :: u64
  am_detach_timeout_ms :: u64
  am_command :: "string option"
  am_keys :: "string list table"
  am_api :: "api_transport table"
  am_text :: "text_transport table"
  am_sigils :: "nat list"
  am_hook :: "hook_transport table"

definition TEXT_MAX_BYTES :: nat where "TEXT_MAX_BYTES = 4096"

text \<open>The code points of \<open>/\<close> and \<open>!\<close>.\<close>

definition DEFAULT_SIGILS :: "nat list" where "DEFAULT_SIGILS = [47, 33]"

definition DEFAULT_TIMEOUT_MS :: u64 where "DEFAULT_TIMEOUT_MS = 30000"
definition DEFAULT_DETACH_TIMEOUT_MS :: u64 where "DEFAULT_DETACH_TIMEOUT_MS = 900000"

section \<open>Errors\<close>

datatype structural_rule =
    KeysEmpty
  | KeysForbidsCommand
  | KeysForbidsDetach
  | KeysForbidsAgents
  | ExecNeedsCommand
  | ExecForbidsKeys
  | ExecForbidsApi
  | KeysForbidsText
  | ExecForbidsText
  | TextEmpty
  | TextForbidsCommand
  | TextForbidsDetach
  | TextForbidsAgents
  | TextForbidsOtherTransports
  | SigilsNeedText
  | ExecForbidsHook

datatype 'e action_error =
    AParse string 'e
  | ABadVersion string version_error
  | AEngineTooOld string version version
  | ANameMismatch string string string
  | ABadToken string string string
  | AStructural string structural_rule
  | ABadContextBound string string
  | AAgentInBothTransports string string
  | ABadSigil string string
  | AAgentInApiAndHook string string
  | AApiReplyMismatch string string string bool

text \<open>The last field of a reply mismatch: whether the operation requires a verdict.\<close>

section \<open>The raw shape\<close>

datatype raw_kind = RawKeys | RawExec | RawText

record raw_action =
  ra_min_engine_version :: string
  ra_name :: string
  ra_label :: string
  ra_kind :: raw_kind
  ra_when :: "when_t option"
  ra_agents :: "string list"
  ra_requires :: "requirement list"
  ra_confirm :: "bool option"
  ra_detach :: "bool option"
  ra_timeout_ms :: "u64 option"
  ra_detach_timeout_ms :: "u64 option"
  ra_command :: "string option"
  ra_keys :: "string list table"
  ra_api :: "api_transport table"
  ra_text :: "text_transport table"
  ra_hook :: "hook_transport table"
  ra_sigils :: "string list option"

section \<open>The loader\<close>

text \<open>\<open>char::is_whitespace\<close> on a code point.\<close>

definition char_is_whitespace :: "nat \<Rightarrow> bool" where
  "char_is_whitespace c =
     ((9 \<le> c \<and> c \<le> 13) \<or> c = 32 \<or> c = 133 \<or> c = 160 \<or> c = 5760 \<or> (8192 \<le> c \<and> c \<le> 8202)
      \<or> c = 8232 \<or> c = 8233 \<or> c = 8239 \<or> c = 8287 \<or> c = 12288)"

text \<open>\<open>trim_start\<close> and \<open>trim_end\<close> over code points.\<close>

definition trim_start :: "nat list \<Rightarrow> nat list" where
  "trim_start cs = dropWhile char_is_whitespace cs"

definition trim_end :: "nat list \<Rightarrow> nat list" where
  "trim_end cs = rev (dropWhile char_is_whitespace (rev cs))"

text \<open>An early return, and a loop of them.\<close>

definition reject_if :: "bool \<Rightarrow> 'e \<Rightarrow> 'e + unit" where
  "reject_if c e = (if c then Inl e else Inr ())"

fun check_all :: "('a \<Rightarrow> 'e + unit) \<Rightarrow> 'a list \<Rightarrow> 'e + unit" where
  "check_all f [] = Inr ()"
| "check_all f (x # xs) = sum_bind (f x) (\<lambda>_. check_all f xs)"

lemma reject_if_Inr [simp]: "reject_if c e = Inr u \<longleftrightarrow> \<not> c"
  by (simp add: reject_if_def)

lemma check_all_Inr: "check_all f xs = Inr u \<longleftrightarrow> list_all (\<lambda>x. f x = Inr ()) xs"
  by (induction xs) (auto simp: sum_bind_Inr)

definition has_key :: "'v table \<Rightarrow> string \<Rightarrow> bool" where
  "has_key t k = (k \<in> fst ` set t)"

definition shared_key :: "'v table \<Rightarrow> 'w table \<Rightarrow> string option" where
  "shared_key t u = find (has_key u) (map fst t)"

definition validate_kind :: "raw_action \<Rightarrow> string \<Rightarrow> 'e action_error + unit" where
  "validate_kind raw file =
     (case ra_kind raw of
        RawKeys \<Rightarrow>
          sum_bind (reject_if (ra_keys raw = [] \<and> ra_api raw = [] \<and> ra_hook raw = [])
                      (AStructural file KeysEmpty)) (\<lambda>_.
          sum_bind (reject_if (ra_command raw \<noteq> None) (AStructural file KeysForbidsCommand)) (\<lambda>_.
          sum_bind (reject_if (ra_detach raw \<noteq> None) (AStructural file KeysForbidsDetach)) (\<lambda>_.
          sum_bind (reject_if (ra_agents raw \<noteq> []) (AStructural file KeysForbidsAgents)) (\<lambda>_.
          sum_bind (case shared_key (ra_api raw) (ra_keys raw) of
                      Some agent \<Rightarrow> Inl (AAgentInBothTransports file agent) | None \<Rightarrow> Inr ()) (\<lambda>_.
          sum_bind (reject_if (ra_text raw \<noteq> []) (AStructural file KeysForbidsText)) (\<lambda>_.
          case shared_key (ra_hook raw) (ra_api raw) of
            Some agent \<Rightarrow> Inl (AAgentInApiAndHook file agent) | None \<Rightarrow> Inr ()))))))
      | RawExec \<Rightarrow>
          sum_bind (reject_if (ra_command raw = None) (AStructural file ExecNeedsCommand)) (\<lambda>_.
          sum_bind (reject_if (ra_keys raw \<noteq> []) (AStructural file ExecForbidsKeys)) (\<lambda>_.
          sum_bind (reject_if (ra_api raw \<noteq> []) (AStructural file ExecForbidsApi)) (\<lambda>_.
          sum_bind (reject_if (ra_text raw \<noteq> []) (AStructural file ExecForbidsText)) (\<lambda>_.
          reject_if (ra_hook raw \<noteq> []) (AStructural file ExecForbidsHook)))))
      | RawText \<Rightarrow>
          sum_bind (reject_if (ra_text raw = []) (AStructural file TextEmpty)) (\<lambda>_.
          sum_bind (reject_if (ra_command raw \<noteq> None) (AStructural file TextForbidsCommand)) (\<lambda>_.
          sum_bind (reject_if (ra_detach raw \<noteq> None) (AStructural file TextForbidsDetach)) (\<lambda>_.
          sum_bind (reject_if (ra_agents raw \<noteq> []) (AStructural file TextForbidsAgents)) (\<lambda>_.
          reject_if (ra_keys raw \<noteq> [] \<or> ra_api raw \<noteq> [])
            (AStructural file TextForbidsOtherTransports))))))"

definition validate_token :: "string \<Rightarrow> string \<Rightarrow> string \<Rightarrow> 'e action_error + unit" where
  "validate_token file field token = reject_if (\<not> is_safe_token token) (ABadToken file field token)"

definition validate_agents :: "raw_action \<Rightarrow> string \<Rightarrow> 'e action_error + unit" where
  "validate_agents raw file =
     sum_bind (check_all (validate_token file ''[keys] agent'') (map fst (ra_keys raw))) (\<lambda>_.
     sum_bind (check_all (\<lambda>(agent, transport).
          sum_bind (validate_token file ''[api] agent'' agent) (\<lambda>_.
          reject_if (takes_reply (ap_op transport) \<noteq> (ap_reply transport \<noteq> None))
            (AApiReplyMismatch file agent (api_op_token (ap_op transport)) (takes_reply (ap_op transport)))))
        (ra_api raw)) (\<lambda>_.
     sum_bind (check_all (validate_token file ''[text] agent'') (map fst (ra_text raw))) (\<lambda>_.
     sum_bind (check_all (validate_token file ''[hook] agent'') (map fst (ra_hook raw))) (\<lambda>_.
     check_all (validate_token file ''agents'') (ra_agents raw)))))"

fun collect_sigils :: "string \<Rightarrow> string list \<Rightarrow> 'e action_error + nat list" where
  "collect_sigils file [] = Inr []"
| "collect_sigils file (sigil # rest) =
     (case chars sigil of
        [c] \<Rightarrow> if char_is_whitespace c then Inl (ABadSigil file sigil)
               else map_sum id ((#) c) (collect_sigils file rest)
      | _ \<Rightarrow> Inl (ABadSigil file sigil))"

definition validate_sigils :: "string list option \<Rightarrow> string \<Rightarrow> 'e action_error + nat list" where
  "validate_sigils raw file =
     (case raw of None \<Rightarrow> Inr DEFAULT_SIGILS | Some list \<Rightarrow> collect_sigils file list)"

definition context_bound :: "string \<Rightarrow> string \<Rightarrow> u8 option \<Rightarrow> 'e action_error + unit" where
  "context_bound file field v =
     (case v of
        None \<Rightarrow> Inr ()
      | Some n \<Rightarrow> reject_if (100 < n) (ABadContextBound file (field @ '' '' @ show_nat n @ '' is out of 0..=100'')))"

definition validate_when :: "when_t option \<Rightarrow> string \<Rightarrow> 'e action_error + when_t option" where
  "validate_when raw file =
     (case raw of
        None \<Rightarrow> Inr None
      | Some w \<Rightarrow>
          sum_bind (check_all (validate_token file ''[when] detail'') (wh_detail w)) (\<lambda>_.
          sum_bind (context_bound file ''context_pct_min'' (wh_context_pct_min w)) (\<lambda>_.
          sum_bind (context_bound file ''context_pct_max'' (wh_context_pct_max w)) (\<lambda>_.
          case (wh_context_pct_min w, wh_context_pct_max w) of
            (Some lo, Some hi) \<Rightarrow>
              if hi < lo then
                Inl (ABadContextBound file
                  (''context_pct_min '' @ show_nat lo @ '' exceeds context_pct_max '' @ show_nat hi))
              else Inr (Some w)
          | _ \<Rightarrow> Inr (Some w)))))"

fun action_kind_of :: "raw_kind \<Rightarrow> action_kind" where
  "action_kind_of RawKeys = Keys"
| "action_kind_of RawExec = Exec"
| "action_kind_of RawText = TextKind"

definition unwrap_or :: "'a option \<Rightarrow> 'a \<Rightarrow> 'a" where
  "unwrap_or m d = (case m of None \<Rightarrow> d | Some x \<Rightarrow> x)"

definition validate_action ::
  "version \<Rightarrow> raw_action \<Rightarrow> string \<Rightarrow> string \<Rightarrow> 'e action_error + action_manifest" where
  "validate_action engine raw stem file =
     sum_bind (case version_from_str (ra_min_engine_version raw) of
                 Inl reason \<Rightarrow> Inl (ABadVersion file reason) | Inr v \<Rightarrow> Inr v) (\<lambda>required.
     sum_bind (reject_if (version_less engine required) (AEngineTooOld file required engine)) (\<lambda>_.
     sum_bind (validate_token file ''name'' (ra_name raw)) (\<lambda>_.
     sum_bind (reject_if (ra_name raw \<noteq> stem) (ANameMismatch file (ra_name raw) stem)) (\<lambda>_.
     sum_bind (validate_kind raw file) (\<lambda>_.
     sum_bind (reject_if (ra_sigils raw \<noteq> None \<and> action_kind_of (ra_kind raw) \<noteq> TextKind)
                 (AStructural file SigilsNeedText)) (\<lambda>_.
     sum_bind (validate_agents raw file) (\<lambda>_.
     sum_bind (validate_sigils (ra_sigils raw) file) (\<lambda>sigils.
     sum_bind (validate_when (ra_when raw) file) (\<lambda>when_opt.
       Inr \<lparr>am_min_engine_version = required, am_name = ra_name raw, am_label = ra_label raw,
            am_kind = action_kind_of (ra_kind raw), am_when = when_opt, am_agents = ra_agents raw,
            am_requires = ra_requires raw, am_confirm = unwrap_or (ra_confirm raw) False,
            am_detach = unwrap_or (ra_detach raw) False,
            am_timeout_ms = unwrap_or (ra_timeout_ms raw) DEFAULT_TIMEOUT_MS,
            am_detach_timeout_ms = unwrap_or (ra_detach_timeout_ms raw) DEFAULT_DETACH_TIMEOUT_MS,
            am_command = ra_command raw, am_keys = ra_keys raw, am_api = ra_api raw,
            am_text = ra_text raw, am_sigils = sigils, am_hook = ra_hook raw\<rparr>)))))))))"

text \<open>\<open>probe\<close> and \<open>decode\<close> stand for \<open>toml::from_str\<close> at the two shapes.\<close>

definition action_parse ::
  "(string \<Rightarrow> string option) \<Rightarrow> (string \<Rightarrow> 'e + raw_action) \<Rightarrow> version \<Rightarrow>
   string \<Rightarrow> string \<Rightarrow> string \<Rightarrow> 'e action_error + action_manifest" where
  "action_parse probe decode engine toml_src stem file =
     sum_bind (case probe toml_src of
                 None \<Rightarrow> Inr ()
               | Some text \<Rightarrow>
                   (case version_from_str text of
                      Inl _ \<Rightarrow> Inr ()
                    | Inr required \<Rightarrow>
                        reject_if (version_less engine required) (AEngineTooOld file required engine))) (\<lambda>_.
     sum_bind (case decode toml_src of Inl e \<Rightarrow> Inl (AParse file e) | Inr raw \<Rightarrow> Inr raw) (\<lambda>raw.
       validate_action engine raw stem file))"

end
