(* ===== verification/Gate.thy ===== *)
theory Gate
  imports Action
begin

text \<open>
  The pure gate of an action against one pane's row (\<open>action/gate.rs\<close>): applicability, the \<open>when\<close>
  and \<open>requires\<close> checks, the steering refusal and the payload check of a text action. Then what the
  loader guarantees of an accepted manifest, and the gate's verdict as an ordered list of causes.
\<close>

section \<open>Rows and verdicts\<close>

definition has_context_bound :: "when_t \<Rightarrow> bool" where
  "has_context_bound w = (wh_context_pct_min w \<noteq> None \<or> wh_context_pct_max w \<noteq> None)"

record context_keys =
  ck_session :: bool
  ck_cwd :: bool
  ck_pid :: bool
  ck_title :: bool

fun keys_has :: "context_keys \<Rightarrow> requirement \<Rightarrow> bool" where
  "keys_has k ReqSession = ck_session k"
| "keys_has k ReqCwd = ck_cwd k"
| "keys_has k ReqPid = ck_pid k"
| "keys_has k ReqTitle = ck_title k"

record gate_input =
  gi_agent :: string
  gi_state :: agent_state
  gi_detail :: "string option"
  gi_context_pct :: "u8 option"
  gi_context_covered :: bool
  gi_context_keys :: context_keys

datatype refusal_reason = WrongAgent | NoCoverage | RequiresUnmet | Gated

fun refusal_token :: "refusal_reason \<Rightarrow> string" where
  "refusal_token WrongAgent = ''wrong-agent''"
| "refusal_token NoCoverage = ''no-coverage''"
| "refusal_token RequiresUnmet = ''requires-unmet''"
| "refusal_token Gated = ''gated''"

datatype gate_outcome = Fireable | Refused refusal_reason

section \<open>The gate\<close>

definition applies_to :: "action_manifest \<Rightarrow> string \<Rightarrow> bool" where
  "applies_to a agent =
     (case am_kind a of
        Keys \<Rightarrow> has_key (am_keys a) agent \<or> has_key (am_api a) agent \<or> has_key (am_hook a) agent
      | Exec \<Rightarrow> am_agents a = [] \<or> list_ex (\<lambda>x. x = agent) (am_agents a)
      | TextKind \<Rightarrow> has_key (am_text a) agent)"

definition keys_for :: "action_manifest \<Rightarrow> string \<Rightarrow> string list option" where
  "keys_for a agent = map_of (am_keys a) agent"

definition api_for :: "action_manifest \<Rightarrow> string \<Rightarrow> api_transport option" where
  "api_for a agent = map_of (am_api a) agent"

definition text_for :: "action_manifest \<Rightarrow> string \<Rightarrow> text_transport option" where
  "text_for a agent = map_of (am_text a) agent"

definition hook_for :: "action_manifest \<Rightarrow> string \<Rightarrow> hook_transport option" where
  "hook_for a agent = map_of (am_hook a) agent"

datatype text_refusal = TEmpty | TTooLong | TControlBytes | TSigil

fun text_refusal_token :: "text_refusal \<Rightarrow> string" where
  "text_refusal_token TEmpty = ''empty''"
| "text_refusal_token TTooLong = ''too-long''"
| "text_refusal_token TControlBytes = ''control-bytes''"
| "text_refusal_token TSigil = ''sigil''"

definition check_text :: "action_manifest \<Rightarrow> string \<Rightarrow> text_refusal + unit" where
  "check_text a text =
     (let trimmed = trim_start (chars text) in
      if trim_end trimmed = [] then Inl TEmpty
      else if TEXT_MAX_BYTES < length text then Inl TTooLong
      else if has_control text then Inl TControlBytes
      else if (case trimmed of [] \<Rightarrow> False | c # _ \<Rightarrow> c \<in> set (am_sigils a)) then Inl TSigil
      else Inr ())"

definition check_requires :: "action_manifest \<Rightarrow> gate_input \<Rightarrow> gate_outcome" where
  "check_requires a i =
     (if list_all (keys_has (gi_context_keys i)) (am_requires a) then Fireable else Refused RequiresUnmet)"

definition steer_now_refused :: "action_manifest \<Rightarrow> gate_input \<Rightarrow> bool" where
  "steer_now_refused a i =
     (gi_state i = Working \<and> is_some_and (text_for a (gi_agent i)) (\<lambda>t. \<not> tx_steer_now t))"

definition detail_unmatched :: "when_t \<Rightarrow> gate_input \<Rightarrow> bool" where
  "detail_unmatched w i =
     (wh_detail w \<noteq> []
      \<and> \<not> is_some_and (gi_detail i) (\<lambda>d. list_ex (\<lambda>x. x = d) (wh_detail w)))"

definition context_unmatched :: "when_t \<Rightarrow> gate_input \<Rightarrow> bool" where
  "context_unmatched w i =
     (has_context_bound w
      \<and> (case gi_context_pct i of
           None \<Rightarrow> True
         | Some pct \<Rightarrow> is_some_and (wh_context_pct_min w) (\<lambda>lo. pct < lo)
                       \<or> is_some_and (wh_context_pct_max w) (\<lambda>hi. hi < pct)))"

definition when_gate :: "action_manifest \<Rightarrow> gate_input \<Rightarrow> gate_outcome" where
  "when_gate a i =
     (if \<not> applies_to a (gi_agent i) then Refused WrongAgent
      else (case am_when a of
              None \<Rightarrow> check_requires a i
            | Some w \<Rightarrow>
                if has_context_bound w \<and> \<not> gi_context_covered i then Refused NoCoverage
                else (case check_requires a i of
                        Refused r \<Rightarrow> Refused r
                      | Fireable \<Rightarrow>
                          if wh_state w \<noteq> [] \<and> gi_state i \<notin> set (wh_state w) then Refused Gated
                          else if detail_unmatched w i then Refused Gated
                          else if context_unmatched w i then Refused Gated
                          else Fireable)))"

definition evaluate_gate :: "action_manifest \<Rightarrow> gate_input \<Rightarrow> gate_outcome" where
  "evaluate_gate a i =
     (case when_gate a i of
        Fireable \<Rightarrow> if steer_now_refused a i then Refused Gated else Fireable
      | outcome \<Rightarrow> outcome)"

section \<open>What the loader accepts\<close>

text \<open>The discipline of the transports per kind, as an accepted manifest has it.\<close>

definition transports_ok :: "action_manifest \<Rightarrow> bool" where
  "transports_ok a =
     (case am_kind a of
        Keys \<Rightarrow>
          (am_keys a \<noteq> [] \<or> am_api a \<noteq> [] \<or> am_hook a \<noteq> []) \<and> am_text a = [] \<and> am_command a = None
          \<and> am_agents a = [] \<and> \<not> am_detach a
          \<and> fst ` set (am_api a) \<inter> fst ` set (am_keys a) = {}
          \<and> fst ` set (am_hook a) \<inter> fst ` set (am_api a) = {}
      | Exec \<Rightarrow>
          am_command a \<noteq> None \<and> am_keys a = [] \<and> am_api a = [] \<and> am_text a = [] \<and> am_hook a = []
      | TextKind \<Rightarrow>
          am_text a \<noteq> [] \<and> am_keys a = [] \<and> am_api a = [] \<and> am_command a = None
          \<and> am_agents a = [] \<and> \<not> am_detach a)"

definition agents_ok :: "action_manifest \<Rightarrow> bool" where
  "agents_ok a =
     (list_all is_safe_token (map fst (am_keys a)) \<and> list_all is_safe_token (map fst (am_api a))
      \<and> list_all is_safe_token (map fst (am_text a)) \<and> list_all is_safe_token (map fst (am_hook a))
      \<and> list_all is_safe_token (am_agents a)
      \<and> list_all (\<lambda>(_, t). takes_reply (ap_op t) = (ap_reply t \<noteq> None)) (am_api a))"

definition when_ok :: "when_t \<Rightarrow> bool" where
  "when_ok w =
     (list_all is_safe_token (wh_detail w)
      \<and> is_none_or (wh_context_pct_min w) (\<lambda>lo. lo \<le> 100)
      \<and> is_none_or (wh_context_pct_max w) (\<lambda>hi. hi \<le> 100
          \<and> is_none_or (wh_context_pct_min w) (\<lambda>lo. lo \<le> hi)))"

definition action_ok :: "version \<Rightarrow> string \<Rightarrow> action_manifest \<Rightarrow> bool" where
  "action_ok engine stem a =
     (\<not> version_less engine (am_min_engine_version a) \<and> am_name a = stem \<and> is_safe_token stem
      \<and> transports_ok a \<and> agents_ok a \<and> is_none_or (am_when a) when_ok
      \<and> list_all (\<lambda>c. \<not> char_is_whitespace c) (am_sigils a)
      \<and> (am_kind a = TextKind \<or> am_sigils a = DEFAULT_SIGILS))"

lemma validate_token_Inr [simp]: "validate_token file field t = Inr u \<longleftrightarrow> is_safe_token t"
  by (simp add: validate_token_def)

lemma shared_key_None: "shared_key t u = None \<longleftrightarrow> fst ` set t \<inter> fst ` set u = {}"
  by (auto simp: shared_key_def find_None_iff has_key_def)

lemma collect_sigils_Inr:
  "collect_sigils file xs = Inr cs \<Longrightarrow> list_all (\<lambda>c. \<not> char_is_whitespace c) cs"
  by (induction xs arbitrary: cs)
    (auto split: list.splits if_splits simp: map_sum_def sum.case_eq_if)

lemma validate_sigils_Inr:
  "validate_sigils raw file = Inr cs \<Longrightarrow>
     list_all (\<lambda>c. \<not> char_is_whitespace c) cs \<and> (raw = None \<longrightarrow> cs = DEFAULT_SIGILS)"
  by (auto simp: validate_sigils_def DEFAULT_SIGILS_def char_is_whitespace_def
      dest: collect_sigils_Inr split: option.splits)

lemma validate_when_Inr:
  "validate_when raw file = Inr w \<Longrightarrow> w = raw \<and> is_none_or w when_ok"
  by (auto simp: validate_when_def when_ok_def context_bound_def sum_bind_Inr check_all_Inr
      split: option.splits if_splits)

lemma validate_agents_Inr:
  "validate_agents raw file = Inr u \<longleftrightarrow>
     list_all is_safe_token (map fst (ra_keys raw)) \<and> list_all is_safe_token (map fst (ra_api raw))
     \<and> list_all is_safe_token (map fst (ra_text raw)) \<and> list_all is_safe_token (map fst (ra_hook raw))
     \<and> list_all is_safe_token (ra_agents raw)
     \<and> list_all (\<lambda>(_, t). takes_reply (ap_op t) = (ap_reply t \<noteq> None)) (ra_api raw)"
  by (auto simp: validate_agents_def sum_bind_Inr check_all_Inr list_all_iff case_prod_unfold)

lemma validate_action_ok:
  assumes "(validate_action engine raw stem file :: 'e action_error + action_manifest) = Inr a"
  shows "action_ok engine stem a"
proof -
  have kind: "(validate_kind raw file :: 'e action_error + unit) = Inr ()"
    and agents: "(validate_agents raw file :: 'e action_error + unit) = Inr ()"
    and sig: "(validate_sigils (ra_sigils raw) file :: 'e action_error + nat list) = Inr (am_sigils a)"
    and wh: "(validate_when (ra_when raw) file :: 'e action_error + when_t option) = Inr (am_when a)"
    and rest: "\<not> version_less engine (am_min_engine_version a)" "is_safe_token (ra_name raw)"
      "ra_name raw = stem" "ra_sigils raw = None \<or> action_kind_of (ra_kind raw) = TextKind"
    and fields: "am_name a = ra_name raw" "am_kind a = action_kind_of (ra_kind raw)"
      "am_agents a = ra_agents raw" "am_detach a = unwrap_or (ra_detach raw) False"
      "am_command a = ra_command raw" "am_keys a = ra_keys raw" "am_api a = ra_api raw"
      "am_text a = ra_text raw" "am_hook a = ra_hook raw"
    using assms by (auto simp: validate_action_def sum_bind_Inr)
  have "transports_ok a"
    using kind unfolding transports_ok_def fields validate_kind_def
    by (cases "ra_kind raw") (auto simp: sum_bind_Inr shared_key_None unwrap_or_def split: option.splits)
  moreover have "agents_ok a"
    using agents by (simp add: agents_ok_def fields validate_agents_Inr)
  ultimately show ?thesis
    using rest validate_sigils_Inr [OF sig] validate_when_Inr [OF wh]
    by (auto simp: action_ok_def fields)
qed

lemma action_parse_ok: "action_parse probe decode engine src stem file = Inr a \<Longrightarrow> action_ok engine stem a"
  by (auto simp: action_parse_def sum_bind_Inr intro: validate_action_ok)

lemma map_of_None_iff_key: "map_of t k = None \<longleftrightarrow> \<not> has_key t k"
  by (simp add: has_key_def map_of_eq_None_iff)

section \<open>The properties\<close>


definition sample_raw :: raw_action where
  "sample_raw =
     \<lparr>ra_min_engine_version = ''0.1'', ra_name = ''approve'', ra_label = ''Approve'', ra_kind = RawKeys,
      ra_when = Some \<lparr>wh_state = [Blocked], wh_detail = [''permission''], wh_context_pct_min = None,
        wh_context_pct_max = Some 90\<rparr>,
      ra_agents = [], ra_requires = [ReqSession], ra_confirm = None, ra_detach = None,
      ra_timeout_ms = None, ra_detach_timeout_ms = None, ra_command = None,
      ra_keys = [(''claude'', [''1''])],
      ra_api = [(''opencode'', \<lparr>ap_op = PermissionReply, ap_reply = Some Once\<rparr>)],
      ra_text = [], ra_hook = [(''claude'', \<lparr>hk_verdict = Allow\<rparr>)], ra_sigils = None\<rparr>"

definition sample_action :: action_manifest where
  "sample_action =
     \<lparr>am_min_engine_version = \<lparr>ver_major = 0, ver_minor = 1, ver_patch = 0\<rparr>, am_name = ''approve'',
      am_label = ''Approve'', am_kind = Keys, am_when = ra_when sample_raw, am_agents = [],
      am_requires = [ReqSession], am_confirm = False, am_detach = False, am_timeout_ms = 30000,
      am_detach_timeout_ms = 900000, am_command = None, am_keys = ra_keys sample_raw,
      am_api = ra_api sample_raw, am_text = [], am_sigils = [47, 33], am_hook = ra_hook sample_raw\<rparr>"

definition sample_engine :: version where
  "sample_engine = \<lparr>ver_major = 0, ver_minor = 3, ver_patch = 1\<rparr>"

lemma sample_parses:
  "action_parse (\<lambda>_. Some ''0.1'') (\<lambda>_. (Inr sample_raw :: unit + raw_action)) sample_engine [] ''approve''
     ''approve.toml'' = Inr sample_action"
  by code_simp


text \<open>For an accepted keystroke action an agent it applies to has either an HTTP
  transport or a pane transport (keys, the hook lane, or both), never both and never neither; a text
  action reaches an agent through its text entry alone; an exec action has no transport. So the
  broker never has to choose between two deliveries.\<close>

theorem one_transport:
  assumes "action_parse probe decode engine src stem file = Inr a" and "applies_to a agent"
  shows "(case am_kind a of
      Keys \<Rightarrow> text_for a agent = None
        \<and> (api_for a agent \<noteq> None) \<noteq> (keys_for a agent \<noteq> None \<or> hook_for a agent \<noteq> None)
    | Exec \<Rightarrow> keys_for a agent = None \<and> api_for a agent = None \<and> text_for a agent = None
        \<and> hook_for a agent = None
    | TextKind \<Rightarrow> text_for a agent \<noteq> None \<and> keys_for a agent = None \<and> api_for a agent = None)"
proof -
  have "transports_ok a" using action_parse_ok [OF assms(1)] by (simp add: action_ok_def)
  then show ?thesis
    using assms(2)
    by (auto simp: transports_ok_def applies_to_def keys_for_def api_for_def text_for_def hook_for_def
        map_of_None_iff_key has_key_def split: action_kind.splits)
qed

lemma one_transport_witness:
  "text_for sample_action ''claude'' = None
   \<and> (api_for sample_action ''claude'' \<noteq> None)
      \<noteq> (keys_for sample_action ''claude'' \<noteq> None \<or> hook_for sample_action ''claude'' \<noteq> None)"
proof -
  have "am_kind sample_action = Keys" "applies_to sample_action ''claude''" by code_simp+
  then show ?thesis using one_transport [OF sample_parses, of "''claude''"] by simp
qed

definition transient_refusal :: "action_manifest \<Rightarrow> gate_input \<Rightarrow> bool" where
  "transient_refusal a i =
     (steer_now_refused a i
      \<or> is_some_and (am_when a) (\<lambda>w. wh_state w \<noteq> [] \<and> gi_state i \<notin> set (wh_state w)
          \<or> detail_unmatched w i \<or> context_unmatched w i))"

text \<open>The gate's verdict is the first that applies of the four causes in
  their order of permanence: the action never applies to this agent; a context bound on an agent
  without telemetry; an empty required key; and the transient ones, among them a text into a working
  pane whose agent does not queue it. Only the last group reads the state, the detail and the metric.\<close>

theorem gate_most_permanent_first:
  "evaluate_gate a i =
     (if \<not> applies_to a (gi_agent i) then Refused WrongAgent
      else if is_some_and (am_when a) has_context_bound \<and> \<not> gi_context_covered i then Refused NoCoverage
      else if list_ex (\<lambda>r. \<not> keys_has (gi_context_keys i) r) (am_requires a) then Refused RequiresUnmet
      else if transient_refusal a i then Refused Gated else Fireable)"
  by (cases "am_when a")
    (auto simp: evaluate_gate_def when_gate_def check_requires_def transient_refusal_def
      list_all_iff list_ex_iff split: if_splits)

text \<open>A payload the host lets through is one line of at most 4096 bytes with
  something to say, and its first visible character is not one of the action's sigils, however much white
  space precedes it: the agent cannot read it as a command of its own.\<close>

theorem text_is_one_message:
  assumes "check_text a text = Inr ()"
  shows "\<exists>space c rest. chars text = space @ c # rest \<and> list_all char_is_whitespace space
      \<and> \<not> char_is_whitespace c \<and> c \<notin> set (am_sigils a)
      \<and> list_all (\<lambda>x. 32 \<le> x \<and> \<not> (127 \<le> x \<and> x \<le> 159)) (chars text) \<and> length text \<le> 4096"
proof -
  obtain c rest where trimmed: "trim_start (chars text) = c # rest" "c \<notin> set (am_sigils a)"
    and "\<not> has_control text" "length text \<le> TEXT_MAX_BYTES"
    using assms by (auto simp: check_text_def Let_def trim_end_def split: if_splits list.splits)
  moreover have "chars text = takeWhile char_is_whitespace (chars text) @ c # rest"
    using trimmed(1) takeWhile_dropWhile_id [of char_is_whitespace "chars text"]
    by (simp add: trim_start_def)
  moreover have "\<not> char_is_whitespace c"
    using trimmed(1) by (simp add: trim_start_def dropWhile_eq_Cons_conv)
  moreover have "list_all char_is_whitespace (takeWhile char_is_whitespace (chars text))"
    by (auto simp: list_all_iff dest: set_takeWhileD)
  ultimately show ?thesis
    by (auto simp: has_control_def char_is_control_def list_ex_iff list_all_iff TEXT_MAX_BYTES_def not_less)
qed

lemma text_is_one_message_witness:
  "\<exists>space c rest. chars ''  go on'' = space @ c # rest \<and> list_all char_is_whitespace space
      \<and> \<not> char_is_whitespace c \<and> c \<notin> set (am_sigils sample_action)
      \<and> list_all (\<lambda>x. 32 \<le> x \<and> \<not> (127 \<le> x \<and> x \<le> 159)) (chars ''  go on'')
      \<and> length ''  go on'' \<le> 4096"
proof -
  have "check_text sample_action ''  go on'' = Inr ()" by code_simp
  then show ?thesis by (rule text_is_one_message)
qed

text \<open>The rules as documented let only a keystroke action carry a \<open>[hook]\<close> table. The loader refuses
  one on an exec action and accepts it on a text action.\<close>

lemma text_action_with_hook_loads:
  "validate_kind (sample_raw\<lparr>ra_kind := RawText, ra_keys := [], ra_api := [],
      ra_text := [(''claude'', \<lparr>tx_prefix = [], tx_suffix = [], tx_steer_now = False\<rparr>)]\<rparr>) file
   = (Inr () :: unit action_error + unit)"
  by (simp add: validate_kind_def sample_raw_def reject_if_def)

end
