(* ===== verification/Agent_Manifest.thy ===== *)
theory Agent_Manifest
  imports Action Program_Types
begin

text \<open>
  The agent manifest (\<open>manifest.rs\<close>): identity, hooks, capture coverage, screen rules with their
  regions and matchers, detail spellings, telemetry and program applications, and the validating
  loader. As for actions, the two TOML decoders and the engine's version are parameters.
\<close>

section \<open>The schema\<close>

datatype channel = ChEvent | ChFileTail | ChScreen

definition channel_from_str :: "string \<Rightarrow> string + channel" where
  "channel_from_str s =
     (if s = ''event'' then Inr ChEvent
      else if s = ''file-tail'' then Inr ChFileTail
      else if s = ''screen'' then Inr ChScreen
      else Inl s)"

record context_channel =
  cc_channel :: channel
  cc_format :: string

record telemetry =
  tl_context :: "context_channel option"

record identity =
  id_process_names :: "string list"
  id_title_patterns :: "string list"

datatype cover_token = CoverState agent_state | CoverLifecycle

definition cover_token_from_str :: "string \<Rightarrow> string + cover_token" where
  "cover_token_from_str s =
     (if s = ''lifecycle'' then Inr CoverLifecycle
      else (case state_from_str s of Inr st \<Rightarrow> Inr (CoverState st) | Inl _ \<Rightarrow> Inl s))"

record hook_map =
  hm_event :: string
  hm_matcher :: "string option"
  hm_claim :: claim
  hm_turn_end :: bool

record hooks =
  ho_covers :: "cover_token list"
  ho_map :: "hook_map list"

datatype region = TailLines nat | BottomNonEmptyLines nat | Visible | TitleRegion

definition usize_max :: nat where "usize_max = u64_max"

text \<open>\<open>inner.trim().parse::<usize>()\<close>: the trim is Unicode's, a digit is ASCII.\<close>

definition trimmed_number :: "string \<Rightarrow> nat option" where
  "trimmed_number s =
     (let cs = trim_end (trim_start (chars s)) in
      if list_all (\<lambda>c. c < 128) cs then parse_uint usize_max (map char_of cs) else None)"

definition region_call :: "string \<Rightarrow> string \<Rightarrow> string option" where
  "region_call name s = Option.bind (strip_prefix (name @ ''('') s) (strip_suffix '')'')"

datatype region_error = NotANonNegativeInteger string string | UnknownRegion string

definition region_from_str :: "string \<Rightarrow> region_error + region" where
  "region_from_str s =
     (if s = ''title'' then Inr TitleRegion
      else if s = ''visible'' then Inr Visible
      else case region_call ''tail_lines'' s of
             Some inner \<Rightarrow>
               (case trimmed_number inner of
                  Some n \<Rightarrow> Inr (TailLines n)
                | None \<Rightarrow> Inl (NotANonNegativeInteger ''tail_lines'' inner))
           | None \<Rightarrow>
               (case region_call ''bottom_non_empty_lines'' s of
                  Some inner \<Rightarrow>
                    (case trimmed_number inner of
                       Some n \<Rightarrow> Inr (BottomNonEmptyLines n)
                     | None \<Rightarrow> Inl (NotANonNegativeInteger ''bottom_non_empty_lines'' inner))
                | None \<Rightarrow> Inl (UnknownRegion s)))"

datatype matcher =
    Contains string
  | Regex string
  | LineRegex string
  | LastMatchingLine matcher matcher
  | AnyOf "matcher list"
  | AllOf "matcher list"
  | NotM matcher

record rule =
  ru_state :: agent_state
  ru_detail :: "detail option"
  ru_priority :: int
  ru_region :: region
  ru_match :: matcher
  ru_skip_state_update :: bool

text \<open>The spec of a detail is its list of aliases.\<close>

record agent_manifest =
  mf_min_engine_version :: version
  mf_identity :: identity
  mf_hooks :: "hooks option"
  mf_capture :: "agent_state list"
  mf_rules :: "rule list"
  mf_details :: "string list table"
  mf_telemetry :: "telemetry option"
  mf_program_status :: "app_id list option"

record raw_manifest =
  rm_min_engine_version :: string
  rm_identity :: identity
  rm_hooks :: "hooks option"
  rm_capture :: "agent_state list"
  rm_rules :: "rule list"
  rm_details :: "string list table"
  rm_telemetry :: "telemetry option"
  rm_program_status :: "string list option"

datatype 'e manifest_error =
    MBadProgramApp string nat string
  | MParse string 'e
  | MBadVersion string version_error
  | MEngineTooOld string version version
  | MStateRemap string string
  | MBadDetailToken string string string

section \<open>The loader\<close>

definition validate_detail_token :: "string \<Rightarrow> string \<Rightarrow> string \<Rightarrow> 'e manifest_error + unit" where
  "validate_detail_token file field token =
     reject_if (\<not> is_safe_token token) (MBadDetailToken file field token)"

definition is_state_token :: "string \<Rightarrow> bool" where
  "is_state_token s = (ok (state_from_str s) \<noteq> None)"

definition validate_details :: "raw_manifest \<Rightarrow> string \<Rightarrow> 'e manifest_error + unit" where
  "validate_details raw file =
     sum_bind (check_all (\<lambda>(key, aliases).
         sum_bind (validate_detail_token file ''[details] key'' key) (\<lambda>_.
         check_all (validate_detail_token file ''[details] alias'') aliases)) (rm_details raw)) (\<lambda>_.
     sum_bind (check_all (\<lambda>r. case ru_detail r of
                             None \<Rightarrow> Inr ()
                           | Some d \<Rightarrow> validate_detail_token file ''[[rules]] detail'' d) (rm_rules raw)) (\<lambda>_.
     case rm_hooks raw of
       None \<Rightarrow> Inr ()
     | Some h \<Rightarrow>
         check_all (\<lambda>m. case hm_claim m of
                          StateClaim sc \<Rightarrow>
                            (case sc_detail sc of
                               None \<Rightarrow> Inr ()
                             | Some d \<Rightarrow> validate_detail_token file ''[[hooks.map]] claim detail'' d)
                        | LifecycleClaim _ \<Rightarrow> Inr ()) (ho_map h)))"

text \<open>The loop over the declared applications: index, what was collected so far, the rest.\<close>

fun collect_apps :: "string \<Rightarrow> nat \<Rightarrow> app_id list \<Rightarrow> string list \<Rightarrow> 'e manifest_error + app_id list" where
  "collect_apps file index apps [] = Inr apps"
| "collect_apps file index apps (app # rest) =
     (case app_parse app of
        Inl _ \<Rightarrow> Inl (MBadProgramApp file index app)
      | Inr a \<Rightarrow> collect_apps file (index + 1) (if a \<in> set apps then apps else apps @ [a]) rest)"

definition validate_apps :: "string list option \<Rightarrow> string \<Rightarrow> 'e manifest_error + app_id list option" where
  "validate_apps raw file =
     (case raw of None \<Rightarrow> Inr None | Some names \<Rightarrow> map_sum id Some (collect_apps file 0 [] names))"

definition validate_manifest ::
  "version \<Rightarrow> raw_manifest \<Rightarrow> string \<Rightarrow> 'e manifest_error + agent_manifest" where
  "validate_manifest engine raw file =
     sum_bind (case version_from_str (rm_min_engine_version raw) of
                 Inl reason \<Rightarrow> Inl (MBadVersion file reason) | Inr v \<Rightarrow> Inr v) (\<lambda>required.
     sum_bind (reject_if (version_less engine required) (MEngineTooOld file required engine)) (\<lambda>_.
     sum_bind (case find is_state_token (map fst (rm_details raw)) of
                 Some key \<Rightarrow> Inl (MStateRemap file key) | None \<Rightarrow> Inr ()) (\<lambda>_.
     sum_bind (validate_details raw file) (\<lambda>_.
     sum_bind (validate_apps (rm_program_status raw) file) (\<lambda>apps.
       Inr \<lparr>mf_min_engine_version = required, mf_identity = rm_identity raw, mf_hooks = rm_hooks raw,
            mf_capture = rm_capture raw, mf_rules = rm_rules raw, mf_details = rm_details raw,
            mf_telemetry = rm_telemetry raw, mf_program_status = apps\<rparr>)))))"

definition manifest_parse ::
  "(string \<Rightarrow> string option) \<Rightarrow> (string \<Rightarrow> 'e + raw_manifest) \<Rightarrow> version \<Rightarrow>
   string \<Rightarrow> string \<Rightarrow> 'e manifest_error + agent_manifest" where
  "manifest_parse probe decode engine toml_src file =
     sum_bind (case probe toml_src of
                 None \<Rightarrow> Inr ()
               | Some text \<Rightarrow>
                   (case version_from_str text of
                      Inl _ \<Rightarrow> Inr ()
                    | Inr required \<Rightarrow>
                        reject_if (version_less engine required) (MEngineTooOld file required engine))) (\<lambda>_.
     sum_bind (case decode toml_src of Inl e \<Rightarrow> Inl (MParse file e) | Inr raw \<Rightarrow> Inr raw) (\<lambda>raw.
       validate_manifest engine raw file))"

definition covers_context :: "agent_manifest \<Rightarrow> bool" where
  "covers_context m = (Option.bind (mf_telemetry m) tl_context \<noteq> None)"

section \<open>What the loader accepts\<close>

text \<open>Every detail a claim of the manifest can carry.\<close>

definition declared_details :: "agent_manifest \<Rightarrow> string set" where
  "declared_details m =
     fst ` set (mf_details m) \<union> \<Union> (set ` snd ` set (mf_details m))
     \<union> {d. \<exists>r \<in> set (mf_rules m). ru_detail r = Some d}
     \<union> {d. \<exists>h st. mf_hooks m = Some h \<and> (\<exists>x \<in> set (ho_map h). hm_claim x = StateClaim st \<and> sc_detail st = Some d)}"

definition manifest_ok :: "version \<Rightarrow> agent_manifest \<Rightarrow> bool" where
  "manifest_ok engine m \<longleftrightarrow>
     \<not> version_less engine (mf_min_engine_version m)
     \<and> (\<forall>d \<in> declared_details m. is_safe_token d)
     \<and> (\<forall>key \<in> fst ` set (mf_details m). \<forall>st. key \<noteq> state_token st)
     \<and> is_none_or (mf_program_status m) (\<lambda>apps. distinct apps \<and> list_all app_valid apps)"

lemma validate_detail_token_Inr [simp]: "validate_detail_token file field t = Inr u \<longleftrightarrow> is_safe_token t"
  by (simp add: validate_detail_token_def)

lemma collect_apps_Inr:
  "collect_apps file i apps xs = Inr ys \<Longrightarrow> distinct apps \<Longrightarrow> list_all app_valid apps \<Longrightarrow>
     distinct ys \<and> list_all app_valid ys"
  by (induction xs arbitrary: i apps)
    (auto split: sum.splits if_splits dest: app_parse_valid)

lemma validate_apps_Inr:
  assumes "(validate_apps raw file :: 'e manifest_error + app_id list option) = Inr apps"
  shows "is_none_or apps (\<lambda>apps. distinct apps \<and> list_all app_valid apps)"
proof (cases raw)
  case None
  with assms show ?thesis by (auto simp: validate_apps_def)
next
  case (Some names)
  then obtain ys where "(collect_apps file 0 [] names :: 'e manifest_error + app_id list) = Inr ys"
    "apps = Some ys"
    using assms
    by (cases "collect_apps file 0 [] names :: 'e manifest_error + app_id list")
      (auto simp: validate_apps_def)
  then show ?thesis by (auto dest: collect_apps_Inr)
qed

lemma find_state_token:
  "find is_state_token xs = None \<longleftrightarrow> (\<forall>x \<in> set xs. \<forall>st. x \<noteq> state_token st)"
  by (auto simp: find_None_iff is_state_token_def ok_def state_from_str_Inr split: sum.splits)

lemma validate_details_Inr:
  assumes "validate_details raw file = Inr u"
    and "mf_rules m = rm_rules raw" "mf_details m = rm_details raw" "mf_hooks m = rm_hooks raw"
  shows "\<forall>d \<in> declared_details m. is_safe_token d"
  using assms
  by (fastforce simp: validate_details_def declared_details_def sum_bind_Inr check_all_Inr list_all_iff
      split: option.splits claim.splits)

lemma validate_manifest_ok:
  assumes "(validate_manifest engine raw file :: 'e manifest_error + agent_manifest) = Inr m"
  shows "manifest_ok engine m"
proof -
  have details: "(validate_details raw file :: 'e manifest_error + unit) = Inr ()"
    and remap: "find is_state_token (map fst (rm_details raw)) = None"
    and version: "\<not> version_less engine (mf_min_engine_version m)"
    and fields: "mf_rules m = rm_rules raw" "mf_details m = rm_details raw" "mf_hooks m = rm_hooks raw"
    and apps: "(validate_apps (rm_program_status raw) file :: 'e manifest_error + app_id list option)
      = Inr (mf_program_status m)"
    using assms by (auto simp: validate_manifest_def sum_bind_Inr split: option.splits)
  have "is_none_or (mf_program_status m) (\<lambda>apps. distinct apps \<and> list_all app_valid apps)"
    by (rule validate_apps_Inr [OF apps])
  moreover have "\<forall>key \<in> fst ` set (mf_details m). \<forall>st. key \<noteq> state_token st"
    using remap by (simp add: find_state_token fields)
  ultimately show ?thesis
    using validate_details_Inr [OF details fields] version by (simp add: manifest_ok_def)
qed

lemma manifest_parse_ok: "manifest_parse probe decode engine src file = Inr m \<Longrightarrow> manifest_ok engine m"
  by (auto simp: manifest_parse_def sum_bind_Inr intro: validate_manifest_ok)

section \<open>The property\<close>

text \<open>C29 (manifest_parse_valid). An accepted agent manifest is well-formed, whatever the TOML decoders
  return: the engine is new enough, every detail its rules, hooks and spellings can put into a claim is
  a safe token, no detail spelling is a state token (so a manifest cannot remap a state), and its
  program applications are valid and without repetition.\<close>

theorem manifest_parse_valid:
  "manifest_parse probe decode engine src file = Inr m \<Longrightarrow> manifest_ok engine m"
  by (rule manifest_parse_ok)

definition sample_raw_manifest :: raw_manifest where
  "sample_raw_manifest =
     \<lparr>rm_min_engine_version = ''0.1'', rm_identity = \<lparr>id_process_names = [''claude''], id_title_patterns = []\<rparr>,
      rm_hooks = Some \<lparr>ho_covers = [CoverState Working, CoverLifecycle],
        ho_map = [\<lparr>hm_event = ''Notification'', hm_matcher = None,
          hm_claim = StateClaim \<lparr>sc_state = Blocked, sc_detail = Some ''permission''\<rparr>, hm_turn_end = False\<rparr>]\<rparr>,
      rm_capture = [Working, Idle, Blocked],
      rm_rules = [\<lparr>ru_state = Blocked, ru_detail = Some ''permission'', ru_priority = 100,
        ru_region = TailLines 5, ru_match = Contains ''proceed?'', ru_skip_state_update = False\<rparr>,
        \<lparr>ru_state = Idle, ru_detail = None, ru_priority = 50, ru_region = TitleRegion,
          ru_match = NotM (Contains ''*''), ru_skip_state_update = False\<rparr>],
      rm_details = [(''rate_limit'', [''rate-limited''])], rm_telemetry = None,
      rm_program_status = Some [''claude'', ''claude'']\<rparr>"

definition sample_manifest :: agent_manifest where
  "sample_manifest =
     \<lparr>mf_min_engine_version = \<lparr>ver_major = 0, ver_minor = 1, ver_patch = 0\<rparr>,
      mf_identity = rm_identity sample_raw_manifest, mf_hooks = rm_hooks sample_raw_manifest,
      mf_capture = rm_capture sample_raw_manifest, mf_rules = rm_rules sample_raw_manifest,
      mf_details = rm_details sample_raw_manifest, mf_telemetry = None,
      mf_program_status = Some [AppId ''claude'']\<rparr>"

lemma sample_manifest_parses:
  "manifest_parse (\<lambda>_. None) (\<lambda>_. (Inr sample_raw_manifest :: unit + raw_manifest))
     \<lparr>ver_major = 0, ver_minor = 3, ver_patch = 1\<rparr> [] ''claude.toml'' = Inr sample_manifest"
  by code_simp

lemma manifest_parse_valid_witness:
  "manifest_ok \<lparr>ver_major = 0, ver_minor = 3, ver_patch = 1\<rparr> sample_manifest"
  by (rule manifest_parse_valid [OF sample_manifest_parses])

end
