(* ===== verification/Engine.thy ===== *)
theory Engine
  imports Agent_Manifest
begin

text \<open>
  The screen-rule engine (\<open>engine.rs\<close>): the compilation of a manifest's matchers, the cleaning of a
  region's text, matching, and the selection of one claim per state. A text is the list of its code
  points. The regular expressions are a library: their compilation and matching are parameters.
\<close>

section \<open>Lines and escapes\<close>

text \<open>\<open>str::lines\<close>: a line ends with LF or CR LF; a last line without LF keeps its CR.\<close>

definition strip_cr :: "nat list \<Rightarrow> nat list" where
  "strip_cr line = (if line \<noteq> [] \<and> last line = 13 then butlast line else line)"

definition lines_of :: "nat list \<Rightarrow> nat list list" where
  "lines_of text =
     (let parts = split_on 10 text in
      map strip_cr (butlast parts) @ (if last parts = [] then [] else [last parts]))"

definition join_lines :: "nat list list \<Rightarrow> nat list" where
  "join_lines ls = join_with [10] ls"

text \<open>What is left behind a control sequence and behind an operating system command.\<close>

definition csi_rest :: "nat list \<Rightarrow> nat list" where
  "csi_rest cs = drop 1 (dropWhile (\<lambda>f. \<not> (64 \<le> f \<and> f \<le> 126)) cs)"

fun osc_rest :: "nat list \<Rightarrow> nat list" where
  "osc_rest [] = []"
| "osc_rest (f # r) =
     (if f = 7 then r
      else if f = 27 then (case r of c # r' \<Rightarrow> if c = 92 then r' else r | [] \<Rightarrow> r)
      else osc_rest r)"

lemma csi_rest_length: "length (csi_rest cs) \<le> length cs"
  by (simp add: csi_rest_def) (metis diff_le_self le_trans length_dropWhile_le)

lemma osc_rest_length: "length (osc_rest cs) \<le> length cs"
  by (induction cs) (auto split: list.split)

function strip_ansi :: "nat list \<Rightarrow> nat list" where
  "strip_ansi [] = []"
| "strip_ansi (c # r) =
     (if c \<noteq> 27 then c # strip_ansi r
      else (case r of
              [] \<Rightarrow> []
            | d # r' \<Rightarrow>
                if d = 91 then strip_ansi (csi_rest r')
                else if d = 93 then strip_ansi (osc_rest r')
                else strip_ansi r'))"
  by pat_completeness auto
termination
  by (relation "measure length") (auto simp: less_Suc_eq_le le_SucI csi_rest_length osc_rest_length)

section \<open>Compiled matchers\<close>

datatype 're compiled_matcher =
    CContains string
  | CRegex 're
  | CLineRegex 're
  | CLastMatchingLine "'re compiled_matcher" "'re compiled_matcher"
  | CAny "'re compiled_matcher list"
  | CAll "'re compiled_matcher list"
  | CNot "'re compiled_matcher"

text \<open>\<open>str::contains\<close>.\<close>

fun contains_text :: "nat list \<Rightarrow> nat list \<Rightarrow> bool" where
  "contains_text needle [] = (needle = [])"
| "contains_text needle (c # r) =
     (take (length needle) (c # r) = needle \<or> contains_text needle r)"

primrec matches :: "('re \<Rightarrow> nat list \<Rightarrow> bool) \<Rightarrow> 're compiled_matcher \<Rightarrow> nat list \<Rightarrow> bool" where
  "matches is_match (CContains s) = (\<lambda>text. contains_text (chars s) text)"
| "matches is_match (CRegex re) = (\<lambda>text. is_match re text)"
| "matches is_match (CLineRegex re) = (\<lambda>text. list_ex (is_match re) (lines_of text))"
| "matches is_match (CLastMatchingLine selector predicate) =
     (\<lambda>text. is_some_and (find (matches is_match selector) (rev (lines_of text)))
        (matches is_match predicate))"
| "matches is_match (CAny ms) = (\<lambda>text. list_ex (\<lambda>m. m text) (map (matches is_match) ms))"
| "matches is_match (CAll ms) = (\<lambda>text. list_all (\<lambda>m. m text) (map (matches is_match) ms))"
| "matches is_match (CNot m) = (\<lambda>text. \<not> matches is_match m text)"

definition new_regex :: "(string \<Rightarrow> 'x + 're) \<Rightarrow> string \<Rightarrow> (string \<times> 'x) + 're" where
  "new_regex compile_re s = map_sum (\<lambda>e. (s, e)) id (compile_re s)"

primrec compile :: "(string \<Rightarrow> 'x + 're) \<Rightarrow> matcher \<Rightarrow> (string \<times> 'x) + 're compiled_matcher" where
  "compile cr (Contains s) = Inr (CContains s)"
| "compile cr (Regex s) = map_sum id CRegex (new_regex cr s)"
| "compile cr (LineRegex s) = map_sum id CLineRegex (new_regex cr s)"
| "compile cr (LastMatchingLine selector predicate) =
     sum_bind (compile cr selector) (\<lambda>a. map_sum id (CLastMatchingLine a) (compile cr predicate))"
| "compile cr (AnyOf v) = map_sum id CAny (collect_results (map (compile cr) v))"
| "compile cr (AllOf v) = map_sum id CAll (collect_results (map (compile cr) v))"
| "compile cr (NotM b) = map_sum id CNot (compile cr b)"

section \<open>The engine\<close>

record 're compiled_rule =
  cr_state :: agent_state
  cr_detail :: "detail option"
  cr_priority :: int
  cr_region :: region
  cr_skip_state_update :: bool
  cr_matcher :: "'re compiled_matcher"

record 're rule_engine =
  en_rules :: "'re compiled_rule list"
  en_title_patterns :: "'re list"

datatype 'x engine_error =
    ERule nat agent_state int string 'x
  | ETitlePattern nat string 'x

definition compile_rule :: "(string \<Rightarrow> 'x + 're) \<Rightarrow> nat \<times> rule \<Rightarrow> 'x engine_error + 're compiled_rule" where
  "compile_rule cr ir =
     (case ir of (index, r) \<Rightarrow>
        map_sum (\<lambda>(pattern, source). ERule index (ru_state r) (ru_priority r) pattern source)
          (\<lambda>m. \<lparr>cr_state = ru_state r, cr_detail = ru_detail r, cr_priority = ru_priority r,
                cr_region = ru_region r, cr_skip_state_update = ru_skip_state_update r, cr_matcher = m\<rparr>)
          (compile cr (ru_match r)))"

definition engine_build :: "(string \<Rightarrow> 'x + 're) \<Rightarrow> agent_manifest \<Rightarrow> 'x engine_error + 're rule_engine" where
  "engine_build cr m =
     sum_bind (collect_results (map (compile_rule cr) (List.enumerate 0 (mf_rules m)))) (\<lambda>rules.
     sum_bind (collect_results (map (\<lambda>(index, pat). map_sum (\<lambda>e. ETitlePattern index pat e) id (cr pat))
                  (List.enumerate 0 (id_title_patterns (mf_identity m))))) (\<lambda>title_patterns.
       Inr \<lparr>en_rules = rules, en_title_patterns = title_patterns\<rparr>))"

definition has_title_patterns :: "'re rule_engine \<Rightarrow> bool" where
  "has_title_patterns e = (en_title_patterns e \<noteq> [])"

definition title_matches :: "('re \<Rightarrow> nat list \<Rightarrow> bool) \<Rightarrow> 're rule_engine \<Rightarrow> string \<Rightarrow> bool" where
  "title_matches is_match e title =
     (if en_title_patterns e = [] then False
      else list_ex (\<lambda>re. is_match re (strip_ansi (chars title))) (en_title_patterns e))"

definition blank :: "nat list \<Rightarrow> bool" where
  "blank line = (trim_end (trim_start (strip_ansi line)) = [])"

definition extract_region :: "region \<Rightarrow> pane_snapshot \<Rightarrow> nat list" where
  "extract_region rg snap =
     (let lines = lines_of (chars (snap_tail_text snap)) in
      case rg of
        TitleRegion \<Rightarrow> strip_ansi (chars (snap_title snap))
      | TailLines n \<Rightarrow> strip_ansi (join_lines (drop (length lines - n) lines))
      | BottomNonEmptyLines n \<Rightarrow>
          (let kept = rev (dropWhile blank (rev lines)) in
           if kept = [] then [] else strip_ansi (join_lines (drop (length kept - n) kept)))
      | Visible \<Rightarrow>
          (let start = (case snap_visible_height snap of Some h \<Rightarrow> length lines - h | None \<Rightarrow> 0) in
           strip_ansi (join_lines (drop start lines))))"

definition region_label :: "region \<Rightarrow> string" where
  "region_label rg =
     (case rg of
        TitleRegion \<Rightarrow> ''title''
      | Visible \<Rightarrow> ''visible''
      | TailLines n \<Rightarrow> ''tail_lines('' @ show_nat n @ '')''
      | BottomNonEmptyLines n \<Rightarrow> ''bottom_non_empty_lines('' @ show_nat n @ '')'')"

record rule_report =
  rr_index :: nat
  rr_state :: agent_state
  rr_detail :: "detail option"
  rr_priority :: int
  rr_region :: region
  rr_skip_state_update :: bool
  rr_matched :: bool

record evaluation =
  evl_evidence :: "evidence list"
  evl_reports :: "rule_report list"
  evl_history_view :: bool

definition rule_matches :: "('re \<Rightarrow> nat list \<Rightarrow> bool) \<Rightarrow> pane_snapshot \<Rightarrow> 're compiled_rule \<Rightarrow> bool" where
  "rule_matches is_match snap r = matches is_match (cr_matcher r) (extract_region (cr_region r) snap)"

definition rule_report_of :: "nat \<Rightarrow> 're compiled_rule \<Rightarrow> bool \<Rightarrow> rule_report" where
  "rule_report_of index r matched =
     \<lparr>rr_index = index, rr_state = cr_state r, rr_detail = cr_detail r, rr_priority = cr_priority r,
      rr_region = cr_region r, rr_skip_state_update = cr_skip_state_update r, rr_matched = matched\<rparr>"

text \<open>The winners so far: the entry of the rule's state is replaced by a rule of higher priority.\<close>

fun note_best :: "'re compiled_rule list \<Rightarrow> nat \<Rightarrow> 're compiled_rule \<Rightarrow> (agent_state \<times> nat) list \<Rightarrow>
    (agent_state \<times> nat) list" where
  "note_best rules index r [] = [(cr_state r, index)]"
| "note_best rules index r ((st, i) # rest) =
     (if st = cr_state r
      then (if cr_priority (rules ! i) < cr_priority r then (st, index) else (st, i)) # rest
      else (st, i) # note_best rules index r rest)"

definition note_rule ::
  "('re \<Rightarrow> nat list \<Rightarrow> bool) \<Rightarrow> pane_snapshot \<Rightarrow> 're compiled_rule list \<Rightarrow> nat \<times> 're compiled_rule \<Rightarrow>
   bool \<times> (agent_state \<times> nat) list \<Rightarrow> bool \<times> (agent_state \<times> nat) list" where
  "note_rule is_match snap rules ir acc =
     (case (ir, acc) of ((index, r), (history, best)) \<Rightarrow>
        if \<not> rule_matches is_match snap r then (history, best)
        else if cr_skip_state_update r then (True, best)
        else (history, note_best rules index r best))"

fun region_source :: "region \<Rightarrow> source" where
  "region_source TitleRegion = Title"
| "region_source (TailLines _) = ScreenRule"
| "region_source (BottomNonEmptyLines _) = ScreenRule"
| "region_source Visible = ScreenRule"

definition rule_evidence :: "'re compiled_rule \<Rightarrow> nat \<Rightarrow> u64 \<Rightarrow> evidence" where
  "rule_evidence r index at =
     \<lparr>ev_source = region_source (cr_region r),
      ev_claim = StateClaim \<lparr>sc_state = cr_state r, sc_detail = cr_detail r\<rparr>,
      ev_at = at,
      ev_meta = ''rule #'' @ show_nat index @ '' '' @ state_token (cr_state r) @ '' on '' @
                region_label (cr_region r)\<rparr>"

definition evaluate :: "('re \<Rightarrow> nat list \<Rightarrow> bool) \<Rightarrow> 're rule_engine \<Rightarrow> pane_snapshot \<Rightarrow> evaluation" where
  "evaluate is_match e snap =
     (let rules = en_rules e;
          indexed = List.enumerate 0 rules;
          (history, best) = fold (note_rule is_match snap rules) indexed (False, [])
      in \<lparr>evl_evidence =
            map (\<lambda>(_, index). rule_evidence (rules ! index) index (snap_captured_at snap))
              (sort_key (\<lambda>(st, _). state_token st) best),
          evl_reports = map (\<lambda>(index, r). rule_report_of index r (rule_matches is_match snap r)) indexed,
          evl_history_view = history\<rparr>)"

end
