(* ===== verification/Engine_Properties.thy ===== *)
theory Engine_Properties
  imports Engine Fold
begin

text \<open>
  What the engine promises: the text it matches is free of escapes, and of the rules that match it
  claims, for each state, the one of highest priority and lowest index, whatever the order in which
  the states were first met.
\<close>

section \<open>Escapes\<close>

lemma csi_rest_subset: "set (csi_rest cs) \<subseteq> set cs"
  unfolding csi_rest_def by (meson set_drop_subset set_dropWhileD subset_code(1) subset_iff)

lemma strip_ansi_no_escape: "27 \<notin> set (strip_ansi cs)"
  by (induction cs rule: strip_ansi.induct) (auto split: list.split)

lemma strip_ansi_plain: "27 \<notin> set cs \<Longrightarrow> strip_ansi cs = cs"
  by (induction cs) auto

text \<open>A coloured run of text.\<close>

lemma csi_rest_params:
  "list_all (\<lambda>f. \<not> (64 \<le> f \<and> f \<le> 126)) params \<Longrightarrow> 64 \<le> f \<Longrightarrow> f \<le> 126 \<Longrightarrow> csi_rest (params @ f # r) = r"
  by (induction params) (auto simp: csi_rest_def)

lemma strip_ansi_csi:
  "27 \<notin> set a \<Longrightarrow> list_all (\<lambda>f. \<not> (64 \<le> f \<and> f \<le> 126)) params \<Longrightarrow> 64 \<le> f \<Longrightarrow> f \<le> 126 \<Longrightarrow>
     strip_ansi (a @ 27 # 91 # params @ f # r) = a @ strip_ansi r"
  by (induction a) (simp_all add: csi_rest_params)

section \<open>The winners\<close>

definition candidate :: "('re \<Rightarrow> nat list \<Rightarrow> bool) \<Rightarrow> pane_snapshot \<Rightarrow> 're compiled_rule list \<Rightarrow> nat \<Rightarrow> bool" where
  "candidate im snap rules i \<longleftrightarrow>
     i < length rules \<and> rule_matches im snap (rules ! i) \<and> \<not> cr_skip_state_update (rules ! i)"

text \<open>No other candidate for the same state is preferred.\<close>

definition beats :: "'re compiled_rule list \<Rightarrow> nat \<Rightarrow> nat \<Rightarrow> bool" where
  "beats rules i j \<longleftrightarrow>
     cr_priority (rules ! j) < cr_priority (rules ! i)
     \<or> cr_priority (rules ! j) = cr_priority (rules ! i) \<and> i \<le> j"

definition winner_below ::
  "('re \<Rightarrow> nat list \<Rightarrow> bool) \<Rightarrow> pane_snapshot \<Rightarrow> 're compiled_rule list \<Rightarrow> nat \<Rightarrow> nat \<Rightarrow> bool" where
  "winner_below im snap rules n i \<longleftrightarrow>
     i < n \<and> candidate im snap rules i
     \<and> (\<forall>j < n. candidate im snap rules j \<and> cr_state (rules ! j) = cr_state (rules ! i) \<longrightarrow> beats rules i j)"

abbreviation winner where
  "winner im snap rules \<equiv> winner_below im snap rules (length rules)"

lemma note_best_fst:
  "fst ` set (note_best rules index r best) = insert (cr_state r) (fst ` set best)"
  by (induction rules index r best rule: note_best.induct) auto

lemma note_best_distinct:
  "distinct (map fst best) \<Longrightarrow> distinct (map fst (note_best rules index r best))"
proof (induction rules index r best rule: note_best.induct)
  case (2 rules index r st i rest)
  then show ?case using note_best_fst [of rules index r rest] by auto
qed simp

lemma note_best_map:
  "map_of (note_best rules index r best) =
     (map_of best)(cr_state r \<mapsto>
       (case map_of best (cr_state r) of
          None \<Rightarrow> index
        | Some i \<Rightarrow> if cr_priority (rules ! i) < cr_priority r then index else i))"
  by (induction rules index r best rule: note_best.induct) (auto simp: fun_eq_iff)

lemma winner_keep:
  "winner_below im snap rules n i \<Longrightarrow>
     (candidate im snap rules n \<Longrightarrow> cr_state (rules ! n) = cr_state (rules ! i) \<Longrightarrow> beats rules i n) \<Longrightarrow>
     winner_below im snap rules (Suc n) i"
  by (auto simp: winner_below_def less_Suc_eq)

lemma winner_new:
  "candidate im snap rules n \<Longrightarrow>
     (\<And>j. j < n \<Longrightarrow> candidate im snap rules j \<Longrightarrow> cr_state (rules ! j) = cr_state (rules ! n) \<Longrightarrow> beats rules n j) \<Longrightarrow>
     winner_below im snap rules (Suc n) n"
  by (auto simp: winner_below_def less_Suc_eq beats_def)

lemma beats_antisym: "beats rules i j \<Longrightarrow> beats rules j i \<Longrightarrow> i = j"
  by (auto simp: beats_def)

text \<open>What the loop has established after the first \<open>n\<close> rules.\<close>

definition seen_rules where
  "seen_rules im snap rules n history best \<longleftrightarrow>
     history = (\<exists>i < n. rule_matches im snap (rules ! i) \<and> cr_skip_state_update (rules ! i))
     \<and> distinct (map fst best)
     \<and> (\<forall>st i. map_of best st = Some i \<longrightarrow> winner_below im snap rules n i \<and> cr_state (rules ! i) = st)
     \<and> (\<forall>j < n. candidate im snap rules j \<longrightarrow> map_of best (cr_state (rules ! j)) \<noteq> None)"

lemma seen_rules_step:
  assumes seen: "seen_rules im snap rules n history best" and n: "n < length rules"
  shows "case note_rule im snap rules (n, rules ! n) (history, best) of
      (history', best') \<Rightarrow> seen_rules im snap rules (Suc n) history' best'"
proof (cases "candidate im snap rules n")
  case False
  then have same: "winner_below im snap rules (Suc n) i" if "winner_below im snap rules n i" for i
    using that by (auto intro: winner_keep)
  show ?thesis
    using seen False n same
    by (auto simp: seen_rules_def note_rule_def candidate_def less_Suc_eq)
next
  case True
  let ?r = "rules ! n"
  let ?best = "note_best rules n ?r best"
  have best: "map_of best st = Some i \<Longrightarrow> winner_below im snap rules n i \<and> cr_state (rules ! i) = st"
    and complete: "j < n \<Longrightarrow> candidate im snap rules j \<Longrightarrow> map_of best (cr_state (rules ! j)) \<noteq> None" for st i j
    using seen by (auto simp: seen_rules_def)
  have sound: "winner_below im snap rules (Suc n) k \<and> cr_state (rules ! k) = st"
    if "map_of ?best st = Some k" for st k
  proof (cases "st = cr_state ?r")
    case False
    with that have "map_of best st = Some k" by (simp add: note_best_map)
    with best False show ?thesis by (auto intro: winner_keep)
  next
    case state: True
    show ?thesis
    proof (cases "map_of best st")
      case None
      then have "winner_below im snap rules (Suc n) n"
        using complete state by (intro winner_new [OF True]) fastforce
      with that None state show ?thesis by (simp add: note_best_map)
    next
      case (Some i)
      note i = best [OF Some]
      have new: "winner_below im snap rules (Suc n) n" if "cr_priority (rules ! i) < cr_priority ?r"
        using i that state by (intro winner_new [OF True]) (fastforce simp: winner_below_def beats_def)
      have old: "winner_below im snap rules (Suc n) i" if "\<not> cr_priority (rules ! i) < cr_priority ?r"
        using i that by (intro winner_keep) (auto simp: winner_below_def beats_def)
      from that Some state have "k = (if cr_priority (rules ! i) < cr_priority ?r then n else i)"
        by (simp add: note_best_map split: if_splits)
      with new old i state show ?thesis by (simp split: if_splits)
    qed
  qed
  have "map_of ?best (cr_state (rules ! j)) \<noteq> None" if "j < Suc n" "candidate im snap rules j" for j
    using that complete by (auto simp: note_best_map less_Suc_eq)
  moreover have "distinct (map fst ?best)" using seen by (simp add: seen_rules_def note_best_distinct)
  moreover have "history = (\<exists>i < Suc n. rule_matches im snap (rules ! i) \<and> cr_skip_state_update (rules ! i))"
    using seen True by (auto simp: seen_rules_def candidate_def less_Suc_eq)
  ultimately show ?thesis
    using True sound by (simp add: note_rule_def candidate_def seen_rules_def)
qed

lemma seen_rules_fold:
  assumes "n \<le> length rules"
  shows "case fold (note_rule im snap rules) (map (\<lambda>i. (i, rules ! i)) [0..<n]) (False, []) of
      (history, best) \<Rightarrow> seen_rules im snap rules n history best"
  using assms
proof (induction n)
  case 0
  then show ?case by (simp add: seen_rules_def)
next
  case (Suc n)
  obtain history best where acc:
    "fold (note_rule im snap rules) (map (\<lambda>i. (i, rules ! i)) [0..<n]) (False, []) = (history, best)"
    by (metis surj_pair)
  with Suc have "seen_rules im snap rules n history best" by simp
  from seen_rules_step [OF this] Suc.prems show ?case by (simp add: acc)
qed

lemma enumerate_map: "List.enumerate 0 xs = map (\<lambda>i. (i, xs ! i)) [0..<length xs]"
  by (rule nth_equalityI) (simp_all add: nth_enumerate_eq)

lemma map_of_winner:
  assumes "seen_rules im snap rules (length rules) history best"
  shows "map_of best st = Some i \<longleftrightarrow> winner im snap rules i \<and> cr_state (rules ! i) = st"
proof
  show "map_of best st = Some i \<Longrightarrow> winner im snap rules i \<and> cr_state (rules ! i) = st"
    using assms by (simp add: seen_rules_def)
next
  assume i: "winner im snap rules i \<and> cr_state (rules ! i) = st"
  then obtain k where k: "map_of best st = Some k"
    using assms by (fastforce simp: seen_rules_def winner_below_def)
  then have "winner im snap rules k \<and> cr_state (rules ! k) = st"
    using assms by (simp add: seen_rules_def)
  with i have "k = i" unfolding winner_below_def by (metis beats_antisym)
  with k show "map_of best st = Some i" by simp
qed

section \<open>The properties\<close>

text \<open>The text that rules match has no escape character, cleaning it again
  changes nothing, and a text without an escape is matched as it is; a colour sequence in front of an
  anchor leaves the anchor.\<close>

theorem strip_ansi_clean:
  "27 \<notin> set (strip_ansi cs) \<and> strip_ansi (strip_ansi cs) = strip_ansi cs
   \<and> (strip_ansi cs = cs \<longleftrightarrow> 27 \<notin> set cs)
   \<and> strip_ansi (27 # 91 # map (\<lambda>d. 48 + d mod 10) params @ 109 # cs) = strip_ansi cs"
proof -
  have "list_all (\<lambda>f. \<not> (64 \<le> f \<and> f \<le> 126)) (map (\<lambda>d. 48 + d mod 10) params)"
  proof -
    have "48 + d mod 10 < (64::nat)" for d using mod_less_divisor [of 10 d] by linarith
    then show ?thesis by (simp add: list_all_iff not_le)
  qed
  from strip_ansi_csi [of "[]", OF _ this, of 109 cs] show ?thesis
    using strip_ansi_no_escape [of cs] strip_ansi_plain [of cs] strip_ansi_plain [of "strip_ansi cs"]
    by auto
qed

text \<open>C28 (engine_selects). The evidence of an evaluation is exactly one claim per state that some
  rule shows: the claim of the matching rule with the highest priority and, among those, the lowest
  index. Rules that mark history contribute no claim and raise the history flag, and they alone do.\<close>

theorem engine_selects:
  "let ev = evaluate im e snap in
     set (evl_evidence ev)
       = {rule_evidence (en_rules e ! i) i (snap_captured_at snap) | i. winner im snap (en_rules e) i}
     \<and> distinct (map (\<lambda>x. claim_state (ev_claim x)) (evl_evidence ev))
     \<and> evl_history_view ev
         = list_ex (\<lambda>r. rule_matches im snap r \<and> cr_skip_state_update r) (en_rules e)"
proof -
  let ?rules = "en_rules e" and ?at = "snap_captured_at snap"
  obtain history best where acc:
    "fold (note_rule im snap ?rules) (List.enumerate 0 ?rules) (False, []) = (history, best)"
    by (metis surj_pair)
  have seen: "seen_rules im snap ?rules (length ?rules) history best"
    using seen_rules_fold [of "length ?rules" ?rules im snap] acc by (simp add: enumerate_map)
  let ?sorted = "sort_key (\<lambda>(st, _). state_token st) best"
  have dist: "distinct (map fst best)" using seen by (simp add: seen_rules_def)
  have mem: "(st, i) \<in> set best \<longleftrightarrow> winner im snap ?rules i \<and> cr_state (?rules ! i) = st" for st i
    using map_of_winner [OF seen] map_of_eq_Some_iff [OF dist] by metis
  have evidence: "evl_evidence (evaluate im e snap) = map (\<lambda>(_, i). rule_evidence (?rules ! i) i ?at) ?sorted"
    and history: "evl_history_view (evaluate im e snap) = history"
    by (simp_all add: evaluate_def acc Let_def)
  have "set (evl_evidence (evaluate im e snap)) = {rule_evidence (?rules ! i) i ?at | i. winner im snap ?rules i}"
    using mem unfolding evidence by force
  moreover have "map (\<lambda>x. claim_state (ev_claim x)) (evl_evidence (evaluate im e snap)) = map (\<lambda>p. Some (fst p)) ?sorted"
    unfolding evidence using mem by (auto simp: rule_evidence_def)
  moreover have "distinct (map (\<lambda>p. Some (fst p)) ?sorted)"
  proof -
    have "distinct (map fst ?sorted)"
      using dist mset_eq_imp_distinct_iff [of "map fst ?sorted" "map fst best"] by simp
    then have "distinct (map Some (map fst ?sorted))" by (simp add: distinct_map del: map_map)
    then show ?thesis by (simp add: comp_def)
  qed
  moreover have "history = list_ex (\<lambda>r. rule_matches im snap r \<and> cr_skip_state_update r) ?rules"
  proof -
    have "history = (\<exists>i < length ?rules. rule_matches im snap (?rules ! i) \<and> cr_skip_state_update (?rules ! i))"
      using seen by (simp add: seen_rules_def)
    then show ?thesis by (simp add: list_ex_length)
  qed
  ultimately show ?thesis by (simp add: history Let_def)
qed

end
