(* ===== verification/Tmux_Format.thy ===== *)
theory Tmux_Format
  imports Render
begin

text \<open>
  The fragment of tmux's format language that the program writes. The language and its expansion are
  tmux's, not the sources': a server is a parameter, and what the program relies on is the documented
  expansion of these constructs, stated once on syntax trees. The interpretation at the end is an
  expander that reads the texts back, so the law is satisfiable.
\<close>

section \<open>Formats\<close>

datatype format_op = OpEq | OpAnd | OpOr | OpLe | OpLt | OpGt

fun op_text :: "format_op \<Rightarrow> string" where
  "op_text OpEq = ''==:''"
| "op_text OpAnd = ''&&:''"
| "op_text OpOr = ''||:''"
| "op_text OpLe = ''e|<=:''"
| "op_text OpLt = ''e|<:''"
| "op_text OpGt = ''e|>:''"

text \<open>The tests of one option's value that are written as a glob or an anchored expression: it ends with
  a field, it has a field in its middle, it is a lease of a token.\<close>

datatype value_test = EndsField string | HasField string | LeaseOf string

fun test_text :: "value_test \<Rightarrow> string" where
  "test_text (EndsField s) = ''m:*|'' @ s"
| "test_text (HasField s) = ''m:*:'' @ s @ '':*''"
| "test_text (LeaseOf t) = ''m/r:^[0-9]+:'' @ t @ ''$''"

datatype format =
    PlainF string
  | LookupF string
  | LiteralF string
  | TestF value_test string
  | DigitsF string
  | BinaryF format_op format format
  | CondF format format format

fun print_format :: "format \<Rightarrow> string" where
  "print_format (PlainF s) = s"
| "print_format (LookupF key) = ''#{'' @ key @ ''}''"
| "print_format (LiteralF v) = literal_tmux_format v"
| "print_format (TestF t key) = ''#{'' @ test_text t @ '',#{'' @ key @ ''}}''"
| "print_format (DigitsF key) = ''#{s/[^0-9].*//:#{'' @ key @ ''}}''"
| "print_format (BinaryF op a b) =
     ''#{'' @ op_text op @ print_format a @ '','' @ print_format b @ ''}''"
| "print_format (CondF c a b) =
     ''#{?'' @ print_format c @ '','' @ print_format a @ '','' @ print_format b @ ''}''"

definition plain_char :: "char \<Rightarrow> bool" where
  "plain_char c = (c \<notin> {CHR ''#'', CHR ''{'', CHR ''}'', CHR '',''})"

definition key_char :: "char \<Rightarrow> bool" where
  "key_char c = ((48 \<le> byte c \<and> byte c \<le> 57) \<or> (65 \<le> byte c \<and> byte c \<le> 90) \<or> (97 \<le> byte c \<and> byte c \<le> 122)
      \<or> c = CHR ''@'' \<or> c = CHR ''_'' \<or> c = CHR ''-'')"

definition glob_plain :: "char \<Rightarrow> bool" where
  "glob_plain c = (plain_char c \<and> c \<notin> {CHR ''*'', CHR ''?'', CHR ''['', CHR '']'', CHR 0x5C})"

definition key_ok :: "string \<Rightarrow> bool" where
  "key_ok key = (key \<noteq> [] \<and> list_all key_char key)"

fun test_ok :: "value_test \<Rightarrow> bool" where
  "test_ok (EndsField s) = list_all glob_plain s"
| "test_ok (HasField s) = list_all glob_plain s"
| "test_ok (LeaseOf t) = list_all is_alnum t"

fun format_wf :: "format \<Rightarrow> bool" where
  "format_wf (PlainF s) = list_all plain_char s"
| "format_wf (LookupF key) = key_ok key"
| "format_wf (LiteralF v) = True"
| "format_wf (TestF t key) = (test_ok t \<and> key_ok key)"
| "format_wf (DigitsF key) = key_ok key"
| "format_wf (BinaryF op a b) = (format_wf a \<and> format_wf b)"
| "format_wf (CondF c a b) = (format_wf c \<and> format_wf a \<and> format_wf b)"

section \<open>Their documented value\<close>

text \<open>An unset variable of the pane's context is empty, as in \<^const>\<open>opt_value\<close>.\<close>

definition truthy :: "string \<Rightarrow> bool" where
  "truthy s = (s \<noteq> [] \<and> s \<noteq> ''0'')"

definition bool_text :: "bool \<Rightarrow> string" where
  "bool_text b = (if b then ''1'' else ''0'')"

text \<open>A decimal operand, an empty one counting as zero. tmux computes in binary64, which is exact up to
  \<open>2^53\<close>; what it makes of other operands is its own affair, a parameter.\<close>

definition number_operand :: "string \<Rightarrow> bool" where
  "number_operand s = (list_all is_digit s \<and> digits_val s \<le> 2 ^ 53)"

type_synonym number_test = "format_op \<Rightarrow> string \<Rightarrow> string \<Rightarrow> string"

definition decimal_test :: number_test where
  "decimal_test op a b =
     bool_text (case op of
        OpLe \<Rightarrow> digits_val a \<le> digits_val b
      | OpLt \<Rightarrow> digits_val a < digits_val b
      | OpGt \<Rightarrow> digits_val b < digits_val a
      | _ \<Rightarrow> False)"

fun op_value :: "number_test \<Rightarrow> format_op \<Rightarrow> string \<Rightarrow> string \<Rightarrow> string" where
  "op_value num OpEq a b = bool_text (a = b)"
| "op_value num OpAnd a b = bool_text (truthy a \<and> truthy b)"
| "op_value num OpOr a b = bool_text (truthy a \<or> truthy b)"
| "op_value num op a b = num op a b"

fun test_value :: "value_test \<Rightarrow> string \<Rightarrow> bool" where
  "test_value (EndsField s) v = suffix (CHR ''|'' # s) v"
| "test_value (HasField s) v = sublist (CHR '':'' # s @ '':'') v"
| "test_value (LeaseOf t) v =
     (case split_once (CHR '':'') v of
        None \<Rightarrow> False | Some (expiry, tok) \<Rightarrow> expiry \<noteq> [] \<and> list_all is_digit expiry \<and> tok = t)"

fun eval_format :: "number_test \<Rightarrow> options \<Rightarrow> format \<Rightarrow> string" where
  "eval_format num opts (PlainF s) = s"
| "eval_format num opts (LookupF key) = opt_value opts key"
| "eval_format num opts (LiteralF v) = v"
| "eval_format num opts (TestF t key) = bool_text (test_value t (opt_value opts key))"
| "eval_format num opts (DigitsF key) = takeWhile is_digit (opt_value opts key)"
| "eval_format num opts (BinaryF op a b) =
     op_value num op (eval_format num opts a) (eval_format num opts b)"
| "eval_format num opts (CondF c a b) =
     (if truthy (eval_format num opts c) then eval_format num opts a else eval_format num opts b)"

lemma truthy_bool_text [simp]: "truthy (bool_text b) = b"
  by (simp add: truthy_def bool_text_def)

lemma truthy_01 [simp]: "truthy ''1''" "\<not> truthy ''0''" "\<not> truthy []"
  by (simp_all add: truthy_def)

section \<open>Servers\<close>

text \<open>A server that expands these formats as documented.\<close>

locale format_server =
  fixes expand :: "options \<Rightarrow> string \<Rightarrow> string"
    and num :: number_test
  assumes expand_print: "format_wf f \<Longrightarrow> expand opts (print_format f) = eval_format num opts f"
    and num_decimal: "number_operand a \<Longrightarrow> number_operand b \<Longrightarrow> num op a b = decimal_test op a b"

section \<open>What a written predicate means\<close>

text \<open>\<open>means num s P\<close>: the text \<open>s\<close> is one of these formats and is true exactly of the contexts in \<open>P\<close>.\<close>

definition means :: "number_test \<Rightarrow> string \<Rightarrow> (options \<Rightarrow> bool) \<Rightarrow> bool" where
  "means num s P =
     (\<exists>f. print_format f = s \<and> format_wf f \<and> (\<forall>opts. truthy (eval_format num opts f) = P opts))"

lemma meansI:
  "print_format f = s \<Longrightarrow> format_wf f \<Longrightarrow> (\<And>opts. truthy (eval_format num opts f) = P opts)
     \<Longrightarrow> means num s P"
  by (auto simp: means_def)

end
