(* ===== verification/Tmux_Expander.thy ===== *)
theory Tmux_Expander
  imports Tmux_Format
begin

text \<open>
  An expander that reads the written formats back: the law of \<open>format_server\<close> is satisfiable, and the
  witnesses of the properties about writes evaluate on it.
\<close>

section \<open>An expander\<close>

fun read_literal :: "string \<Rightarrow> (string \<times> string) option" where
  "read_literal [] = None"
| "read_literal (c # r) =
     (if c = CHR ''}'' then Some ([], r)
      else if c = CHR ''#'' then
        (case r of [] \<Rightarrow> None | d # r' \<Rightarrow> map_option (\<lambda>(v, t). (d # v, t)) (read_literal r'))
      else map_option (\<lambda>(v, t). (c # v, t)) (read_literal r))"

definition strip_suffix :: "string \<Rightarrow> string \<Rightarrow> string option" where
  "strip_suffix p s = map_option rev (strip_prefix (rev p) (rev s))"

datatype head = HLookup string | HLiteral string | HDone format | HOp format_op | HCond

text \<open>The operand of a test up to the comma, and the option it looks up.\<close>

definition read_operand :: "string \<Rightarrow> (string \<times> string \<times> string) option" where
  "read_operand r =
     Option.bind (strip_prefix '',#{'' (dropWhile (\<lambda>c. c \<noteq> CHR '','') r)) (\<lambda>u.
     map_option (\<lambda>rest. (takeWhile (\<lambda>c. c \<noteq> CHR '','') r, takeWhile key_char u, rest))
       (strip_prefix ''}}'' (dropWhile key_char u)))"

definition read_test :: "(string \<Rightarrow> value_test option) \<Rightarrow> string \<Rightarrow> (head \<times> string) option" where
  "read_test mk t =
     Option.bind (read_operand t) (\<lambda>(s, k, u). map_option (\<lambda>v. (HDone (TestF v k), u)) (mk s))"

definition read_tests :: "string \<Rightarrow> (head \<times> string) option" where
  "read_tests r =
     (case strip_prefix ''m:*|'' r of
        Some t \<Rightarrow> read_test (\<lambda>s. Some (EndsField s)) t
      | None \<Rightarrow>
     (case strip_prefix ''m:*:'' r of
        Some t \<Rightarrow> read_test (\<lambda>s. map_option HasField (strip_suffix '':*'' s)) t
      | None \<Rightarrow>
     (case strip_prefix ''m/r:^[0-9]+:'' r of
        Some t \<Rightarrow> read_test (\<lambda>s. map_option LeaseOf (strip_suffix ''$'' s)) t
      | None \<Rightarrow>
     (case strip_prefix ''s/[^0-9].*//:#{'' r of
        Some t \<Rightarrow>
          map_option (Pair (HDone (DigitsF (takeWhile key_char t)))) (strip_prefix ''}}'' (dropWhile key_char t))
      | None \<Rightarrow> None))))"

text \<open>What follows an opening brace.\<close>

definition read_ops :: "string \<Rightarrow> (head \<times> string) list" where
  "read_ops r =
     List.map_filter (\<lambda>op. map_option (Pair (HOp op)) (strip_prefix (op_text op) r))
       [OpEq, OpAnd, OpOr, OpLe, OpLt, OpGt]
     @ (case strip_prefix ''?'' r of None \<Rightarrow> [] | Some t \<Rightarrow> [(HCond, t)])"

definition read_head :: "string \<Rightarrow> (head \<times> string) option" where
  "read_head r =
     (case read_ops r of
        x # _ \<Rightarrow> Some x
      | [] \<Rightarrow>
          (case read_tests r of
             Some x \<Rightarrow> Some x
           | None \<Rightarrow>
          (case strip_prefix ''l:'' r of
             Some t \<Rightarrow> map_option (\<lambda>(v, u). (HLiteral v, u)) (read_literal t)
           | None \<Rightarrow>
               map_option (Pair (HLookup (takeWhile key_char r))) (strip_prefix ''}'' (dropWhile key_char r)))))"

fun read_format :: "nat \<Rightarrow> string \<Rightarrow> (format \<times> string) option" where
  "read_format 0 s = None"
| "read_format (Suc n) s =
     (case strip_prefix ''#{'' s of
        None \<Rightarrow> Some (PlainF (takeWhile plain_char s), dropWhile plain_char s)
      | Some r \<Rightarrow>
          Option.bind (read_head r) (\<lambda>(h, t).
            case h of
              HLookup key \<Rightarrow> Some (LookupF key, t)
            | HLiteral v \<Rightarrow> Some (LiteralF v, t)
            | HDone f \<Rightarrow> Some (f, t)
            | HOp op \<Rightarrow>
                Option.bind (read_format n t) (\<lambda>(a, t1).
                Option.bind (strip_prefix '','' t1) (\<lambda>t2.
                Option.bind (read_format n t2) (\<lambda>(b, t3).
                map_option (Pair (BinaryF op a b)) (strip_prefix ''}'' t3))))
            | HCond \<Rightarrow>
                Option.bind (read_format n t) (\<lambda>(c, t1).
                Option.bind (strip_prefix '','' t1) (\<lambda>t2.
                Option.bind (read_format n t2) (\<lambda>(a, t3).
                Option.bind (strip_prefix '','' t3) (\<lambda>t4.
                Option.bind (read_format n t4) (\<lambda>(b, t5).
                map_option (Pair (CondF c a b)) (strip_prefix ''}'' t5))))))))"

definition expand_format :: "options \<Rightarrow> string \<Rightarrow> string" where
  "expand_format opts s =
     (case read_format (Suc (length s)) s of Some (f, _) \<Rightarrow> eval_format decimal_test opts f | None \<Rightarrow> s)"

text \<open>The texts read back: a literal, a head, a whole format.\<close>

lemma read_literal_escaped:
  "read_literal (concat (map (\<lambda>c. if c \<in> {CHR ''#'', CHR ''}'', CHR '',''} then [CHR ''#'', c] else [c]) v)
     @ CHR ''}'' # rest) = Some (v, rest)"
  by (induction v) auto

lemma strip_prefix_append [simp]: "strip_prefix p (p @ t) = Some t"
  by (simp add: strip_prefix_Some_iff)

lemma strip_prefix_Cons:
  "strip_prefix (c # p) (d # s) = (if c = d then strip_prefix p s else None)"
  "strip_prefix [] s = Some s" "strip_prefix (c # p) [] = None"
  by (auto simp: strip_prefix_def)

lemma read_head_op: "read_head (op_text op @ t) = Some (HOp op, t)"
  by (cases op) (simp_all add: read_head_def read_ops_def strip_prefix_Cons List.map_filter_simps)

lemma read_head_cond: "read_head (''?'' @ t) = Some (HCond, t)"
  by (simp add: read_head_def read_ops_def strip_prefix_Cons List.map_filter_simps)

lemma strip_prefix_key:
  assumes "list_all key_char k" and "list_all key_char p" and "\<not> key_char x" and "x \<noteq> CHR ''}''"
  shows "strip_prefix (p @ x # q) (k @ CHR ''}'' # t) = None"
proof (rule ccontr)
  assume "strip_prefix (p @ x # q) (k @ CHR ''}'' # t) \<noteq> None"
  then obtain u where eq: "k @ CHR ''}'' # t = p @ x # q @ u" by (auto simp: strip_prefix_Some_iff)
  have brace: "\<not> key_char (CHR ''}'')" by code_simp
  have "dropWhile key_char (k @ CHR ''}'' # t) = CHR ''}'' # t"
    using assms(1) brace by (induction k) auto
  moreover have "dropWhile key_char (p @ x # q @ u) = x # q @ u"
    using assms(2,3) by (induction p) auto
  ultimately show False using eq assms(4) by simp
qed

lemma op_text_key:
  "list_all key_char k \<Longrightarrow> strip_prefix (op_text op) (k @ CHR ''}'' # t) = None"
  "list_all key_char k \<Longrightarrow> strip_prefix ''?'' (k @ CHR ''}'' # t) = None"
  "list_all key_char k \<Longrightarrow> strip_prefix ''l:'' (k @ CHR ''}'' # t) = None"
proof -
  have sep: "\<not> key_char (CHR ''='')" "\<not> key_char (CHR ''&'')" "\<not> key_char (CHR ''|'')"
    "\<not> key_char (CHR ''?'')" "\<not> key_char (CHR '':'')" "key_char (CHR ''e'')" "key_char (CHR ''l'')"
    by code_simp+
  assume k: "list_all key_char k"
  note key = strip_prefix_key [OF k]
  show "strip_prefix (op_text op) (k @ CHR ''}'' # t) = None"
    using key [of "[]"] key [of "''e''"] sep by (cases op) simp_all
  show "strip_prefix ''?'' (k @ CHR ''}'' # t) = None" using key [of "[]" "CHR ''?''" "[]"] sep by simp
  show "strip_prefix ''l:'' (k @ CHR ''}'' # t) = None"
    using key [of "''l''" "CHR '':''" "[]"] sep by simp
qed

lemma read_tests_key: "list_all key_char k \<Longrightarrow> read_tests (k @ CHR ''}'' # t) = None"
proof -
  have sep: "\<not> key_char (CHR ''/'')" "\<not> key_char (CHR '':'')" "key_char (CHR ''m'')" "key_char (CHR ''s'')"
    by code_simp+
  assume k: "list_all key_char k"
  note key = strip_prefix_key [OF k]
  show ?thesis
    using key [of "''m''" "CHR '':''" "''*|''"] key [of "''m''" "CHR '':''" "''*:''"]
      key [of "''m''" "CHR ''/''" "''r:^[0-9]+:''"] key [of "''s''" "CHR ''/''" "''[^0-9].*//:#{''"] sep
    by (simp add: read_tests_def)
qed

lemma read_head_key:
  assumes "list_all key_char k"
  shows "read_head (k @ CHR ''}'' # t) = Some (HLookup k, t)"
proof -
  have brace: "\<not> key_char (CHR ''}'')" by code_simp
  have "takeWhile key_char (k @ CHR ''}'' # t) = k" "dropWhile key_char (k @ CHR ''}'' # t) = CHR ''}'' # t"
    using assms brace by (induction k) auto
  moreover have "read_ops (k @ CHR ''}'' # t) = []"
    unfolding read_ops_def using op_text_key [OF assms] by (simp add: List.map_filter_simps del: op_text.simps)
  ultimately show ?thesis
    using op_text_key(3) [OF assms] read_tests_key [OF assms] by (simp add: read_head_def strip_prefix_Cons)
qed

lemma read_head_literal:
  "read_head (''l:'' @ t) = map_option (\<lambda>(v, u). (HLiteral v, u)) (read_literal t)"
proof -
  have "read_ops (''l:'' @ t) = []"
    by (simp add: read_ops_def strip_prefix_Cons List.map_filter_simps)
  then show ?thesis by (simp add: read_head_def read_tests_def strip_prefix_Cons)
qed

lemma key_run:
  assumes "list_all key_char k"
  shows "takeWhile key_char (k @ CHR ''}'' # t) = k"
    and "dropWhile key_char (k @ CHR ''}'' # t) = CHR ''}'' # t"
proof -
  have "\<not> key_char (CHR ''}'')" by code_simp
  then show "takeWhile key_char (k @ CHR ''}'' # t) = k"
    "dropWhile key_char (k @ CHR ''}'' # t) = CHR ''}'' # t"
    using assms by (induction k) auto
qed

lemma read_operand_eq:
  assumes "CHR '','' \<notin> set s" and "list_all key_char k"
  shows "read_operand (s @ '',#{'' @ k @ ''}}'' @ t) = Some (s, k, t)"
proof -
  have "takeWhile (\<lambda>c. c \<noteq> CHR '','') (s @ CHR '','' # u) = s"
    "dropWhile (\<lambda>c. c \<noteq> CHR '','') (s @ CHR '','' # u) = CHR '','' # u" for u
    using assms(1) by (induction s) auto
  then show ?thesis
    using key_run [OF assms(2), of "CHR ''}'' # t"] by (simp add: read_operand_def strip_prefix_Cons)
qed

lemma strip_suffix_append: "strip_suffix p (s @ p) = Some s"
  by (simp add: strip_suffix_def)

lemma glob_no_comma: "list_all glob_plain s \<Longrightarrow> CHR '','' \<notin> set s"
  by (auto simp: list_all_iff glob_plain_def plain_char_def)

lemma alnum_no_comma: "list_all is_alnum s \<Longrightarrow> CHR '','' \<notin> set s"
proof -
  have "\<not> is_alnum (CHR '','')" by code_simp
  then show "list_all is_alnum s \<Longrightarrow> CHR '','' \<notin> set s" by (auto simp: list_all_iff)
qed

lemma read_head_test:
  assumes "test_ok t" and "list_all key_char k"
  shows "read_head (test_text t @ '',#{'' @ k @ ''}}'' @ rest) = Some (HDone (TestF t k), rest)"
proof -
  have ops: "read_ops (CHR ''m'' # u) = []" for u
    by (simp add: read_ops_def strip_prefix_Cons List.map_filter_simps)
  show ?thesis
  proof (cases t)
    case (EndsField s)
    then have "read_operand (s @ '',#{'' @ k @ ''}}'' @ rest) = Some (s, k, rest)"
      using assms by (intro read_operand_eq glob_no_comma) simp_all
    then show ?thesis
      using EndsField ops by (simp add: read_head_def read_tests_def read_test_def strip_prefix_Cons)
  next
    case (HasField s)
    then have "read_operand ((s @ '':*'') @ '',#{'' @ k @ ''}}'' @ rest) = Some (s @ '':*'', k, rest)"
      using assms glob_no_comma by (intro read_operand_eq) (simp_all add: set_append)
    then show ?thesis
      using HasField ops strip_suffix_append [of "'':*''" s]
      by (simp add: read_head_def read_tests_def read_test_def strip_prefix_Cons)
  next
    case (LeaseOf s)
    then have "read_operand ((s @ ''$'') @ '',#{'' @ k @ ''}}'' @ rest) = Some (s @ ''$'', k, rest)"
      using assms alnum_no_comma by (intro read_operand_eq) (simp_all add: set_append)
    then show ?thesis
      using LeaseOf ops strip_suffix_append [of "''$''" s]
      by (simp add: read_head_def read_tests_def read_test_def strip_prefix_Cons)
  qed
qed

lemma read_head_digits:
  assumes "list_all key_char k"
  shows "read_head (''s/[^0-9].*//:#{'' @ k @ ''}}'' @ rest) = Some (HDone (DigitsF k), rest)"
proof -
  have "read_ops (CHR ''s'' # u) = []" for u
    by (simp add: read_ops_def strip_prefix_Cons List.map_filter_simps)
  then show ?thesis
    using key_run [OF assms, of "CHR ''}'' # rest"]
    by (simp add: read_head_def read_tests_def strip_prefix_Cons)
qed

fun format_height :: "format \<Rightarrow> nat" where
  "format_height (BinaryF op a b) = Suc (max (format_height a) (format_height b))"
| "format_height (CondF c a b) =
     Suc (max (format_height c) (max (format_height a) (format_height b)))"
| "format_height _ = 1"

text \<open>What may follow an operand.\<close>

definition operand_end :: "string \<Rightarrow> bool" where
  "operand_end rest = (rest = [] \<or> hd rest = CHR '','' \<or> hd rest = CHR ''}'')"

lemma operand_end_simps [simp]:
  "operand_end []" "operand_end (CHR '','' # r)" "operand_end (CHR ''}'' # r)"
  by (simp_all add: operand_end_def)

lemma plain_run:
  assumes "list_all plain_char s" and "operand_end rest"
  shows "takeWhile plain_char (s @ rest) = s" and "dropWhile plain_char (s @ rest) = rest"
    and "strip_prefix ''#{'' (s @ rest) = None"
proof -
  have "\<not> plain_char (CHR '','')" "\<not> plain_char (CHR ''}'')" by code_simp+
  then have stop: "takeWhile plain_char rest = []" "dropWhile plain_char rest = rest"
    using assms(2) by (cases rest; auto simp: operand_end_def)+
  then show "takeWhile plain_char (s @ rest) = s" "dropWhile plain_char (s @ rest) = rest"
    using assms(1) by (induction s) auto
  have "\<not> plain_char (CHR ''#'')" by code_simp
  then show "strip_prefix ''#{'' (s @ rest) = None"
    using assms by (cases s; cases rest) (auto simp: strip_prefix_Cons operand_end_def)
qed

lemma read_print:
  "format_wf f \<Longrightarrow> format_height f \<le> n \<Longrightarrow> operand_end rest \<Longrightarrow>
     read_format n (print_format f @ rest) = Some (f, rest)"
proof (induction f arbitrary: n rest)
  case (PlainF s)
  then show ?case using plain_run [of s rest] by (cases n) simp_all
next
  case (LookupF key)
  then show ?case by (cases n) (simp_all add: strip_prefix_Cons read_head_key key_ok_def)
next
  case (TestF t key)
  then show ?case
    using read_head_test [of t key rest]
    by (cases n) (simp_all add: strip_prefix_Cons key_ok_def del: test_text.simps)
next
  case (DigitsF key)
  then show ?case
    using read_head_digits [of key rest] by (cases n) (simp_all add: strip_prefix_Cons key_ok_def)
next
  case (LiteralF v)
  then show ?case
    using read_literal_escaped [of v rest] read_head_literal
    by (cases n) (simp_all add: literal_tmux_format_def strip_prefix_Cons)
next
  case (BinaryF op a b)
  then show ?case
    by (cases n) (simp_all add: strip_prefix_Cons read_head_op del: op_text.simps)
next
  case (CondF c a b)
  then show ?case
    using read_head_cond by (cases n) (simp_all add: strip_prefix_Cons)
qed

lemma format_height_length: "format_height f \<le> Suc (length (print_format f))"
  by (induction f) auto

interpretation expand_format: format_server expand_format decimal_test
proof
  fix f opts
  assume "format_wf f"
  then have "read_format (Suc (length (print_format f))) (print_format f) = Some (f, [])"
    using read_print [of f "Suc (length (print_format f))" "[]"] format_height_length [of f]
    by (simp del: read_format.simps)
  then show "expand_format opts (print_format f) = eval_format decimal_test opts f"
    by (simp add: expand_format_def del: read_format.simps)
qed simp

end
