(* ===== verification/Pane_Io.thy ===== *)
theory Pane_Io
  imports Render Tmux_Format
begin

text \<open>
  The first half of \<open>tma-tmux/src/persistence.rs\<close>: coherent pane reads, option edits, the ownership
  predicates that tmux evaluates, and the guarded transaction. A function that talks to tmux is a
  state transformer over an arbitrary server state with an error in its answer; the operations it
  calls (\<open>apply_persistence\<close>, \<open>pane_format\<close>, \<open>list_panes\<close>, the clock, the random nonce) are the fields
  of a record, the client handle. Between two calls the server state may change in any way the server
  allows. Definitions only.
\<close>

section \<open>Operations that may fail\<close>

datatype tmux_error = PaneGone pane_id | TmuxFailed string

datatype persistence_error =
    PeTmux tmux_error
  | PeRandom string
  | PeInvalid string
  | PeUnsupported

type_synonym ('s, 'a) io = "'s \<Rightarrow> (persistence_error + 'a) \<times> 's"

definition io_return :: "'a \<Rightarrow> ('s, 'a) io" where
  "io_return x s = (Inr x, s)"

definition io_fail :: "persistence_error \<Rightarrow> ('s, 'a) io" where
  "io_fail e s = (Inl e, s)"

definition io_bind :: "('s, 'a) io \<Rightarrow> ('a \<Rightarrow> ('s, 'b) io) \<Rightarrow> ('s, 'b) io" where
  "io_bind m f s = (case m s of (Inl e, s1) \<Rightarrow> (Inl e, s1) | (Inr x, s1) \<Rightarrow> f x s1)"

definition io_of :: "persistence_error + 'a \<Rightarrow> ('s, 'a) io" where
  "io_of r s = (r, s)"

text \<open>\<open>match result { Err(Unsupported) => \<dots>, outcome => outcome }\<close>.\<close>

definition io_unsupported :: "('s, 'a) io \<Rightarrow> ('s, 'a) io \<Rightarrow> ('s, 'a) io" where
  "io_unsupported m h s = (case m s of (Inl PeUnsupported, s1) \<Rightarrow> h s1 | other \<Rightarrow> other)"

text \<open>A \<open>for\<close> loop.\<close>

fun io_each :: "('a \<Rightarrow> ('s, unit) io) \<Rightarrow> 'a list \<Rightarrow> ('s, unit) io" where
  "io_each f [] = io_return ()"
| "io_each f (x # xs) = io_bind (f x) (\<lambda>_. io_each f xs)"

section \<open>The client handle\<close>

record 's tmux =
  tx_apply :: "string \<Rightarrow> stamp_command list \<Rightarrow> ('s, unit) io"
  tx_format :: "string \<Rightarrow> string \<Rightarrow> ('s, string) io"
  tx_panes :: "('s, string list) io"
  tx_clock :: "'s \<Rightarrow> u64 \<times> 's"
  tx_nonce :: "('s, string) io"

definition clock :: "'s tmux \<Rightarrow> ('s, u64) io" where
  "clock tx s = (case tx_clock tx s of (now, s1) \<Rightarrow> (Inr now, s1))"

definition fresh_token :: "'s tmux \<Rightarrow> ('s, token) io" where
  "fresh_token tx =
     io_bind (tx_nonce tx) (\<lambda>nonce.
       case token_parse nonce of
         Some t \<Rightarrow> io_return t
       | None \<Rightarrow> io_fail (PeInvalid ''invalid random token''))"

section \<open>Reads\<close>

definition OPT_IGNORE :: string where "OPT_IGNORE = ''@agent_ignore''"
definition OPT_LAST_POLL :: string where "OPT_LAST_POLL = ''@tma_last_poll''"
definition AFTER_SET_OPTION :: string where "AFTER_SET_OPTION = ''after-set-option''"
definition NO_HOOKS :: string where "NO_HOOKS = ''#{==:#{after-set-option},}''"
definition UNIT_SEPARATOR :: char where "UNIT_SEPARATOR = CHR 0x1F"

definition AGENT_OPTIONS :: "string list" where
  "AGENT_OPTIONS = [OPT_NAME, OPT_STATE, OPT_DETAIL, OPT_SOURCE, OPT_EVIDENCE_AT, OPT_SINCE,
     OPT_STAMPED_AT, OPT_ATTENTION, OPT_NOTIFIED_AT, OPT_TURN_AT, OPT_HASH, OPT_PID, OPT_SESSION,
     OPT_SUBAGENTS]"

definition EXTRA_PANE_OPTIONS :: "string list" where
  "EXTRA_PANE_OPTIONS = [OPT_COLLECTOR, OPT_ORIGIN, OPT_OWNER, OPT_COMMIT, OPT_RESULT,
     OPT_INVALIDATED, OPT_BLOCKED_HISTORY, OPT_ACK, OPT_NOTIFIED, OPT_RECEIPT, OPT_METADATA_OWNER,
     OPT_ATTENTION_EPISODE, OPT_EPISODE_NOTIFIED, OPT_MARKER_CLAIM, OPT_METADATA_UPDATE,
     OPT_TITLE_MATCH_PID, OPT_REG_DEAD_SINCE, OPT_IGNORE, OPT_MUTE_UNTIL, OPT_CONTEXT_PCT,
     OPT_CONTEXT_AT, OPT_TOKENS, OPT_TOKENS_AT, OPT_CONTEXT_NOTIFIED_AT, OPT_STALL_NOTIFIED_AT,
     OPT_QUOTA_PCT, OPT_QUOTA_WINDOW, OPT_QUOTA_RESETS_AT, OPT_QUOTA_AT, OPT_COST_USD, OPT_MODEL,
     OPT_PERMISSION_REQUEST, OPT_QUESTION_REQUEST, OPT_API_ENDPOINT, OPT_PENDING_TOOL,
     OPT_PENDING_CALL, OPT_PENDING_SUMMARY, OPT_ACT_REPEAT, OPT_TRANSCRIPT]"

definition pane_option_keys :: "string list" where
  "pane_option_keys = AGENT_OPTIONS @ EXTRA_PANE_OPTIONS"

record pane_read =
  rd_pane_id :: string
  rd_target :: string
  rd_options :: options
  rd_option_hooks :: bool
  rd_program :: program_metadata

definition read_from_options :: "string \<Rightarrow> options \<Rightarrow> pane_read" where
  "read_from_options pane opts =
     \<lparr>rd_pane_id = pane, rd_target = pane, rd_options = opts, rd_option_hooks = False,
      rd_program = metadata_from_options opts\<rparr>"

definition rd_projection :: "pane_read \<Rightarrow> u64 \<Rightarrow> grammar_error + projection_read" where
  "rd_projection r now = projection (rd_program r) (rd_options r) now"

definition rd_value :: "pane_read \<Rightarrow> string \<Rightarrow> string" where
  "rd_value r key = opt_value (rd_options r) key"

fun is_live :: "grammar_error + projection_read \<Rightarrow> bool" where
  "is_live (Inr (PLive _ _ _)) = True"
| "is_live _ = False"

text \<open>\<open>matches!(\<dots>, Ok(ProjectionRead::Live { owner, .. }) if owner == \<dots>)\<close>.\<close>

fun is_live_of :: "pane_owner \<Rightarrow> grammar_error + projection_read \<Rightarrow> bool" where
  "is_live_of w (Inr (PLive _ owner _)) = (owner = w)"
| "is_live_of w _ = False"

datatype commit_outcome = Won pane_read | Lost pane_read

fun winner :: "commit_outcome \<Rightarrow> pane_read" where
  "winner (Won r) = r"
| "winner (Lost r) = r"

fun won :: "commit_outcome \<Rightarrow> bool" where
  "won (Won r) = True"
| "won (Lost r) = False"

section \<open>Edits\<close>

record option_edit =
  ed_key :: string
  ed_value :: "string option"

definition edit_set :: "string \<Rightarrow> string \<Rightarrow> option_edit" where
  "edit_set key v = \<lparr>ed_key = key, ed_value = Some v\<rparr>"

definition edit_unset :: "string \<Rightarrow> option_edit" where
  "edit_unset key = \<lparr>ed_key = key, ed_value = None\<rparr>"

definition edit_command :: "string \<Rightarrow> option_edit \<Rightarrow> stamp_command" where
  "edit_command pane e =
     (case ed_value e of
        Some v \<Rightarrow> set_pane_option pane (ed_key e) v
      | None \<Rightarrow> unset_pane_option pane (ed_key e))"

definition edit_text :: "option_edit \<Rightarrow> string" where
  "edit_text e = (case ed_value e of None \<Rightarrow> [] | Some v \<Rightarrow> v)"

definition option_key_char :: "char \<Rightarrow> bool" where
  "option_key_char b = (is_alnum b \<or> b = CHR ''_'')"

definition edit_ok :: "option_edit \<Rightarrow> bool" where
  "edit_ok e =
     ((case ed_key e of [] \<Rightarrow> False | c # r \<Rightarrow> c = CHR ''@'' \<and> list_all option_key_char r)
      \<and> CHR 0x00 \<notin> set (edit_text e))"

definition validate_edits :: "option_edit list \<Rightarrow> persistence_error + unit" where
  "validate_edits edits =
     (if list_all edit_ok edits then Inr () else Inl (PeInvalid ''invalid option key/value''))"

definition reject_private_edits :: "option_edit list \<Rightarrow> persistence_error + unit" where
  "reject_private_edits edits =
     (if list_ex (\<lambda>e. ed_key e \<in> set PANE_KEYS \<or> ed_key e = OPT_COLLECTOR) edits
      then Inl (PeInvalid ''private marker edits require their ownership API'') else Inr ())"

section \<open>Predicates\<close>

definition pred_lookup :: "string \<Rightarrow> string" where
  "pred_lookup key = ''#{'' @ key @ ''}''"

definition pred_equal :: "string \<Rightarrow> string \<Rightarrow> string" where
  "pred_equal key v = ''#{==:'' @ pred_lookup key @ '','' @ literal_tmux_format v @ ''}''"

definition pred_and :: "string \<Rightarrow> string \<Rightarrow> string" where
  "pred_and a b = ''#{&&:'' @ a @ '','' @ b @ ''}''"

definition pred_or :: "string \<Rightarrow> string \<Rightarrow> string" where
  "pred_or a b = ''#{||:'' @ a @ '','' @ b @ ''}''"

definition pred_conjunction :: "string list \<Rightarrow> string" where
  "pred_conjunction checks = foldr pred_and checks ''1''"

definition pred_not :: "string \<Rightarrow> string" where
  "pred_not a = ''#{?'' @ a @ '',0,1}''"

text \<open>\<open>iter().fold(start, |predicate, key| and(&predicate, &equal(key, \<dots>)))\<close>.\<close>

definition pred_all_equal :: "string \<Rightarrow> (string \<Rightarrow> string) \<Rightarrow> string list \<Rightarrow> string" where
  "pred_all_equal start v keys = foldl (\<lambda>p key. pred_and p (pred_equal key (v key))) start keys"

definition PROJECTION_KEYS :: "string list" where
  "PROJECTION_KEYS = [OPT_ORIGIN, OPT_OWNER, OPT_COMMIT, OPT_COLLECTOR, OPT_STATE, OPT_SOURCE,
     OPT_PID, OPT_EVIDENCE_AT, OPT_SINCE, OPT_STAMPED_AT, OPT_NOTIFIED_AT, OPT_TURN_AT, OPT_HASH]"

definition projection_unchanged :: "pane_read \<Rightarrow> string" where
  "projection_unchanged observed =
     pred_conjunction (map (\<lambda>key. pred_equal key (rd_value observed key)) PROJECTION_KEYS)"

definition live_projection :: "pane_read \<Rightarrow> u64 \<Rightarrow> string" where
  "live_projection observed now =
     (if is_live (rd_projection observed now) then projection_unchanged observed else ''0'')"

datatype ownership =
    Fallback u64
  | ProgramOwner pane_owner u64
  | ExactOwner pane_owner
  | ExactResult persisted_result
  | MetadataExpected "metadata_owner option"

fun ownership_predicate :: "ownership \<Rightarrow> pane_read \<Rightarrow> persistence_error + string" where
  "ownership_predicate (Fallback now) observed =
     Inr (if is_live (rd_projection observed now) then ''0'' else projection_unchanged observed)"
| "ownership_predicate (ProgramOwner owner now) observed =
     (if owner_parse (owner_encode owner) \<noteq> Some owner then Inl (PeInvalid ''invalid program owner'')
      else Inr (case pm_lease (rd_program observed) of
                  Some lease \<Rightarrow>
                    if cl_token lease = po_collector owner \<and> lease_live_at lease now
                    then pred_and (pred_equal OPT_COLLECTOR (lease_encode lease))
                           (projection_unchanged observed)
                    else ''0''
                | None \<Rightarrow> ''0''))"
| "ownership_predicate (ExactOwner owner) observed =
     (if owner_parse (owner_encode owner) \<noteq> Some owner then Inl (PeInvalid ''invalid exact owner'')
      else Inr (pred_equal OPT_OWNER (owner_encode owner)))"
| "ownership_predicate (ExactResult result) observed =
     (if result_parse (result_encode result) \<noteq> Some result
      then Inl (PeInvalid ''invalid exact result'')
      else Inr (pred_and (pred_equal OPT_OWNER (owner_encode (pe_owner result)))
                  (pred_equal OPT_RESULT (result_encode result))))"
| "ownership_predicate (MetadataExpected expected) observed =
     Inr (pred_equal OPT_METADATA_OWNER
            (case expected of None \<Rightarrow> [] | Some w \<Rightarrow> metadata_owner_encode w))"

definition absent_program :: string where
  "absent_program =
     pred_and (pred_equal OPT_ORIGIN []) (pred_and (pred_equal OPT_OWNER []) (pred_equal OPT_COMMIT []))"

fun is_fallback :: "ownership \<Rightarrow> bool" where
  "is_fallback (Fallback _) = True"
| "is_fallback _ = False"

fun is_refresh :: "guard \<Rightarrow> bool" where
  "is_refresh (RefreshClaim _) = True"
| "is_refresh _ = False"

definition effective_guard :: "guard \<Rightarrow> ownership \<Rightarrow> string" where
  "effective_guard g own =
     (let suppress = suppress_expr g
      in pred_not (if is_fallback own \<and> \<not> is_refresh g then pred_and absent_program suppress
                   else suppress))"

section \<open>Reading a pane\<close>

definition parse_ids :: "string list \<Rightarrow> persistence_error + pane_id list" where
  "parse_ids ids =
     (case collect_options (map (\<lambda>i. ok (pane_id_parse i)) ids) of
        Some ps \<Rightarrow> Inr ps
      | None \<Rightarrow> Inl (PeInvalid ''invalid fresh pane membership''))"

definition read_keys :: "option_edit list \<Rightarrow> string list" where
  "read_keys edits =
     foldl (\<lambda>keys e. if ed_key e \<in> set keys then keys else keys @ [ed_key e]) pane_option_keys edits"

definition read_format_text :: "string list \<Rightarrow> string" where
  "read_format_text keys =
     ''#{pane_id}'' @ [UNIT_SEPARATOR] @
     join_with [UNIT_SEPARATOR] (map pred_lookup keys @ [''#{after-set-option}'', ''end''])"

text \<open>What a text with an invalid pane id means: the pane is gone when a fresh list does not have it.\<close>

definition invalid_pane_id :: "'s tmux \<Rightarrow> string \<Rightarrow> ('s, 'a) io" where
  "invalid_pane_id tx pane =
     (let invalid = io_fail (PeInvalid ''invalid pane id'')
      in case pane_id_parse pane of
           Inr requested \<Rightarrow>
             if pane = pane_id_show requested then
               io_bind (tx_panes tx) (\<lambda>ids. io_bind (io_of (parse_ids ids)) (\<lambda>membership.
                 if requested \<in> set membership then invalid
                 else io_fail (PeTmux (PaneGone requested))))
             else invalid
         | Inl _ \<Rightarrow> invalid)"

definition options_of_fields :: "string list \<Rightarrow> string list \<Rightarrow> options" where
  "options_of_fields keys parts = map_of (rev (filter (\<lambda>(_, v). v \<noteq> []) (zip keys parts)))"

definition read_of_fields ::
  "string \<Rightarrow> string list \<Rightarrow> string \<Rightarrow> string list \<Rightarrow> persistence_error + pane_read" where
  "read_of_fields pane keys pane_id parts =
     (if length parts \<noteq> length keys + 2 \<or> last parts \<noteq> ''end''
      then Inl (PeInvalid ''ambiguous options readback'')
      else let opts = options_of_fields keys parts
           in Inr \<lparr>rd_pane_id = pane_id, rd_target = pane, rd_options = opts,
                   rd_option_hooks = (parts ! length keys \<noteq> []),
                   rd_program = metadata_from_options opts\<rparr>)"

definition read_pane_with :: "'s tmux \<Rightarrow> string \<Rightarrow> option_edit list \<Rightarrow> ('s, pane_read) io" where
  "read_pane_with tx pane edits =
     (let keys = read_keys edits
      in io_bind (tx_format tx pane (read_format_text keys)) (\<lambda>text.
           case split_on UNIT_SEPARATOR text of
             [] \<Rightarrow> io_fail (PeInvalid ''missing pane id'')
           | pane_id # parts \<Rightarrow>
               (case pane_id_parse pane_id of
                  Inl _ \<Rightarrow> invalid_pane_id tx pane
                | Inr _ \<Rightarrow> io_of (read_of_fields pane keys pane_id parts))))"

definition read_pane :: "'s tmux \<Rightarrow> string \<Rightarrow> ('s, pane_read) io" where
  "read_pane tx pane = read_pane_with tx pane []"

section \<open>The guarded transaction\<close>

definition transaction_predicate ::
  "ownership \<Rightarrow> pane_read \<Rightarrow> guard \<Rightarrow> string \<Rightarrow> persistence_error + string" where
  "transaction_predicate own observed g extra =
     map_sum id (\<lambda>owned.
       pred_and NO_HOOKS
         (pred_and owned
           (pred_and (effective_guard g own)
             (pred_and extra (pred_equal OPT_RECEIPT (rd_value observed OPT_RECEIPT))))))
       (ownership_predicate own observed)"

definition receipt_edit :: "token \<Rightarrow> option_edit" where
  "receipt_edit w = edit_set OPT_RECEIPT (token_str w)"

definition poll_hint_command :: "string \<Rightarrow> u64 \<Rightarrow> stamp_command" where
  "poll_hint_command target at =
     argv [''set-option'', ''-s'', ''-t'', target, OPT_LAST_POLL, show_nat at]"

definition transaction_commands ::
  "pane_read \<Rightarrow> string \<Rightarrow> token \<Rightarrow> option_edit list \<Rightarrow> u64 option \<Rightarrow> stamp_command list" where
  "transaction_commands observed predicate w edits hint =
     (let target = rd_target observed in
      conditional_group target predicate (map (edit_command target) (edits @ [receipt_edit w]))
      # (case hint of
           None \<Rightarrow> []
         | Some at \<Rightarrow>
             [conditional_group target (pred_and NO_HOOKS (pred_equal OPT_RECEIPT (token_str w)))
                [poll_hint_command target at]]))"

text \<open>The expected value of an edited key is that of its last edit.\<close>

definition final_values :: "option_edit list \<Rightarrow> string \<Rightarrow> string option" where
  "final_values edits = map_of (rev (map (\<lambda>e. (ed_key e, edit_text e)) edits))"

definition all_persisted :: "option_edit list \<Rightarrow> pane_read \<Rightarrow> bool" where
  "all_persisted edits r =
     list_all (\<lambda>e. final_values edits (ed_key e) = Some (rd_value r (ed_key e))) edits"

definition transaction_outcome ::
  "token \<Rightarrow> option_edit list \<Rightarrow> pane_read \<Rightarrow> persistence_error + commit_outcome" where
  "transaction_outcome w edits persisted =
     (if rd_option_hooks persisted then Inl PeUnsupported
      else Inr (if rd_value persisted OPT_RECEIPT = token_str w \<and> all_persisted edits persisted
                then Won persisted else Lost persisted))"

definition transaction_with_hint ::
  "'s tmux \<Rightarrow> pane_read \<Rightarrow> ownership \<Rightarrow> guard \<Rightarrow> string \<Rightarrow> option_edit list \<Rightarrow> u64 option
     \<Rightarrow> ('s, commit_outcome) io" where
  "transaction_with_hint tx observed own g extra edits hint =
     io_bind (io_of (validate_edits edits)) (\<lambda>_.
     io_bind (fresh_token tx) (\<lambda>w.
     io_bind (io_of (transaction_predicate own observed g extra)) (\<lambda>predicate.
     io_bind (tx_apply tx (rd_target observed)
                (transaction_commands observed predicate w edits hint)) (\<lambda>_.
     io_bind (read_pane_with tx (rd_target observed) edits) (\<lambda>persisted.
     io_of (transaction_outcome w edits persisted))))))"

definition transaction ::
  "'s tmux \<Rightarrow> pane_read \<Rightarrow> ownership \<Rightarrow> guard \<Rightarrow> string \<Rightarrow> option_edit list \<Rightarrow> ('s, commit_outcome) io"
where
  "transaction tx observed own g extra edits = transaction_with_hint tx observed own g extra edits None"

end
