(* ===== verification/Pane_Writes.thy ===== *)
theory Pane_Writes
  imports Pane_Io
begin

text \<open>
  The writers of \<open>tma-tmux/src/persistence.rs\<close> that publish screen state, independent metadata and
  removals: the edits of a plan, the episode companions, the fallback transaction and its advisory
  continuation under yielding hooks, metadata updates, release, revocation and invalidation.
  Definitions only.
\<close>

section \<open>Plans as edits\<close>

definition nth_arg :: "'a list \<Rightarrow> nat \<Rightarrow> 'a option" where
  "nth_arg xs n = (if n < length xs then Some (xs ! n) else None)"

definition edit_from_plain :: "stamp_command \<Rightarrow> persistence_error + option_edit" where
  "edit_from_plain c =
     (let args = sc_argv c;
          unset = (nth_arg args 2 = Some ''-u'');
          key_at = (if unset then 5 else 4)
      in if nth_arg args 0 \<noteq> Some ''set-option'' \<or> nth_arg args 1 \<noteq> Some ''-p''
            \<or> nth_arg args (key_at - 2) \<noteq> Some ''-t'' \<or> length args \<noteq> key_at + (if unset then 1 else 2)
         then Inl (PeInvalid ''nonliteral renderer command'')
         else let key = args ! key_at
              in if key \<notin> set pane_option_keys then Inl (PeInvalid ''unregistered renderer option'')
                 else Inr \<lparr>ed_key = key, ed_value = (if unset then None else Some (args ! (key_at + 1)))\<rparr>)"

datatype stamp_plan =
    PlanPublish write_publish
  | PlanHold u64 "u64 option"
  | PlanRemove
  | PlanEndSession

definition keeps_edit :: "persistence_error + option_edit \<Rightarrow> bool" where
  "keeps_edit r = (case r of Inl _ \<Rightarrow> True | Inr e \<Rightarrow> ed_key e \<notin> set METADATA_KEYS)"

definition plan_commands ::
  "string \<Rightarrow> stamp_plan \<Rightarrow> stamped_state option \<Rightarrow> persistence_error + stamp_command list" where
  "plan_commands pane plan previous =
     (case plan of
        PlanPublish p \<Rightarrow>
          if wr_pane_id p \<noteq> pane then Inl (PeInvalid ''plan pane mismatch'')
          else Inr (render_publish_advisory p (map_option sp_state previous)
                      (case previous of None \<Rightarrow> 0 | Some s \<Rightarrow> sp_since s))
      | PlanHold stamped_at hash \<Rightarrow> Inr (render_hold pane stamped_at hash)
      | PlanRemove \<Rightarrow> Inr (render_remove pane)
      | PlanEndSession \<Rightarrow> Inr (render_end_session pane))"

definition edits_for_plan ::
  "string \<Rightarrow> stamp_plan \<Rightarrow> stamped_state option \<Rightarrow> persistence_error + option_edit list" where
  "edits_for_plan pane plan previous =
     sum_bind (plan_commands pane plan previous)
       (\<lambda>commands. collect_results (filter keeps_edit (map edit_from_plain commands)))"

section \<open>Episode companions\<close>

text \<open>\<open>edits.iter().rev().find(|edit| edit.key == key)\<close>.\<close>

definition last_edit :: "option_edit list \<Rightarrow> string \<Rightarrow> option_edit option" where
  "last_edit edits key = find (\<lambda>e. ed_key e = key) (rev edits)"

definition final_value :: "pane_read \<Rightarrow> option_edit list \<Rightarrow> string \<Rightarrow> string" where
  "final_value observed edits key =
     (case last_edit edits key of None \<Rightarrow> rd_value observed key | Some e \<Rightarrow> edit_text e)"

definition stamp_of :: "options \<Rightarrow> stamped_state option" where
  "stamp_of opts =
     (case from_options opts of Inr (Some r) \<Rightarrow> Some (into_inner r) | _ \<Rightarrow> None)"

definition spent_marker :: "stamped_state \<Rightarrow> bool" where
  "spent_marker s = is_some_and (sp_notified_at s) (\<lambda>n. episode_at s \<le> n)"

definition episode_reset_edits :: "option_edit list \<Rightarrow> bool" where
  "episode_reset_edits edits =
     (list_ex (\<lambda>e. ed_key e = OPT_STATE \<and> ed_value e \<noteq> None) edits
      \<and> list_all (\<lambda>key. list_ex (\<lambda>e. ed_key e = key \<and> ed_value e = None) edits)
          [OPT_TURN_AT, OPT_NOTIFIED_AT])"

definition add_episode ::
  "'s tmux \<Rightarrow> pane_read \<Rightarrow> option_edit list \<Rightarrow> ('s, option_edit list) io" where
  "add_episode tx observed edits =
     (let final = final_value observed edits;
          observed_value = rd_value observed;
          reset = episode_reset_edits edits;
          history = (if reset \<or> list_ex (\<lambda>e. ed_key e = OPT_STATE \<and> ed_value e = Some ''working'') edits
                     then map edit_unset [OPT_RESULT, OPT_ACK, OPT_NOTIFIED, OPT_INVALIDATED] else [])
      in if list_ex (\<lambda>e. ed_key e = OPT_STATE \<and> ed_value e = None) edits
         then io_return (history @ map edit_unset [OPT_ATTENTION_EPISODE, OPT_EPISODE_NOTIFIED,
                OPT_BLOCKED_HISTORY, OPT_RESULT, OPT_ACK, OPT_NOTIFIED, OPT_INVALIDATED, OPT_MARKER_CLAIM])
         else
           let state_changed = (reset \<or> final OPT_STATE \<noteq> observed_value OPT_STATE
                                \<or> final OPT_PID \<noteq> observed_value OPT_PID);
               blocked = (if reset \<or> state_changed \<and> final OPT_STATE \<noteq> ''blocked''
                          then [edit_unset OPT_BLOCKED_HISTORY] else []);
               attention = (if \<not> state_changed \<and> final OPT_STATE = ''blocked''
                               \<and> observed_value OPT_ATTENTION \<noteq> ''1''
                            then [edit_unset OPT_ATTENTION] else []);
               explicit_turn = (list_ex (\<lambda>e. ed_key e = OPT_TURN_AT \<and> ed_value e \<noteq> None) edits
                                \<and> observed_value OPT_ATTENTION \<noteq> ''1'')
           in if final OPT_STATE \<noteq> [] \<and> (state_changed \<or> explicit_turn
                 \<or> token_parse (observed_value OPT_ATTENTION_EPISODE) = None)
              then io_bind (fresh_token tx) (\<lambda>episode.
                let marked = history @ blocked @ attention
                               @ [edit_set OPT_ATTENTION_EPISODE (token_str episode)]
                in if \<not> state_changed \<and> \<not> explicit_turn \<and> \<not> pm_program_origin (rd_program observed)
                      \<and> is_some_and (stamp_of (rd_options observed)) spent_marker
                   then io_bind (fresh_token tx) (\<lambda>claim.
                     io_return (marked @ [edit_set OPT_EPISODE_NOTIFIED
                       (token_str claim @ ''|legacy|'' @ token_str episode)]))
                   else io_return marked)
              else io_return (history @ blocked @ attention))"

section \<open>The fallback writer\<close>

definition fallback_body :: "'s tmux \<Rightarrow> pane_read \<Rightarrow> option_edit list \<Rightarrow> ('s, option_edit list) io" where
  "fallback_body tx observed edits =
     io_bind (add_episode tx observed edits) (\<lambda>companions.
       io_return ([edit_unset OPT_COMMIT] @ edits @ companions @ [edit_unset OPT_OWNER]
         @ (if list_ex (\<lambda>e. ed_key e = OPT_STATE) edits then [edit_unset OPT_ORIGIN] else [])))"

definition write_fallback_with_hint ::
  "'s tmux \<Rightarrow> pane_read \<Rightarrow> guard \<Rightarrow> option_edit list \<Rightarrow> u64 option \<Rightarrow> ('s, commit_outcome) io" where
  "write_fallback_with_hint tx observed g edits hint =
     io_bind (io_of (reject_private_edits edits)) (\<lambda>_.
     io_bind (fallback_body tx observed edits) (\<lambda>body.
     io_bind (clock tx) (\<lambda>now.
     transaction_with_hint tx observed (Fallback now) g ''1'' body hint)))"

definition write_fallback ::
  "'s tmux \<Rightarrow> pane_read \<Rightarrow> guard \<Rightarrow> option_edit list \<Rightarrow> ('s, commit_outcome) io" where
  "write_fallback tx observed g edits = write_fallback_with_hint tx observed g edits None"

text \<open>A group of one conditional mutation.\<close>

definition apply_one :: "'s tmux \<Rightarrow> string \<Rightarrow> string \<Rightarrow> option_edit \<Rightarrow> ('s, unit) io" where
  "apply_one tx pane predicate e =
     tx_apply tx pane [conditional_group pane predicate [edit_command pane e]]"

definition advisory_step :: "'s tmux \<Rightarrow> pane_read \<Rightarrow> guard \<Rightarrow> token \<Rightarrow> option_edit \<Rightarrow> ('s, unit) io" where
  "advisory_step tx initial g w e =
     (let pane = rd_target initial in
      io_bind (read_pane tx pane) (\<lambda>observed.
      io_bind (clock tx) (\<lambda>now.
      io_bind (io_of (ownership_predicate (Fallback now) observed)) (\<lambda>owned.
        apply_one tx pane
          (pred_and owned
            (pred_and
              (pred_and (pred_equal OPT_RECEIPT (token_str w))
                (pred_equal OPT_METADATA_OWNER (rd_value initial OPT_METADATA_OWNER)))
              (effective_guard g (Fallback now))))
          e))))"

definition advisory_fallback ::
  "'s tmux \<Rightarrow> pane_read \<Rightarrow> guard \<Rightarrow> option_edit list \<Rightarrow> ('s, pane_read) io" where
  "advisory_fallback tx initial g edits =
     (let pane = rd_target initial in
      io_bind (io_of (reject_private_edits edits)) (\<lambda>_.
      io_bind (io_of (validate_edits edits)) (\<lambda>_.
      io_bind (fallback_body tx initial edits) (\<lambda>body.
      io_bind (fresh_token tx) (\<lambda>w.
      io_bind (clock tx) (\<lambda>now.
      io_bind (io_of (ownership_predicate (Fallback now) initial)) (\<lambda>owned.
      io_bind (apply_one tx pane
        (pred_and owned
          (pred_and (effective_guard g (Fallback now))
            (pred_equal OPT_RECEIPT (rd_value initial OPT_RECEIPT))))
        (edit_set OPT_RECEIPT (token_str w))) (\<lambda>_.
      io_bind (io_each (advisory_step tx initial g w) body) (\<lambda>_.
      read_pane_with tx pane body)))))))))"

section \<open>Independent metadata\<close>

definition owner_text :: "metadata_owner option \<Rightarrow> string" where
  "owner_text w = (case w of None \<Rightarrow> [] | Some m \<Rightarrow> metadata_owner_encode m)"

definition validate_metadata ::
  "metadata_owner option \<Rightarrow> metadata_owner option \<Rightarrow> option_edit list \<Rightarrow> persistence_error + unit" where
  "validate_metadata expected next_owner edits =
     (if list_ex (\<lambda>e. ed_key e \<notin> set METADATA_KEYS) edits
      then Inl (PeInvalid ''state field in independent metadata lane'')
      else if is_some_and expected (\<lambda>w. metadata_owner_parse (metadata_owner_encode w) \<noteq> Some w)
              \<or> is_some_and next_owner (\<lambda>w. metadata_owner_parse (metadata_owner_encode w) \<noteq> Some w)
      then Inl (PeInvalid ''invalid metadata owner'')
      else Inr ())"

text \<open>\<open>parse::<u64>().unwrap_or(0)\<close>.\<close>

definition number_or_zero :: "string \<Rightarrow> u64" where
  "number_or_zero v = (case parse_uint u64_max v of None \<Rightarrow> 0 | Some n \<Rightarrow> n)"

definition metadata_admission :: "pane_read \<Rightarrow> metadata_evidence option \<Rightarrow> string" where
  "metadata_admission observed evidence =
     (let predicate = pred_equal OPT_METADATA_UPDATE (rd_value observed OPT_METADATA_UPDATE)
      in case evidence of
           None \<Rightarrow> predicate
         | Some ev \<Rightarrow>
             let pending = Option.bind (update_parse (rd_value observed OPT_METADATA_UPDATE)) mu_evidence;
                 newer_pending = is_some_and pending
                   (\<lambda>p. metadata_key p = metadata_key ev \<and> metadata_at ev < metadata_at p);
                 previous = number_or_zero (rd_value observed (metadata_key ev))
             in if newer_pending \<or> metadata_at ev < previous then ''0''
                else pred_and predicate
                       (pred_equal (metadata_key ev) (rd_value observed (metadata_key ev))))"

definition owner_edit :: "metadata_owner option \<Rightarrow> option_edit" where
  "owner_edit w =
     (case w of Some m \<Rightarrow> edit_set OPT_METADATA_OWNER (metadata_owner_encode m)
      | None \<Rightarrow> edit_unset OPT_METADATA_OWNER)"

definition write_metadata_observation ::
  "'s tmux \<Rightarrow> pane_read \<Rightarrow> metadata_owner option \<Rightarrow> metadata_owner option \<Rightarrow> option_edit list
     \<Rightarrow> metadata_evidence option \<Rightarrow> ('s, commit_outcome) io" where
  "write_metadata_observation tx observed expected next_owner edits evidence =
     io_bind (io_of (validate_metadata expected next_owner edits)) (\<lambda>_.
     io_bind (fresh_token tx) (\<lambda>t.
     transaction tx observed (MetadataExpected expected) Unconditional
       (metadata_admission observed evidence)
       (edits @ [owner_edit next_owner,
          edit_set OPT_METADATA_UPDATE (update_encode \<lparr>mu_token = t, mu_evidence = evidence\<rparr>)])))"

definition write_metadata ::
  "'s tmux \<Rightarrow> pane_read \<Rightarrow> metadata_owner option \<Rightarrow> metadata_owner option \<Rightarrow> option_edit list
     \<Rightarrow> ('s, commit_outcome) io" where
  "write_metadata tx observed expected next_owner edits =
     write_metadata_observation tx observed expected next_owner edits None"

text \<open>The evidence time under which an old update may still write: absent, or not newer.\<close>

definition evidence_not_newer :: "metadata_evidence \<Rightarrow> string" where
  "evidence_not_newer ev =
     ''#{||:#{==:'' @ pred_lookup (metadata_key ev) @ '',},#{e|<=:'' @ pred_lookup (metadata_key ev) @
     '','' @ show_nat (metadata_at ev) @ ''}}''"

definition advisory_metadata_observation ::
  "'s tmux \<Rightarrow> pane_read \<Rightarrow> metadata_owner option \<Rightarrow> metadata_owner option \<Rightarrow> option_edit list
     \<Rightarrow> metadata_evidence option \<Rightarrow> ('s, pane_read) io" where
  "advisory_metadata_observation tx observed expected next_owner edits evidence =
     (let pane = rd_target observed;
          receipt = pred_equal OPT_RECEIPT (rd_value observed OPT_RECEIPT);
          expected_is = pred_equal OPT_METADATA_OWNER (owner_text expected)
      in io_bind (io_of (validate_metadata expected next_owner edits)) (\<lambda>_.
         io_bind (io_of (validate_edits edits)) (\<lambda>_.
         io_bind (fresh_token tx) (\<lambda>t.
           let update = update_encode \<lparr>mu_token = t, mu_evidence = evidence\<rparr>;
               claim = pred_and (pred_equal OPT_METADATA_UPDATE update) receipt;
               bound = pred_and claim (pred_equal OPT_METADATA_OWNER (owner_text next_owner));
               guarded_by = (case evidence of None \<Rightarrow> bound | Some ev \<Rightarrow> pred_and bound (evidence_not_newer ev))
           in io_bind (apply_one tx pane
                (pred_and (metadata_admission observed evidence) (pred_and expected_is receipt))
                (edit_set OPT_METADATA_UPDATE update)) (\<lambda>_.
              io_bind (apply_one tx pane (pred_and claim expected_is) (owner_edit next_owner)) (\<lambda>_.
              io_bind (io_each (apply_one tx pane guarded_by) edits) (\<lambda>_.
              read_pane_with tx pane edits)))))))"

definition advisory_metadata ::
  "'s tmux \<Rightarrow> pane_read \<Rightarrow> metadata_owner option \<Rightarrow> metadata_owner option \<Rightarrow> option_edit list
     \<Rightarrow> ('s, pane_read) io" where
  "advisory_metadata tx observed expected next_owner edits =
     advisory_metadata_observation tx observed expected next_owner edits None"

definition metadata_owner_of :: "pane_read \<Rightarrow> metadata_owner option" where
  "metadata_owner_of r = Option.bind (rd_options r OPT_METADATA_OWNER) metadata_owner_parse"

section \<open>Removal, release, revocation\<close>

definition finish_removal :: "'s tmux \<Rightarrow> pane_read \<Rightarrow> ('s, pane_read) io" where
  "finish_removal tx observed =
     (let start = pred_equal OPT_RECEIPT (rd_value observed OPT_RECEIPT);
          gone = pred_all_equal start (\<lambda>_. []) [OPT_STATE, OPT_ORIGIN, OPT_OWNER, OPT_COMMIT, OPT_METADATA_OWNER];
          predicate = pred_and gone (pred_equal OPT_METADATA_UPDATE (rd_value observed OPT_METADATA_UPDATE))
      in io_bind (apply_one tx (rd_target observed) predicate (edit_unset OPT_METADATA_UPDATE))
           (\<lambda>_. read_pane tx (rd_target observed)))"

definition release_program ::
  "'s tmux \<Rightarrow> pane_read \<Rightarrow> pane_owner \<Rightarrow> option_edit list \<Rightarrow> ('s, commit_outcome) io" where
  "release_program tx observed owner edits =
     io_bind (io_of (reject_private_edits edits)) (\<lambda>_.
     transaction tx observed (ExactOwner owner) Unconditional ''1''
       ([edit_unset OPT_COMMIT, edit_unset OPT_OWNER] @ edits))"

definition revoke_program_readback :: "'s tmux \<Rightarrow> string \<Rightarrow> pane_owner \<Rightarrow> ('s, pane_read) io" where
  "revoke_program_readback tx pane owner =
     io_bind (tx_apply tx pane
       [conditional_group pane (pred_equal OPT_OWNER (owner_encode owner)) [unset_pane_option pane OPT_COMMIT]])
       (\<lambda>_. read_pane tx pane)"

definition revoke_program :: "'s tmux \<Rightarrow> string \<Rightarrow> pane_owner \<Rightarrow> ('s, bool) io" where
  "revoke_program tx pane owner =
     io_bind (revoke_program_readback tx pane owner) (\<lambda>current.
       io_return (pm_owner (rd_program current) = Some owner \<and> rd_value current OPT_COMMIT = []))"

definition history_affected :: "history_invalidation \<Rightarrow> blocked_history \<Rightarrow> bool" where
  "history_affected what h =
     (case what of InvalidateAll \<Rightarrow> True | Subtree i \<Rightarrow> rid_contains i (bh_record h))"

definition invalidate_history ::
  "'s tmux \<Rightarrow> pane_read \<Rightarrow> pane_owner \<Rightarrow> history_invalidation \<Rightarrow> ('s, unit) io" where
  "invalidate_history tx observed owner what =
     (let pane = rd_target observed;
          owned = pred_equal OPT_OWNER (owner_encode owner)
      in io_bind
        (case blocked_parse (rd_value observed OPT_BLOCKED_HISTORY) of
           Some h \<Rightarrow>
             if history_affected what h then
               apply_one tx pane
                 (pred_and owned
                   (pred_or (pred_equal OPT_BLOCKED_HISTORY (blocked_encode h))
                     (pred_equal OPT_BLOCKED_HISTORY
                       (blocked_encode (h\<lparr>bh_acknowledged := \<not> bh_acknowledged h\<rparr>)))))
                 (edit_unset OPT_BLOCKED_HISTORY)
             else io_return ()
         | None \<Rightarrow> io_return ())
        (\<lambda>_. case option_filter (invalidation_affects what) (pm_result (rd_program observed)) of
           Some result \<Rightarrow>
             apply_one tx pane (pred_and owned (pred_equal OPT_RESULT (result_encode result)))
               (edit_set OPT_INVALIDATED (result_encode result))
         | None \<Rightarrow> io_return ()))"

end
