(* ===== verification/Pane_Attention.thy ===== *)
theory Pane_Attention
  imports Pane_Writes
begin

text \<open>
  The writers of \<open>tma-tmux/src/persistence.rs\<close> that belong to program authority and to attention: the
  publication of a program selection with its history, acknowledgement, notification claims, notify
  markers, and the collector lease. Definitions only.
\<close>

section \<open>Publishing a program selection\<close>

definition PROGRAM_COMPANIONS :: "string list" where
  "PROGRAM_COMPANIONS = [OPT_ATTENTION, OPT_TURN_AT, OPT_NOTIFIED_AT, OPT_PERMISSION_REQUEST,
     OPT_QUESTION_REQUEST, OPT_PENDING_CALL, OPT_PENDING_TOOL, OPT_PENDING_SUMMARY]"

definition ERROR_DETAIL :: string where "ERROR_DETAIL = ''error''"

fun is_rebind :: "result_history \<Rightarrow> bool" where
  "is_rebind (Rebind _ _) = True"
| "is_rebind _ = False"

definition result_mismatch ::
  "pane_owner \<Rightarrow> write_publish \<Rightarrow> result_history \<Rightarrow> persisted_result \<Rightarrow> bool" where
  "result_mismatch owner p history r =
     (pe_owner r \<noteq> owner
      \<or> ri_owner (pe_identity r) \<noteq> po_episode owner
      \<or> result_parse (result_encode r) \<noteq> Some r
      \<or> \<not> is_rebind history \<and> wr_state p \<noteq> Idle
      \<or> \<not> is_rebind history \<and> pe_kind r = Failure \<and> wr_detail p \<noteq> Some ERROR_DETAIL)"

definition validate_publication ::
  "pane_read \<Rightarrow> pane_owner \<Rightarrow> write_publish \<Rightarrow> persisted_result option \<Rightarrow> option_edit list
     \<Rightarrow> result_history \<Rightarrow> persistence_error + unit" where
  "validate_publication observed owner p result companions history =
     (if wr_pane_id p \<noteq> rd_target observed \<or> wr_pid p \<noteq> pi_pid (chain_agent (po_processes owner))
         \<or> is_some_and result (result_mismatch owner p history)
      then Inl (PeInvalid ''publication owner/pane mismatch'')
      else sum_bind (reject_private_edits companions) (\<lambda>_.
        if list_ex (\<lambda>e. ed_key e \<notin> set PROGRAM_COMPANIONS) companions
        then Inl (PeInvalid ''independent or tuple field in program companions'')
        else Inr ()))"

definition publication_tuple ::
  "pane_read \<Rightarrow> pane_owner \<Rightarrow> write_publish \<Rightarrow> option_edit list \<Rightarrow> persistence_error + option_edit list"
where
  "publication_tuple observed owner p companions =
     (let p1 = p\<lparr>wr_source := Hook, wr_guard := Unconditional\<rparr>;
          previous = stamp_of (rd_options observed);
          commands = render_publish_advisory p1 (map_option sp_state previous)
                       (case previous of None \<Rightarrow> 0 | Some s \<Rightarrow> sp_since s)
      in map_sum id (\<lambda>tuple.
           [edit_unset OPT_COMMIT, edit_set OPT_ORIGIN ''1'', edit_set OPT_OWNER (owner_encode owner)]
           @ filter (\<lambda>e. ed_key e \<notin> set METADATA_KEYS) tuple @ companions)
         (collect_results (map edit_from_plain commands)))"

definition same_blocked :: "pane_read \<Rightarrow> pane_owner \<Rightarrow> blocked_history option" where
  "same_blocked observed owner =
     option_filter (\<lambda>h. bh_processes h = po_processes owner
         \<and> rd_value observed OPT_STATE = ''blocked''
         \<and> rd_value observed OPT_ATTENTION_EPISODE = token_str (bh_episode h))
       (blocked_parse (rd_value observed OPT_BLOCKED_HISTORY))"

definition blocked_edits ::
  "'s tmux \<Rightarrow> pane_read \<Rightarrow> pane_owner \<Rightarrow> write_publish \<Rightarrow> option_edit list \<Rightarrow> record_id option
     \<Rightarrow> ('s, option_edit list) io" where
  "blocked_edits tx observed owner p tuple record =
     (if wr_state p \<noteq> Blocked then io_return [edit_unset OPT_BLOCKED_HISTORY]
      else
        let same = same_blocked observed owner;
            attention = (case last_edit tuple OPT_ATTENTION of
                           None \<Rightarrow> rd_value observed OPT_ATTENTION = ''1''
                         | Some e \<Rightarrow> ed_value e = Some ''1'');
            acknowledged = (is_some_and same bh_acknowledged \<or> \<not> attention)
        in io_bind (case same of Some h \<Rightarrow> io_return (bh_episode h) | None \<Rightarrow> fresh_token tx) (\<lambda>episode.
             let blocked = \<lparr>bh_processes = po_processes owner, bh_episode = episode,
                   bh_acknowledged = acknowledged,
                   bh_record = (case record of Some i \<Rightarrow> i | None \<Rightarrow> ROOT)\<rparr>
             in io_return [edit_set OPT_ATTENTION_EPISODE (token_str episode),
                  (if acknowledged then edit_unset OPT_ATTENTION else edit_set OPT_ATTENTION ''1''),
                  edit_set OPT_BLOCKED_HISTORY (blocked_encode blocked)]))"

definition rebind_edits ::
  "'s tmux \<Rightarrow> persisted_result option \<Rightarrow> result_history \<Rightarrow> ('s, option_edit list) io" where
  "rebind_edits tx result history =
     (case history of
        Rebind acknowledged notified \<Rightarrow>
          (case result of
             None \<Rightarrow> io_fail (PeInvalid ''history rebind needs normalized result'')
           | Some r \<Rightarrow>
               io_bind (if notified
                  then io_bind (fresh_token tx) (\<lambda>t.
                    io_return (edit_set OPT_NOTIFIED (claim_encode \<lparr>nc_token = t, nc_result = r\<rparr>)))
                  else io_return (edit_unset OPT_NOTIFIED)) (\<lambda>claim.
               io_return [(if acknowledged then edit_set OPT_ACK (result_encode r) else edit_unset OPT_ACK),
                          claim]))
      | _ \<Rightarrow> io_return [])"

definition result_edits ::
  "pane_read \<Rightarrow> write_publish \<Rightarrow> persisted_result option \<Rightarrow> result_history \<Rightarrow> option_edit list" where
  "result_edits observed p result history =
     (if history = Reset \<or> wr_episode_reset p then map edit_unset [OPT_RESULT, OPT_ACK, OPT_NOTIFIED] else [])
     @ (case result of
          Some r \<Rightarrow> [edit_set OPT_RESULT (result_encode r), edit_unset OPT_INVALIDATED]
        | None \<Rightarrow> [])"

definition publication_edits ::
  "'s tmux \<Rightarrow> pane_read \<Rightarrow> pane_owner \<Rightarrow> write_publish \<Rightarrow> persisted_result option \<Rightarrow> option_edit list
     \<Rightarrow> result_history \<Rightarrow> record_id option \<Rightarrow> ('s, option_edit list) io" where
  "publication_edits tx observed owner p result companions history record =
     io_bind (io_of (publication_tuple observed owner p companions)) (\<lambda>tuple.
     io_bind (add_episode tx observed tuple) (\<lambda>episode.
     io_bind (blocked_edits tx observed owner p tuple record) (\<lambda>blocked.
     io_bind (rebind_edits tx result history) (\<lambda>rebind.
     io_bind (fresh_token tx) (\<lambda>w.
       io_return (tuple @ episode @ blocked @ result_edits observed p result history @ rebind
         @ (if is_some_and result (\<lambda>r. pm_acknowledged (rd_program observed) = Some r)
            then [edit_unset OPT_ATTENTION] else [])
         @ [edit_set OPT_COMMIT (commit_encode \<lparr>cm_write = w, cm_owner = owner\<rparr>)]))))))"

definition HISTORY_KEYS :: "string list" where
  "HISTORY_KEYS = [OPT_ACK, OPT_RESULT, OPT_INVALIDATED, OPT_NOTIFIED, OPT_BLOCKED_HISTORY,
     OPT_ATTENTION_EPISODE, OPT_EPISODE_NOTIFIED, OPT_ATTENTION]"

definition publish_program_with_history ::
  "'s tmux \<Rightarrow> pane_read \<Rightarrow> pane_owner \<Rightarrow> write_publish \<Rightarrow> persisted_result option \<Rightarrow> option_edit list
     \<Rightarrow> result_history \<Rightarrow> record_id option \<Rightarrow> ('s, commit_outcome) io" where
  "publish_program_with_history tx observed owner p result companions history record =
     io_bind (io_of (validate_publication observed owner p result companions history)) (\<lambda>_.
     io_bind (publication_edits tx observed owner p result companions history record) (\<lambda>edits.
     io_bind (clock tx) (\<lambda>now.
     io_bind (transaction tx observed (ProgramOwner owner now) Unconditional
       (pred_all_equal ''1'' (rd_value observed) HISTORY_KEYS) edits) (\<lambda>outcome.
     if won outcome
     then io_bind (clock tx) (\<lambda>later.
       io_return (if is_live_of owner (rd_projection (winner outcome) later) then outcome
                  else Lost (winner outcome)))
     else io_return outcome))))"

definition publish_program ::
  "'s tmux \<Rightarrow> pane_read \<Rightarrow> pane_owner \<Rightarrow> write_publish \<Rightarrow> persisted_result option \<Rightarrow> option_edit list
     \<Rightarrow> ('s, commit_outcome) io" where
  "publish_program tx observed owner p result companions =
     publish_program_with_history tx observed owner p result companions Retain None"

section \<open>Acknowledgement\<close>

definition acknowledge_edits :: "persisted_result \<Rightarrow> option_edit list" where
  "acknowledge_edits result = [edit_set OPT_ACK (result_encode result), edit_unset OPT_ATTENTION]"

definition not_invalidated :: "persisted_result \<Rightarrow> string" where
  "not_invalidated result = pred_not (pred_equal OPT_INVALIDATED (result_encode result))"

definition acknowledge_result ::
  "'s tmux \<Rightarrow> pane_read \<Rightarrow> persisted_result \<Rightarrow> ('s, commit_outcome) io" where
  "acknowledge_result tx observed result =
     transaction tx observed (ExactResult result) Unconditional
       (pred_and (not_invalidated result)
         (pred_and (pred_equal OPT_STATE ''idle'') (pred_equal OPT_ATTENTION ''1'')))
       (acknowledge_edits result)"

definition advisory_acknowledge ::
  "'s tmux \<Rightarrow> pane_read \<Rightarrow> persisted_result \<Rightarrow> ('s, pane_read) io" where
  "advisory_acknowledge tx observed result =
     io_bind (io_of (ownership_predicate (ExactResult result) observed)) (\<lambda>owned.
       let predicate = pred_and (not_invalidated result) (pred_and (pred_equal OPT_STATE ''idle'') owned);
           pane = rd_target observed
       in io_bind (apply_one tx pane (pred_and predicate (pred_equal OPT_ATTENTION ''1''))
            (edit_set OPT_ACK (result_encode result))) (\<lambda>_.
          io_bind (apply_one tx pane (pred_and predicate (pred_equal OPT_ACK (result_encode result)))
            (edit_unset OPT_ATTENTION)) (\<lambda>_.
          read_pane_with tx pane (acknowledge_edits result))))"

record attention_seen =
  as_read :: pane_read
  as_identity :: observation_identity
  as_episode_at :: u64

definition attention_from_read :: "pane_read \<Rightarrow> u64 \<Rightarrow> attention_seen option" where
  "attention_from_read r now =
     map_option (\<lambda>(stamp, identity). \<lparr>as_read = r, as_identity = identity, as_episode_at = episode_at stamp\<rparr>)
       (attention_observation (rd_program r) (rd_options r) now)"

definition notification_observation_current :: "attention_seen \<Rightarrow> pane_read \<Rightarrow> u64 \<Rightarrow> bool" where
  "notification_observation_current seen current now =
     (let observed = as_read seen in
      \<not> (pm_program_origin (rd_program observed) \<and> \<not> is_live (rd_projection observed now))
      \<and> (case as_identity seen of
           ObsResult result \<Rightarrow>
             pm_acknowledged (rd_program current) \<noteq> Some result
             \<and> pm_invalidated (rd_program current) \<noteq> Some result
         | _ \<Rightarrow> True)
      \<and> rd_value current OPT_METADATA_OWNER = rd_value observed OPT_METADATA_OWNER
      \<and> rd_value current OPT_ATTENTION = rd_value observed OPT_ATTENTION
      \<and> is_some_and (attention_from_read current now) (\<lambda>c. as_identity c = as_identity seen))"

definition LEGACY_KEYS :: "string list" where
  "LEGACY_KEYS = [OPT_STATE, OPT_SOURCE, OPT_PID, OPT_SINCE, OPT_TURN_AT, OPT_ATTENTION_EPISODE]"

definition observation_predicate :: "attention_seen \<Rightarrow> persistence_error + string" where
  "observation_predicate seen =
     (let observed = as_read seen in
      case as_identity seen of
        ObsResult result \<Rightarrow> ownership_predicate (ExactResult result) observed
      | ObsBlocked owner episode \<Rightarrow>
          Inr (pred_and (pred_equal OPT_OWNER (owner_encode owner))
                (pred_and (pred_equal OPT_STATE ''blocked'')
                  (pred_equal OPT_ATTENTION_EPISODE (token_str episode))))
      | ObsLegacy _ _ _ _ _ _ _ \<Rightarrow> Inr (pred_all_equal absent_program (rd_value observed) LEGACY_KEYS))"

text \<open>The continuation under yielding hooks: each edit under its own expected history.\<close>

fun acknowledge_rest ::
  "'s tmux \<Rightarrow> string \<Rightarrow> string \<Rightarrow> string \<Rightarrow> option_edit list \<Rightarrow> ('s, unit) io" where
  "acknowledge_rest tx pane base expected [] = io_return ()"
| "acknowledge_rest tx pane base expected (e # es) =
     io_bind (apply_one tx pane (pred_and base (pred_equal OPT_BLOCKED_HISTORY expected)) e)
       (\<lambda>_. acknowledge_rest tx pane base expected es)"

definition acknowledge_observation :: "'s tmux \<Rightarrow> attention_seen \<Rightarrow> ('s, commit_outcome) io" where
  "acknowledge_observation tx seen =
     (let observed = as_read seen; pane = rd_target observed in
      case as_identity seen of
        ObsResult result \<Rightarrow>
          io_unsupported (acknowledge_result tx observed result)
            (io_bind (advisory_acknowledge tx observed result) (\<lambda>r. io_return (Lost r)))
      | _ \<Rightarrow>
          io_bind (io_of (observation_predicate seen)) (\<lambda>p.
            let base = pred_and p (pred_equal OPT_ATTENTION ''1'');
                stored = rd_value observed OPT_BLOCKED_HISTORY;
                edits = (case option_filter
                           (\<lambda>h. rd_value observed OPT_ATTENTION_EPISODE = token_str (bh_episode h))
                           (blocked_parse stored) of
                           Some h \<Rightarrow> [edit_set OPT_BLOCKED_HISTORY (blocked_encode (h\<lparr>bh_acknowledged := True\<rparr>))]
                         | None \<Rightarrow> []) @ [edit_unset OPT_ATTENTION]
            in io_unsupported
                 (transaction tx observed (MetadataExpected (metadata_owner_of observed)) Unconditional
                    (pred_and base (pred_equal OPT_BLOCKED_HISTORY stored)) edits)
                 (io_bind (acknowledge_rest tx pane base stored (take 1 edits)) (\<lambda>_.
                  io_bind (acknowledge_rest tx pane base (edit_text (hd edits)) (drop 1 edits)) (\<lambda>_.
                  io_bind (read_pane tx pane) (\<lambda>r. io_return (Lost r)))))))"

section \<open>Notification claims\<close>

datatype notification_outcome = Claimed pane_read bool | NLost pane_read

fun claimed :: "notification_outcome \<Rightarrow> bool" where
  "claimed (Claimed _ _) = True"
| "claimed (NLost _) = False"

fun grouped_outcome :: "commit_outcome \<Rightarrow> notification_outcome" where
  "grouped_outcome (Won r) = Claimed r True"
| "grouped_outcome (Lost r) = NLost r"

definition already_claimed :: "string \<Rightarrow> string \<Rightarrow> string" where
  "already_claimed identity key = ''#{m:*|'' @ identity @ '','' @ pred_lookup key @ ''}''"

definition claim_predicate :: "pane_read \<Rightarrow> persisted_result \<Rightarrow> u64 \<Rightarrow> string" where
  "claim_predicate observed result now =
     pred_and (live_projection observed now)
       (pred_and
         (pred_and (not_invalidated result)
           (pred_and (pred_equal OPT_STATE ''idle'')
             (pred_not (pred_equal OPT_ACK (result_encode result)))))
         (pred_and (pred_equal OPT_ATTENTION ''1'')
           (pred_not (already_claimed (result_encode result) OPT_NOTIFIED))))"

definition claim_notification_with_token ::
  "'s tmux \<Rightarrow> pane_read \<Rightarrow> persisted_result \<Rightarrow> ('s, commit_outcome \<times> notification_claim) io" where
  "claim_notification_with_token tx observed result =
     io_bind (fresh_token tx) (\<lambda>t.
     io_bind (clock tx) (\<lambda>now.
       let claim = \<lparr>nc_token = t, nc_result = result\<rparr> in
       io_bind (transaction tx observed (ExactResult result) Unconditional
           (claim_predicate observed result now)
           [edit_set OPT_NOTIFIED (claim_encode claim), edit_set OPT_NOTIFIED_AT (show_nat now)]) (\<lambda>outcome.
       if won outcome
       then io_bind (clock tx) (\<lambda>later.
         io_return (if is_live_of (pe_owner result) (rd_projection (winner outcome) later)
                    then (outcome, claim) else (Lost (winner outcome), claim)))
       else io_return (outcome, claim))))"

definition claim_notification ::
  "'s tmux \<Rightarrow> pane_read \<Rightarrow> persisted_result \<Rightarrow> ('s, commit_outcome) io" where
  "claim_notification tx observed result =
     io_bind (claim_notification_with_token tx observed result) (\<lambda>(outcome, _). io_return outcome)"

text \<open>Whether a surviving unique claim grants the notification although the transaction was lost.\<close>

definition surviving_claim ::
  "'s tmux \<Rightarrow> attention_seen \<Rightarrow> commit_outcome \<Rightarrow> bool \<Rightarrow> ('s, notification_outcome) io" where
  "surviving_claim tx seen outcome stored =
     (if \<not> won outcome \<and> stored
      then io_bind (clock tx) (\<lambda>now.
        io_return (if notification_observation_current seen (winner outcome) now
                   then Claimed (winner outcome) False else grouped_outcome outcome))
      else io_return (grouped_outcome outcome))"

fun is_blocked_obs :: "observation_identity \<Rightarrow> bool" where
  "is_blocked_obs (ObsBlocked _ _) = True"
| "is_blocked_obs _ = False"

fun is_legacy_obs :: "observation_identity \<Rightarrow> bool" where
  "is_legacy_obs (ObsLegacy _ _ _ _ _ _ _) = True"
| "is_legacy_obs _ = False"

definition observation_claim_predicate :: "attention_seen \<Rightarrow> u64 \<Rightarrow> persistence_error + string" where
  "observation_claim_predicate seen now =
     map_sum id (\<lambda>p.
       let observed = as_read seen; identity = as_identity seen;
           fresh = pred_and p (pred_not (already_claimed (observation_encode identity) OPT_EPISODE_NOTIFIED));
           legacy = (if is_legacy_obs identity
                     then pred_and fresh
                       (pred_and (pred_equal OPT_METADATA_OWNER (rd_value observed OPT_METADATA_OWNER))
                         (pred_equal OPT_RECEIPT (rd_value observed OPT_RECEIPT)))
                     else fresh)
       in if is_blocked_obs identity then pred_and legacy (live_projection observed now) else legacy)
       (observation_predicate seen)"

definition legacy_marker_spent :: "attention_seen \<Rightarrow> bool" where
  "legacy_marker_spent seen =
     (\<not> is_blocked_obs (as_identity seen)
      \<and> rd_value (as_read seen) OPT_ATTENTION_EPISODE = []
      \<and> is_some_and (stamp_of (rd_options (as_read seen))) spent_marker)"

text \<open>Under yielding hooks a legacy episode is claimed by one mutation.\<close>

definition legacy_claim ::
  "'s tmux \<Rightarrow> attention_seen \<Rightarrow> string \<Rightarrow> string \<Rightarrow> option_edit list \<Rightarrow> ('s, notification_outcome) io"
where
  "legacy_claim tx seen predicate claim edits =
     (let pane = rd_target (as_read seen) in
      io_bind (apply_one tx pane predicate (edits ! 0)) (\<lambda>_.
      io_bind (io_of (observation_predicate seen)) (\<lambda>p.
      io_bind (apply_one tx pane (pred_and p (pred_equal OPT_EPISODE_NOTIFIED claim)) (edits ! 1)) (\<lambda>_.
      io_bind (read_pane tx pane) (\<lambda>current.
      io_bind (clock tx) (\<lambda>now.
        io_return (if is_some_and (attention_from_read current now) (\<lambda>c. as_identity c = as_identity seen)
                      \<and> rd_value current OPT_EPISODE_NOTIFIED = claim
                   then Claimed current False else NLost current)))))))"

definition claim_episode :: "'s tmux \<Rightarrow> attention_seen \<Rightarrow> u64 \<Rightarrow> string \<Rightarrow> ('s, notification_outcome) io" where
  "claim_episode tx seen now predicate =
     (let observed = as_read seen; identity = as_identity seen in
      if legacy_marker_spent seen
      then io_bind (read_pane tx (rd_target observed)) (\<lambda>r. io_return (NLost r))
      else io_bind (fresh_token tx) (\<lambda>t.
        let claim = token_str t @ ''|'' @ observation_encode identity;
            edits = [edit_set OPT_EPISODE_NOTIFIED claim,
                     edit_set OPT_NOTIFIED_AT (show_nat (max now (as_episode_at seen)))];
            grouped = io_bind
              (transaction tx observed (MetadataExpected (metadata_owner_of observed)) Unconditional
                 predicate edits) (\<lambda>outcome.
              if won outcome \<and> is_blocked_obs identity
              then io_bind (clock tx) (\<lambda>later.
                io_return (if is_live (rd_projection (winner outcome) later)
                           then grouped_outcome outcome else NLost (winner outcome)))
              else surviving_claim tx seen outcome
                     (rd_value (winner outcome) OPT_EPISODE_NOTIFIED = claim))
        in if is_legacy_obs identity
           then io_unsupported grouped (legacy_claim tx seen predicate claim edits)
           else grouped))"

definition claim_observation :: "'s tmux \<Rightarrow> attention_seen \<Rightarrow> ('s, notification_outcome) io" where
  "claim_observation tx seen =
     (case as_identity seen of
        ObsResult result \<Rightarrow>
          io_bind (claim_notification_with_token tx (as_read seen) result) (\<lambda>(outcome, claim).
            surviving_claim tx seen outcome (pm_notified (rd_program (winner outcome)) = Some claim))
      | _ \<Rightarrow>
          io_bind (clock tx) (\<lambda>now.
          io_bind (io_of (observation_claim_predicate seen now)) (claim_episode tx seen now)))"

section \<open>Notify markers\<close>

definition MARKER_KEYS :: "string list" where
  "MARKER_KEYS = [OPT_CONTEXT_NOTIFIED_AT, OPT_STALL_NOTIFIED_AT]"

definition marker_edit :: "string \<Rightarrow> u64 option \<Rightarrow> option_edit" where
  "marker_edit key arm_at =
     (case arm_at of Some at \<Rightarrow> edit_set key (show_nat at) | None \<Rightarrow> edit_unset key)"

definition marker_checks :: "pane_read \<Rightarrow> string list \<Rightarrow> string \<Rightarrow> u64 option \<Rightarrow> string list" where
  "marker_checks observed keys key arm_at =
     map (\<lambda>k. pred_equal k (rd_value observed k)) keys
     @ (if arm_at \<noteq> None then [pred_equal key []] else [])"

definition update_notify_marker ::
  "'s tmux \<Rightarrow> pane_read \<Rightarrow> string \<Rightarrow> u64 option \<Rightarrow> ('s, commit_outcome) io" where
  "update_notify_marker tx observed key arm_at =
     (if key \<notin> set MARKER_KEYS then io_fail (PeInvalid ''invalid notification marker'')
      else
        let checks = marker_checks observed [key, OPT_CONTEXT_PCT, OPT_CONTEXT_AT, OPT_METADATA_OWNER] key arm_at;
            predicate = pred_and (pred_conjunction checks) (projection_unchanged observed)
        in io_bind (fresh_token tx) (\<lambda>t.
             transaction tx observed (MetadataExpected (metadata_owner_of observed)) Unconditional predicate
               [marker_edit key arm_at, edit_set OPT_MARKER_CLAIM (token_str t)]))"

definition METADATA_FENCE :: "string list" where
  "METADATA_FENCE = [OPT_METADATA_OWNER, OPT_METADATA_UPDATE, OPT_RECEIPT, OPT_CONTEXT_PCT, OPT_CONTEXT_AT]"

definition advisory_notify_marker ::
  "'s tmux \<Rightarrow> pane_read \<Rightarrow> string \<Rightarrow> u64 option \<Rightarrow> ('s, notification_outcome) io" where
  "advisory_notify_marker tx observed key arm_at =
     (if key \<notin> set MARKER_KEYS then io_fail (PeInvalid ''invalid notification marker'')
      else if key = OPT_STALL_NOTIFIED_AT \<and> pm_program_origin (rd_program observed)
      then io_fail PeUnsupported
      else io_bind (fresh_token tx) (\<lambda>claim.
        let pane = rd_target observed;
            checks = marker_checks observed (key # METADATA_FENCE) key arm_at;
            guarded_by = (\<lambda>c. pred_and (pred_conjunction (checks @ [pred_equal OPT_MARKER_CLAIM c]))
                           (projection_unchanged observed));
            edit = marker_edit key arm_at
        in io_bind (apply_one tx pane (guarded_by (rd_value observed OPT_MARKER_CLAIM))
             (edit_set OPT_MARKER_CLAIM (token_str claim))) (\<lambda>_.
           io_bind (apply_one tx pane (guarded_by (token_str claim)) edit) (\<lambda>_.
           io_bind (read_pane tx pane) (\<lambda>current.
             io_return (if list_all (\<lambda>k. rd_value current k = rd_value observed k)
                             (PROJECTION_KEYS @ METADATA_FENCE)
                           \<and> rd_value current OPT_MARKER_CLAIM = token_str claim
                           \<and> rd_value current key = edit_text edit
                        then Claimed current False else NLost current))))))"

section \<open>The collector lease\<close>

datatype lease_outcome = LeaseWon "collector_lease option" | LeaseLost "collector_lease option"

definition read_collector :: "'s tmux \<Rightarrow> string \<Rightarrow> ('s, string option) io" where
  "read_collector tx pane =
     io_bind (tx_format tx pane (pred_lookup OPT_COLLECTOR @ [UNIT_SEPARATOR] @ ''end'')) (\<lambda>raw.
       case strip_prefix (rev ([UNIT_SEPARATOR] @ ''end'')) (rev raw) of
         None \<Rightarrow> io_fail (PeInvalid ''invalid lease readback'')
       | Some v \<Rightarrow> io_return (if v = [] then None else Some (rev v)))"

definition lease_command :: "string \<Rightarrow> collector_lease \<Rightarrow> stamp_command" where
  "lease_command pane lease =
     argv [''set-option'', ''-s'', ''-t'', pane, OPT_COLLECTOR, lease_encode lease]"

text \<open>No caller passes an absent lease, so the unset branch of the source is not modelled.\<close>

definition lease_operation ::
  "'s tmux \<Rightarrow> string \<Rightarrow> string \<Rightarrow> collector_lease \<Rightarrow> bool \<Rightarrow> ('s, lease_outcome) io" where
  "lease_operation tx pane predicate lease hookless =
     (let p = (if hookless then pred_and NO_HOOKS predicate else predicate) in
      io_bind (tx_apply tx pane [conditional_group pane p [lease_command pane lease]]) (\<lambda>_.
      io_bind (read_collector tx pane) (\<lambda>stored.
      io_bind (if hookless
         then io_bind (tx_format tx pane NO_HOOKS) (\<lambda>v.
           if v \<noteq> ''1'' then io_fail PeUnsupported else io_return ())
         else io_return ()) (\<lambda>_.
      let parsed = Option.bind stored lease_parse
      in io_return (if stored = Some (lease_encode lease) then LeaseWon parsed else LeaseLost parsed)))))"

definition confirmed_live_lease :: "lease_outcome \<Rightarrow> u64 \<Rightarrow> lease_outcome" where
  "confirmed_live_lease outcome now =
     (case outcome of
        LeaseWon lease \<Rightarrow> if is_some_and lease (\<lambda>l. lease_live_at l now) then outcome else LeaseLost lease
      | LeaseLost _ \<Rightarrow> outcome)"

definition bool_literal :: "bool \<Rightarrow> string" where
  "bool_literal b = (if b then ''1'' else ''0'')"

definition acquire_collector :: "'s tmux \<Rightarrow> string \<Rightarrow> token \<Rightarrow> ('s, lease_outcome) io" where
  "acquire_collector tx pane tok =
     io_bind (read_collector tx pane) (\<lambda>current.
     io_bind (clock tx) (\<lambda>now.
       let eligible = \<not> is_some_and (Option.bind current lease_parse) (\<lambda>l. lease_live_at l now);
           lease = \<lparr>cl_token = tok, cl_expires_at = sat_add now LEASE_DURATION_MS\<rparr>
       in io_bind (lease_operation tx pane
            (pred_and (bool_literal eligible)
              (pred_equal OPT_COLLECTOR (case current of None \<Rightarrow> [] | Some v \<Rightarrow> v))) lease True) (\<lambda>outcome.
          io_bind (clock tx) (\<lambda>later. io_return (confirmed_live_lease outcome later)))))"

definition renew_collector :: "'s tmux \<Rightarrow> string \<Rightarrow> collector_lease \<Rightarrow> ('s, lease_outcome) io" where
  "renew_collector tx pane previous =
     io_bind (read_collector tx pane) (\<lambda>current.
     io_bind (clock tx) (\<lambda>now.
       let lease = \<lparr>cl_token = cl_token previous, cl_expires_at = sat_add now LEASE_DURATION_MS\<rparr>
       in io_bind (lease_operation tx pane
            (pred_and (bool_literal (lease_live_at previous now))
              (pred_and (pred_equal OPT_COLLECTOR (lease_encode previous))
                (pred_equal OPT_COLLECTOR (case current of None \<Rightarrow> [] | Some v \<Rightarrow> v)))) lease True) (\<lambda>outcome.
          io_bind (clock tx) (\<lambda>completed.
            io_return (if lease_live_at previous completed then confirmed_live_lease outcome completed
                       else (case outcome of LeaseWon l \<Rightarrow> LeaseLost l | LeaseLost l \<Rightarrow> LeaseLost l))))))"

definition lease_of_token :: "token \<Rightarrow> string" where
  "lease_of_token t = ''#{m/r:^[0-9]+:'' @ token_str t @ ''$,'' @ pred_lookup OPT_COLLECTOR @ ''}''"

definition release_collector :: "'s tmux \<Rightarrow> string \<Rightarrow> token \<Rightarrow> ('s, lease_outcome) io" where
  "release_collector tx pane tok =
     lease_operation tx pane (lease_of_token tok) \<lparr>cl_token = tok, cl_expires_at = 0\<rparr> False"

end
