(* ===== verification/Pane_Server.thy ===== *)
theory Pane_Server
  imports Pane_Io
begin

text \<open>
  What the writers of a pane rely on of tmux, as an interface: a client handle whose every call is a
  number of steps of the server, some of other clients and some its own. Own commands run one after
  the other; a conditional group is one step as long as no option hook can yield. The reasoning is by
  rely and guarantee: \<open>guar G m Q\<close> says that the only own steps of \<open>m\<close> are steps in \<open>G\<close>, whatever the
  others do in between, and that an answer of \<open>m\<close> is in \<open>Q\<close>.
\<close>

section \<open>Contexts\<close>

text \<open>The reader drops empty values.\<close>

definition read_back :: "options \<Rightarrow> options" where
  "read_back opts = (\<lambda>key. option_filter (\<lambda>v. v \<noteq> []) (opts key))"

definition no_hooks :: "options \<Rightarrow> bool" where
  "no_hooks opts = (opt_value opts AFTER_SET_OPTION = [])"

definition set_command :: "stamp_command \<Rightarrow> bool" where
  "set_command c = (case sc_argv c of [] \<Rightarrow> False | x # _ \<Rightarrow> x = ''set-option'')"

definition apply_edits :: "option_edit list \<Rightarrow> options \<Rightarrow> options" where
  "apply_edits edits opts = fold (\<lambda>e opts. opts(ed_key e := ed_value e)) edits opts"

fun executed ::
  "(options \<Rightarrow> options \<Rightarrow> bool) \<Rightarrow> (stamp_command \<Rightarrow> options \<Rightarrow> options) \<Rightarrow> stamp_command list
     \<Rightarrow> options \<Rightarrow> options \<Rightarrow> bool" where
  "executed others run [] a b = others a b"
| "executed others run (c # cs) a b = (\<exists>m. others a m \<and> executed others run cs (run c m) b)"

lemma opt_value_read_back [simp]: "opt_value (read_back opts) = opt_value opts"
  by (auto simp: opt_value_def read_back_def option_filter_def fun_eq_iff split: option.split)

lemma read_back_value: "read_back opts key = (if opt_value opts key = [] then None else Some (opt_value opts key))"
  by (auto simp: opt_value_def read_back_def option_filter_def split: option.split)

lemma read_back_idem [simp]: "read_back (read_back opts) = read_back opts"
  by (simp add: fun_eq_iff read_back_value)

lemma apply_edits_simps [simp]:
  "apply_edits [] opts = opts"
  "apply_edits (e # es) opts = apply_edits es (opts(ed_key e := ed_value e))"
  "apply_edits (es @ fs) opts = apply_edits fs (apply_edits es opts)"
  by (simp_all add: apply_edits_def)

lemma apply_edits_other: "key \<notin> ed_key ` set es \<Longrightarrow> apply_edits es opts key = opts key"
  by (induction es arbitrary: opts) auto

section \<open>The meaning of the predicates\<close>

lemma means_one: "means num ''1'' (\<lambda>_. True)"
proof -
  have "format_wf (PlainF ''1'')" by code_simp
  then show ?thesis by (intro meansI [of "PlainF ''1''"]) simp_all
qed

lemma means_zero: "means num ''0'' (\<lambda>_. False)"
proof -
  have "format_wf (PlainF ''0'')" by code_simp
  then show ?thesis by (intro meansI [of "PlainF ''0''"]) simp_all
qed

lemma means_equal: "key_ok key \<Longrightarrow> means num (pred_equal key v) (\<lambda>opts. opt_value opts key = v)"
  by (rule meansI [of "BinaryF OpEq (LookupF key) (LiteralF v)"])
    (simp_all add: pred_equal_def pred_lookup_def)

lemma means_and:
  "means num a P \<Longrightarrow> means num b Q \<Longrightarrow> means num (pred_and a b) (\<lambda>opts. P opts \<and> Q opts)"
  unfolding means_def
  by (elim exE conjE, rule_tac x = "BinaryF OpAnd f fa" in exI) (simp add: pred_and_def)

lemma means_or:
  "means num a P \<Longrightarrow> means num b Q \<Longrightarrow> means num (pred_or a b) (\<lambda>opts. P opts \<or> Q opts)"
  unfolding means_def
  by (elim exE conjE, rule_tac x = "BinaryF OpOr f fa" in exI) (simp add: pred_or_def)

lemma means_not: "means num a P \<Longrightarrow> means num (pred_not a) (\<lambda>opts. \<not> P opts)"
proof -
  assume "means num a P"
  then obtain f where f: "print_format f = a" "format_wf f" "\<And>opts. truthy (eval_format num opts f) = P opts"
    by (auto simp: means_def)
  have "format_wf (PlainF ''0'')" "format_wf (PlainF ''1'')" by code_simp+
  then show ?thesis
    using f by (intro meansI [of "CondF f (PlainF ''0'') (PlainF ''1'')"]) (simp_all add: pred_not_def)
qed

lemma means_all_equal:
  "means num start P \<Longrightarrow> list_all key_ok keys \<Longrightarrow>
     means num (pred_all_equal start v keys) (\<lambda>opts. P opts \<and> (\<forall>key \<in> set keys. opt_value opts key = v key))"
proof (induction keys arbitrary: start P)
  case (Cons k ks)
  then show ?case
    using Cons.IH [OF means_and [OF Cons.prems(1) means_equal [of k num "v k"]]]
    by (simp add: pred_all_equal_def conj_assoc)
qed (simp add: pred_all_equal_def)

lemma means_conjunction:
  "list_all key_ok keys \<Longrightarrow>
     means num (pred_conjunction (map (\<lambda>key. pred_equal key (v key)) keys))
       (\<lambda>opts. \<forall>key \<in> set keys. opt_value opts key = v key)"
proof (induction keys)
  case Nil
  then show ?case using means_one by (simp add: pred_conjunction_def)
next
  case (Cons k ks)
  then show ?case
    using means_and [OF means_equal [of k num "v k"], of _ "\<lambda>opts. \<forall>key \<in> set ks. opt_value opts key = v key"]
    by (simp add: pred_conjunction_def)
qed

text \<open>The keys the program uses are written as lookups.\<close>

lemma keys_ok: "list_all key_ok (pane_option_keys @ [AFTER_SET_OPTION, ''pane_id'', OPT_LAST_POLL])"
  by code_simp

lemma key_ok_pane: "key \<in> set pane_option_keys \<Longrightarrow> key_ok key"
  using keys_ok by (simp add: list_all_iff)

lemma projection_keys_known: "set PROJECTION_KEYS \<subseteq> set pane_option_keys"
  by code_simp

lemma private_keys_known: "set PANE_KEYS \<subseteq> set pane_option_keys" "OPT_COLLECTOR \<in> set pane_option_keys"
  by code_simp+

lemma means_projection:
  "means num (projection_unchanged observed)
     (\<lambda>opts. \<forall>key \<in> set PROJECTION_KEYS. opt_value opts key = rd_value observed key)"
  unfolding projection_unchanged_def
  using projection_keys_known key_ok_pane by (intro means_conjunction) (auto simp: list_all_iff)

lemma means_no_hooks: "means num NO_HOOKS no_hooks"
proof -
  have "key_ok AFTER_SET_OPTION" using keys_ok by simp
  then show ?thesis
    by (intro meansI [of "BinaryF OpEq (LookupF AFTER_SET_OPTION) (PlainF [])"])
      (simp_all add: NO_HOOKS_def AFTER_SET_OPTION_def no_hooks_def)
qed

section \<open>Servers and clients\<close>

locale pane_server = format_server expand num
  for expand :: "options \<Rightarrow> string \<Rightarrow> string" and num :: number_test +
  fixes tx :: "'s tmux"
    and opts_of :: "'s \<Rightarrow> options"
    and others :: "options \<Rightarrow> options \<Rightarrow> bool"
    and run :: "stamp_command \<Rightarrow> options \<Rightarrow> options"
  assumes others_refl: "others a a"
    and others_trans: "others a b \<Longrightarrow> others b c \<Longrightarrow> others a c"
    and run_set: "run (set_plain pane key v) opts = opts(key := Some v)"
    and run_unset: "run (unset_pane pane key) opts = opts(key := None)"
    and run_server_set: "run (argv [''set-option'', ''-s'', ''-t'', pane, key, v]) opts = opts(key := Some v)"
    and run_skip: "\<not> truthy (expand opts p) \<Longrightarrow> run (conditional_group pane p body) opts = opts"
    and run_group: "truthy (expand opts p) \<Longrightarrow> list_all set_command body
      \<Longrightarrow> no_hooks opts \<or> length body \<le> 1 \<Longrightarrow> run (conditional_group pane p body) opts = fold run body opts"
    and apply_steps: "tx_apply tx pane cs s = (r, s') \<Longrightarrow>
      \<exists>n. (r = Inr () \<longrightarrow> n = length cs) \<and> executed others run (take n cs) (opts_of s) (opts_of s')"
    and format_steps: "tx_format tx pane text s = (answer, s') \<Longrightarrow> others (opts_of s) (opts_of s')"
    and format_answer: "tx_format tx pane (join_with [UNIT_SEPARATOR] (map print_format fs)) s = (Inr text, s')
      \<Longrightarrow> list_all format_wf fs \<Longrightarrow> list_all (\<lambda>f. UNIT_SEPARATOR \<notin> set (print_format f)) fs
      \<Longrightarrow> \<exists>a. others (opts_of s) a \<and> others a (opts_of s')
            \<and> text = join_with [UNIT_SEPARATOR] (map (eval_format num a) fs)"
    and panes_steps: "tx_panes tx s = (ids, s') \<Longrightarrow> others (opts_of s) (opts_of s')"
    and clock_steps: "tx_clock tx s = (now, s') \<Longrightarrow> others (opts_of s) (opts_of s')"
    and nonce_steps: "tx_nonce tx s = (nonce, s') \<Longrightarrow> others (opts_of s) (opts_of s')"
begin

lemma expand_means: "means num s P \<Longrightarrow> truthy (expand opts s) = P opts"
proof -
  assume "means num s P"
  then obtain f where "print_format f = s" "format_wf f" "\<forall>opts. truthy (eval_format num opts f) = P opts"
    unfolding means_def by blast
  then show ?thesis using expand_print [of f opts] by simp
qed

lemma run_edit: "run (edit_command pane e) opts = opts(ed_key e := ed_value e)"
  by (cases "ed_value e")
    (simp_all add: edit_command_def set_pane_option_def unset_pane_option_def run_set run_unset)

lemma run_edits: "fold run (map (edit_command pane) es) opts = apply_edits es opts"
  by (induction es arbitrary: opts) (simp_all add: run_edit)

lemma set_command_edit [simp]: "set_command (edit_command pane e)"
  by (simp add: set_command_def edit_command_def set_pane_option_def unset_pane_option_def set_plain_def
      unset_pane_def argv_def split: option.split)

text \<open>The reflexive and transitive closure of own and other steps.\<close>

definition steps :: "(options \<Rightarrow> options \<Rightarrow> bool) \<Rightarrow> options \<Rightarrow> options \<Rightarrow> bool" where
  "steps G = (\<lambda>a b. others a b \<or> G a b)\<^sup>*\<^sup>*"

definition guar :: "(options \<Rightarrow> options \<Rightarrow> bool) \<Rightarrow> ('s, 'a) io \<Rightarrow> ('a \<Rightarrow> bool) \<Rightarrow> bool" where
  "guar G m Q = (\<forall>s r s'. m s = (r, s') \<longrightarrow> steps G (opts_of s) (opts_of s') \<and> (\<forall>x. r = Inr x \<longrightarrow> Q x))"

lemma steps_others: "others a b \<Longrightarrow> steps G a b"
  by (auto simp: steps_def)

lemma steps_own: "G a b \<Longrightarrow> steps G a b"
  by (auto simp: steps_def)

lemma steps_refl [simp]: "steps G a a"
  by (simp add: steps_def)

lemma steps_trans: "steps G a b \<Longrightarrow> steps G b c \<Longrightarrow> steps G a c"
  unfolding steps_def by (rule rtranclp_trans)

lemma guar_bind:
  assumes "guar G m Q" and "\<And>x. Q x \<Longrightarrow> guar G (f x) R"
  shows "guar G (io_bind m f) R"
  unfolding guar_def
proof (intro allI impI)
  fix s r s'
  assume run: "io_bind m f s = (r, s')"
  obtain r1 s1 where m: "m s = (r1, s1)" by (cases "m s")
  then have first: "steps G (opts_of s) (opts_of s1)" "\<And>x. r1 = Inr x \<Longrightarrow> Q x"
    using assms(1) by (auto simp: guar_def)
  show "steps G (opts_of s) (opts_of s') \<and> (\<forall>x. r = Inr x \<longrightarrow> R x)"
  proof (cases r1)
    case (Inl e)
    then show ?thesis using run m first(1) by (auto simp: io_bind_def)
  next
    case (Inr x)
    then have "f x s1 = (r, s')" using run m by (simp add: io_bind_def)
    then show ?thesis
      using assms(2) [OF first(2) [OF Inr]] steps_trans [OF first(1)] by (auto simp: guar_def)
  qed
qed

lemma guar_weaken: "guar G m Q \<Longrightarrow> (\<And>x. Q x \<Longrightarrow> R x) \<Longrightarrow> guar G m R"
  by (auto simp: guar_def)

lemma guar_return: "Q x \<Longrightarrow> guar G (io_return x) Q"
  by (auto simp: guar_def io_return_def)

lemma guar_fail: "guar G (io_fail e) Q"
  by (auto simp: guar_def io_fail_def)

lemma guar_of: "(\<And>x. r = Inr x \<Longrightarrow> Q x) \<Longrightarrow> guar G (io_of r) Q"
  by (auto simp: guar_def io_of_def)

lemma guar_each: "(\<And>x. x \<in> set xs \<Longrightarrow> guar G (f x) (\<lambda>_. True)) \<Longrightarrow> guar G (io_each f xs) (\<lambda>_. True)"
  by (induction xs) (auto intro!: guar_bind guar_return)

lemma guar_unsupported: "guar G m Q \<Longrightarrow> guar G h Q \<Longrightarrow> guar G (io_unsupported m h) Q"
  unfolding guar_def
proof (intro allI impI)
  fix s r s'
  assume m: "\<forall>s r s'. m s = (r, s') \<longrightarrow> steps G (opts_of s) (opts_of s') \<and> (\<forall>x. r = Inr x \<longrightarrow> Q x)"
    and h: "\<forall>s r s'. h s = (r, s') \<longrightarrow> steps G (opts_of s) (opts_of s') \<and> (\<forall>x. r = Inr x \<longrightarrow> Q x)"
    and run: "io_unsupported m h s = (r, s')"
  obtain r1 s1 where first: "m s = (r1, s1)" by (cases "m s")
  show "steps G (opts_of s) (opts_of s') \<and> (\<forall>x. r = Inr x \<longrightarrow> Q x)"
  proof (cases "r1 = Inl PeUnsupported")
    case True
    then have "h s1 = (r, s')" using run first by (simp add: io_unsupported_def)
    then show ?thesis using m [rule_format, OF first] h steps_trans by blast
  next
    case False
    then have "(r, s') = (r1, s1)"
      using run first by (auto simp: io_unsupported_def split: sum.splits persistence_error.splits)
    then show ?thesis using m first by simp
  qed
qed

lemma guar_format: "guar G (tx_format tx pane text) (\<lambda>_. True)"
  by (auto simp: guar_def intro: steps_others format_steps)

lemma guar_panes: "guar G (tx_panes tx) (\<lambda>_. True)"
  by (auto simp: guar_def intro: steps_others panes_steps)

lemma guar_clock: "(\<And>s now s'. tx_clock tx s = (now, s') \<Longrightarrow> T now) \<Longrightarrow> guar G (clock tx) T"
  by (auto simp: guar_def clock_def split: prod.splits intro: steps_others clock_steps)

lemma guar_token: "guar G (fresh_token tx) (\<lambda>_. True)"
  unfolding fresh_token_def
  by (rule guar_bind [of _ _ "\<lambda>_. True"])
    (auto simp: guar_def io_return_def io_fail_def split: option.splits intro: steps_others nonce_steps)

text \<open>Commands whose every run is an own step, or none.\<close>

definition own :: "(options \<Rightarrow> options \<Rightarrow> bool) \<Rightarrow> stamp_command \<Rightarrow> bool" where
  "own G c = (\<forall>a. run c a = a \<or> G a (run c a))"

lemma executed_steps: "list_all (own G) cs \<Longrightarrow> executed others run cs a b \<Longrightarrow> steps G a b"
proof (induction cs arbitrary: a)
  case (Cons c cs)
  then obtain m where m: "others a m" "executed others run cs (run c m) b" by auto
  have "steps G m (run c m)"
    using Cons.prems(1) by (cases "run c m = m") (auto simp: own_def intro: steps_own)
  then show ?case
    using Cons.IH [OF _ m(2)] Cons.prems(1) steps_others [OF m(1)] by (auto intro: steps_trans)
qed (simp add: steps_others)

lemma guar_apply: "list_all (own G) cs \<Longrightarrow> guar G (tx_apply tx pane cs) (\<lambda>_. True)"
  unfolding guar_def
proof (intro allI impI conjI TrueI)
  fix s r s'
  assume "list_all (own G) cs" and "tx_apply tx pane cs s = (r, s')"
  then obtain n where n: "executed others run (take n cs) (opts_of s) (opts_of s')"
    using apply_steps by blast
  have "list_all (own G) (take n cs)"
    using \<open>list_all (own G) cs\<close> by (auto simp: list_all_iff dest: in_set_takeD)
  then show "steps G (opts_of s) (opts_of s')" using n by (rule executed_steps)
qed

text \<open>A guarded group of edits.\<close>

lemma own_group:
  assumes "means num p P" and "\<And>a. P a \<Longrightarrow> no_hooks a \<or> length es \<le> 1"
    and "\<And>a. P a \<Longrightarrow> G a (apply_edits es a)"
  shows "own G (conditional_group pane p (map (edit_command pane') es))"
  unfolding own_def
proof
  fix a
  let ?c = "conditional_group pane p (map (edit_command pane') es)"
  show "run ?c a = a \<or> G a (run ?c a)"
  proof (cases "P a")
    case True
    then have "run ?c a = apply_edits es a"
      using assms(2) [OF True] expand_means [OF assms(1)] run_edits
      by (subst run_group) (auto simp: list_all_iff)
    then show ?thesis using assms(3) [OF True] by simp
  next
    case False
    then show ?thesis using run_skip expand_means [OF assms(1)] by simp
  qed
qed

lemma guar_invalid_pane_id: "guar G (invalid_pane_id tx pane) Q"
  unfolding invalid_pane_id_def Let_def
  by (cases "pane_id_parse pane")
    (auto intro!: guar_fail guar_bind [OF guar_panes] guar_bind [of _ _ "\<lambda>_. True"] guar_of)

end

end
