(* ===== verification/Pane_Guarantees.thy ===== *)
theory Pane_Guarantees
  imports Pane_Attention Pane_Server
begin

text \<open>
  What each writer of a pane may do to it, whatever other clients do meanwhile: the meaning of the
  ownership and guard predicates, the coherence of a read, the own steps of a transaction and of the
  single conditional mutations, and what a won transaction proves.
\<close>

section \<open>Coherent reads\<close>

definition coherent :: "pane_read \<Rightarrow> bool" where
  "coherent r = (rd_program r = metadata_from_options (rd_options r) \<and> read_back (rd_options r) = rd_options r)"

lemma rd_projection_coherent: "coherent r \<Longrightarrow> rd_projection r now = read_projection (rd_options r) now"
  by (simp add: coherent_def rd_projection_def read_projection_def)

lemma coherent_from_options: "coherent (read_from_options pane (read_back opts))"
  by (simp add: coherent_def read_from_options_def)

lemma map_of_filter_nonempty: "list_all (\<lambda>(_, v). v \<noteq> []) ps \<Longrightarrow> map_of ps k \<noteq> Some []"
  by (auto simp: list_all_iff dest: map_of_SomeD)

lemma options_of_fields_nonempty: "read_back (options_of_fields keys parts) = options_of_fields keys parts"
proof -
  have "options_of_fields keys parts k \<noteq> Some []" for k
    unfolding options_of_fields_def by (rule map_of_filter_nonempty) (auto simp: list_all_iff)
  then show ?thesis
    by (auto simp: read_back_def option_filter_def fun_eq_iff split: option.split)
qed

lemma read_of_fields_coherent: "read_of_fields pane keys pane_id parts = Inr r \<Longrightarrow> coherent r"
  using options_of_fields_nonempty
  by (auto simp: read_of_fields_def coherent_def Let_def split: if_splits)

section \<open>The keys that decide whether a pane is live\<close>

text \<open>The listed keys determine whether the decoded tuple is settled, its process and its source; only
  the detail, the attention flag, the session and the subagents come from other keys.\<close>

fun tuple_class :: "grammar_error + read_result option \<Rightarrow> (bool \<times> u32 \<times> provenance) option" where
  "tuple_class (Inr (Some (Settled s))) = Some (True, sp_pid s, sp_source s)"
| "tuple_class _ = None"

lemma projection_keys_subset:
  "{OPT_ORIGIN, OPT_OWNER, OPT_COMMIT, OPT_COLLECTOR, OPT_STATE, OPT_SOURCE, OPT_PID, OPT_EVIDENCE_AT,
    OPT_SINCE, OPT_STAMPED_AT, OPT_NOTIFIED_AT, OPT_TURN_AT, OPT_HASH} = set PROJECTION_KEYS"
  by (simp add: PROJECTION_KEYS_def)

lemma rel_sum_bind:
  "m = n \<Longrightarrow> (\<And>x. rel_sum (=) Q (f x) (g x)) \<Longrightarrow> rel_sum (=) Q (sum_bind m f) (sum_bind n g)"
  by (cases m) auto

lemma read_tuple_agree:
  assumes "\<And>k. k \<in> set PROJECTION_KEYS \<Longrightarrow> a k = b k"
  shows "rel_sum (=) (\<lambda>s t. in_progress s = in_progress t \<and> sp_pid s = sp_pid t \<and> sp_source s = sp_source t)
    (read_tuple a st) (read_tuple b st)"
proof -
  have keys: "a OPT_SOURCE = b OPT_SOURCE" "a OPT_PID = b OPT_PID" "a OPT_EVIDENCE_AT = b OPT_EVIDENCE_AT"
    "a OPT_SINCE = b OPT_SINCE" "a OPT_STAMPED_AT = b OPT_STAMPED_AT" "a OPT_NOTIFIED_AT = b OPT_NOTIFIED_AT"
    "a OPT_TURN_AT = b OPT_TURN_AT" "a OPT_HASH = b OPT_HASH"
    by (simp_all add: assms flip: projection_keys_subset)
  show ?thesis
    unfolding read_tuple_def
    by (intro rel_sum_bind) (simp_all add: keys parse_int_def parse_opt_int_def in_progress_def since_clock_stepped_def cong: if_cong)
qed

lemma tuple_class_agree:
  assumes "\<And>k. k \<in> set PROJECTION_KEYS \<Longrightarrow> a k = b k"
  shows "tuple_class (from_options a) = tuple_class (from_options b)"
proof -
  have st: "a OPT_STATE = b OPT_STATE" by (rule assms) (simp add: PROJECTION_KEYS_def)
  have read: "tuple_class (sum_bind (read_tuple a st') (\<lambda>t. Inr (Some (if in_progress t then InProgress t else Settled t))))
      = tuple_class (sum_bind (read_tuple b st') (\<lambda>t. Inr (Some (if in_progress t then InProgress t else Settled t))))" for st'
    using read_tuple_agree [of a b st', OF assms]
    by (cases "read_tuple a st'"; cases "read_tuple b st'") auto
  show ?thesis
  proof (cases "b OPT_STATE")
    case (Some v)
    then show ?thesis
      using st read by (cases "state_from_str v") (simp_all add: from_options_def)
  qed (simp add: from_options_def st)
qed

lemma is_live_class:
  "is_live (read_projection opts now) =
     (case (pm_owner (metadata_from_options opts), pm_commit (metadata_from_options opts),
            pm_lease (metadata_from_options opts)) of
        (Some owner, Some commit, Some lease) \<Rightarrow>
          pm_program_origin (metadata_from_options opts) \<and> pm_origin_complete (metadata_from_options opts)
          \<and> cm_owner commit = owner \<and> cl_token lease = po_collector owner \<and> lease_live_at lease now
          \<and> tuple_class (from_options opts) = Some (True, pi_pid (chain_agent (po_processes owner)), Hook)
      | _ \<Rightarrow> False)"
proof (cases "pm_program_origin (metadata_from_options opts)")
  case True
  then show ?thesis
    by (auto simp: read_projection_def projection_def sum_bind_def
        split: option.split sum.split read_result.split prod.split)
next
  case False
  then show ?thesis
    by (cases "from_options opts") (auto simp: read_projection_def projection_def split: option.split)
qed

lemma live_determined:
  assumes "\<And>k. k \<in> set PROJECTION_KEYS \<Longrightarrow> opt_value a k = opt_value b k"
  shows "is_live (read_projection (read_back a) now) = is_live (read_projection (read_back b) now)"
proof -
  have agree: "read_back a k = read_back b k" if "k \<in> set PROJECTION_KEYS" for k
    using assms [OF that] by (simp add: read_back_value)
  then have keys: "read_back a OPT_ORIGIN = read_back b OPT_ORIGIN" "read_back a OPT_OWNER = read_back b OPT_OWNER"
    "read_back a OPT_COMMIT = read_back b OPT_COMMIT" "read_back a OPT_COLLECTOR = read_back b OPT_COLLECTOR"
    by (simp_all flip: projection_keys_subset)
  have "tuple_class (from_options (read_back a)) = tuple_class (from_options (read_back b))"
    by (rule tuple_class_agree) (rule agree)
  moreover have "pm_owner (metadata_from_options (read_back a)) = pm_owner (metadata_from_options (read_back b))"
    "pm_commit (metadata_from_options (read_back a)) = pm_commit (metadata_from_options (read_back b))"
    "pm_lease (metadata_from_options (read_back a)) = pm_lease (metadata_from_options (read_back b))"
    "pm_program_origin (metadata_from_options (read_back a)) = pm_program_origin (metadata_from_options (read_back b))"
    "pm_origin_complete (metadata_from_options (read_back a)) = pm_origin_complete (metadata_from_options (read_back b))"
    by (simp_all add: metadata_from_options_def keys)
  ultimately show ?thesis by (simp only: is_live_class)
qed

section \<open>Ownership and guards\<close>

fun owned :: "ownership \<Rightarrow> pane_read \<Rightarrow> options \<Rightarrow> bool" where
  "owned (Fallback now) observed opts =
     (\<not> is_live (rd_projection observed now)
      \<and> (\<forall>k \<in> set PROJECTION_KEYS. opt_value opts k = rd_value observed k))"
| "owned (ProgramOwner owner now) observed opts =
     (\<exists>lease. pm_lease (rd_program observed) = Some lease \<and> cl_token lease = po_collector owner
        \<and> lease_live_at lease now \<and> opt_value opts OPT_COLLECTOR = lease_encode lease
        \<and> (\<forall>k \<in> set PROJECTION_KEYS. opt_value opts k = rd_value observed k))"
| "owned (ExactOwner owner) observed opts = (opt_value opts OPT_OWNER = owner_encode owner)"
| "owned (ExactResult r) observed opts =
     (opt_value opts OPT_OWNER = owner_encode (pe_owner r) \<and> opt_value opts OPT_RESULT = result_encode r)"
| "owned (MetadataExpected w) observed opts = (opt_value opts OPT_METADATA_OWNER = owner_text w)"

lemma private_key_ok [simp]:
  "key_ok OPT_COLLECTOR" "key_ok OPT_OWNER" "key_ok OPT_RESULT" "key_ok OPT_METADATA_OWNER"
  "key_ok OPT_RECEIPT" "key_ok OPT_ORIGIN" "key_ok OPT_COMMIT" "key_ok OPT_ACK" "key_ok OPT_INVALIDATED"
  "key_ok OPT_NOTIFIED" "key_ok OPT_METADATA_UPDATE" "key_ok OPT_STATE" "key_ok OPT_ATTENTION"
  "key_ok OPT_SOURCE" "key_ok OPT_EVIDENCE_AT" "key_ok OPT_BLOCKED_HISTORY" "key_ok OPT_ATTENTION_EPISODE"
  by code_simp+

lemma means_cong: "means num s P \<Longrightarrow> (\<And>opts. P opts = Q opts) \<Longrightarrow> means num s Q"
  by (auto simp: means_def)

lemma ownership_means:
  assumes "ownership_predicate own observed = Inr p"
  shows "means num p (owned own observed)"
proof (cases own)
  case (Fallback now)
  then show ?thesis
    using assms by (auto split: if_splits intro: means_cong [OF means_zero] means_cong [OF means_projection])
next
  case (ProgramOwner owner now)
  then show ?thesis
    using assms
    by (auto split: option.splits if_splits intro: means_cong [OF means_zero]
        means_cong [OF means_and [OF means_equal means_projection]])
next
  case (ExactOwner owner)
  then show ?thesis using assms by (auto split: if_splits intro: means_cong [OF means_equal])
next
  case (ExactResult r)
  then show ?thesis
    using assms by (auto split: if_splits intro: means_cong [OF means_and [OF means_equal means_equal]])
next
  case (MetadataExpected w)
  then show ?thesis using assms by (auto simp: owner_text_def intro: means_cong [OF means_equal])
qed

text \<open>The guards as formats.\<close>

definition hooked :: format where
  "hooked = BinaryF OpEq (LookupF OPT_SOURCE) (PlainF ''hook'')"

fun guard_format :: "guard \<Rightarrow> format" where
  "guard_format Unconditional = PlainF ''0''"
| "guard_format ProtectHook = hooked"
| "guard_format (CarveOut at) =
     BinaryF OpAnd hooked (BinaryF OpLe (PlainF (show_nat at)) (LookupF OPT_EVIDENCE_AT))"
| "guard_format (RefreshClaim st) =
     CondF (BinaryF OpEq (LookupF OPT_STATE) (PlainF (state_token st))) (PlainF ''0'') (PlainF ''1'')"
| "guard_format (HookArbitrate at) =
     BinaryF OpAnd hooked (BinaryF OpLt (PlainF (show_nat at)) (LookupF OPT_EVIDENCE_AT))"

definition suppressed :: "number_test \<Rightarrow> guard \<Rightarrow> options \<Rightarrow> bool" where
  "suppressed num g opts = truthy (eval_format num opts (guard_format g))"

lemma plain_number: "list_all plain_char (show_nat n)"
proof -
  have "\<And>c. is_digit c \<Longrightarrow> plain_char c"
    by (auto simp: plain_char_def is_digit_def byte_def)
  then show ?thesis by (auto simp: list_all_iff dest: show_nat_set_digit)
qed

lemma suppress_means: "means num (suppress_expr g) (suppressed num g)"
proof (rule meansI [of "guard_format g"])
  show "print_format (guard_format g) = suppress_expr g"
    by (cases g) (simp_all add: hooked_def lookup_fmt_def)
  have "list_all plain_char (state_token st)" for st by (cases st) (simp_all add: plain_char_def)
  moreover have "list_all plain_char ''hook''" "list_all plain_char ''0''" "list_all plain_char ''1''"
    by code_simp+
  ultimately show "format_wf (guard_format g)"
    using plain_number by (cases g) (simp_all add: hooked_def)
qed (simp add: suppressed_def)

definition admitted :: "number_test \<Rightarrow> guard \<Rightarrow> ownership \<Rightarrow> options \<Rightarrow> bool" where
  "admitted num g own opts =
     (\<not> (if is_fallback own \<and> \<not> is_refresh g
         then opt_value opts OPT_ORIGIN = [] \<and> opt_value opts OPT_OWNER = [] \<and> opt_value opts OPT_COMMIT = []
              \<and> suppressed num g opts
         else suppressed num g opts))"

lemma absent_means:
  "means num absent_program
     (\<lambda>opts. opt_value opts OPT_ORIGIN = [] \<and> opt_value opts OPT_OWNER = [] \<and> opt_value opts OPT_COMMIT = [])"
  unfolding absent_program_def by (intro means_and means_equal) simp_all

lemma effective_means: "means num (effective_guard g own) (admitted num g own)"
proof (cases "is_fallback own \<and> \<not> is_refresh g")
  case True
  then have "effective_guard g own = pred_not (pred_and absent_program (suppress_expr g))"
    by (simp add: effective_guard_def)
  then show ?thesis
    using True by (auto simp: admitted_def intro: means_cong [OF means_not [OF means_and [OF absent_means suppress_means]]])
next
  case False
  then have "effective_guard g own = pred_not (suppress_expr g)"
    by (auto simp: effective_guard_def)
  then show ?thesis
    using False by (auto simp: admitted_def intro: means_cong [OF means_not [OF suppress_means]])
qed

definition committable ::
  "number_test \<Rightarrow> ownership \<Rightarrow> pane_read \<Rightarrow> guard \<Rightarrow> (options \<Rightarrow> bool) \<Rightarrow> options \<Rightarrow> bool" where
  "committable num own observed g E opts =
     (no_hooks opts \<and> owned own observed opts \<and> admitted num g own opts \<and> E opts
      \<and> opt_value opts OPT_RECEIPT = rd_value observed OPT_RECEIPT)"

lemma transaction_means:
  assumes "transaction_predicate own observed g extra = Inr p" and "means num extra E"
  shows "means num p (committable num own observed g E)"
proof -
  obtain q where q: "ownership_predicate own observed = Inr q"
    "p = pred_and NO_HOOKS (pred_and q (pred_and (effective_guard g own)
           (pred_and extra (pred_equal OPT_RECEIPT (rd_value observed OPT_RECEIPT)))))"
    using assms(1) by (cases "ownership_predicate own observed") (auto simp: transaction_predicate_def)
  show ?thesis
    unfolding q(2) committable_def
    by (intro means_and means_no_hooks ownership_means [OF q(1)] effective_means assms(2) means_equal) simp
qed

section \<open>Own steps of the writers\<close>

context pane_server
begin

lemma guar_read_pane_with: "guar G (read_pane_with tx pane edits) coherent"
  unfolding read_pane_with_def Let_def
  by (rule guar_bind [OF guar_format])
    (auto split: list.split sum.split intro: guar_fail guar_invalid_pane_id guar_of read_of_fields_coherent)

lemma guar_read_pane: "guar G (read_pane tx pane) coherent"
  unfolding read_pane_def by (rule guar_read_pane_with)

text \<open>The command that carries the poll hint writes nothing else.\<close>

definition hint_only :: "options \<Rightarrow> options \<Rightarrow> bool" where
  "hint_only a b = (\<exists>v. b = a(OPT_LAST_POLL := v))"

lemma own_hint:
  assumes "\<And>a v. G a (a(OPT_LAST_POLL := v))"
  shows "own G (conditional_group target p [poll_hint_command target at])"
  unfolding own_def
proof
  fix a
  let ?c = "conditional_group target p [poll_hint_command target at]"
  have "set_command (poll_hint_command target at)"
    by (simp add: set_command_def poll_hint_command_def argv_def)
  then have "truthy (expand a p) \<Longrightarrow> run ?c a = a(OPT_LAST_POLL := Some (show_nat at))"
    by (subst run_group) (simp_all add: poll_hint_command_def run_server_set)
  then show "run ?c a = a \<or> G a (run ?c a)"
    using assms run_skip by (cases "truthy (expand a p)") auto
qed

lemma guar_transaction_with_hint:
  assumes extra: "means num extra E"
    and group: "\<And>a w. committable num own_by observed g E a \<Longrightarrow> G a (apply_edits (edits @ [receipt_edit w]) a)"
    and poll: "hint = None \<or> (\<forall>a v. G a (a(OPT_LAST_POLL := v)))"
  shows "guar G (transaction_with_hint tx observed own_by g extra edits hint) (\<lambda>_. True)"
  unfolding transaction_with_hint_def
proof (rule guar_bind [OF guar_of [where Q = "\<lambda>_. True"]], rule TrueI, rule guar_bind [OF guar_token])
  fix w
  show "guar G (io_bind (io_of (transaction_predicate own_by observed g extra)) (\<lambda>predicate.
     io_bind (tx_apply tx (rd_target observed) (transaction_commands observed predicate w edits hint)) (\<lambda>_.
     io_bind (read_pane_with tx (rd_target observed) edits) (\<lambda>persisted.
     io_of (transaction_outcome w edits persisted))))) (\<lambda>_. True)"
  proof (rule guar_bind [OF guar_of])
    fix p
    assume "transaction_predicate own_by observed g extra = Inr p"
    then show "means num p (committable num own_by observed g E)" by (rule transaction_means [OF _ extra])
  next
    fix p
    assume "means num p (committable num own_by observed g E)"
    then have "own G (conditional_group (rd_target observed) p
        (map (edit_command (rd_target observed)) (edits @ [receipt_edit w])))"
    proof (rule own_group)
      fix a
      assume c: "committable num own_by observed g E a"
      then show "no_hooks a \<or> length (edits @ [receipt_edit w]) \<le> 1" by (simp add: committable_def)
      show "G a (apply_edits (edits @ [receipt_edit w]) a)" by (rule group [OF c])
    qed
    moreover have "own G (conditional_group (rd_target observed) q [poll_hint_command (rd_target observed) at])"
      if "hint = Some at" for q at
      using poll that by (intro own_hint) auto
    ultimately have "list_all (own G) (transaction_commands observed p w edits hint)"
      by (auto simp: transaction_commands_def Let_def split: option.split)
    then show "guar G (io_bind (tx_apply tx (rd_target observed) (transaction_commands observed p w edits hint)) (\<lambda>_.
       io_bind (read_pane_with tx (rd_target observed) edits) (\<lambda>persisted.
       io_of (transaction_outcome w edits persisted)))) (\<lambda>_. True)"
      by (intro guar_bind [OF guar_apply] guar_bind [OF guar_read_pane_with] guar_of) auto
  qed
qed

lemma guar_transaction:
  assumes "means num extra E"
    and "\<And>a w. committable num own_by observed g E a \<Longrightarrow> G a (apply_edits (edits @ [receipt_edit w]) a)"
  shows "guar G (transaction tx observed own_by g extra edits) (\<lambda>_. True)"
  unfolding transaction_def
proof (rule guar_transaction_with_hint [where E = E])
  show "means num extra E" by (rule assms(1))
  show "G a (apply_edits (edits @ [receipt_edit w]) a)" if "committable num own_by observed g E a" for a w
    by (rule assms(2) [OF that])
qed simp

text \<open>A single conditional mutation needs no absence of hooks.\<close>

lemma guar_apply_one:
  assumes "means num p P" and "\<And>a. P a \<Longrightarrow> G a (a(ed_key e := ed_value e))"
  shows "guar G (apply_one tx pane p e) (\<lambda>_. True)"
proof -
  have "own G (conditional_group pane p (map (edit_command pane) [e]))"
    by (rule own_group [OF assms(1)]) (simp_all add: assms(2))
  then show ?thesis unfolding apply_one_def by (intro guar_apply) simp
qed

text \<open>The drawing of tokens and the choice of the companions touch nothing.\<close>

lemma guar_if: "guar G m Q \<Longrightarrow> guar G n Q \<Longrightarrow> guar G (if b then m else n) Q"
  by simp

lemma guar_add_episode: "guar G (add_episode tx observed edits) (\<lambda>_. True)"
  unfolding add_episode_def Let_def
  by (intro guar_if guar_return guar_bind [OF guar_token] TrueI)

lemma guar_fallback_body: "guar G (fallback_body tx observed edits) (\<lambda>_. True)"
  unfolding fallback_body_def by (auto intro!: guar_bind [OF guar_add_episode] guar_return)

end

text \<open>A fallback predicate that holds of a context excludes a live program there.\<close>

lemma owned_fallback_not_live:
  assumes "owned (Fallback now) observed opts" and "coherent observed"
  shows "\<not> is_live (read_projection (read_back opts) now)"
proof -
  have "is_live (read_projection (read_back opts) now) = is_live (read_projection (read_back (rd_options observed)) now)"
    using assms(1) by (intro live_determined) (simp add: rd_value_def)
  also have "\<dots> = is_live (rd_projection observed now)"
    using assms(2) rd_projection_coherent [OF assms(2)] by (simp add: coherent_def)
  finally show ?thesis using assms(1) by simp
qed

end
