(* ===== verification/Pane_Reads.thy ===== *)
theory Pane_Reads
  imports Pane_Guarantees
begin

text \<open>
  What a read returns: the values of one moment, or an error when an option text could be taken for
  a separator. And what a transaction that reports a win proves of the moment it ran.
\<close>

section \<open>What a read returns\<close>

lemma split_on_length: "length (split_on c s) = Suc (count_list s c)"
  by (induction c s rule: split_on.induct) (auto split: list.split)

lemma count_list_join: "ps \<noteq> [] \<Longrightarrow> count_list (join_with [c] ps) c + 1 = length ps + (\<Sum>p\<leftarrow>ps. count_list p c)"
  by (induction "[c]" ps rule: join_with.induct) auto

lemma split_on_join_length:
  assumes "ps \<noteq> []" and "length (split_on c (join_with [c] ps)) = length ps"
  shows "split_on c (join_with [c] ps) = ps"
proof (rule split_on_join [OF assms(1)])
  have "(\<Sum>p\<leftarrow>ps. count_list p c) = 0"
    using assms count_list_join [OF assms(1), of c] by (simp add: split_on_length)
  then show "c \<notin> set p" if "p \<in> set ps" for p
    using that by (simp add: count_list_0_iff)
qed

lemma read_keys_set: "set (read_keys edits) = set pane_option_keys \<union> ed_key ` set edits"
proof -
  have "set (foldl (\<lambda>keys e. if ed_key e \<in> set keys then keys else keys @ [ed_key e]) ks edits)
      = set ks \<union> ed_key ` set edits" for ks
    by (induction edits arbitrary: ks) auto
  then show ?thesis by (simp add: read_keys_def)
qed

lemma options_of_values:
  "options_of_fields keys (map v keys @ tail) k = (if k \<in> set keys \<and> v k \<noteq> [] then Some (v k) else None)"
proof -
  have "zip keys (map v keys @ tail) = map (\<lambda>k. (k, v k)) keys"
    by (induction keys) auto
  then have "rev (filter (\<lambda>(_, x). x \<noteq> []) (zip keys (map v keys @ tail)))
      = map (\<lambda>k. (k, v k)) (rev (filter (\<lambda>k. v k \<noteq> []) keys))"
    by (simp add: filter_map comp_def rev_map)
  then show ?thesis by (simp add: options_of_fields_def map_of_map_restrict restrict_map_def)
qed

definition read_fields :: "string list \<Rightarrow> format list" where
  "read_fields keys = LookupF ''pane_id'' # map LookupF keys @ [LookupF AFTER_SET_OPTION, PlainF ''end'']"

lemma read_fields_text: "read_format_text keys = join_with [UNIT_SEPARATOR] (map print_format (read_fields keys))"
  unfolding pred_lookup_def [abs_def] read_format_text_def
  by (simp add: read_fields_def comp_def AFTER_SET_OPTION_def join_with_Cons)

lemma edit_ok_key: "edit_ok e \<Longrightarrow> key_ok (ed_key e)"
proof -
  have "key_char (CHR ''@'')" "\<And>c. option_key_char c \<Longrightarrow> key_char c"
    by (auto simp: key_char_def option_key_char_def is_alnum_def is_digit_def is_lower_def is_upper_def byte_def)
  then show "edit_ok e \<Longrightarrow> key_ok (ed_key e)"
    by (auto simp: edit_ok_def key_ok_def list_all_iff split: list.splits)
qed

lemma key_no_separator: "key_ok key \<Longrightarrow> UNIT_SEPARATOR \<notin> set key"
proof -
  have "\<not> key_char UNIT_SEPARATOR" by code_simp
  then show "key_ok key \<Longrightarrow> UNIT_SEPARATOR \<notin> set key" by (auto simp: key_ok_def list_all_iff)
qed

lemma read_fields_ok:
  assumes "list_all edit_ok edits"
  shows "list_all format_wf (read_fields (read_keys edits))"
    and "list_all (\<lambda>f. UNIT_SEPARATOR \<notin> set (print_format f)) (read_fields (read_keys edits))"
proof -
  have keys: "key_ok k" if "k \<in> set (read_keys edits)" for k
    using that assms edit_ok_key key_ok_pane by (auto simp: read_keys_set list_all_iff)
  have extra: "key_ok ''pane_id''" "key_ok AFTER_SET_OPTION" "list_all plain_char ''end''"
    by code_simp+
  show "list_all format_wf (read_fields (read_keys edits))"
    using keys extra by (simp add: read_fields_def list_all_iff)
  show "list_all (\<lambda>f. UNIT_SEPARATOR \<notin> set (print_format f)) (read_fields (read_keys edits))"
    using keys extra key_no_separator
    by (auto simp: read_fields_def list_all_iff UNIT_SEPARATOR_def)
qed

context pane_server
begin

lemma read_pane_values:
  assumes "read_pane_with tx pane edits s = (Inr r, s')" and "list_all edit_ok edits"
  shows "\<exists>c. others (opts_of s) c \<and> others c (opts_of s')
    \<and> (\<forall>k \<in> set (read_keys edits). rd_value r k = opt_value c k)"
proof -
  let ?keys = "read_keys edits"
  obtain raw s1 where fmt: "tx_format tx pane (read_format_text ?keys) s = (Inr raw, s1)"
    using assms(1) by (auto simp: read_pane_with_def io_bind_def Let_def split: prod.splits sum.splits)
  obtain c where c: "others (opts_of s) c" "others c (opts_of s1)"
    "raw = join_with [UNIT_SEPARATOR] (map (eval_format num c) (read_fields ?keys))"
    using format_answer [OF fmt [unfolded read_fields_text] read_fields_ok [OF assms(2)]] by blast
  define vals where "vals = map (eval_format num c) (read_fields ?keys)"
  have vals: "vals = opt_value c ''pane_id'' # map (opt_value c) ?keys @ [opt_value c AFTER_SET_OPTION, ''end'']"
    by (simp add: vals_def read_fields_def)
  obtain pid parts where sp: "split_on UNIT_SEPARATOR raw = pid # parts"
    using split_on_Cons_ex by metis
  have res: "(case pane_id_parse pid of Inl _ \<Rightarrow> invalid_pane_id tx pane
      | Inr _ \<Rightarrow> io_of (read_of_fields pane ?keys pid parts)) s1 = (Inr r, s')"
    using assms(1) fmt sp by (simp add: read_pane_with_def io_bind_def Let_def)
  have "\<not> (\<exists>e. pane_id_parse pid = Inl e)"
  proof
    assume "\<exists>e. pane_id_parse pid = Inl e"
    then have "invalid_pane_id tx pane s1 = (Inr r, s')" using res by auto
    then show False
      by (auto simp: invalid_pane_id_def Let_def io_fail_def io_bind_def io_of_def
          split: sum.splits prod.splits if_splits)
  qed
  then have read: "read_of_fields pane ?keys pid parts = Inr r" "s' = s1"
    using res by (auto simp: io_of_def split: sum.splits)
  then have "length (pid # parts) = length vals"
    by (simp add: read_of_fields_def vals split: if_splits)
  moreover have raw: "raw = join_with [UNIT_SEPARATOR] vals" using c(3) by (simp only: vals_def)
  ultimately have "length (split_on UNIT_SEPARATOR (join_with [UNIT_SEPARATOR] vals)) = length vals"
    using sp by (simp only: raw)
  then have "split_on UNIT_SEPARATOR raw = vals"
    unfolding raw by (intro split_on_join_length) (simp_all add: vals)
  then have "pid # parts = vals" using sp by simp
  then have "parts = map (opt_value c) ?keys @ [opt_value c AFTER_SET_OPTION, ''end'']"
    using vals by simp
  then have "rd_options r = options_of_fields ?keys (map (opt_value c) ?keys @ [opt_value c AFTER_SET_OPTION, ''end''])"
    using read(1) by (auto simp: read_of_fields_def Let_def split: if_splits)
  then have "\<forall>k \<in> set ?keys. rd_value r k = opt_value c k"
    by (simp add: rd_value_def opt_value_def options_of_values)
  then show ?thesis using c read(2) by blast
qed

text \<open>A drawn receipt is new: it is not on the pane, and no other client writes it.\<close>

definition fresh_receipts :: bool where
  "fresh_receipts =
     (\<forall>s w s1. tx_nonce tx s = (Inr w, s1) \<longrightarrow>
        opt_value (opts_of s) OPT_RECEIPT \<noteq> w
        \<and> (\<forall>a b. others a b \<longrightarrow> opt_value b OPT_RECEIPT = w \<longrightarrow> opt_value a OPT_RECEIPT = w))"

lemma transaction_won_step:
  assumes run: "transaction tx observed own_by g extra edits s = (Inr (Won r), s')"
    and extra: "means num extra E" and fresh: fresh_receipts
  shows "\<exists>a w c. others (opts_of s) a \<and> committable num own_by observed g E a
    \<and> others (apply_edits (edits @ [receipt_edit w]) a) c \<and> others c (opts_of s')
    \<and> (\<forall>k \<in> set (read_keys edits). rd_value r k = opt_value c k)
    \<and> rd_value r OPT_RECEIPT = token_str w \<and> all_persisted edits r"
proof -
  have ok: "list_all edit_ok edits"
    using run by (auto simp: transaction_def transaction_with_hint_def io_bind_def io_of_def validate_edits_def
        split: if_splits)
  obtain w s1 where w: "fresh_token tx s = (Inr w, s1)"
    using run ok by (auto simp: transaction_def transaction_with_hint_def io_bind_def io_of_def
        validate_edits_def split: prod.splits sum.splits)
  obtain nonce where nonce: "tx_nonce tx s = (Inr nonce, s1)" "token_parse nonce = Some w"
    using w by (auto simp: fresh_token_def io_bind_def io_return_def io_fail_def split: prod.splits sum.splits option.splits)
  then have receipt: "token_str w = nonce" by (auto simp: token_parse_def split: if_splits)
  obtain p where p: "transaction_predicate own_by observed g extra = Inr p"
    using run ok w by (auto simp: transaction_def transaction_with_hint_def io_bind_def io_of_def
        validate_edits_def split: prod.splits sum.splits)
  let ?pane = "rd_target observed"
  let ?c = "conditional_group ?pane p (map (edit_command ?pane) (edits @ [receipt_edit w]))"
  obtain s2 where s2: "tx_apply tx ?pane [?c] s1 = (Inr (), s2)"
    using run ok w p by (auto simp: transaction_def transaction_with_hint_def io_bind_def io_of_def
        validate_edits_def transaction_commands_def Let_def split: prod.splits sum.splits)
  then have read: "read_pane_with tx ?pane edits s2 = (Inr r, s')"
    and outcome: "transaction_outcome w edits r = Inr (Won r)"
    using run ok w p
    by (auto simp: transaction_def transaction_with_hint_def io_bind_def io_of_def validate_edits_def
        transaction_commands_def transaction_outcome_def Let_def split: prod.splits sum.splits if_splits)
  obtain a where a: "others (opts_of s1) a" "others (run ?c a) (opts_of s2)"
    using apply_steps [OF s2] by auto
  obtain c where c: "others (opts_of s2) c" "others c (opts_of s')"
    "\<forall>k \<in> set (read_keys edits). rd_value r k = opt_value c k"
    using read_pane_values [OF read ok] by blast
  have from_s: "others (opts_of s) a" using nonce_steps [OF nonce(1)] a(1) by (rule others_trans)
  have to_c: "others (run ?c a) c" using a(2) c(1) by (rule others_trans)
  have stored: "rd_value r OPT_RECEIPT = token_str w" and persisted: "all_persisted edits r"
    using outcome by (auto simp: transaction_outcome_def split: if_splits)
  have key: "OPT_RECEIPT \<in> set (read_keys edits)"
    using private_keys_known by (auto simp: read_keys_set PANE_KEYS_def)
  have "committable num own_by observed g E a"
  proof (rule ccontr)
    assume no: "\<not> committable num own_by observed g E a"
    then have "run ?c a = a" using run_skip expand_means [OF transaction_means [OF p extra]] by simp
    then have "others (opts_of s) c" using from_s to_c others_trans by metis
    moreover have "opt_value c OPT_RECEIPT = nonce" using c(3) key stored receipt by simp
    ultimately show False using fresh nonce(1) unfolding fresh_receipts_def by blast
  qed
  moreover from this have "run ?c a = apply_edits (edits @ [receipt_edit w]) a"
    using expand_means [OF transaction_means [OF p extra]] run_edits run_edit
    by (subst run_group) (auto simp: committable_def list_all_iff)
  ultimately show ?thesis using from_s to_c c stored persisted by auto
qed

end

end
