(* ===== verification/Pane_Exec.thy ===== *)
theory Pane_Exec
  imports Pane_Reads Tmux_Expander
begin

text \<open>
  A server that carries out exactly the commands the writers send: it reads a quoted command group
  back, expands the written formats, and keeps one pane's options, a clock and a supply of nonces. It
  meets the laws of \<open>pane_server\<close>, and the witnesses of the properties about writers evaluate on it.
\<close>

section \<open>Reading quoted commands\<close>

fun read_word :: "bool \<Rightarrow> string \<Rightarrow> (string \<times> string) option" where
  "read_word quoted [] = (if quoted then None else Some ([], []))"
| "read_word quoted (c # r) =
     (if quoted then
        (if c = QUOTE then read_word False r else map_option (map_prod ((#) c) id) (read_word True r))
      else if c = CHR '' '' then Some ([], c # r)
      else if c = QUOTE then read_word True r
      else if c = BACKSLASH then
        (case r of
           [] \<Rightarrow> None
         | d # r1 \<Rightarrow>
             if d = QUOTE then map_option (map_prod ((#) QUOTE) id) (read_word False r1)
             else (case r1 of
                     e # f # r2 \<Rightarrow>
                       if [d, e, f] = ''012'' then map_option (map_prod ((#) NEWLINE) id) (read_word False r2)
                       else None
                   | _ \<Rightarrow> None))
      else map_option (map_prod ((#) c) id) (read_word False r))"

fun read_commands :: "nat \<Rightarrow> string \<Rightarrow> string list list" where
  "read_commands 0 s = []"
| "read_commands (Suc n) s =
     (case read_word False s of
        None \<Rightarrow> []
      | Some (w, rest) \<Rightarrow>
          (case strip_prefix '' ; '' rest of
             Some r \<Rightarrow> [w] # read_commands n r
           | None \<Rightarrow>
               (case strip_prefix '' '' rest of
                  Some r \<Rightarrow> (case read_commands n r of [] \<Rightarrow> [[w]] | c # cs \<Rightarrow> (w # c) # cs)
                | None \<Rightarrow> [[w]])))"

definition quote_body :: "string \<Rightarrow> string" where
  "quote_body v =
     concat (map (\<lambda>c. if c = NEWLINE then [QUOTE, BACKSLASH] @ ''012'' @ [QUOTE] else [c])
       (concat (map (\<lambda>c. if c = QUOTE then [QUOTE, BACKSLASH, QUOTE, QUOTE] else [c]) v)))"

lemma quote_chars: "QUOTE \<noteq> NEWLINE" "BACKSLASH \<noteq> NEWLINE" "BACKSLASH \<noteq> QUOTE" "QUOTE \<noteq> CHR '' ''"
  "BACKSLASH \<noteq> CHR '' ''" "CHR ''0'' \<noteq> QUOTE"
  by (simp_all add: QUOTE_def NEWLINE_def BACKSLASH_def)

lemma quote_body_simps [simp]:
  "quote_body [] = []"
  "quote_body (c # v) =
     (if c = QUOTE then [QUOTE, BACKSLASH, QUOTE, QUOTE]
      else if c = NEWLINE then [QUOTE, BACKSLASH] @ ''012'' @ [QUOTE] else [c]) @ quote_body v"
  using quote_chars by (simp_all add: quote_body_def)

lemma read_word_body: "read_word True (quote_body v @ QUOTE # rest) = map_option (map_prod ((@) v) id) (read_word False rest)"
proof (induction v)
  case Nil
  then show ?case by (cases "read_word False rest") (simp_all add: map_prod_def)
next
  case (Cons c v)
  then show ?case
    using quote_chars by (simp add: option.map_comp prod.map_comp comp_def)
qed

text \<open>Quoting an argument is undone by tmux's own parser.\<close>

lemma read_word_quote:
  assumes "rest = [] \<or> hd rest = CHR '' ''"
  shows "read_word False (quote_tmux_argument v @ rest) = Some (v, rest)"
proof -
  have "read_word False rest = Some ([], rest)" using assms by (cases rest) auto
  then show ?thesis
    using quote_chars read_word_body [of v rest]
    by (simp add: quote_tmux_argument_def quote_body_def [symmetric])
qed

definition command_text :: "string list \<Rightarrow> string" where
  "command_text args = join_with '' '' (map quote_tmux_argument args)"

lemma quote_not_Nil: "\<exists>t. quote_tmux_argument v = QUOTE # t"
  by (simp add: quote_tmux_argument_def)

lemma command_text_QUOTE: "args \<noteq> [] \<Longrightarrow> \<exists>t. command_text args = QUOTE # t"
proof -
  assume "args \<noteq> []"
  then obtain a as where args: "args = a # as" by (cases args) auto
  obtain t where "quote_tmux_argument a = QUOTE # t" using quote_not_Nil by blast
  then show ?thesis by (cases as) (simp_all add: command_text_def args)
qed

lemma read_commands_text:
  "\<forall>args \<in> set cmds. args \<noteq> [] \<Longrightarrow> length (concat cmds) \<le> n \<Longrightarrow> cmds \<noteq> [] \<Longrightarrow>
     read_commands n (join_with '' ; '' (map command_text cmds)) = cmds"
proof (induction n arbitrary: cmds)
  case 0
  then show ?case by (cases cmds) auto
next
  case (Suc n)
  then obtain w args rest where cmds: "cmds = (w # args) # rest" by (cases cmds; cases "hd cmds") auto
  show ?case
  proof (cases args)
    case Nil
    show ?thesis
    proof (cases rest)
      case rest: Nil
      then show ?thesis
        using read_word_quote [of "[]" w] Nil cmds by (simp add: command_text_def strip_prefix_Cons)
    next
      case (Cons c cs)
      then have "read_commands n (join_with '' ; '' (map command_text rest)) = rest"
        using Suc.prems cmds Nil by (intro Suc.IH) auto
      moreover have "join_with '' ; '' (map command_text cmds)
          = quote_tmux_argument w @ '' ; '' @ join_with '' ; '' (map command_text rest)"
        using Cons cmds Nil by (simp add: command_text_def)
      ultimately show ?thesis
        using read_word_quote [of "'' ; '' @ join_with '' ; '' (map command_text rest)" w] Nil cmds
        by (simp add: strip_prefix_Cons)
    qed
  next
    case (Cons a as)
    then have ih: "read_commands n (join_with '' ; '' (map command_text (args # rest))) = args # rest"
      using Suc.prems cmds by (intro Suc.IH) auto
    obtain t where t: "join_with '' ; '' (map command_text (args # rest)) = QUOTE # t"
      using command_text_QUOTE [of args] Cons by (cases rest) auto
    have "join_with '' ; '' (map command_text cmds)
        = quote_tmux_argument w @ '' '' @ join_with '' ; '' (map command_text (args # rest))"
      using Cons cmds by (cases rest) (simp_all add: command_text_def)
    then show ?thesis
      using read_word_quote [of "'' '' @ join_with '' ; '' (map command_text (args # rest))" w] ih t cmds quote_chars
      by (simp add: strip_prefix_Cons QUOTE_def del: list.map)
  qed
qed

section \<open>The server\<close>

definition exec_set :: "string list \<Rightarrow> options \<Rightarrow> options" where
  "exec_set args opts =
     (case args of
        [_, scope, flag, _, key, v] \<Rightarrow>
          if scope = ''-p'' \<and> flag = ''-u'' then opts(v := None) else opts(key := Some v)
      | _ \<Rightarrow> opts)"

definition exec_command :: "stamp_command \<Rightarrow> options \<Rightarrow> options" where
  "exec_command c opts =
     (case sc_argv c of
        [name, _, _, _, predicate, body] \<Rightarrow>
          if name = ''if-shell'' then
            (if truthy (expand_format opts predicate) then fold exec_set (read_commands (length body) body) opts
             else opts)
          else exec_set (sc_argv c) opts
      | _ \<Rightarrow> exec_set (sc_argv c) opts)"

record pane_state =
  ps_options :: options
  ps_clock :: u64

text \<open>A nonce that is not the stored receipt.\<close>

definition exec_nonce :: "pane_state \<Rightarrow> string" where
  "exec_nonce s =
     (let zeros = replicate 32 (CHR ''0'')
      in if opt_value (ps_options s) OPT_RECEIPT = zeros then replicate 32 (CHR ''1'') else zeros)"

definition exec_tmux :: "pane_state tmux" where
  "exec_tmux =
     \<lparr>tx_apply = (\<lambda>pane cs s. (Inr (), s\<lparr>ps_options := fold exec_command cs (ps_options s)\<rparr>)),
      tx_format = (\<lambda>pane text s.
        (Inr (join_with [UNIT_SEPARATOR]
           (map (expand_format (ps_options s)) (split_on UNIT_SEPARATOR text))), s)),
      tx_panes = (\<lambda>s. (Inr [opt_value (ps_options s) ''pane_id''], s)),
      tx_clock = (\<lambda>s. (ps_clock s, s)),
      tx_nonce = (\<lambda>s. (Inr (exec_nonce s), s))\<rparr>"

lemma set_command_exec: "set_command c \<Longrightarrow> exec_command c opts = exec_set (sc_argv c) opts"
  by (auto simp: set_command_def exec_command_def split: list.splits)

lemma exec_body:
  "list_all set_command body \<Longrightarrow> fold exec_command body opts = fold exec_set (map sc_argv body) opts"
  by (induction body arbitrary: opts) (simp_all add: set_command_exec)

lemma command_text_length: "length args \<le> length (command_text args)"
proof (induction args)
  case (Cons a as)
  then show ?case using quote_not_Nil [of a] by (cases as) (auto simp: command_text_def)
qed simp

lemma commands_text_length:
  "length (concat cmds) \<le> length (join_with '' ; '' (map command_text cmds))"
proof (induction cmds)
  case (Cons c cs)
  then show ?case using command_text_length [of c] by (cases cs) auto
qed simp

lemma exec_group:
  assumes "truthy (expand_format opts p)" and "list_all set_command body"
  shows "exec_command (conditional_group pane p body) opts = fold exec_command body opts"
proof (cases "body = []")
  case True
  have "read_commands 0 [] = []" by simp
  then show ?thesis
    using True assms(1) by (simp add: exec_command_def conditional_group_def argv_def)
next
  case False
  let ?text = "join_with '' ; '' (map command_text (map sc_argv body))"
  have "\<forall>args \<in> set (map sc_argv body). args \<noteq> []"
    using assms(2) by (auto simp: list_all_iff set_command_def split: list.splits)
  then have parsed: "read_commands (length ?text) ?text = map sc_argv body"
    using False commands_text_length [of "map sc_argv body"] by (intro read_commands_text) simp_all
  have "map (\<lambda>c. join_with '' '' (map quote_tmux_argument (sc_argv c))) body = map command_text (map sc_argv body)"
    by (simp add: command_text_def)
  then have "conditional_group pane p body = argv [''if-shell'', ''-F'', ''-t'', pane, p, ?text]"
    by (simp only: conditional_group_def)
  then have "exec_command (conditional_group pane p body) opts = fold exec_set (read_commands (length ?text) ?text) opts"
    using assms(1) by (simp only: exec_command_def) (simp add: argv_def)
  also have "\<dots> = fold exec_command body opts" by (simp only: parsed exec_body [OF assms(2)])
  finally show ?thesis .
qed

lemma executed_exec: "executed (=) run cs a (fold run cs a)"
  by (induction cs arbitrary: a) auto

interpretation exec_server: pane_server expand_format decimal_test exec_tmux ps_options "(=)" exec_command
proof
  fix pane cs s r s'
  assume "tx_apply exec_tmux pane cs s = (r, s')"
  then show "\<exists>n. (r = Inr () \<longrightarrow> n = length cs) \<and> executed (=) exec_command (take n cs) (ps_options s) (ps_options s')"
    using executed_exec by (intro exI [of _ "length cs"]) (auto simp: exec_tmux_def)
next
  fix pane fs s out s'
  assume "tx_format exec_tmux pane (join_with [UNIT_SEPARATOR] (map print_format fs)) s = (Inr out, s')"
    and wf: "list_all format_wf fs" and sep: "list_all (\<lambda>f. UNIT_SEPARATOR \<notin> set (print_format f)) fs"
  moreover have "fs = [] \<Longrightarrow> expand_format opts [] = []" for opts
    using expand_format.expand_print [of "PlainF []" opts] by simp
  moreover have "map (expand_format opts) (split_on UNIT_SEPARATOR (join_with [UNIT_SEPARATOR] (map print_format fs)))
      = map (eval_format decimal_test opts) fs" if "fs \<noteq> []" for opts
    using that sep wf expand_format.expand_print
    by (subst split_on_join) (auto simp: list_all_iff)
  ultimately show "\<exists>a. ps_options s = a \<and> a = ps_options s'
      \<and> out = join_with [UNIT_SEPARATOR] (map (eval_format decimal_test a) fs)"
    by (cases "fs = []") (auto simp: exec_tmux_def)
next
  fix opts p body pane
  assume "truthy (expand_format opts p)" and "list_all set_command body"
  then show "exec_command (conditional_group pane p body) opts = fold exec_command body opts"
    by (rule exec_group)
qed (auto simp: exec_tmux_def exec_set_def exec_command_def set_plain_def unset_pane_def argv_def
    conditional_group_def)

lemma exec_fresh: exec_server.fresh_receipts
  unfolding exec_server.fresh_receipts_def
  by (auto simp: exec_tmux_def exec_nonce_def Let_def split: if_splits)

text \<open>An undisturbed transaction whose predicate holds wins, and leaves its edits.\<close>

lemma split_values:
  assumes "ps \<noteq> []" and "\<And>p. p \<in> set ps \<Longrightarrow> UNIT_SEPARATOR \<notin> set p"
  shows "split_on UNIT_SEPARATOR (join_with [UNIT_SEPARATOR] ps) = ps"
  using assms by (rule split_on_join)

definition readable :: "string list \<Rightarrow> options \<Rightarrow> bool" where
  "readable keys opts =
     (list_all (\<lambda>k. UNIT_SEPARATOR \<notin> set (opt_value opts k)) (''pane_id'' # AFTER_SET_OPTION # keys)
      \<and> ok (pane_id_parse (opt_value opts ''pane_id'')) \<noteq> None)"

lemma exec_read:
  assumes "list_all edit_ok edits" and "readable (read_keys edits) (ps_options s)"
  obtains r where "read_pane_with exec_tmux pane edits s = (Inr r, s)"
    and "\<And>k. k \<in> set (read_keys edits) \<Longrightarrow> rd_value r k = opt_value (ps_options s) k"
    and "rd_option_hooks r = (\<not> no_hooks (ps_options s))"
    and "\<And>k. rd_options r k = (if k \<in> set (read_keys edits) then read_back (ps_options s) k else None)"
    and "rd_program r = metadata_from_options (rd_options r)"
proof -
  let ?o = "ps_options s" and ?keys = "read_keys edits"
  define vals where "vals = opt_value ?o ''pane_id'' # map (opt_value ?o) ?keys @ [opt_value ?o AFTER_SET_OPTION, ''end'']"
  have fmt: "tx_format exec_tmux pane (read_format_text ?keys) s = (Inr (join_with [UNIT_SEPARATOR] vals), s)"
  proof -
    have "map (expand_format ?o) (map print_format (read_fields ?keys)) = map (eval_format decimal_test ?o) (read_fields ?keys)"
      using read_fields_ok(1) [OF assms(1)] expand_format.expand_print by (simp add: list_all_iff)
    also have "\<dots> = vals" by (simp add: read_fields_def vals_def)
    finally have vals: "map (expand_format ?o) (map print_format (read_fields ?keys)) = vals" .
    have "split_on UNIT_SEPARATOR (read_format_text ?keys) = map print_format (read_fields ?keys)"
      unfolding read_fields_text
    proof (rule split_values)
      show "map print_format (read_fields ?keys) \<noteq> []" by (simp add: read_fields_def)
      show "UNIT_SEPARATOR \<notin> set p" if "p \<in> set (map print_format (read_fields ?keys))" for p
        using that read_fields_ok(2) [OF assms(1)] by (auto simp: list_all_iff)
    qed
    then show ?thesis by (simp only: exec_tmux_def tmux.select_convs vals)
  qed
  have "UNIT_SEPARATOR \<notin> set ''end''" by (simp add: UNIT_SEPARATOR_def)
  then have split: "split_on UNIT_SEPARATOR (join_with [UNIT_SEPARATOR] vals) = vals"
    using assms(2) by (intro split_values) (auto simp: vals_def readable_def list_all_iff)
  obtain n where n: "pane_id_parse (opt_value ?o ''pane_id'') = Inr n"
    using assms(2) by (cases "pane_id_parse (opt_value ?o ''pane_id'')") (auto simp: readable_def)
  define opts where "opts = options_of_fields ?keys (map (opt_value ?o) ?keys @ [opt_value ?o AFTER_SET_OPTION, ''end''])"
  have opts: "opts k = (if k \<in> set ?keys then read_back ?o k else None)" for k
    by (simp add: opts_def options_of_values read_back_value)
  let ?r = "\<lparr>rd_pane_id = opt_value ?o ''pane_id'', rd_target = pane, rd_options = opts,
      rd_option_hooks = (\<not> no_hooks ?o), rd_program = metadata_from_options opts\<rparr>"
  have "read_of_fields pane ?keys (opt_value ?o ''pane_id'')
      (map (opt_value ?o) ?keys @ [opt_value ?o AFTER_SET_OPTION, ''end'']) = Inr ?r"
    by (simp add: read_of_fields_def opts_def Let_def nth_append no_hooks_def)
  then have "read_pane_with exec_tmux pane edits s = (Inr ?r, s)"
    using fmt split n by (simp add: read_pane_with_def Let_def io_bind_def io_of_def vals_def)
  moreover have "rd_value ?r k = opt_value ?o k" if "k \<in> set ?keys" for k
    using that by (simp add: rd_value_def opt_value_def opts_def options_of_values)
  ultimately show ?thesis by (intro that [of ?r]) (simp_all add: opts)
qed

lemma final_values_apply:
  "key \<in> ed_key ` set es \<Longrightarrow> final_values es key = Some (opt_value (apply_edits es opts) key)"
proof (induction es rule: rev_induct)
  case (snoc e es)
  then show ?case
    by (cases "ed_key e = key") (auto simp: final_values_def edit_text_def opt_value_def)
qed simp

lemma edit_key_hook: "edit_ok e \<Longrightarrow> ed_key e \<noteq> AFTER_SET_OPTION"
  by (auto simp: edit_ok_def AFTER_SET_OPTION_def split: list.splits)

lemma exec_transaction:
  assumes ok: "list_all edit_ok edits" and own: "OPT_RECEIPT \<notin> ed_key ` set edits"
    and p: "transaction_predicate own_by observed g extra = Inr p" and extra: "means decimal_test extra E"
    and holds: "committable decimal_test own_by observed g E (ps_options s)"
    and w: "w = Token (exec_nonce s)"
    and read: "readable (read_keys edits) (apply_edits (edits @ [receipt_edit w]) (ps_options s))"
  obtains r where "transaction exec_tmux observed own_by g extra edits s
      = (Inr (Won r), s\<lparr>ps_options := apply_edits (edits @ [receipt_edit w]) (ps_options s)\<rparr>)"
    and "\<And>k. rd_options r k = (if k \<in> set (read_keys edits)
           then read_back (apply_edits (edits @ [receipt_edit w]) (ps_options s)) k else None)"
    and "rd_program r = metadata_from_options (rd_options r)"
proof -
  let ?after = "apply_edits (edits @ [receipt_edit w]) (ps_options s)"
  let ?s = "s\<lparr>ps_options := ?after\<rparr>" and ?pane = "rd_target observed"
  have "list_all is_hex (replicate 32 (CHR ''0''))" "list_all is_hex (replicate 32 (CHR ''1''))"
    by code_simp+
  then have token: "fresh_token exec_tmux s = (Inr w, s)"
    by (simp add: fresh_token_def io_bind_def io_return_def exec_tmux_def exec_nonce_def token_parse_def Let_def w)
  have "truthy (expand_format (ps_options s) p)"
    using exec_server.expand_means [OF transaction_means [OF p extra]] holds by simp
  then have "exec_command (conditional_group ?pane p (map (edit_command ?pane) (edits @ [receipt_edit w])))
      (ps_options s) = ?after"
    using exec_server.run_edits exec_server.run_edit by (subst exec_group) (auto simp: list_all_iff)
  then have ran: "tx_apply exec_tmux ?pane (transaction_commands observed p w edits None) s = (Inr (), ?s)"
    by (simp add: exec_tmux_def transaction_commands_def Let_def)
  have now: "ps_options ?s = ?after" by (simp del: apply_edits_simps)
  obtain r where r: "read_pane_with exec_tmux ?pane edits ?s = (Inr r, ?s)"
    "\<And>k. k \<in> set (read_keys edits) \<Longrightarrow> rd_value r k = opt_value ?after k"
    "rd_option_hooks r = (\<not> no_hooks ?after)"
    "\<And>k. rd_options r k = (if k \<in> set (read_keys edits) then read_back ?after k else None)"
    "rd_program r = metadata_from_options (rd_options r)"
    by (rule exec_read [OF ok, of ?s ?pane, unfolded now, OF read]) (rule that)
  have "AFTER_SET_OPTION \<notin> ed_key ` set (edits @ [receipt_edit w])"
  proof -
    have "OPT_RECEIPT \<noteq> AFTER_SET_OPTION" by (simp add: AFTER_SET_OPTION_def OPT_RECEIPT_def)
    then show ?thesis
      using ok edit_key_hook by (fastforce simp: list_all_iff receipt_edit_def edit_set_def)
  qed
  then have hooks: "no_hooks ?after"
    using holds apply_edits_other [of AFTER_SET_OPTION "edits @ [receipt_edit w]" "ps_options s"]
    by (simp add: no_hooks_def opt_value_def committable_def del: apply_edits_simps)
  have receipt: "rd_value r OPT_RECEIPT = token_str w"
    using r(2) [of OPT_RECEIPT] private_keys_known
    by (auto simp: read_keys_set PANE_KEYS_def receipt_edit_def edit_set_def opt_value_def)
  have "final_values edits (ed_key e) = Some (rd_value r (ed_key e))" if "e \<in> set edits" for e
  proof -
    have "ed_key e \<noteq> OPT_RECEIPT" using own that by (metis imageI)
    then have "opt_value ?after (ed_key e) = opt_value (apply_edits edits (ps_options s)) (ed_key e)"
      by (simp add: receipt_edit_def edit_set_def opt_value_def)
    then show ?thesis
      using that r(2) [of "ed_key e"] final_values_apply [of "ed_key e" edits "ps_options s"]
      by (simp add: read_keys_set)
  qed
  then have "transaction_outcome w edits r = Inr (Won r)"
    using r(3) hooks receipt by (simp add: transaction_outcome_def all_persisted_def list_all_iff)
  then have "transaction exec_tmux observed own_by g extra edits s = (Inr (Won r), ?s)"
    using ok token p ran r(1)
    by (simp add: transaction_def transaction_with_hint_def io_bind_def io_of_def validate_edits_def)
  then show ?thesis using r(4,5) by (rule that)
qed

section \<open>A pane to evaluate on\<close>

definition empty_pane :: pane_state where
  "empty_pane = \<lparr>ps_options = [''pane_id'' \<mapsto> ''%1''], ps_clock = 1700000000000\<rparr>"

definition empty_read :: pane_read where
  "empty_read = read_from_options ''%1'' (\<lambda>_. None)"

lemma empty_read_coherent: "coherent empty_read"
  using coherent_from_options [of "''%1''" "\<lambda>_. None"]
  by (simp add: empty_read_def read_back_def option_filter_def)

definition sample_edits :: "option_edit list" where
  "sample_edits = [edit_set OPT_MODEL ''opus'', edit_unset OPT_DETAIL]"

text \<open>A pane that shows an unclaimed result of a live program.\<close>

definition sample_token :: token where
  "sample_token = Token ''0123456789abcdef0123456789abcdef''"

definition sample_owner :: pane_owner where
  "sample_owner = \<lparr>po_collector = sample_token, po_episode = 1,
     po_processes = [\<lparr>pi_pid = 7, pi_birth = LinuxStartTicks 9\<rparr>], po_stream_epoch = 1\<rparr>"

definition sample_result :: persisted_result where
  "sample_result = \<lparr>pe_owner = sample_owner,
     pe_identity = \<lparr>ri_owner = 1, ri_record = ROOT, ri_generation = 1\<rparr>, pe_cycle = 1, pe_kind = Completion\<rparr>"

definition result_options :: options where
  "result_options =
     [''pane_id'' \<mapsto> ''%1'', OPT_STATE \<mapsto> ''idle'', OPT_SOURCE \<mapsto> ''hook'', OPT_PID \<mapsto> ''7'',
      OPT_EVIDENCE_AT \<mapsto> ''1700000000000'', OPT_SINCE \<mapsto> ''1700000000000'',
      OPT_STAMPED_AT \<mapsto> ''1700000000000'', OPT_ATTENTION \<mapsto> ''1'', OPT_ORIGIN \<mapsto> ''1'',
      OPT_OWNER \<mapsto> owner_encode sample_owner,
      OPT_COMMIT \<mapsto> commit_encode \<lparr>cm_write = sample_token, cm_owner = sample_owner\<rparr>,
      OPT_COLLECTOR \<mapsto> lease_encode \<lparr>cl_token = sample_token, cl_expires_at = 1700000015000\<rparr>,
      OPT_RESULT \<mapsto> result_encode sample_result]"

definition result_pane :: pane_state where
  "result_pane = \<lparr>ps_options = result_options, ps_clock = 1700000000000\<rparr>"

definition result_read :: pane_read where
  "result_read = read_from_options ''%1'' result_options"

end
