(* ===== verification/Pane_Properties.thy ===== *)
theory Pane_Properties
  imports Pane_Exec
begin

text \<open>
  What the writers of a pane guarantee, stated over any server and any interference: the own steps of
  the fallback, of the metadata lane, of acknowledgement, of a notification claim and of the collector
  lease, and what a won transaction proves.
\<close>

section \<open>Transactions\<close>

text \<open>C2 (transaction_won). A transaction that reports a win was one atomic step: at some moment between
  its call and its answer no option hook was configured, the ownership predicate and the guard held of
  the options as they were, the pane still carried the receipt of the observed read, and the whole
  body was applied at that moment; the options that the read returned are those of a later moment at
  which every edited option had the value of its last edit. Other clients act at will in between; a
  drawn receipt is new, and they never write it.\<close>

theorem transaction_won:
  assumes "pane_server expand num tx opts_of others run"
    and "pane_server.fresh_receipts tx opts_of others"
    and "means num extra E"
    and "transaction tx observed own_by g extra edits s = (Inr (Won r), s')"
  shows "\<exists>a w c. others (opts_of s) a \<and> no_hooks a \<and> owned own_by observed a \<and> admitted num g own_by a
    \<and> E a \<and> opt_value a OPT_RECEIPT = rd_value observed OPT_RECEIPT
    \<and> others (apply_edits (edits @ [receipt_edit w]) a) c \<and> others c (opts_of s')
    \<and> (\<forall>k \<in> set (read_keys edits). rd_value r k = opt_value c k)
    \<and> (\<forall>e \<in> set edits. final_values edits (ed_key e) = Some (opt_value c (ed_key e)))"
proof -
  obtain a w c where step: "others (opts_of s) a" "committable num own_by observed g E a"
    "others (apply_edits (edits @ [receipt_edit w]) a) c" "others c (opts_of s')"
    "\<forall>k \<in> set (read_keys edits). rd_value r k = opt_value c k" "all_persisted edits r"
    using pane_server.transaction_won_step [OF assms(1,4,3,2)] by blast
  then have "\<forall>e \<in> set edits. final_values edits (ed_key e) = Some (opt_value c (ed_key e))"
    by (simp add: all_persisted_def list_all_iff read_keys_set)
  with step show ?thesis unfolding committable_def by blast
qed

theorem transaction_won_witness:
  "\<exists>r s' a w c. transaction exec_tmux empty_read (MetadataExpected None) Unconditional ''1'' sample_edits empty_pane
       = (Inr (Won r), s')
     \<and> ps_options empty_pane = a \<and> no_hooks a \<and> owned (MetadataExpected None) empty_read a
     \<and> apply_edits (sample_edits @ [receipt_edit w]) a = c \<and> c = ps_options s'
     \<and> opt_value c OPT_MODEL = ''opus''"
proof -
  let ?own = "MetadataExpected None" and ?w = "Token (exec_nonce empty_pane)"
  have ok: "list_all edit_ok sample_edits" "OPT_RECEIPT \<notin> ed_key ` set sample_edits"
    unfolding sample_edits_def by code_simp+
  obtain p where p: "transaction_predicate ?own empty_read Unconditional ''1'' = Inr p"
    by (simp add: transaction_predicate_def)
  have "opt_value (ps_options empty_pane) AFTER_SET_OPTION = []"
    "opt_value (ps_options empty_pane) OPT_METADATA_OWNER = []"
    "opt_value (ps_options empty_pane) OPT_RECEIPT = rd_value empty_read OPT_RECEIPT"
    by code_simp+
  then have holds: "committable decimal_test ?own empty_read Unconditional (\<lambda>_. True) (ps_options empty_pane)"
    by (simp add: committable_def no_hooks_def owner_text_def admitted_def suppressed_def)
  have "readable (read_keys sample_edits)
      (apply_edits (sample_edits @ [receipt_edit ?w]) (ps_options empty_pane))"
    by code_simp
  from exec_transaction [OF ok p means_one holds refl this]
  obtain r where run: "transaction exec_tmux empty_read ?own Unconditional ''1'' sample_edits empty_pane
      = (Inr (Won r), empty_pane\<lparr>ps_options := apply_edits (sample_edits @ [receipt_edit ?w]) (ps_options empty_pane)\<rparr>)"
    by blast
  have "final_values sample_edits OPT_MODEL = Some ''opus''" by code_simp
  moreover have "edit_set OPT_MODEL ''opus'' \<in> set sample_edits" by (simp add: sample_edits_def)
  ultimately show ?thesis
    using transaction_won [OF exec_server.pane_server_axioms exec_fresh means_one run] run
    by (fastforce simp: edit_set_def)
qed

section \<open>The fallback writer\<close>

text \<open>The match of \<open>apply_observed\<close> and \<open>apply_companions\<close> (\<open>tma-tmux/src/stamp.rs\<close>).\<close>

record applied =
  ap_read :: pane_read
  ap_committed :: bool

definition fallback_or_advisory ::
  "'s tmux \<Rightarrow> pane_read \<Rightarrow> guard \<Rightarrow> option_edit list \<Rightarrow> u64 option \<Rightarrow> ('s, applied) io" where
  "fallback_or_advisory tx observed g edits hint =
     io_unsupported
       (io_bind (write_fallback_with_hint tx observed g edits hint) (\<lambda>outcome.
          io_return \<lparr>ap_read = winner outcome, ap_committed = won outcome\<rparr>))
       (io_bind (advisory_fallback tx observed g edits) (\<lambda>read.
          io_return \<lparr>ap_read = read, ap_committed = False\<rparr>))"

text \<open>An own step of the fallback at epochs in \<open>T\<close>: no live program at one of them, or the poll hint.\<close>

definition fallback_step :: "(u64 \<Rightarrow> bool) \<Rightarrow> options \<Rightarrow> options \<Rightarrow> bool" where
  "fallback_step T a b =
     ((\<exists>now. T now \<and> \<not> is_live (read_projection (read_back a) now)) \<or> (\<exists>v. b = a(OPT_LAST_POLL := v)))"

text \<open>The same with the plan's own guard, which admits the options at that epoch.\<close>

definition guarded_step :: "number_test \<Rightarrow> (u64 \<Rightarrow> bool) \<Rightarrow> guard \<Rightarrow> options \<Rightarrow> options \<Rightarrow> bool" where
  "guarded_step num T g a b =
     ((\<exists>now. T now \<and> \<not> is_live (read_projection (read_back a) now) \<and> admitted num g (Fallback now) a)
      \<or> (\<exists>v. b = a(OPT_LAST_POLL := v)))"

context pane_server
begin

lemma guar_write_fallback:
  assumes "coherent observed" and "\<And>s now s'. tx_clock tx s = (now, s') \<Longrightarrow> T now"
  shows "guar (guarded_step num T g) (write_fallback_with_hint tx observed g edits hint) (\<lambda>_. True)"
  unfolding write_fallback_with_hint_def
proof (rule guar_bind [OF guar_of [where Q = "\<lambda>_. True"]], rule TrueI,
    rule guar_bind [OF guar_fallback_body], rule guar_bind [OF guar_clock])
  show "T now" if "tx_clock tx s = (now, s')" for s now s' by (rule assms(2) [OF that])
  fix body now
  assume "T now"
  show "guar (guarded_step num T g) (transaction_with_hint tx observed (Fallback now) g ''1'' body hint) (\<lambda>_. True)"
  proof (rule guar_transaction_with_hint [OF means_one])
    fix a w
    assume "committable num (Fallback now) observed g (\<lambda>_. True) a"
    then have "\<not> is_live (read_projection (read_back a) now)" "admitted num g (Fallback now) a"
      using owned_fallback_not_live [OF _ assms(1)] by (simp_all add: committable_def)
    then show "guarded_step num T g a (apply_edits (body @ [receipt_edit w]) a)"
      using \<open>T now\<close> by (auto simp: guarded_step_def)
  qed (auto simp: guarded_step_def)
qed

lemma guar_advisory_step:
  assumes "\<And>s now s'. tx_clock tx s = (now, s') \<Longrightarrow> T now"
  shows "guar (guarded_step num T g) (advisory_step tx initial g w e) (\<lambda>_. True)"
  unfolding advisory_step_def Let_def
proof (rule guar_bind [OF guar_read_pane], rule guar_bind [OF guar_clock])
  show "T now" if "tx_clock tx s = (now, s')" for s now s' by (rule assms [OF that])
  fix observed now
  assume ok: "coherent observed" "T now"
  obtain q where q: "ownership_predicate (Fallback now) observed = Inr q" by simp
  have m: "means num (pred_and q
      (pred_and (pred_and (pred_equal OPT_RECEIPT (token_str w))
         (pred_equal OPT_METADATA_OWNER (rd_value initial OPT_METADATA_OWNER)))
       (effective_guard g (Fallback now))))
    (\<lambda>opts. owned (Fallback now) observed opts \<and>
       ((opt_value opts OPT_RECEIPT = token_str w
         \<and> opt_value opts OPT_METADATA_OWNER = rd_value initial OPT_METADATA_OWNER)
        \<and> admitted num g (Fallback now) opts))"
    by (intro means_and ownership_means [OF q] means_equal effective_means) simp_all
  have "guar (guarded_step num T g) (apply_one tx (rd_target initial) (pred_and q
      (pred_and (pred_and (pred_equal OPT_RECEIPT (token_str w))
         (pred_equal OPT_METADATA_OWNER (rd_value initial OPT_METADATA_OWNER)))
       (effective_guard g (Fallback now)))) e) (\<lambda>_. True)"
    using ok owned_fallback_not_live [OF _ ok(1)]
    by (intro guar_apply_one [OF m]) (auto simp: guarded_step_def simp del: owned.simps)
  then show "guar (guarded_step num T g) (io_bind (io_of (ownership_predicate (Fallback now) observed)) (\<lambda>owned.
      apply_one tx (rd_target initial) (pred_and owned
      (pred_and (pred_and (pred_equal OPT_RECEIPT (token_str w))
         (pred_equal OPT_METADATA_OWNER (rd_value initial OPT_METADATA_OWNER)))
       (effective_guard g (Fallback now)))) e)) (\<lambda>_. True)"
    unfolding q by (intro guar_bind [OF guar_of [where Q = "\<lambda>x. x = q"]]) auto
qed

lemma guar_advisory_fallback:
  assumes "coherent initial" and "\<And>s now s'. tx_clock tx s = (now, s') \<Longrightarrow> T now"
  shows "guar (guarded_step num T g) (advisory_fallback tx initial g edits) (\<lambda>_. True)"
  unfolding advisory_fallback_def Let_def
proof (rule guar_bind [OF guar_of [where Q = "\<lambda>_. True"]], rule TrueI,
    rule guar_bind [OF guar_of [where Q = "\<lambda>_. True"]], rule TrueI,
    rule guar_bind [OF guar_fallback_body], rule guar_bind [OF guar_token], rule guar_bind [OF guar_clock])
  show "T now" if "tx_clock tx s = (now, s')" for s now s' by (rule assms(2) [OF that])
  fix body w now
  assume now: "T now"
  obtain q where q: "ownership_predicate (Fallback now) initial = Inr q" by simp
  have m: "means num (pred_and q (pred_and (effective_guard g (Fallback now))
        (pred_equal OPT_RECEIPT (rd_value initial OPT_RECEIPT))))
      (\<lambda>opts. owned (Fallback now) initial opts \<and> (admitted num g (Fallback now) opts
         \<and> opt_value opts OPT_RECEIPT = rd_value initial OPT_RECEIPT))"
    by (intro means_and ownership_means [OF q] means_equal effective_means) simp
  have first: "guar (guarded_step num T g) (apply_one tx (rd_target initial) (pred_and q
      (pred_and (effective_guard g (Fallback now)) (pred_equal OPT_RECEIPT (rd_value initial OPT_RECEIPT))))
      (edit_set OPT_RECEIPT (token_str w))) (\<lambda>_. True)"
    using now owned_fallback_not_live [OF _ assms(1)]
    by (intro guar_apply_one [OF m]) (auto simp: guarded_step_def simp del: owned.simps)
  have rest: "guar (guarded_step num T g) (io_bind (io_each (advisory_step tx initial g w) body)
      (\<lambda>_. read_pane_with tx (rd_target initial) body)) (\<lambda>_. True)"
    by (intro guar_bind [OF guar_each] guar_advisory_step assms(2) guar_weaken [OF guar_read_pane_with]) auto
  show "guar (guarded_step num T g) (io_bind (io_of (ownership_predicate (Fallback now) initial)) (\<lambda>owned.
      io_bind (apply_one tx (rd_target initial) (pred_and owned
        (pred_and (effective_guard g (Fallback now)) (pred_equal OPT_RECEIPT (rd_value initial OPT_RECEIPT))))
        (edit_set OPT_RECEIPT (token_str w))) (\<lambda>_.
      io_bind (io_each (advisory_step tx initial g w) body) (\<lambda>_.
      read_pane_with tx (rd_target initial) body)))) (\<lambda>_. True)"
    unfolding q by (intro guar_bind [OF guar_of [where Q = "\<lambda>x. x = q"]]) (auto intro: guar_bind [OF first rest])
qed

lemma guar_mono: "guar G m Q \<Longrightarrow> (\<And>a b. G a b \<Longrightarrow> H a b) \<Longrightarrow> guar H m Q"
proof -
  assume "guar G m Q" and GH: "\<And>a b. G a b \<Longrightarrow> H a b"
  have "steps H a b" if "steps G a b" for a b
    using that unfolding steps_def by (rule rtranclp_mono [THEN predicate2D, rotated]) (auto intro: GH)
  then show ?thesis using \<open>guar G m Q\<close> unfolding guar_def by blast
qed

lemma guar_fallback_or_advisory:
  assumes "coherent observed" and "\<And>s now s'. tx_clock tx s = (now, s') \<Longrightarrow> T now"
  shows "guar (fallback_step T) (fallback_or_advisory tx observed g edits hint) (\<lambda>_. True)"
proof (rule guar_mono [where G = "guarded_step num T g"])
  show "guar (guarded_step num T g) (fallback_or_advisory tx observed g edits hint) (\<lambda>_. True)"
    unfolding fallback_or_advisory_def
    by (intro guar_unsupported guar_bind [OF guar_write_fallback [OF assms]]
        guar_bind [OF guar_advisory_fallback [OF assms]] guar_return TrueI) auto
qed (auto simp: guarded_step_def fallback_step_def)

end



end
