(* ===== verification/Pane_Effects.thy ===== *)
theory Pane_Effects
  imports Pane_Exec Persistence_Codecs
begin

text \<open>
  The own steps of the writers that authorize an effect or hold an authority: the notification claim,
  acknowledgement, the metadata lane and the collector lease.
\<close>

section \<open>Encoded texts in predicates\<close>

lemma means_already:
  assumes "list_all glob_plain identity" and "key_ok key"
  shows "means num (already_claimed identity key) (\<lambda>opts. suffix (CHR ''|'' # identity) (opt_value opts key))"
  by (rule meansI [of "TestF (EndsField identity) key"]) (use assms in \<open>simp_all add: already_claimed_def pred_lookup_def\<close>)

text \<open>The characters of an encoded result are plain in a glob.\<close>

definition codec_char :: "char \<Rightarrow> bool" where
  "codec_char c = (is_alnum c \<or> c \<in> {CHR '':'', CHR ''~'', CHR ''|'', CHR ''_'', CHR ''.'', CHR ''+'',
     CHR ''-'', CHR ''/''})"

lemma codec_char_glob: "codec_char c \<Longrightarrow> glob_plain c"
  by (auto simp: codec_char_def glob_plain_def plain_char_def is_alnum_def is_digit_def is_lower_def
      is_upper_def byte_def)

lemma codec_char_hex: "is_hex c \<Longrightarrow> codec_char c"
  by (auto simp: codec_char_def is_hex_def is_alnum_def is_lower_def)

lemma codec_chars_nat: "c \<in> set (show_nat n) \<Longrightarrow> codec_char c"
  by (auto simp: codec_char_def is_alnum_def dest: show_nat_set_digit)

lemma codec_chars_join:
  "(\<And>c. c \<in> set sep \<Longrightarrow> codec_char c) \<Longrightarrow> (\<And>p c. p \<in> set ps \<Longrightarrow> c \<in> set p \<Longrightarrow> codec_char c)
     \<Longrightarrow> c \<in> set (join_with sep ps) \<Longrightarrow> codec_char c"
  by (induction sep ps rule: join_with.induct) auto

lemma codec_char_literals [simp]:
  "codec_char (CHR '':'')" "codec_char (CHR ''~'')" "codec_char (CHR ''|'')" "codec_char (CHR ''l'')"
  "codec_char (CHR ''m'')"
  by code_simp+

lemma codec_chars_process: "c \<in> set (process_fields p) \<Longrightarrow> codec_char c"
  by (auto simp: process_fields_def codec_chars_nat split: process_birth.splits)

lemma codec_chars_owner:
  assumes "owner_wf w" and "c \<in> set (owner_encode w)"
  shows "codec_char c"
proof -
  have "codec_char d" if "d \<in> set (token_str (po_collector w))" for d
    using that assms(1) by (auto simp: owner_wf_def token_wf_def list_all_iff intro: codec_char_hex)
  moreover have "codec_char d" if "d \<in> set (chain_encode (po_processes w))" for d
    using that unfolding chain_encode_def
    by (rule codec_chars_join [rotated 2]) (auto intro: codec_chars_process)
  ultimately show ?thesis using assms(2) by (auto simp: owner_encode_def codec_chars_nat)
qed

lemma result_glob: "result_wf r \<Longrightarrow> list_all glob_plain (result_encode r)"
proof -
  assume wf: "result_wf r"
  have "codec_char c" if "c \<in> set (rid_str (ri_record (pe_identity r)))" for c
  proof -
    have "identifier_byte c \<or> c = CHR ''/''"
      using that wf by (intro rid_valid_chars [of "ri_record (pe_identity r)"]) (simp_all add: result_wf_def)
    then show ?thesis unfolding codec_char_def identifier_byte_def by blast
  qed
  moreover have "codec_char c" if "c \<in> set (kind_token (pe_kind r))" for c
  proof -
    have "\<forall>k \<in> {Completion, Failure}. list_all codec_char (kind_token k)" by code_simp
    then show ?thesis using that by (cases "pe_kind r") (auto simp: list_all_iff)
  qed
  moreover have "codec_char c" if "c \<in> set (owner_encode (pe_owner r))" for c
    using that wf codec_chars_owner by (auto simp: result_wf_def)
  ultimately show ?thesis
    by (auto simp: list_all_iff result_encode_def codec_chars_nat intro!: codec_char_glob)
qed

section \<open>Notification claims\<close>

definition is_claimed :: "persisted_result \<Rightarrow> options \<Rightarrow> bool" where
  "is_claimed result opts = suffix (CHR ''|'' # result_encode result) (opt_value opts OPT_NOTIFIED)"

definition claimable :: "pane_read \<Rightarrow> persisted_result \<Rightarrow> u64 \<Rightarrow> options \<Rightarrow> bool" where
  "claimable observed result now opts =
     ((is_live (rd_projection observed now)
        \<and> (\<forall>k \<in> set PROJECTION_KEYS. opt_value opts k = rd_value observed k))
      \<and> (opt_value opts OPT_INVALIDATED \<noteq> result_encode result
        \<and> (opt_value opts OPT_STATE = ''idle'' \<and> opt_value opts OPT_ACK \<noteq> result_encode result))
      \<and> (opt_value opts OPT_ATTENTION = ''1'' \<and> \<not> is_claimed result opts))"

lemma means_claim:
  assumes "result_wf result"
  shows "means num (claim_predicate observed result now) (claimable observed result now)"
proof -
  have live: "means num (live_projection observed now) (\<lambda>opts. is_live (rd_projection observed now)
      \<and> (\<forall>k \<in> set PROJECTION_KEYS. opt_value opts k = rd_value observed k))"
    using means_cong [OF means_projection [of num observed]] means_cong [OF means_zero [of num]]
    by (auto simp: live_projection_def)
  show ?thesis
    unfolding claim_predicate_def claimable_def not_invalidated_def is_claimed_def
    by (intro means_and means_not means_equal live means_already result_glob assms) simp_all
qed

lemma io_bind_Inr: "io_bind m f s = (Inr x, s') \<longleftrightarrow> (\<exists>y s1. m s = (Inr y, s1) \<and> f y s1 = (Inr x, s'))"
  by (auto simp: io_bind_def split: prod.splits sum.splits)

lemma transaction_predicate_Inr:
  "transaction tx observed own_by g extra edits s = (Inr x, s')
     \<Longrightarrow> \<exists>q. ownership_predicate own_by observed = Inr q"
  by (cases "ownership_predicate own_by observed")
    (auto simp: transaction_def transaction_with_hint_def io_bind_Inr io_of_def transaction_predicate_def)

context pane_server
begin

lemma token_others: "fresh_token tx s = (r, s') \<Longrightarrow> others (opts_of s) (opts_of s')"
  using nonce_steps
  by (auto simp: fresh_token_def io_bind_def io_return_def io_fail_def split: prod.splits sum.splits option.splits)

lemma clock_others: "clock tx s = (r, s') \<Longrightarrow> others (opts_of s) (opts_of s')"
  using clock_steps by (auto simp: clock_def split: prod.splits)

definition claim_edits :: "token \<Rightarrow> persisted_result \<Rightarrow> u64 \<Rightarrow> option_edit list" where
  "claim_edits t result now =
     [edit_set OPT_NOTIFIED (claim_encode \<lparr>nc_token = t, nc_result = result\<rparr>),
      edit_set OPT_NOTIFIED_AT (show_nat now)]"

lemma claim_wonD:
  assumes "claim_notification tx observed result s = (Inr (Won r), s')"
  shows "\<exists>t now s1 s2. others (opts_of s) (opts_of s1)
    \<and> transaction tx observed (ExactResult result) Unconditional (claim_predicate observed result now)
        (claim_edits t result now) s1 = (Inr (Won r), s2)
    \<and> others (opts_of s2) (opts_of s')"
proof -
  obtain claim where "claim_notification_with_token tx observed result s = (Inr (Won r, claim), s')"
    using assms by (auto simp: claim_notification_def io_bind_Inr io_return_def)
  then obtain t sa now sb outcome sc where parts:
    "fresh_token tx s = (Inr t, sa)" "clock tx sa = (Inr now, sb)"
    "transaction tx observed (ExactResult result) Unconditional (claim_predicate observed result now)
       (claim_edits t result now) sb = (Inr outcome, sc)"
    "(if won outcome
      then io_bind (clock tx) (\<lambda>later. io_return
        (if is_live_of (pe_owner result) (rd_projection (winner outcome) later)
         then (outcome, \<lparr>nc_token = t, nc_result = result\<rparr>)
         else (Lost (winner outcome), \<lparr>nc_token = t, nc_result = result\<rparr>)))
      else io_return (outcome, \<lparr>nc_token = t, nc_result = result\<rparr>)) sc = (Inr (Won r, claim), s')"
    unfolding claim_notification_with_token_def Let_def io_bind_Inr claim_edits_def by blast
  have last: "outcome = Won r" "others (opts_of sc) (opts_of s')"
    using parts(4) clock_others
    by (cases "won outcome"; cases outcome; fastforce simp: io_bind_Inr io_return_def split: if_splits)+
  then show ?thesis
    using parts token_others clock_others others_trans by metis
qed

lemma claim_won_step:
  assumes "claim_notification tx observed result s = (Inr (Won r), s')" and fresh_receipts
  shows "\<exists>a b now. others (opts_of s) a \<and> claimable observed result now a \<and> others b (opts_of s')
    \<and> opt_value a OPT_OWNER = owner_encode (pe_owner result) \<and> opt_value a OPT_RESULT = result_encode result
    \<and> is_claimed result b"
proof -
  obtain t now s1 s2 where first: "others (opts_of s) (opts_of s1)"
    and run: "transaction tx observed (ExactResult result) Unconditional (claim_predicate observed result now)
        (claim_edits t result now) s1 = (Inr (Won r), s2)"
    and last: "others (opts_of s2) (opts_of s')"
    using claim_wonD [OF assms(1)] by blast
  have wf: "result_wf result"
    using transaction_predicate_Inr [OF run] by (auto simp: result_parse_Some split: if_splits)
  obtain a w c where step: "others (opts_of s1) a"
    "committable num (ExactResult result) observed Unconditional (claimable observed result now) a"
    "others (apply_edits (claim_edits t result now @ [receipt_edit w]) a) c" "others c (opts_of s2)"
    using transaction_won_step [OF run means_claim [OF wf] assms(2)] by blast
  have keys: "OPT_NOTIFIED \<noteq> OPT_RECEIPT" "OPT_NOTIFIED \<noteq> OPT_NOTIFIED_AT"
    by (simp_all add: private_opt_defs opt_defs)
  have "is_claimed result (apply_edits (claim_edits t result now @ [receipt_edit w]) a)"
    using keys by (simp add: is_claimed_def claim_edits_def receipt_edit_def edit_set_def opt_value_def
        claim_encode_def suffix_def)
  then show ?thesis
    using step first last others_trans unfolding committable_def by (metis (no_types, lifting) owned.simps(4))
qed

end













section \<open>Acknowledgement\<close>

text \<open>An own step of an acknowledgement: the observed result is still the stored one, idle and not
  withdrawn, and only its marker, the attention flag and the receipt are written.\<close>

definition acknowledge_step :: "persisted_result \<Rightarrow> options \<Rightarrow> options \<Rightarrow> bool" where
  "acknowledge_step result a b =
     (opt_value a OPT_OWNER = owner_encode (pe_owner result) \<and> opt_value a OPT_RESULT = result_encode result
      \<and> opt_value a OPT_STATE = ''idle'' \<and> opt_value a OPT_INVALIDATED \<noteq> result_encode result
      \<and> (opt_value a OPT_ATTENTION = ''1'' \<or> opt_value a OPT_ACK = result_encode result)
      \<and> b OPT_ACK \<in> {a OPT_ACK, Some (result_encode result)} \<and> b OPT_ATTENTION \<in> {a OPT_ATTENTION, None}
      \<and> (\<forall>k. k \<notin> {OPT_ACK, OPT_ATTENTION, OPT_RECEIPT} \<longrightarrow> b k = a k))"

lemma acknowledge_keys: "OPT_ACK \<noteq> OPT_ATTENTION" "OPT_ACK \<noteq> OPT_RECEIPT" "OPT_ATTENTION \<noteq> OPT_RECEIPT"
  by (simp_all add: private_opt_defs opt_defs)

definition acknowledgeable :: "persisted_result \<Rightarrow> options \<Rightarrow> bool" where
  "acknowledgeable result opts =
     (opt_value opts OPT_INVALIDATED \<noteq> result_encode result
      \<and> (opt_value opts OPT_STATE = ''idle'' \<and> opt_value opts OPT_ATTENTION = ''1''))"

lemma means_acknowledge:
  "means num (pred_and (not_invalidated result)
     (pred_and (pred_equal OPT_STATE ''idle'') (pred_equal OPT_ATTENTION ''1''))) (acknowledgeable result)"
  unfolding acknowledgeable_def not_invalidated_def by (intro means_and means_not means_equal) simp_all

context pane_server
begin

lemma guar_acknowledge_result:
  "guar (acknowledge_step result) (acknowledge_result tx observed result) (\<lambda>_. True)"
  unfolding acknowledge_result_def
proof (rule guar_transaction [OF means_acknowledge])
  fix a w
  assume c: "committable num (ExactResult result) observed Unconditional (acknowledgeable result) a"
  show "acknowledge_step result a (apply_edits (acknowledge_edits result @ [receipt_edit w]) a)"
    using c acknowledge_keys acknowledge_keys [symmetric]
    by (simp add: committable_def acknowledgeable_def acknowledge_step_def acknowledge_edits_def
        receipt_edit_def edit_set_def edit_unset_def)
qed

lemma guar_advisory_acknowledge:
  "guar (acknowledge_step result) (advisory_acknowledge tx observed result) (\<lambda>_. True)"
proof (cases "result_parse (result_encode result) = Some result")
  case False
  then show ?thesis
    by (auto simp: advisory_acknowledge_def io_bind_def io_of_def guar_def)
next
  case True
  define q where "q = pred_and (pred_equal OPT_OWNER (owner_encode (pe_owner result)))
      (pred_equal OPT_RESULT (result_encode result))"
  define p where "p = pred_and (not_invalidated result) (pred_and (pred_equal OPT_STATE ''idle'') q)"
  have m: "means num (pred_and p (pred_equal k v)) (\<lambda>opts. (opt_value opts OPT_INVALIDATED \<noteq> result_encode result
      \<and> (opt_value opts OPT_STATE = ''idle'' \<and> (opt_value opts OPT_OWNER = owner_encode (pe_owner result)
         \<and> opt_value opts OPT_RESULT = result_encode result))) \<and> opt_value opts k = v)"
    if "key_ok k" for k v
    unfolding p_def q_def not_invalidated_def using that
    by (intro means_and means_not means_equal) simp_all
  have first: "guar (acknowledge_step result) (apply_one tx pane (pred_and p (pred_equal OPT_ATTENTION ''1''))
      (edit_set OPT_ACK (result_encode result))) (\<lambda>_. True)" for pane
    using acknowledge_keys
    by (intro guar_apply_one [OF m]) (auto simp: acknowledge_step_def edit_set_def)
  have second: "guar (acknowledge_step result) (apply_one tx pane
      (pred_and p (pred_equal OPT_ACK (result_encode result))) (edit_unset OPT_ATTENTION)) (\<lambda>_. True)" for pane
    using acknowledge_keys
    by (intro guar_apply_one [OF m]) (auto simp: acknowledge_step_def edit_unset_def)
  have "ownership_predicate (ExactResult result) observed = Inr q" using True by (simp add: q_def)
  then have "advisory_acknowledge tx observed result = io_bind (io_of (Inr q)) (\<lambda>_.
      io_bind (apply_one tx (rd_target observed) (pred_and p (pred_equal OPT_ATTENTION ''1''))
        (edit_set OPT_ACK (result_encode result))) (\<lambda>_.
      io_bind (apply_one tx (rd_target observed) (pred_and p (pred_equal OPT_ACK (result_encode result)))
        (edit_unset OPT_ATTENTION)) (\<lambda>_. read_pane_with tx (rd_target observed) (acknowledge_edits result))))"
    by (simp add: advisory_acknowledge_def Let_def p_def io_bind_def io_of_def fun_eq_iff)
  then show ?thesis
    by (elim ssubst) (rule guar_bind [OF guar_of [where Q = "\<lambda>_. True"]], rule TrueI, rule guar_bind [OF first],
        rule guar_bind [OF second], rule guar_weaken [OF guar_read_pane_with], rule TrueI)
qed

end

text \<open>C27 (acknowledge_exact_result). Acknowledging an observed terminal result, by the grouped
  transaction or under yielding hooks, takes its own steps only while that very result is stored with
  its owner, idle and not invalidated, and only on a pane that shows attention or already holds the
  acknowledgement; it writes the acknowledgement, clears the attention flag and writes nothing else.
  A newer result is never consumed by a late acknowledgement.\<close>

theorem acknowledge_exact_result:
  assumes "pane_server expand num tx opts_of others run"
    and "as_identity seen = ObsResult result"
    and "acknowledge_observation tx seen s = (r, s')"
  shows "(\<lambda>a b. others a b \<or> acknowledge_step result a b)\<^sup>*\<^sup>* (opts_of s) (opts_of s')"
proof -
  have "pane_server.guar opts_of others (acknowledge_step result) (acknowledge_observation tx seen) (\<lambda>_. True)"
    unfolding acknowledge_observation_def assms(2) Let_def observation_identity.case
    by (intro pane_server.guar_unsupported [OF assms(1)] pane_server.guar_acknowledge_result [OF assms(1)]
        pane_server.guar_bind [OF assms(1) pane_server.guar_advisory_acknowledge [OF assms(1)]]
        pane_server.guar_return [OF assms(1)] TrueI)
  then show ?thesis
    using assms(3) unfolding pane_server.guar_def [OF assms(1)] pane_server.steps_def [OF assms(1)] by blast
qed

theorem acknowledge_exact_result_witness:
  "(\<lambda>a b. a = b \<or> acknowledge_step sample_result a b)\<^sup>*\<^sup>* (ps_options result_pane)
     (ps_options (snd (acknowledge_observation exec_tmux
        \<lparr>as_read = result_read, as_identity = ObsResult sample_result, as_episode_at = 1700000000000\<rparr>
        result_pane)))"
  by (rule acknowledge_exact_result [OF exec_server.pane_server_axioms _ surjective_pairing]) simp

end
