(* ===== verification/Pane_Lanes.thy ===== *)
theory Pane_Lanes
  imports Pane_Exec Persistence_Codecs
begin

text \<open>
  The own steps of the two lanes beside the state tuple: independently owned metadata, and the
  collector lease that gives programs their authority.
\<close>

section \<open>The metadata lane\<close>

text \<open>The match of \<open>apply_metadata_observation\<close> (\<open>tma-tmux/src/stamp.rs\<close>).\<close>

definition write_or_advise_metadata ::
  "'s tmux \<Rightarrow> pane_read \<Rightarrow> metadata_owner option \<Rightarrow> metadata_owner option \<Rightarrow> option_edit list
     \<Rightarrow> metadata_evidence option \<Rightarrow> ('s, unit) io" where
  "write_or_advise_metadata tx observed expected next_owner edits evidence =
     io_unsupported
       (io_bind (write_metadata_observation tx observed expected next_owner edits evidence)
          (\<lambda>_. io_return ()))
       (io_bind (advisory_metadata_observation tx observed expected next_owner edits evidence)
          (\<lambda>_. io_return ()))"

definition LANE_KEYS :: "string list" where
  "LANE_KEYS = METADATA_KEYS @ [OPT_METADATA_OWNER, OPT_METADATA_UPDATE, OPT_RECEIPT]"

definition metadata_step ::
  "metadata_owner option \<Rightarrow> metadata_owner option \<Rightarrow> options \<Rightarrow> options \<Rightarrow> bool" where
  "metadata_step expected next_owner a b =
     (opt_value a OPT_METADATA_OWNER \<in> {owner_text expected, owner_text next_owner}
      \<and> (\<forall>k. k \<notin> set LANE_KEYS \<longrightarrow> b k = a k))"

lemma metadata_key_ok [simp]: "key_ok (metadata_key ev)"
proof -
  have "key_ok OPT_CONTEXT_AT" "key_ok OPT_QUOTA_AT" by code_simp+
  then show ?thesis by (cases ev) simp_all
qed

lemma means_admission: "\<exists>P. means num (metadata_admission observed evidence) P"
proof (cases evidence)
  case None
  then show ?thesis using means_equal [of OPT_METADATA_UPDATE num] by (auto simp: metadata_admission_def Let_def)
next
  case (Some ev)
  have "\<exists>P. means num (pred_and (pred_equal OPT_METADATA_UPDATE u) (pred_equal (metadata_key ev) v)) P" for u v
    by (rule exI, rule means_and [OF means_equal means_equal]) simp_all
  then show ?thesis
    using Some means_zero [of num] by (auto simp: metadata_admission_def Let_def)
qed

lemma means_not_newer: "\<exists>P. means num (evidence_not_newer ev) P"
proof (rule exI, rule meansI)
  let ?f = "BinaryF OpOr (BinaryF OpEq (LookupF (metadata_key ev)) (PlainF []))
      (BinaryF OpLe (LookupF (metadata_key ev)) (PlainF (show_nat (metadata_at ev))))"
  show "print_format ?f = evidence_not_newer ev" by (simp add: evidence_not_newer_def pred_lookup_def)
  show "format_wf ?f" using plain_number by simp
  show "truthy (eval_format num opts ?f) = truthy (eval_format num opts ?f)" for opts ..
qed

context pane_server
begin

lemma guar_write_metadata:
  "guar (metadata_step expected next_owner)
     (write_metadata_observation tx observed expected next_owner edits evidence) (\<lambda>_. True)"
  unfolding write_metadata_observation_def
proof (rule guar_bind [OF guar_of], assumption, rule guar_bind [OF guar_token])
  fix u t
  assume "validate_metadata expected next_owner edits = Inr u"
  then have keys: "ed_key ` set edits \<subseteq> set METADATA_KEYS"
    by (auto simp: validate_metadata_def list_ex_iff split: if_splits)
  let ?es = "edits @ [owner_edit next_owner,
      edit_set OPT_METADATA_UPDATE (update_encode \<lparr>mu_token = t, mu_evidence = evidence\<rparr>)]"
  obtain E where E: "means num (metadata_admission observed evidence) E" using means_admission by blast
  have "metadata_step expected next_owner a (apply_edits (?es @ [receipt_edit w]) a)"
    if "committable num (MetadataExpected expected) observed Unconditional E a" for a w
  proof -
    have "ed_key ` set (?es @ [receipt_edit w]) \<subseteq> set LANE_KEYS"
      using keys by (auto simp: LANE_KEYS_def owner_edit_def receipt_edit_def edit_set_def edit_unset_def
          split: option.split)
    then have "apply_edits (?es @ [receipt_edit w]) a k = a k" if "k \<notin> set LANE_KEYS" for k
      using that by (intro apply_edits_other) blast
    then show ?thesis using that by (simp only: metadata_step_def committable_def owned.simps) simp
  qed
  then show "guar (metadata_step expected next_owner) (transaction tx observed (MetadataExpected expected)
      Unconditional (metadata_admission observed evidence) ?es) (\<lambda>_. True)"
    by (rule guar_transaction [OF E])
qed

lemma guar_lane_mutation:
  assumes "means num p P" and "\<And>a. P a \<Longrightarrow> opt_value a OPT_METADATA_OWNER \<in> {owner_text expected, owner_text next_owner}"
    and "ed_key e \<in> set LANE_KEYS"
  shows "guar (metadata_step expected next_owner) (apply_one tx pane p e) (\<lambda>_. True)"
  by (rule guar_apply_one [OF assms(1)]) (use assms(2,3) in \<open>auto simp: metadata_step_def\<close>)

lemma guar_advisory_metadata:
  "guar (metadata_step expected next_owner)
     (advisory_metadata_observation tx observed expected next_owner edits evidence) (\<lambda>_. True)"
  unfolding advisory_metadata_observation_def Let_def
proof (rule guar_bind [OF guar_of], assumption, rule guar_bind [OF guar_of [where Q = "\<lambda>_. True"]], rule TrueI,
    rule guar_bind [OF guar_token])
  fix u t
  assume "validate_metadata expected next_owner edits = Inr u"
  then have keys: "ed_key ` set edits \<subseteq> set METADATA_KEYS"
    by (auto simp: validate_metadata_def list_ex_iff split: if_splits)
  define upd where "upd = update_encode \<lparr>mu_token = t, mu_evidence = evidence\<rparr>"
  define receipt where "receipt = pred_equal OPT_RECEIPT (rd_value observed OPT_RECEIPT)"
  define claim where "claim = pred_and (pred_equal OPT_METADATA_UPDATE upd) receipt"
  define wants where "wants w = pred_equal OPT_METADATA_OWNER (owner_text w)" for w
  define bound where "bound = pred_and claim (wants next_owner)"
  define suffix_p where "suffix_p = (case evidence of None \<Rightarrow> bound | Some ev \<Rightarrow> pred_and bound (evidence_not_newer ev))"
  obtain A where A: "means num (metadata_admission observed evidence) A" using means_admission by blast
  have R: "means num receipt (\<lambda>a. opt_value a OPT_RECEIPT = rd_value observed OPT_RECEIPT)"
    unfolding receipt_def by (rule means_equal) simp
  define C where "C a \<longleftrightarrow> opt_value a OPT_METADATA_UPDATE = upd
      \<and> opt_value a OPT_RECEIPT = rd_value observed OPT_RECEIPT" for a
  have C: "means num claim C"
    unfolding claim_def C_def [abs_def] by (intro means_and [OF means_equal R]) simp
  have W: "means num (wants w) (\<lambda>a. opt_value a OPT_METADATA_OWNER = owner_text w)" for w
    unfolding wants_def by (rule means_equal) simp
  have B: "means num bound (\<lambda>a. C a \<and> opt_value a OPT_METADATA_OWNER = owner_text next_owner)"
    unfolding bound_def by (rule means_and [OF C W])
  obtain S where S: "means num suffix_p S" "\<And>a. S a \<Longrightarrow> opt_value a OPT_METADATA_OWNER = owner_text next_owner"
  proof (cases evidence)
    case None
    then have "means num suffix_p (\<lambda>a. C a \<and> opt_value a OPT_METADATA_OWNER = owner_text next_owner)"
      using B by (simp add: suffix_p_def)
    then show ?thesis by (rule that) simp
  next
    case (Some ev)
    obtain N where "means num (evidence_not_newer ev) N" using means_not_newer by blast
    then have "means num suffix_p (\<lambda>a. (C a \<and> opt_value a OPT_METADATA_OWNER = owner_text next_owner) \<and> N a)"
      using means_and [OF B] by (simp add: suffix_p_def Some)
    then show ?thesis by (rule that) simp
  qed
  have first: "guar (metadata_step expected next_owner) (apply_one tx pane
      (pred_and (metadata_admission observed evidence) (pred_and (wants expected) receipt))
      (edit_set OPT_METADATA_UPDATE upd)) (\<lambda>_. True)" for pane
    by (rule guar_lane_mutation [OF means_and [OF A means_and [OF W R]]]) (simp_all add: LANE_KEYS_def edit_set_def)
  have second: "guar (metadata_step expected next_owner) (apply_one tx pane
      (pred_and claim (wants expected)) (owner_edit next_owner)) (\<lambda>_. True)" for pane
    by (rule guar_lane_mutation [OF means_and [OF C W]])
      (simp_all add: LANE_KEYS_def owner_edit_def edit_set_def edit_unset_def split: option.split)
  have third: "guar (metadata_step expected next_owner) (io_each (apply_one tx pane suffix_p) edits) (\<lambda>_. True)" for pane
    by (intro guar_each guar_lane_mutation [OF S(1)]) (use S(2) keys in \<open>auto simp: LANE_KEYS_def\<close>)
  show "guar (metadata_step expected next_owner)
     (io_bind (apply_one tx (rd_target observed)
        (pred_and (metadata_admission observed evidence)
          (pred_and (pred_equal OPT_METADATA_OWNER (owner_text expected))
            (pred_equal OPT_RECEIPT (rd_value observed OPT_RECEIPT))))
        (edit_set OPT_METADATA_UPDATE (update_encode \<lparr>mu_token = t, mu_evidence = evidence\<rparr>)))
     (\<lambda>_. io_bind (apply_one tx (rd_target observed)
        (pred_and (pred_and (pred_equal OPT_METADATA_UPDATE (update_encode \<lparr>mu_token = t, mu_evidence = evidence\<rparr>))
            (pred_equal OPT_RECEIPT (rd_value observed OPT_RECEIPT)))
          (pred_equal OPT_METADATA_OWNER (owner_text expected)))
        (owner_edit next_owner))
     (\<lambda>_. io_bind (io_each (apply_one tx (rd_target observed)
        (case evidence of
           None \<Rightarrow> pred_and (pred_and (pred_equal OPT_METADATA_UPDATE (update_encode \<lparr>mu_token = t, mu_evidence = evidence\<rparr>))
               (pred_equal OPT_RECEIPT (rd_value observed OPT_RECEIPT)))
             (pred_equal OPT_METADATA_OWNER (owner_text next_owner))
         | Some ev \<Rightarrow> pred_and (pred_and (pred_and (pred_equal OPT_METADATA_UPDATE (update_encode \<lparr>mu_token = t, mu_evidence = evidence\<rparr>))
               (pred_equal OPT_RECEIPT (rd_value observed OPT_RECEIPT)))
             (pred_equal OPT_METADATA_OWNER (owner_text next_owner))) (evidence_not_newer ev))) edits)
     (\<lambda>_. read_pane_with tx (rd_target observed) edits)))) (\<lambda>_. True)"
    unfolding upd_def [symmetric] receipt_def [symmetric] claim_def [symmetric] wants_def [symmetric]
      bound_def [symmetric] suffix_p_def [symmetric]
    by (rule guar_bind [OF first], rule guar_bind [OF second], rule guar_bind [OF third],
        rule guar_weaken [OF guar_read_pane_with], rule TrueI)
qed

lemma guar_metadata:
  "guar (metadata_step expected next_owner)
     (write_or_advise_metadata tx observed expected next_owner edits evidence) (\<lambda>_. True)"
  unfolding write_or_advise_metadata_def
  by (intro guar_unsupported guar_bind [OF guar_write_metadata] guar_bind [OF guar_advisory_metadata]
      guar_return TrueI)

end

text \<open>The independent metadata lane never touches the state tuple or any private
  marker of program authority: every own step of a metadata update, grouped or mutation by mutation,
  changes registered metadata keys, its owner, its update claim and the receipt only, and is taken only
  while the stored metadata owner is the expected one or the one being bound.\<close>

theorem metadata_lane_frame:
  assumes "pane_server expand num tx opts_of others run"
    and "write_or_advise_metadata tx observed expected next_owner edits evidence s = (r, s')"
  shows "(\<lambda>a b. others a b \<or> metadata_step expected next_owner a b)\<^sup>*\<^sup>* (opts_of s) (opts_of s')"
  using pane_server.guar_metadata [OF assms(1)] assms(2)
  unfolding pane_server.guar_def [OF assms(1)] pane_server.steps_def [OF assms(1)] by blast

theorem metadata_lane_frame_witness:
  "(\<lambda>a b. a = b \<or> metadata_step None None a b)\<^sup>*\<^sup>* (ps_options empty_pane)
     (ps_options (snd (write_or_advise_metadata exec_tmux empty_read None None
        [edit_set OPT_CONTEXT_PCT ''40''] (Some (EvContext 1700000000000)) empty_pane)))"
  by (rule metadata_lane_frame [OF exec_server.pane_server_axioms surjective_pairing])

section \<open>The collector lease\<close>

text \<open>An own step on the lease: it writes the lease alone, and the lease it replaces is the caller's own or
  is not live at an epoch in \<open>T\<close>.\<close>

definition collector_step :: "(u64 \<Rightarrow> bool) \<Rightarrow> token \<Rightarrow> options \<Rightarrow> options \<Rightarrow> bool" where
  "collector_step T t a b =
     ((\<exists>v. b = a(OPT_COLLECTOR := v))
      \<and> (test_value (LeaseOf (token_str t)) (opt_value a OPT_COLLECTOR)
         \<or> (\<exists>now. T now \<and> \<not> is_some_and (lease_parse (opt_value a OPT_COLLECTOR)) (\<lambda>l. lease_live_at l now))))"

lemma lease_of_encoded: "test_value (LeaseOf (token_str (cl_token l))) (lease_encode l)"
proof -
  have "CHR '':'' \<notin> set (show_nat (cl_expires_at l))" by (auto dest: show_nat_set_digit)
  then show ?thesis
    by (auto simp: lease_encode_def list_all_iff dest: show_nat_set_digit)
qed

lemma means_lease:
  assumes "token_wf t"
  shows "means num (lease_of_token t) (\<lambda>opts. test_value (LeaseOf (token_str t)) (opt_value opts OPT_COLLECTOR))"
proof (rule meansI [of "TestF (LeaseOf (token_str t)) OPT_COLLECTOR"])
  have "list_all is_alnum (token_str t)"
    using assms by (auto simp: token_wf_def list_all_iff is_hex_def is_alnum_def is_lower_def)
  then show "format_wf (TestF (LeaseOf (token_str t)) OPT_COLLECTOR)" by simp
qed (simp_all add: lease_of_token_def pred_lookup_def)

lemma means_literal: "means num (bool_literal b) (\<lambda>_. b)"
  using means_one means_zero by (cases b) (simp_all add: bool_literal_def)

context pane_server
begin

lemma guar_read_collector: "guar G (read_collector tx pane) (\<lambda>_. True)"
  unfolding read_collector_def
  by (rule guar_bind [OF guar_format]) (auto split: option.split intro: guar_fail guar_return)

lemma guar_lease_operation:
  assumes p: "means num p P" and own: "\<And>a. P a \<Longrightarrow> G a (a(OPT_COLLECTOR := Some (lease_encode lease)))"
  shows "guar G (lease_operation tx pane p lease hookless) (\<lambda>_. True)"
proof -
  define q where "q = (if hookless then pred_and NO_HOOKS p else p)"
  obtain Q where Q: "means num q Q" "\<And>a. Q a \<Longrightarrow> P a"
    unfolding q_def using p means_and [OF means_no_hooks p] by (cases hookless) auto
  have "set_command (lease_command pane lease)"
    by (simp add: set_command_def lease_command_def argv_def)
  then have "truthy (expand a q) \<Longrightarrow>
      run (conditional_group pane q [lease_command pane lease]) a = a(OPT_COLLECTOR := Some (lease_encode lease))" for a
    by (subst run_group) (simp_all add: lease_command_def run_server_set)
  then have "own G (conditional_group pane q [lease_command pane lease])"
    unfolding own_def using run_skip own Q expand_means [OF Q(1)] by metis
  then have first: "guar G (tx_apply tx pane [conditional_group pane q [lease_command pane lease]]) (\<lambda>_. True)"
    by (intro guar_apply) simp
  have check: "guar G (if hookless then io_bind (tx_format tx pane NO_HOOKS)
      (\<lambda>v. if v \<noteq> ''1'' then io_fail PeUnsupported else io_return ()) else io_return ()) (\<lambda>_. True)"
    by (intro guar_if guar_bind [OF guar_format] guar_fail guar_return TrueI)
  show ?thesis
    unfolding lease_operation_def Let_def q_def [symmetric]
    by (rule guar_bind [OF first], rule guar_bind [OF guar_read_collector], rule guar_bind [OF check],
        rule guar_return, rule TrueI)
qed

lemma guar_acquire:
  assumes "\<And>s now s'. tx_clock tx s = (now, s') \<Longrightarrow> T now"
  shows "guar (collector_step T t) (acquire_collector tx pane t) (\<lambda>_. True)"
  unfolding acquire_collector_def Let_def
proof (rule guar_bind [OF guar_read_collector], rule guar_bind [OF guar_clock])
  show "T now" if "tx_clock tx s = (now, s')" for s now s' by (rule assms [OF that])
  fix current :: "string option" and now
  assume now: "T now"
  define text' where "text' = (case current of None \<Rightarrow> [] | Some v \<Rightarrow> v)"
  define eligible where "eligible \<longleftrightarrow> \<not> is_some_and (Option.bind current lease_parse) (\<lambda>l. lease_live_at l now)"
  have same: "is_some_and (Option.bind current lease_parse) f = is_some_and (lease_parse text') f" for f
    by (cases current) (auto simp: text'_def lease_parse_def)
  have m: "means num (pred_and (bool_literal eligible) (pred_equal OPT_COLLECTOR text'))
      (\<lambda>a. eligible \<and> opt_value a OPT_COLLECTOR = text')"
    by (intro means_and means_literal means_equal) simp
  show "guar (collector_step T t) (io_bind (lease_operation tx pane
      (pred_and (bool_literal (\<not> is_some_and (Option.bind current lease_parse) (\<lambda>l. lease_live_at l now)))
        (pred_equal OPT_COLLECTOR (case current of None \<Rightarrow> [] | Some v \<Rightarrow> v)))
      \<lparr>cl_token = t, cl_expires_at = sat_add now LEASE_DURATION_MS\<rparr> True)
     (\<lambda>outcome. io_bind (clock tx) (\<lambda>later. io_return (confirmed_live_lease outcome later)))) (\<lambda>_. True)"
    unfolding text'_def [symmetric] eligible_def [symmetric]
  proof (rule guar_bind [OF guar_lease_operation [OF m]])
    show "collector_step T t a (a(OPT_COLLECTOR := Some l))" if "eligible \<and> opt_value a OPT_COLLECTOR = text'" for a l
      using that now by (auto simp: collector_step_def eligible_def same)
    show "guar (collector_step T t) (io_bind (clock tx) (\<lambda>later. io_return (confirmed_live_lease outcome later)))
        (\<lambda>_. True)" for outcome
      by (rule guar_bind [OF guar_clock [where T = "\<lambda>_. True"]], rule TrueI, rule guar_return, rule TrueI)
  qed
qed

lemma guar_renew:
  "guar (collector_step T (cl_token previous)) (renew_collector tx pane previous) (\<lambda>_. True)"
  unfolding renew_collector_def Let_def
proof (rule guar_bind [OF guar_read_collector], rule guar_bind [OF guar_clock [where T = "\<lambda>_. True"]], rule TrueI)
  fix current :: "string option" and now
  define text' where "text' = (case current of None \<Rightarrow> [] | Some v \<Rightarrow> v)"
  have m: "means num (pred_and (bool_literal b)
        (pred_and (pred_equal OPT_COLLECTOR (lease_encode previous)) (pred_equal OPT_COLLECTOR text')))
      (\<lambda>a. b \<and> (opt_value a OPT_COLLECTOR = lease_encode previous \<and> opt_value a OPT_COLLECTOR = text'))" for b
    by (intro means_and means_literal means_equal) simp_all
  show "guar (collector_step T (cl_token previous)) (io_bind (lease_operation tx pane
      (pred_and (bool_literal (lease_live_at previous now))
        (pred_and (pred_equal OPT_COLLECTOR (lease_encode previous))
          (pred_equal OPT_COLLECTOR (case current of None \<Rightarrow> [] | Some v \<Rightarrow> v))))
      \<lparr>cl_token = cl_token previous, cl_expires_at = sat_add now LEASE_DURATION_MS\<rparr> True)
     (\<lambda>outcome. io_bind (clock tx) (\<lambda>completed. io_return
        (if lease_live_at previous completed then confirmed_live_lease outcome completed
         else (case outcome of LeaseWon l \<Rightarrow> LeaseLost l | LeaseLost l \<Rightarrow> LeaseLost l))))) (\<lambda>_. True)"
    unfolding text'_def [symmetric]
  proof (rule guar_bind [OF guar_lease_operation [OF m]])
    show "collector_step T (cl_token previous) a (a(OPT_COLLECTOR := Some l))"
      if "lease_live_at previous now
          \<and> (opt_value a OPT_COLLECTOR = lease_encode previous \<and> opt_value a OPT_COLLECTOR = text')" for a l
      using that lease_of_encoded [of previous] by (auto simp: collector_step_def simp del: test_value.simps)
    show "guar (collector_step T (cl_token previous)) (io_bind (clock tx) (\<lambda>completed. io_return
        (if lease_live_at previous completed then confirmed_live_lease outcome completed
         else (case outcome of LeaseWon l \<Rightarrow> LeaseLost l | LeaseLost l \<Rightarrow> LeaseLost l)))) (\<lambda>_. True)" for outcome
      by (rule guar_bind [OF guar_clock [where T = "\<lambda>_. True"]], rule TrueI, rule guar_return, rule TrueI)
  qed
qed

lemma guar_release:
  assumes "token_wf t"
  shows "guar (collector_step T t) (release_collector tx pane t) (\<lambda>_. True)"
  unfolding release_collector_def
  by (rule guar_lease_operation [OF means_lease [OF assms]])
    (auto simp: collector_step_def simp del: test_value.simps)

end



end
