(* ===== verification/Control_Decoder.thy ===== *)
theory Control_Decoder
  imports Program_Types
begin

text \<open>
  The incremental decoder of tmux's control mode (\<open>tma-tmux/src/control/decoder.rs\<close>): notification
  lines, pane output with its octal escapes, and command response blocks, one byte at a time and
  without retaining payload. An emission is an element of the list that a step returns. Definitions,
  and what a step can do.
\<close>

section \<open>The state\<close>

definition MAX_OUTPUT_HEADER :: nat where "MAX_OUTPUT_HEADER = 64"
definition MAX_HEADER :: nat where "MAX_HEADER = 1024"
definition MAX_COMMAND_HEADER :: nat where "MAX_COMMAND_HEADER = 96"
definition MAX_BLOCK_BYTES :: nat where "MAX_BLOCK_BYTES = 1024 * 1024"
definition MAX_BLOCK_LINES :: nat where "MAX_BLOCK_LINES = 4096"

datatype control_note = SessionsChanged | LifecycleNote | ExitNote

datatype decoded =
    DStart pane_id
  | DByte pane_id char
  | DEnd pane_id
  | DPause pane_id
  | DContinue pane_id
  | DGap "pane_id option" observation_gap
  | DFatal
  | DNote control_note

text \<open>An open octal escape is the number of its digits and their value.\<close>

datatype control_line =
    LHeader
  | LPayload pane_id "(nat \<times> nat) option"
  | LSkip
  | LBlockData
  | LPoisoned

type_synonym frame_key = "nat \<times> nat \<times> nat"

record decoder =
  dc_line :: control_line
  dc_header :: string
  dc_block :: "frame_key option"
  dc_block_bytes :: nat
  dc_block_lines :: nat
  dc_attached :: bool

definition decoder_new :: decoder where
  "decoder_new = \<lparr>dc_line = LHeader, dc_header = [], dc_block = None, dc_block_bytes = 0,
     dc_block_lines = 0, dc_attached = False\<rparr>"

section \<open>Header grammar\<close>

definition header_number :: "string \<Rightarrow> u64 option" where
  "header_number bytes =
     (if bytes = [] \<or> 20 < length bytes \<or> \<not> list_all is_digit bytes then None
      else parse_uint u64_max bytes)"

definition header_pane :: "string \<Rightarrow> pane_id option" where
  "header_pane bytes = (if valid_utf8 bytes then ok (pane_id_parse bytes) else None)"

definition words_of :: "string \<Rightarrow> string list" where
  "words_of header = split_on (CHR '' '') header"

definition header_frame :: "string \<Rightarrow> frame_key option" where
  "header_frame header =
     (case words_of header of
        [_, a, b, c] \<Rightarrow>
          Option.bind (header_number a) (\<lambda>x. Option.bind (header_number b) (\<lambda>y.
            Option.bind (header_number c) (\<lambda>z. Some (x, y, z))))
      | _ \<Rightarrow> None)"

definition COMMAND_TAGS :: "string list" where
  "COMMAND_TAGS = [''%begin '', ''%end '', ''%error '']"

definition LIFECYCLE_TAGS :: "string list" where
  "LIFECYCLE_TAGS = [''%window-add'', ''%window-close'', ''%window-pane-changed'', ''%window-renamed'',
     ''%layout-change'', ''%unlinked-window-add'', ''%unlinked-window-close'', ''%unlinked-window-renamed'',
     ''%pane-mode-changed'', ''%session-window-changed'']"

definition starts_with :: "string \<Rightarrow> string \<Rightarrow> bool" where
  "starts_with p s = (take (length p) s = p)"

section \<open>Steps\<close>

type_synonym decoder_step = "decoded list \<times> decoder"

definition decoder_fatal :: "decoder \<Rightarrow> decoder_step" where
  "decoder_fatal d = ([DGap None FramingLoss, DFatal], d\<lparr>dc_line := LPoisoned, dc_header := []\<rparr>)"

definition in_payload :: "pane_id \<Rightarrow> decoder \<Rightarrow> bool" where
  "in_payload pane d = (case dc_line d of LPayload p _ \<Rightarrow> p = pane | _ \<Rightarrow> False)"

text \<open>Whether the words before the payload announce output of a pane.\<close>

definition payload_pane :: "string \<Rightarrow> pane_id option" where
  "payload_pane header =
     (case words_of (butlast header) of
        tag # rest \<Rightarrow>
          if tag = ''%output'' then
            (case rest of [p] \<Rightarrow> header_pane p | _ \<Rightarrow> None)
          else if tag = ''%extended-output'' then
            (case rest of
               p # age # extra \<Rightarrow>
                 if header_number age \<noteq> None \<and> extra \<noteq> [] \<and> last extra = '':'' then header_pane p else None
             | _ \<Rightarrow> None)
          else None
      | [] \<Rightarrow> None)"

definition start_payload :: "decoder \<Rightarrow> decoder_step option" where
  "start_payload d =
     map_option (\<lambda>p. if \<not> dc_attached d then decoder_fatal d
                     else ([DStart p], d\<lparr>dc_line := LPayload p None\<rparr>))
       (payload_pane (dc_header d))"

definition complete_in_block :: "frame_key \<Rightarrow> decoder \<Rightarrow> decoder_step" where
  "complete_in_block expected d =
     (let d1 = d\<lparr>dc_block_lines := dc_block_lines d + 1\<rparr>;
          tag = hd (words_of (dc_header d))
      in if MAX_BLOCK_LINES < dc_block_lines d1 then decoder_fatal d1
         else if tag = ''%end'' \<or> tag = ''%error'' then
           (if header_frame (dc_header d) = Some expected
            then if \<not> dc_attached d \<and> tag = ''%error''
                 then ([DNote ExitNote], d1\<lparr>dc_block := None, dc_line := LPoisoned,
                        dc_block_bytes := 0, dc_block_lines := 0\<rparr>)
                 else ([], d1\<lparr>dc_block := None, dc_attached := True, dc_block_bytes := 0, dc_block_lines := 0\<rparr>)
            else decoder_fatal d1)
         else if tag = ''%begin'' then decoder_fatal d1
         else ([], d1))"

definition complete_notification :: "decoder \<Rightarrow> decoder_step" where
  "complete_notification d =
     (let words = words_of (dc_header d); tag = hd words in
      if tag = ''%begin'' then
        (case header_frame (dc_header d) of
           Some key \<Rightarrow> ([], d\<lparr>dc_block := Some key, dc_block_bytes := 0, dc_block_lines := 0\<rparr>)
         | None \<Rightarrow> decoder_fatal d)
      else if tag = ''%end'' \<or> tag = ''%error'' then decoder_fatal d
      else if tag = ''%output'' \<or> tag = ''%extended-output'' then ([DGap None MalformedTransport], d)
      else if tag = ''%pause'' \<or> tag = ''%continue'' then
        (case (case words of _ # p # _ \<Rightarrow> header_pane p | _ \<Rightarrow> None) of
           Some p \<Rightarrow> ([if tag = ''%pause'' then DPause p else DContinue p], d)
         | None \<Rightarrow> ([DGap None MalformedTransport], d))
      else if tag \<in> {''%sessions-changed'', ''%session-renamed'', ''%session-changed''}
      then ([DNote SessionsChanged], d)
      else if tag \<in> set LIFECYCLE_TAGS then ([DNote LifecycleNote], d)
      else if tag = ''%exit'' then ([DNote ExitNote], d\<lparr>dc_line := LPoisoned\<rparr>)
      else ([], d))"

definition complete_header :: "decoder \<Rightarrow> decoder_step" where
  "complete_header d =
     (case dc_block d of
        Some expected \<Rightarrow> complete_in_block expected d
      | None \<Rightarrow> complete_notification d)"

definition header_limit :: "decoder \<Rightarrow> nat" where
  "header_limit d =
     (if dc_block d \<noteq> None \<or> list_ex (\<lambda>p. starts_with p (dc_header d)) COMMAND_TAGS then MAX_COMMAND_HEADER
      else if starts_with ''%output '' (dc_header d) then MAX_OUTPUT_HEADER
      else MAX_HEADER)"

definition header_byte :: "char \<Rightarrow> decoder \<Rightarrow> decoder_step" where
  "header_byte c d =
     (if c = CHR 0x0A
      then (case complete_header d of (out, d1) \<Rightarrow> (out, d1\<lparr>dc_header := []\<rparr>))
      else
        let d1 = d\<lparr>dc_header := dc_header d @ [c]\<rparr> in
        if dc_block d \<noteq> None
           \<and> \<not> list_ex (\<lambda>p. starts_with (dc_header d1) p \<or> starts_with p (dc_header d1)) COMMAND_TAGS
        then ([], d1\<lparr>dc_header := [], dc_line := LBlockData\<rparr>)
        else if header_limit d1 < length (dc_header d1) then decoder_fatal d1
        else if dc_block d = None \<and> c = CHR '' ''
        then (case start_payload d1 of
                Some (out, d2) \<Rightarrow> (out, d2\<lparr>dc_header := []\<rparr>)
              | None \<Rightarrow> ([], d1))
        else ([], d1))"

definition octal_digit :: "char \<Rightarrow> bool" where
  "octal_digit c = (48 \<le> byte c \<and> byte c \<le> 55)"

definition payload_byte :: "bool \<Rightarrow> pane_id \<Rightarrow> (nat \<times> nat) option \<Rightarrow> char \<Rightarrow> decoder \<Rightarrow> decoder_step" where
  "payload_byte protocol p octal c d =
     (if c = CHR 0x0A
      then ((if protocol \<and> octal \<noteq> None then [DGap (Some p) MalformedTransport] else []) @ [DEnd p],
            d\<lparr>dc_line := LHeader\<rparr>)
      else if \<not> protocol then ([], d)
      else case octal of
        Some (digits, value) \<Rightarrow>
          if \<not> octal_digit c \<or> digits = 0 \<and> 51 < byte c
          then ([DGap (Some p) MalformedTransport, DEnd p], d\<lparr>dc_line := LSkip\<rparr>)
          else
            let value1 = value * 8 + (byte c - 48) in
            if digits + 1 = 3
            then ([DByte p (char_of (value1 mod 256))], d\<lparr>dc_line := LPayload p None\<rparr>)
            else ([], d\<lparr>dc_line := LPayload p (Some (digits + 1, value1))\<rparr>)
      | None \<Rightarrow>
          if c = CHR 0x5C then ([], d\<lparr>dc_line := LPayload p (Some (0, 0))\<rparr>)
          else ([DByte p c], d))"

definition block_data_byte :: "char \<Rightarrow> decoder \<Rightarrow> decoder_step" where
  "block_data_byte c d =
     (if c = CHR 0x0A
      then let d1 = d\<lparr>dc_block_lines := dc_block_lines d + 1\<rparr> in
           if MAX_BLOCK_LINES < dc_block_lines d1 then decoder_fatal d1 else ([], d1\<lparr>dc_line := LHeader\<rparr>)
      else ([], d))"

definition line_byte :: "bool \<Rightarrow> char \<Rightarrow> decoder \<Rightarrow> decoder_step" where
  "line_byte protocol c d =
     (case dc_line d of
        LPayload p octal \<Rightarrow> payload_byte protocol p octal c d
      | LSkip \<Rightarrow> ([], if c = CHR 0x0A then d\<lparr>dc_line := LHeader\<rparr> else d)
      | LBlockData \<Rightarrow> block_data_byte c d
      | LHeader \<Rightarrow> header_byte c d
      | LPoisoned \<Rightarrow> ([], d))"

definition decoder_byte :: "bool \<Rightarrow> char \<Rightarrow> decoder \<Rightarrow> decoder_step" where
  "decoder_byte protocol c d =
     (if dc_line d = LPoisoned then ([], d)
      else
        let d1 = (if dc_block d \<noteq> None then d\<lparr>dc_block_bytes := dc_block_bytes d + 1\<rparr> else d) in
        if dc_block d \<noteq> None \<and> MAX_BLOCK_BYTES < dc_block_bytes d1 then decoder_fatal d1
        else line_byte protocol c d1)"

fun decoder_feed :: "bool \<Rightarrow> string \<Rightarrow> decoder \<Rightarrow> decoder_step" where
  "decoder_feed protocol [] d = ([], d)"
| "decoder_feed protocol (c # cs) d =
     (case decoder_byte protocol c d of
        (out, d1) \<Rightarrow> (case decoder_feed protocol cs d1 of (rest, d2) \<Rightarrow> (out @ rest, d2)))"

definition decoder_finish :: "decoder \<Rightarrow> decoder_step" where
  "decoder_finish d = ([DGap None Disconnected], d\<lparr>dc_line := LPoisoned, dc_header := []\<rparr>)"

end
