(* ===== verification/Control_Properties.thy ===== *)
theory Control_Properties
  imports Control_Decoder
begin

text \<open>
  What the control decoder guarantees for any input: its memory is bounded, what it emits for a pane is
  bracketed, pane output reaches its consumer byte by byte whatever the escapes, and no output is
  trusted before the attach response was seen.
\<close>

section \<open>The invariant\<close>

lemma MAX_HEADERS [simp]:
  "MAX_OUTPUT_HEADER \<le> MAX_HEADER" "MAX_COMMAND_HEADER \<le> MAX_HEADER" "header_limit d \<le> MAX_HEADER"
  by (simp_all add: MAX_OUTPUT_HEADER_def MAX_COMMAND_HEADER_def MAX_HEADER_def header_limit_def)

text \<open>The state between two bytes: no payload before the attach or inside a block, block data only
  inside a block, the header empty outside header lines, and every buffer and counter bounded.\<close>

definition decoder_ok :: "decoder \<Rightarrow> bool" where
  "decoder_ok d =
     ((case dc_line d of
         LPayload p octal \<Rightarrow> dc_block d = None \<and> dc_attached d
           \<and> (case octal of None \<Rightarrow> True | Some (n, v) \<Rightarrow> n = 0 \<and> v = 0 \<or> n = 1 \<and> v < 4 \<or> n = 2 \<and> v < 32)
       | LBlockData \<Rightarrow> dc_block d \<noteq> None
       | LSkip \<Rightarrow> dc_block d = None
       | _ \<Rightarrow> True)
      \<and> (dc_line d \<noteq> LHeader \<longrightarrow> dc_header d = [])
      \<and> length (dc_header d) \<le> MAX_HEADER
      \<and> (dc_line d \<noteq> LPoisoned \<longrightarrow> dc_block_bytes d \<le> MAX_BLOCK_BYTES \<and> dc_block_lines d \<le> MAX_BLOCK_LINES)
      \<and> dc_block_bytes d \<le> MAX_BLOCK_BYTES + 1 \<and> dc_block_lines d \<le> MAX_BLOCK_LINES + 1)"

lemma decoder_ok_new: "decoder_ok decoder_new"
  by (simp add: decoder_ok_def decoder_new_def)

definition line_open :: "decoder \<Rightarrow> pane_id option" where
  "line_open d = (case dc_line d of LPayload p _ \<Rightarrow> Some p | _ \<Rightarrow> None)"

text \<open>A monitor of the emissions: bytes, ends and gaps of a pane occur between its start and its end
  only, and nothing else occurs there.\<close>

fun bracket :: "pane_id option \<Rightarrow> decoded \<Rightarrow> pane_id option option" where
  "bracket None (DStart p) = Some (Some p)"
| "bracket None (DByte p c) = None"
| "bracket None (DEnd p) = None"
| "bracket None (DGap (Some p) g) = None"
| "bracket None _ = Some None"
| "bracket (Some p) (DByte q c) = (if q = p then Some (Some p) else None)"
| "bracket (Some p) (DGap (Some q) g) = (if q = p then Some (Some p) else None)"
| "bracket (Some p) (DEnd q) = (if q = p then Some None else None)"
| "bracket (Some p) _ = None"

fun brackets :: "pane_id option \<Rightarrow> decoded list \<Rightarrow> pane_id option option" where
  "brackets open [] = Some open"
| "brackets open (x # xs) = Option.bind (bracket open x) (\<lambda>open1. brackets open1 xs)"

lemma brackets_append: "brackets a (xs @ ys) = Option.bind (brackets a xs) (\<lambda>b. brackets b ys)"
  by (induction xs arbitrary: a) (auto simp: bind_Some_iff split: Option.bind_splits)

text \<open>A good step keeps the invariant and the bracket structure.\<close>

definition good_step :: "decoder \<Rightarrow> decoder_step \<Rightarrow> bool" where
  "good_step d r = (decoder_ok (snd r) \<and> brackets (line_open d) (fst r) = Some (line_open (snd r)))"

lemma good_fatal:
  assumes "line_open d = None" and "dc_block_bytes e \<le> MAX_BLOCK_BYTES + 1"
    and "dc_block_lines e \<le> MAX_BLOCK_LINES + 1"
  shows "good_step d (decoder_fatal e)"
  using assms by (simp add: good_step_def decoder_fatal_def decoder_ok_def line_open_def)

lemma good_payload:
  assumes "decoder_ok d" and "dc_line d = LPayload p octal"
  shows "good_step d (payload_byte protocol p octal c d)"
proof (cases octal)
  case None
  then show ?thesis
    using assms by (simp add: good_step_def payload_byte_def decoder_ok_def line_open_def)
next
  case (Some nv)
  obtain n v where nv: "octal = Some (n, v)" using Some by (cases nv) simp
  then have "n = 0 \<and> v = 0 \<or> n = 1 \<and> v < 4 \<or> n = 2 \<and> v < 32"
    using assms by (simp add: decoder_ok_def)
  then show ?thesis
    using assms nv
    by (auto simp: good_step_def payload_byte_def decoder_ok_def line_open_def Let_def octal_digit_def)
qed

text \<open>A step that leaves a header line at its end.\<close>

lemma good_line_end:
  assumes "line_open d = None" and "brackets None out = Some None"
    and "dc_line e = LHeader \<or> dc_line e = LPoisoned"
    and "dc_block_bytes e \<le> MAX_BLOCK_BYTES + 1" and "dc_block_lines e \<le> MAX_BLOCK_LINES + 1"
    and "dc_line e = LHeader \<Longrightarrow> dc_block_bytes e \<le> MAX_BLOCK_BYTES \<and> dc_block_lines e \<le> MAX_BLOCK_LINES"
  shows "good_step d (out, e\<lparr>dc_header := []\<rparr>)"
  using assms by (auto simp: good_step_def decoder_ok_def line_open_def)

lemma good_block_data:
  assumes "decoder_ok d" and "dc_line d = LBlockData"
  shows "good_step d (block_data_byte c d)"
proof -
  let ?d = "d\<lparr>dc_block_lines := dc_block_lines d + 1\<rparr>"
  have "good_step d (decoder_fatal ?d)"
    by (rule good_fatal) (use assms in \<open>simp_all add: line_open_def decoder_ok_def\<close>)
  moreover have "good_step d ([], ?d\<lparr>dc_line := LHeader\<rparr>)" if "\<not> MAX_BLOCK_LINES < dc_block_lines ?d"
    using that assms by (simp add: good_step_def decoder_ok_def line_open_def)
  moreover have "good_step d ([], d)" using assms by (simp add: good_step_def)
  ultimately show ?thesis unfolding block_data_byte_def Let_def by simp
qed

lemma good_in_block:
  assumes "decoder_ok d" and "dc_line d = LHeader"
  shows "good_step d (case complete_in_block key d of (out, d1) \<Rightarrow> (out, d1\<lparr>dc_header := []\<rparr>))"
proof -
  have open_line: "line_open d = None" using assms by (simp add: line_open_def)
  have bounds: "dc_block_bytes d \<le> MAX_BLOCK_BYTES" "dc_block_lines d \<le> MAX_BLOCK_LINES"
    using assms by (simp_all add: decoder_ok_def)
  obtain out e where e: "complete_in_block key d = (out, e)" by fastforce
  have "brackets None out = Some None \<and> (dc_line e = LHeader \<or> dc_line e = LPoisoned)
      \<and> dc_block_bytes e \<le> MAX_BLOCK_BYTES + 1 \<and> dc_block_lines e \<le> MAX_BLOCK_LINES + 1
      \<and> (dc_line e = LHeader \<longrightarrow> dc_block_bytes e \<le> MAX_BLOCK_BYTES \<and> dc_block_lines e \<le> MAX_BLOCK_LINES)"
    using e bounds assms(2)
    by (simp add: complete_in_block_def Let_def decoder_fatal_def split: if_split_asm) auto
  then show ?thesis using good_line_end [OF open_line, of out e] e by simp
qed

lemma good_notification:
  assumes "decoder_ok d" and "dc_line d = LHeader"
  shows "good_step d (case complete_notification d of (out, d1) \<Rightarrow> (out, d1\<lparr>dc_header := []\<rparr>))"
proof -
  have open_line: "line_open d = None" using assms by (simp add: line_open_def)
  have bounds: "dc_block_bytes d \<le> MAX_BLOCK_BYTES" "dc_block_lines d \<le> MAX_BLOCK_LINES"
    using assms by (simp_all add: decoder_ok_def)
  obtain out e where e: "complete_notification d = (out, e)" by fastforce
  have "brackets None out = Some None \<and> (dc_line e = LHeader \<or> dc_line e = LPoisoned)
      \<and> dc_block_bytes e \<le> MAX_BLOCK_BYTES \<and> dc_block_lines e \<le> MAX_BLOCK_LINES"
    using e bounds assms(2)
    by (simp add: complete_notification_def Let_def decoder_fatal_def split: if_split_asm option.split_asm) auto
  then show ?thesis using good_line_end [OF open_line, of out e] e by simp
qed

lemma good_header:
  assumes "decoder_ok d" and "dc_line d = LHeader"
  shows "good_step d (header_byte c d)"
proof (cases "c = CHR 0x0A")
  case True
  then show ?thesis
    using good_in_block [OF assms] good_notification [OF assms]
    by (simp add: header_byte_def complete_header_def split: option.split)
next
  case False
  let ?d = "d\<lparr>dc_header := dc_header d @ [c]\<rparr>"
  have open_header: "line_open d = None" using assms by (simp add: line_open_def)
  have bounds: "dc_block_bytes d \<le> MAX_BLOCK_BYTES" "dc_block_lines d \<le> MAX_BLOCK_LINES"
    using assms by (simp_all add: decoder_ok_def)
  have plain: "good_step d ([], ?d)" if "length (dc_header ?d) \<le> header_limit ?d"
    using that assms open_header le_trans [OF that MAX_HEADERS(3)]
    by (simp add: good_step_def decoder_ok_def line_open_def)
  moreover have "good_step d (decoder_fatal ?d)"
    using good_fatal [OF open_header, of ?d] bounds by simp
  moreover have "good_step d (out, e\<lparr>dc_header := []\<rparr>)"
    if "start_payload ?d = Some (out, e)" "dc_block d = None" for out e
    using that assms by (auto simp: start_payload_def good_step_def decoder_ok_def line_open_def decoder_fatal_def
        split: if_splits)
  ultimately show ?thesis
    using False assms
    by (auto simp: header_byte_def Let_def good_step_def [of d "([], d\<lparr>dc_header := [], dc_line := LBlockData\<rparr>)"]
        decoder_ok_def line_open_def not_less split: option.split)
qed

lemma good_byte:
  assumes "decoder_ok d"
  shows "good_step d (decoder_byte protocol c d)"
proof (cases "dc_line d = LPoisoned")
  case True
  then show ?thesis using assms by (simp add: decoder_byte_def good_step_def)
next
  case False
  define e where "e = (if dc_block d \<noteq> None then d\<lparr>dc_block_bytes := dc_block_bytes d + 1\<rparr> else d)"
  have byte_is: "decoder_byte protocol c d =
      (if dc_block d \<noteq> None \<and> MAX_BLOCK_BYTES < dc_block_bytes e then decoder_fatal e else line_byte protocol c e)"
    using False by (simp only: decoder_byte_def e_def Let_def if_False)
  have same: "line_open e = line_open d" by (simp add: line_open_def e_def)
  show ?thesis
  proof (cases "dc_block d \<noteq> None \<and> MAX_BLOCK_BYTES < dc_block_bytes e")
    case True
    then have "line_open d = None"
      using assms by (auto simp: decoder_ok_def line_open_def split: control_line.split)
    moreover have "dc_block_bytes e \<le> MAX_BLOCK_BYTES + 1" "dc_block_lines e \<le> MAX_BLOCK_LINES + 1"
      using assms False by (auto simp: decoder_ok_def e_def)
    ultimately show ?thesis
      unfolding byte_is using True good_fatal [of d e] by simp
  next
    case inside: False
    then have ok: "decoder_ok e"
      using assms False by (auto simp: decoder_ok_def e_def split: control_line.splits)
    have "good_step e (line_byte protocol c e)"
      using ok good_payload [OF ok] good_block_data [OF ok] good_header [OF ok]
      by (auto simp: line_byte_def good_step_def [of _ "([], _)"] decoder_ok_def line_open_def
          split: control_line.split)
    then show ?thesis
      unfolding byte_is good_step_def using inside same by (simp only: if_False)
  qed
qed

lemma feed_append:
  "decoder_feed pr (xs @ ys) d =
     (case decoder_feed pr xs d of (a, e) \<Rightarrow> (case decoder_feed pr ys e of (b, f) \<Rightarrow> (a @ b, f)))"
  by (induction xs arbitrary: d) (simp_all split: prod.split)

lemma good_feed:
  "decoder_ok d \<Longrightarrow> good_step d (decoder_feed pr cs d)"
proof (induction cs arbitrary: d)
  case Nil
  then show ?case by (simp add: good_step_def)
next
  case (Cons c cs)
  obtain out e where e: "decoder_byte pr c d = (out, e)" by fastforce
  obtain rest f where f: "decoder_feed pr cs e = (rest, f)" by fastforce
  from e good_byte [OF Cons.prems, of pr c] have "decoder_ok e" "brackets (line_open d) out = Some (line_open e)"
    by (simp_all add: good_step_def)
  with Cons.IH [of e] e f show ?case by (simp add: good_step_def brackets_append)
qed


section \<open>Pane output\<close>

text \<open>What tmux may write for a payload: a byte as it is, unless it is a backslash or a line feed, or a
  backslash and three octal digits.\<close>

definition octal_text :: "char \<Rightarrow> string" where
  "octal_text c = [CHR 0x5C, char_of (48 + byte c div 64), char_of (48 + byte c div 8 mod 8), char_of (48 + byte c mod 8)]"

inductive escaped :: "string \<Rightarrow> string \<Rightarrow> bool" where
  escaped_Nil: "escaped [] []"
| escaped_plain: "c \<noteq> CHR 0x5C \<Longrightarrow> c \<noteq> CHR 0x0A \<Longrightarrow> escaped w bs \<Longrightarrow> escaped (c # w) (c # bs)"
| escaped_octal: "escaped w bs \<Longrightarrow> escaped (octal_text c @ w) (c # bs)"

text \<open>The documented choice: control bytes and the backslash are escaped.\<close>

definition escape_text :: "string \<Rightarrow> string" where
  "escape_text bs = concat (map (\<lambda>c. if byte c < 32 \<or> c = CHR 0x5C then octal_text c else [c]) bs)"

lemma escaped_escape_text: "escaped (escape_text bs) bs"
proof (induction bs)
  case Nil
  then show ?case by (simp add: escape_text_def escaped_Nil)
next
  case (Cons c bs)
  have "c \<noteq> CHR 0x0A" if "\<not> byte c < 32" using that by (auto simp: byte_def)
  with Cons show ?case
    by (auto simp: escape_text_def intro: escaped_octal escaped_plain)
qed

lemma payload_octal:
  assumes "dc_line d = LPayload p None" and "dc_block d = None"
  shows "decoder_feed True (octal_text c) d = ([DByte p c], d)"
proof -
  have bounds: "byte c div 64 < 4" "byte c div 8 mod 8 < 8" "byte c mod 8 < 8"
    using less_mult_imp_div_less [of "byte c" 4 64] byte_less [of c] by simp_all
  have digit: "byte (char_of (48 + n)) = 48 + n" if "n < 8" for n :: nat
    using that by (simp add: byte_def)
  have nl: "char_of (48 + n) \<noteq> CHR 0x0A" if "n < 8" for n :: nat
  proof
    assume "char_of (48 + n) = CHR 0x0A"
    then have "byte (char_of (48 + n)) = byte (CHR 0x0A)" by (rule arg_cong)
    also have "byte (CHR 0x0A) = 10" by (simp add: byte_def)
    finally show False using digit [OF that] by simp
  qed
  have "(byte c div 64 * 8 + byte c div 8 mod 8) * 8 + byte c mod 8 = byte c"
    using div_mult_mod_eq [of "byte c" 8] div_mult_mod_eq [of "byte c div 8" 8]
    by (simp add: div_mult2_eq [symmetric])
  moreover have "d\<lparr>dc_line := LPayload p None\<rparr> = d" using assms(1) by simp
  moreover have "char_of (byte c) = c" by (simp add: byte_def)
  moreover have "byte c div 64 < 8" using bounds by simp
  moreover have "byte c div 8 mod 8 \<le> 7" "byte c mod 8 \<le> 7"
    by (simp_all add: less_Suc_eq_le [symmetric])
  ultimately show ?thesis
    using assms bounds
    by (simp add: octal_text_def decoder_byte_def line_byte_def payload_byte_def octal_digit_def Let_def digit nl)
      (simp add: less_Suc_eq_le [symmetric])
qed

lemma payload_escaped:
  assumes "escaped w bs" and "dc_line d = LPayload p None" and "dc_block d = None"
  shows "decoder_feed True w d = (map (DByte p) bs, d)"
  using assms
proof (induction)
  case escaped_Nil
  then show ?case by simp
next
  case (escaped_plain c w bs)
  then show ?case by (simp add: decoder_byte_def line_byte_def payload_byte_def)
next
  case (escaped_octal w bs c)
  then show ?case by (simp add: feed_append payload_octal)
qed

lemma header_run:
  assumes "dc_line d = LHeader" and "dc_block d = None" and "CHR 0x0A \<notin> set cs" and "CHR '' '' \<notin> set cs"
    and "length (dc_header d) + length cs \<le> MAX_OUTPUT_HEADER"
  shows "decoder_feed pr cs d = ([], d\<lparr>dc_header := dc_header d @ cs\<rparr>)"
  using assms
proof (induction cs arbitrary: d)
  case Nil
  then show ?case by simp
next
  case (Cons c cs)
  let ?d = "d\<lparr>dc_header := dc_header d @ [c]\<rparr>"
  have "\<not> header_limit ?d < length (dc_header ?d)"
    using Cons.prems by (auto simp: header_limit_def MAX_OUTPUT_HEADER_def MAX_COMMAND_HEADER_def MAX_HEADER_def)
  then have "decoder_byte pr c d = ([], ?d)"
    using Cons.prems by (auto simp: decoder_byte_def line_byte_def header_byte_def Let_def)
  with Cons.IH [of ?d] Cons.prems show ?case by simp
qed

lemma header_pane_show: "p \<le> u32_max \<Longrightarrow> header_pane (pane_id_show p) = Some p"
proof -
  assume p: "p \<le> u32_max"
  have "list_all (\<lambda>c. byte c < 128) (pane_id_show p)"
    by (auto simp: pane_id_show_def list_all_iff byte_def dest: show_nat_set_digit) (auto simp: is_digit_def byte_def dest: show_nat_set_digit)
  then have "valid_utf8 (pane_id_show p)" by (simp add: valid_utf8_def utf8_decode_ascii)
  then show ?thesis using p by (simp add: header_pane_def)
qed

lemma payload_start:
  assumes "dc_line d = LHeader" and "dc_header d = []" and "dc_block d = None" and "dc_attached d" and "p \<le> u32_max"
  shows "decoder_feed pr (''%output '' @ pane_id_show p @ '' '') d = ([DStart p], d\<lparr>dc_line := LPayload p None\<rparr>)"
proof -
  let ?head = "''%output '' @ pane_id_show p"
  have sep: "CHR '' '' \<notin> set (pane_id_show p)" "CHR 0x0A \<notin> set (pane_id_show p)"
    by (auto simp: pane_id_show_def is_digit_def byte_def dest: show_nat_set_digit)
  have len: "length (pane_id_show p) \<le> 11" using assms(5) show_nat_length_10 [of p 10] by (simp add: pane_id_show_def u32_max_def)
  have first: "decoder_feed pr ''%output'' d = ([], d\<lparr>dc_header := ''%output''\<rparr>)"
    using header_run [of d "''%output''"] assms by (simp add: MAX_OUTPUT_HEADER_def)
  have space: "decoder_feed pr '' '' (d\<lparr>dc_header := ''%output''\<rparr>) = ([], d\<lparr>dc_header := ''%output ''\<rparr>)"
    using assms by (simp add: decoder_byte_def line_byte_def header_byte_def Let_def header_limit_def COMMAND_TAGS_def
        starts_with_def start_payload_def payload_pane_def words_of_def MAX_OUTPUT_HEADER_def)
  have pane: "decoder_feed pr (pane_id_show p) (d\<lparr>dc_header := ''%output ''\<rparr>) = ([], d\<lparr>dc_header := ?head\<rparr>)"
    using header_run [of "d\<lparr>dc_header := ''%output ''\<rparr>" "pane_id_show p"] assms sep len
    by (simp add: MAX_OUTPUT_HEADER_def)
  have words: "words_of (butlast (?head @ '' '')) = [''%output'', pane_id_show p]"
  proof -
    have "words_of (''%output'' @ CHR '' '' # pane_id_show p) = [''%output'', pane_id_show p]"
      unfolding words_of_def using sep by (subst split_on_append) simp_all
    then show ?thesis by simp
  qed
  have "\<not> header_limit (d\<lparr>dc_header := ?head @ '' ''\<rparr>) < length (?head @ '' '')"
    using assms len by (simp add: header_limit_def COMMAND_TAGS_def starts_with_def MAX_OUTPUT_HEADER_def)
  moreover have "payload_pane (?head @ '' '') = Some p"
    using words header_pane_show [OF assms(5)] by (simp add: payload_pane_def)
  ultimately have last_byte: "decoder_feed pr '' '' (d\<lparr>dc_header := ?head\<rparr>) = ([DStart p], d\<lparr>dc_line := LPayload p None\<rparr>)"
    using assms by (simp add: decoder_byte_def line_byte_def header_byte_def Let_def start_payload_def)
  have "''%output '' @ pane_id_show p @ '' '' = ''%output'' @ '' '' @ pane_id_show p @ '' ''" by simp
  then show ?thesis
    using first space pane last_byte by (simp only: feed_append prod.case append_Nil)
qed

lemma output_line:
  assumes "escaped w bs" and "dc_line d = LHeader" and "dc_header d = []" and "dc_block d = None"
    and "dc_attached d" and "p \<le> u32_max"
  shows "decoder_feed True ((''%output '' @ pane_id_show p @ '' '') @ w @ [CHR 0x0A]) d
    = (DStart p # map (DByte p) bs @ [DEnd p], d)"
proof -
  let ?d = "d\<lparr>dc_line := LPayload p None\<rparr>"
  have "decoder_feed True [CHR 0x0A] ?d = ([DEnd p], d)"
    using assms by (simp add: decoder_byte_def line_byte_def payload_byte_def)
  moreover have "decoder_feed True w ?d = (map (DByte p) bs, ?d)"
    by (rule payload_escaped) (use assms in simp_all)
  ultimately show ?thesis
    by (subst feed_append, subst payload_start [OF assms(2-6)], simp only: prod.case, subst feed_append) simp
qed


section \<open>The attach handshake\<close>

definition line_start :: "string \<Rightarrow> bool" where
  "line_start s = (s = [] \<or> last s = CHR 0x0A)"

text \<open>A command block was opened with a frame in the input; a block was answered completely.\<close>

definition block_opened :: "string \<Rightarrow> frame_key \<Rightarrow> bool" where
  "block_opened input key =
     (\<exists>before opening rest. input = before @ opening @ CHR 0x0A # rest \<and> line_start before
        \<and> hd (words_of opening) = ''%begin'' \<and> header_frame opening = Some key)"

definition block_answered :: "string \<Rightarrow> bool" where
  "block_answered input =
     (\<exists>key before closing rest. input = before @ closing @ CHR 0x0A # rest \<and> line_start before
        \<and> block_opened before key \<and> hd (words_of closing) \<in> {''%end'', ''%error''}
        \<and> header_frame closing = Some key)"

lemma block_opened_snoc: "block_opened input key \<Longrightarrow> block_opened (input @ rest) key"
  unfolding block_opened_def by (metis append.assoc append_Cons)

lemma block_answered_snoc: "block_answered input \<Longrightarrow> block_answered (input @ rest)"
  unfolding block_answered_def by (metis append.assoc append_Cons)

text \<open>What the state says of the input read so far.\<close>

definition heard :: "string \<Rightarrow> decoder \<Rightarrow> bool" where
  "heard input d =
     ((dc_line d = LHeader \<longrightarrow> (\<exists>before. input = before @ dc_header d \<and> line_start before
         \<and> is_none_or (dc_block d) (block_opened before)))
      \<and> is_none_or (dc_block d) (block_opened input)
      \<and> (dc_attached d \<longrightarrow> block_answered input))"

lemma heard_new: "heard [] decoder_new"
  by (simp add: heard_def decoder_new_def line_start_def)

lemma heard_line_end:
  assumes "is_none_or (dc_block d) (block_opened (input @ [CHR 0x0A]))"
    and "dc_attached d \<Longrightarrow> block_answered (input @ [CHR 0x0A])" and "dc_header d = []"
  shows "heard (input @ [CHR 0x0A]) d"
  using assms by (auto simp: heard_def line_start_def)

lemma heard_other:
  assumes "heard input d" and "dc_line e \<noteq> LHeader" and "dc_block e = dc_block d" and "dc_attached e = dc_attached d"
  shows "heard (input @ [c]) e"
  using assms by (auto simp: heard_def is_none_or_def block_opened_snoc block_answered_snoc split: option.splits)

lemma heard_poisoned:
  "heard input d \<Longrightarrow> dc_line e = LPoisoned \<Longrightarrow> dc_block e \<in> {None, dc_block d} \<Longrightarrow> dc_attached e = dc_attached d
     \<Longrightarrow> heard (input @ [c]) e"
  by (auto simp: heard_def is_none_or_def block_opened_snoc block_answered_snoc split: option.splits)

lemma heard_complete:
  assumes "heard input d" and "dc_line d = LHeader" and "complete_header d = (out, e)"
  shows "heard (input @ [CHR 0x0A]) (e\<lparr>dc_header := []\<rparr>)"
proof -
  obtain before where before: "input = before @ dc_header d" "line_start before"
    "is_none_or (dc_block d) (block_opened before)"
    using assms(1,2) by (auto simp: heard_def)
  have line: "input @ [CHR 0x0A] = before @ dc_header d @ CHR 0x0A # []" using before(1) by simp
  have kept: "is_none_or (dc_block d) (block_opened (input @ [CHR 0x0A]))"
    "dc_attached d \<Longrightarrow> block_answered (input @ [CHR 0x0A])"
    using assms(1) by (auto simp: heard_def is_none_or_def block_opened_snoc block_answered_snoc split: option.splits)
  show ?thesis
  proof (rule heard_line_end)
    show "is_none_or (dc_block (e\<lparr>dc_header := []\<rparr>)) (block_opened (input @ [CHR 0x0A]))"
    proof (cases "dc_block d")
      case None
      have "block_opened (input @ [CHR 0x0A]) key" if "dc_block e = Some key" for key
      proof -
        have "hd (words_of (dc_header d)) = ''%begin''" "header_frame (dc_header d) = Some key"
          using assms(3) that None
          by (auto simp: complete_header_def complete_notification_def Let_def decoder_fatal_def
              split: if_split_asm option.split_asm)
        then show ?thesis unfolding block_opened_def using line before(2) by blast
      qed
      then show ?thesis by (simp add: is_none_or_def split: option.split)
    next
      case (Some key)
      then have "dc_block e \<in> {None, dc_block d}"
        using assms(3)
        by (auto simp: complete_header_def complete_in_block_def Let_def decoder_fatal_def split: if_split_asm)
      then show ?thesis using kept(1) by (auto simp: is_none_or_def)
    qed
    show "block_answered (input @ [CHR 0x0A])" if "dc_attached (e\<lparr>dc_header := []\<rparr>)"
    proof (cases "dc_attached d")
      case True
      then show ?thesis by (rule kept(2))
    next
      case False
      show ?thesis
      proof (cases "dc_block d")
        case None
        then have "dc_attached e = dc_attached d"
          using assms(3)
          by (auto simp: complete_header_def complete_notification_def Let_def decoder_fatal_def
              split: if_split_asm option.split_asm)
        with that False show ?thesis by simp
      next
        case (Some key)
        then have "hd (words_of (dc_header d)) \<in> {''%end'', ''%error''}" "header_frame (dc_header d) = Some key"
          using assms(3) that False
          by (auto simp: complete_header_def complete_in_block_def Let_def decoder_fatal_def split: if_split_asm)
        moreover have "block_opened before key" using before(3) Some by simp
        ultimately show ?thesis unfolding block_answered_def using line before(2) by blast
      qed
    qed
  qed simp
qed


lemma start_payload_keeps:
  assumes "start_payload d = Some (out, e)"
  shows "dc_line e \<noteq> LHeader \<and> dc_block e = dc_block d \<and> dc_attached e = dc_attached d"
  using assms by (auto simp: start_payload_def decoder_fatal_def split: if_split_asm)

lemma fatal_keeps:
  "dc_line (snd (decoder_fatal d)) = LPoisoned" "dc_block (snd (decoder_fatal d)) = dc_block d"
  "dc_attached (snd (decoder_fatal d)) = dc_attached d"
  by (simp_all add: decoder_fatal_def)

lemma heard_header:
  assumes "heard input d" and "dc_line d = LHeader"
  shows "heard (input @ [c]) (snd (header_byte c d))"
proof (cases "c = CHR 0x0A")
  case True
  obtain out e where "complete_header d = (out, e)" by fastforce
  then show ?thesis using heard_complete [OF assms] True by (simp add: header_byte_def)
next
  case False
  let ?d = "d\<lparr>dc_header := dc_header d @ [c]\<rparr>"
  have longer: "heard (input @ [c]) ?d"
  proof -
    obtain before where before: "input = before @ dc_header d" "line_start before"
      "is_none_or (dc_block d) (block_opened before)"
      using assms by (auto simp: heard_def)
    have "input @ [c] = before @ dc_header ?d" using before(1) by simp
    moreover have "is_none_or (dc_block d) (block_opened (input @ [c]))" "dc_attached d \<Longrightarrow> block_answered (input @ [c])"
      using assms by (auto simp: heard_def is_none_or_def block_opened_snoc block_answered_snoc split: option.splits)
    ultimately show ?thesis
      using before(2,3) unfolding heard_def by auto
  qed
  have "heard (input @ [c]) (snd (decoder_fatal ?d))"
    by (rule heard_other [OF assms(1)]) (simp_all add: fatal_keeps)
  moreover have "heard (input @ [c]) (?d\<lparr>dc_header := [], dc_line := LBlockData\<rparr>)"
    by (rule heard_other [OF assms(1)]) simp_all
  moreover have "heard (input @ [c]) (e\<lparr>dc_header := []\<rparr>)" if "start_payload ?d = Some (out, e)" for out e
    using start_payload_keeps [OF that] by (intro heard_other [OF assms(1)]) simp_all
  ultimately show ?thesis
    using longer False by (auto simp: header_byte_def Let_def split: option.split)
qed

lemma heard_line:
  assumes "heard input d" and "decoder_ok d"
  shows "heard (input @ [c]) (snd (line_byte pr c d))"
proof (cases "dc_line d = LHeader")
  case True
  then show ?thesis using heard_header [OF assms(1)] by (simp add: line_byte_def)
next
  case False
  let ?e = "snd (line_byte pr c d)"
  have kept: "dc_block ?e = dc_block d \<and> dc_attached ?e = dc_attached d
      \<and> (dc_line ?e = LHeader \<longrightarrow> c = CHR 0x0A \<and> dc_header ?e = dc_header d)"
    using False
    by (auto simp: line_byte_def payload_byte_def block_data_byte_def Let_def fatal_keeps
        split: control_line.split option.split prod.split)
  show ?thesis
  proof (cases "dc_line ?e = LHeader")
    case True
    have "is_none_or (dc_block d) (block_opened (input @ [c]))" "dc_attached d \<Longrightarrow> block_answered (input @ [c])"
      using assms by (auto simp: heard_def is_none_or_def block_opened_snoc block_answered_snoc split: option.splits)
    moreover have "dc_header d = []" using assms(2) \<open>dc_line d \<noteq> LHeader\<close> by (simp add: decoder_ok_def)
    ultimately show ?thesis
      using True kept by (auto simp: heard_def line_start_def)
  next
    case False
    then show ?thesis using kept by (intro heard_other [OF assms(1)]) simp_all
  qed
qed

lemma heard_byte:
  assumes "heard input d" and "decoder_ok d"
  shows "heard (input @ [c]) (snd (decoder_byte pr c d))"
proof (cases "dc_line d = LPoisoned")
  case True
  then show ?thesis by (simp add: decoder_byte_def) (rule heard_other [OF assms(1)], simp_all)
next
  case False
  define e where "e = (if dc_block d \<noteq> None then d\<lparr>dc_block_bytes := dc_block_bytes d + 1\<rparr> else d)"
  have byte_is: "decoder_byte pr c d =
      (if dc_block d \<noteq> None \<and> MAX_BLOCK_BYTES < dc_block_bytes e then decoder_fatal e else line_byte pr c e)"
    using False by (simp only: decoder_byte_def e_def Let_def if_False)
  show ?thesis
  proof (cases "dc_block d \<noteq> None \<and> MAX_BLOCK_BYTES < dc_block_bytes e")
    case True
    then show ?thesis
      unfolding byte_is
      by (simp only: simp_thms if_True)
        (rule heard_other [OF assms(1)], simp_all add: fatal_keeps e_def)
  next
    case inside: False
    have "heard input e" using assms(1) by (simp add: heard_def e_def)
    moreover have "decoder_ok e"
      using assms(2) False inside by (auto simp: decoder_ok_def e_def split: control_line.splits)
    ultimately have "heard (input @ [c]) (snd (line_byte pr c e))" by (rule heard_line)
    then show ?thesis unfolding byte_is using inside by (simp only: if_False)
  qed
qed

lemma heard_feed:
  "heard input d \<Longrightarrow> decoder_ok d \<Longrightarrow> heard (input @ cs) (snd (decoder_feed pr cs d))"
proof (induction cs arbitrary: input d)
  case Nil
  then show ?case by simp
next
  case (Cons c cs)
  obtain out e where e: "decoder_byte pr c d = (out, e)" by fastforce
  have "heard (input @ [c]) e" "decoder_ok e"
    using heard_byte [OF Cons.prems, of c pr] good_byte [OF Cons.prems(2), of pr c] e by (simp_all add: good_step_def)
  then have "heard ((input @ [c]) @ cs) (snd (decoder_feed pr cs e))" by (rule Cons.IH)
  moreover obtain rest f where "decoder_feed pr cs e = (rest, f)" by fastforce
  ultimately show ?case using e by simp
qed

lemma start_attached:
  assumes "DStart p \<in> set (fst (decoder_byte pr c d))"
  shows "dc_attached d"
proof -
  have fatal: "DStart p \<notin> set (fst (decoder_fatal e))" for e by (simp add: decoder_fatal_def)
  have quiet: "DStart p \<notin> set (fst (complete_header e))" for e
    by (auto simp: complete_header_def complete_in_block_def complete_notification_def Let_def fatal
        split: option.split)
  have line: "dc_attached e" if "DStart p \<in> set (fst (line_byte pr c e))" for e
    using that fatal quiet
    by (auto simp: line_byte_def payload_byte_def block_data_byte_def header_byte_def start_payload_def Let_def
        split: control_line.splits option.splits prod.splits if_splits) (metis fst_conv)+
  have "DStart p \<in> set (fst (line_byte pr c d))
      \<or> DStart p \<in> set (fst (line_byte pr c (d\<lparr>dc_block_bytes := dc_block_bytes d + 1\<rparr>)))"
    using assms fatal by (simp add: decoder_byte_def Let_def split: if_splits)
  then show ?thesis using line by fastforce
qed


section \<open>The properties\<close>

text \<open>C36 (control_output_roundtrip). Pane output survives control mode byte by byte: for every pane and
  every sequence of bytes, whichever of them tmux wrote as octal escapes and however the line was cut
  into reads, an attached decoder at the start of a line emits the start of the pane, exactly those
  bytes in order and the end, and is back in the state it was in.\<close>

theorem control_output_roundtrip:
  assumes "escaped w bytes" and "dc_line d = LHeader" and "dc_header d = []" and "dc_block d = None"
    and "dc_attached d" and "p \<le> u32_max"
    and "a @ b = (''%output '' @ pane_id_show p @ '' '') @ w @ [CHR 0x0A]"
  shows "(case decoder_feed True a d of (first, e) \<Rightarrow>
      (case decoder_feed True b e of (second, f) \<Rightarrow> (first @ second, f)))
    = (DStart p # map (DByte p) bytes @ [DEnd p], d)"
  using output_line [OF assms(1-6)] feed_append [of True a b d] assms(7) by simp

theorem control_output_roundtrip_witness:
  "(case decoder_feed True ''%output %3 a'' (decoder_new\<lparr>dc_attached := True\<rparr>) of (first, e) \<Rightarrow>
      (case decoder_feed True (escape_text [CHR 0x1B, CHR ''Z''] @ [CHR 0x0A]) e of (second, f) \<Rightarrow> (first @ second, f)))
    = (DStart 3 # map (DByte 3) (''a'' @ [CHR 0x1B, CHR ''Z'']) @ [DEnd 3], decoder_new\<lparr>dc_attached := True\<rparr>)"
proof (rule control_output_roundtrip)
  show "escaped (''a'' @ escape_text [CHR 0x1B, CHR ''Z'']) (''a'' @ [CHR 0x1B, CHR ''Z''])"
    by (simp add: escaped_plain escaped_escape_text)
  show "''%output %3 a'' @ escape_text [CHR 0x1B, CHR ''Z''] @ [CHR 0x0A]
      = (''%output '' @ pane_id_show 3 @ '' '') @ (''a'' @ escape_text [CHR 0x1B, CHR ''Z'']) @ [CHR 0x0A]"
    by code_simp
qed (simp_all add: decoder_new_def u32_max_def)

text \<open>C37 (control_decoder_bracketed). Whatever bytes arrive, what the decoder emits for a pane is
  bracketed: bytes, transport gaps and the end of a pane come after its start, for that pane and before
  any other emission; and the decoder retains no payload, since its header buffer and both counters of
  a response block stay within their limits.\<close>

theorem control_decoder_bracketed:
  "let (out, d) = decoder_feed pr input decoder_new in
     brackets None out = Some (line_open d) \<and> length (dc_header d) \<le> MAX_HEADER
     \<and> dc_block_bytes d \<le> MAX_BLOCK_BYTES + 1 \<and> dc_block_lines d \<le> MAX_BLOCK_LINES + 1"
proof -
  obtain out d where d: "decoder_feed pr input decoder_new = (out, d)" by fastforce
  have "line_open decoder_new = None" by (simp add: line_open_def decoder_new_def)
  then have "decoder_ok d" "brackets None out = Some (line_open d)"
    using good_feed [OF decoder_ok_new, of pr input] d by (simp_all add: good_step_def)
  then show ?thesis using d by (simp add: decoder_ok_def)
qed

lemma start_after_answer:
  assumes "DStart p \<in> set (fst (decoder_feed pr input decoder_new))"
  shows "block_answered input"
  using assms
proof (induction input rule: rev_induct)
  case Nil
  then show ?case by simp
next
  case (snoc c cs)
  obtain out d where d: "decoder_feed pr cs decoder_new = (out, d)" by fastforce
  have split: "fst (decoder_feed pr (cs @ [c]) decoder_new) = out @ fst (decoder_byte pr c d)"
    by (simp add: feed_append d split: prod.split)
  show ?case
  proof (cases "DStart p \<in> set out")
    case True
    then have "block_answered cs" using snoc.IH d by simp
    then show ?thesis by (rule block_answered_snoc)
  next
    case False
    then have "dc_attached d" using snoc.prems split by (auto intro: start_attached)
    moreover have "heard cs d" using heard_feed [OF heard_new decoder_ok_new, of cs pr] d by simp
    ultimately show ?thesis by (auto simp: heard_def intro: block_answered_snoc)
  qed
qed

text \<open>No output is trusted before the attach response: pane output can start
  only after the input held a complete command response, opened by a begin line and closed by an end or
  error line with the same three numbers.\<close>

theorem output_after_attach:
  "DStart p \<in> set (fst (decoder_feed pr input decoder_new)) \<Longrightarrow> block_answered input"
  by (rule start_after_answer)

theorem output_after_attach_witness:
  "block_answered (''%begin 7 1 0'' @ [CHR 0x0A] @ ''%end 7 1 0'' @ [CHR 0x0A] @ ''%output %3 hi'' @ [CHR 0x0A])"
  by (rule output_after_attach [of 3 True]) code_simp

end
