(* ===== verification/Terminal_Scanner.thy ===== *)
theory Terminal_Scanner
  imports Program_Parse
begin

text \<open>
  Terminal framing (\<open>tma-tmux/src/control/terminal.rs\<close>): the scanner that follows the escape sequences
  of one pane byte by byte and recognises OSC 7501 reports, shell prompts and full resets. It is told
  of binding boundaries and losses. A step answers the event it recognised. Definitions only.
\<close>

section \<open>The state\<close>

datatype string_kind = SkOsc | SkDcs | SkApc | SkPm | SkSos | SkRename

datatype dcs_phase = PhUnknown | PhData | PhEscape

text \<open>\<open>InString kind escape suppressed\<close>.\<close>

datatype scan_state =
    Ground | Escape | DirtyEscape | Csi
  | InString string_kind bool bool
  | LostSync dcs_phase

record scanner =
  sn_state :: scan_state
  sn_candidate :: string
  sn_oversized :: bool
  sn_rejected :: nat

definition scanner_new :: scanner where
  "scanner_new = \<lparr>sn_state = Ground, sn_candidate = [], sn_oversized = False, sn_rejected = 0\<rparr>"

definition scanner_unsynchronized :: scanner where
  "scanner_unsynchronized = scanner_new\<lparr>sn_state := LostSync PhUnknown\<rparr>"

definition CAN :: char where "CAN = CHR 0x18"
definition SUB :: char where "SUB = CHR 0x1A"

definition escape_ignored :: "char \<Rightarrow> bool" where
  "escape_ignored c =
     (let b = byte c in b \<le> 23 \<or> b = 25 \<or> 28 \<le> b \<and> b \<le> 31 \<or> 127 \<le> b)"

section \<open>Boundaries and losses\<close>

definition suppress_candidate :: "scanner \<Rightarrow> scanner" where
  "suppress_candidate s =
     s\<lparr>sn_candidate := [], sn_oversized := False,
       sn_state := (case sn_state s of InString k e _ \<Rightarrow> InString k e True | st \<Rightarrow> st)\<rparr>"

definition scanner_boundary :: "scanner \<Rightarrow> scanner" where
  "scanner_boundary s =
     (let s1 = suppress_candidate s in
      if sn_state s1 = Escape \<or> sn_state s1 = DirtyEscape then s1\<lparr>sn_state := LostSync PhEscape\<rparr> else s1)"

definition scanner_loss :: "scanner \<Rightarrow> scanner" where
  "scanner_loss s = (scanner_boundary s)\<lparr>sn_state := LostSync PhUnknown\<rparr>"

definition pending_candidate :: "scanner \<Rightarrow> nat" where
  "pending_candidate s = length (sn_candidate s)"

section \<open>Recognition\<close>

definition push_candidate :: "char \<Rightarrow> scanner \<Rightarrow> scanner" where
  "push_candidate c s =
     (if length (sn_candidate s) < MAX_FRAME_BYTES then s\<lparr>sn_candidate := sn_candidate s @ [c]\<rparr>
      else s\<lparr>sn_oversized := True\<rparr>)"

definition starts :: "string \<Rightarrow> string \<Rightarrow> bool" where
  "starts p s = (take (length p) s = p)"

text \<open>A complete OSC string; \<open>st\<close> says whether it ended with the string terminator.\<close>

definition complete_osc :: "base64 \<Rightarrow> bool \<Rightarrow> scanner \<Rightarrow> program_event option \<times> scanner" where
  "complete_osc b64 st s =
     (let cand = sn_candidate s; rejected = s\<lparr>sn_rejected := sn_rejected s + 1\<rparr> in
      if \<not> sn_oversized s \<and> ESC \<notin> set cand \<and> (cand = ''133;A'' \<or> starts ''133;A;'' cand)
      then (Some (ELifecycle ShellPrompt), s)
      else if \<not> starts ''7501;'' cand then (None, s)
      else if sn_oversized s \<or> MAX_FRAME_BYTES < length cand + (if st then 4 else 3) then (None, rejected)
      else case parse_frame b64 ([ESC, CHR '']''] @ cand @ (if st then [ESC, CHR 0x5C] else [BEL])) of
             Inr (Command c) \<Rightarrow> (Some (ECommand c), s)
           | _ \<Rightarrow> (None, rejected))"

definition string_kind_of :: "char \<Rightarrow> string_kind option" where
  "string_kind_of c =
     (if c = CHR '']'' then Some SkOsc
      else if c = CHR ''P'' then Some SkDcs
      else if c = CHR ''_'' then Some SkApc
      else if c = CHR ''^'' then Some SkPm
      else if c = CHR ''k'' then Some SkRename
      else if c = CHR ''X'' then Some SkSos
      else None)"

definition feed_escape :: "char \<Rightarrow> scanner \<Rightarrow> program_event option \<times> scanner" where
  "feed_escape c s =
     (case string_kind_of c of
        Some kind \<Rightarrow>
          (None, s\<lparr>sn_candidate := [], sn_oversized := False,
                   sn_state := InString kind False (sn_state s = DirtyEscape)\<rparr>)
      | None \<Rightarrow>
          if c = CHR ''['' then (None, s\<lparr>sn_state := Csi\<rparr>)
          else if escape_ignored c then (None, s\<lparr>sn_state := DirtyEscape\<rparr>)
          else if c = ESC then (None, s\<lparr>sn_state := Escape\<rparr>)
          else if c = CHR ''c'' then (Some (ELifecycle FullReset), s\<lparr>sn_state := Ground\<rparr>)
          else (None, s\<lparr>sn_state := Ground\<rparr>))"

definition feed_string ::
  "base64 \<Rightarrow> string_kind \<Rightarrow> bool \<Rightarrow> bool \<Rightarrow> char \<Rightarrow> scanner \<Rightarrow> program_event option \<times> scanner" where
  "feed_string b64 kind escape suppressed c s =
     (if kind \<noteq> SkDcs \<and> escape \<and> c = CHR ''P''
      then (None, s\<lparr>sn_state := InString SkDcs False True, sn_candidate := [], sn_oversized := False\<rparr>)
      else if escape \<and> c = CHR 0x5C \<or> kind = SkOsc \<and> c = BEL then
        (let st = (escape \<and> c = CHR 0x5C);
             pending = (escape \<and> \<not> st);
             (event, s1) =
               (if kind = SkOsc \<and> \<not> suppressed
                then complete_osc b64 st (if st then s\<lparr>sn_candidate := butlast (sn_candidate s)\<rparr> else s)
                else (None, s))
         in (event, s1\<lparr>sn_state := (if pending then DirtyEscape else Ground), sn_candidate := []\<rparr>))
      else
        let s1 = (if kind = SkOsc \<and> \<not> suppressed then push_candidate c s else s);
            escape1 = (if kind = SkDcs then c = ESC \<and> \<not> escape
                       else c = ESC \<or> escape \<and> escape_ignored c)
        in (None, s1\<lparr>sn_state := InString kind escape1 suppressed\<rparr>))"

fun feed_lost :: "dcs_phase \<Rightarrow> char \<Rightarrow> scan_state" where
  "feed_lost PhEscape c = (if c = CHR 0x5C then Ground else LostSync PhData)"
| "feed_lost PhUnknown c = (if c = ESC then LostSync PhUnknown else LostSync PhData)"
| "feed_lost PhData c = (if c = ESC then LostSync PhEscape else LostSync PhData)"

definition cancels :: "scan_state \<Rightarrow> bool" where
  "cancels st = (case st of InString k _ _ \<Rightarrow> k \<noteq> SkDcs | LostSync _ \<Rightarrow> False | _ \<Rightarrow> True)"

definition scanner_feed :: "base64 \<Rightarrow> char \<Rightarrow> scanner \<Rightarrow> program_event option \<times> scanner" where
  "scanner_feed b64 c s =
     (if (c = CAN \<or> c = SUB) \<and> cancels (sn_state s) then (None, s\<lparr>sn_state := Ground, sn_candidate := []\<rparr>)
      else case sn_state s of
        Ground \<Rightarrow> (None, if c = ESC then s\<lparr>sn_state := Escape\<rparr> else s)
      | Escape \<Rightarrow> feed_escape c s
      | DirtyEscape \<Rightarrow> feed_escape c s
      | Csi \<Rightarrow>
          (None, if 64 \<le> byte c \<and> byte c \<le> 126 then s\<lparr>sn_state := Ground\<rparr>
                 else if c = ESC then s\<lparr>sn_state := Escape\<rparr> else s)
      | InString kind escape suppressed \<Rightarrow> feed_string b64 kind escape suppressed c s
      | LostSync phase \<Rightarrow> (None, s\<lparr>sn_state := feed_lost phase c\<rparr>))"

definition feed_quarantined :: "base64 \<Rightarrow> char \<Rightarrow> scanner \<Rightarrow> scanner" where
  "feed_quarantined b64 c s = suppress_candidate (snd (scanner_feed b64 c s))"

section \<open>Runs\<close>

text \<open>What its owner does to a scanner.\<close>

datatype scan_op = SByte char | SQuarantined char | SBoundary | SLoss

fun scan_exec :: "base64 \<Rightarrow> scan_op \<Rightarrow> scanner \<Rightarrow> program_event option \<times> scanner" where
  "scan_exec b64 (SByte c) s = scanner_feed b64 c s"
| "scan_exec b64 (SQuarantined c) s = (None, feed_quarantined b64 c s)"
| "scan_exec b64 SBoundary s = (None, scanner_boundary s)"
| "scan_exec b64 SLoss s = (None, scanner_loss s)"

fun scan_state_after :: "base64 \<Rightarrow> scan_op list \<Rightarrow> scanner \<Rightarrow> scanner" where
  "scan_state_after b64 [] s = s"
| "scan_state_after b64 (x # xs) s = scan_state_after b64 xs (snd (scan_exec b64 x s))"

fun scan_events :: "base64 \<Rightarrow> scan_op list \<Rightarrow> scanner \<Rightarrow> program_event option list" where
  "scan_events b64 [] s = []"
| "scan_events b64 (x # xs) s =
     (case scan_exec b64 x s of (ev, s1) \<Rightarrow> ev # scan_events b64 xs s1)"

end
