(* ===== verification/Scanner_Properties.thy ===== *)
theory Scanner_Properties
  imports Terminal_Scanner
begin

text \<open>
  What the terminal scanner guarantees: it reads every acceptable report frame exactly, it never
  assembles a report from bytes on two sides of a boundary, a loss or a quarantine, it retains at most
  one frame, and after a loss it stays silent until the stream shows where a string ends.
\<close>

section \<open>The invariant of a run\<close>

text \<open>Quarantined bytes are fenced off: the owner ends a quarantine with a boundary.\<close>

fun fenced :: "scan_op list \<Rightarrow> bool" where
  "fenced [] = True"
| "fenced [x] = True"
| "fenced (x # y # ys) = ((\<forall>a b. x = SQuarantined a \<longrightarrow> y \<noteq> SByte b) \<and> fenced (y # ys))"

definition after_quarantine :: "scan_op list \<Rightarrow> bool" where
  "after_quarantine ops = (ops \<noteq> [] \<and> (\<exists>a. last ops = SQuarantined a))"

lemma fenced_snoc:
  "fenced (ops @ [x]) \<longleftrightarrow> fenced ops \<and> \<not> (after_quarantine ops \<and> (\<exists>b. x = SByte b))"
  by (induction ops rule: fenced.induct) (auto simp: after_quarantine_def)

text \<open>\<open>fed ops bytes\<close>: the run ends with these bytes, delivered one after the other.\<close>

definition fed :: "scan_op list \<Rightarrow> string \<Rightarrow> bool" where
  "fed ops bytes = suffix (map SByte bytes) ops"

lemma fed_snoc: "fed ops bytes \<Longrightarrow> fed (ops @ [SByte c]) (bytes @ [c])"
  by (auto simp: fed_def suffix_def)

lemma fed_single: "fed (ops @ [SByte c]) [c]"
  by (auto simp: fed_def suffix_def)

definition scan_inv :: "scan_op list \<Rightarrow> scanner \<Rightarrow> bool" where
  "scan_inv ops s =
     (length (sn_candidate s) \<le> MAX_FRAME_BYTES
      \<and> (case sn_state s of
           Escape \<Rightarrow> after_quarantine ops \<or> fed ops [ESC]
         | InString kind escape suppressed \<Rightarrow>
             kind = SkOsc \<and> \<not> suppressed \<and> \<not> sn_oversized s \<longrightarrow>
               fed ops ([ESC, CHR '']''] @ sn_candidate s)
               \<and> (escape \<longrightarrow> sn_candidate s \<noteq> []
                     \<and> (last (sn_candidate s) = ESC \<or> ESC \<in> set (butlast (sn_candidate s))))
         | _ \<Rightarrow> True))"

lemma scan_inv_start: "scan_inv [] scanner_new" "scan_inv [] scanner_unsynchronized"
  by (simp_all add: scan_inv_def scanner_new_def scanner_unsynchronized_def)

lemma suppressed_inv:
  assumes "scan_inv ops s" and "sn_state s \<noteq> Escape"
  shows "scan_inv ops' (suppress_candidate s)"
  using assms by (auto simp: scan_inv_def suppress_candidate_def split: scan_state.splits)

lemma boundary_inv: "scan_inv ops' (scanner_boundary s)"
  by (auto simp: scan_inv_def scanner_boundary_def suppress_candidate_def Let_def split: scan_state.splits)

lemma loss_inv: "scan_inv ops' (scanner_loss s)"
  by (auto simp: scan_inv_def scanner_loss_def scanner_boundary_def suppress_candidate_def Let_def)

lemma complete_osc_keeps:
  "sn_state (snd (complete_osc b64 st s)) = sn_state s"
  "sn_candidate (snd (complete_osc b64 st s)) = sn_candidate s"
  by (simp_all add: complete_osc_def Let_def split: sum.split parse_outcome.split)

lemma string_inv:
  assumes "scan_inv ops s" and "sn_state s = InString kind escape suppressed"
  shows "scan_inv (ops @ [SByte c]) (snd (feed_string b64 kind escape suppressed c s))"
proof (cases "kind \<noteq> SkDcs \<and> escape \<and> c = CHR ''P'' \<or> escape \<and> c = CHR 0x5C \<or> kind = SkOsc \<and> c = BEL")
  case True
  then show ?thesis
    by (auto simp: feed_string_def scan_inv_def Let_def split: prod.split)
next
  case False
  define t where "t = (if kind = SkOsc \<and> \<not> suppressed then push_candidate c s else s)"
  define escape1 where "escape1 = (if kind = SkDcs then c = ESC \<and> \<not> escape else c = ESC \<or> escape \<and> escape_ignored c)"
  have step: "snd (feed_string b64 kind escape suppressed c s) = t\<lparr>sn_state := InString kind escape1 suppressed\<rparr>"
  proof -
    have "\<not> (kind \<noteq> SkDcs \<and> escape \<and> c = CHR ''P'')" "\<not> (escape \<and> c = CHR 0x5C \<or> kind = SkOsc \<and> c = BEL)"
      using False by blast+
    then show ?thesis by (simp only: feed_string_def Let_def t_def escape1_def if_False snd_conv)
  qed
  have len: "length (sn_candidate t) \<le> MAX_FRAME_BYTES"
    using assms by (simp add: t_def push_candidate_def scan_inv_def)
  have "fed (ops @ [SByte c]) ([ESC, CHR '']''] @ sn_candidate t)
      \<and> (escape1 \<longrightarrow> sn_candidate t \<noteq> [] \<and> (last (sn_candidate t) = ESC \<or> ESC \<in> set (butlast (sn_candidate t))))"
    if "kind = SkOsc" "\<not> suppressed" "\<not> sn_oversized t"
  proof -
    have cand: "sn_candidate t = sn_candidate s @ [c]" "\<not> sn_oversized s"
      using that by (auto simp: t_def push_candidate_def split: if_splits)
    then have ready: "fed ops ([ESC, CHR '']''] @ sn_candidate s)"
      and last_esc: "escape \<Longrightarrow> sn_candidate s \<noteq> []
        \<and> (last (sn_candidate s) = ESC \<or> ESC \<in> set (butlast (sn_candidate s)))"
      using assms that(1,2) by (auto simp: scan_inv_def)
    have old: "escape \<Longrightarrow> ESC \<in> set (sn_candidate s)"
      using last_esc last_in_set in_set_butlastD by metis
    have "fed (ops @ [SByte c]) ([ESC, CHR '']''] @ sn_candidate t)"
      using fed_snoc [OF ready, of c] cand(1) by simp
    moreover have "last (sn_candidate t) = ESC \<or> ESC \<in> set (butlast (sn_candidate t))" if escape1
      using that old cand(1) \<open>kind = SkOsc\<close> by (auto simp: escape1_def)
    ultimately show ?thesis using cand(1) by simp
  qed
  then show ?thesis unfolding step using len by (simp add: scan_inv_def)
qed

lemma string_kind_of_Osc: "string_kind_of c = Some SkOsc \<Longrightarrow> c = CHR '']''"
  by (simp add: string_kind_of_def split: if_splits)

lemma escape_inv:
  assumes "scan_inv ops s" and "sn_state s = Escape \<or> sn_state s = DirtyEscape" and "\<not> after_quarantine ops"
  shows "scan_inv (ops @ [SByte c]) (snd (feed_escape c s))"
proof (cases "string_kind_of c")
  case None
  have "length (sn_candidate s) \<le> MAX_FRAME_BYTES" using assms(1) by (simp add: scan_inv_def)
  then show ?thesis
    using None fed_single [of ops c] by (auto simp: feed_escape_def scan_inv_def)
next
  case (Some kind)
  have "fed (ops @ [SByte c]) [ESC, CHR '']'']" if "sn_state s = Escape" "kind = SkOsc"
  proof -
    have "fed ops [ESC]" using assms that by (simp add: scan_inv_def)
    then show ?thesis using fed_snoc [of ops "[ESC]" c] string_kind_of_Osc Some that(2) by simp
  qed
  then show ?thesis using Some assms(2) by (auto simp: feed_escape_def scan_inv_def)
qed

lemma feed_inv:
  assumes "scan_inv ops s" and "\<not> after_quarantine ops"
  shows "scan_inv (ops @ [SByte c]) (snd (scanner_feed b64 c s))"
proof (cases "(c = CAN \<or> c = SUB) \<and> cancels (sn_state s)")
  case True
  then show ?thesis by (simp add: scanner_feed_def scan_inv_def)
next
  case False
  show ?thesis
  proof (cases "sn_state s")
    case Ground
    then show ?thesis
      using False assms(1) fed_single [of ops c] by (auto simp: scanner_feed_def scan_inv_def)
  next
    case Escape
    then show ?thesis using False escape_inv [OF assms(1) _ assms(2)] by (auto simp: scanner_feed_def)
  next
    case DirtyEscape
    then show ?thesis using False escape_inv [OF assms(1) _ assms(2)] by (auto simp: scanner_feed_def)
  next
    case Csi
    then show ?thesis
      using False assms(1) fed_single [of ops c] by (auto simp: scanner_feed_def scan_inv_def)
  next
    case (InString kind escape suppressed)
    then show ?thesis using False string_inv [OF assms(1) InString] by (auto simp: scanner_feed_def)
  next
    case (LostSync phase)
    then show ?thesis
      using False assms(1) by (cases phase) (auto simp: scanner_feed_def scan_inv_def)
  qed
qed


lemma exec_inv:
  assumes "scan_inv ops s" and "fenced (ops @ [x])"
  shows "scan_inv (ops @ [x]) (snd (scan_exec b64 x s))"
proof (cases x)
  case (SByte c)
  then show ?thesis using assms feed_inv [OF assms(1)] by (simp add: fenced_snoc)
next
  case (SQuarantined c)
  then show ?thesis
    by (auto simp: feed_quarantined_def suppress_candidate_def scan_inv_def after_quarantine_def split: scan_state.splits)
next
  case SBoundary
  then show ?thesis by (simp add: boundary_inv)
next
  case SLoss
  then show ?thesis by (simp add: loss_inv)
qed


lemma run_snoc:
  "scan_state_after b64 (ops @ [x]) s = snd (scan_exec b64 x (scan_state_after b64 ops s))"
  by (induction ops arbitrary: s) simp_all

lemma run_inv:
  assumes "scan_inv [] s" and "fenced ops"
  shows "scan_inv ops (scan_state_after b64 ops s)"
  using assms(2)
proof (induction ops rule: rev_induct)
  case Nil
  then show ?case using assms(1) by simp
next
  case (snoc x ops)
  then have "scan_inv ops (scan_state_after b64 ops s)" by (simp add: fenced_snoc)
  then show ?case using exec_inv snoc.prems by (simp add: run_snoc)
qed

section \<open>Where a command comes from\<close>

lemma accepted_no_escape:
  assumes "parse_frame b64 ([ESC, CHR '']''] @ body @ [ESC, CHR 0x5C]) = Inr out"
  shows "ESC \<notin> set body"
proof -
  let ?frame = "[ESC, CHR '']''] @ body @ [ESC, CHR 0x5C]"
  obtain rest where rest: "?frame = frame_intro @ rest"
    using assms by (auto simp: parse_frame_def strip_prefix_Some_iff split: if_splits option.splits)
  obtain inner where inner: "frame_body rest = Some inner" "ESC \<notin> set inner"
    using assms rest by (auto simp: parse_frame_def strip_prefix_Some_iff list_ex_iff split: if_splits option.splits)
  have "drop 2 ?frame = ''7501;'' @ rest" using rest by (simp add: frame_intro_def)
  then have body: "body @ [ESC, CHR 0x5C] = ''7501;'' @ rest" by simp
  moreover have "last rest \<noteq> BEL \<or> rest = []"
  proof -
    have "last (''7501;'' @ rest) = CHR 0x5C" using body [symmetric] by simp
    then show ?thesis by (auto simp: BEL_def split: if_splits)
  qed
  ultimately have "rest = inner @ [ESC, CHR 0x5C]"
    using inner(1) by (auto simp: frame_body_def strip_suffix_Some_iff split: option.splits)
  with body have "body = ''7501;'' @ inner" by simp
  with inner(2) show ?thesis by (simp add: ESC_def)
qed

lemma complete_command:
  assumes "fst (complete_osc b64 st s) = Some (ECommand c)"
  shows "\<not> sn_oversized s \<and> parse_frame b64 ([ESC, CHR '']''] @ sn_candidate s
      @ (if st then [ESC, CHR 0x5C] else [BEL])) = Inr (Command c)"
  using assms by (auto simp: complete_osc_def Let_def split: if_splits sum.splits parse_outcome.splits)

lemma feed_command:
  assumes "fst (scanner_feed b64 ch s) = Some (ECommand c)"
  obtains escape where "sn_state s = InString SkOsc escape False"
    and "if escape \<and> ch = CHR 0x5C then fst (complete_osc b64 True (s\<lparr>sn_candidate := butlast (sn_candidate s)\<rparr>)) = Some (ECommand c)
         else ch = BEL \<and> fst (complete_osc b64 False s) = Some (ECommand c)"
proof -
  have "fst (feed_escape ch s) \<noteq> Some (ECommand c)"
    by (simp add: feed_escape_def split: option.split)
  then obtain kind escape suppressed where st: "sn_state s = InString kind escape suppressed"
    and ev: "fst (feed_string b64 kind escape suppressed ch s) = Some (ECommand c)"
    using assms by (auto simp: scanner_feed_def split: if_splits scan_state.splits)
  show ?thesis
    using that st ev
    by (auto simp: feed_string_def Let_def split: if_splits prod.splits)
qed

lemma command_fed:
  assumes "scan_inv ops s" and "fst (scanner_feed b64 ch s) = Some (ECommand c)"
  shows "\<exists>frame. fed (ops @ [SByte ch]) frame \<and> parse_frame b64 frame = Inr (Command c)"
proof -
  from assms(2) obtain escape where st: "sn_state s = InString SkOsc escape False"
    and done_: "if escape \<and> ch = CHR 0x5C
      then fst (complete_osc b64 True (s\<lparr>sn_candidate := butlast (sn_candidate s)\<rparr>)) = Some (ECommand c)
      else ch = BEL \<and> fst (complete_osc b64 False s) = Some (ECommand c)"
    by (rule feed_command)
  show ?thesis
  proof (cases "escape \<and> ch = CHR 0x5C")
    case True
    let ?body = "butlast (sn_candidate s)"
    have ok: "\<not> sn_oversized s" "parse_frame b64 ([ESC, CHR '']''] @ ?body @ [ESC, CHR 0x5C]) = Inr (Command c)"
      using complete_command [of b64 True "s\<lparr>sn_candidate := ?body\<rparr>" c] done_ True by simp_all
    then have ready: "fed ops ([ESC, CHR '']''] @ sn_candidate s)"
      and ends: "sn_candidate s \<noteq> []" "last (sn_candidate s) = ESC \<or> ESC \<in> set ?body"
      using assms(1) st True by (auto simp: scan_inv_def)
    have "last (sn_candidate s) = ESC" using ends(2) accepted_no_escape [OF ok(2)] by simp
    then have "sn_candidate s = ?body @ [ESC]" using ends(1) by (metis append_butlast_last_id)
    then have "([ESC, CHR '']''] @ sn_candidate s) @ [ch] = [ESC, CHR '']''] @ ?body @ [ESC, CHR 0x5C]"
      using True by (metis append.assoc append_Cons append_Nil)
    then show ?thesis using fed_snoc [OF ready, of ch] ok(2) by metis
  next
    case False
    then have ok: "\<not> sn_oversized s" "ch = BEL" "parse_frame b64 ([ESC, CHR '']''] @ sn_candidate s @ [BEL]) = Inr (Command c)"
      using complete_command [of b64 False s c] done_ by simp_all
    then have "fed ops ([ESC, CHR '']''] @ sn_candidate s)" using assms(1) st by (simp add: scan_inv_def)
    from fed_snoc [OF this, of ch] ok show ?thesis by auto
  qed
qed

text \<open>C38 (command_never_spliced). A command is never assembled from pieces: whatever the bytes,
  boundaries, losses and quarantines before, a scanner that started unsynchronized or fresh recognises a
  command only when the last things that happened to it were the bytes of one accepted frame, one after
  the other, with no boundary, loss or quarantined byte among them.\<close>

theorem command_never_spliced:
  assumes "s \<in> {scanner_new, scanner_unsynchronized}" and "fenced (ops @ [x])"
    and "fst (scan_exec b64 x (scan_state_after b64 ops s)) = Some (ECommand c)"
  shows "\<exists>before frame. ops @ [x] = before @ map SByte frame \<and> parse_frame b64 frame = Inr (Command c)"
proof -
  obtain ch where ch: "x = SByte ch" using assms(3) by (cases x) simp_all
  have "scan_inv [] s" using assms(1) scan_inv_start by auto
  then have "scan_inv ops (scan_state_after b64 ops s)"
    using assms(2) by (intro run_inv) (simp_all add: fenced_snoc)
  then obtain frame where "fed (ops @ [x]) frame" "parse_frame b64 frame = Inr (Command c)"
    using command_fed [of ops "scan_state_after b64 ops s" b64 ch c] assms(3) ch by auto
  then show ?thesis by (auto simp: fed_def suffix_def)
qed


text \<open>A query, announced by its four-byte prefix and ended by a bell.\<close>

definition query_frame :: string where "query_frame = frame_intro @ ''?'' @ [BEL]"

theorem command_never_spliced_witness:
  "\<exists>before frame. [SBoundary] @ map SByte (butlast query_frame) @ [SByte BEL] = before @ map SByte frame
     \<and> parse_frame no_base64 frame = Inr (Command Query)"
proof -
  have "fenced (([SBoundary] @ map SByte (butlast query_frame)) @ [SByte BEL])" by code_simp
  moreover have "fst (scan_exec no_base64 (SByte BEL)
      (scan_state_after no_base64 ([SBoundary] @ map SByte (butlast query_frame)) scanner_new)) = Some (ECommand Query)"
    by code_simp
  ultimately show ?thesis
    using command_never_spliced [of scanner_new "[SBoundary] @ map SByte (butlast query_frame)" "SByte BEL"] by simp
qed

section \<open>Reading an accepted frame\<close>

lemma scan_events_append:
  "scan_events b64 (xs @ ys) s = scan_events b64 xs s @ scan_events b64 ys (scan_state_after b64 xs s)"
  by (induction xs arbitrary: s) (simp_all split: prod.split)

lemma scan_state_append:
  "scan_state_after b64 (xs @ ys) s = scan_state_after b64 ys (scan_state_after b64 xs s)"
  by (induction xs arbitrary: s) simp_all

lemma control_distinct [simp]:
  "ESC \<noteq> BEL" "ESC \<noteq> CAN" "ESC \<noteq> SUB" "BEL \<noteq> CAN" "BEL \<noteq> SUB" "CHR '']'' \<noteq> CAN" "CHR '']'' \<noteq> SUB"
  "CHR 0x5C \<noteq> CAN" "CHR 0x5C \<noteq> SUB" "CHR 0x5C \<noteq> ESC" "CHR ''P'' \<noteq> ESC" "CHR ''P'' \<noteq> BEL"
  by (simp_all add: ESC_def BEL_def CAN_def SUB_def)

lemma osc_run:
  assumes "sn_state s = InString SkOsc False False" and "\<not> sn_oversized s"
    and "length (sn_candidate s) + length cs \<le> MAX_FRAME_BYTES"
    and "set cs \<inter> {ESC, BEL, CAN, SUB} = {}"
  shows "scan_events b64 (map SByte cs) s = replicate (length cs) None
    \<and> scan_state_after b64 (map SByte cs) s = s\<lparr>sn_candidate := sn_candidate s @ cs\<rparr>"
  using assms
proof (induction cs arbitrary: s)
  case Nil
  then show ?case by simp
next
  case (Cons c cs)
  let ?s = "s\<lparr>sn_candidate := sn_candidate s @ [c]\<rparr>"
  have "?s\<lparr>sn_state := InString SkOsc False False\<rparr> = ?s" using Cons.prems(1) by simp
  moreover have "c \<noteq> ESC" "c \<noteq> BEL" "c \<noteq> CAN" "c \<noteq> SUB" using Cons.prems(4) by auto
  ultimately have "scanner_feed b64 c s = (None, ?s)"
    using Cons.prems by (simp add: scanner_feed_def feed_string_def push_candidate_def Let_def)
  with Cons.IH [of ?s] Cons.prems show ?case by simp
qed

lemma accepted_shape:
  assumes "parse_frame b64 frame = Inr out"
  obtains body terminator where "frame = [ESC, CHR '']''] @ ''7501;'' @ body @ terminator"
    and "terminator = [ESC, CHR 0x5C] \<or> terminator = [BEL]" and "ESC \<notin> set body" and "BEL \<notin> set body"
    and "length frame \<le> MAX_FRAME_BYTES"
proof -
  obtain rest where rest: "frame = frame_intro @ rest" and len: "length frame \<le> MAX_FRAME_BYTES"
    using assms by (auto simp: parse_frame_def strip_prefix_Some_iff split: if_splits option.splits)
  obtain body where body: "frame_body rest = Some body" "ESC \<notin> set body" "BEL \<notin> set body"
    using assms rest by (auto simp: parse_frame_def strip_prefix_Some_iff list_ex_iff split: if_splits option.splits)
  have "rest = body @ [ESC, CHR 0x5C] \<or> rest = body @ [BEL]"
    using body(1) by (auto simp: frame_body_def strip_suffix_Some_iff split: option.splits)
  then show ?thesis using that [of body] rest len body(2,3) by (auto simp: frame_intro_def)
qed

lemma osc_end:
  assumes "sn_state s = InString SkOsc False False" and "\<not> sn_oversized s"
    and "terminator = [ESC, CHR 0x5C] \<or> terminator = [BEL]"
    and "starts ''7501;'' (sn_candidate s)" and "ESC \<notin> set (sn_candidate s)"
    and "2 + length (sn_candidate s) + length terminator \<le> MAX_FRAME_BYTES"
    and "parse_frame b64 ([ESC, CHR '']''] @ sn_candidate s @ terminator) = Inr (Command c)"
  shows "scan_events b64 (map SByte terminator) s = replicate (length terminator - 1) None @ [Some (ECommand c)]
    \<and> sn_state (scan_state_after b64 (map SByte terminator) s) = Ground"
proof -
  have other: "sn_candidate s \<noteq> ''133;A''" "\<not> starts ''133;A;'' (sn_candidate s)"
    using assms(4) by (cases "sn_candidate s"; auto simp: starts_def)+
  from assms(3) show ?thesis
  proof
    assume t: "terminator = [BEL]"
    then have "complete_osc b64 False s = (Some (ECommand c), s)"
      using assms other by (simp add: complete_osc_def Let_def)
    then show ?thesis
      using assms(1) t by (simp add: scanner_feed_def feed_string_def Let_def)
  next
    assume t: "terminator = [ESC, CHR 0x5C]"
    let ?e = "s\<lparr>sn_candidate := sn_candidate s @ [ESC], sn_state := InString SkOsc True False\<rparr>"
    have "scanner_feed b64 ESC s = (None, ?e)"
      using assms t by (simp add: scanner_feed_def feed_string_def push_candidate_def Let_def)
    moreover have "complete_osc b64 True (?e\<lparr>sn_candidate := sn_candidate s\<rparr>)
        = (Some (ECommand c), ?e\<lparr>sn_candidate := sn_candidate s\<rparr>)"
      using assms other t by (simp add: complete_osc_def Let_def)
    ultimately show ?thesis
      using t by (simp add: scanner_feed_def feed_string_def Let_def)
  qed
qed

lemma scanner_reads:
  assumes "parse_frame b64 frame = Inr (Command c)" and "CAN \<notin> set frame" and "SUB \<notin> set frame"
    and "sn_state s = Ground"
  shows "scan_events b64 (map SByte frame) s = replicate (length frame - 1) None @ [Some (ECommand c)]
    \<and> sn_state (scan_state_after b64 (map SByte frame) s) = Ground"
proof -
  from assms(1) obtain body terminator where frame: "frame = [ESC, CHR '']''] @ ''7501;'' @ body @ terminator"
    and t: "terminator = [ESC, CHR 0x5C] \<or> terminator = [BEL]"
    and body: "ESC \<notin> set body" "BEL \<notin> set body" "length frame \<le> MAX_FRAME_BYTES"
    by (rule accepted_shape)
  let ?cand = "''7501;'' @ body"
  let ?s = "s\<lparr>sn_state := InString SkOsc False False, sn_candidate := [], sn_oversized := False\<rparr>"
  let ?t = "?s\<lparr>sn_candidate := ?cand\<rparr>"
  have start: "scan_events b64 (map SByte [ESC, CHR '']'']) s = [None, None]"
    "scan_state_after b64 (map SByte [ESC, CHR '']'']) s = ?s"
    using assms(4) by (simp_all add: scanner_feed_def feed_escape_def string_kind_of_def)
  have "set ?cand \<inter> {ESC, BEL, CAN, SUB} = {}"
    using body assms(2,3) frame by (auto simp: ESC_def BEL_def CAN_def SUB_def)
  then have inside: "scan_events b64 (map SByte ?cand) ?s = replicate (length ?cand) None"
    "scan_state_after b64 (map SByte ?cand) ?s = ?t"
    using osc_run [of ?s ?cand b64] body(3) frame by auto
  have finish: "scan_events b64 (map SByte terminator) ?t = replicate (length terminator - 1) None @ [Some (ECommand c)]
      \<and> sn_state (scan_state_after b64 (map SByte terminator) ?t) = Ground"
    by (rule osc_end [OF _ _ t]) (use assms(1) frame body in \<open>simp_all add: starts_def ESC_def\<close>)
  have map: "map SByte frame = map SByte [ESC, CHR '']''] @ map SByte ?cand @ map SByte terminator"
    unfolding frame by simp
  have "replicate (length frame - 1) (None :: program_event option)
      = [None, None] @ replicate (length ?cand) None @ replicate (length terminator - 1) None"
    using t unfolding frame by (auto simp: replicate_add [symmetric] numeral_eq_Suc replicate_append_same)
  then show ?thesis
    unfolding map scan_events_append scan_state_append start inside using finish by simp
qed

text \<open>C39 (scanner_reads_frame). The scanner and the parser compose: every frame the parser accepts,
  delivered byte by byte to a scanner that stands between sequences, is recognised as its command at its
  last byte and not before, and leaves the scanner between sequences again. Only a frame that holds a
  cancel or substitute byte, which a terminal drops, is excepted.\<close>

theorem scanner_reads_frame:
  assumes "parse_frame b64 frame = Inr (Command c)" and "CAN \<notin> set frame" and "SUB \<notin> set frame"
    and "sn_state s = Ground"
  shows "scan_events b64 (map SByte frame) s = replicate (length frame - 1) None @ [Some (ECommand c)]
    \<and> sn_state (scan_state_after b64 (map SByte frame) s) = Ground"
  by (rule scanner_reads [OF assms])

theorem scanner_reads_frame_witness:
  "scan_events no_base64 (map SByte sample_frame) scanner_new
     = replicate (length sample_frame - 1) None @ [Some (ECommand (Replace sample_record))]
   \<and> sn_state (scan_state_after no_base64 (map SByte sample_frame) scanner_new) = Ground"
  by (rule scanner_reads_frame [OF sample_frame_parses]) code_simp+

section \<open>After a loss\<close>

definition resynced :: "string \<Rightarrow> bool" where
  "resynced cs = (\<exists>a b y. cs = a @ [ESC, CHR 0x5C] @ b \<and> y \<in> set a \<and> y \<noteq> ESC)"

lemma resynced_append: "resynced cs \<Longrightarrow> resynced (cs @ ds)"
proof -
  assume "resynced cs"
  then obtain a b y where "cs = a @ [ESC, CHR 0x5C] @ b" "y \<in> set a" "y \<noteq> ESC" by (auto simp: resynced_def)
  then have "cs @ ds = a @ [ESC, CHR 0x5C] @ (b @ ds)" by simp
  with \<open>y \<in> set a\<close> \<open>y \<noteq> ESC\<close> show ?thesis unfolding resynced_def by blast
qed

definition lost_inv :: "string \<Rightarrow> scan_state \<Rightarrow> bool" where
  "lost_inv cs st =
     (resynced cs \<or> (case st of
        LostSync PhUnknown \<Rightarrow> True
      | LostSync PhData \<Rightarrow> (\<exists>y \<in> set cs. y \<noteq> ESC)
      | LostSync PhEscape \<Rightarrow> (\<exists>a. cs = a @ [ESC] \<and> (\<exists>y \<in> set a. y \<noteq> ESC))
      | _ \<Rightarrow> False))"

lemma lost_inv_step:
  assumes "lost_inv cs (sn_state s)"
  shows "lost_inv (cs @ [c]) (sn_state (snd (scanner_feed b64 c s)))"
proof (cases "resynced cs")
  case True
  then show ?thesis by (simp add: lost_inv_def resynced_append)
next
  case False
  then obtain phase where phase: "sn_state s = LostSync phase"
    using assms by (auto simp: lost_inv_def split: scan_state.splits)
  have next_state: "sn_state (snd (scanner_feed b64 c s)) = feed_lost phase c"
    by (simp add: scanner_feed_def phase cancels_def)
  show ?thesis
  proof (cases phase)
    case PhEscape
    then obtain a y where a: "cs = a @ [ESC]" "y \<in> set a" "y \<noteq> ESC"
      using assms False phase by (auto simp: lost_inv_def)
    have "resynced (cs @ [c])" if "c = CHR 0x5C" using a that by (auto simp: resynced_def)
    then show ?thesis using a next_state PhEscape by (auto simp: lost_inv_def)
  qed (use assms False phase next_state in \<open>auto simp: lost_inv_def\<close>)
qed

lemma lost_silent:
  "lost_inv cs (sn_state s) \<Longrightarrow> Some ev \<in> set (scan_events b64 (map SByte ds) s) \<Longrightarrow> resynced (cs @ ds)"
proof (induction ds arbitrary: cs s)
  case Nil
  then show ?case by simp
next
  case (Cons d ds)
  obtain r t where r: "scanner_feed b64 d s = (r, t)" by fastforce
  show ?case
  proof (cases "r = Some ev")
    case True
    then have "\<not> (\<exists>phase. sn_state s = LostSync phase)" using r by (auto simp: scanner_feed_def cancels_def)
    then have "resynced cs" using Cons.prems(1) by (auto simp: lost_inv_def split: scan_state.splits)
    then show ?thesis by (rule resynced_append)
  next
    case False
    then have "Some ev \<in> set (scan_events b64 (map SByte ds) t)" using Cons.prems(2) r by auto
    then have "resynced ((cs @ [d]) @ ds)"
      using Cons.IH [of "cs @ [d]" t] lost_inv_step [OF Cons.prems(1), of d b64] r by simp
    then show ?thesis by simp
  qed
qed

text \<open>After a loss the scanner recognises nothing, no report, prompt or
  reset, until the stream holds a string terminator after some byte that is not an escape: an escape
  and backslash right after the loss are not trusted, since they may end a pair begun before it.\<close>

theorem silent_until_resync:
  assumes "Some ev \<in> set (scan_events b64 (map SByte cs) (scanner_loss s))"
  shows "resynced cs"
proof -
  have "lost_inv [] (sn_state (scanner_loss s))" by (simp add: scanner_loss_def lost_inv_def)
  from lost_silent [OF this assms] show ?thesis by simp
qed

theorem silent_until_resync_witness: "resynced (''x'' @ [ESC, CHR 0x5C, ESC] @ ''c'')"
  by (rule silent_until_resync [of "ELifecycle FullReset" no_base64 _ scanner_new]) code_simp

end
