(* ===== verification/Collector.thy ===== *)
theory Collector
  imports Terminal_Scanner Control_Decoder
begin

text \<open>
  The collector of observed program events (\<open>tma-tmux/src/control/protocol.rs\<close>): one stream per pane
  with its scanner, epoch and sequence, a bounded queue towards the runtime, and the gaps that revoke
  what was delivered before. An ordered map is an association list in the order of its keys. A panic
  of the source is a \<open>collector_panic\<close>: one of the two 64-bit counters is exhausted, or an internal
  assumption fails (an \<open>expect\<close> on its own maps and sums, a byte count below zero). Definitions, and
  the termination of its loop.
\<close>

section \<open>The state\<close>

definition MAX_PROGRAM_EVENTS :: nat where "MAX_PROGRAM_EVENTS = 1024"
definition MAX_PROGRAM_PAYLOAD_BYTES :: nat where "MAX_PROGRAM_PAYLOAD_BYTES = 1024 * 1024"

datatype collector_panic = EpochExhausted | SequenceExhausted | Inconsistent

record observation_boundary =
  ob_connection :: u64
  ob_floor :: u64

record pane_stream =
  st_owner :: session_id
  st_client :: u64
  st_epoch :: u64
  st_sequence :: u64
  st_scanner :: scanner
  st_gap :: "observed_event option"
  st_paused :: bool
  st_quarantine :: bool

record collector =
  co_panes :: "(pane_id \<times> pane_stream) list"
  co_queue :: "observed_event list"
  co_queued_bytes :: nat
  co_candidate_bytes :: nat
  co_budget :: nat
  co_epoch :: u64
  co_topology_ready :: bool
  co_all_invalidated :: bool
  co_departed :: "(pane_id \<times> observed_event) list"
  co_overflows :: nat
  co_retired :: nat

definition collector_with_epoch :: "u64 \<Rightarrow> collector" where
  "collector_with_epoch epoch =
     \<lparr>co_panes = [], co_queue = [], co_queued_bytes = 0, co_candidate_bytes = 0, co_budget = u64_max,
      co_epoch = epoch, co_topology_ready = False, co_all_invalidated = False, co_departed = [],
      co_overflows = 0, co_retired = 0\<rparr>"

section \<open>Ordered maps\<close>

fun put_sorted :: "nat \<Rightarrow> 'v \<Rightarrow> (nat \<times> 'v) list \<Rightarrow> (nat \<times> 'v) list" where
  "put_sorted k v [] = [(k, v)]"
| "put_sorted k v ((l, w) # rest) =
     (if k < l then (k, v) # (l, w) # rest
      else if k = l then (k, v) # rest
      else (l, w) # put_sorted k v rest)"

definition update_stream :: "pane_id \<Rightarrow> (pane_stream \<Rightarrow> pane_stream) \<Rightarrow> collector \<Rightarrow> collector" where
  "update_stream pane f c =
     c\<lparr>co_panes := map (\<lambda>(p, st). (p, if p = pane then f st else st)) (co_panes c)\<rparr>"

definition stream_of :: "collector \<Rightarrow> pane_id \<Rightarrow> pane_stream option" where
  "stream_of c pane = map_of (co_panes c) pane"

section \<open>Accounting\<close>

definition text_length :: "string option \<Rightarrow> nat" where
  "text_length t = (case t of None \<Rightarrow> 0 | Some s \<Rightarrow> length s)"

fun payload_bytes :: "program_event \<Rightarrow> nat" where
  "payload_bytes (ECommand (Replace r)) =
     length (rid_str (rec_id r)) + text_length (map_option app_str (rec_app r))
       + text_length (rec_title r) + text_length (rec_msg r)"
| "payload_bytes (ECommand (Clear i)) = length (rid_str i)"
| "payload_bytes _ = 0"

definition pending_bytes :: "collector \<Rightarrow> nat" where
  "pending_bytes c = co_queued_bytes c + co_candidate_bytes c"

definition queue_bytes :: "observed_event list \<Rightarrow> nat" where
  "queue_bytes q = sum_list (map (\<lambda>e. payload_bytes (oe_event e)) q)"

definition subtract_candidate :: "nat \<Rightarrow> collector \<Rightarrow> collector_panic + collector" where
  "subtract_candidate n c =
     (case checked_sub (co_candidate_bytes c) n of
        None \<Rightarrow> Inl Inconsistent
      | Some m \<Rightarrow> Inr (c\<lparr>co_candidate_bytes := m\<rparr>))"

section \<open>Invalidation\<close>

definition next_epoch :: "collector \<Rightarrow> collector_panic + collector" where
  "next_epoch c =
     (case checked_add (co_epoch c) 1 of
        None \<Rightarrow> Inl EpochExhausted
      | Some e \<Rightarrow> Inr (c\<lparr>co_epoch := e\<rparr>))"

definition discard_queued :: "pane_id \<Rightarrow> collector \<Rightarrow> collector" where
  "discard_queued pane c =
     (let q = filter (\<lambda>e. oe_pane e \<noteq> pane) (co_queue c)
      in c\<lparr>co_queue := q, co_queued_bytes := queue_bytes q\<rparr>)"

definition gap_reason :: "pane_stream \<Rightarrow> observation_gap \<Rightarrow> observation_gap" where
  "gap_reason st reason =
     (if is_some_and (st_gap st) (\<lambda>g. oe_event g = EGap BudgetExceeded) then BudgetExceeded else reason)"

definition invalidated_stream ::
  "pane_id \<Rightarrow> observation_gap \<Rightarrow> bool \<Rightarrow> u64 \<Rightarrow> u64 \<Rightarrow> pane_stream \<Rightarrow> pane_stream" where
  "invalidated_stream pane reason lost epoch sequence st =
     st\<lparr>st_epoch := epoch, st_sequence := sequence,
        st_scanner := (if lost then scanner_loss (st_scanner st) else scanner_boundary (st_scanner st)),
        st_gap := Some \<lparr>oe_pane = pane, oe_connection = epoch, oe_sequence = sequence,
                        oe_event = EGap (gap_reason st reason)\<rparr>\<rparr>"

definition invalidate :: "pane_id \<Rightarrow> observation_gap \<Rightarrow> bool \<Rightarrow> collector \<Rightarrow> collector_panic + collector" where
  "invalidate pane reason lost c =
     (case stream_of c pane of
        None \<Rightarrow> Inr c
      | Some st \<Rightarrow>
          sum_bind (next_epoch (discard_queued pane c)) (\<lambda>c1.
          sum_bind (subtract_candidate (pending_candidate (st_scanner st)) c1) (\<lambda>c2.
          case checked_add (st_sequence st) 1 of
            None \<Rightarrow> Inl SequenceExhausted
          | Some sequence \<Rightarrow>
              Inr (update_stream pane (\<lambda>_. invalidated_stream pane reason lost (co_epoch c2) sequence st) c2))))"

fun invalidate_all ::
  "observation_gap \<Rightarrow> bool \<Rightarrow> pane_id list \<Rightarrow> collector \<Rightarrow> collector_panic + collector" where
  "invalidate_all reason lost [] c = Inr c"
| "invalidate_all reason lost (p # ps) c = sum_bind (invalidate p reason lost c) (invalidate_all reason lost ps)"

definition topology_failed :: "collector \<Rightarrow> collector_panic + collector" where
  "topology_failed c =
     invalidate_all FramingLoss True (map fst (co_panes c)) (c\<lparr>co_topology_ready := False\<rparr>)"

definition client_gap :: "session_id \<Rightarrow> observation_gap \<Rightarrow> collector \<Rightarrow> collector_panic + collector" where
  "client_gap session reason c =
     invalidate_all reason True (map fst (filter (\<lambda>(_, st). st_owner st = session) (co_panes c))) c"

definition collector_boundary ::
  "pane_id \<Rightarrow> bool \<Rightarrow> collector \<Rightarrow> collector_panic + (observation_boundary option \<times> collector)" where
  "collector_boundary pane in_payload_now c =
     map_sum id (\<lambda>c1.
       case stream_of c1 pane of
         None \<Rightarrow> (None, c1)
       | Some st \<Rightarrow>
           (Some \<lparr>ob_connection = st_epoch st, ob_floor = st_sequence st\<rparr>,
            update_stream pane (\<lambda>s. s\<lparr>st_quarantine := in_payload_now\<rparr>) c1))
       (invalidate pane OwnerChanged False c)"

section \<open>The payload budget\<close>

text \<open>The bytes a pane holds: its candidate and its queued events.\<close>

definition pane_bytes :: "collector \<Rightarrow> pane_id \<times> pane_stream \<Rightarrow> nat" where
  "pane_bytes c entry =
     pending_candidate (st_scanner (snd entry)) + queue_bytes (filter (\<lambda>e. oe_pane e = fst entry) (co_queue c))"

text \<open>The heaviest pane, the greatest identifier among equals: \<open>max\<close> of the pairs.\<close>

definition heavier :: "nat \<times> pane_id \<Rightarrow> nat \<times> pane_id \<Rightarrow> nat \<times> pane_id" where
  "heavier a b = (if fst a < fst b \<or> fst a = fst b \<and> snd a \<le> snd b then b else a)"

definition budget_victim :: "collector \<Rightarrow> pane_id option" where
  "budget_victim c =
     (case filter (\<lambda>(bytes, _). 0 < bytes) (map (\<lambda>entry. (pane_bytes c entry, fst entry)) (co_panes c)) of
        [] \<Rightarrow> None
      | w # ws \<Rightarrow> Some (snd (fold (\<lambda>x best. heavier best x) ws w)))"

definition loaded_panes :: "collector \<Rightarrow> nat" where
  "loaded_panes c = length (filter (\<lambda>entry. 0 < pane_bytes c entry) (co_panes c))"

lemma heavier_fold: "snd (fold (\<lambda>x best. heavier best x) ws w) \<in> snd ` set (w # ws)"
proof (induction ws arbitrary: w)
  case Nil
  then show ?case by simp
next
  case (Cons v ws)
  have "heavier w v \<in> {w, v}" by (simp add: heavier_def)
  then show ?case using Cons.IH [of "heavier w v"] by auto
qed

lemma budget_victim_loaded:
  assumes "budget_victim c = Some pane"
  shows "\<exists>st. (pane, st) \<in> set (co_panes c) \<and> 0 < pane_bytes c (pane, st)"
proof -
  obtain w ws where w: "filter (\<lambda>(bytes, _). 0 < bytes)
      (map (\<lambda>entry. (pane_bytes c entry, fst entry)) (co_panes c)) = w # ws"
    and pane: "pane = snd (fold (\<lambda>x best. heavier best x) ws w)"
    using assms by (auto simp: budget_victim_def split: list.splits)
  have "pane \<in> snd ` set (w # ws)" using pane heavier_fold by simp
  then show ?thesis unfolding w [symmetric] by auto
qed

lemma invalidate_Inr:
  assumes "invalidate pane reason lost c = Inr c'" and "stream_of c pane = Some st"
  shows "c' = c\<lparr>co_panes := map (\<lambda>(p, s). (p, if p = pane
                then invalidated_stream pane reason lost (co_epoch c + 1) (st_sequence st + 1) st else s)) (co_panes c),
              co_queue := filter (\<lambda>e. oe_pane e \<noteq> pane) (co_queue c),
              co_queued_bytes := queue_bytes (filter (\<lambda>e. oe_pane e \<noteq> pane) (co_queue c)),
              co_candidate_bytes := co_candidate_bytes c - pending_candidate (st_scanner st),
              co_epoch := co_epoch c + 1\<rparr>
    \<and> pending_candidate (st_scanner st) \<le> co_candidate_bytes c
    \<and> co_epoch c + 1 \<le> u64_max \<and> st_sequence st + 1 \<le> u64_max"
  using assms
  by (auto simp: invalidate_def sum_bind_Inr next_epoch_def subtract_candidate_def discard_queued_def
      update_stream_def Let_def cong: if_cong split: option.splits)

lemma suppressed_candidate [simp]:
  "pending_candidate (suppress_candidate s) = 0" "pending_candidate (scanner_boundary s) = 0"
  "pending_candidate (scanner_loss s) = 0"
  by (simp_all add: pending_candidate_def suppress_candidate_def scanner_boundary_def scanner_loss_def Let_def)

lemma queue_bytes_simps [simp]:
  "queue_bytes [] = 0" "queue_bytes (e # q) = payload_bytes (oe_event e) + queue_bytes q"
  "queue_bytes (q @ r) = queue_bytes q + queue_bytes r"
  by (simp_all add: queue_bytes_def)

lemma invalidate_unloads:
  assumes "invalidate pane reason lost c = Inr c'" and "(pane, st) \<in> set (co_panes c)" and "0 < pane_bytes c (pane, st)"
  shows "loaded_panes c' < loaded_panes c"
proof -
  obtain st0 where st0: "stream_of c pane = Some st0"
    using assms(2) by (cases "stream_of c pane") (auto simp: stream_of_def map_of_eq_None_iff image_iff)
  let ?f = "\<lambda>(p, s). (p, if p = pane then invalidated_stream pane reason lost (co_epoch c + 1) (st_sequence st0 + 1) st0 else s)"
  have panes: "co_panes c' = map ?f (co_panes c)" and queue: "co_queue c' = filter (\<lambda>e. oe_pane e \<noteq> pane) (co_queue c)"
    using invalidate_Inr [OF assms(1) st0] by simp_all
  have same: "filter (\<lambda>e. oe_pane e = p) (co_queue c') = filter (\<lambda>e. oe_pane e = p) (co_queue c)" if "p \<noteq> pane" for p
    unfolding queue filter_filter using that by (intro filter_cong) auto
  have none: "filter (\<lambda>e. oe_pane e = pane) (co_queue c') = []" by (simp add: queue)
  have bytes: "pane_bytes c' (?f entry) = (if fst entry = pane then 0 else pane_bytes c entry)" for entry
    using same none by (cases entry) (auto simp: pane_bytes_def invalidated_stream_def)
  have "loaded_panes c' = length (filter (\<lambda>entry. 0 < pane_bytes c' (?f entry)) (co_panes c))"
    by (simp add: loaded_panes_def panes filter_map comp_def)
  also have "\<dots> = length (filter (\<lambda>entry. 0 < pane_bytes c entry \<and> fst entry \<noteq> pane) (co_panes c))"
    unfolding bytes by (rule arg_cong [of _ _ length], rule filter_cong) auto
  also have "\<dots> < loaded_panes c"
    unfolding loaded_panes_def
  proof -
    have "filter (\<lambda>entry. 0 < pane_bytes c entry \<and> fst entry \<noteq> pane) (co_panes c)
        = filter (\<lambda>entry. fst entry \<noteq> pane) (filter (\<lambda>entry. 0 < pane_bytes c entry) (co_panes c))"
      by (simp add: conj_commute)
    also have "length \<dots> < length (filter (\<lambda>entry. 0 < pane_bytes c entry) (co_panes c))"
      by (rule length_filter_less [of "(pane, st)"]) (use assms(2,3) in auto)
    finally show "length (filter (\<lambda>entry. 0 < pane_bytes c entry \<and> fst entry \<noteq> pane) (co_panes c))
        < length (filter (\<lambda>entry. 0 < pane_bytes c entry) (co_panes c))" .
  qed
  finally show ?thesis .
qed

text \<open>The loop of \<open>set_payload_budget\<close>: every round unloads a pane.\<close>

function shed_payload :: "nat \<Rightarrow> collector \<Rightarrow> collector_panic + collector" where
  "shed_payload available c =
     (if pending_bytes c \<le> available then Inr c
      else case budget_victim c of
             None \<Rightarrow> Inr c
           | Some pane \<Rightarrow>
               (case invalidate pane BudgetExceeded False c of
                  Inl e \<Rightarrow> Inl e
                | Inr c1 \<Rightarrow> shed_payload available c1))"
  by pat_completeness auto
termination
  by (relation "measure (\<lambda>(_, c). loaded_panes c)")
    (auto dest!: budget_victim_loaded intro: invalidate_unloads)

definition set_payload_budget :: "nat \<Rightarrow> collector \<Rightarrow> collector_panic + collector" where
  "set_payload_budget available c = shed_payload available (c\<lparr>co_budget := available\<rparr>)"

section \<open>Topology\<close>

text \<open>The panes of the sessions that have a client, each with those sessions, in order.\<close>

definition eligible_sessions ::
  "(session_id \<times> pane_id) list \<Rightarrow> (session_id \<rightharpoonup> u64) \<Rightarrow> pane_id \<Rightarrow> session_id list" where
  "eligible_sessions topology clients pane =
     sort (remdups (map fst (filter (\<lambda>(s, p). p = pane \<and> clients s \<noteq> None) topology)))"

definition eligible_panes ::
  "(session_id \<times> pane_id) list \<Rightarrow> (session_id \<rightharpoonup> u64) \<Rightarrow> pane_id list" where
  "eligible_panes topology clients =
     sort (remdups (map snd (filter (\<lambda>(s, _). clients s \<noteq> None) topology)))"

text \<open>The stream of a removed pane goes; its gap stays until the next drain.\<close>

definition remove_stream :: "pane_id \<Rightarrow> pane_stream \<Rightarrow> collector \<Rightarrow> collector_panic + collector" where
  "remove_stream pane st c =
     (let c1 = c\<lparr>co_panes := filter (\<lambda>(p, _). p \<noteq> pane) (co_panes c),
                 co_retired := co_retired c + sn_rejected (st_scanner st)\<rparr>
      in if MAX_PROGRAM_EVENTS \<le> length (co_departed c1) \<and> map_of (co_departed c1) pane = None
         then invalidate_all QueueOverflow False (map fst (co_panes c1))
                (c1\<lparr>co_overflows := co_overflows c1 + 1, co_all_invalidated := True, co_departed := [],
                    co_queue := [], co_queued_bytes := 0\<rparr>)
         else Inr (case st_gap st of
                     Some g \<Rightarrow> c1\<lparr>co_departed := put_sorted pane g (co_departed c1)\<rparr>
                   | None \<Rightarrow> c1))"

definition retire_pane :: "pane_id \<Rightarrow> collector \<Rightarrow> collector_panic + collector" where
  "retire_pane pane c =
     sum_bind (invalidate pane OwnerChanged False c) (\<lambda>c1.
       case stream_of c1 pane of
         None \<Rightarrow> Inl Inconsistent
       | Some st \<Rightarrow> remove_stream pane st c1)"

fun retire_panes :: "pane_id list \<Rightarrow> collector \<Rightarrow> collector_panic + collector" where
  "retire_panes [] c = Inr c"
| "retire_panes (p # ps) c = sum_bind (retire_pane p c) (retire_panes ps)"

definition new_stream :: "session_id \<Rightarrow> u64 \<Rightarrow> u64 \<Rightarrow> pane_stream" where
  "new_stream owner client epoch =
     \<lparr>st_owner = owner, st_client = client, st_epoch = epoch, st_sequence = 0,
      st_scanner = scanner_unsynchronized, st_gap = None, st_paused = False, st_quarantine = False\<rparr>"

definition adopted_owner :: "collector \<Rightarrow> pane_id \<Rightarrow> session_id list \<Rightarrow> session_id option" where
  "adopted_owner c pane sessions =
     (case stream_of c pane of
        Some st \<Rightarrow> if st_owner st \<in> set sessions then Some (st_owner st)
                   else (case sessions of [] \<Rightarrow> None | s # _ \<Rightarrow> Some s)
      | None \<Rightarrow> (case sessions of [] \<Rightarrow> None | s # _ \<Rightarrow> Some s))"

definition adopt_pane ::
  "(session_id \<rightharpoonup> u64) \<Rightarrow> pane_id \<Rightarrow> session_id list \<Rightarrow> collector \<Rightarrow> collector_panic + collector" where
  "adopt_pane clients pane sessions c =
     (case adopted_owner c pane sessions of
        None \<Rightarrow> Inl Inconsistent
      | Some owner \<Rightarrow>
          (case clients owner of
             None \<Rightarrow> Inl Inconsistent
           | Some client \<Rightarrow>
               (case stream_of c pane of
                  Some st \<Rightarrow>
                    if st_owner st = owner \<and> st_client st = client then Inr c
                    else map_sum id (update_stream pane (\<lambda>s. s\<lparr>st_owner := owner, st_client := client,
                             st_paused := False, st_quarantine := False\<rparr>))
                           (invalidate pane OwnerChanged True c)
                | None \<Rightarrow>
                    map_sum id (\<lambda>c1. c1\<lparr>co_panes := put_sorted pane (new_stream owner client (co_epoch c1)) (co_panes c1)\<rparr>)
                      (next_epoch c))))"

fun adopt_panes ::
  "(session_id \<rightharpoonup> u64) \<Rightarrow> (pane_id \<times> session_id list) list \<Rightarrow> collector \<Rightarrow> collector_panic + collector" where
  "adopt_panes clients [] c = Inr c"
| "adopt_panes clients ((p, ss) # rest) c = sum_bind (adopt_pane clients p ss c) (adopt_panes clients rest)"

definition reconcile ::
  "(session_id \<times> pane_id) list \<Rightarrow> (session_id \<rightharpoonup> u64) \<Rightarrow> collector \<Rightarrow> collector_panic + collector" where
  "reconcile topology clients c =
     (let eligible = map (\<lambda>p. (p, eligible_sessions topology clients p)) (eligible_panes topology clients);
          removed = filter (\<lambda>p. p \<notin> fst ` set eligible) (map fst (co_panes c))
      in sum_bind (retire_panes removed c) (\<lambda>c1.
         sum_bind (adopt_panes clients eligible c1) (\<lambda>c2.
           Inr (c2\<lparr>co_topology_ready := True\<rparr>))))"

section \<open>Events\<close>

definition enqueue :: "pane_id \<Rightarrow> program_event \<Rightarrow> collector \<Rightarrow> collector_panic + collector" where
  "enqueue pane ev c =
     (let bytes = payload_bytes ev in
      case checked_sub (co_budget c) (pending_bytes c) of
        None \<Rightarrow> Inl Inconsistent
      | Some available \<Rightarrow>
          if available < bytes then invalidate pane BudgetExceeded False c
          else if MAX_PROGRAM_EVENTS \<le> length (co_queue c)
                  \<or> MAX_PROGRAM_PAYLOAD_BYTES < co_queued_bytes c + bytes
          then invalidate pane QueueOverflow False (c\<lparr>co_overflows := co_overflows c + 1\<rparr>)
          else case stream_of c pane of
            None \<Rightarrow> Inl Inconsistent
          | Some st \<Rightarrow>
              (case checked_add (st_sequence st) 1 of
                 None \<Rightarrow> Inl SequenceExhausted
               | Some sequence \<Rightarrow>
                   Inr ((update_stream pane (\<lambda>s. s\<lparr>st_sequence := sequence\<rparr>) c)
                        \<lparr>co_queue := co_queue c @ [\<lparr>oe_pane = pane, oe_connection = st_epoch st,
                                                oe_sequence = sequence, oe_event = ev\<rparr>],
                         co_queued_bytes := co_queued_bytes c + bytes\<rparr>)))"

definition replace_scanner :: "pane_id \<Rightarrow> nat \<Rightarrow> scanner \<Rightarrow> collector \<Rightarrow> collector_panic + collector" where
  "replace_scanner pane previous t c =
     map_sum id (\<lambda>c1. c1\<lparr>co_candidate_bytes := co_candidate_bytes c1 + pending_candidate t\<rparr>)
       (subtract_candidate previous (update_stream pane (\<lambda>s. s\<lparr>st_scanner := t\<rparr>) c))"

definition collect_byte :: "base64 \<Rightarrow> pane_id \<Rightarrow> pane_stream \<Rightarrow> char \<Rightarrow> collector \<Rightarrow> collector_panic + collector" where
  "collect_byte b64 pane st ch c =
     (let previous = pending_candidate (st_scanner st) in
      if st_quarantine st then replace_scanner pane previous (feed_quarantined b64 ch (st_scanner st)) c
      else case scanner_feed b64 ch (st_scanner st) of
        (event, t) \<Rightarrow>
          sum_bind (replace_scanner pane previous t c) (\<lambda>c1.
            if co_budget c1 < pending_bytes c1 then invalidate pane BudgetExceeded False c1
            else case event of Some ev \<Rightarrow> enqueue pane ev c1 | None \<Rightarrow> Inr c1))"

definition end_quarantine :: "pane_id \<Rightarrow> pane_stream \<Rightarrow> collector \<Rightarrow> collector_panic + collector" where
  "end_quarantine pane st c =
     map_sum id (update_stream pane (\<lambda>s. s\<lparr>st_scanner := scanner_boundary (st_scanner s), st_quarantine := False\<rparr>))
       (subtract_candidate (pending_candidate (st_scanner st)) c)"

fun decoded_pane :: "decoded \<Rightarrow> pane_id option" where
  "decoded_pane (DStart p) = Some p"
| "decoded_pane (DByte p _) = Some p"
| "decoded_pane (DEnd p) = Some p"
| "decoded_pane (DPause p) = Some p"
| "decoded_pane (DContinue p) = Some p"
| "decoded_pane (DGap p _) = p"
| "decoded_pane _ = None"

text \<open>What an item does to the stream it is for.\<close>

definition stream_item :: "base64 \<Rightarrow> pane_id \<Rightarrow> pane_stream \<Rightarrow> decoded \<Rightarrow> collector \<Rightarrow> collector_panic + collector" where
  "stream_item b64 pane st item c =
     (case item of
        DPause _ \<Rightarrow> invalidate pane Paused True (update_stream pane (\<lambda>s. s\<lparr>st_paused := True\<rparr>) c)
      | DContinue _ \<Rightarrow> invalidate pane Paused True (update_stream pane (\<lambda>s. s\<lparr>st_paused := False\<rparr>) c)
      | DGap _ reason \<Rightarrow> invalidate pane reason True c
      | DByte _ ch \<Rightarrow> if st_paused st then Inr c else collect_byte b64 pane st ch c
      | DEnd _ \<Rightarrow> if st_quarantine st then end_quarantine pane st c else Inr c
      | _ \<Rightarrow> Inr c)"

definition collector_decoded ::
  "base64 \<Rightarrow> session_id \<Rightarrow> u64 \<Rightarrow> decoded \<Rightarrow> collector \<Rightarrow> collector_panic + collector" where
  "collector_decoded b64 session client item c =
     (case item of
        DGap None reason \<Rightarrow> client_gap session reason c
      | _ \<Rightarrow>
          (case decoded_pane item of
             None \<Rightarrow> Inr c
           | Some pane \<Rightarrow>
               if \<not> co_topology_ready c then Inr c
               else case stream_of c pane of
                 None \<Rightarrow> Inr c
               | Some st \<Rightarrow>
                   if st_owner st \<noteq> session \<or> st_client st \<noteq> client then Inr c
                   else stream_item b64 pane st item c))"

section \<open>The consumer\<close>

record program_drain =
  dr_all_invalidated :: bool
  dr_invalidations :: "observed_event list"
  dr_observations :: "observed_event list"

definition drain :: "collector \<Rightarrow> program_drain \<times> collector" where
  "drain c =
     (\<lparr>dr_all_invalidated = co_all_invalidated c,
       dr_invalidations = map snd (co_departed c)
         @ concat (map (\<lambda>(_, st). case st_gap st of Some g \<Rightarrow> [g] | None \<Rightarrow> []) (co_panes c)),
       dr_observations = co_queue c\<rparr>,
      c\<lparr>co_departed := [], co_panes := map (\<lambda>(p, st). (p, st\<lparr>st_gap := None\<rparr>)) (co_panes c),
        co_queued_bytes := 0, co_all_invalidated := False, co_queue := []\<rparr>)"

record stream_state =
  ss_connection :: u64
  ss_pending_gap :: "observation_gap option"

definition gap_of :: "observed_event \<Rightarrow> observation_gap option" where
  "gap_of e = (case oe_event e of EGap reason \<Rightarrow> Some reason | _ \<Rightarrow> None)"

definition collector_owner :: "pane_id \<Rightarrow> collector \<Rightarrow> (session_id \<times> u64) option" where
  "collector_owner pane c = map_option (\<lambda>st. (st_owner st, st_client st)) (stream_of c pane)"

definition collector_stream :: "pane_id \<Rightarrow> collector \<Rightarrow> stream_state option" where
  "collector_stream pane c =
     (if \<not> co_topology_ready c \<or> co_all_invalidated c then None
      else map_option (\<lambda>st. \<lparr>ss_connection = st_epoch st, ss_pending_gap = Option.bind (st_gap st) gap_of\<rparr>)
             (stream_of c pane))"

record program_stats =
  ps_tracked_panes :: nat
  ps_queued_events :: nat
  ps_pending_gaps :: nat
  ps_pending_payload_bytes :: nat
  ps_rejected_frames :: nat
  ps_queue_overflows :: nat
  ps_topology_ready :: bool

definition collector_stats :: "collector \<Rightarrow> program_stats" where
  "collector_stats c =
     \<lparr>ps_tracked_panes = length (co_panes c), ps_queued_events = length (co_queue c),
      ps_pending_gaps = (if co_all_invalidated c then 1 else 0) + length (co_departed c)
        + length (filter (\<lambda>(_, st). st_gap st \<noteq> None) (co_panes c)),
      ps_pending_payload_bytes = pending_bytes c,
      ps_rejected_frames = co_retired c + sum_list (map (\<lambda>(_, st). sn_rejected (st_scanner st)) (co_panes c)),
      ps_queue_overflows = co_overflows c, ps_topology_ready = co_topology_ready c\<rparr>"

section \<open>Runs\<close>

datatype collector_op =
    CBudget nat
  | CTopologyFailed
  | CReconcile "(session_id \<times> pane_id) list" "session_id \<rightharpoonup> u64"
  | CClientGap session_id observation_gap
  | CBoundary pane_id bool
  | CDecoded session_id u64 decoded
  | CDrain

definition no_output :: "collector_panic + collector \<Rightarrow> collector_panic + (program_drain list \<times> collector)" where
  "no_output r = map_sum id (Pair []) r"

fun collector_exec ::
  "base64 \<Rightarrow> collector_op \<Rightarrow> collector \<Rightarrow> collector_panic + (program_drain list \<times> collector)" where
  "collector_exec b64 (CBudget n) c = no_output (set_payload_budget n c)"
| "collector_exec b64 CTopologyFailed c = no_output (topology_failed c)"
| "collector_exec b64 (CReconcile topology clients) c = no_output (reconcile topology clients c)"
| "collector_exec b64 (CClientGap session reason) c = no_output (client_gap session reason c)"
| "collector_exec b64 (CBoundary pane inside) c = no_output (map_sum id snd (collector_boundary pane inside c))"
| "collector_exec b64 (CDecoded session client item) c = no_output (collector_decoded b64 session client item c)"
| "collector_exec b64 CDrain c = (case drain c of (d, c1) \<Rightarrow> Inr ([d], c1))"

text \<open>A run answers what was drained, in order.\<close>

fun collector_run ::
  "base64 \<Rightarrow> collector_op list \<Rightarrow> collector \<Rightarrow> collector_panic + (program_drain list \<times> collector)" where
  "collector_run b64 [] c = Inr ([], c)"
| "collector_run b64 (x # xs) c =
     sum_bind (collector_exec b64 x c) (\<lambda>(out, c1).
       map_sum id (\<lambda>(rest, c2). (out @ rest, c2)) (collector_run b64 xs c1))"

end
