(* ===== verification/Collector_Invariant.thy ===== *)
theory Collector_Invariant
  imports Collector Scanner_Properties
begin

text \<open>
  The invariant of the collector: its byte counts are the sums they stand for, every queued event is of
  a tracked stream at its current epoch, sequences of a stream increase and lie above its pending gap,
  queue, departures and retained bytes are within their limits. Every operation keeps it, and no
  operation panics on an internal assumption.
\<close>

section \<open>Results\<close>

definition consistent :: "('a \<Rightarrow> bool) \<Rightarrow> collector_panic + 'a \<Rightarrow> bool" where
  "consistent P r = (case r of Inl e \<Rightarrow> e \<noteq> Inconsistent | Inr c \<Rightarrow> P c)"

lemma consistent_simps [simp]:
  "consistent P (Inl e) \<longleftrightarrow> e \<noteq> Inconsistent" "consistent P (Inr c) \<longleftrightarrow> P c"
  by (simp_all add: consistent_def)

lemma consistent_bind:
  "consistent P r \<Longrightarrow> (\<And>c. P c \<Longrightarrow> consistent Q (f c)) \<Longrightarrow> consistent Q (sum_bind r f)"
  by (cases r) simp_all

lemma consistent_map:
  "consistent P r \<Longrightarrow> (\<And>c. P c \<Longrightarrow> Q (f c)) \<Longrightarrow> consistent Q (map_sum id f r)"
  by (cases r) simp_all

lemma consistent_mono: "consistent P r \<Longrightarrow> (\<And>c. P c \<Longrightarrow> Q c) \<Longrightarrow> consistent Q r"
  by (cases r) simp_all

section \<open>Ordered maps\<close>

abbreviation ordered_keys :: "(nat \<times> 'v) list \<Rightarrow> bool" where
  "ordered_keys xs \<equiv> sorted_wrt (<) (map fst xs)"

lemma put_sorted_keys: "fst ` set (put_sorted k v xs) = insert k (fst ` set xs)"
proof (induction xs)
  case (Cons x xs)
  then show ?case by (cases x; cases "k = fst x"; cases "k < fst x") (simp_all add: insert_commute)
qed simp

lemma put_sorted_set: "set (put_sorted k v xs) \<subseteq> insert (k, v) (set xs)"
  by (induction xs) (auto split: if_splits)

lemma put_sorted_ordered: "ordered_keys xs \<Longrightarrow> ordered_keys (put_sorted k v xs)"
proof (induction xs)
  case (Cons x xs)
  then have "ordered_keys (put_sorted k v xs)" by simp
  then show ?case using Cons.prems put_sorted_keys [of k v xs] by (cases x) fastforce
qed simp

lemma put_sorted_map_of: "map_of (put_sorted k v xs) = (map_of xs)(k \<mapsto> v)"
  by (induction xs) (auto simp: fun_eq_iff)

lemma put_sorted_length:
  "ordered_keys xs \<Longrightarrow> length (put_sorted k v xs) = (if map_of xs k = None then Suc (length xs) else length xs)"
proof (induction xs)
  case (Cons x xs)
  obtain l w where x: "x = (l, w)" by (cases x)
  have "k < l \<Longrightarrow> map_of xs k = None"
    using Cons.prems by (auto simp: x map_of_eq_None_iff)
  then show ?case using Cons by (auto simp: x)
qed simp

lemma put_sorted_sum:
  "map_of xs k = None \<Longrightarrow> ordered_keys xs \<Longrightarrow>
     sum_list (map f (put_sorted k v xs)) = (f (k, v) :: nat) + sum_list (map f xs)"
  by (induction xs) (auto split: if_splits)

lemma ordered_distinct: "ordered_keys xs \<Longrightarrow> distinct (map fst xs)"
  by (simp add: strict_sorted_iff)

lemma map_keys [simp]: "map fst (map (\<lambda>(p, s). (p, f p s)) xs) = map fst xs"
  by (induction xs) auto

lemma map_of_map_keys: "map_of (map (\<lambda>(p, s). (p, f p s)) xs) q = map_option (f q) (map_of xs q)"
  by (induction xs) auto

lemma ordered_filter: "ordered_keys xs \<Longrightarrow> ordered_keys (filter Q xs)"
  by (induction xs) auto

lemma sum_change_one:
  assumes "ordered_keys xs" and "map_of xs k = Some v"
  shows "sum_list (map (\<lambda>(p, s). g (if p = k then h s else s)) xs) + (g v :: nat)
    = sum_list (map (\<lambda>(p, s). g s) xs) + g (h v)"
  using assms
proof (induction xs)
  case (Cons x xs)
  obtain l w where x: "x = (l, w)" by (cases x)
  show ?case
  proof (cases "l = k")
    case True
    then have "k \<notin> fst ` set xs" using Cons.prems by (auto simp: x)
    then have "sum_list (map (\<lambda>(p, s). g (if p = k then h s else s)) xs) = sum_list (map (\<lambda>(p, s). g s) xs)"
      by (intro arg_cong [where f = sum_list] map_cong) (auto simp: image_iff)
    then show ?thesis using Cons.prems True by (simp add: x)
  next
    case False
    then show ?thesis using Cons by (simp add: x)
  qed
qed simp

lemma sum_filter_key:
  assumes "ordered_keys xs" and "map_of xs k = Some v"
  shows "sum_list (map (\<lambda>(p, s). g s) (filter (\<lambda>(p, _). p \<noteq> k) xs)) + (g v :: nat) = sum_list (map (\<lambda>(p, s). g s) xs)"
  using assms
proof (induction xs)
  case (Cons x xs)
  obtain l w where x: "x = (l, w)" by (cases x)
  show ?case
  proof (cases "l = k")
    case True
    then have "k \<notin> fst ` set xs" using Cons.prems by (auto simp: x)
    then have "filter (\<lambda>(p, _). p \<noteq> k) xs = xs" by (force simp: filter_id_conv)
    then show ?thesis using Cons.prems True by (simp add: x)
  next
    case False
    then show ?thesis using Cons by (simp add: x)
  qed
qed simp

lemma map_of_filter_key: "map_of (filter (\<lambda>(p, _). p \<noteq> k) xs) q = (if q = k then None else map_of xs q)"
  by (induction xs) auto

section \<open>The invariant\<close>

definition gap_ok :: "u64 \<Rightarrow> pane_id \<Rightarrow> observed_event \<Rightarrow> bool" where
  "gap_ok epoch pane g = (oe_pane g = pane \<and> oe_connection g \<le> epoch \<and> gap_of g \<noteq> None)"

definition stream_ok :: "u64 \<Rightarrow> pane_id \<Rightarrow> pane_stream \<Rightarrow> bool" where
  "stream_ok epoch pane st =
     (st_epoch st \<le> epoch
      \<and> (\<forall>g. st_gap st = Some g \<longrightarrow>
            gap_ok epoch pane g \<and> oe_connection g = st_epoch st \<and> oe_sequence g \<le> st_sequence st))"

text \<open>A queued event is of the current epoch of its stream and comes after the stream's pending gap.\<close>

definition event_ok :: "(pane_id \<times> pane_stream) list \<Rightarrow> observed_event \<Rightarrow> bool" where
  "event_ok panes e =
     (\<exists>st. map_of panes (oe_pane e) = Some st \<and> oe_connection e = st_epoch st
        \<and> oe_sequence e \<le> st_sequence st \<and> (\<forall>g. st_gap st = Some g \<longrightarrow> oe_sequence g < oe_sequence e))"

definition follows :: "observed_event \<Rightarrow> observed_event \<Rightarrow> bool" where
  "follows a b = (oe_pane a = oe_pane b \<longrightarrow> oe_sequence a < oe_sequence b)"

definition candidates :: "(pane_id \<times> pane_stream) list \<Rightarrow> nat" where
  "candidates panes = sum_list (map (\<lambda>(p, st). pending_candidate (st_scanner st)) panes)"

definition panes_ok :: "collector \<Rightarrow> bool" where
  "panes_ok c =
     (ordered_keys (co_panes c) \<and> co_candidate_bytes c = candidates (co_panes c)
      \<and> (\<forall>p st. map_of (co_panes c) p = Some st \<longrightarrow> stream_ok (co_epoch c) p st))"

definition queue_ok :: "collector \<Rightarrow> bool" where
  "queue_ok c =
     (co_queued_bytes c = queue_bytes (co_queue c) \<and> length (co_queue c) \<le> MAX_PROGRAM_EVENTS
      \<and> co_queued_bytes c \<le> MAX_PROGRAM_PAYLOAD_BYTES
      \<and> (\<forall>e \<in> set (co_queue c). event_ok (co_panes c) e) \<and> sorted_wrt follows (co_queue c)
      \<and> (\<not> co_topology_ready c \<longrightarrow> co_queue c = []))"

definition departed_ok :: "collector \<Rightarrow> bool" where
  "departed_ok c =
     (ordered_keys (co_departed c) \<and> length (co_departed c) \<le> MAX_PROGRAM_EVENTS
      \<and> (\<forall>(p, g) \<in> set (co_departed c). gap_ok (co_epoch c) p g))"

definition collector_sane :: "collector \<Rightarrow> bool" where
  "collector_sane c = (panes_ok c \<and> queue_ok c \<and> departed_ok c)"

definition collector_ok :: "collector \<Rightarrow> bool" where
  "collector_ok c = (collector_sane c \<and> pending_bytes c \<le> co_budget c)"

lemmas sane_defs = collector_sane_def panes_ok_def queue_ok_def departed_ok_def

lemma collector_ok_new: "collector_ok (collector_with_epoch e)"
  by (simp add: collector_ok_def sane_defs collector_with_epoch_def candidates_def pending_bytes_def)

text \<open>Changes that leave panes, queue and departures alone.\<close>

lemma sane_irrelevant [simp]:
  "collector_sane (c\<lparr>co_budget := n\<rparr>) = collector_sane c"
  "collector_sane (c\<lparr>co_overflows := k\<rparr>) = collector_sane c"
  "pending_bytes (c\<lparr>co_overflows := k\<rparr>) = pending_bytes c"
  "pending_bytes (c\<lparr>co_budget := n\<rparr>) = pending_bytes c"
  by (simp_all add: sane_defs pending_bytes_def)

lemma gap_ok_mono: "gap_ok e p g \<Longrightarrow> e \<le> e' \<Longrightarrow> gap_ok e' p g"
  by (simp add: gap_ok_def)

lemma stream_ok_mono: "stream_ok e p st \<Longrightarrow> e \<le> e' \<Longrightarrow> stream_ok e' p st"
  by (auto simp: stream_ok_def intro: gap_ok_mono)

lemma departed_ok_mono:
  "departed_ok c \<Longrightarrow> co_departed c' = co_departed c \<Longrightarrow> co_epoch c \<le> co_epoch c' \<Longrightarrow> departed_ok c'"
  by (auto simp: departed_ok_def intro: gap_ok_mono)

lemma event_okI:
  assumes "event_ok panes e" and "map_of panes' (oe_pane e) = map_of panes (oe_pane e)"
  shows "event_ok panes' e"
  using assms by (simp add: event_ok_def)

lemma queue_bytes_split:
  "queue_bytes (filter (\<lambda>e. oe_pane e \<noteq> p) q) + queue_bytes (filter (\<lambda>e. oe_pane e = p) q) = queue_bytes q"
  by (induction q) simp_all

lemma candidate_in_sum:
  assumes "ordered_keys panes" and "map_of panes p = Some st"
  shows "pending_candidate (st_scanner st) \<le> candidates panes"
  using sum_filter_key [OF assms, of "\<lambda>s. pending_candidate (st_scanner s)"] by (simp add: candidates_def)

section \<open>Invalidation\<close>

lemma invalidate_consistent:
  assumes "collector_sane c"
  shows "consistent (\<lambda>_. True) (invalidate pane reason lost c)"
proof (cases "stream_of c pane")
  case None
  then show ?thesis by (simp add: invalidate_def)
next
  case (Some st)
  have "pending_candidate (st_scanner st) \<le> co_candidate_bytes c"
    using assms Some candidate_in_sum by (simp add: sane_defs stream_of_def)
  then show ?thesis
    using Some by (auto simp: invalidate_def next_epoch_def subtract_candidate_def discard_queued_def
        Let_def checked_sub_def consistent_def split: option.splits)
qed

lemma invalidated_stream_ok:
  "epoch \<le> e \<Longrightarrow> stream_ok e pane (invalidated_stream pane reason lost epoch n st)"
  by (auto simp: stream_ok_def invalidated_stream_def gap_ok_def gap_of_def)

lemma invalidate_sane:
  assumes "collector_sane c" and "invalidate pane reason lost c = Inr c'" and st: "stream_of c pane = Some st"
  shows "collector_sane c' \<and> pending_bytes c' + pane_bytes c (pane, st) = pending_bytes c \<and> co_budget c' = co_budget c"
proof -
  define inv where "inv = invalidated_stream pane reason lost (co_epoch c + 1) (st_sequence st + 1) st"
  define q where "q = filter (\<lambda>e. oe_pane e \<noteq> pane) (co_queue c)"
  define panes where "panes = map (\<lambda>(p, s). (p, if p = pane then inv else s)) (co_panes c)"
  have c': "c' = c\<lparr>co_panes := panes, co_queue := q, co_queued_bytes := queue_bytes q,
      co_candidate_bytes := co_candidate_bytes c - pending_candidate (st_scanner st), co_epoch := co_epoch c + 1\<rparr>"
    and cand: "pending_candidate (st_scanner st) \<le> co_candidate_bytes c"
    using invalidate_Inr [OF assms(2) st] unfolding inv_def q_def panes_def by blast+
  have ordered: "ordered_keys (co_panes c)" and sums: "co_candidate_bytes c = candidates (co_panes c)"
    and bytes: "co_queued_bytes c = queue_bytes (co_queue c)"
    using assms(1) by (simp_all add: sane_defs)
  have look: "map_of panes q = map_option (\<lambda>s. if q = pane then inv else s) (map_of (co_panes c) q)" for q
    unfolding panes_def by (rule map_of_map_keys)
  have free: "pending_candidate (st_scanner inv) = 0" by (simp add: inv_def invalidated_stream_def)
  have split: "queue_bytes q + queue_bytes (filter (\<lambda>e. oe_pane e = pane) (co_queue c)) = queue_bytes (co_queue c)"
    unfolding q_def by (rule queue_bytes_split)
  have "candidates panes + pending_candidate (st_scanner st) = candidates (co_panes c) + pending_candidate (st_scanner inv)"
    using sum_change_one [OF ordered, of pane st "\<lambda>s. pending_candidate (st_scanner s)" "\<lambda>_. inv"] st
    by (simp add: candidates_def panes_def stream_of_def comp_def case_prod_unfold)
  then have total: "candidates panes = co_candidate_bytes c - pending_candidate (st_scanner st)"
    using sums free by simp
  have keys: "map fst panes = map fst (co_panes c)" unfolding panes_def by (rule map_keys)
  have "stream_ok (co_epoch c + 1) p s" if "map_of panes p = Some s" for p s
  proof (cases "p = pane")
    case True
    then have "s = inv" using that by (auto simp: look)
    then show ?thesis using True invalidated_stream_ok by (simp add: inv_def)
  next
    case False
    then have "map_of (co_panes c) p = Some s" using that by (auto simp: look)
    then have "stream_ok (co_epoch c) p s" using assms(1) by (simp add: sane_defs)
    then show ?thesis by (rule stream_ok_mono) simp
  qed
  then have "panes_ok c'"
    unfolding panes_ok_def c' using ordered keys total by simp
  moreover have "queue_ok c'"
  proof -
    have "event_ok panes e" if "e \<in> set q" for e
    proof -
      have "oe_pane e \<noteq> pane" "event_ok (co_panes c) e" using that assms(1) by (auto simp: q_def sane_defs)
      then show ?thesis by (simp add: event_ok_def look option.map_ident)
    qed
    moreover have "length q \<le> length (co_queue c)" "sorted_wrt follows q"
      using assms(1) by (simp_all add: q_def sane_defs sorted_wrt_filter)
    moreover have "length (co_queue c) \<le> MAX_PROGRAM_EVENTS" "queue_bytes (co_queue c) \<le> MAX_PROGRAM_PAYLOAD_BYTES"
      "\<not> co_topology_ready c \<Longrightarrow> q = []"
      using assms(1) by (auto simp: q_def sane_defs)
    ultimately show ?thesis
      using split by (auto simp: queue_ok_def c')
  qed
  moreover have "departed_ok c'"
    using assms(1) by - (rule departed_ok_mono [of c]; simp add: c' collector_sane_def)
  ultimately show ?thesis
    using split cand bytes by (simp add: collector_sane_def c' pending_bytes_def pane_bytes_def)
qed

text \<open>Every step of the collector answers a result of this shape: the budget is kept where it was met.\<close>

definition keeps :: "collector \<Rightarrow> collector \<Rightarrow> bool" where
  "keeps c c' = (collector_sane c' \<and> co_budget c' = co_budget c \<and> pending_bytes c' \<le> pending_bytes c)"

lemma keeps_refl: "collector_sane c \<Longrightarrow> keeps c c"
  by (simp add: keeps_def)

lemma keeps_trans: "keeps a b \<Longrightarrow> keeps b c \<Longrightarrow> keeps a c"
  by (simp add: keeps_def)

lemma keeps_sane: "keeps c c' \<Longrightarrow> collector_sane c'"
  by (simp add: keeps_def)

lemma keeps_ok: "keeps c c' \<Longrightarrow> collector_ok c \<Longrightarrow> collector_ok c'"
  by (simp add: keeps_def collector_ok_def)

lemma invalidate_keeps:
  assumes "collector_sane c"
  shows "consistent (keeps c) (invalidate pane reason lost c)"
proof (cases "invalidate pane reason lost c")
  case (Inl e)
  then show ?thesis using invalidate_consistent [OF assms, of pane reason lost] by simp
next
  case (Inr c')
  show ?thesis
  proof (cases "stream_of c pane")
    case None
    then show ?thesis using assms by (simp add: invalidate_def keeps_refl)
  next
    case (Some st)
    then show ?thesis using invalidate_sane [OF assms Inr Some] Inr by (simp add: keeps_def)
  qed
qed

lemma invalidate_all_keeps:
  "collector_sane c \<Longrightarrow> consistent (keeps c) (invalidate_all reason lost ps c)"
proof (induction ps arbitrary: c)
  case Nil
  then show ?case by (simp add: keeps_refl)
next
  case (Cons p ps)
  show ?case
    unfolding invalidate_all.simps
    by (rule consistent_bind [OF invalidate_keeps [OF Cons.prems]])
      (blast intro: consistent_mono [OF Cons.IH] keeps_sane keeps_trans)
qed

lemma invalidate_keys: "invalidate pane reason lost c = Inr c' \<Longrightarrow> map fst (co_panes c') = map fst (co_panes c)"
proof (cases "stream_of c pane")
  case (Some st)
  moreover assume "invalidate pane reason lost c = Inr c'"
  ultimately show ?thesis
    using invalidate_Inr [of pane reason lost c c' st] map_keys [of "\<lambda>p s. if p = pane
      then invalidated_stream pane reason lost (co_epoch c + 1) (st_sequence st + 1) st else s" "co_panes c"]
    by auto
qed (simp add: invalidate_def)

lemma queue_tracked:
  "collector_sane c \<Longrightarrow> e \<in> set (co_queue c) \<Longrightarrow> stream_of c (oe_pane e) \<noteq> None"
  by (auto simp: sane_defs event_ok_def stream_of_def)

lemma invalidate_queue:
  assumes "collector_sane c" and "invalidate pane reason lost c = Inr c'"
  shows "co_queue c' = filter (\<lambda>e. oe_pane e \<noteq> pane) (co_queue c)"
proof (cases "stream_of c pane")
  case None
  then have "co_queue c = filter (\<lambda>e. oe_pane e \<noteq> pane) (co_queue c)"
    using queue_tracked [OF assms(1)] by (intro filter_True [symmetric] ballI notI) blast
  then show ?thesis using assms(2) None by (simp add: invalidate_def)
next
  case (Some st)
  then show ?thesis using invalidate_Inr [OF assms(2) Some] by simp
qed

lemma invalidate_all_effect:
  assumes "collector_sane c" and "invalidate_all reason lost ps c = Inr c'"
  shows "co_queue c' = filter (\<lambda>e. oe_pane e \<notin> set ps) (co_queue c) \<and> map fst (co_panes c') = map fst (co_panes c)"
  using assms
proof (induction ps arbitrary: c)
  case (Cons p ps)
  then obtain c1 where c1: "invalidate p reason lost c = Inr c1" "invalidate_all reason lost ps c1 = Inr c'"
    by (auto simp: sum_bind_Inr)
  have "collector_sane c1" using invalidate_keeps [OF Cons.prems(1), of p reason lost] c1(1) by (simp add: keeps_def)
  from Cons.IH [OF this c1(2)] invalidate_queue [OF Cons.prems(1) c1(1)] invalidate_keys [OF c1(1)]
  show ?case by (simp add: conj_commute cong: conj_cong)
qed simp

lemma invalidate_ready:
  "invalidate pane reason lost (c\<lparr>co_topology_ready := b\<rparr>)
     = map_sum id (\<lambda>c. c\<lparr>co_topology_ready := b\<rparr>) (invalidate pane reason lost c)"
  by (simp add: invalidate_def next_epoch_def subtract_candidate_def discard_queued_def stream_of_def
      update_stream_def Let_def split: option.split)

lemma invalidate_all_ready:
  "invalidate_all reason lost ps (c\<lparr>co_topology_ready := b\<rparr>)
     = map_sum id (\<lambda>c. c\<lparr>co_topology_ready := b\<rparr>) (invalidate_all reason lost ps c)"
proof (induction ps arbitrary: c)
  case (Cons p ps)
  show ?case using Cons.IH by (cases "invalidate p reason lost c") (simp_all add: invalidate_ready)
qed simp

section \<open>Topology failures, client gaps, boundaries\<close>

lemma topology_failed_keeps:
  assumes "collector_sane c"
  shows "consistent (keeps c) (topology_failed c)"
proof -
  have "consistent (\<lambda>c1. keeps c c1 \<and> co_queue c1 = []) (invalidate_all FramingLoss True (map fst (co_panes c)) c)"
  proof (cases "invalidate_all FramingLoss True (map fst (co_panes c)) c")
    case (Inr c1)
    have "set (co_queue c1) = {}"
      using invalidate_all_effect [OF assms Inr] queue_tracked [OF assms]
      by (force simp: stream_of_def map_of_eq_None_iff)
    then show ?thesis
      using Inr invalidate_all_keeps [OF assms, of FramingLoss True "map fst (co_panes c)"] by simp
  qed (use invalidate_all_keeps [OF assms, of FramingLoss True "map fst (co_panes c)"] in simp)
  then show ?thesis
    unfolding topology_failed_def invalidate_all_ready
    by (rule consistent_map) (auto simp: keeps_def sane_defs pending_bytes_def)
qed

lemma client_gap_keeps: "collector_sane c \<Longrightarrow> consistent (keeps c) (client_gap session reason c)"
  unfolding client_gap_def by (rule invalidate_all_keeps)

text \<open>A change of a stream that keeps its epoch, sequence, gap and candidate.\<close>

lemma update_sane:
  assumes "collector_sane c"
    and "\<And>s. st_epoch (f s) = st_epoch s \<and> st_sequence (f s) = st_sequence s \<and> st_gap (f s) = st_gap s
            \<and> st_scanner (f s) = st_scanner s"
  shows "keeps c (update_stream pane f c)"
proof -
  define panes where "panes = map (\<lambda>(p, st). (p, if p = pane then f st else st)) (co_panes c)"
  have look: "map_of panes q = map_option (\<lambda>s. if q = pane then f s else s) (map_of (co_panes c) q)" for q
    unfolding panes_def by (rule map_of_map_keys)
  have keys: "map fst panes = map fst (co_panes c)" unfolding panes_def by (rule map_keys)
  have "candidates panes = candidates (co_panes c)"
    unfolding candidates_def panes_def map_map
    by (intro arg_cong [where f = sum_list] map_cong refl) (auto simp: assms(2))
  moreover have "stream_ok (co_epoch c) p s" if "map_of panes p = Some s" for p s
  proof -
    from that obtain s0 where "map_of (co_panes c) p = Some s0" "s = (if p = pane then f s0 else s0)"
      by (auto simp: look)
    then show ?thesis using assms by (auto simp: sane_defs stream_ok_def)
  qed
  moreover have "event_ok panes e" if "event_ok (co_panes c) e" for e
    using that assms(2) unfolding event_ok_def look by force
  ultimately show ?thesis
    using assms(1) keys
    unfolding keeps_def sane_defs update_stream_def pending_bytes_def panes_def [symmetric] by simp
qed

lemma boundary_keeps:
  assumes "collector_sane c"
  shows "consistent (\<lambda>(_, c'). keeps c c') (collector_boundary pane inside c)"
  unfolding collector_boundary_def
proof (rule consistent_map [OF invalidate_keeps [OF assms]])
  fix c1 assume c1: "keeps c c1"
  have "keeps c1 (update_stream pane (\<lambda>s. s\<lparr>st_quarantine := inside\<rparr>) c1)"
    by (rule update_sane [OF keeps_sane [OF c1]]) simp
  then show "case (case stream_of c1 pane of None \<Rightarrow> (None, c1)
      | Some st \<Rightarrow> (Some \<lparr>ob_connection = st_epoch st, ob_floor = st_sequence st\<rparr>,
            update_stream pane (\<lambda>s. s\<lparr>st_quarantine := inside\<rparr>) c1)) of (_, c') \<Rightarrow> keeps c c'"
    using c1 by (auto intro: keeps_trans split: option.split)
qed

section \<open>The payload budget\<close>

lemma queue_bytes_zero:
  "(\<forall>e \<in> set q. queue_bytes (filter (\<lambda>x. oe_pane x = oe_pane e) q) = 0) \<Longrightarrow> queue_bytes q = 0"
proof -
  assume *: "\<forall>e \<in> set q. queue_bytes (filter (\<lambda>x. oe_pane x = oe_pane e) q) = 0"
  have "payload_bytes (oe_event e) = 0" if "e \<in> set q" for e
    using bspec [OF * that] that by (simp add: queue_bytes_def)
  then show ?thesis by (simp add: queue_bytes_def)
qed

lemma no_victim:
  assumes "collector_sane c" and "budget_victim c = None"
  shows "pending_bytes c = 0"
proof -
  have light: "pane_bytes c (p, st) = 0" if "(p, st) \<in> set (co_panes c)" for p st
    using assms(2) that by (force simp: budget_victim_def filter_empty_conv split: list.splits)
  have "candidates (co_panes c) = 0"
    using light by (auto simp: candidates_def pane_bytes_def)
  moreover have "queue_bytes (co_queue c) = 0"
  proof (rule queue_bytes_zero, rule ballI)
    fix e assume "e \<in> set (co_queue c)"
    then obtain st where "(oe_pane e, st) \<in> set (co_panes c)"
      using queue_tracked [OF assms(1)] map_of_SomeD by (fastforce simp: stream_of_def)
    from light [OF this] show "queue_bytes (filter (\<lambda>x. oe_pane x = oe_pane e) (co_queue c)) = 0"
      by (simp add: pane_bytes_def)
  qed
  ultimately show ?thesis using assms(1) by (simp add: sane_defs pending_bytes_def)
qed

declare shed_payload.simps [simp del]

lemma shed_sane:
  assumes "collector_sane c"
  shows "consistent (\<lambda>c'. collector_sane c' \<and> pending_bytes c' \<le> available \<and> co_budget c' = co_budget c)
    (shed_payload available c)"
  using assms
proof (induction available c rule: shed_payload.induct)
  case (1 available c)
  show ?case
  proof (cases "pending_bytes c \<le> available")
    case True
    then show ?thesis using 1 by (simp add: shed_payload.simps)
  next
    case False
    show ?thesis
    proof (cases "budget_victim c")
      case None
      then show ?thesis using 1 False no_victim [OF 1(2) None] by simp
    next
      case (Some pane)
      show ?thesis
      proof (cases "invalidate pane BudgetExceeded False c")
        case (Inl e)
        then show ?thesis
          using Some False invalidate_keeps [OF 1(2), of pane BudgetExceeded False]
          by (simp add: shed_payload.simps)
      next
        case (Inr c1)
        then have c1: "keeps c c1" using invalidate_keeps [OF 1(2), of pane BudgetExceeded False] by simp
        show ?thesis
          using 1(1) [OF False Some Inr keeps_sane [OF c1]] Inr Some False c1
          by (simp add: shed_payload.simps keeps_def)
      qed
    qed
  qed
qed

lemma set_budget_ok:
  "collector_ok c \<Longrightarrow> consistent (\<lambda>c'. collector_ok c' \<and> co_budget c' = n) (set_payload_budget n c)"
  unfolding set_payload_budget_def
  by (rule consistent_mono [OF shed_sane]) (simp_all add: collector_ok_def)

section \<open>Topology\<close>

lemma invalidate_stream:
  assumes "invalidate pane reason lost c = Inr c'" and "stream_of c pane = Some st"
  shows "stream_of c' pane = Some (invalidated_stream pane reason lost (co_epoch c + 1) (st_sequence st + 1) st)"
proof -
  have "co_panes c' = map (\<lambda>(p, s). (p, if p = pane
      then invalidated_stream pane reason lost (co_epoch c + 1) (st_sequence st + 1) st else s)) (co_panes c)"
    using invalidate_Inr [OF assms] by simp
  then show ?thesis
    using assms(2) map_of_map_keys [of "\<lambda>p s. if p = pane
      then invalidated_stream pane reason lost (co_epoch c + 1) (st_sequence st + 1) st else s" "co_panes c" pane]
    by (simp add: stream_of_def)
qed

lemma remove_pane_sane:
  assumes "collector_sane c" and "stream_of c pane = Some st" and "pending_candidate (st_scanner st) = 0"
    and "\<forall>e \<in> set (co_queue c). oe_pane e \<noteq> pane"
  shows "keeps c (c\<lparr>co_panes := filter (\<lambda>(p, _). p \<noteq> pane) (co_panes c), co_retired := n\<rparr>)"
proof -
  define panes where "panes = filter (\<lambda>(p, _). p \<noteq> pane) (co_panes c)"
  have ordered: "ordered_keys (co_panes c)" using assms(1) by (simp add: sane_defs)
  have look: "map_of panes q = (if q = pane then None else map_of (co_panes c) q)" for q
    unfolding panes_def by (rule map_of_filter_key)
  have "ordered_keys panes" unfolding panes_def by (rule ordered_filter [OF ordered])
  moreover have "candidates panes = candidates (co_panes c)"
    using sum_filter_key [OF ordered, of pane st "\<lambda>s. pending_candidate (st_scanner s)"] assms(2,3)
    by (simp add: candidates_def panes_def stream_of_def)
  moreover have "event_ok panes e" if "e \<in> set (co_queue c)" for e
    by (rule event_okI [of "co_panes c"]) (use that assms(1,4) in \<open>simp_all add: sane_defs look\<close>)
  ultimately show ?thesis
    using assms(1) unfolding keeps_def sane_defs pending_bytes_def panes_def [symmetric]
    by (simp add: look)
qed

lemma depart_sane:
  assumes "collector_sane c" and "gap_ok (co_epoch c) pane g"
    and "\<not> (MAX_PROGRAM_EVENTS \<le> length (co_departed c) \<and> map_of (co_departed c) pane = None)"
  shows "keeps c (c\<lparr>co_departed := put_sorted pane g (co_departed c)\<rparr>)"
proof -
  have ordered: "ordered_keys (co_departed c)" and short: "length (co_departed c) \<le> MAX_PROGRAM_EVENTS"
    and gaps: "\<forall>(p, g) \<in> set (co_departed c). gap_ok (co_epoch c) p g"
    using assms(1) by (simp_all add: sane_defs)
  have "\<forall>(p, g) \<in> set (put_sorted pane g (co_departed c)). gap_ok (co_epoch c) p g"
    using put_sorted_set [of pane g "co_departed c"] gaps assms(2) by fastforce
  moreover have "length (put_sorted pane g (co_departed c)) \<le> MAX_PROGRAM_EVENTS"
    using assms(3) short by (auto simp: put_sorted_length [OF ordered])
  ultimately show ?thesis
    using assms(1) put_sorted_ordered [OF ordered] unfolding keeps_def sane_defs pending_bytes_def by simp
qed

text \<open>The fallback when departures overflow: every known pane is invalidated.\<close>

lemma flush_keeps:
  assumes "collector_sane c"
  shows "consistent (\<lambda>c'. keeps c c' \<and> map fst (co_panes c') = map fst (co_panes c))
    (invalidate_all QueueOverflow False (map fst (co_panes c))
       (c\<lparr>co_overflows := k, co_all_invalidated := True, co_departed := [], co_queue := [], co_queued_bytes := 0\<rparr>))"
proof -
  define c3 where "c3 = c\<lparr>co_overflows := k, co_all_invalidated := True, co_departed := [], co_queue := [], co_queued_bytes := 0\<rparr>"
  have k3: "keeps c c3" using assms by (simp add: keeps_def sane_defs c3_def pending_bytes_def)
  have "consistent (\<lambda>c'. keeps c3 c' \<and> map fst (co_panes c') = map fst (co_panes c3))
      (invalidate_all QueueOverflow False (map fst (co_panes c)) c3)"
    using invalidate_all_keeps [OF keeps_sane [OF k3], of QueueOverflow False "map fst (co_panes c)"]
      invalidate_all_effect [OF keeps_sane [OF k3], of QueueOverflow False "map fst (co_panes c)"]
    by (cases "invalidate_all QueueOverflow False (map fst (co_panes c)) c3") simp_all
  then show ?thesis
    unfolding c3_def [symmetric]
    by (rule consistent_mono) (use keeps_trans [OF k3] in \<open>simp add: c3_def\<close>)
qed

lemma retire_keeps:
  assumes "collector_sane c" and "pane \<in> fst ` set (co_panes c)"
  shows "consistent (\<lambda>c'. keeps c c' \<and> map fst (co_panes c') = filter (\<lambda>p. p \<noteq> pane) (map fst (co_panes c)))
    (retire_pane pane c)"
proof (cases "invalidate pane OwnerChanged False c")
  case (Inl e)
  then show ?thesis
    using invalidate_keeps [OF assms(1), of pane OwnerChanged False] by (simp add: retire_pane_def)
next
  case (Inr c1)
  obtain st where st: "stream_of c pane = Some st"
    using assms(2) by (cases "stream_of c pane") (auto simp: stream_of_def map_of_eq_None_iff)
  define inv where "inv = invalidated_stream pane OwnerChanged False (co_epoch c + 1) (st_sequence st + 1) st"
  have st1: "stream_of c1 pane = Some inv" unfolding inv_def by (rule invalidate_stream [OF Inr st])
  have k1: "keeps c c1" using invalidate_keeps [OF assms(1), of pane OwnerChanged False] Inr by simp
  note s1 = keeps_sane [OF k1]
  define c2 where "c2 = c1\<lparr>co_panes := filter (\<lambda>(p, _). p \<noteq> pane) (co_panes c1),
      co_retired := co_retired c1 + sn_rejected (st_scanner inv)\<rparr>"
  have "keeps c1 c2"
    unfolding c2_def
    by (rule remove_pane_sane [OF s1 st1])
      (auto simp: inv_def invalidated_stream_def invalidate_queue [OF assms(1) Inr])
  then have k2: "keeps c c2" and s2: "collector_sane c2" using keeps_trans [OF k1] keeps_sane by blast+
  have "map fst (co_panes c2) = filter (\<lambda>p. p \<noteq> pane) (map fst (co_panes c1))"
    by (simp add: c2_def filter_map comp_def case_prod_unfold)
  then have keys: "map fst (co_panes c2) = filter (\<lambda>p. p \<noteq> pane) (map fst (co_panes c))"
    using invalidate_keys [OF Inr] by simp
  obtain g where g: "st_gap inv = Some g" by (simp add: inv_def invalidated_stream_def)
  have "stream_ok (co_epoch c1) pane inv" using s1 st1 by (simp add: sane_defs stream_of_def)
  then have "gap_ok (co_epoch c2) pane g" using g by (simp add: stream_ok_def c2_def)
  note depart = depart_sane [OF s2 this]
  have flush: "consistent (\<lambda>c'. keeps c c' \<and> map fst (co_panes c') = filter (\<lambda>p. p \<noteq> pane) (map fst (co_panes c)))
      (invalidate_all QueueOverflow False (map fst (co_panes c2))
         (c2\<lparr>co_overflows := k, co_all_invalidated := True, co_departed := [], co_queue := [], co_queued_bytes := 0\<rparr>))" for k
    by (rule consistent_mono [OF flush_keeps [OF s2]]) (use keys keeps_trans [OF k2] in simp)
  show ?thesis
    unfolding retire_pane_def remove_stream_def Inr sum_bind_simps st1 option.case Let_def c2_def [symmetric] g
  proof (split if_split, intro conjI impI)
    assume "\<not> (MAX_PROGRAM_EVENTS \<le> length (co_departed c2) \<and> map_of (co_departed c2) pane = None)"
    then show "consistent (\<lambda>c'. keeps c c' \<and> map fst (co_panes c') = filter (\<lambda>p. p \<noteq> pane) (map fst (co_panes c)))
        (Inr (c2\<lparr>co_departed := put_sorted pane g (co_departed c2)\<rparr>))"
      using depart keys keeps_trans [OF k2] by simp
  qed (rule flush)
qed

lemma retire_panes_keeps:
  "collector_sane c \<Longrightarrow> set ps \<subseteq> fst ` set (co_panes c) \<Longrightarrow> distinct ps \<Longrightarrow>
     consistent (keeps c) (retire_panes ps c)"
proof (induction ps arbitrary: c)
  case Nil
  then show ?case by (simp add: keeps_refl)
next
  case (Cons p ps)
  show ?case
    unfolding retire_panes.simps
  proof (rule consistent_bind [OF retire_keeps [OF Cons.prems(1)]])
    show "p \<in> fst ` set (co_panes c)" using Cons.prems(2) by simp
    fix c1
    assume c1: "keeps c c1 \<and> map fst (co_panes c1) = filter (\<lambda>q. q \<noteq> p) (map fst (co_panes c))"
    then have "set (map fst (co_panes c1)) = set (filter (\<lambda>q. q \<noteq> p) (map fst (co_panes c)))" by (simp only:)
    then have "fst ` set (co_panes c1) = fst ` set (co_panes c) - {p}" by auto
    then have "consistent (keeps c1) (retire_panes ps c1)"
      using Cons.prems c1 by (intro Cons.IH) (auto simp: keeps_def)
    then show "consistent (keeps c) (retire_panes ps c1)"
      by (rule consistent_mono) (use c1 keeps_trans in blast)
  qed
qed

lemma next_epoch_keeps: "collector_sane c \<Longrightarrow> consistent (keeps c) (next_epoch c)"
  by (auto simp: next_epoch_def consistent_def keeps_def sane_defs pending_bytes_def checked_add_def
      split: option.splits if_splits intro: stream_ok_mono [of "co_epoch c"] gap_ok_mono [of "co_epoch c"])

lemma new_stream_keeps:
  assumes "collector_sane c" and "stream_of c pane = None"
  shows "keeps c (c\<lparr>co_panes := put_sorted pane (new_stream owner client (co_epoch c)) (co_panes c)\<rparr>)"
proof -
  let ?new = "new_stream owner client (co_epoch c)"
  have ordered: "ordered_keys (co_panes c)" and none: "map_of (co_panes c) pane = None"
    using assms by (simp_all add: sane_defs stream_of_def)
  have "candidates (put_sorted pane ?new (co_panes c)) = candidates (co_panes c)"
    unfolding candidates_def put_sorted_sum [OF none ordered]
    by (simp add: new_stream_def pending_candidate_def scanner_unsynchronized_def scanner_new_def)
  moreover have "event_ok (put_sorted pane ?new (co_panes c)) e" if "event_ok (co_panes c) e" for e
    using that none by (auto simp: event_ok_def put_sorted_map_of)
  moreover have "stream_ok (co_epoch c) pane ?new" by (simp add: stream_ok_def new_stream_def)
  ultimately show ?thesis
    using assms(1) put_sorted_ordered [OF ordered]
    unfolding keeps_def sane_defs pending_bytes_def by (simp add: put_sorted_map_of)
qed

lemma adopted_owner_in:
  "sessions \<noteq> [] \<Longrightarrow> \<exists>owner \<in> set sessions. adopted_owner c pane sessions = Some owner"
  by (cases sessions) (auto simp: adopted_owner_def split: option.split)

lemma adopt_keeps:
  assumes "collector_sane c" and "sessions \<noteq> []" and "\<forall>s \<in> set sessions. clients s \<noteq> None"
  shows "consistent (keeps c) (adopt_pane clients pane sessions c)"
proof -
  obtain owner where owner: "adopted_owner c pane sessions = Some owner" "owner \<in> set sessions"
    using adopted_owner_in [OF assms(2)] by blast
  then obtain client where client: "clients owner = Some client" using assms(3) by auto
  show ?thesis
  proof (cases "stream_of c pane")
    case None
    have "consistent (keeps c) (map_sum id (\<lambda>c1. c1\<lparr>co_panes := put_sorted pane (new_stream owner client (co_epoch c1)) (co_panes c1)\<rparr>)
        (next_epoch c))"
    proof (rule consistent_map)
      show "consistent (\<lambda>c1. keeps c c1 \<and> stream_of c1 pane = None) (next_epoch c)"
        using next_epoch_keeps [OF assms(1)] None
        by (auto simp: next_epoch_def consistent_def stream_of_def split: option.splits)
    qed (blast intro: keeps_trans new_stream_keeps keeps_sane)
    then show ?thesis using owner client None by (simp add: adopt_pane_def)
  next
    case (Some st)
    have "consistent (keeps c) (map_sum id (update_stream pane (\<lambda>s. s\<lparr>st_owner := owner, st_client := client,
        st_paused := False, st_quarantine := False\<rparr>)) (invalidate pane OwnerChanged True c))"
      by (rule consistent_map [OF invalidate_keeps [OF assms(1)]])
        (rule keeps_trans, assumption, rule update_sane, simp_all add: keeps_def)
    then show ?thesis using owner client Some assms(1) by (simp add: adopt_pane_def keeps_refl)
  qed
qed

lemma adopt_panes_keeps:
  "collector_sane c \<Longrightarrow> \<forall>(p, ss) \<in> set eligible. ss \<noteq> [] \<and> (\<forall>s \<in> set ss. clients s \<noteq> None) \<Longrightarrow>
     consistent (keeps c) (adopt_panes clients eligible c)"
proof (induction eligible arbitrary: c)
  case Nil
  then show ?case by (simp add: keeps_refl)
next
  case (Cons x rest)
  obtain p ss where x: "x = (p, ss)" by (cases x)
  have "consistent (keeps c) (sum_bind (adopt_pane clients p ss c) (adopt_panes clients rest))"
  proof (rule consistent_bind)
    show "consistent (keeps c) (adopt_pane clients p ss c)"
      using Cons.prems by (intro adopt_keeps) (simp_all add: x)
    fix c1 assume c1: "keeps c c1"
    then have "consistent (keeps c1) (adopt_panes clients rest c1)"
      using Cons.prems by (intro Cons.IH) (simp_all add: keeps_sane)
    then show "consistent (keeps c) (adopt_panes clients rest c1)"
      by (rule consistent_mono) (use c1 keeps_trans in blast)
  qed
  then show ?case by (simp add: x)
qed

lemma eligible_sessions_ok:
  "p \<in> set (eligible_panes topology clients) \<Longrightarrow>
     eligible_sessions topology clients p \<noteq> [] \<and> (\<forall>s \<in> set (eligible_sessions topology clients p). clients s \<noteq> None)"
proof -
  assume "p \<in> set (eligible_panes topology clients)"
  then obtain s where "(s, p) \<in> set topology" "clients s \<noteq> None" by (auto simp: eligible_panes_def)
  then have "s \<in> set (eligible_sessions topology clients p)" by (force simp: eligible_sessions_def)
  moreover have "\<forall>s \<in> set (eligible_sessions topology clients p). clients s \<noteq> None"
    by (auto simp: eligible_sessions_def)
  ultimately show ?thesis by fastforce
qed

lemma reconcile_keeps:
  assumes "collector_sane c"
  shows "consistent (keeps c) (reconcile topology clients c)"
proof -
  let ?eligible = "map (\<lambda>p. (p, eligible_sessions topology clients p)) (eligible_panes topology clients)"
  let ?removed = "filter (\<lambda>p. p \<notin> fst ` set ?eligible) (map fst (co_panes c))"
  have distinct: "distinct (map fst (co_panes c))" by (rule ordered_distinct) (use assms in \<open>simp add: sane_defs\<close>)
  have "consistent (keeps c) (sum_bind (retire_panes ?removed c) (\<lambda>c1.
      sum_bind (adopt_panes clients ?eligible c1) (\<lambda>c2. Inr (c2\<lparr>co_topology_ready := True\<rparr>))))"
  proof (rule consistent_bind [OF retire_panes_keeps [OF assms]])
    show "set ?removed \<subseteq> fst ` set (co_panes c)" "distinct ?removed" using distinct by auto
    fix c1 assume c1: "keeps c c1"
    show "consistent (keeps c) (sum_bind (adopt_panes clients ?eligible c1) (\<lambda>c2. Inr (c2\<lparr>co_topology_ready := True\<rparr>)))"
    proof (rule consistent_bind [OF adopt_panes_keeps [OF keeps_sane [OF c1]]])
      show "\<forall>(p, ss) \<in> set ?eligible. ss \<noteq> [] \<and> (\<forall>s \<in> set ss. clients s \<noteq> None)"
        using eligible_sessions_ok [of _ topology clients] by auto
      fix c2 assume "keeps c1 c2"
      with c1 have "keeps c c2" by (rule keeps_trans)
      then show "consistent (keeps c) (Inr (c2\<lparr>co_topology_ready := True\<rparr>))"
        by (simp add: keeps_def sane_defs pending_bytes_def)
    qed
  qed
  then show ?thesis by (simp add: reconcile_def Let_def)
qed

section \<open>Events\<close>

lemma update_scanner_sane:
  assumes "collector_sane c" and st: "stream_of c pane = Some st"
    and f: "\<And>s. st_epoch (f s) = st_epoch s \<and> st_sequence (f s) = st_sequence s \<and> st_gap (f s) = st_gap s"
  shows "collector_sane ((update_stream pane f c)
      \<lparr>co_candidate_bytes := co_candidate_bytes c - pending_candidate (st_scanner st) + pending_candidate (st_scanner (f st))\<rparr>)
    \<and> pending_candidate (st_scanner st) \<le> co_candidate_bytes c"
proof -
  define panes where "panes = map (\<lambda>(p, st). (p, if p = pane then f st else st)) (co_panes c)"
  have ordered: "ordered_keys (co_panes c)" and sums: "co_candidate_bytes c = candidates (co_panes c)"
    using assms(1) by (simp_all add: sane_defs)
  have look: "map_of panes q = map_option (\<lambda>s. if q = pane then f s else s) (map_of (co_panes c) q)" for q
    unfolding panes_def by (rule map_of_map_keys)
  have keys: "map fst panes = map fst (co_panes c)" unfolding panes_def by (rule map_keys)
  have "candidates panes + pending_candidate (st_scanner st) = candidates (co_panes c) + pending_candidate (st_scanner (f st))"
    using sum_change_one [OF ordered, of pane st "\<lambda>s. pending_candidate (st_scanner s)" f] st
    by (simp add: candidates_def panes_def stream_of_def comp_def case_prod_unfold)
  moreover have le: "pending_candidate (st_scanner st) \<le> co_candidate_bytes c"
    using candidate_in_sum [OF ordered] st sums by (simp add: stream_of_def)
  ultimately have "candidates panes = co_candidate_bytes c - pending_candidate (st_scanner st) + pending_candidate (st_scanner (f st))"
    using sums by simp
  moreover have "stream_ok (co_epoch c) p s" if "map_of panes p = Some s" for p s
  proof -
    from that obtain s0 where "map_of (co_panes c) p = Some s0" "s = (if p = pane then f s0 else s0)"
      by (auto simp: look)
    then show ?thesis using assms by (auto simp: sane_defs stream_ok_def)
  qed
  moreover have "event_ok panes e" if "event_ok (co_panes c) e" for e
    using that f unfolding event_ok_def look by force
  ultimately show ?thesis
    using assms(1) keys le unfolding sane_defs update_stream_def panes_def [symmetric] by simp
qed

lemma replace_scanner_sane:
  assumes "collector_sane c" and "stream_of c pane = Some st"
  shows "consistent (\<lambda>c'. collector_sane c' \<and> co_budget c' = co_budget c \<and> co_topology_ready c' = co_topology_ready c
      \<and> stream_of c' pane = Some (st\<lparr>st_scanner := t\<rparr>)
      \<and> pending_bytes c' + pending_candidate (st_scanner st) = pending_bytes c + pending_candidate t)
    (replace_scanner pane (pending_candidate (st_scanner st)) t c)"
  using conjunct1 [OF update_scanner_sane [OF assms, of "\<lambda>s. s\<lparr>st_scanner := t\<rparr>"]]
    conjunct2 [OF update_scanner_sane [OF assms, of "\<lambda>s. s\<lparr>st_scanner := t\<rparr>"]] assms(2)
  by (simp add: replace_scanner_def subtract_candidate_def checked_sub_def update_stream_def pending_bytes_def
      stream_of_def map_of_map_keys [of "\<lambda>p s. if p = pane then s\<lparr>st_scanner := t\<rparr> else s"])

lemma append_event_sane:
  assumes "collector_sane c" and st: "stream_of c pane = Some st" and "co_topology_ready c"
    and "length (co_queue c) < MAX_PROGRAM_EVENTS" and "co_queued_bytes c + payload_bytes ev \<le> MAX_PROGRAM_PAYLOAD_BYTES"
  shows "collector_sane ((update_stream pane (\<lambda>s. s\<lparr>st_sequence := st_sequence st + 1\<rparr>) c)
      \<lparr>co_queue := co_queue c @ [\<lparr>oe_pane = pane, oe_connection = st_epoch st, oe_sequence = st_sequence st + 1, oe_event = ev\<rparr>],
       co_queued_bytes := co_queued_bytes c + payload_bytes ev\<rparr>)"
proof -
  define panes where "panes = map (\<lambda>(p, s). (p, if p = pane then s\<lparr>st_sequence := st_sequence st + 1\<rparr> else s)) (co_panes c)"
  define e where "e = \<lparr>oe_pane = pane, oe_connection = st_epoch st, oe_sequence = st_sequence st + 1, oe_event = ev\<rparr>"
  have look: "map_of panes q = map_option (\<lambda>s. if q = pane then s\<lparr>st_sequence := st_sequence st + 1\<rparr> else s)
      (map_of (co_panes c) q)" for q
    unfolding panes_def by (rule map_of_map_keys)
  have keys: "map fst panes = map fst (co_panes c)" unfolding panes_def by (rule map_keys)
  have cands: "candidates panes = candidates (co_panes c)"
    unfolding candidates_def panes_def map_map by (intro arg_cong [where f = sum_list] map_cong refl) auto
  have ok: "\<forall>p s. map_of (co_panes c) p = Some s \<longrightarrow> stream_ok (co_epoch c) p s"
    and events: "\<forall>x \<in> set (co_queue c). event_ok (co_panes c) x" using assms(1) by (simp_all add: sane_defs)
  have streams: "stream_ok (co_epoch c) p s" if "map_of panes p = Some s" for p s
  proof -
    from that obtain s0 where "map_of (co_panes c) p = Some s0"
      "s = (if p = pane then s0\<lparr>st_sequence := st_sequence st + 1\<rparr> else s0)" by (auto simp: look)
    then show ?thesis using ok st by (auto simp: stream_ok_def stream_of_def intro: le_SucI)
  qed
  have old: "event_ok panes x \<and> follows x e" if "x \<in> set (co_queue c)" for x
  proof -
    from events that obtain s where "map_of (co_panes c) (oe_pane x) = Some s" "oe_connection x = st_epoch s"
      "oe_sequence x \<le> st_sequence s" "\<forall>g. st_gap s = Some g \<longrightarrow> oe_sequence g < oe_sequence x"
      by (auto simp: event_ok_def)
    then show ?thesis using st by (auto simp: event_ok_def look follows_def e_def stream_of_def)
  qed
  have "stream_ok (co_epoch c) pane st" using ok st by (simp add: stream_of_def)
  then have "event_ok panes e"
    using st by (auto simp: event_ok_def look e_def stream_of_def stream_ok_def less_Suc_eq_le)
  then show ?thesis
    using assms keys cands streams old
    unfolding sane_defs update_stream_def panes_def [symmetric] e_def [symmetric]
    by (auto simp: sorted_wrt_append e_def)
qed

lemma enqueue_ok:
  assumes "collector_ok c" and "stream_of c pane = Some st" and "co_topology_ready c"
  shows "consistent collector_ok (enqueue pane ev c)"
proof -
  have sane: "collector_sane c" and fits: "pending_bytes c \<le> co_budget c" using assms(1) by (simp_all add: collector_ok_def)
  have inv: "consistent collector_ok (invalidate pane reason lost (c\<lparr>co_overflows := k\<rparr>))"
    "consistent collector_ok (invalidate pane reason lost c)" for reason lost k
    using invalidate_keeps [of "c\<lparr>co_overflows := k\<rparr>" pane reason lost] invalidate_keeps [OF sane, of pane reason lost]
      keeps_ok assms(1) sane by (auto simp: collector_ok_def intro: consistent_mono)
  consider "co_budget c - pending_bytes c < payload_bytes ev"
    | "\<not> co_budget c - pending_bytes c < payload_bytes ev"
      "MAX_PROGRAM_EVENTS \<le> length (co_queue c) \<or> MAX_PROGRAM_PAYLOAD_BYTES < co_queued_bytes c + payload_bytes ev"
    | "\<not> co_budget c - pending_bytes c < payload_bytes ev"
      "length (co_queue c) < MAX_PROGRAM_EVENTS" "co_queued_bytes c + payload_bytes ev \<le> MAX_PROGRAM_PAYLOAD_BYTES"
    by linarith
  then show ?thesis
  proof cases
    case 3
    then show ?thesis
      using append_event_sane [OF sane assms(2,3) 3(2,3)] fits assms(2)
      by (auto simp: enqueue_def checked_sub_def checked_add_def Let_def collector_ok_def pending_bytes_def
          update_stream_def split: option.split)
  qed (use inv fits in \<open>simp_all add: enqueue_def checked_sub_def Let_def\<close>)
qed

lemma collect_byte_ok:
  assumes "collector_ok c" and "stream_of c pane = Some st" and "co_topology_ready c"
  shows "consistent collector_ok (collect_byte b64 pane st ch c)"
proof -
  have sane: "collector_sane c" and fits: "pending_bytes c \<le> co_budget c" using assms(1) by (simp_all add: collector_ok_def)
  note replace = replace_scanner_sane [OF sane assms(2)]
  obtain event t where t: "scanner_feed b64 ch (st_scanner st) = (event, t)" by fastforce
  show ?thesis
  proof (cases "st_quarantine st")
    case True
    have "pending_candidate (feed_quarantined b64 ch (st_scanner st)) = 0" by (simp add: feed_quarantined_def)
    then show ?thesis
      unfolding collect_byte_def Let_def
      using True fits by (auto simp: collector_ok_def intro!: consistent_mono [OF replace])
  next
    case False
    show ?thesis
      unfolding collect_byte_def Let_def t if_not_P [OF False] prod.case
    proof (rule consistent_bind [OF replace])
      fix c1
      assume c1: "collector_sane c1 \<and> co_budget c1 = co_budget c \<and> co_topology_ready c1 = co_topology_ready c
          \<and> stream_of c1 pane = Some (st\<lparr>st_scanner := t\<rparr>)
          \<and> pending_bytes c1 + pending_candidate (st_scanner st) = pending_bytes c + pending_candidate t"
      have "consistent collector_ok (invalidate pane BudgetExceeded False c1)"
      proof (cases "invalidate pane BudgetExceeded False c1")
        case (Inl e)
        then show ?thesis using c1 invalidate_keeps [of c1 pane BudgetExceeded False] by simp
      next
        case (Inr c2)
        then show ?thesis
          using invalidate_sane [of c1 pane BudgetExceeded False c2 "st\<lparr>st_scanner := t\<rparr>"] c1 fits
          by (simp add: collector_ok_def pane_bytes_def)
      qed
      moreover have "consistent collector_ok (enqueue pane ev c1)" if "\<not> co_budget c1 < pending_bytes c1" for ev
        using that c1 assms(3) by (intro enqueue_ok) (simp_all add: collector_ok_def)
      ultimately show "consistent collector_ok
          (if co_budget c1 < pending_bytes c1 then invalidate pane BudgetExceeded False c1
           else case event of Some ev \<Rightarrow> enqueue pane ev c1 | None \<Rightarrow> Inr c1)"
        using c1 by (auto simp: collector_ok_def split: option.split)
    qed
  qed
qed

lemma ok_sane: "collector_ok c \<Longrightarrow> collector_sane c"
  by (simp add: collector_ok_def)

lemma keeps_consistent: "collector_ok c \<Longrightarrow> consistent (keeps c) r \<Longrightarrow> consistent collector_ok r"
  by (erule consistent_mono) (rule keeps_ok)

lemma end_quarantine_ok:
  assumes "collector_ok c" and "stream_of c pane = Some st"
  shows "consistent collector_ok (end_quarantine pane st c)"
proof -
  have swap: "d\<lparr>co_candidate_bytes := n, co_panes := ps\<rparr> = d\<lparr>co_panes := ps, co_candidate_bytes := n\<rparr>" for d n ps
    by (rule collector.equality) simp_all
  show ?thesis
    using update_scanner_sane [OF ok_sane [OF assms(1)] assms(2),
      of "\<lambda>s. s\<lparr>st_scanner := scanner_boundary (st_scanner s), st_quarantine := False\<rparr>"] assms(1)
    by (auto simp: end_quarantine_def subtract_candidate_def checked_sub_def collector_ok_def pending_bytes_def
      update_stream_def swap)
qed

lemma paused_ok:
  assumes "collector_ok c"
  shows "consistent collector_ok (invalidate pane reason lost (update_stream pane (\<lambda>s. s\<lparr>st_paused := b\<rparr>) c))"
proof (rule keeps_consistent)
  have "keeps c (update_stream pane (\<lambda>s. s\<lparr>st_paused := b\<rparr>) c)"
    using assms by (intro update_sane) (simp_all add: collector_ok_def)
  then show "collector_ok (update_stream pane (\<lambda>s. s\<lparr>st_paused := b\<rparr>) c)" using assms keeps_ok by blast
  then show "consistent (keeps (update_stream pane (\<lambda>s. s\<lparr>st_paused := b\<rparr>) c))
      (invalidate pane reason lost (update_stream pane (\<lambda>s. s\<lparr>st_paused := b\<rparr>) c))"
    by (intro invalidate_keeps) (simp add: collector_ok_def)
qed

lemma stream_item_ok:
  assumes "collector_ok c" and "stream_of c pane = Some st" and "co_topology_ready c"
  shows "consistent collector_ok (stream_item b64 pane st item c)"
  using assms paused_ok [OF assms(1)] collect_byte_ok [OF assms] end_quarantine_ok [OF assms(1,2)]
    keeps_consistent [OF assms(1) invalidate_keeps [OF ok_sane [OF assms(1)]]]
  by (auto simp: stream_item_def split: decoded.split)

lemma decoded_ok:
  assumes "collector_ok c"
  shows "consistent collector_ok (collector_decoded b64 session client item c)"
  using assms keeps_consistent [OF assms client_gap_keeps [OF ok_sane [OF assms]]] stream_item_ok [OF assms]
  by (auto simp: collector_decoded_def split: decoded.split option.split)

section \<open>Runs\<close>

lemma drain_ok:
  assumes "collector_ok c"
  shows "collector_ok (snd (drain c))"
proof -
  define panes where "panes = map (\<lambda>(p, st). (p, st\<lparr>st_gap := None\<rparr>)) (co_panes c)"
  have "map_of panes q = map_option (\<lambda>s. s\<lparr>st_gap := None\<rparr>) (map_of (co_panes c) q)" for q
    unfolding panes_def by (rule map_of_map_keys)
  moreover have "map fst panes = map fst (co_panes c)" unfolding panes_def by (rule map_keys)
  moreover have "candidates panes = candidates (co_panes c)"
    unfolding candidates_def panes_def map_map by (intro arg_cong [where f = sum_list] map_cong refl) auto
  ultimately show ?thesis
    using assms unfolding collector_ok_def sane_defs drain_def panes_def [symmetric]
    by (auto simp: stream_ok_def pending_bytes_def)
qed

lemma no_output_ok: "consistent collector_ok r \<Longrightarrow> consistent (\<lambda>(_, c). collector_ok c) (no_output r)"
  by (simp add: no_output_def consistent_map)

lemma exec_ok:
  assumes "collector_ok c"
  shows "consistent (\<lambda>(_, c'). collector_ok c') (collector_exec b64 x c)"
proof (cases x)
  case (CBudget n)
  then show ?thesis using set_budget_ok [OF assms] by (auto intro!: no_output_ok intro: consistent_mono)
next
  case (CBoundary pane inside)
  have "consistent collector_ok (map_sum id snd (collector_boundary pane inside c))"
    by (rule consistent_map [OF boundary_keeps [OF ok_sane [OF assms]]]) (use keeps_ok assms in auto)
  then show ?thesis using CBoundary by (simp add: no_output_ok)
next
  case CDrain
  then show ?thesis using drain_ok [OF assms] by (simp add: case_prod_unfold)
qed (use assms topology_failed_keeps reconcile_keeps client_gap_keeps keeps_consistent ok_sane decoded_ok
      in \<open>auto intro!: no_output_ok\<close>)

lemma run_ok: "collector_ok c \<Longrightarrow> consistent (\<lambda>(_, c'). collector_ok c') (collector_run b64 ops c)"
proof (induction ops arbitrary: c)
  case (Cons x xs)
  show ?case
    unfolding collector_run.simps
  proof (rule consistent_bind [OF exec_ok [OF Cons.prems]])
    fix r :: "program_drain list \<times> collector"
    assume "case r of (_, c') \<Rightarrow> collector_ok c'"
    then show "consistent (\<lambda>(_, c'). collector_ok c')
        (case r of (out, c1) \<Rightarrow> map_sum id (\<lambda>(rest, c2). (out @ rest, c2)) (collector_run b64 xs c1))"
      by (cases r) (auto intro!: consistent_map [OF Cons.IH])
  qed
qed simp

end
