(* ===== verification/Collector_History.thy ===== *)
theory Collector_History
  imports Collector_Invariant
begin

text \<open>
  Where a queued command comes from. Every report in the collector's queue was parsed from bytes that
  one client delivered for one pane, one after the other, with nothing in between that breaks the
  stream: no binding boundary, no pause, no gap, no failed topology read. Since an operation that breaks
  a stream also discards what is queued for it, the same holds up to the moment the report is drained.
\<close>

section \<open>What was delivered\<close>

text \<open>The payload bytes that a client delivered for a pane.\<close>

fun byte_for :: "pane_id \<Rightarrow> session_id \<Rightarrow> u64 \<Rightarrow> collector_op \<Rightarrow> string" where
  "byte_for p s k (CDecoded s' k' (DByte p' c)) = (if s' = s \<and> k' = k \<and> p' = p then [c] else [])"
| "byte_for p s k _ = []"

definition bytes_for :: "pane_id \<Rightarrow> session_id \<Rightarrow> u64 \<Rightarrow> collector_op list \<Rightarrow> string" where
  "bytes_for p s k ops = concat (map (byte_for p s k) ops)"

text \<open>The operations that break the stream of a pane followed through a client of its session.\<close>

fun severs :: "pane_id \<Rightarrow> session_id \<Rightarrow> u64 \<Rightarrow> collector_op \<Rightarrow> bool" where
  "severs p s k (CBoundary p' _) = (p' = p)"
| "severs p s k CTopologyFailed = True"
| "severs p s k (CClientGap s' _) = (s' = s)"
| "severs p s k (CDecoded s' k' item) =
     (s' = s \<and> (case item of
                  DGap None _ \<Rightarrow> True
                | DGap (Some p') _ \<Rightarrow> k' = k \<and> p' = p
                | DPause p' \<Rightarrow> k' = k \<and> p' = p
                | DContinue p' \<Rightarrow> k' = k \<and> p' = p
                | _ \<Rightarrow> False))"
| "severs p s k _ = False"

definition unbroken :: "pane_id \<Rightarrow> session_id \<Rightarrow> u64 \<Rightarrow> collector_op list \<Rightarrow> bool" where
  "unbroken p s k ops = list_all (\<lambda>x. \<not> severs p s k x) ops"

lemma bytes_for_simps [simp]:
  "bytes_for p s k [] = []" "bytes_for p s k (x # xs) = byte_for p s k x @ bytes_for p s k xs"
  "bytes_for p s k (xs @ ys) = bytes_for p s k xs @ bytes_for p s k ys"
  by (simp_all add: bytes_for_def)

lemma unbroken_simps [simp]:
  "unbroken p s k []" "unbroken p s k (x # xs) \<longleftrightarrow> \<not> severs p s k x \<and> unbroken p s k xs"
  "unbroken p s k (xs @ ys) \<longleftrightarrow> unbroken p s k xs \<and> unbroken p s k ys"
  by (simp_all add: unbroken_def)

text \<open>The operations end with an unbroken delivery of these bytes.\<close>

definition delivered :: "collector_op list \<Rightarrow> pane_id \<Rightarrow> session_id \<Rightarrow> u64 \<Rightarrow> string \<Rightarrow> bool" where
  "delivered ops p s k bytes = (\<exists>pre mid. ops = pre @ mid \<and> unbroken p s k mid \<and> bytes_for p s k mid = bytes)"

text \<open>A command was parsed from an unbroken delivery, and the stream is unbroken since.\<close>

definition came :: "base64 \<Rightarrow> collector_op list \<Rightarrow> pane_id \<Rightarrow> session_id \<Rightarrow> u64 \<Rightarrow> program_command \<Rightarrow> bool" where
  "came b64 ops p s k cmd =
     (\<exists>pre mid post. ops = pre @ mid @ post \<and> unbroken p s k (mid @ post)
        \<and> parse_frame b64 (bytes_for p s k mid) = Inr (Command cmd))"

lemma delivered_nothing [simp]: "delivered ops p s k []"
  unfolding delivered_def by (rule exI [of _ ops], rule exI [of _ "[]"]) simp

lemma delivered_snoc:
  assumes "delivered ops p s k bytes" and "\<not> severs p s k x"
  shows "delivered (ops @ [x]) p s k (bytes @ byte_for p s k x)"
proof -
  from assms(1) obtain pre mid where "ops = pre @ mid" "unbroken p s k mid" "bytes_for p s k mid = bytes"
    by (auto simp: delivered_def)
  then show ?thesis
    unfolding delivered_def using assms(2) by (intro exI [of _ pre] exI [of _ "mid @ [x]"]) simp
qed

lemma came_snoc:
  assumes "came b64 ops p s k cmd" and "\<not> severs p s k x"
  shows "came b64 (ops @ [x]) p s k cmd"
proof -
  from assms(1) obtain pre mid post where "ops = pre @ mid @ post" "unbroken p s k (mid @ post)"
    "parse_frame b64 (bytes_for p s k mid) = Inr (Command cmd)"
    by (auto simp: came_def)
  then show ?thesis
    unfolding came_def using assms(2) by (intro exI [of _ pre] exI [of _ mid] exI [of _ "post @ [x]"]) simp
qed

lemma delivered_came:
  "delivered ops p s k frame \<Longrightarrow> parse_frame b64 frame = Inr (Command cmd) \<Longrightarrow> came b64 ops p s k cmd"
  unfolding delivered_def came_def by (metis append.right_neutral)

section \<open>The history of a stream\<close>

text \<open>
  The scanner's state is explained by operations \<open>h\<close> on it whose last bytes were delivered unbroken. An
  idle scanner is explained by operations that end without a byte.
\<close>

definition explained :: "(string \<Rightarrow> bool) \<Rightarrow> pane_stream \<Rightarrow> bool" where
  "explained P st =
     (\<exists>h. scan_inv h (st_scanner st) \<and> (after_quarantine h \<longrightarrow> st_quarantine st) \<and> (\<forall>bs. fed h bs \<longrightarrow> P bs))"

abbreviation idle :: "pane_stream \<Rightarrow> bool" where
  "idle st \<equiv> explained (\<lambda>bs. bs = []) st"

definition stream_history :: "collector_op list \<Rightarrow> bool \<Rightarrow> pane_id \<Rightarrow> pane_stream \<Rightarrow> bool" where
  "stream_history ops ready p st =
     (explained (delivered ops p (st_owner st) (st_client st)) st \<and> (st_paused st \<or> \<not> ready \<longrightarrow> idle st))"

definition history :: "base64 \<Rightarrow> collector_op list \<Rightarrow> collector \<Rightarrow> bool" where
  "history b64 ops c =
     ((\<forall>p st. stream_of c p = Some st \<longrightarrow> stream_history ops (co_topology_ready c) p st)
      \<and> (\<forall>e cmd. e \<in> set (co_queue c) \<and> oe_event e = ECommand cmd \<longrightarrow>
            (\<exists>st. stream_of c (oe_pane e) = Some st
                \<and> came b64 ops (oe_pane e) (st_owner st) (st_client st) cmd)))"

lemma history_stream:
  "history b64 ops c \<Longrightarrow> stream_of c p = Some st \<Longrightarrow> stream_history ops (co_topology_ready c) p st"
  by (simp add: history_def)

lemma history_queue:
  assumes "history b64 ops c" and "e \<in> set (co_queue c)" and "oe_event e = ECommand cmd"
  obtains st where "stream_of c (oe_pane e) = Some st" "came b64 ops (oe_pane e) (st_owner st) (st_client st) cmd"
  using assms unfolding history_def by blast

lemma explained_mono: "explained P st \<Longrightarrow> (\<And>bs. P bs \<Longrightarrow> Q bs) \<Longrightarrow> explained Q st"
  by (auto simp: explained_def)

lemma idle_delivered: "idle st \<Longrightarrow> explained (delivered ops p s k) st"
  by (erule explained_mono) simp

lemma reset_idle: "scan_inv [] (st_scanner st) \<Longrightarrow> idle st"
  unfolding explained_def by (rule exI [of _ "[]"]) (auto simp: after_quarantine_def fed_def suffix_def)

lemma idle_history: "idle st \<Longrightarrow> stream_history ops ready p st"
  by (simp add: stream_history_def idle_delivered)

lemma reset_history: "scan_inv [] (st_scanner st) \<Longrightarrow> stream_history ops ready p st"
  by (rule idle_history [OF reset_idle])

lemma history_new: "history b64 [] (collector_with_epoch e)"
  by (simp add: history_def collector_with_epoch_def stream_of_def)

section \<open>Operations that deliver nothing\<close>

definition alike :: "pane_stream \<Rightarrow> pane_stream \<Rightarrow> bool" where
  "alike a b = (st_owner a = st_owner b \<and> st_client a = st_client b \<and> st_scanner a = st_scanner b
     \<and> st_paused a = st_paused b \<and> st_quarantine a = st_quarantine b)"

text \<open>Streams are as they were or reset; the queue keeps only events of streams as they were.\<close>

definition calm :: "collector \<Rightarrow> collector \<Rightarrow> bool" where
  "calm c c' =
     ((\<forall>p st'. stream_of c' p = Some st' \<longrightarrow>
          scan_inv [] (st_scanner st') \<or> (\<exists>st. stream_of c p = Some st \<and> alike st st'))
      \<and> (\<forall>e \<in> set (co_queue c'). e \<in> set (co_queue c)
            \<and> (\<forall>st. stream_of c (oe_pane e) = Some st \<longrightarrow>
                  (\<exists>st'. stream_of c' (oe_pane e) = Some st' \<and> alike st st'))))"

lemma alike_refl [simp]: "alike a a"
  by (simp add: alike_def)

lemma alike_trans: "alike a b \<Longrightarrow> alike b c \<Longrightarrow> alike a c"
  by (simp add: alike_def)

lemma calm_stream:
  assumes "calm c c'" and "stream_of c' p = Some st'"
  obtains "scan_inv [] (st_scanner st')" | st where "stream_of c p = Some st" "alike st st'"
  using assms unfolding calm_def by blast

lemma calm_queue: "calm c c' \<Longrightarrow> e \<in> set (co_queue c') \<Longrightarrow> e \<in> set (co_queue c)"
  unfolding calm_def by blast

lemma calm_queue_stream:
  assumes "calm c c'" and "e \<in> set (co_queue c')" and "stream_of c (oe_pane e) = Some st"
  obtains st' where "stream_of c' (oe_pane e) = Some st'" "alike st st'"
  using assms unfolding calm_def by blast

lemma calm_refl: "calm c c"
  by (auto simp: calm_def)

lemma calm_trans:
  assumes "calm a b" and "calm b c"
  shows "calm a c"
  unfolding calm_def
proof (intro conjI allI ballI impI)
  fix p st' assume c: "stream_of c p = Some st'"
  from assms(2) c show "scan_inv [] (st_scanner st') \<or> (\<exists>st. stream_of a p = Some st \<and> alike st st')"
  proof (cases rule: calm_stream)
    case (2 s)
    from assms(1) 2(1) show ?thesis
    proof (cases rule: calm_stream)
      case 1
      then show ?thesis using 2(2) by (simp add: alike_def)
    qed (use 2(2) alike_trans in blast)
  qed simp
next
  fix e assume e: "e \<in> set (co_queue c)"
  note b = calm_queue [OF assms(2) e]
  show "e \<in> set (co_queue a)" by (rule calm_queue [OF assms(1) b])
  fix st assume "stream_of a (oe_pane e) = Some st"
  with assms(1) b obtain s where s: "stream_of b (oe_pane e) = Some s" "alike st s" by (rule calm_queue_stream)
  with assms(2) e obtain st' where "stream_of c (oe_pane e) = Some st'" "alike s st'"
    by (blast elim: calm_queue_stream)
  then show "\<exists>st'. stream_of c (oe_pane e) = Some st' \<and> alike st st'" using s(2) alike_trans by blast
qed

text \<open>A calm step and an operation that leaves the surviving streams unbroken extend a history.\<close>

lemma explained_alike: "alike st st' \<Longrightarrow> explained P st \<Longrightarrow> explained P st'"
  by (simp add: alike_def explained_def)

lemma stream_history_snoc:
  assumes "stream_history ops ready p st" and "byte_for p (st_owner st) (st_client st) x = []"
    and "\<not> severs p (st_owner st) (st_client st) x"
  shows "stream_history (ops @ [x]) ready p st"
  using assms(1) delivered_snoc [OF _ assms(3)] assms(2)
  by (auto simp: stream_history_def intro: explained_mono)

lemma history_step:
  assumes "history b64 ops c" and "calm c c'"
    and streams: "\<And>p st st'. stream_of c p = Some st \<Longrightarrow> stream_of c' p = Some st' \<Longrightarrow> alike st st' \<Longrightarrow>
          idle st \<or> (co_topology_ready c \<longrightarrow> co_topology_ready c') \<and> byte_for p (st_owner st) (st_client st) x = []
            \<and> \<not> severs p (st_owner st) (st_client st) x"
    and queue: "\<And>e st. e \<in> set (co_queue c') \<Longrightarrow> stream_of c (oe_pane e) = Some st \<Longrightarrow>
          \<not> severs (oe_pane e) (st_owner st) (st_client st) x"
  shows "history b64 (ops @ [x]) c'"
  unfolding history_def
proof (intro conjI allI impI)
  fix p st' assume st': "stream_of c' p = Some st'"
  from assms(2) st' show "stream_history (ops @ [x]) (co_topology_ready c') p st'"
  proof (cases rule: calm_stream)
    case st: (2 st)
    from streams [OF st(1) st' st(2)] show ?thesis
    proof
      assume "idle st"
      then show ?thesis by (rule idle_history [OF explained_alike [OF st(2)]])
    next
      assume x: "(co_topology_ready c \<longrightarrow> co_topology_ready c') \<and> byte_for p (st_owner st) (st_client st) x = []
            \<and> \<not> severs p (st_owner st) (st_client st) x"
      have "stream_history ops (co_topology_ready c) p st" using assms(1) st(1) by (simp add: history_def)
      from stream_history_snoc [OF this] x
      have "stream_history (ops @ [x]) (co_topology_ready c) p st" by blast
      then show ?thesis using st(2) x explained_alike [OF st(2)] by (auto simp: stream_history_def alike_def)
    qed
  qed (rule reset_history)
next
  fix e cmd assume e: "e \<in> set (co_queue c') \<and> oe_event e = ECommand cmd"
  then have "e \<in> set (co_queue c)" using calm_queue [OF assms(2)] by blast
  from assms(1) this conjunct2 [OF e] obtain st where st: "stream_of c (oe_pane e) = Some st"
    "came b64 ops (oe_pane e) (st_owner st) (st_client st) cmd"
    by (rule history_queue)
  from assms(2) conjunct1 [OF e] st(1) obtain st' where "stream_of c' (oe_pane e) = Some st'" "alike st st'"
    by (rule calm_queue_stream)
  then show "\<exists>st. stream_of c' (oe_pane e) = Some st
      \<and> came b64 (ops @ [x]) (oe_pane e) (st_owner st) (st_client st) cmd"
    using came_snoc [OF st(2) queue [OF conjunct1 [OF e] st(1)]] by (auto simp: alike_def)
qed

lemma history_calm:
  assumes "history b64 ops c" and "calm c c'" and "co_topology_ready c' = co_topology_ready c"
  shows "history b64 ops c'"
  unfolding history_def
proof (intro conjI allI impI)
  fix p st' assume "stream_of c' p = Some st'"
  with assms(2) show "stream_history ops (co_topology_ready c') p st'"
  proof (cases rule: calm_stream)
    case (2 st)
    then have "stream_history ops (co_topology_ready c) p st" using assms(1) by (simp add: history_def)
    then show ?thesis using 2(2) explained_alike [OF 2(2)] assms(3) by (auto simp: stream_history_def alike_def)
  qed (rule reset_history)
next
  fix e cmd assume e: "e \<in> set (co_queue c') \<and> oe_event e = ECommand cmd"
  then have "e \<in> set (co_queue c)" using calm_queue [OF assms(2)] by blast
  from assms(1) this conjunct2 [OF e] obtain st where st: "stream_of c (oe_pane e) = Some st"
    "came b64 ops (oe_pane e) (st_owner st) (st_client st) cmd"
    by (rule history_queue)
  from assms(2) conjunct1 [OF e] st(1) obtain st' where "stream_of c' (oe_pane e) = Some st'" "alike st st'"
    by (rule calm_queue_stream)
  then show "\<exists>st. stream_of c' (oe_pane e) = Some st \<and> came b64 ops (oe_pane e) (st_owner st) (st_client st) cmd"
    using st(2) by (auto simp: alike_def)
qed

section \<open>The calm operations\<close>

definition yields :: "('a \<Rightarrow> bool) \<Rightarrow> collector_panic + 'a \<Rightarrow> bool" where
  "yields P r = (\<forall>c. r = Inr c \<longrightarrow> P c)"

lemma yields_simps [simp]: "yields P (Inl e)" "yields P (Inr c) \<longleftrightarrow> P c"
  by (simp_all add: yields_def)

lemma yields_bind: "yields P r \<Longrightarrow> (\<And>c. P c \<Longrightarrow> yields Q (f c)) \<Longrightarrow> yields Q (sum_bind r f)"
  by (cases r) simp_all

lemma yields_map: "yields P r \<Longrightarrow> (\<And>c. P c \<Longrightarrow> Q (f c)) \<Longrightarrow> yields Q (map_sum id f r)"
  by (cases r) simp_all

lemma yields_mono: "yields P r \<Longrightarrow> (\<And>c. P c \<Longrightarrow> Q c) \<Longrightarrow> yields Q r"
  by (cases r) simp_all

lemma invalidate_look:
  assumes "invalidate pane reason lost c = Inr c'" and "stream_of c pane = Some st"
  shows "stream_of c' q = (if q = pane
    then Some (invalidated_stream pane reason lost (co_epoch c + 1) (st_sequence st + 1) st) else stream_of c q)"
proof -
  have "co_panes c' = map (\<lambda>(p, s). (p, if p = pane
      then invalidated_stream pane reason lost (co_epoch c + 1) (st_sequence st + 1) st else s)) (co_panes c)"
    using invalidate_Inr [OF assms] by simp
  then show ?thesis
    using assms(2) map_of_map_keys [of "\<lambda>p s. if p = pane
      then invalidated_stream pane reason lost (co_epoch c + 1) (st_sequence st + 1) st else s" "co_panes c" q]
    by (simp add: stream_of_def option.map_ident)
qed

text \<open>After its invalidation a stream is reset, keeps its client, and has nothing queued.\<close>

definition calm_resets :: "pane_id set \<Rightarrow> collector \<Rightarrow> collector \<Rightarrow> bool" where
  "calm_resets ps c c' =
     (calm c c' \<and> co_topology_ready c' = co_topology_ready c
      \<and> (\<forall>p st. stream_of c p = Some st \<longrightarrow>
            (\<exists>st'. stream_of c' p = Some st' \<and> st_owner st' = st_owner st \<and> st_client st' = st_client st
               \<and> (p \<in> ps \<longrightarrow> scan_inv [] (st_scanner st') \<and> (\<forall>e \<in> set (co_queue c'). oe_pane e \<noteq> p)))))"

lemma invalidate_resets: "yields (calm_resets {pane} c) (invalidate pane reason lost c)"
proof (cases "stream_of c pane")
  case None
  then show ?thesis by (auto simp: invalidate_def calm_resets_def calm_refl)
next
  case (Some st)
  have "calm_resets {pane} c c'" if c': "invalidate pane reason lost c = Inr c'" for c'
  proof -
    note look = invalidate_look [OF c' Some]
    have queue: "co_queue c' = filter (\<lambda>e. oe_pane e \<noteq> pane) (co_queue c)"
      and ready: "co_topology_ready c' = co_topology_ready c"
      using invalidate_Inr [OF c' Some] by simp_all
    have "scan_inv [] (st_scanner (invalidated_stream pane reason lost e n st))" for e n
      by (simp add: invalidated_stream_def boundary_inv loss_inv)
    moreover have "st_owner (invalidated_stream pane reason lost e n st) = st_owner st"
      "st_client (invalidated_stream pane reason lost e n st) = st_client st" for e n
      by (simp_all add: invalidated_stream_def)
    ultimately show ?thesis
      using Some by (auto simp: calm_resets_def calm_def look queue ready)
  qed
  then show ?thesis by (simp add: yields_def)
qed

lemma calm_resets_trans:
  assumes "calm_resets ps a b" and "calm_resets qs b c"
  shows "calm_resets (ps \<union> qs) a c"
  unfolding calm_resets_def
proof (intro conjI allI impI)
  show calm: "calm a c" using assms calm_trans unfolding calm_resets_def by blast
  show "co_topology_ready c = co_topology_ready a" using assms by (simp add: calm_resets_def)
  fix p st assume "stream_of a p = Some st"
  with assms(1) obtain s where s: "stream_of b p = Some s" "st_owner s = st_owner st" "st_client s = st_client st"
    "p \<in> ps \<Longrightarrow> scan_inv [] (st_scanner s) \<and> (\<forall>e \<in> set (co_queue b). oe_pane e \<noteq> p)"
    unfolding calm_resets_def by blast
  with assms(2) obtain st' where st': "stream_of c p = Some st'" "st_owner st' = st_owner s" "st_client st' = st_client s"
    "p \<in> qs \<Longrightarrow> scan_inv [] (st_scanner st') \<and> (\<forall>e \<in> set (co_queue c). oe_pane e \<noteq> p)"
    unfolding calm_resets_def by blast
  have bc: "calm b c" using assms(2) by (simp add: calm_resets_def)
  have "scan_inv [] (st_scanner st') \<and> (\<forall>e \<in> set (co_queue c). oe_pane e \<noteq> p)" if "p \<in> ps"
  proof
    from bc st'(1) show "scan_inv [] (st_scanner st')"
      by (cases rule: calm_stream) (use s that in \<open>auto simp: alike_def\<close>)
    show "\<forall>e \<in> set (co_queue c). oe_pane e \<noteq> p" using s(4) [OF that] calm_queue [OF bc] by blast
  qed
  then show "\<exists>st'. stream_of c p = Some st' \<and> st_owner st' = st_owner st \<and> st_client st' = st_client st
      \<and> (p \<in> ps \<union> qs \<longrightarrow> scan_inv [] (st_scanner st') \<and> (\<forall>e \<in> set (co_queue c). oe_pane e \<noteq> p))"
    using st' s by auto
qed

lemma invalidate_all_resets: "yields (calm_resets (set ps) c) (invalidate_all reason lost ps c)"
proof (induction ps arbitrary: c)
  case Nil
  then show ?case by (simp add: calm_resets_def calm_refl)
next
  case (Cons p ps)
  show ?case
    unfolding invalidate_all.simps
  proof (rule yields_bind [OF invalidate_resets])
    fix c1 assume c1: "calm_resets {p} c c1"
    show "yields (calm_resets (set (p # ps)) c) (invalidate_all reason lost ps c1)"
      by (rule yields_mono [OF Cons.IH]) (use calm_resets_trans [OF c1] in simp)
  qed
qed

text \<open>Steps that keep the topology flag.\<close>

definition still :: "collector \<Rightarrow> collector \<Rightarrow> bool" where
  "still c c' = (calm c c' \<and> co_topology_ready c' = co_topology_ready c)"

lemma still_refl [simp]: "still c c"
  by (simp add: still_def calm_refl)

lemma still_trans: "still a b \<Longrightarrow> still b c \<Longrightarrow> still a c"
  using calm_trans by (auto simp: still_def)

lemma resets_still: "calm_resets ps c c' \<Longrightarrow> still c c'"
  by (simp add: calm_resets_def still_def)

lemma still_same:
  assumes "co_panes c' = co_panes c" and "set (co_queue c') \<subseteq> set (co_queue c)"
    and "co_topology_ready c' = co_topology_ready c"
  shows "still c c'"
  using assms by (auto simp: still_def calm_def stream_of_def)

lemma update_look: "stream_of (update_stream pane f c) q = (if q = pane then map_option f (stream_of c q) else stream_of c q)"
  using map_of_map_keys [of "\<lambda>p s. if p = pane then f s else s" "co_panes c" q]
  by (simp add: stream_of_def update_stream_def option.map_ident)

lemma update_other [simp]:
  "co_queue (update_stream pane f c) = co_queue c" "co_topology_ready (update_stream pane f c) = co_topology_ready c"
  "co_epoch (update_stream pane f c) = co_epoch c" "co_departed (update_stream pane f c) = co_departed c"
  by (simp_all add: update_stream_def)

text \<open>A reset stream with nothing queued may change hands.\<close>

lemma reset_update_still:
  assumes "\<And>st. stream_of c pane = Some st \<Longrightarrow> scan_inv [] (st_scanner (f st))"
    and "\<forall>e \<in> set (co_queue c). oe_pane e \<noteq> pane"
  shows "still c (update_stream pane f c)"
  using assms by (auto simp: still_def calm_def update_look)

lemma shed_still: "yields (still c) (shed_payload available c)"
proof (induction available c rule: shed_payload.induct)
  case (1 available c)
  show ?case
  proof (cases "pending_bytes c \<le> available")
    case True
    then show ?thesis by (simp add: shed_payload.simps)
  next
    case False
    show ?thesis
    proof (cases "budget_victim c")
      case (Some pane)
      show ?thesis
      proof (cases "invalidate pane BudgetExceeded False c")
        case (Inr c1)
        have "still c c1" using invalidate_resets [of pane c BudgetExceeded False] Inr by (simp add: resets_still)
        then show ?thesis
          using 1 [OF False Some Inr] Inr Some False still_trans
          by (auto simp: shed_payload.simps intro: yields_mono)
      qed (simp add: shed_payload.simps Some)
    qed (simp add: shed_payload.simps)
  qed
qed

lemma remove_still:
  assumes "\<forall>e \<in> set (co_queue c). oe_pane e \<noteq> pane"
  shows "yields (still c) (remove_stream pane st c)"
proof -
  define c2 where "c2 = c\<lparr>co_panes := filter (\<lambda>(p, _). p \<noteq> pane) (co_panes c),
      co_retired := co_retired c + sn_rejected (st_scanner st)\<rparr>"
  have c2: "still c c2" using assms by (auto simp: still_def calm_def c2_def stream_of_def map_of_filter_key)
  define c3 where "c3 = c2\<lparr>co_overflows := co_overflows c2 + 1, co_all_invalidated := True, co_departed := [],
      co_queue := [], co_queued_bytes := 0\<rparr>"
  have "still c2 c3" by (rule still_same) (simp_all add: c3_def)
  with c2 have c3: "still c c3" by (rule still_trans)
  have flush: "yields (still c) (invalidate_all QueueOverflow False ps c3)" for ps
    by (rule yields_mono [OF invalidate_all_resets]) (blast intro: still_trans [OF c3] resets_still)
  have "still c (case st_gap st of Some g \<Rightarrow> c2\<lparr>co_departed := put_sorted pane g (co_departed c2)\<rparr> | None \<Rightarrow> c2)"
    using c2 by (auto split: option.split intro: still_trans [OF c2 still_same])
  then show ?thesis
    unfolding remove_stream_def Let_def c2_def [symmetric] c3_def [symmetric] using flush by simp
qed

lemma retire_still: "yields (still c) (retire_pane pane c)"
proof (cases "stream_of c pane")
  case None
  then show ?thesis by (simp add: retire_pane_def invalidate_def)
next
  case (Some st)
  show ?thesis
    unfolding retire_pane_def
  proof (rule yields_bind [OF invalidate_resets])
    fix c1 assume c1: "calm_resets {pane} c c1"
    then have "\<forall>e \<in> set (co_queue c1). oe_pane e \<noteq> pane" using Some unfolding calm_resets_def by blast
    from remove_still [OF this] have "yields (still c) (remove_stream pane s c1)" for s
      by (rule yields_mono) (rule still_trans [OF resets_still [OF c1]])
    then show "yields (still c) (case stream_of c1 pane of None \<Rightarrow> Inl Inconsistent | Some s \<Rightarrow> remove_stream pane s c1)"
      by (simp split: option.split)
  qed
qed

lemma retire_panes_still: "yields (still c) (retire_panes ps c)"
proof (induction ps arbitrary: c)
  case (Cons p ps)
  show ?case
    unfolding retire_panes.simps
    by (rule yields_bind [OF retire_still], rule yields_mono [OF Cons.IH]) (rule still_trans)
qed simp

lemma next_epoch_still: "yields (still c) (next_epoch c)"
  by (auto simp: next_epoch_def yields_def split: option.split intro: still_same)

lemma new_stream_still:
  assumes "stream_of c pane = None"
  shows "still c (c\<lparr>co_panes := put_sorted pane (new_stream owner client epoch) (co_panes c)\<rparr>)"
  using assms scan_inv_start
  by (auto simp: still_def calm_def stream_of_def put_sorted_map_of new_stream_def)

lemma adopt_still: "yields (still c) (adopt_pane clients pane sessions c)"
proof (cases "adopted_owner c pane sessions")
  case (Some owner)
  show ?thesis
  proof (cases "clients owner")
    case client: (Some client)
    show ?thesis
    proof (cases "stream_of c pane")
      case None
      have "yields (\<lambda>c1. still c c1 \<and> stream_of c1 pane = None) (next_epoch c)"
        using next_epoch_still [of c] None by (auto simp: next_epoch_def yields_def stream_of_def split: option.split)
      then have "yields (still c) (map_sum id (\<lambda>c1. c1\<lparr>co_panes := put_sorted pane
          (new_stream owner client (co_epoch c1)) (co_panes c1)\<rparr>) (next_epoch c))"
        by (rule yields_map) (blast intro: still_trans new_stream_still)
      then show ?thesis using Some client None by (simp add: adopt_pane_def)
    next
      case st: (Some st)
      have "yields (still c) (map_sum id (update_stream pane (\<lambda>s. s\<lparr>st_owner := owner, st_client := client,
          st_paused := False, st_quarantine := False\<rparr>)) (invalidate pane OwnerChanged True c))"
      proof (rule yields_map [OF invalidate_resets])
        fix c1 assume c1: "calm_resets {pane} c c1"
        then obtain s where "stream_of c1 pane = Some s" "scan_inv [] (st_scanner s)"
          "\<forall>e \<in> set (co_queue c1). oe_pane e \<noteq> pane" using st unfolding calm_resets_def by blast
        then show "still c (update_stream pane (\<lambda>s. s\<lparr>st_owner := owner, st_client := client,
            st_paused := False, st_quarantine := False\<rparr>) c1)"
          by (intro still_trans [OF resets_still [OF c1] reset_update_still]) simp_all
      qed
      then show ?thesis using Some client st by (simp add: adopt_pane_def)
    qed
  qed (simp add: adopt_pane_def Some)
qed (simp add: adopt_pane_def)

lemma adopt_panes_still: "yields (still c) (adopt_panes clients eligible c)"
proof (induction eligible arbitrary: c)
  case (Cons x rest)
  obtain p ss where x: "x = (p, ss)" by (cases x)
  show ?case
    unfolding x adopt_panes.simps
    by (rule yields_bind [OF adopt_still], rule yields_mono [OF Cons.IH]) (rule still_trans)
qed simp

lemma reconcile_calm: "yields (\<lambda>c'. calm c c' \<and> co_topology_ready c') (reconcile topology clients c)"
  unfolding reconcile_def Let_def
proof (rule yields_bind [OF retire_panes_still], rule yields_bind [OF adopt_panes_still])
  fix c1 c2 assume "still c c1" "still c1 c2"
  then have "still c c2" by (rule still_trans)
  then show "yields (\<lambda>c'. calm c c' \<and> co_topology_ready c') (Inr (c2\<lparr>co_topology_ready := True\<rparr>))"
    by (simp add: still_def calm_def stream_of_def)
qed

section \<open>Every operation extends the history\<close>

lemma resets_stream:
  assumes "calm_resets ps c c'" and "stream_of c p = Some st"
  obtains st' where "stream_of c' p = Some st'" "st_owner st' = st_owner st" "st_client st' = st_client st"
    "p \<in> ps \<Longrightarrow> scan_inv [] (st_scanner st') \<and> (\<forall>e \<in> set (co_queue c'). oe_pane e \<noteq> p)"
  using assms unfolding calm_resets_def by blast

lemma history_resets:
  assumes "history b64 ops c" and r: "calm_resets ps c c'"
    and harmless: "\<And>p st. stream_of c p = Some st \<Longrightarrow>
      p \<in> ps \<or> byte_for p (st_owner st) (st_client st) x = [] \<and> \<not> severs p (st_owner st) (st_client st) x"
  shows "history b64 (ops @ [x]) c'"
proof (rule history_step [OF assms(1)])
  show "calm c c'" using r by (simp add: calm_resets_def)
  fix p st st' assume st: "stream_of c p = Some st" "stream_of c' p = Some st'" "alike st st'"
  show "idle st \<or> (co_topology_ready c \<longrightarrow> co_topology_ready c') \<and> byte_for p (st_owner st) (st_client st) x = []
      \<and> \<not> severs p (st_owner st) (st_client st) x"
  proof (cases "p \<in> ps")
    case True
    with r st(1,2) have "scan_inv [] (st_scanner st')" by (auto elim: resets_stream)
    then show ?thesis using st(3) reset_idle [of st] by (simp add: alike_def)
  next
    case False
    then show ?thesis using harmless [OF st(1)] r by (simp add: calm_resets_def)
  qed
next
  fix e st assume e: "e \<in> set (co_queue c')" and st: "stream_of c (oe_pane e) = Some st"
  have "oe_pane e \<notin> ps"
    using r st e by (auto elim: resets_stream)
  then show "\<not> severs (oe_pane e) (st_owner st) (st_client st) x" using harmless [OF st] by simp
qed

lemma history_still: "history b64 ops c \<Longrightarrow> still c c' \<Longrightarrow> history b64 ops c'"
  by (simp add: still_def history_calm)

lemma history_step_still:
  assumes "history b64 ops c" and "still c c'"
    and "\<And>p st. stream_of c p = Some st \<Longrightarrow>
      byte_for p (st_owner st) (st_client st) x = [] \<and> \<not> severs p (st_owner st) (st_client st) x"
  shows "history b64 (ops @ [x]) c'"
  using assms by (intro history_step [OF assms(1)]) (auto simp: still_def)

lemma topology_failed_history:
  assumes "history b64 ops c" and "topology_failed c = Inr c'"
  shows "history b64 (ops @ [CTopologyFailed]) c'"
proof -
  obtain c1 where c1: "invalidate_all FramingLoss True (map fst (co_panes c)) c = Inr c1"
    and c': "c' = c1\<lparr>co_topology_ready := False\<rparr>"
    using assms(2) unfolding topology_failed_def invalidate_all_ready
    by (cases "invalidate_all FramingLoss True (map fst (co_panes c)) c") auto
  have r: "calm_resets (set (map fst (co_panes c))) c c1"
    using invalidate_all_resets c1 unfolding yields_def by blast
  have known: "p \<in> set (map fst (co_panes c))" if "stream_of c p = Some st" for p st
    using that map_of_SomeD by (force simp: stream_of_def)
  have h: "history b64 (ops @ [CTopologyFailed]) c1"
    by (rule history_resets [OF assms(1) r]) (use known in blast)
  have "idle st" if "stream_of c1 p = Some st" for p st
  proof -
    have calm: "calm c c1" using r by (simp add: calm_resets_def)
    from calm that have "scan_inv [] (st_scanner st)"
    proof (cases rule: calm_stream)
      case (2 s)
      with r known [OF 2(1)] that show ?thesis by (auto elim: resets_stream)
    qed
    then show ?thesis by (rule reset_idle)
  qed
  then show ?thesis
    using h by (auto simp: history_def c' stream_of_def intro: idle_history)
qed

lemma client_gap_history:
  assumes "history b64 ops c" and "client_gap session reason c = Inr c'"
    and "\<And>p s k. s \<noteq> session \<Longrightarrow> \<not> severs p s k x" and "\<And>p s k. byte_for p s k x = []"
  shows "history b64 (ops @ [x]) c'"
proof (rule history_resets [OF assms(1)])
  let ?ps = "map fst (filter (\<lambda>(_, st). st_owner st = session) (co_panes c))"
  show "calm_resets (set ?ps) c c'"
    using invalidate_all_resets assms(2) unfolding yields_def client_gap_def by blast
  fix p st assume "stream_of c p = Some st"
  then have "(p, st) \<in> set (co_panes c)" by (simp add: stream_of_def map_of_SomeD)
  then show "p \<in> set ?ps \<or> byte_for p (st_owner st) (st_client st) x = [] \<and> \<not> severs p (st_owner st) (st_client st) x"
    using assms(3,4) by (cases "st_owner st = session") force+
qed

lemma boundary_history:
  assumes "history b64 ops c" and "collector_boundary pane inside c = Inr (b, c')"
  shows "history b64 (ops @ [CBoundary pane inside]) c'"
proof -
  obtain c1 where c1: "invalidate pane OwnerChanged False c = Inr c1"
    and c': "c' = (case stream_of c1 pane of None \<Rightarrow> c1
      | Some st \<Rightarrow> update_stream pane (\<lambda>s. s\<lparr>st_quarantine := inside\<rparr>) c1)"
    using assms(2) by (cases "invalidate pane OwnerChanged False c") (auto simp: collector_boundary_def split: option.splits)
  have r: "calm_resets {pane} c c1" using invalidate_resets c1 unfolding yields_def by blast
  have h: "history b64 (ops @ [CBoundary pane inside]) c1"
    by (rule history_resets [OF assms(1) r]) auto
  show ?thesis
  proof (cases "stream_of c pane")
    case None
    then have "stream_of c1 pane = None" using c1 by (simp add: invalidate_def)
    then show ?thesis using h c' by simp
  next
    case (Some st)
    with r obtain s where "stream_of c1 pane = Some s" "scan_inv [] (st_scanner s)"
      "\<forall>e \<in> set (co_queue c1). oe_pane e \<noteq> pane" by (auto elim: resets_stream)
    then show ?thesis
      using c' by (auto intro!: history_still [OF h] reset_update_still)
  qed
qed

text \<open>An operation on one stream that breaks none.\<close>

lemma rescan_history:
  assumes "history b64 ops c" and st: "stream_of c pane = Some st"
    and look: "\<And>q. stream_of c' q = (if q = pane then Some st' else stream_of c q)"
    and "co_queue c' = co_queue c" and ready: "co_topology_ready c' = co_topology_ready c"
    and same: "st_owner st' = st_owner st" "st_client st' = st_client st"
    and new: "stream_history (ops @ [x]) (co_topology_ready c) pane st'"
    and unbroken: "\<And>p s k. \<not> severs p s k x" and bytes: "\<And>p s k. p \<noteq> pane \<Longrightarrow> byte_for p s k x = []"
  shows "history b64 (ops @ [x]) c'"
  unfolding history_def
proof (intro conjI allI impI)
  fix p s assume s: "stream_of c' p = Some s"
  show "stream_history (ops @ [x]) (co_topology_ready c') p s"
  proof (cases "p = pane")
    case True
    then show ?thesis using s look new ready by simp
  next
    case False
    then have "stream_of c p = Some s" using s look by simp
    from stream_history_snoc [OF history_stream [OF assms(1) this] bytes [OF False] unbroken]
    show ?thesis using ready by simp
  qed
next
  fix e cmd assume e: "e \<in> set (co_queue c') \<and> oe_event e = ECommand cmd"
  then have "e \<in> set (co_queue c)" using assms(4) by simp
  from assms(1) this conjunct2 [OF e] obtain s where s: "stream_of c (oe_pane e) = Some s"
    "came b64 ops (oe_pane e) (st_owner s) (st_client s) cmd"
    by (rule history_queue)
  from came_snoc [OF s(2) unbroken]
  show "\<exists>s. stream_of c' (oe_pane e) = Some s \<and> came b64 (ops @ [x]) (oe_pane e) (st_owner s) (st_client s) cmd"
    using s(1) look same st by (cases "oe_pane e = pane") auto
qed

section \<open>Bytes\<close>

lemma quarantined_inv: "scan_inv [SQuarantined ch] (feed_quarantined b64 ch s)"
  by (auto simp: scan_inv_def feed_quarantined_def suppress_candidate_def after_quarantine_def split: scan_state.split)

lemma quarantined_history:
  assumes "st_quarantine st"
  shows "stream_history ops ready pane (st\<lparr>st_scanner := feed_quarantined b64 ch (st_scanner st)\<rparr>)"
proof (rule idle_history)
  have "bs = []" if "fed [SQuarantined ch] bs" for bs
    using that by (auto simp: fed_def suffix_def Cons_eq_append_conv Cons_eq_map_conv)
  then show "idle (st\<lparr>st_scanner := feed_quarantined b64 ch (st_scanner st)\<rparr>)"
    unfolding explained_def using assms by (intro exI [of _ "[SQuarantined ch]"]) (simp add: quarantined_inv)
qed

lemma fed_snoc_byte:
  assumes "fed (h @ [SByte ch]) bs"
  obtains "bs = []" | bs' where "bs = bs' @ [ch]" "fed h bs'"
proof (cases bs rule: rev_cases)
  case (snoc bs' b)
  with assms obtain zs where "h @ [SByte ch] = zs @ map SByte bs' @ [SByte b]" by (auto simp: fed_def suffix_def)
  then have "b = ch" "h = zs @ map SByte bs'" by (simp_all add: append_assoc [symmetric] del: append_assoc)
  then show ?thesis using snoc that(2) [of bs'] by (auto simp: fed_def suffix_def)
qed (use that in simp)

text \<open>A byte fed to the scanner continues the delivery; a report it completes was delivered.\<close>

lemma fed_history:
  assumes "stream_history ops True pane st" and "\<not> st_quarantine st" and "\<not> st_paused st"
    and x: "x = CDecoded (st_owner st) (st_client st) (DByte pane ch)"
    and feed: "scanner_feed b64 ch (st_scanner st) = (event, t)"
  shows "stream_history (ops @ [x]) True pane (st\<lparr>st_scanner := t\<rparr>)
    \<and> (\<forall>cmd. event = Some (ECommand cmd) \<longrightarrow> came b64 (ops @ [x]) pane (st_owner st) (st_client st) cmd)"
proof -
  let ?delivered = "\<lambda>ops. delivered ops pane (st_owner st) (st_client st)"
  obtain h where h: "scan_inv h (st_scanner st)" "\<not> after_quarantine h" "\<And>bs. fed h bs \<Longrightarrow> ?delivered ops bs"
    using assms(1,2) by (auto simp: stream_history_def explained_def)
  have inv: "scan_inv (h @ [SByte ch]) t" using feed_inv [OF h(1,2), of ch b64] feed by simp
  have all: "?delivered (ops @ [x]) bs" if "fed (h @ [SByte ch]) bs" for bs
    using that
  proof (cases rule: fed_snoc_byte)
    case (2 bs')
    from delivered_snoc [OF h(3) [OF 2(2)], of x] show ?thesis using 2(1) x by simp
  qed simp
  have "explained (?delivered (ops @ [x])) (st\<lparr>st_scanner := t\<rparr>)"
    unfolding explained_def using inv all
    by (intro exI [of _ "h @ [SByte ch]"]) (simp add: after_quarantine_def)
  moreover have "came b64 (ops @ [x]) pane (st_owner st) (st_client st) cmd" if "event = Some (ECommand cmd)" for cmd
  proof -
    have "fst (scanner_feed b64 ch (st_scanner st)) = Some (ECommand cmd)" using feed that by simp
    from command_fed [OF h(1) this] obtain frame where "fed (h @ [SByte ch]) frame"
      "parse_frame b64 frame = Inr (Command cmd)" by blast
    then show ?thesis using delivered_came [OF all] by blast
  qed
  ultimately show ?thesis using assms(3) by (simp add: stream_history_def)
qed

lemma replace_look:
  assumes "replace_scanner pane n t c = Inr c'" and "stream_of c pane = Some st"
  shows "(\<forall>q. stream_of c' q = (if q = pane then Some (st\<lparr>st_scanner := t\<rparr>) else stream_of c q))
    \<and> co_queue c' = co_queue c \<and> co_topology_ready c' = co_topology_ready c"
proof -
  have "co_panes c' = co_panes (update_stream pane (\<lambda>s. s\<lparr>st_scanner := t\<rparr>) c) \<and> co_queue c' = co_queue c
      \<and> co_topology_ready c' = co_topology_ready c"
    using assms(1) by (auto simp: replace_scanner_def subtract_candidate_def split: option.splits)
  then show ?thesis
    using update_look [of pane "\<lambda>s. s\<lparr>st_scanner := t\<rparr>" c] assms(2) by (simp add: stream_of_def)
qed

lemma replace_history:
  assumes "history b64 ops c" and st: "stream_of c pane = Some st" and "co_topology_ready c"
    and "replace_scanner pane n t c = Inr c'"
    and "stream_history (ops @ [x]) True pane (st\<lparr>st_scanner := t\<rparr>)"
    and "x = CDecoded (st_owner st) (st_client st) (DByte pane ch)"
  shows "history b64 (ops @ [x]) c'"
  using replace_look [OF assms(4) st] assms
  by (intro rescan_history [OF assms(1) st, of c' "st\<lparr>st_scanner := t\<rparr>"]) auto

lemma enqueue_history:
  assumes "history b64 ops c" and st: "stream_of c pane = Some st"
    and "\<And>cmd. ev = ECommand cmd \<Longrightarrow> came b64 ops pane (st_owner st) (st_client st) cmd"
  shows "yields (history b64 ops) (enqueue pane ev c)"
proof -
  have drop: "yields (history b64 ops) (invalidate pane reason lost c1)" if "still c c1" for c1 reason lost
    by (rule yields_mono [OF invalidate_resets])
      (rule history_still [OF assms(1) still_trans [OF that resets_still]])
  have append: "history b64 ops ((update_stream pane (\<lambda>s. s\<lparr>st_sequence := n\<rparr>) c)
      \<lparr>co_queue := co_queue c @ [\<lparr>oe_pane = pane, oe_connection = k, oe_sequence = n, oe_event = ev\<rparr>],
       co_queued_bytes := m\<rparr>)" (is "history b64 ops ?c") for n k m
  proof -
    have look: "stream_of ?c q = (if q = pane then Some (st\<lparr>st_sequence := n\<rparr>) else stream_of c q)" for q
      using update_look [of pane "\<lambda>s. s\<lparr>st_sequence := n\<rparr>" c q] st by (simp add: stream_of_def)
    have "stream_history ops (co_topology_ready c) p s" if "stream_of ?c p = Some s" for p s
    proof (cases "p = pane")
      case True
      have "stream_history ops (co_topology_ready c) pane st" by (rule history_stream [OF assms(1) st])
      then show ?thesis using True that by (auto simp: look stream_history_def explained_def)
    next
      case False
      then show ?thesis using that history_stream [OF assms(1)] by (simp add: look)
    qed
    moreover have "\<exists>s. stream_of ?c (oe_pane e) = Some s \<and> came b64 ops (oe_pane e) (st_owner s) (st_client s) cmd"
      if "e \<in> set (co_queue ?c)" "oe_event e = ECommand cmd" for e cmd
    proof (cases "e \<in> set (co_queue c)")
      case True
      from assms(1) True that(2) obtain s where "stream_of c (oe_pane e) = Some s"
        "came b64 ops (oe_pane e) (st_owner s) (st_client s) cmd" by (rule history_queue)
      then show ?thesis using st by (cases "oe_pane e = pane") (auto simp: look)
    next
      case False
      then have "oe_pane e = pane" "ev = ECommand cmd" using that by auto
      then show ?thesis using look [of pane] assms(3) by simp
    qed
    ultimately show ?thesis by (auto simp: history_def)
  qed
  have over: "still c (c\<lparr>co_overflows := k\<rparr>)" for k by (rule still_same) simp_all
  show ?thesis
    using drop [OF still_refl] drop [OF over] append st
    by (simp add: enqueue_def Let_def split: option.split)
qed

lemma collect_byte_history:
  assumes "history b64 ops c" and st: "stream_of c pane = Some st" and ready: "co_topology_ready c"
    and "\<not> st_paused st" and x: "x = CDecoded (st_owner st) (st_client st) (DByte pane ch)"
  shows "yields (history b64 (ops @ [x])) (collect_byte b64 pane st ch c)"
proof (cases "st_quarantine st")
  case True
  then show ?thesis
    using replace_history [OF assms(1) st ready _ quarantined_history [OF True] x]
    by (auto simp: collect_byte_def Let_def yields_def)
next
  case False
  obtain event t where feed: "scanner_feed b64 ch (st_scanner st) = (event, t)" by fastforce
  have "stream_history ops True pane st" using history_stream [OF assms(1) st] ready by simp
  note f = fed_history [OF this False assms(4) x feed]
  show ?thesis
    unfolding collect_byte_def Let_def feed if_not_P [OF False] prod.case
  proof (rule yields_bind [where P = "\<lambda>c1. history b64 (ops @ [x]) c1 \<and> stream_of c1 pane = Some (st\<lparr>st_scanner := t\<rparr>)"])
    show "yields (\<lambda>c1. history b64 (ops @ [x]) c1 \<and> stream_of c1 pane = Some (st\<lparr>st_scanner := t\<rparr>))
        (replace_scanner pane (pending_candidate (st_scanner st)) t c)"
      using replace_history [OF assms(1) st ready _ conjunct1 [OF f] x] replace_look [OF _ st] by (simp add: yields_def)
    fix c1 assume c1: "history b64 (ops @ [x]) c1 \<and> stream_of c1 pane = Some (st\<lparr>st_scanner := t\<rparr>)"
    have "yields (history b64 (ops @ [x])) (invalidate pane BudgetExceeded False c1)"
      by (rule yields_mono [OF invalidate_resets]) (use c1 history_still resets_still in blast)
    moreover have "yields (history b64 (ops @ [x])) (enqueue pane ev c1)" if "event = Some ev" for ev
      using c1 f that by (intro enqueue_history [where st = "st\<lparr>st_scanner := t\<rparr>"]) auto
    ultimately show "yields (history b64 (ops @ [x]))
        (if co_budget c1 < pending_bytes c1 then invalidate pane BudgetExceeded False c1
         else case event of Some ev \<Rightarrow> enqueue pane ev c1 | None \<Rightarrow> Inr c1)"
      using c1 by (simp split: option.split)
  qed
qed

section \<open>Items\<close>

lemma calm_resets_from:
  assumes "calm_resets ps d c'" and "co_queue d = co_queue c" and "co_topology_ready d = co_topology_ready c"
    and same: "\<And>p. p \<notin> ps \<Longrightarrow> stream_of d p = stream_of c p"
    and owners: "\<And>p st. p \<in> ps \<Longrightarrow> stream_of c p = Some st \<Longrightarrow>
      \<exists>st'. stream_of d p = Some st' \<and> st_owner st' = st_owner st \<and> st_client st' = st_client st"
    and known: "\<And>p. p \<in> ps \<Longrightarrow> stream_of c p \<noteq> None"
  shows "calm_resets ps c c'"
proof -
  have prior: "\<exists>s. stream_of d p = Some s \<and> st_owner s = st_owner st \<and> st_client s = st_client st
      \<and> (p \<notin> ps \<longrightarrow> s = st)" if "stream_of c p = Some st" for p st
    using same owners that by (cases "p \<in> ps") auto
  have resets: "\<exists>st'. stream_of c' p = Some st' \<and> st_owner st' = st_owner st \<and> st_client st' = st_client st
      \<and> (p \<in> ps \<longrightarrow> scan_inv [] (st_scanner st') \<and> (\<forall>e \<in> set (co_queue c'). oe_pane e \<noteq> p))"
    if "stream_of c p = Some st" for p st
    using prior [OF that] assms(1) by (fastforce elim: resets_stream)
  have "calm d c'" using assms(1) by (simp add: calm_resets_def)
  have "calm c c'"
    unfolding calm_def
  proof (intro conjI allI ballI impI)
    fix p st' assume c': "stream_of c' p = Some st'"
    with \<open>calm d c'\<close> show "scan_inv [] (st_scanner st') \<or> (\<exists>st. stream_of c p = Some st \<and> alike st st')"
    proof (cases rule: calm_stream)
      case (2 s)
      then show ?thesis
      proof (cases "p \<in> ps")
        case True
        then obtain st where "stream_of c p = Some st" using known by blast
        then show ?thesis using resets [of p st] True c' by auto
      qed (use 2 same in auto)
    qed simp
  next
    fix e assume e: "e \<in> set (co_queue c')"
    then show "e \<in> set (co_queue c)" using calm_queue [OF \<open>calm d c'\<close>] assms(2) by simp
    fix st assume st: "stream_of c (oe_pane e) = Some st"
    have "oe_pane e \<notin> ps" using resets [OF st] e by blast
    then have "stream_of d (oe_pane e) = Some st" using same st by simp
    with \<open>calm d c'\<close> e show "\<exists>st'. stream_of c' (oe_pane e) = Some st' \<and> alike st st'"
      by (blast elim: calm_queue_stream)
  qed
  then show ?thesis using assms(1,3) resets by (simp add: calm_resets_def)
qed

lemma paused_history:
  assumes "history b64 ops c" and st: "stream_of c pane = Some st"
    and "\<And>p s k. p \<noteq> pane \<Longrightarrow> byte_for p s k x = [] \<and> \<not> severs p s k x"
  shows "yields (history b64 (ops @ [x]))
    (invalidate pane reason lost (update_stream pane (\<lambda>s. s\<lparr>st_paused := b\<rparr>) c))"
proof (rule yields_mono [OF invalidate_resets])
  fix c' assume "calm_resets {pane} (update_stream pane (\<lambda>s. s\<lparr>st_paused := b\<rparr>) c) c'"
  then have "calm_resets {pane} c c'"
    by (rule calm_resets_from) (use st in \<open>auto simp: update_look\<close>)
  from history_resets [OF assms(1) this] assms(3) show "history b64 (ops @ [x]) c'" by blast
qed

lemma end_quarantine_history:
  assumes "history b64 ops c" and st: "stream_of c pane = Some st"
    and "\<And>p s k. byte_for p s k x = [] \<and> \<not> severs p s k x"
  shows "yields (history b64 (ops @ [x])) (end_quarantine pane st c)"
proof -
  let ?f = "\<lambda>s. s\<lparr>st_scanner := scanner_boundary (st_scanner s), st_quarantine := False\<rparr>"
  have "history b64 (ops @ [x]) (update_stream pane ?f d)"
    if "co_panes d = co_panes c" "co_queue d = co_queue c" "co_topology_ready d = co_topology_ready c" for d
  proof (rule rescan_history [OF assms(1) st, where st' = "?f st"])
    show "stream_history (ops @ [x]) (co_topology_ready c) pane (?f st)"
      by (rule reset_history) (simp add: boundary_inv)
    show "stream_of (update_stream pane ?f d) q = (if q = pane then Some (?f st) else stream_of c q)" for q
      using that st update_look [of pane ?f d q] by (simp add: stream_of_def)
  qed (use that assms(3) in auto)
  then show ?thesis
    by (auto simp: end_quarantine_def subtract_candidate_def yields_def split: option.splits)
qed

text \<open>An item that leaves the collector alone.\<close>

lemma ignored_history:
  assumes "history b64 ops c"
    and "\<And>p st. stream_of c p = Some st \<Longrightarrow> idle st \<or> byte_for p (st_owner st) (st_client st) x = []"
    and "\<And>p st. stream_of c p = Some st \<Longrightarrow> \<not> severs p (st_owner st) (st_client st) x
        \<or> idle st \<and> (\<forall>e \<in> set (co_queue c). oe_pane e \<noteq> p)"
  shows "history b64 (ops @ [x]) c"
  by (rule history_step [OF assms(1) calm_refl]) (use assms(2,3) in blast)+

lemma stream_item_history:
  assumes "history b64 ops c" and st: "stream_of c pane = Some st" and ready: "co_topology_ready c"
    and x: "x = CDecoded (st_owner st) (st_client st) item" and pane: "decoded_pane item = Some pane"
  shows "yields (history b64 (ops @ [x])) (stream_item b64 pane st item c)"
proof -
  have reset: "yields (history b64 (ops @ [x])) (invalidate pane reason lost c)"
    if "\<And>p s k. p \<noteq> pane \<Longrightarrow> byte_for p s k x = [] \<and> \<not> severs p s k x" for reason lost
    by (rule yields_mono [OF invalidate_resets], rule history_resets [OF assms(1)]) (use that in blast)+
  have ignored: "history b64 (ops @ [x]) c"
    if "\<And>p s k. \<not> severs p s k x" "\<And>p s k. byte_for p s k x = [] \<or> p = pane \<and> st_paused st"
  proof (rule ignored_history [OF assms(1)])
    fix p s assume s: "stream_of c p = Some s"
    show "idle s \<or> byte_for p (st_owner s) (st_client s) x = []"
      using that(2) [of p "st_owner s" "st_client s"] history_stream [OF assms(1) s] s st
      by (auto simp: stream_history_def)
  qed (use that in blast)
  show ?thesis
  proof (cases item)
    case (DByte p ch)
    then have p: "p = pane" using pane by simp
    show ?thesis
    proof (cases "st_paused st")
      case True
      then show ?thesis using ignored x DByte p by (simp add: stream_item_def)
    next
      case False
      then show ?thesis
        using collect_byte_history [OF assms(1) st ready False] x DByte p by (simp add: stream_item_def)
    qed
  next
    case (DEnd p)
    then show ?thesis
      using end_quarantine_history [OF assms(1) st, of x] ignored x by (simp add: stream_item_def)
  next
    case (DGap p reason)
    then show ?thesis using reset pane x by (simp add: stream_item_def)
  qed (use pane x paused_history [OF assms(1) st, of x] ignored in \<open>simp_all add: stream_item_def\<close>)
qed

lemma item_for:
  assumes "decoded_pane item = Some pane"
    and "byte_for p s k (CDecoded session client item) \<noteq> [] \<or> severs p s k (CDecoded session client item)"
  shows "p = pane \<and> s = session \<and> k = client"
  using assms by (cases item) (auto split: if_splits option.splits)

lemma item_for_none:
  "decoded_pane item = None \<Longrightarrow> (\<And>reason. item \<noteq> DGap None reason) \<Longrightarrow>
     byte_for p s k (CDecoded session client item) = [] \<and> \<not> severs p s k (CDecoded session client item)"
  by (cases item) (auto split: option.splits)

lemma decoded_history:
  assumes "history b64 ops c" and "collector_sane c"
  shows "yields (history b64 (ops @ [CDecoded session client item])) (collector_decoded b64 session client item c)"
proof (cases "\<exists>reason. item = DGap None reason")
  case True
  then obtain reason where item: "item = DGap None reason" by blast
  have "history b64 (ops @ [CDecoded session client item]) c'" if "client_gap session reason c = Inr c'" for c'
    by (rule client_gap_history [OF assms(1) that]) (simp_all add: item)
  then show ?thesis by (simp add: item collector_decoded_def yields_def)
next
  case False
  then have step: "collector_decoded b64 session client item c =
      (case decoded_pane item of None \<Rightarrow> Inr c
       | Some pane \<Rightarrow> if \<not> co_topology_ready c then Inr c
           else case stream_of c pane of None \<Rightarrow> Inr c
             | Some st \<Rightarrow> if st_owner st \<noteq> session \<or> st_client st \<noteq> client then Inr c
                 else stream_item b64 pane st item c)"
    by (auto simp: collector_decoded_def split: decoded.split)
  show ?thesis
  proof (cases "decoded_pane item")
    case None
    have "history b64 (ops @ [CDecoded session client item]) c"
      by (rule ignored_history [OF assms(1)]) (use item_for_none [OF None] False in blast)+
    then show ?thesis using step None by simp
  next
    case (Some pane)
    note for_ = item_for [OF Some, of _ _ _ session client]
    show ?thesis
    proof (cases "co_topology_ready c")
      case False
      then have "co_queue c = []" using assms(2) by (simp add: sane_defs)
      moreover have "idle st" if "stream_of c p = Some st" for p st
        using history_stream [OF assms(1) that] False by (simp add: stream_history_def)
      ultimately have "history b64 (ops @ [CDecoded session client item]) c"
        by (intro ignored_history [OF assms(1)]) auto
      then show ?thesis using step Some False by simp
    next
      case ready: True
      show ?thesis
      proof (cases "\<exists>st. stream_of c pane = Some st \<and> st_owner st = session \<and> st_client st = client")
        case True
        then obtain st where st: "stream_of c pane = Some st" "st_owner st = session" "st_client st = client" by blast
        then show ?thesis
          using stream_item_history [OF assms(1) st(1) ready _ Some, of "CDecoded session client item"] step Some ready
          by simp
      next
        case False
        have "history b64 (ops @ [CDecoded session client item]) c"
          by (rule ignored_history [OF assms(1)]) (use for_ False in blast)+
        then show ?thesis using step Some ready False by (auto split: option.split)
      qed
    qed
  qed
qed

section \<open>Runs\<close>

lemma drain_still: "still c (snd (drain c))"
proof -
  have "stream_of (snd (drain c)) p = map_option (\<lambda>st. st\<lparr>st_gap := None\<rparr>) (stream_of c p)" for p
    using map_of_map_keys [of "\<lambda>p st. st\<lparr>st_gap := None\<rparr>" "co_panes c" p] by (simp add: drain_def stream_of_def)
  then show ?thesis by (auto simp: still_def calm_def drain_def alike_def)
qed

lemma exec_history:
  assumes "history b64 ops c" and "collector_ok c" and "collector_exec b64 x c = Inr (out, c')"
  shows "history b64 (ops @ [x]) c'"
proof (cases x)
  case (CBudget n)
  have "still c (c\<lparr>co_budget := n\<rparr>)" by (rule still_same) simp_all
  then have "still c c'"
    using assms(3) CBudget shed_still [of "c\<lparr>co_budget := n\<rparr>" n] still_trans
    by (cases "shed_payload n (c\<lparr>co_budget := n\<rparr>)") (auto simp: no_output_def set_payload_budget_def)
  then show ?thesis using CBudget by (intro history_step_still [OF assms(1)]) simp_all
next
  case CTopologyFailed
  then show ?thesis
    using assms(3) topology_failed_history [OF assms(1)] by (cases "topology_failed c") (auto simp: no_output_def)
next
  case (CReconcile topology clients)
  then have "calm c c' \<and> co_topology_ready c'"
    using assms(3) reconcile_calm [of c topology clients]
    by (cases "reconcile topology clients c") (auto simp: no_output_def)
  then show ?thesis using CReconcile by (intro history_step [OF assms(1)]) auto
next
  case (CClientGap session reason)
  then show ?thesis
    using assms(3) client_gap_history [OF assms(1), of session reason c' x]
    by (cases "client_gap session reason c") (auto simp: no_output_def)
next
  case (CBoundary pane inside)
  then show ?thesis
    using assms(3) boundary_history [OF assms(1)]
    by (cases "collector_boundary pane inside c") (auto simp: no_output_def)
next
  case (CDecoded session client item)
  then show ?thesis
    using assms(3) decoded_history [OF assms(1) ok_sane [OF assms(2)], of session client item]
    by (cases "collector_decoded b64 session client item c") (auto simp: no_output_def)
next
  case CDrain
  then have "c' = snd (drain c)" using assms(3) by (auto split: prod.splits)
  then show ?thesis using CDrain drain_still by (intro history_step_still [OF assms(1)]) simp_all
qed

lemma map_sum_Inr: "map_sum id f r = Inr y \<longleftrightarrow> (\<exists>x. r = Inr x \<and> y = f x)"
  by (cases r) auto

text \<open>What is drained is what was queued.\<close>

lemma exec_output:
  assumes "collector_exec b64 x c = Inr (out, c')"
  shows "out = [] \<or> x = CDrain \<and> out = [fst (drain c)] \<and> c' = snd (drain c)"
  using assms by (cases x) (auto simp: no_output_def map_sum_Inr split: prod.splits)

lemma run_history:
  assumes "history b64 ops c" and "collector_ok c" and "collector_run b64 xs c = Inr (out, c')"
  shows "collector_ok c' \<and> history b64 (ops @ xs) c'
    \<and> (\<forall>d e cmd. d \<in> set out \<and> e \<in> set (dr_observations d) \<and> oe_event e = ECommand cmd \<longrightarrow>
          (\<exists>done rest s k. xs = done @ rest \<and> came b64 (ops @ done) (oe_pane e) s k cmd))"
  using assms
proof (induction xs arbitrary: ops c out)
  case (Cons x xs)
  from Cons.prems(3) obtain out1 c1 out2 where x: "collector_exec b64 x c = Inr (out1, c1)"
    and xs: "collector_run b64 xs c1 = Inr (out2, c')" and out: "out = out1 @ out2"
    by (auto simp: sum_bind_Inr map_sum_Inr split: prod.splits)
  have ok: "collector_ok c1" using exec_ok [OF Cons.prems(2), of b64 x] x by simp
  have h: "history b64 (ops @ [x]) c1" by (rule exec_history [OF Cons.prems(1,2) x])
  note IH = Cons.IH [OF h ok xs]
  have ended: "collector_ok c'" "history b64 (ops @ x # xs) c'" using IH by simp_all
  have "\<exists>done rest s k. x # xs = done @ rest \<and> came b64 (ops @ done) (oe_pane e) s k cmd"
    if d: "d \<in> set out" "e \<in> set (dr_observations d)" "oe_event e = ECommand cmd" for d e cmd
  proof (cases "d \<in> set out2")
    case True
    with IH d obtain don rest s k where "xs = don @ rest" "came b64 ((ops @ [x]) @ don) (oe_pane e) s k cmd" by blast
    then show ?thesis by (intro exI [of _ "x # don"] exI [of _ rest] exI [of _ s] exI [of _ k]) simp
  next
    case False
    then have "e \<in> set (co_queue c)" using d out exec_output [OF x] by (auto simp: drain_def)
    from Cons.prems(1) this d(3) obtain st where "stream_of c (oe_pane e) = Some st"
      "came b64 ops (oe_pane e) (st_owner st) (st_client st) cmd" by (rule history_queue)
    then show ?thesis by (intro exI [of _ "[]"] exI [of _ "x # xs"] exI) simp
  qed
  then show ?case using ended by blast
qed simp

end
