(* ===== verification/Collector_Order.thy ===== *)
theory Collector_Order
  imports Collector_History
begin

text \<open>
  The order in which the consumer sees the events of a pane: epoch first, then sequence, strictly
  increasing over all drains, a gap before everything that follows it. Epochs are never reused.
\<close>

section \<open>Order\<close>

definition earlier :: "observed_event \<Rightarrow> observed_event \<Rightarrow> bool" where
  "earlier a b =
     (oe_connection a < oe_connection b \<or> oe_connection a = oe_connection b \<and> oe_sequence a < oe_sequence b)"

definition precedes :: "observed_event \<Rightarrow> observed_event \<Rightarrow> bool" where
  "precedes a b = (oe_pane a = oe_pane b \<longrightarrow> earlier a b)"

text \<open>Everything a drain hands over, in the order the consumer applies it.\<close>

definition drained :: "program_drain \<Rightarrow> observed_event list" where
  "drained d = dr_invalidations d @ dr_observations d"

definition marked :: "observed_event \<Rightarrow> pane_stream \<Rightarrow> bool" where
  "marked e st =
     (oe_connection e < st_epoch st \<or> oe_connection e = st_epoch st \<and> oe_sequence e \<le> st_sequence st)"

lemma marked_gap [simp]: "marked e (st\<lparr>st_gap := g\<rparr>) = marked e st"
  by (simp add: marked_def)

definition departed_past :: "collector \<Rightarrow> bool" where
  "departed_past c =
     (\<forall>p g st. (p, g) \<in> set (co_departed c) \<and> stream_of c p = Some st \<longrightarrow> oe_connection g < st_epoch st)"

definition order_ok :: "observed_event list \<Rightarrow> collector \<Rightarrow> bool" where
  "order_ok log c =
     (sorted_wrt precedes log \<and> departed_past c
      \<and> (\<forall>e \<in> set log.
            oe_connection e \<le> co_epoch c
            \<and> (\<forall>st. stream_of c (oe_pane e) = Some st \<longrightarrow>
                  marked e st \<and> (\<forall>g. st_gap st = Some g \<longrightarrow> earlier e g))
            \<and> (\<forall>g. (oe_pane e, g) \<in> set (co_departed c) \<longrightarrow> earlier e g)
            \<and> (\<forall>q \<in> set (co_queue c). precedes e q)))"

lemma order_ok_new: "order_ok [] (collector_with_epoch e)"
  by (simp add: order_ok_def departed_past_def collector_with_epoch_def)

section \<open>Steps forward\<close>

text \<open>
  A step moves a collector forward: a stream is at a fresh epoch or goes on in its epoch, and so are
  departures and the queue.
\<close>

definition onward :: "pane_stream \<Rightarrow> pane_stream \<Rightarrow> bool" where
  "onward st st' = (st_epoch st' = st_epoch st \<and> st_sequence st \<le> st_sequence st' \<and> st_gap st' = st_gap st)"

definition moves :: "collector \<Rightarrow> collector \<Rightarrow> bool" where
  "moves c c' =
     (co_epoch c \<le> co_epoch c'
      \<and> (\<forall>p st'. stream_of c' p = Some st' \<longrightarrow>
            co_epoch c < st_epoch st' \<or> (\<exists>st. stream_of c p = Some st \<and> onward st st'))
      \<and> (\<forall>p g. (p, g) \<in> set (co_departed c') \<longrightarrow> (p, g) \<in> set (co_departed c) \<or> co_epoch c < oe_connection g)
      \<and> (\<forall>q \<in> set (co_queue c'). q \<in> set (co_queue c) \<or> co_epoch c < oe_connection q
            \<or> (\<exists>st. stream_of c (oe_pane q) = Some st \<and> oe_connection q = st_epoch st \<and> st_sequence st < oe_sequence q))
      \<and> (departed_past c \<longrightarrow> departed_past c'))"

lemma movesI:
  assumes "co_epoch c \<le> co_epoch c'"
    and "\<And>p st'. stream_of c' p = Some st' \<Longrightarrow>
        co_epoch c < st_epoch st' \<or> (\<exists>st. stream_of c p = Some st \<and> onward st st')"
    and "\<And>p g. (p, g) \<in> set (co_departed c') \<Longrightarrow> (p, g) \<in> set (co_departed c) \<or> co_epoch c < oe_connection g"
    and "\<And>q. q \<in> set (co_queue c') \<Longrightarrow> q \<in> set (co_queue c) \<or> co_epoch c < oe_connection q
        \<or> (\<exists>st. stream_of c (oe_pane q) = Some st \<and> oe_connection q = st_epoch st \<and> st_sequence st < oe_sequence q)"
    and "departed_past c \<Longrightarrow> departed_past c'"
  shows "moves c c'"
  using assms unfolding moves_def by blast

lemma moves_stream:
  assumes "moves c c'" and "stream_of c' p = Some st'"
  obtains "co_epoch c < st_epoch st'" | st where "stream_of c p = Some st" "onward st st'"
  using assms unfolding moves_def by blast

lemma moves_queue:
  assumes "moves c c'" and "q \<in> set (co_queue c')"
  obtains "q \<in> set (co_queue c)" | "co_epoch c < oe_connection q"
    | st where "stream_of c (oe_pane q) = Some st" "oe_connection q = st_epoch st" "st_sequence st < oe_sequence q"
  using assms unfolding moves_def by blast

lemma moves_departed:
  assumes "moves c c'" and "(p, g) \<in> set (co_departed c')"
  obtains "(p, g) \<in> set (co_departed c)" | "co_epoch c < oe_connection g"
  using assms unfolding moves_def by blast

lemma moves_epoch: "moves c c' \<Longrightarrow> co_epoch c \<le> co_epoch c'"
  by (simp add: moves_def)

lemma onward_refl [simp]: "onward st st"
  by (simp add: onward_def)

lemma moves_refl [simp]: "moves c c"
  by (rule movesI) auto

lemma moves_trans:
  assumes "moves a b" and "moves b c"
  shows "moves a c"
proof (rule movesI)
  show "co_epoch a \<le> co_epoch c" using moves_epoch [OF assms(1)] moves_epoch [OF assms(2)] by simp
  have ab: "co_epoch a \<le> co_epoch b" by (rule moves_epoch [OF assms(1)])
  show "co_epoch a < st_epoch st'' \<or> (\<exists>st. stream_of a p = Some st \<and> onward st st'')"
    if st'': "stream_of c p = Some st''" for p st''
    using assms(2) st''
  proof (cases rule: moves_stream)
    case 1
    then show ?thesis using ab by simp
  next
    case (2 st')
    from assms(1) 2(1) show ?thesis
      by (cases rule: moves_stream) (use 2(2) in \<open>auto simp: onward_def\<close>)
  qed
  show "(p, g) \<in> set (co_departed a) \<or> co_epoch a < oe_connection g" if g: "(p, g) \<in> set (co_departed c)" for p g
    using assms(2) g by (cases rule: moves_departed) (use assms(1) ab in \<open>auto elim: moves_departed\<close>)
  show "q \<in> set (co_queue a) \<or> co_epoch a < oe_connection q
      \<or> (\<exists>st. stream_of a (oe_pane q) = Some st \<and> oe_connection q = st_epoch st \<and> st_sequence st < oe_sequence q)"
    if q: "q \<in> set (co_queue c)" for q
    using assms(2) q
  proof (cases rule: moves_queue)
    case 1
    with assms(1) show ?thesis by (cases rule: moves_queue) auto
  next
    case 2
    then show ?thesis using ab by simp
  next
    case (3 st)
    from assms(1) 3(1) show ?thesis
      by (cases rule: moves_stream) (use 3(2,3) in \<open>auto simp: onward_def\<close>)
  qed
  show "departed_past c" if "departed_past a" using that assms by (simp add: moves_def)
qed

text \<open>A step that keeps epochs, sequences and gaps.\<close>

lemma moves_same:
  assumes "co_epoch c' = co_epoch c" and "set (co_departed c') \<subseteq> set (co_departed c)"
    and "set (co_queue c') \<subseteq> set (co_queue c)"
    and streams: "\<And>p st'. stream_of c' p = Some st' \<Longrightarrow> \<exists>st. stream_of c p = Some st \<and> onward st st'"
  shows "moves c c'"
proof (rule movesI)
  show "departed_past c'" if "departed_past c"
    using that assms(2) streams unfolding departed_past_def onward_def by (metis subsetD)
qed (use assms in auto)

lemma update_moves:
  assumes "\<And>st. onward st (f st)"
  shows "moves c (update_stream pane f c)"
  by (rule moves_same) (use assms in \<open>auto simp: update_look split: if_splits\<close>)

lemma invalidate_moves:
  assumes "collector_sane c"
  shows "yields (moves c) (invalidate pane reason lost c)"
proof (cases "stream_of c pane")
  case None
  then show ?thesis by (simp add: invalidate_def)
next
  case (Some st)
  have "moves c c'" if c': "invalidate pane reason lost c = Inr c'" for c'
  proof (rule movesI)
    note look = invalidate_look [OF c' Some]
    have same: "co_epoch c' = co_epoch c + 1" "co_departed c' = co_departed c"
      "co_queue c' = filter (\<lambda>e. oe_pane e \<noteq> pane) (co_queue c)"
      using invalidate_Inr [OF c' Some] by simp_all
    then show "co_epoch c \<le> co_epoch c'" by simp
    show "co_epoch c < st_epoch st' \<or> (\<exists>st. stream_of c p = Some st \<and> onward st st')" if "stream_of c' p = Some st'" for p st'
      using that by (auto simp: look invalidated_stream_def split: if_splits)
    show "(p, g) \<in> set (co_departed c) \<or> co_epoch c < oe_connection g" if "(p, g) \<in> set (co_departed c')" for p g
      using that same by simp
    have old: "oe_connection g \<le> co_epoch c" if "(p, g) \<in> set (co_departed c)" for p g
      using assms that by (auto simp: sane_defs gap_ok_def)
    show "departed_past c'" if "departed_past c"
      using that same look by (auto simp: departed_past_def invalidated_stream_def less_Suc_eq_le dest: old split: if_splits)
  qed (use invalidate_Inr [OF c' Some] in simp)
  then show ?thesis by (simp add: yields_def)
qed

text \<open>Steps that keep the collector sane and move it forward.\<close>

definition advances :: "collector \<Rightarrow> collector \<Rightarrow> bool" where
  "advances c c' = (collector_sane c' \<and> moves c c')"

lemma advances_trans: "advances a b \<Longrightarrow> advances b c \<Longrightarrow> advances a c"
  unfolding advances_def using moves_trans by blast

lemma advances_refl: "collector_sane c \<Longrightarrow> advances c c"
  by (simp add: advances_def)

lemma advancesI:
  "consistent (keeps c) r \<Longrightarrow> yields (moves c) r \<Longrightarrow> yields (advances c) r"
  by (cases r) (simp_all add: advances_def keeps_def)

lemma invalidate_advances: "collector_sane c \<Longrightarrow> yields (advances c) (invalidate pane reason lost c)"
  by (rule advancesI [OF invalidate_keeps invalidate_moves])

lemma invalidate_all_advances: "collector_sane c \<Longrightarrow> yields (advances c) (invalidate_all reason lost ps c)"
proof (induction ps arbitrary: c)
  case (Cons p ps)
  show ?case
    unfolding invalidate_all.simps
  proof (rule yields_bind [OF invalidate_advances [OF Cons.prems]])
    fix c1 assume c1: "advances c c1"
    then show "yields (advances c) (invalidate_all reason lost ps c1)"
      by (intro yields_mono [OF Cons.IH]) (auto simp: advances_def intro: moves_trans)
  qed
qed (simp add: advances_refl)

lemma same_advances:
  assumes "keeps c c'" and "co_epoch c' = co_epoch c" and "set (co_departed c') \<subseteq> set (co_departed c)"
    and "set (co_queue c') \<subseteq> set (co_queue c)"
    and "\<And>p st'. stream_of c' p = Some st' \<Longrightarrow> \<exists>st. stream_of c p = Some st \<and> onward st st'"
  shows "advances c c'"
  using assms(1) moves_same [OF assms(2-5)] by (simp add: advances_def keeps_def)

lemma shed_moves: "collector_sane c \<Longrightarrow> yields (moves c) (shed_payload available c)"
proof (induction available c rule: shed_payload.induct)
  case (1 available c)
  show ?case
  proof (cases "pending_bytes c \<le> available")
    case True
    then show ?thesis by (simp add: shed_payload.simps)
  next
    case False
    show ?thesis
    proof (cases "budget_victim c")
      case (Some pane)
      show ?thesis
      proof (cases "invalidate pane BudgetExceeded False c")
        case (Inr c1)
        have "advances c c1" using invalidate_advances [OF 1(2), of pane BudgetExceeded False] Inr by simp
        then show ?thesis
          using 1(1) [OF False Some Inr] Inr Some False moves_trans
          by (auto simp: shed_payload.simps advances_def intro: yields_mono)
      qed (simp add: shed_payload.simps Some)
    qed (simp add: shed_payload.simps)
  qed
qed

section \<open>Topology\<close>

lemma topology_failed_moves:
  assumes "collector_sane c"
  shows "yields (moves c) (topology_failed c)"
  unfolding topology_failed_def invalidate_all_ready
proof (rule yields_map [OF invalidate_all_advances [OF assms]])
  fix c1 assume "advances c c1"
  moreover have "moves c1 (c1\<lparr>co_topology_ready := False\<rparr>)"
    by (rule moves_same) (auto simp: stream_of_def intro: exI [of _ "_ :: pane_stream"])
  ultimately show "moves c (c1\<lparr>co_topology_ready := False\<rparr>)" using moves_trans by (auto simp: advances_def)
qed

lemma boundary_moves:
  assumes "collector_sane c"
  shows "yields (\<lambda>(_, c'). moves c c') (collector_boundary pane inside c)"
  unfolding collector_boundary_def
proof (rule yields_map [OF invalidate_advances [OF assms]])
  fix c1 assume "advances c c1"
  moreover have "moves c1 (update_stream pane (\<lambda>s. s\<lparr>st_quarantine := inside\<rparr>) c1)"
    by (rule update_moves) (simp add: onward_def)
  ultimately show "case (case stream_of c1 pane of None \<Rightarrow> (None, c1)
      | Some st \<Rightarrow> (Some \<lparr>ob_connection = st_epoch st, ob_floor = st_sequence st\<rparr>,
            update_stream pane (\<lambda>s. s\<lparr>st_quarantine := inside\<rparr>) c1)) of (_, c') \<Rightarrow> moves c c'"
    using moves_trans by (auto simp: advances_def split: option.split)
qed

text \<open>A retired stream leaves the gap of its last invalidation, which is at a fresh epoch.\<close>

lemma depart_moves:
  assumes "moves c d" and "stream_of d pane = None" and "co_epoch c < oe_connection g"
  shows "moves c (d\<lparr>co_departed := put_sorted pane g (co_departed d)\<rparr>)"
proof (rule movesI)
  have sub: "(p, g') \<in> set (co_departed d) \<or> p = pane \<and> g' = g"
    if "(p, g') \<in> set (put_sorted pane g (co_departed d))" for p g'
    using that put_sorted_set [of pane g "co_departed d"] by blast
  show "(p, g') \<in> set (co_departed c) \<or> co_epoch c < oe_connection g'"
    if "(p, g') \<in> set (co_departed (d\<lparr>co_departed := put_sorted pane g (co_departed d)\<rparr>))" for p g'
    using sub that assms(1,3) by (auto elim: moves_departed)
  show "departed_past (d\<lparr>co_departed := put_sorted pane g (co_departed d)\<rparr>)" if "departed_past c"
  proof -
    have "departed_past d" using that assms(1) by (simp add: moves_def)
    then show ?thesis using assms(2) by (auto simp: departed_past_def stream_of_def dest!: sub)
  qed
qed (use assms(1) in \<open>auto simp: stream_of_def moves_def\<close>)

lemma retire_advances:
  assumes "collector_sane c" and "pane \<in> fst ` set (co_panes c)"
  shows "yields (advances c) (retire_pane pane c)"
proof (rule advancesI)
  show "consistent (keeps c) (retire_pane pane c)"
    by (rule consistent_mono [OF retire_keeps [OF assms]]) simp
  obtain st where st: "stream_of c pane = Some st"
    using assms(2) by (cases "stream_of c pane") (auto simp: stream_of_def map_of_eq_None_iff)
  show "yields (moves c) (retire_pane pane c)"
  proof (cases "invalidate pane OwnerChanged False c")
    case (Inr c1)
    define inv where "inv = invalidated_stream pane OwnerChanged False (co_epoch c + 1) (st_sequence st + 1) st"
    have st1: "stream_of c1 pane = Some inv" unfolding inv_def by (rule invalidate_stream [OF Inr st])
    have c1: "advances c c1" using invalidate_advances [OF assms(1), of pane OwnerChanged False] Inr by simp
    define c2 where "c2 = c1\<lparr>co_panes := filter (\<lambda>(p, _). p \<noteq> pane) (co_panes c1),
        co_retired := co_retired c1 + sn_rejected (st_scanner inv)\<rparr>"
    have gone: "stream_of c2 p = (if p = pane then None else stream_of c1 p)" for p
      by (simp add: c2_def stream_of_def map_of_filter_key)
    have "keeps c1 c2"
      unfolding c2_def
      by (rule remove_pane_sane [OF _ st1])
        (use c1 in \<open>auto simp: inv_def invalidated_stream_def invalidate_queue [OF assms(1) Inr] advances_def\<close>)
    moreover have "moves c1 c2"
      by (rule moves_same) (use gone onward_refl in \<open>force simp: c2_def stream_of_def split: if_splits\<close>)+
    ultimately have c2: "advances c c2"
      using advances_trans [OF c1, of c2] by (simp add: advances_def keeps_def)
    obtain g where g: "st_gap inv = Some g" "co_epoch c < oe_connection g"
      by (simp add: inv_def invalidated_stream_def)
    have depart: "moves c (c2\<lparr>co_departed := put_sorted pane g (co_departed c2)\<rparr>)"
      by (rule depart_moves [OF _ _ g(2)]) (use c2 gone in \<open>simp_all add: advances_def\<close>)
    define c3 where "c3 = c2\<lparr>co_overflows := co_overflows c2 + 1, co_all_invalidated := True, co_departed := [],
        co_queue := [], co_queued_bytes := 0\<rparr>"
    have "collector_sane c2" using c2 by (simp add: advances_def)
    then have "keeps c2 c3" by (simp add: keeps_def sane_defs c3_def pending_bytes_def)
    moreover have "moves c2 c3" by (rule moves_same) (auto simp: c3_def stream_of_def)
    ultimately have c3: "advances c c3" using advances_trans [OF c2] by (simp add: advances_def keeps_def)
    have flush: "yields (moves c) (invalidate_all QueueOverflow False ps c3)" for ps
      by (rule yields_mono [OF invalidate_all_advances])
        (use c3 moves_trans in \<open>auto simp: advances_def\<close>)
    show ?thesis
      unfolding retire_pane_def remove_stream_def Inr sum_bind_simps st1 option.case Let_def
        c2_def [symmetric] c3_def [symmetric] g(1)
      using flush depart by simp
  qed (simp add: retire_pane_def)
qed

lemma consistent_yields: "consistent P r \<Longrightarrow> yields P r"
  by (cases r) simp_all

lemma yields_conj: "yields P r \<Longrightarrow> yields Q r \<Longrightarrow> yields (\<lambda>c. P c \<and> Q c) r"
  by (simp add: yields_def)

lemma advances_sane: "advances c c' \<Longrightarrow> collector_sane c'"
  by (simp add: advances_def)

lemma retire_panes_advances:
  "collector_sane c \<Longrightarrow> set ps \<subseteq> fst ` set (co_panes c) \<Longrightarrow> distinct ps \<Longrightarrow> yields (advances c) (retire_panes ps c)"
proof (induction ps arbitrary: c)
  case (Cons p ps)
  have p: "p \<in> fst ` set (co_panes c)" using Cons.prems(2) by simp
  show ?case
    unfolding retire_panes.simps
  proof (rule yields_bind [OF yields_conj [OF retire_advances [OF Cons.prems(1) p]
        consistent_yields [OF retire_keeps [OF Cons.prems(1) p]]]])
    fix c1 assume c1: "advances c c1 \<and> keeps c c1 \<and> map fst (co_panes c1) = filter (\<lambda>q. q \<noteq> p) (map fst (co_panes c))"
    then have "set (map fst (co_panes c1)) = set (filter (\<lambda>q. q \<noteq> p) (map fst (co_panes c)))" by simp
    then have "set ps \<subseteq> fst ` set (co_panes c1)" using Cons.prems(2,3) by auto
    then have "yields (advances c1) (retire_panes ps c1)"
      using c1 Cons.prems(3) by (intro Cons.IH) (auto dest: advances_sane)
    then show "yields (advances c) (retire_panes ps c1)"
      by (rule yields_mono) (use c1 advances_trans in blast)
  qed
qed (simp add: advances_refl)

lemma adopt_advances:
  assumes "collector_sane c" and "sessions \<noteq> []" and "\<forall>s \<in> set sessions. clients s \<noteq> None"
  shows "yields (advances c) (adopt_pane clients pane sessions c)"
proof (rule advancesI [OF adopt_keeps [OF assms]])
  obtain owner where owner: "adopted_owner c pane sessions = Some owner" "owner \<in> set sessions"
    using adopted_owner_in [OF assms(2)] by blast
  then obtain client where client: "clients owner = Some client" using assms(3) by auto
  show "yields (moves c) (adopt_pane clients pane sessions c)"
  proof (cases "stream_of c pane")
    case None
    have past: "oe_connection g \<le> co_epoch c" if "(p, g) \<in> set (co_departed c)" for p g
      using assms(1) that by (auto simp: sane_defs gap_ok_def)
    have "moves c (c\<lparr>co_epoch := co_epoch c + 1, co_panes := put_sorted pane
        (new_stream owner client (co_epoch c + 1)) (co_panes c)\<rparr>)" (is "moves c ?c")
    proof (rule movesI)
      have look: "stream_of ?c p = (if p = pane then Some (new_stream owner client (co_epoch c + 1)) else stream_of c p)" for p
        by (simp add: stream_of_def put_sorted_map_of)
      show "co_epoch c < st_epoch st' \<or> (\<exists>st. stream_of c p = Some st \<and> onward st st')" if "stream_of ?c p = Some st'" for p st'
        using that unfolding look by (auto simp: new_stream_def split: if_splits)
      show "departed_past ?c" if "departed_past c"
        using that past unfolding departed_past_def look by (auto simp: new_stream_def less_Suc_eq_le split: if_splits)
    qed auto
    then show ?thesis
      using owner client None
      by (auto simp: adopt_pane_def next_epoch_def checked_add_def split: option.split)
  next
    case (Some st)
    have "yields (moves c) (map_sum id (update_stream pane (\<lambda>s. s\<lparr>st_owner := owner, st_client := client,
        st_paused := False, st_quarantine := False\<rparr>)) (invalidate pane OwnerChanged True c))"
      by (rule yields_map [OF invalidate_moves [OF assms(1)]], erule moves_trans, rule update_moves)
        (simp add: onward_def)
    then show ?thesis using owner client Some by (simp add: adopt_pane_def)
  qed
qed

lemma adopt_panes_advances:
  "collector_sane c \<Longrightarrow> \<forall>(p, ss) \<in> set eligible. ss \<noteq> [] \<and> (\<forall>s \<in> set ss. clients s \<noteq> None) \<Longrightarrow>
     yields (advances c) (adopt_panes clients eligible c)"
proof (induction eligible arbitrary: c)
  case (Cons x rest)
  obtain p ss where x: "x = (p, ss)" by (cases x)
  have "yields (advances c) (sum_bind (adopt_pane clients p ss c) (adopt_panes clients rest))"
  proof (rule yields_bind)
    show "yields (advances c) (adopt_pane clients p ss c)"
      using Cons.prems by (intro adopt_advances) (simp_all add: x)
    fix c1 assume c1: "advances c c1"
    then have "yields (advances c1) (adopt_panes clients rest c1)"
      using Cons.prems by (intro Cons.IH) (simp_all add: advances_sane)
    then show "yields (advances c) (adopt_panes clients rest c1)"
      by (rule yields_mono) (use c1 advances_trans in blast)
  qed
  then show ?case by (simp add: x)
qed (simp add: advances_refl)

lemma reconcile_moves:
  assumes "collector_sane c"
  shows "yields (moves c) (reconcile topology clients c)"
proof -
  let ?eligible = "map (\<lambda>p. (p, eligible_sessions topology clients p)) (eligible_panes topology clients)"
  let ?removed = "filter (\<lambda>p. p \<notin> fst ` set ?eligible) (map fst (co_panes c))"
  have distinct: "distinct (map fst (co_panes c))" by (rule ordered_distinct) (use assms in \<open>simp add: sane_defs\<close>)
  have "yields (moves c) (sum_bind (retire_panes ?removed c) (\<lambda>c1.
      sum_bind (adopt_panes clients ?eligible c1) (\<lambda>c2. Inr (c2\<lparr>co_topology_ready := True\<rparr>))))"
  proof (rule yields_bind [OF retire_panes_advances [OF assms]])
    show "set ?removed \<subseteq> fst ` set (co_panes c)" "distinct ?removed" using distinct by auto
    fix c1 assume c1: "advances c c1"
    show "yields (moves c) (sum_bind (adopt_panes clients ?eligible c1) (\<lambda>c2. Inr (c2\<lparr>co_topology_ready := True\<rparr>)))"
    proof (rule yields_bind [OF adopt_panes_advances [OF advances_sane [OF c1]]])
      show "\<forall>(p, ss) \<in> set ?eligible. ss \<noteq> [] \<and> (\<forall>s \<in> set ss. clients s \<noteq> None)"
        using eligible_sessions_ok [of _ topology clients] by auto
      fix c2 assume "advances c1 c2"
      then have "moves c c2" using c1 moves_trans by (auto simp: advances_def)
      moreover have "moves c2 (c2\<lparr>co_topology_ready := True\<rparr>)" by (rule moves_same) (auto simp: stream_of_def)
      ultimately show "yields (moves c) (Inr (c2\<lparr>co_topology_ready := True\<rparr>))" using moves_trans by auto
    qed
  qed
  then show ?thesis by (simp add: reconcile_def Let_def)
qed

section \<open>Events\<close>

lemma enqueue_moves:
  assumes "collector_sane c" and st: "stream_of c pane = Some st"
  shows "yields (moves c) (enqueue pane ev c)"
proof -
  have over: "yields (moves c) (invalidate pane reason lost (c\<lparr>co_overflows := k\<rparr>))" for reason lost k
  proof (rule yields_mono [OF invalidate_moves])
    have "moves c (c\<lparr>co_overflows := k\<rparr>)" by (rule moves_same) (auto simp: stream_of_def)
    then show "moves (c\<lparr>co_overflows := k\<rparr>) c' \<Longrightarrow> moves c c'" for c' by (rule moves_trans)
  qed (use assms(1) in simp)
  have append: "moves c ((update_stream pane (\<lambda>s. s\<lparr>st_sequence := st_sequence st + 1\<rparr>) c)
      \<lparr>co_queue := co_queue c @ [\<lparr>oe_pane = pane, oe_connection = st_epoch st, oe_sequence = st_sequence st + 1, oe_event = ev\<rparr>],
       co_queued_bytes := m\<rparr>)" (is "moves c ?c") for m
  proof (rule movesI)
    have look: "stream_of ?c q = (if q = pane then Some (st\<lparr>st_sequence := st_sequence st + 1\<rparr>) else stream_of c q)" for q
      using update_look [of pane "\<lambda>s. s\<lparr>st_sequence := st_sequence st + 1\<rparr>" c q] st by (simp add: stream_of_def)
    show "co_epoch c < st_epoch st' \<or> (\<exists>st. stream_of c p = Some st \<and> onward st st')" if "stream_of ?c p = Some st'" for p st'
      using that st unfolding look by (auto simp: onward_def split: if_splits)
    show "departed_past ?c" if "departed_past c"
      using that st unfolding departed_past_def look by (auto split: if_splits)
  qed (use st in auto)
  show ?thesis
    using over invalidate_moves [OF assms(1)] append st
    by (simp add: enqueue_def Let_def checked_add_def split: option.split)
qed

lemma collect_byte_moves:
  assumes "collector_sane c" and st: "stream_of c pane = Some st"
  shows "yields (moves c) (collect_byte b64 pane st ch c)"
proof -
  have replace: "yields (\<lambda>c1. advances c c1 \<and> stream_of c1 pane = Some (st\<lparr>st_scanner := t\<rparr>))
      (replace_scanner pane (pending_candidate (st_scanner st)) t c)" for t
  proof -
    have "moves c c1" if r: "replace_scanner pane (pending_candidate (st_scanner st)) t c = Inr c1" for c1
    proof (rule moves_same)
      have "co_epoch c1 = co_epoch c \<and> co_departed c1 = co_departed c"
        using r by (auto simp: replace_scanner_def subtract_candidate_def split: option.splits)
      then show "co_epoch c1 = co_epoch c" "set (co_departed c1) \<subseteq> set (co_departed c)" by simp_all
    qed (use replace_look [OF r st] st in \<open>auto simp: onward_def split: if_splits\<close>)
    then show ?thesis
      using consistent_yields [OF replace_scanner_sane [OF assms, of t]] by (auto simp: yields_def advances_def)
  qed
  show ?thesis
  proof (cases "st_quarantine st")
    case True
    then show ?thesis
      unfolding collect_byte_def Let_def if_P [OF True]
      by (intro yields_mono [OF replace]) (simp add: advances_def)
  next
    case False
    obtain event t where t: "scanner_feed b64 ch (st_scanner st) = (event, t)" by fastforce
    show ?thesis
      unfolding collect_byte_def Let_def t if_not_P [OF False] prod.case
    proof (rule yields_bind [OF replace])
      fix c1 assume c1: "advances c c1 \<and> stream_of c1 pane = Some (st\<lparr>st_scanner := t\<rparr>)"
      then have sane: "collector_sane c1" and m: "moves c c1" by (simp_all add: advances_def)
      have "yields (moves c) (invalidate pane BudgetExceeded False c1)"
        by (rule yields_mono [OF invalidate_moves [OF sane]]) (rule moves_trans [OF m])
      moreover have "yields (moves c) (enqueue pane ev c1)" for ev
        by (rule yields_mono [OF enqueue_moves [OF sane conjunct2 [OF c1]]]) (rule moves_trans [OF m])
      ultimately show "yields (moves c)
          (if co_budget c1 < pending_bytes c1 then invalidate pane BudgetExceeded False c1
           else case event of Some ev \<Rightarrow> enqueue pane ev c1 | None \<Rightarrow> Inr c1)"
        using m by (simp split: option.split)
    qed
  qed
qed

lemma end_quarantine_moves:
  assumes "stream_of c pane = Some st"
  shows "yields (moves c) (end_quarantine pane st c)"
proof -
  let ?f = "\<lambda>s. s\<lparr>st_scanner := scanner_boundary (st_scanner s), st_quarantine := False\<rparr>"
  have "moves c (update_stream pane ?f (c\<lparr>co_candidate_bytes := n\<rparr>))" for n
  proof (rule moves_trans)
    show "moves c (c\<lparr>co_candidate_bytes := n\<rparr>)" by (rule moves_same) (auto simp: stream_of_def)
    show "moves (c\<lparr>co_candidate_bytes := n\<rparr>) (update_stream pane ?f (c\<lparr>co_candidate_bytes := n\<rparr>))"
      by (rule update_moves) (simp add: onward_def)
  qed
  then show ?thesis by (auto simp: end_quarantine_def subtract_candidate_def yields_def split: option.splits)
qed

lemma paused_moves:
  assumes "collector_sane c"
  shows "yields (moves c) (invalidate pane reason lost (update_stream pane (\<lambda>s. s\<lparr>st_paused := b\<rparr>) c))"
proof (rule yields_mono [OF invalidate_moves])
  show "collector_sane (update_stream pane (\<lambda>s. s\<lparr>st_paused := b\<rparr>) c)"
    by (rule keeps_sane [OF update_sane [OF assms]]) simp
  have "moves c (update_stream pane (\<lambda>s. s\<lparr>st_paused := b\<rparr>) c)" by (rule update_moves) (simp add: onward_def)
  then show "moves (update_stream pane (\<lambda>s. s\<lparr>st_paused := b\<rparr>) c) c' \<Longrightarrow> moves c c'" for c'
    by (rule moves_trans)
qed

lemma decoded_moves:
  assumes "collector_sane c"
  shows "yields (moves c) (collector_decoded b64 session client item c)"
proof -
  have gap: "yields (moves c) (client_gap session reason c)" for reason
    unfolding client_gap_def by (rule yields_mono [OF invalidate_all_advances [OF assms]]) (simp add: advances_def)
  have "yields (moves c) (stream_item b64 pane st item c)" if "stream_of c pane = Some st" for pane st
    using paused_moves [OF assms] invalidate_moves [OF assms] collect_byte_moves [OF assms that] end_quarantine_moves [OF that]
    by (auto simp: stream_item_def split: decoded.split)
  then show ?thesis using gap by (auto simp: collector_decoded_def split: decoded.split option.split)
qed

section \<open>The order along a run\<close>

lemma order_moves:
  assumes "order_ok log c" and "moves c c'" and "collector_sane c'"
  shows "order_ok log c'"
proof -
  have entry: "oe_connection e \<le> co_epoch c" "departed_past c"
    "\<And>st. stream_of c (oe_pane e) = Some st \<Longrightarrow> marked e st \<and> (\<forall>g. st_gap st = Some g \<longrightarrow> earlier e g)"
    "\<And>g. (oe_pane e, g) \<in> set (co_departed c) \<Longrightarrow> earlier e g" "\<And>q. q \<in> set (co_queue c) \<Longrightarrow> precedes e q"
    if "e \<in> set log" for e
    using assms(1) that by (auto simp: order_ok_def)
  have "oe_connection e \<le> co_epoch c'
      \<and> (\<forall>st. stream_of c' (oe_pane e) = Some st \<longrightarrow> marked e st \<and> (\<forall>g. st_gap st = Some g \<longrightarrow> earlier e g))
      \<and> (\<forall>g. (oe_pane e, g) \<in> set (co_departed c') \<longrightarrow> earlier e g) \<and> (\<forall>q \<in> set (co_queue c'). precedes e q)"
    if e: "e \<in> set log" for e
  proof (intro conjI allI ballI impI)
    note e = entry [OF that]
    show "oe_connection e \<le> co_epoch c'" using e(1) moves_epoch [OF assms(2)] by simp
    fix st assume st: "stream_of c' (oe_pane e) = Some st"
    from assms(2) st show "marked e st"
      by (cases rule: moves_stream) (use e(1,3) in \<open>auto simp: marked_def onward_def\<close>)
    fix g assume g: "st_gap st = Some g"
    then have "oe_connection g = st_epoch st" using assms(3) st by (auto simp: sane_defs stream_ok_def stream_of_def)
    from assms(2) st show "earlier e g"
    proof (cases rule: moves_stream)
      case 1
      then show ?thesis using \<open>oe_connection g = st_epoch st\<close> e(1) by (simp add: earlier_def)
    next
      case (2 s)
      then show ?thesis using e(3) [of s] g by (simp add: onward_def)
    qed
  next
    note e = entry [OF that]
    fix g assume "(oe_pane e, g) \<in> set (co_departed c')"
    with assms(2) show "earlier e g"
      by (cases rule: moves_departed) (use e(1,4) in \<open>auto simp: earlier_def\<close>)
  next
    note e = entry [OF that]
    fix q assume "q \<in> set (co_queue c')"
    with assms(2) show "precedes e q"
    proof (cases rule: moves_queue)
      case (3 st)
      then show ?thesis using e(3) [of st] by (auto simp: precedes_def earlier_def marked_def)
    qed (use e(1,5) in \<open>auto simp: precedes_def earlier_def\<close>)
  qed
  moreover have "departed_past c'" using assms(1,2) by (simp add: order_ok_def moves_def)
  ultimately show ?thesis using assms(1) by (simp add: order_ok_def)
qed

lemma sorted_concat_gaps:
  assumes "ordered_keys panes" and "\<And>p st g. (p, st) \<in> set panes \<Longrightarrow> st_gap st = Some g \<Longrightarrow> oe_pane g = p"
  shows "sorted_wrt precedes (concat (map (\<lambda>(_, st). case st_gap st of Some g \<Rightarrow> [g] | None \<Rightarrow> []) panes))"
  using assms
proof (induction panes)
  case (Cons x panes)
  obtain p st where x: "x = (p, st)" by (cases x)
  have "precedes g g'" if "st_gap st = Some g" "(q, st') \<in> set panes" "st_gap st' = Some g'" for g g' q st'
  proof -
    have "oe_pane g = p" "oe_pane g' = q" using Cons.prems(2) that x by auto
    moreover have "p < q" using Cons.prems(1) that(2) x by force
    ultimately show ?thesis by (simp add: precedes_def)
  qed
  moreover have "sorted_wrt precedes (concat (map (\<lambda>(_, st). case st_gap st of Some g \<Rightarrow> [g] | None \<Rightarrow> []) panes))"
  proof (rule Cons.IH)
    show "ordered_keys panes" using Cons.prems(1) by simp
    show "\<And>p st g. (p, st) \<in> set panes \<Longrightarrow> st_gap st = Some g \<Longrightarrow> oe_pane g = p"
      by (rule Cons.prems(2)) simp_all
  qed
  ultimately show ?case by (auto simp: x sorted_wrt_append split: option.splits)
qed simp

definition pending_gaps :: "collector \<Rightarrow> observed_event list" where
  "pending_gaps c = concat (map (\<lambda>(_, st). case st_gap st of Some g \<Rightarrow> [g] | None \<Rightarrow> []) (co_panes c))"

lemma drained_parts: "drained (fst (drain c)) = map snd (co_departed c) @ pending_gaps c @ co_queue c"
  by (simp add: drained_def drain_def pending_gaps_def)

lemma drain_fields [simp]:
  "co_departed (snd (drain c)) = []" "co_queue (snd (drain c)) = []" "co_epoch (snd (drain c)) = co_epoch c"
  by (simp_all add: drain_def)

text \<open>What is known of each part.\<close>

lemma sane_pane:
  assumes "collector_sane c" and "(p, st) \<in> set (co_panes c)"
  shows "stream_of c p = Some st \<and> stream_ok (co_epoch c) p st"
proof -
  have "distinct (map fst (co_panes c))" by (rule ordered_distinct) (use assms(1) in \<open>simp add: sane_defs\<close>)
  then have "map_of (co_panes c) p = Some st" using assms(2) by (rule map_of_is_SomeI)
  then show ?thesis using assms(1) by (simp add: sane_defs stream_of_def)
qed

lemma sane_departed:
  assumes "collector_sane c" and "g \<in> snd ` set (co_departed c)"
  shows "(oe_pane g, g) \<in> set (co_departed c) \<and> oe_connection g \<le> co_epoch c"
  using assms by (auto simp: sane_defs gap_ok_def)

lemma sane_gap:
  assumes "collector_sane c" and "g \<in> set (pending_gaps c)"
  shows "\<exists>st. stream_of c (oe_pane g) = Some st \<and> st_gap st = Some g \<and> oe_connection g = st_epoch st
    \<and> oe_sequence g \<le> st_sequence st \<and> st_epoch st \<le> co_epoch c"
proof -
  from assms(2) obtain p st where st: "(p, st) \<in> set (co_panes c)" "st_gap st = Some g"
    by (auto simp: pending_gaps_def split: option.splits)
  then show ?thesis using sane_pane [OF assms(1) st(1)] by (auto simp: stream_ok_def gap_ok_def)
qed

lemma sane_queue:
  assumes "collector_sane c" and "q \<in> set (co_queue c)"
  shows "\<exists>st. stream_of c (oe_pane q) = Some st \<and> oe_connection q = st_epoch st \<and> oe_sequence q \<le> st_sequence st
    \<and> st_epoch st \<le> co_epoch c \<and> (\<forall>g. st_gap st = Some g \<longrightarrow> oe_sequence g < oe_sequence q)"
proof -
  have "event_ok (co_panes c) q" using assms by (simp add: sane_defs)
  then obtain st where st: "map_of (co_panes c) (oe_pane q) = Some st" "oe_connection q = st_epoch st"
    "oe_sequence q \<le> st_sequence st" "\<forall>g. st_gap st = Some g \<longrightarrow> oe_sequence g < oe_sequence q"
    unfolding event_ok_def by blast
  then have "stream_ok (co_epoch c) (oe_pane q) st" using assms(1) by (simp add: sane_defs)
  then show ?thesis using st by (auto simp: stream_ok_def stream_of_def)
qed

lemma drained_known:
  assumes "collector_sane c" and "departed_past c" and "d \<in> set (drained (fst (drain c)))"
  shows "oe_connection d \<le> co_epoch c \<and> (\<forall>st. stream_of c (oe_pane d) = Some st \<longrightarrow> marked d st)"
  using assms(3) sane_departed [OF assms(1), of d] sane_gap [OF assms(1), of d] sane_queue [OF assms(1), of d] assms(2)
  by (auto simp: drained_parts marked_def departed_past_def)

lemma drained_sorted:
  assumes "collector_sane c" and "departed_past c"
  shows "sorted_wrt precedes (drained (fst (drain c)))"
proof -
  have "sorted_wrt precedes (map snd (co_departed c))"
    unfolding sorted_wrt_map
  proof (rule sorted_wrt_mono_rel [of _ "\<lambda>x y. fst x < fst y"])
    show "sorted_wrt (\<lambda>x y. fst x < fst y) (co_departed c)" using assms(1) by (simp add: sane_defs sorted_wrt_map)
    have key: "oe_pane (snd x) = fst x" if "x \<in> set (co_departed c)" for x
      using assms(1) that by (auto simp: sane_defs gap_ok_def)
    fix x y assume "x \<in> set (co_departed c)" "y \<in> set (co_departed c)" "fst x < fst y"
    then show "precedes (snd x) (snd y)" using key [of x] key [of y] by (simp add: precedes_def)
  qed
  moreover have "sorted_wrt precedes (pending_gaps c)"
    unfolding pending_gaps_def
  proof (rule sorted_concat_gaps)
    show "ordered_keys (co_panes c)" using assms(1) by (simp add: sane_defs)
    fix p st g assume "(p, st) \<in> set (co_panes c)" "st_gap st = Some g"
    then show "oe_pane g = p" using sane_pane [OF assms(1)] by (auto simp: stream_ok_def gap_ok_def)
  qed
  moreover have "sorted_wrt precedes (co_queue c)"
  proof (rule sorted_wrt_mono_rel [of _ follows])
    show "sorted_wrt follows (co_queue c)" using assms(1) by (simp add: sane_defs)
    fix x y assume "x \<in> set (co_queue c)" "y \<in> set (co_queue c)" "follows x y"
    then show "precedes x y"
      using sane_queue [OF assms(1), of x] sane_queue [OF assms(1), of y]
      by (auto simp: follows_def precedes_def earlier_def)
  qed
  moreover have "precedes g d" if "g \<in> snd ` set (co_departed c)" "d \<in> set (pending_gaps c) \<union> set (co_queue c)" for g d
  proof -
    note d = that(2)
    obtain st where "stream_of c (oe_pane d) = Some st" "oe_connection d = st_epoch st"
      using d sane_gap [OF assms(1)] sane_queue [OF assms(1)] by blast
    then show ?thesis
      using sane_departed [OF assms(1) that(1)] assms(2) by (auto simp: precedes_def earlier_def departed_past_def)
  qed
  moreover have "precedes g q" if "g \<in> set (pending_gaps c)" "q \<in> set (co_queue c)" for g q
    using sane_gap [OF assms(1) that(1)] sane_queue [OF assms(1) that(2)] by (auto simp: precedes_def earlier_def)
  ultimately show ?thesis by (auto simp: drained_parts sorted_wrt_append)
qed

lemma drain_order:
  assumes "order_ok log c" and "collector_sane c"
  shows "order_ok (log @ drained (fst (drain c))) (snd (drain c))"
proof -
  have past: "departed_past c" using assms(1) by (simp add: order_ok_def)
  have look: "stream_of (snd (drain c)) p = map_option (\<lambda>st. st\<lparr>st_gap := None\<rparr>) (stream_of c p)" for p
    using map_of_map_keys [of "\<lambda>p st. st\<lparr>st_gap := None\<rparr>" "co_panes c" p] by (simp add: drain_def stream_of_def)
  have old: "oe_connection e \<le> co_epoch c \<and> (\<forall>st. stream_of c (oe_pane e) = Some st \<longrightarrow> marked e st)"
    if "e \<in> set log" for e
    using that assms(1) by (simp add: order_ok_def)
  have later: "precedes e d" if e: "e \<in> set log" and d: "d \<in> set (drained (fst (drain c)))" for e d
    using d unfolding drained_parts
  proof (simp, elim disjE)
    assume "d \<in> snd ` set (co_departed c)"
    from sane_departed [OF assms(2) this] show ?thesis
      using e assms(1) by (auto simp: order_ok_def precedes_def)
  next
    assume "d \<in> set (pending_gaps c)"
    from sane_gap [OF assms(2) this] show ?thesis
      using e assms(1) by (auto simp: order_ok_def precedes_def)
  next
    assume "d \<in> set (co_queue c)"
    then show ?thesis using e assms(1) by (simp add: order_ok_def)
  qed
  have "sorted_wrt precedes (log @ drained (fst (drain c)))"
    using assms(1) later drained_sorted [OF assms(2) past] by (simp add: sorted_wrt_append order_ok_def)
  moreover have "oe_connection e \<le> co_epoch c \<and> (\<forall>st. stream_of c (oe_pane e) = Some st \<longrightarrow> marked e st)"
    if "e \<in> set (log @ drained (fst (drain c)))" for e
    using that old drained_known [OF assms(2) past] by auto
  ultimately show ?thesis
    unfolding order_ok_def departed_past_def look by auto
qed

lemma boundary_exec_moves:
  "collector_sane c \<Longrightarrow> yields (moves c) (map_sum id snd (collector_boundary pane inside c))"
  by (rule yields_map [OF boundary_moves]) auto

text \<open>Every operation but a drain moves the collector forward and hands nothing over.\<close>

lemma exec_moves:
  assumes "collector_ok c" and "x \<noteq> CDrain" and "collector_exec b64 x c = Inr (out, c')"
  shows "out = [] \<and> moves c c'"
proof -
  note sane = ok_sane [OF assms(1)]
  have "moves c (c\<lparr>co_budget := n\<rparr>)" for n by (rule moves_same) (auto simp: stream_of_def)
  then have budget: "yields (moves c) (set_payload_budget n c)" for n
    unfolding set_payload_budget_def
    by (intro yields_mono [OF shed_moves]) (use sane moves_trans in auto)
  have gap: "yields (moves c) (client_gap session reason c)" for session reason
    unfolding client_gap_def by (rule yields_mono [OF invalidate_all_advances [OF sane]]) (simp add: advances_def)
  have no: "no_output r = Inr (out, c') \<Longrightarrow> out = [] \<and> r = Inr c'" for r
    by (auto simp: no_output_def map_sum_Inr)
  have step: "yields (moves c) r \<Longrightarrow> r = Inr c' \<Longrightarrow> moves c c'" for r by simp
  show ?thesis
    using assms(2,3)
    by (cases x) (auto dest!: no intro: step [OF budget] step [OF gap] step [OF topology_failed_moves [OF sane]]
      step [OF reconcile_moves [OF sane]] step [OF boundary_exec_moves [OF sane]] step [OF decoded_moves [OF sane]])
qed

lemma exec_order:
  assumes "collector_ok c" and "order_ok log c" and "collector_exec b64 x c = Inr (out, c')"
  shows "order_ok (log @ concat (map drained out)) c'"
proof (cases "x = CDrain")
  case True
  then show ?thesis
    using drain_order [OF assms(2) ok_sane [OF assms(1)]] assms(3) by (auto split: prod.splits)
next
  case False
  have "collector_ok c'" using exec_ok [OF assms(1), of b64 x] assms(3) by simp
  then show ?thesis
    using exec_moves [OF assms(1) False assms(3)] order_moves [OF assms(2) _ ok_sane] by simp
qed

lemma run_order:
  assumes "collector_ok c" and "order_ok log c" and "collector_run b64 xs c = Inr (out, c')"
  shows "order_ok (log @ concat (map drained out)) c'"
  using assms
proof (induction xs arbitrary: c log out)
  case (Cons x xs)
  from Cons.prems(3) obtain out1 c1 out2 where x: "collector_exec b64 x c = Inr (out1, c1)"
    and xs: "collector_run b64 xs c1 = Inr (out2, c')" and out: "out = out1 @ out2"
    by (auto simp: sum_bind_Inr map_sum_Inr split: prod.splits)
  have "collector_ok c1" using exec_ok [OF Cons.prems(1), of b64 x] x by simp
  from Cons.IH [OF this exec_order [OF Cons.prems(1,2) x] xs] show ?case by (simp add: out)
qed simp

end
