(* ===== verification/Collector_Properties.thy ===== *)
theory Collector_Properties
  imports Collector_Order Control_Properties
begin

text \<open>
  What the collector guarantees to its consumer: bounds, order, and that an observation which qualifies
  after a binding boundary was printed after that boundary; and that a report tmux forwards for a
  followed pane does arrive.
\<close>

section \<open>Bounds\<close>

text \<open>C7 (collector_bounded). No run of the collector panics on an internal assumption: it answers, or one of
  its two 64-bit counters is exhausted. At every point it holds at most 1024 events and 1 MiB of
  payload in its queue and 1024 departures, and what it holds (queue and partial reports together) is
  within the payload budget that was last set; its byte counts are exact.\<close>

theorem collector_bounded:
  "case collector_run b64 ops (collector_with_epoch e) of
     Inl p \<Rightarrow> p \<noteq> Inconsistent
   | Inr (_, c) \<Rightarrow>
       ps_queued_events (collector_stats c) \<le> 1024 \<and> queue_bytes (co_queue c) \<le> 1024 * 1024
       \<and> length (co_departed c) \<le> 1024
       \<and> ps_pending_payload_bytes (collector_stats c) \<le> co_budget c
       \<and> ps_pending_payload_bytes (collector_stats c)
           = queue_bytes (co_queue c) + sum_list (map (\<lambda>(_, st). pending_candidate (st_scanner st)) (co_panes c))"
  using run_ok [OF collector_ok_new, of b64 ops e]
  by (auto simp: consistent_def collector_ok_def sane_defs collector_stats_def pending_bytes_def candidates_def
      MAX_PROGRAM_EVENTS_def MAX_PROGRAM_PAYLOAD_BYTES_def split: sum.splits)

section \<open>Order\<close>

text \<open>C6 (observed_in_order). The consumer sees the gaps and observations of a pane, over all drains of a run, in
  strictly increasing order of epoch and sequence. In particular a gap comes before everything observed
  after it, and no epoch is used twice for a pane.\<close>

theorem observed_in_order:
  assumes "collector_run b64 ops (collector_with_epoch e) = Inr (out, c)"
  shows "sorted_wrt (\<lambda>x y. oe_pane x = oe_pane y \<longrightarrow>
            oe_connection x < oe_connection y \<or> oe_connection x = oe_connection y \<and> oe_sequence x < oe_sequence y)
          (concat (map (\<lambda>d. dr_invalidations d @ dr_observations d) out))"
proof -
  have "sorted_wrt precedes (concat (map drained out))"
    using run_order [OF collector_ok_new order_ok_new assms] by (simp add: order_ok_def)
  then show ?thesis unfolding precedes_def earlier_def drained_def .
qed

section \<open>Boundaries\<close>

lemma came_after:
  assumes "came b64 (ops @ [x] @ later) p s k cmd" and "\<And>s k. severs p s k x"
  shows "\<exists>pre mid post. later = pre @ mid @ post \<and> unbroken p s k mid
    \<and> parse_frame b64 (bytes_for p s k mid) = Inr (Command cmd)"
proof -
  obtain pre mid post where split: "(ops @ [x]) @ later = pre @ (mid @ post)" and "unbroken p s k (mid @ post)"
    and frame: "parse_frame b64 (bytes_for p s k mid) = Inr (Command cmd)"
    using assms(1) by (auto simp: came_def)
  then have x: "x \<notin> set (mid @ post)" using assms(2) by (auto simp: unbroken_def list_all_iff)
  from split obtain us where "ops @ [x] = pre @ us \<and> us @ later = mid @ post \<or> (ops @ [x]) @ us = pre \<and> later = us @ mid @ post"
    unfolding append_eq_append_conv2 by blast
  then show ?thesis
  proof
    assume us: "ops @ [x] = pre @ us \<and> us @ later = mid @ post"
    have "us = []"
    proof (cases us rule: rev_cases)
      case (snoc vs y)
      then have "y = x" using us by simp
      then have "x \<in> set (mid @ post)" using us snoc by (metis in_set_conv_decomp append_assoc append_Cons)
      then show ?thesis using x by simp
    qed
    then have "later = [] @ mid @ post" using us by simp
    then show ?thesis using frame \<open>unbroken p s k (mid @ post)\<close> by (metis unbroken_simps(3))
  next
    assume "(ops @ [x]) @ us = pre \<and> later = us @ mid @ post"
    then show ?thesis using frame \<open>unbroken p s k (mid @ post)\<close> by (metis unbroken_simps(3))
  qed
qed

lemma boundary_connection:
  assumes "collector_boundary pane inside c = Inr (Some b, c')"
  shows "ob_connection b = co_epoch c + 1"
proof -
  obtain c1 where c1: "invalidate pane OwnerChanged False c = Inr c1"
    using assms by (cases "invalidate pane OwnerChanged False c") (simp_all add: collector_boundary_def)
  obtain st1 where st1: "stream_of c1 pane = Some st1" "ob_connection b = st_epoch st1"
    using assms c1 by (auto simp: collector_boundary_def split: option.splits)
  obtain st where st: "stream_of c pane = Some st"
    using c1 st1 by (cases "stream_of c pane") (auto simp: invalidate_def)
  show ?thesis using invalidate_look [OF c1 st, of pane] st1 by (auto simp: invalidated_stream_def)
qed

text \<open>C3 (bound_observation_fresh). A binding boundary separates. When the runtime binds a process to a pane and the
  collector answers a boundary, every report ever drained for that pane at the boundary's connection
  was assembled entirely from bytes delivered after the boundary, all of them by one client of one
  session, with nothing in between that breaks the stream: no further boundary, pause, gap or failed
  topology read. (The runtime also asks for a sequence above the floor; the connection alone suffices.)\<close>

theorem bound_observation_fresh:
  assumes before: "collector_run b64 ops1 (collector_with_epoch e0) = Inr (out1, c1)"
    and boundary: "collector_boundary pane inside c1 = Inr (Some b, c2)"
    and after: "collector_run b64 ops2 c2 = Inr (out2, c3)"
    and "d \<in> set (out1 @ out2)" and "e \<in> set (dr_observations d)" and "oe_pane e = pane"
    and "oe_connection e = ob_connection b" and "oe_event e = ECommand cmd"
  shows "\<exists>s k pre mid post. ops2 = pre @ mid @ post \<and> unbroken pane s k mid
    \<and> parse_frame b64 (bytes_for pane s k mid) = Inr (Command cmd)"
proof -
  have run1: "collector_ok c1 \<and> history b64 ops1 c1"
    using run_history [OF history_new collector_ok_new before] by simp
  have "order_ok (concat (map drained out1)) c1"
    using run_order [OF collector_ok_new order_ok_new before] by simp
  then have "oe_connection e \<le> co_epoch c1" if "d \<in> set out1"
    using that assms(5) by (auto simp: order_ok_def drained_def)
  then have d: "d \<in> set out2" using assms(4,7) boundary_connection [OF boundary] by auto
  have step: "collector_exec b64 (CBoundary pane inside) c1 = Inr ([], c2)"
    using boundary by (simp add: no_output_def)
  have "collector_ok c2" using exec_ok [of c1 b64 "CBoundary pane inside"] run1 step by simp
  moreover have "history b64 (ops1 @ [CBoundary pane inside]) c2"
    using exec_history [of b64 ops1 c1 "CBoundary pane inside"] run1 step by blast
  ultimately obtain don rest s k where rest: "ops2 = don @ rest"
    and "came b64 ((ops1 @ [CBoundary pane inside]) @ don) (oe_pane e) s k cmd"
    using run_history [OF _ _ after] d assms(5,8) by metis
  then have "came b64 (ops1 @ [CBoundary pane inside] @ don) pane s k cmd" using assms(6) by simp
  from came_after [OF this] obtain pre mid post where "don = pre @ mid @ post" "unbroken pane s k mid"
    "parse_frame b64 (bytes_for pane s k mid) = Inr (Command cmd)" by auto
  then show ?thesis
    using rest by (intro exI [of _ s] exI [of _ k] exI [of _ pre] exI [of _ mid] exI [of _ "post @ rest"]) simp
qed

text \<open>A run with a boundary: session 1 with client 7 follows pane 3, which then prints a query.\<close>

definition follow_ops :: "collector_op list" where
  "follow_ops = [CReconcile [(1, 3)] (\<lambda>s. if s = 1 then Some 7 else None)]"

definition print_ops :: "collector_op list" where
  "print_ops = map (\<lambda>ch. CDecoded 1 7 (DByte 3 ch)) (''x'' @ [ESC, CHR 0x5C] @ query_frame) @ [CDrain]"

definition followed :: collector where
  "followed = snd (projr (collector_run no_base64 follow_ops (collector_with_epoch 0)))"

definition rebound :: "observation_boundary option \<times> collector" where
  "rebound = projr (collector_boundary 3 False followed)"

definition printed :: "program_drain list \<times> collector" where
  "printed = projr (collector_run no_base64 print_ops (snd rebound))"

theorem observed_in_order_witness:
  "sorted_wrt (\<lambda>x y. oe_pane x = oe_pane y \<longrightarrow>
      oe_connection x < oe_connection y \<or> oe_connection x = oe_connection y \<and> oe_sequence x < oe_sequence y)
    (concat (map (\<lambda>d. dr_invalidations d @ dr_observations d) (fst printed)))
   \<and> length (concat (map (\<lambda>d. dr_invalidations d @ dr_observations d) (fst printed))) = 2"
proof
  have "collector_run no_base64 (follow_ops @ [CBoundary 3 False] @ print_ops) (collector_with_epoch 0)
      = Inr (fst printed, snd printed)" by code_simp
  then show "sorted_wrt (\<lambda>x y. oe_pane x = oe_pane y \<longrightarrow>
      oe_connection x < oe_connection y \<or> oe_connection x = oe_connection y \<and> oe_sequence x < oe_sequence y)
    (concat (map (\<lambda>d. dr_invalidations d @ dr_observations d) (fst printed)))"
    by (rule observed_in_order)
qed code_simp

theorem bound_observation_fresh_witness:
  "\<exists>s k pre mid post. print_ops = pre @ mid @ post \<and> unbroken 3 s k mid
     \<and> parse_frame no_base64 (bytes_for 3 s k mid) = Inr (Command Query)"
proof (rule bound_observation_fresh)
  show "collector_run no_base64 follow_ops (collector_with_epoch 0) = Inr ([], followed)" by code_simp
  show "collector_boundary 3 False followed = Inr (Some (the (fst rebound)), snd rebound)" by code_simp
  show "collector_run no_base64 print_ops (snd rebound) = Inr (fst printed, snd printed)" by code_simp
  show "hd (fst printed) \<in> set ([] @ fst printed)" by code_simp
  show "hd (dr_observations (hd (fst printed))) \<in> set (dr_observations (hd (fst printed)))" by code_simp
  show "oe_pane (hd (dr_observations (hd (fst printed)))) = 3" by code_simp
  show "oe_connection (hd (dr_observations (hd (fst printed)))) = ob_connection (the (fst rebound))" by code_simp
  show "oe_event (hd (dr_observations (hd (fst printed)))) = ECommand Query" by code_simp
qed

section \<open>Delivery\<close>

lemma replace_Inr:
  assumes "collector_sane c" and "stream_of c pane = Some st"
  obtains c1 where "replace_scanner pane (pending_candidate (st_scanner st)) t c = Inr c1"
    "collector_sane c1" "co_budget c1 = co_budget c" "co_topology_ready c1 = co_topology_ready c"
    "stream_of c1 pane = Some (st\<lparr>st_scanner := t\<rparr>)" "co_queue c1 = co_queue c"
    "co_queued_bytes c1 = co_queued_bytes c"
    "pending_bytes c1 + pending_candidate (st_scanner st) = pending_bytes c + pending_candidate t"
proof -
  have "pending_candidate (st_scanner st) \<le> co_candidate_bytes c"
    using candidate_in_sum assms by (simp add: sane_defs stream_of_def)
  then obtain c1 where c1: "replace_scanner pane (pending_candidate (st_scanner st)) t c = Inr c1"
    "co_queued_bytes c1 = co_queued_bytes c"
    by (simp add: replace_scanner_def subtract_candidate_def checked_sub_def update_stream_def)
  then show thesis
    using that [OF c1(1)] replace_scanner_sane [OF assms, of t] replace_look [OF c1(1) assms(2)] by simp
qed

text \<open>One byte of a followed pane: the scanner steps; what it recognises is queued.\<close>

lemma byte_step:
  assumes "collector_sane c" and "co_topology_ready c" and "stream_of c p = Some st"
    and "\<not> st_paused st" and "\<not> st_quarantine st"
    and feed: "scanner_feed b64 ch (st_scanner st) = (event, t)"
    and room: "pending_bytes c + pending_candidate t \<le> co_budget c + pending_candidate (st_scanner st)"
  obtains c1 where
    "collector_decoded b64 (st_owner st) (st_client st) (DByte p ch) c
       = (case event of Some ev \<Rightarrow> enqueue p ev c1 | None \<Rightarrow> Inr c1)"
    "collector_sane c1" "co_budget c1 = co_budget c" "co_topology_ready c1"
    "stream_of c1 p = Some (st\<lparr>st_scanner := t\<rparr>)" "co_queue c1 = co_queue c" "co_queued_bytes c1 = co_queued_bytes c"
    "pending_bytes c1 + pending_candidate (st_scanner st) = pending_bytes c + pending_candidate t"
proof -
  from replace_Inr [OF assms(1,3), of t] obtain c1 where
    c1: "replace_scanner p (pending_candidate (st_scanner st)) t c = Inr c1"
      "collector_sane c1" "co_budget c1 = co_budget c" "co_topology_ready c1 = co_topology_ready c"
      "stream_of c1 p = Some (st\<lparr>st_scanner := t\<rparr>)" "co_queue c1 = co_queue c" "co_queued_bytes c1 = co_queued_bytes c"
      "pending_bytes c1 + pending_candidate (st_scanner st) = pending_bytes c + pending_candidate t" .
  have "\<not> co_budget c1 < pending_bytes c1" using room c1(3,8) by simp
  then have "collect_byte b64 p st ch c = (case event of Some ev \<Rightarrow> enqueue p ev c1 | None \<Rightarrow> Inr c1)"
    using assms(5) by (simp add: collect_byte_def Let_def feed c1(1))
  then show thesis
    using that [of c1] c1 assms(2-4) by (simp add: collector_decoded_def stream_item_def)
qed

lemma silent_bytes:
  assumes "collector_sane c" and "co_topology_ready c" and "stream_of c p = Some st"
    and "\<not> st_paused st" and "\<not> st_quarantine st"
    and "scan_inv h (st_scanner st)" and "\<not> after_quarantine h"
    and "set (scan_events b64 (map SByte bs) (st_scanner st)) \<subseteq> {None}"
    and "pending_bytes c + MAX_FRAME_BYTES \<le> co_budget c + pending_candidate (st_scanner st)"
  shows "\<exists>c' h'. collector_run b64 (map (\<lambda>ch. CDecoded (st_owner st) (st_client st) (DByte p ch)) bs) c = Inr ([], c')
    \<and> collector_sane c' \<and> co_topology_ready c' \<and> co_budget c' = co_budget c
    \<and> stream_of c' p = Some (st\<lparr>st_scanner := scan_state_after b64 (map SByte bs) (st_scanner st)\<rparr>)
    \<and> scan_inv h' (scan_state_after b64 (map SByte bs) (st_scanner st)) \<and> \<not> after_quarantine h'
    \<and> co_queue c' = co_queue c \<and> co_queued_bytes c' = co_queued_bytes c
    \<and> pending_bytes c' + pending_candidate (st_scanner st)
        = pending_bytes c + pending_candidate (scan_state_after b64 (map SByte bs) (st_scanner st))"
  using assms
proof (induction bs arbitrary: c st h)
  case Nil
  then show ?case by (intro exI [of _ c] exI [of _ h]) simp
next
  case (Cons ch bs)
  obtain event t where feed: "scanner_feed b64 ch (st_scanner st) = (event, t)" by fastforce
  have none: "event = None" "set (scan_events b64 (map SByte bs) t) \<subseteq> {None}"
    using Cons.prems(8) feed by simp_all
  have inv: "scan_inv (h @ [SByte ch]) t" using feed_inv [OF Cons.prems(6,7), of ch b64] feed by simp
  then have small: "pending_candidate t \<le> MAX_FRAME_BYTES" by (simp add: scan_inv_def pending_candidate_def)
  then have "pending_bytes c + pending_candidate t \<le> co_budget c + pending_candidate (st_scanner st)"
    using Cons.prems(9) by linarith
  from byte_step [OF Cons.prems(1-5) feed this] obtain c1 where
    c1: "collector_decoded b64 (st_owner st) (st_client st) (DByte p ch) c = Inr c1"
      "collector_sane c1" "co_budget c1 = co_budget c" "co_topology_ready c1"
      "stream_of c1 p = Some (st\<lparr>st_scanner := t\<rparr>)" "co_queue c1 = co_queue c" "co_queued_bytes c1 = co_queued_bytes c"
      "pending_bytes c1 + pending_candidate (st_scanner st) = pending_bytes c + pending_candidate t"
    by (auto simp: none(1))
  have room: "pending_bytes c1 + MAX_FRAME_BYTES \<le> co_budget c1 + pending_candidate t"
    using c1(3,8) Cons.prems(9) by linarith
  show ?case
    using Cons.IH [OF c1(2,4,5), of "h @ [SByte ch]"] Cons.prems(4,5) inv none(2) room c1
    by (auto simp: feed no_output_def after_quarantine_def)
qed

lemma run_append:
  "collector_run b64 (xs @ ys) c = sum_bind (collector_run b64 xs c) (\<lambda>(out, c1).
     map_sum id (\<lambda>(rest, c2). (out @ rest, c2)) (collector_run b64 ys c1))"
proof (induction xs arbitrary: c)
  case (Cons x xs)
  show ?case
  proof (cases "collector_exec b64 x c")
    case exec: (Inr r)
    obtain out1 c1 where r: "r = (out1, c1)" by (cases r)
    show ?thesis
    proof (cases "collector_run b64 xs c1")
      case xs: (Inr r2)
      obtain out2 c2 where r2: "r2 = (out2, c2)" by (cases r2)
      show ?thesis
        by (cases "collector_run b64 ys c2") (auto simp: Cons.IH exec xs r r2)
    qed (simp add: Cons.IH exec r)
  qed simp
qed (simp add: sum.map_ident case_prod_unfold id_def)

lemma queued_report:
  assumes "collector_sane c" and "stream_of c p = Some st" and "st_sequence st < u64_max"
    and "length (co_queue c) < MAX_PROGRAM_EVENTS"
    and "co_queued_bytes c + payload_bytes ev \<le> MAX_PROGRAM_PAYLOAD_BYTES"
    and "pending_bytes c + payload_bytes ev \<le> co_budget c"
  shows "\<exists>c'. enqueue p ev c = Inr c' \<and> co_queue c' = co_queue c
    @ [\<lparr>oe_pane = p, oe_connection = st_epoch st, oe_sequence = st_sequence st + 1, oe_event = ev\<rparr>]
    \<and> stream_of c' p = Some (st\<lparr>st_sequence := st_sequence st + 1\<rparr>) \<and> co_topology_ready c' = co_topology_ready c"
  using assms update_look [of p "\<lambda>s. s\<lparr>st_sequence := st_sequence st + 1\<rparr>" c p]
  by (auto simp: enqueue_def Let_def checked_sub_def checked_add_def stream_of_def)

text \<open>C5 (report_delivered). A report arrives. Let a program in a followed pane print a frame that the parser
  accepts, and let tmux forward it as an output line of the control protocol, escaped in any way that
  reads back. If the pane's stream is in ground state, neither paused nor in quarantine, and there is
  room for the report, then after these bytes exactly this report is queued for the pane, at the
  stream's epoch and next sequence, and nothing else changed in the queue.\<close>

theorem report_delivered:
  assumes run: "collector_run b64 ops (collector_with_epoch e) = Inr (out, c)"
    and frame: "parse_frame b64 frame = Inr (Command cmd)" "CAN \<notin> set frame" "SUB \<notin> set frame"
    and line: "escaped w frame" "dc_line d = LHeader" "dc_header d = []" "dc_block d = None" "dc_attached d"
      "p \<le> u32_max"
    and ready: "co_topology_ready c" and st: "stream_of c p = Some st"
    and open_: "\<not> st_paused st" "\<not> st_quarantine st" "sn_state (st_scanner st) = Ground"
    and room: "pending_bytes c + MAX_FRAME_BYTES + payload_bytes (ECommand cmd) \<le> co_budget c"
      "length (co_queue c) < MAX_PROGRAM_EVENTS"
      "co_queued_bytes c + payload_bytes (ECommand cmd) \<le> MAX_PROGRAM_PAYLOAD_BYTES" "st_sequence st < u64_max"
  shows "\<exists>c'. collector_run b64 (map (CDecoded (st_owner st) (st_client st))
        (fst (decoder_feed True (''%output '' @ pane_id_show p @ '' '' @ w @ [CHR 0x0A]) d))) c = Inr ([], c')
    \<and> co_queue c' = co_queue c @ [\<lparr>oe_pane = p, oe_connection = st_epoch st,
        oe_sequence = st_sequence st + 1, oe_event = ECommand cmd\<rparr>]"
proof -
  let ?op = "CDecoded (st_owner st) (st_client st)"
  have ok: "collector_sane c" and h: "history b64 ops c"
    using run_history [OF history_new collector_ok_new run] ok_sane by simp_all
  have "scan_inv [] (st_scanner st)"
    using history_stream [OF h st] open_(3) by (auto simp: stream_history_def explained_def scan_inv_def)
  note inv = this
  have items: "fst (decoder_feed True (''%output '' @ pane_id_show p @ '' '' @ w @ [CHR 0x0A]) d)
      = DStart p # map (DByte p) frame @ [DEnd p]"
    using output_line [OF line] by simp
  have events: "scan_events b64 (map SByte frame) (st_scanner st) = replicate (length frame - 1) None @ [Some (ECommand cmd)]"
    using scanner_reads [OF frame open_(3)] by simp
  have "frame \<noteq> []" using events by auto
  then obtain bs ch where bs: "frame = bs @ [ch]" by (cases frame rule: rev_cases) auto
  have split: "scan_events b64 (map SByte bs) (st_scanner st) = replicate (length bs) None"
    "fst (scanner_feed b64 ch (scan_state_after b64 (map SByte bs) (st_scanner st))) = Some (ECommand cmd)"
    using events by (simp_all add: bs scan_events_append split: prod.splits)
  define s where "s = scan_state_after b64 (map SByte bs) (st_scanner st)"
  have quiet: "set (scan_events b64 (map SByte bs) (st_scanner st)) \<subseteq> {None}" unfolding split(1) by auto
  have space: "pending_bytes c + MAX_FRAME_BYTES \<le> co_budget c + pending_candidate (st_scanner st)" using room(1) by simp
  obtain c1 h1 where
    c1: "collector_run b64 (map (\<lambda>ch. ?op (DByte p ch)) bs) c = Inr ([], c1)"
      "collector_sane c1" "co_topology_ready c1" "co_budget c1 = co_budget c" "stream_of c1 p = Some (st\<lparr>st_scanner := s\<rparr>)"
      "scan_inv h1 s" "\<not> after_quarantine h1" "co_queue c1 = co_queue c" "co_queued_bytes c1 = co_queued_bytes c"
      "pending_bytes c1 + pending_candidate (st_scanner st) = pending_bytes c + pending_candidate s"
    using silent_bytes [OF ok ready st open_(1,2) inv _ quiet space] unfolding s_def [symmetric]
    by (auto simp: after_quarantine_def)
  obtain t where feed: "scanner_feed b64 ch s = (Some (ECommand cmd), t)"
    using split(2) unfolding s_def [symmetric] by (cases "scanner_feed b64 ch s") simp
  have "scan_inv (h1 @ [SByte ch]) t" using feed_inv [OF c1(6,7), of ch b64] feed by simp
  then have small: "pending_candidate t \<le> MAX_FRAME_BYTES" by (simp add: scan_inv_def pending_candidate_def)
  have last: "\<exists>c2. collector_decoded b64 (st_owner st) (st_client st) (DByte p ch) c1 = enqueue p (ECommand cmd) c2
      \<and> collector_sane c2 \<and> co_budget c2 = co_budget c \<and> co_topology_ready c2 \<and> co_queue c2 = co_queue c
      \<and> stream_of c2 p = Some (st\<lparr>st_scanner := t\<rparr>) \<and> co_queued_bytes c2 = co_queued_bytes c
      \<and> pending_bytes c2 \<le> pending_bytes c + MAX_FRAME_BYTES"
  proof (rule byte_step [OF c1(2,3,5), of b64 ch "Some (ECommand cmd)" t])
    show "pending_bytes c1 + pending_candidate t \<le> co_budget c1 + pending_candidate (st_scanner (st\<lparr>st_scanner := s\<rparr>))"
      using c1(4,10) small space by simp
  qed (use open_ feed c1 small in auto)
  then obtain c2 where c2: "collector_decoded b64 (st_owner st) (st_client st) (DByte p ch) c1 = enqueue p (ECommand cmd) c2"
    "collector_sane c2" "co_budget c2 = co_budget c" "co_topology_ready c2" "co_queue c2 = co_queue c"
    "stream_of c2 p = Some (st\<lparr>st_scanner := t\<rparr>)" "co_queued_bytes c2 = co_queued_bytes c"
    "pending_bytes c2 \<le> pending_bytes c + MAX_FRAME_BYTES" by blast
  obtain c3 where c3: "enqueue p (ECommand cmd) c2 = Inr c3" "co_topology_ready c3"
    "co_queue c3 = co_queue c @ [\<lparr>oe_pane = p, oe_connection = st_epoch st, oe_sequence = st_sequence st + 1,
        oe_event = ECommand cmd\<rparr>]" "stream_of c3 p = Some (st\<lparr>st_scanner := t, st_sequence := st_sequence st + 1\<rparr>)"
    using queued_report [OF c2(2,6), of "ECommand cmd"] c2 room by auto
  have start: "collector_exec b64 (?op (DStart p)) c = Inr ([], c)" and finish: "collector_exec b64 (?op (DEnd p)) c3 = Inr ([], c3)"
    using open_(2) c3(4) by (auto simp: no_output_def collector_decoded_def stream_item_def split: option.split)
  have "collector_run b64 (map ?op (DStart p # map (DByte p) frame @ [DEnd p])) c = Inr ([], c3)"
    using start finish c1(1) c2(1) c3(1) by (simp add: bs run_append no_output_def comp_def)
  then show ?thesis using c3(3) unfolding items by blast
qed

definition synced :: collector where
  "synced = snd (projr (collector_run no_base64
     (follow_ops @ map (\<lambda>ch. CDecoded 1 7 (DByte 3 ch)) (''x'' @ [ESC, CHR 0x5C])) (collector_with_epoch 0)))"

theorem report_delivered_witness:
  "\<exists>c'. collector_run no_base64 (map (CDecoded 1 7)
       (fst (decoder_feed True (''%output '' @ pane_id_show 3 @ '' '' @ escape_text query_frame @ [CHR 0x0A])
          (decoder_new\<lparr>dc_attached := True\<rparr>)))) synced = Inr ([], c')
     \<and> co_queue c' = [\<lparr>oe_pane = 3, oe_connection = 1, oe_sequence = 1, oe_event = ECommand Query\<rparr>]"
proof -
  let ?st = "the (stream_of synced 3)"
  have eqs: "st_owner ?st = 1" "st_client ?st = 7" "st_epoch ?st = 1" "st_sequence ?st = 0" "co_queue synced = []"
    by code_simp+
  have run: "collector_run no_base64 (follow_ops @ map (\<lambda>ch. CDecoded 1 7 (DByte 3 ch)) (''x'' @ [ESC, CHR 0x5C]))
      (collector_with_epoch 0) = Inr ([], synced)" by code_simp
  have "\<exists>c'. collector_run no_base64 (map (CDecoded (st_owner ?st) (st_client ?st))
        (fst (decoder_feed True (''%output '' @ pane_id_show 3 @ '' '' @ escape_text query_frame @ [CHR 0x0A])
          (decoder_new\<lparr>dc_attached := True\<rparr>)))) synced = Inr ([], c')
    \<and> co_queue c' = co_queue synced @ [\<lparr>oe_pane = 3, oe_connection = st_epoch ?st,
        oe_sequence = st_sequence ?st + 1, oe_event = ECommand Query\<rparr>]"
    by (rule report_delivered [OF run, where frame = query_frame];
        (rule escaped_escape_text | code_simp))
  then show ?thesis by (simp add: eqs)
qed

end
