(* ===== verification/Action_Lock.thy ===== *)
theory Action_Lock
  imports Tmux_Format Action
begin

text \<open>
  The single-flight lock of a pane (\<open>tma-tmux/src/lock.rs\<close>): one option holds the holder's expiry, nonce,
  process and action; every write is one conditional set that tmux evaluates, and a read-back of the
  nonce decides who won. The tmux calls, the kernel's random bytes and \<open>kill(pid, 0)\<close> are a client
  handle, a parameter. Definitions, the texts as formats, and the interface of a server.
\<close>

section \<open>Lock values\<close>

record lock_value =
  lk_expiry_ms :: u64
  lk_nonce :: string
  lk_pid :: nat
  lk_name :: string

definition lock_encode :: "lock_value \<Rightarrow> string" where
  "lock_encode v =
     show_nat (lk_expiry_ms v) @ '':'' @ lk_nonce v @ '':'' @ show_nat (lk_pid v) @ '':'' @ lk_name v"

definition lock_parse :: "string \<Rightarrow> lock_value option" where
  "lock_parse raw =
     (case splitn 4 (CHR '':'') raw of
        [expiry, nonce, pid, name] \<Rightarrow>
          (case (parse_uint u64_max expiry, parse_uint u32_max pid) of
             (Some e, Some p) \<Rightarrow>
               if nonce = [] then None
               else Some \<lparr>lk_expiry_ms = e, lk_nonce = nonce, lk_pid = p, lk_name = name\<rparr>
           | _ \<Rightarrow> None)
      | _ \<Rightarrow> None)"

text \<open>\<open>fresh_nonce\<close>: sixteen random bytes in lowercase hexadecimal.\<close>

definition nonce_digit :: "nat \<Rightarrow> char" where
  "nonce_digit d = (if d < 10 then digit_char d else char_of (87 + d))"

definition nonce_of_bytes :: "nat list \<Rightarrow> string" where
  "nonce_of_bytes bytes = concat (map (\<lambda>b. [nonce_digit (b div 16), nonce_digit (b mod 16)]) bytes)"

section \<open>The guarded values\<close>

definition EXPIRY_EXTRACT :: string where
  "EXPIRY_EXTRACT = ''#{s/[^0-9].*//:#{@agent_action}}''"

definition ACQUIRE_GUARD :: string where
  "ACQUIRE_GUARD =
     ''#{?#{||:#{==:#{@agent_action},},#{e|<:#{s/[^0-9].*//:#{@agent_action}},NOW}},NEW,#{@agent_action}}''"

definition NONCE_MATCH :: string where
  "NONCE_MATCH = ''#{m:*:NONCE:*,#{@agent_action}}''"

text \<open>\<open>str::replace\<close>: every occurrence, from the left, without overlap.\<close>

fun replace_all :: "string \<Rightarrow> string \<Rightarrow> string \<Rightarrow> string" where
  "replace_all old new [] = []"
| "replace_all old new (c # s) =
     (if old \<noteq> [] \<and> take (length old) (c # s) = old
      then new @ replace_all old new (drop (length old - 1) s)
      else c # replace_all old new s)"

definition acquire_value :: "u64 \<Rightarrow> string \<Rightarrow> string" where
  "acquire_value now_ms new_value =
     replace_all ''NEW'' new_value (replace_all ''NOW'' (show_nat now_ms) ACQUIRE_GUARD)"

definition nonce_conditional_value :: "string \<Rightarrow> string \<Rightarrow> string" where
  "nonce_conditional_value nonce then_value =
     replace_all ''THEN'' then_value
       (replace_all ''PREDICATE'' (replace_all ''NONCE'' nonce NONCE_MATCH)
          ''#{?PREDICATE,THEN,#{@agent_action}}'')"

definition set_action_guarded :: "string \<Rightarrow> string \<Rightarrow> stamp_command" where
  "set_action_guarded pane_id value =
     argv [''set-option'', ''-p'', ''-F'', ''-t'', pane_id, OPT_ACTION, value]"

section \<open>Operations\<close>

datatype acquire = Acquired lock_value | Contended
datatype 'e lock_error = LockTmux 'e | LockRng

text \<open>\<open>lt_exists\<close>: whether \<open>kill(pid, 0)\<close> finds a process, its own or another's.\<close>

record ('s, 'e) lock_tmux =
  lt_get :: "string \<Rightarrow> string \<Rightarrow> 's \<Rightarrow> ('e + string option) \<times> 's"
  lt_apply :: "stamp_command list \<Rightarrow> 's \<Rightarrow> ('e + unit) \<times> 's"
  lt_random :: "'s \<Rightarrow> nat list option \<times> 's"
  lt_exists :: "nat \<Rightarrow> bool"

definition pid_alive :: "(nat \<Rightarrow> bool) \<Rightarrow> nat \<Rightarrow> bool" where
  "pid_alive exists pid = (pid \<noteq> 0 \<and> pid \<le> 2 ^ 31 - 1 \<and> exists pid)"

text \<open>The reclaim pre-check: an expired lock of a live holder is not reclaimed.\<close>

definition held_alive :: "(nat \<Rightarrow> bool) \<Rightarrow> string option \<Rightarrow> u64 \<Rightarrow> bool" where
  "held_alive exists stored now_ms =
     (case Option.bind stored lock_parse of
        None \<Rightarrow> False
      | Some held \<Rightarrow> lk_expiry_ms held < now_ms \<and> pid_alive exists (lk_pid held))"

text \<open>The read-back.\<close>

definition acquire_outcome :: "lock_value \<Rightarrow> string option \<Rightarrow> acquire" where
  "acquire_outcome v stored =
     (case Option.bind stored lock_parse of
        Some held \<Rightarrow> if lk_nonce held = lk_nonce v then Acquired v else Contended
      | None \<Rightarrow> Contended)"

definition acquire_write ::
  "('s, 'e) lock_tmux \<Rightarrow> string \<Rightarrow> u64 \<Rightarrow> lock_value \<Rightarrow> 's \<Rightarrow> ('e lock_error + acquire) \<times> 's" where
  "acquire_write lt pane now_ms v s =
     (case lt_apply lt [set_action_guarded pane (acquire_value now_ms (lock_encode v))] s of
        (Inl e, s1) \<Rightarrow> (Inl (LockTmux e), s1)
      | (Inr _, s1) \<Rightarrow>
          (case lt_get lt pane OPT_ACTION s1 of
             (Inl e, s2) \<Rightarrow> (Inl (LockTmux e), s2)
           | (Inr stored, s2) \<Rightarrow> (Inr (acquire_outcome v stored), s2)))"

definition lock_acquire ::
  "('s, 'e) lock_tmux \<Rightarrow> string \<Rightarrow> u64 \<Rightarrow> u64 \<Rightarrow> nat \<Rightarrow> string \<Rightarrow> 's \<Rightarrow> ('e lock_error + acquire) \<times> 's" where
  "lock_acquire lt pane now_ms expiry_ms pid name s =
     (case lt_get lt pane OPT_ACTION s of (before, s1) \<Rightarrow>
        if (case before of Inr stored \<Rightarrow> held_alive (lt_exists lt) stored now_ms | Inl _ \<Rightarrow> False)
        then (Inr Contended, s1)
        else case lt_random lt s1 of
            (None, s2) \<Rightarrow> (Inl LockRng, s2)
          | (Some bytes, s2) \<Rightarrow>
              acquire_write lt pane now_ms
                \<lparr>lk_expiry_ms = expiry_ms, lk_nonce = nonce_of_bytes bytes, lk_pid = pid, lk_name = name\<rparr> s2)"

definition lock_clear ::
  "('s, 'e) lock_tmux \<Rightarrow> string \<Rightarrow> string \<Rightarrow> 's \<Rightarrow> ('e lock_error + unit) \<times> 's" where
  "lock_clear lt pane nonce s =
     (case lt_apply lt [set_action_guarded pane (nonce_conditional_value nonce [])] s of
        (r, s1) \<Rightarrow> (map_sum LockTmux id r, s1))"

definition lock_rewrite ::
  "('s, 'e) lock_tmux \<Rightarrow> string \<Rightarrow> string \<Rightarrow> lock_value \<Rightarrow> 's \<Rightarrow> ('e lock_error + bool) \<times> 's" where
  "lock_rewrite lt pane nonce new_value s =
     (case lt_apply lt [set_action_guarded pane (nonce_conditional_value nonce (lock_encode new_value))] s of
        (Inl e, s1) \<Rightarrow> (Inl (LockTmux e), s1)
      | (Inr _, s1) \<Rightarrow>
          (case lt_get lt pane OPT_ACTION s1 of
             (Inl e, s2) \<Rightarrow> (Inl (LockTmux e), s2)
           | (Inr stored, s2) \<Rightarrow> (Inr (stored = Some (lock_encode new_value)), s2)))"

text \<open>
  \<open>get_pane_option\<close> on what \<open>show-options -v\<close> prints, a text without its final newline: trimmed,
  \<^const>\<open>None\<close> when nothing is left. Widths are those of UTF-8.
\<close>

definition utf8_width :: "nat \<Rightarrow> nat" where
  "utf8_width c = (if c < 128 then 1 else if c < 2048 then 2 else if c < 65536 then 3 else 4)"

definition trim_text :: "string \<Rightarrow> string" where
  "trim_text s =
     (let cs = chars s;
          lead = sum_list (map utf8_width (takeWhile char_is_whitespace cs));
          trail = sum_list (map utf8_width (takeWhile char_is_whitespace (rev (trim_start cs))))
      in take (length s - lead - trail) (drop lead s))"

definition trimmed_option :: "string \<Rightarrow> string option" where
  "trimmed_option out = (let trimmed = trim_text out in if trimmed = [] then None else Some trimmed)"

definition stored_action :: "options \<Rightarrow> string option" where
  "stored_action opts = trimmed_option (opt_value opts OPT_ACTION)"

section \<open>The values as formats\<close>

definition acquire_format :: "u64 \<Rightarrow> string \<Rightarrow> format" where
  "acquire_format now_ms new_value =
     CondF (BinaryF OpOr (BinaryF OpEq (LookupF OPT_ACTION) (PlainF []))
              (BinaryF OpLt (DigitsF OPT_ACTION) (PlainF (show_nat now_ms))))
       (PlainF new_value) (LookupF OPT_ACTION)"

definition nonce_format :: "string \<Rightarrow> string \<Rightarrow> format" where
  "nonce_format nonce then_value =
     CondF (TestF (HasField nonce) OPT_ACTION) (PlainF then_value) (LookupF OPT_ACTION)"

lemma replace_skip:
  "c \<notin> set xs \<Longrightarrow> replace_all (c # old) new (xs @ ys) = xs @ replace_all (c # old) new ys"
  by (induction xs) auto

lemma acquire_value_format: "acquire_value now_ms new_value = print_format (acquire_format now_ms new_value)"
proof -
  have "CHR ''N'' \<notin> set (show_nat now_ms)" by (rule not_digit_notin_show) (simp add: is_digit_def byte_def)
  then have "replace_all ''NEW'' new_value (show_nat now_ms @ ys) = show_nat now_ms @ replace_all ''NEW'' new_value ys" for ys
    by (rule replace_skip)
  then show ?thesis
    by (simp add: acquire_value_def ACQUIRE_GUARD_def acquire_format_def OPT_ACTION_def)
qed

lemma nonce_value_format:
  assumes "CHR ''T'' \<notin> set nonce"
  shows "nonce_conditional_value nonce then_value = print_format (nonce_format nonce then_value)"
proof -
  have "replace_all ''THEN'' then_value (nonce @ ys) = nonce @ replace_all ''THEN'' then_value ys" for ys
    using assms by (rule replace_skip)
  then show ?thesis
    by (simp add: nonce_conditional_value_def NONCE_MATCH_def nonce_format_def OPT_ACTION_def)
qed

lemma expiry_extract_format: "EXPIRY_EXTRACT = print_format (DigitsF OPT_ACTION)"
  by (simp add: EXPIRY_EXTRACT_def OPT_ACTION_def)

end
