(* ===== verification/Lock_Protocol.thy ===== *)
theory Lock_Protocol
  imports Action_Lock Tmux_Expander
begin

text \<open>
  The lock as a protocol: any number of clients, each reading, writing and reading back in its own time,
  on one tmux server and one host clock. While a holder's value has not expired it is the only holder.
\<close>

section \<open>Values of the protocol\<close>

definition nonce_char :: "char \<Rightarrow> bool" where
  "nonce_char c = (is_digit c \<or> 97 \<le> byte c \<and> byte c \<le> 102)"

definition nonce_ok :: "string \<Rightarrow> bool" where
  "nonce_ok n = (length n = 32 \<and> list_all nonce_char n)"

definition lock_value_ok :: "lock_value \<Rightarrow> bool" where
  "lock_value_ok v =
     (lk_expiry_ms v \<le> 2 ^ 53 \<and> nonce_ok (lk_nonce v) \<and> lk_pid v \<le> u32_max \<and> is_safe_token (lk_name v))"

text \<open>The stored text carries this nonce as a field.\<close>

abbreviation carries :: "string \<Rightarrow> string \<Rightarrow> bool" where
  "carries stored n \<equiv> test_value (HasField n) stored"

lemma nonce_ok_bytes: "length bytes = 16 \<Longrightarrow> list_all (\<lambda>b. b < 256) bytes \<Longrightarrow> nonce_ok (nonce_of_bytes bytes)"
proof -
  have digit: "nonce_char (nonce_digit d)" if "d < 16" for d
  proof (cases "d < 10")
    case False
    then have "byte (nonce_digit d) = 87 + d" using that by (simp add: nonce_digit_def byte_def)
    then show ?thesis using False that by (simp add: nonce_char_def)
  qed (simp add: nonce_digit_def nonce_char_def)
  have "length (nonce_of_bytes bytes) = 2 * length bytes" for bytes
    by (induction bytes) (simp_all add: nonce_of_bytes_def)
  moreover have "list_all (\<lambda>b. b < 256) bytes \<Longrightarrow> list_all nonce_char (nonce_of_bytes bytes)" for bytes
    by (induction bytes) (auto simp: nonce_of_bytes_def intro!: digit)
  ultimately show "length bytes = 16 \<Longrightarrow> list_all (\<lambda>b. b < 256) bytes \<Longrightarrow> nonce_ok (nonce_of_bytes bytes)"
    by (simp add: nonce_ok_def)
qed

lemma value_chars:
  assumes "lock_value_ok v"
  shows "CHR '':'' \<notin> set (lk_nonce v)" "CHR '':'' \<notin> set (show_nat n)" "CHR '':'' \<notin> set (lk_name v)"
    "CHR ''T'' \<notin> set (lk_nonce v)"
  using assms not_digit_notin_show [of "CHR '':''" n]
  by (auto simp: lock_value_ok_def nonce_ok_def nonce_char_def is_safe_token_def is_ascii_lower_def list_all_iff
      is_digit_def byte_def)

lemma encode_pieces:
  assumes "lock_value_ok v"
  shows "split_on (CHR '':'') (lock_encode v) = [show_nat (lk_expiry_ms v), lk_nonce v, show_nat (lk_pid v), lk_name v]"
  using value_chars [OF assms] by (simp add: lock_encode_def)

lemma show_nat_u32_short: "n \<le> u32_max \<Longrightarrow> length (show_nat n) \<le> 10"
  by (simp add: show_nat_length_10 u32_max_def)

text \<open>A value carries its own nonce and no other.\<close>

lemma carries_encode:
  assumes "lock_value_ok v" and "nonce_ok n"
  shows "carries (lock_encode v) n \<longleftrightarrow> n = lk_nonce v"
proof
  assume "carries (lock_encode v) n"
  then obtain a b where ab: "lock_encode v = a @ CHR '':'' # n @ CHR '':'' # b" by (auto simp: sublist_def)
  have n: "CHR '':'' \<notin> set n"
    using assms(2) by (auto simp: nonce_ok_def nonce_char_def list_all_iff is_digit_def byte_def)
  have "split_on (CHR '':'') (lock_encode v) = split_on (CHR '':'') a @ n # split_on (CHR '':'') b"
    unfolding ab split_on_append_sep using n by simp
  then have pieces: "split_on (CHR '':'') a @ n # split_on (CHR '':'') b
      = [show_nat (lk_expiry_ms v), lk_nonce v, show_nat (lk_pid v), lk_name v]"
    using encode_pieces [OF assms(1)] by simp
  obtain p ps q qs where "split_on (CHR '':'') a = p # ps" "split_on (CHR '':'') b = q # qs"
    using split_on_Cons_ex by metis
  with pieces have "n = lk_nonce v \<or> n = show_nat (lk_pid v)" by (auto simp: Cons_eq_append_conv append_eq_Cons_conv)
  moreover have "n \<noteq> show_nat (lk_pid v)"
    using assms show_nat_u32_short [of "lk_pid v"] by (auto simp: nonce_ok_def lock_value_ok_def)
  ultimately show "n = lk_nonce v" by blast
qed (auto simp: lock_encode_def sublist_def)

lemma parse_encode:
  assumes "lock_value_ok v"
  shows "lock_parse (lock_encode v) = Some v"
proof -
  have "splitn 4 (CHR '':'') (lock_encode v) = [show_nat (lk_expiry_ms v), lk_nonce v, show_nat (lk_pid v), lk_name v]"
    using value_chars [OF assms] by (simp add: lock_encode_def numeral_eq_Suc)
  moreover have "lk_nonce v \<noteq> []" "lk_expiry_ms v \<le> u64_max" "lk_pid v \<le> u32_max"
    using assms by (auto simp: lock_value_ok_def nonce_ok_def u64_max_def)
  ultimately show ?thesis by (simp add: lock_parse_def)
qed

lemma parse_carries: "lock_parse raw = Some v \<Longrightarrow> carries raw (lk_nonce v)"
proof -
  assume "lock_parse raw = Some v"
  then obtain expiry nonce pid name where "splitn 4 (CHR '':'') raw = [expiry, nonce, pid, name]" "lk_nonce v = nonce"
    by (auto simp: lock_parse_def split: list.splits option.splits if_splits)
  then obtain "raw = expiry @ CHR '':'' # nonce @ CHR '':'' # pid @ CHR '':'' # name"
    by (auto simp: numeral_eq_Suc split_once_Some_iff split: option.splits)
  then show ?thesis using \<open>lk_nonce v = nonce\<close> by (auto simp: sublist_def)
qed

lemma encode_expiry: "takeWhile is_digit (lock_encode v) = show_nat (lk_expiry_ms v)"
proof -
  have "\<not> is_digit (CHR '':'')" by (simp add: is_digit_def byte_def)
  then show ?thesis
    using show_nat_digits [of "lk_expiry_ms v"] by (simp add: lock_encode_def list_all_iff takeWhile_append2)
qed

lemma encode_not_Nil [simp]: "lock_encode v \<noteq> []" "[] \<noteq> lock_encode v"
  by (simp_all add: lock_encode_def)

lemma encode_plain: "lock_value_ok v \<Longrightarrow> list_all plain_char (lock_encode v)"
  using show_nat_digits [of "lk_expiry_ms v"] show_nat_digits [of "lk_pid v"]
  by (auto simp: lock_encode_def lock_value_ok_def nonce_ok_def nonce_char_def is_safe_token_def is_ascii_lower_def
      plain_char_def is_digit_def byte_def list_all_iff)

section \<open>What a server does with the values\<close>

text \<open>
  The interface: formats expand as documented; the client's read answers the stored text, which it
  trims, or nothing when it is empty.
\<close>

definition visible :: "char \<Rightarrow> bool" where
  "visible c = (33 \<le> byte c \<and> byte c \<le> 126)"

locale lock_server = format_server expand num
  for expand :: "options \<Rightarrow> string \<Rightarrow> string" and num :: number_test +
  fixes get :: "options \<Rightarrow> string option"
  assumes get_part: "get opts = Some r \<Longrightarrow> sublist r (opt_value opts OPT_ACTION)"
    and get_stored: "opt_value opts OPT_ACTION = v \<Longrightarrow> v \<noteq> [] \<Longrightarrow> list_all visible v \<Longrightarrow> get opts = Some v"
    and get_empty: "opt_value opts OPT_ACTION = [] \<Longrightarrow> get opts = None"
begin

lemma action_key_ok: "key_ok OPT_ACTION"
  by code_simp

lemma eval_acquire:
  assumes "list_all plain_char new"
  shows "expand opts (acquire_value now new) =
    (if opt_value opts OPT_ACTION = [] \<or> truthy (num OpLt (takeWhile is_digit (opt_value opts OPT_ACTION)) (show_nat now))
     then new else opt_value opts OPT_ACTION)"
proof -
  have digits: "list_all plain_char (show_nat now)"
    using show_nat_digits [of now] by (auto simp: list_all_iff plain_char_def is_digit_def byte_def)
  have "format_wf (acquire_format now new)"
    using assms digits action_key_ok by (simp add: acquire_format_def)
  then show ?thesis
    unfolding acquire_value_format by (simp add: expand_print) (simp add: acquire_format_def)
qed

lemma eval_nonce:
  assumes "nonce_ok n" and "list_all plain_char new"
  shows "expand opts (nonce_conditional_value n new) =
    (if carries (opt_value opts OPT_ACTION) n then new else opt_value opts OPT_ACTION)"
proof -
  have "CHR ''T'' \<notin> set n" and glob: "list_all glob_plain n"
    using assms(1) by (auto simp: nonce_ok_def nonce_char_def list_all_iff glob_plain_def plain_char_def is_digit_def byte_def)
  then have "nonce_conditional_value n new = print_format (nonce_format n new)" by (simp add: nonce_value_format)
  moreover have "format_wf (nonce_format n new)"
    using assms(2) glob action_key_ok by (simp add: nonce_format_def)
  ultimately show ?thesis by (simp add: expand_print) (simp add: nonce_format_def)
qed

text \<open>A free or expired lock is taken, a live one is kept.\<close>

lemma acquire_live:
  assumes "lock_value_ok v" and "opt_value opts OPT_ACTION = lock_encode v" and "now \<le> lk_expiry_ms v"
    and "list_all plain_char new"
  shows "expand opts (acquire_value now new) = lock_encode v"
proof -
  have "number_operand (show_nat (lk_expiry_ms v))" "number_operand (show_nat now)"
    using assms(1,3) by (simp_all add: number_operand_def lock_value_ok_def)
  then have "\<not> truthy (num OpLt (show_nat (lk_expiry_ms v)) (show_nat now))"
    using assms(3) by (simp add: num_decimal decimal_test_def)
  then show ?thesis using assms(2) by (simp add: eval_acquire [OF assms(4)] encode_expiry)
qed

lemma acquire_either:
  "list_all plain_char new \<Longrightarrow>
     expand opts (acquire_value now new) = new \<or> expand opts (acquire_value now new) = opt_value opts OPT_ACTION"
  by (simp add: eval_acquire)

lemma outcome_carries:
  assumes "acquire_outcome v (get opts) = Acquired v'"
  shows "carries (opt_value opts OPT_ACTION) (lk_nonce v) \<and> v' = v"
proof (cases "get opts")
  case None
  then show ?thesis using assms by (simp add: acquire_outcome_def)
next
  case (Some r)
  show ?thesis
  proof (cases "lock_parse r")
    case None
    then show ?thesis using assms Some by (simp add: acquire_outcome_def)
  next
    case held: (Some held)
    have same: "lk_nonce held = lk_nonce v" "v' = v"
      using assms Some held by (simp_all add: acquire_outcome_def split: if_splits)
    have "sublist (CHR '':'' # lk_nonce v @ '':'') r" using parse_carries [OF held] same(1) by simp
    from sublist_order.order.trans [OF this get_part [OF Some]] show ?thesis using same(2) by simp
  qed
qed

lemma encode_visible: "lock_value_ok v \<Longrightarrow> list_all visible (lock_encode v)"
  using show_nat_digits [of "lk_expiry_ms v"] show_nat_digits [of "lk_pid v"]
  by (auto simp: lock_encode_def lock_value_ok_def nonce_ok_def nonce_char_def is_safe_token_def is_ascii_lower_def
      visible_def is_digit_def byte_def list_all_iff)

end

section \<open>Clients\<close>

text \<open>
  Where a client is in the protocol: it has passed the pre-check at a clock reading and drawn its value,
  has written it, holds it, has rewritten it. A client may stop at any point without clearing.
\<close>

datatype lock_phase =
  LIdle | LReady u64 lock_value | LWritten lock_value | LHeld lock_value | LRewritten lock_value

record lock_world =
  lw_options :: options
  lw_now :: u64
  lw_drawn :: "string set"
  lw_phase :: "nat \<Rightarrow> lock_phase"

definition lw_action :: "lock_world \<Rightarrow> string" where
  "lw_action w = opt_value (lw_options w) OPT_ACTION"

definition lw_set :: "string \<Rightarrow> nat \<Rightarrow> lock_phase \<Rightarrow> lock_world \<Rightarrow> lock_world" where
  "lw_set text i phase w =
     w\<lparr>lw_options := (lw_options w)(OPT_ACTION \<mapsto> text), lw_phase := (lw_phase w)(i := phase)\<rparr>"

definition lw_become :: "nat \<Rightarrow> lock_phase \<Rightarrow> lock_world \<Rightarrow> lock_world" where
  "lw_become i phase w = w\<lparr>lw_phase := (lw_phase w)(i := phase)\<rparr>"

text \<open>
  The steps, each one call of a client: the writes set the option to the expansion of the text the
  client sends, the reads decide as the source does. A nonce is fresh: never drawn before and not in
  the option.
\<close>

inductive lock_step ::
  "(options \<Rightarrow> string \<Rightarrow> string) \<Rightarrow> (options \<Rightarrow> string option) \<Rightarrow> (nat \<Rightarrow> bool) \<Rightarrow> lock_world \<Rightarrow> lock_world \<Rightarrow> bool"
  for expand get exists where
  lock_tick: "lw_now w \<le> t \<Longrightarrow> lock_step expand get exists w (w\<lparr>lw_now := t\<rparr>)"
| lock_draw: "lw_phase w i = LIdle \<Longrightarrow> t \<le> lw_now w \<Longrightarrow> \<not> held_alive exists (get (lw_options w)) t \<Longrightarrow>
    lock_value_ok v \<Longrightarrow> lk_nonce v \<notin> lw_drawn w \<Longrightarrow> \<not> carries (lw_action w) (lk_nonce v) \<Longrightarrow>
    lock_step expand get exists w ((lw_become i (LReady t v) w)\<lparr>lw_drawn := insert (lk_nonce v) (lw_drawn w)\<rparr>)"
| lock_write: "lw_phase w i = LReady t v \<Longrightarrow>
    lock_step expand get exists w
      (lw_set (expand (lw_options w) (acquire_value t (lock_encode v))) i (LWritten v) w)"
| lock_read: "lw_phase w i = LWritten v \<Longrightarrow>
    lock_step expand get exists w
      (lw_become i (case acquire_outcome v (get (lw_options w)) of Acquired v' \<Rightarrow> LHeld v' | Contended \<Rightarrow> LIdle) w)"
| lock_release: "lw_phase w i = LHeld v \<Longrightarrow>
    lock_step expand get exists w
      (lw_set (expand (lw_options w) (nonce_conditional_value (lk_nonce v) [])) i LIdle w)"
| lock_handoff: "lw_phase w i = LHeld v \<Longrightarrow> lock_value_ok v' \<Longrightarrow> lk_nonce v' = lk_nonce v \<Longrightarrow>
    lock_step expand get exists w
      (lw_set (expand (lw_options w) (nonce_conditional_value (lk_nonce v) (lock_encode v'))) i (LRewritten v') w)"
| lock_confirm: "lw_phase w i = LRewritten v \<Longrightarrow>
    lock_step expand get exists w
      (lw_become i (if get (lw_options w) = Some (lock_encode v) then LHeld v else LIdle) w)"
| lock_quit: "lock_step expand get exists w (lw_become i LIdle w)"

inductive lock_reach ::
  "(options \<Rightarrow> string \<Rightarrow> string) \<Rightarrow> (options \<Rightarrow> string option) \<Rightarrow> (nat \<Rightarrow> bool) \<Rightarrow> lock_world \<Rightarrow> bool"
  for expand get exists where
  lock_start: "\<forall>i. lw_phase w i = LIdle \<Longrightarrow> lock_reach expand get exists w"
| lock_next: "lock_reach expand get exists w \<Longrightarrow> lock_step expand get exists w w' \<Longrightarrow> lock_reach expand get exists w'"

section \<open>The invariant\<close>

fun phase_value :: "lock_phase \<Rightarrow> lock_value option" where
  "phase_value LIdle = None"
| "phase_value (LReady _ v) = Some v"
| "phase_value (LWritten v) = Some v"
| "phase_value (LHeld v) = Some v"
| "phase_value (LRewritten v) = Some v"

text \<open>What the stored text says about a client in its phase: it carries the client's nonce only as the client's own text.\<close>

definition marked :: "string \<Rightarrow> lock_value \<Rightarrow> bool" where
  "marked stored v = (carries stored (lk_nonce v) \<longrightarrow> stored = lock_encode v)"

lemma markedI: "stored = lock_encode v \<or> \<not> carries stored (lk_nonce v) \<Longrightarrow> marked stored v"
  by (auto simp: marked_def)

lemma marked_own [simp]: "marked (lock_encode v) v"
  by (simp add: marked_def)

lemma markedD: "marked stored v \<Longrightarrow> carries stored (lk_nonce v) \<Longrightarrow> stored = lock_encode v"
  by (simp add: marked_def)

fun phase_ok :: "string \<Rightarrow> u64 \<Rightarrow> lock_phase \<Rightarrow> bool" where
  "phase_ok stored now LIdle = True"
| "phase_ok stored now (LReady t v) = (\<not> carries stored (lk_nonce v) \<and> t \<le> now)"
| "phase_ok stored now (LWritten v) = marked stored v"
| "phase_ok stored now (LHeld v) =
     (marked stored v \<and> (now \<le> lk_expiry_ms v \<longrightarrow> stored = lock_encode v))"
| "phase_ok stored now (LRewritten v) = marked stored v"

definition lock_inv :: "lock_world \<Rightarrow> bool" where
  "lock_inv w =
     ((\<forall>i. phase_ok (lw_action w) (lw_now w) (lw_phase w i))
      \<and> (\<forall>i v. phase_value (lw_phase w i) = Some v \<longrightarrow> lock_value_ok v \<and> lk_nonce v \<in> lw_drawn w)
      \<and> (\<forall>i j v v'. i \<noteq> j \<and> phase_value (lw_phase w i) = Some v \<and> phase_value (lw_phase w j) = Some v'
            \<longrightarrow> lk_nonce v \<noteq> lk_nonce v'))"

lemma lock_invI:
  assumes "\<And>i. phase_ok (lw_action w) (lw_now w) (lw_phase w i)"
    and "\<And>i v. phase_value (lw_phase w i) = Some v \<Longrightarrow> lock_value_ok v \<and> lk_nonce v \<in> lw_drawn w"
    and "\<And>i j v v'. i \<noteq> j \<Longrightarrow> phase_value (lw_phase w i) = Some v \<Longrightarrow> phase_value (lw_phase w j) = Some v'
        \<Longrightarrow> lk_nonce v \<noteq> lk_nonce v'"
  shows "lock_inv w"
  using assms unfolding lock_inv_def by blast

lemma lock_invD:
  assumes "lock_inv w"
  shows "phase_ok (lw_action w) (lw_now w) (lw_phase w i)"
    and "phase_value (lw_phase w i) = Some v \<Longrightarrow> lock_value_ok v"
    and "phase_value (lw_phase w i) = Some v \<Longrightarrow> lk_nonce v \<in> lw_drawn w"
    and "i \<noteq> j \<Longrightarrow> phase_value (lw_phase w i) = Some v \<Longrightarrow> phase_value (lw_phase w j) = Some v' \<Longrightarrow> lk_nonce v \<noteq> lk_nonce v'"
  using assms unfolding lock_inv_def by blast+

lemma lw_simps [simp]:
  "lw_action (lw_set text i p w) = text" "lw_now (lw_set text i p w) = lw_now w" "lw_drawn (lw_set text i p w) = lw_drawn w"
  "lw_phase (lw_set text i p w) = (lw_phase w)(i := p)"
  "lw_action (lw_become i p w) = lw_action w" "lw_now (lw_become i p w) = lw_now w"
  "lw_drawn (lw_become i p w) = lw_drawn w" "lw_phase (lw_become i p w) = (lw_phase w)(i := p)"
  "lw_action (w\<lparr>lw_drawn := d\<rparr>) = lw_action w" "lw_action (w\<lparr>lw_now := t\<rparr>) = lw_action w"
  by (simp_all add: lw_set_def lw_become_def lw_action_def opt_value_def)

text \<open>A client changes its own phase and writes; the others must not be hurt.\<close>

lemma inv_set:
  assumes "lock_inv w" and "phase_ok text (lw_now w) p"
    and p: "\<And>v. phase_value p = Some v \<Longrightarrow> lock_value_ok v
        \<and> (\<exists>v0. phase_value (lw_phase w i) = Some v0 \<and> lk_nonce v0 = lk_nonce v)"
    and "\<And>j. j \<noteq> i \<Longrightarrow> phase_ok text (lw_now w) (lw_phase w j)"
  shows "lock_inv (lw_set text i p w)"
proof (rule lock_invI)
  show "phase_ok (lw_action (lw_set text i p w)) (lw_now (lw_set text i p w)) (lw_phase (lw_set text i p w) j)" for j
    using assms(2,4) by simp
  show "lock_value_ok v \<and> lk_nonce v \<in> lw_drawn (lw_set text i p w)"
    if "phase_value (lw_phase (lw_set text i p w) j) = Some v" for j v
    using that p lock_invD(2,3) [OF assms(1)] by (auto split: if_splits) metis
  show "lk_nonce v \<noteq> lk_nonce v'" if "a \<noteq> b" "phase_value (lw_phase (lw_set text i p w) a) = Some v"
    "phase_value (lw_phase (lw_set text i p w) b) = Some v'" for a b v v'
    using that p lock_invD(4) [OF assms(1)] by (auto split: if_splits) metis+
qed

lemma inv_become:
  assumes "lock_inv w" and "phase_ok (lw_action w) (lw_now w) p"
    and "\<And>v. phase_value p = Some v \<Longrightarrow> lock_value_ok v
        \<and> (\<exists>v0. phase_value (lw_phase w i) = Some v0 \<and> lk_nonce v0 = lk_nonce v)"
  shows "lock_inv (lw_become i p w)"
proof -
  have "lock_inv (lw_set (lw_action w) i p w)"
    using assms lock_invD(1) [OF assms(1)] by (intro inv_set) auto
  then show ?thesis by (simp add: lock_inv_def)
qed

lemma other_ok:
  assumes "phase_ok stored now p"
    and "\<And>u. phase_value p = Some u \<Longrightarrow> text = stored \<or> \<not> carries text (lk_nonce u)"
    and "\<And>u. p = LHeld u \<Longrightarrow> now \<le> lk_expiry_ms u \<Longrightarrow> text = stored"
  shows "phase_ok text now p"
proof -
  have "marked text u" if "phase_value p = Some u" "marked stored u" for u
    using assms(2) [OF that(1)] that(2) by (auto intro: markedI)
  then show ?thesis using assms by (cases p) (auto simp del: test_value.simps)
qed

lemma nothing_carried [simp]: "\<not> carries [] n"
  by (simp add: sublist_def)

context lock_server
begin

lemma step_write:
  assumes "lock_inv w" and i: "lw_phase w i = LReady t v"
  shows "lock_inv (lw_set (expand (lw_options w) (acquire_value t (lock_encode v))) i (LWritten v) w)"
proof -
  let ?text = "expand (lw_options w) (acquire_value t (lock_encode v))"
  have v: "lock_value_ok v" and t: "t \<le> lw_now w" and free: "\<not> carries (lw_action w) (lk_nonce v)"
    using lock_invD(1) [OF assms(1), of i] lock_invD(2) [OF assms(1), of i v] i by simp_all
  note either = acquire_either [OF encode_plain [OF v], of "lw_options w" t, folded lw_action_def]
  show ?thesis
  proof (rule inv_set [OF assms(1)])
    show "phase_ok ?text (lw_now w) (LWritten v)" unfolding phase_ok.simps
      by (rule markedI) (use either free in metis)
    show "lock_value_ok u \<and> (\<exists>v0. phase_value (lw_phase w i) = Some v0 \<and> lk_nonce v0 = lk_nonce u)"
      if "phase_value (LWritten v) = Some u" for u using that v i by simp
    fix j assume j: "j \<noteq> i"
    show "phase_ok ?text (lw_now w) (lw_phase w j)"
    proof (rule other_ok [OF lock_invD(1) [OF assms(1)]])
      fix u assume u: "phase_value (lw_phase w j) = Some u"
      have "\<not> carries (lock_encode v) (lk_nonce u)"
        using carries_encode [OF v] lock_invD(2) [OF assms(1) u] lock_invD(4) [OF assms(1) j u, of v] i
        by (simp add: lock_value_ok_def)
      then show "?text = lw_action w \<or> \<not> carries ?text (lk_nonce u)" using either by metis
    next
      fix u assume u: "lw_phase w j = LHeld u" "lw_now w \<le> lk_expiry_ms u"
      then have "lw_action w = lock_encode u" "lock_value_ok u"
        using lock_invD(1,2) [OF assms(1), of j] by simp_all
      then show "?text = lw_action w"
        using acquire_live [of u "lw_options w" t] t u(2) encode_plain [OF v] by (simp add: lw_action_def)
    qed
  qed
qed

lemma step_nonce:
  assumes "lock_inv w" and i: "lw_phase w i = LHeld v" and "list_all plain_char text"
    and mark: "\<And>n. nonce_ok n \<Longrightarrow> carries text n \<Longrightarrow> n = lk_nonce v"
    and p: "phase_ok text (lw_now w) p" "\<And>stored. \<not> carries stored (lk_nonce v) \<Longrightarrow> phase_ok stored (lw_now w) p"
      "\<And>u. phase_value p = Some u \<Longrightarrow> lock_value_ok u \<and> lk_nonce u = lk_nonce v"
  shows "lock_inv (lw_set (expand (lw_options w) (nonce_conditional_value (lk_nonce v) text)) i p w)"
proof -
  have v: "lock_value_ok v" using lock_invD(2) [OF assms(1), of i v] i by simp
  then have n: "nonce_ok (lk_nonce v)" by (simp add: lock_value_ok_def)
  note result = eval_nonce [OF n assms(3), of "lw_options w", folded lw_action_def]
  show ?thesis
    unfolding result
  proof (rule inv_set [OF assms(1)])
    show "phase_ok (if carries (lw_action w) (lk_nonce v) then text else lw_action w) (lw_now w) p" using p(1,2) by simp
    show "lock_value_ok u \<and> (\<exists>v0. phase_value (lw_phase w i) = Some v0 \<and> lk_nonce v0 = lk_nonce u)"
      if "phase_value p = Some u" for u using p(3) [OF that] i by simp
    fix j assume j: "j \<noteq> i"
    have differ: "lock_value_ok u \<and> lk_nonce u \<noteq> lk_nonce v" if "phase_value (lw_phase w j) = Some u" for u
      using lock_invD(2) [OF assms(1) that] lock_invD(4) [OF assms(1) j that, of v] i by simp
    show "phase_ok (if carries (lw_action w) (lk_nonce v) then text else lw_action w) (lw_now w) (lw_phase w j)"
    proof (rule other_ok [OF lock_invD(1) [OF assms(1)]])
      fix u assume u: "phase_value (lw_phase w j) = Some u"
      then have "\<not> carries text (lk_nonce u)" using differ [OF u] mark by (auto simp: lock_value_ok_def)
      then show "(if carries (lw_action w) (lk_nonce v) then text else lw_action w) = lw_action w
          \<or> \<not> carries (if carries (lw_action w) (lk_nonce v) then text else lw_action w) (lk_nonce u)" by simp
    next
      fix u assume u: "lw_phase w j = LHeld u" "lw_now w \<le> lk_expiry_ms u"
      then have "lw_action w = lock_encode u" using lock_invD(1) [OF assms(1), of j] by simp
      moreover have "\<not> carries (lock_encode u) (lk_nonce v)" using carries_encode [of u, OF _ n] differ [of u] u(1) by auto
      ultimately show "(if carries (lw_action w) (lk_nonce v) then text else lw_action w) = lw_action w" by simp
    qed
  qed
qed

lemma step_inv:
  assumes "lock_step expand get exists w w'" and "lock_inv w"
  shows "lock_inv w'"
  using assms(1)
proof cases
  case (lock_tick t)
  have "phase_ok (lw_action w) t p" if "phase_ok (lw_action w) (lw_now w) p" for p
    using that lock_tick(2) by (cases p) auto
  then show ?thesis
    using lock_invD [OF assms(2)] by (intro lock_invI) (simp_all add: lock_tick(1))
next
  case (lock_draw i t v)
  have others: "lk_nonce u \<noteq> lk_nonce v" if "phase_value (lw_phase w j) = Some u" for j u
    using lock_invD(3) [OF assms(2) that] lock_draw(6) by auto
  show ?thesis
    unfolding lock_draw(1)
  proof (rule lock_invI, goal_cases)
    case (1 j)
    then show ?case using lock_invD(1) [OF assms(2), of j] lock_draw by simp
  next
    case (2 j u)
    then show ?case using lock_invD(2,3) [OF assms(2), of j u] lock_draw by (auto split: if_splits)
  next
    case (3 j k u u')
    then show ?case
      using lock_invD(4) [OF assms(2) 3(1), of u u'] others [of j u] others [of k u'] by (auto split: if_splits)
  qed
next
  case (lock_write i t v)
  then show ?thesis using step_write [OF assms(2)] by simp
next
  case (lock_read i v)
  then have v: "lock_value_ok v" "marked (lw_action w) v"
    using lock_invD(1,2) [OF assms(2), of i] by simp_all
  show ?thesis
  proof (cases "acquire_outcome v (get (lw_options w))")
    case (Acquired v')
    then have "lw_action w = lock_encode v" "v' = v"
      using outcome_carries [OF Acquired] markedD [OF v(2)] by (simp_all add: lw_action_def)
    then show ?thesis
      using lock_read v Acquired by (auto intro!: inv_become [OF assms(2)])
  next
    case Contended
    then show ?thesis using lock_read by (auto intro!: inv_become [OF assms(2)])
  qed
next
  case (lock_release i v)
  show ?thesis
    unfolding lock_release(1) by (rule step_nonce [OF assms(2) lock_release(2)]) simp_all
next
  case (lock_handoff i v v')
  show ?thesis
    unfolding lock_handoff(1)
    by (rule step_nonce [OF assms(2) lock_handoff(2)])
      (use lock_handoff carries_encode [OF lock_handoff(3)] in \<open>auto simp: encode_plain intro: markedI\<close>)
next
  case (lock_confirm i v)
  then have v: "lock_value_ok v" "marked (lw_action w) v"
    using lock_invD(1,2) [OF assms(2), of i] by simp_all
  have "lw_action w = lock_encode v" if "get (lw_options w) = Some (lock_encode v)"
  proof -
    have "carries (lock_encode v) (lk_nonce v)" using carries_encode v(1) by (simp add: lock_value_ok_def)
    then have "carries (lw_action w) (lk_nonce v)"
      using sublist_order.order.trans [OF _ get_part [OF that]] by (simp add: lw_action_def)
    then show ?thesis by (rule markedD [OF v(2)])
  qed
  then show ?thesis
    using lock_confirm v by (auto intro!: inv_become [OF assms(2)])
next
  case (lock_quit i)
  then show ?thesis by (auto intro!: inv_become [OF assms(2)])
qed

lemma reach_inv: "lock_reach expand get exists w \<Longrightarrow> lock_inv w"
proof (induction rule: lock_reach.induct)
  case (lock_start w)
  then show ?case by (intro lock_invI) simp_all
qed (rule step_inv)

lemma exclusive:
  assumes "lock_reach expand get exists w" and "lw_phase w i = LHeld v" and "lw_now w \<le> lk_expiry_ms v"
  shows "opt_value (lw_options w) OPT_ACTION = lock_encode v
    \<and> (\<forall>j u. lw_phase w j = LHeld u \<and> lw_now w \<le> lk_expiry_ms u \<longrightarrow> j = i)"
proof -
  note inv = reach_inv [OF assms(1)]
  have stored: "lw_action w = lock_encode u" if "lw_phase w j = LHeld u" "lw_now w \<le> lk_expiry_ms u" for j u
    using lock_invD(1) [OF inv, of j] that by simp
  have "j = i" if "lw_phase w j = LHeld u" "lw_now w \<le> lk_expiry_ms u" for j u
  proof (rule ccontr)
    assume "j \<noteq> i"
    then have "lk_nonce u \<noteq> lk_nonce v" using lock_invD(4) [OF inv, of j i u v] that assms(2) by simp
    moreover have "carries (lock_encode v) (lk_nonce u)" if "lock_encode u = lock_encode v"
      using carries_encode [of u "lk_nonce u"] lock_invD(2) [OF inv, of j u] that \<open>lw_phase w j = LHeld u\<close>
      by (simp add: lock_value_ok_def)
    ultimately show False
      using stored [OF that] stored [OF assms(2,3)] carries_encode [of v "lk_nonce u"]
        lock_invD(2) [OF inv, of i v] lock_invD(2) [OF inv, of j u] that(1) assms(2)
      by (simp add: lock_value_ok_def)
  qed
  then show ?thesis using stored [OF assms(2,3)] by (auto simp: lw_action_def)
qed

end

section \<open>The server of the model\<close>

lemma trim_text_part: "sublist (trim_text s) s"
proof -
  have "sublist (take n (drop k s)) s" for n k
    using sublist_order.order.trans [OF sublist_take sublist_drop] .
  then show ?thesis by (simp add: trim_text_def Let_def)
qed

lemma trim_text_visible:
  assumes "list_all visible v"
  shows "trim_text v = v"
proof -
  have "list_all (\<lambda>c. byte c < 128) v" using assms by (auto simp: visible_def list_all_iff)
  then have chars: "chars v = map byte v" by (simp add: chars_def utf8_decode_ascii)
  have "\<not> char_is_whitespace (byte c)" if "c \<in> set v" for c
    using assms that by (auto simp: visible_def char_is_whitespace_def list_all_iff)
  then have none: "takeWhile char_is_whitespace (map byte xs) = []" "dropWhile char_is_whitespace (map byte xs) = map byte xs"
    if "set xs \<subseteq> set v" for xs
    using that by (cases xs; auto)+
  show ?thesis
    using none [of v] none(1) [of "rev v"] by (simp add: trim_text_def trim_start_def chars Let_def rev_map)
qed

interpretation tmux_lock: lock_server expand_format decimal_test stored_action
proof
  fix opts r assume "stored_action opts = Some r"
  then show "sublist r (opt_value opts OPT_ACTION)"
    using trim_text_part [of "opt_value opts OPT_ACTION"]
    by (simp add: stored_action_def trimmed_option_def Let_def split: if_splits)
next
  fix opts v assume "opt_value opts OPT_ACTION = v" "v \<noteq> []" "list_all visible v"
  then show "stored_action opts = Some v"
    by (simp add: stored_action_def trimmed_option_def trim_text_visible)
next
  fix opts assume "opt_value opts OPT_ACTION = []"
  then show "stored_action opts = None"
    by (simp add: stored_action_def trimmed_option_def trim_text_def Let_def)
qed

section \<open>One client alone\<close>

text \<open>A handle on a server whose panes nobody else writes, with the random bytes it will draw.\<close>

definition run_set :: "(options \<Rightarrow> string \<Rightarrow> string) \<Rightarrow> options \<Rightarrow> stamp_command \<Rightarrow> options" where
  "run_set expand opts cmd =
     (case sc_argv cmd of
        [_, _, _, _, _, key, value] \<Rightarrow> opts(key \<mapsto> expand opts value)
      | _ \<Rightarrow> opts)"

definition lone_lock ::
  "(options \<Rightarrow> string \<Rightarrow> string) \<Rightarrow> (options \<Rightarrow> string option) \<Rightarrow> nat list \<Rightarrow> (nat \<Rightarrow> bool) \<Rightarrow> (options, unit) lock_tmux" where
  "lone_lock expand get bytes exists =
     \<lparr>lt_get = (\<lambda>_ _ opts. (Inr (get opts), opts)),
      lt_apply = (\<lambda>cmds opts. (Inr (), foldl (run_set expand) opts cmds)),
      lt_random = (\<lambda>opts. (Some bytes, opts)),
      lt_exists = exists\<rparr>"

lemma lone_simps [simp]:
  "lt_get (lone_lock expand get bytes exists) pane key opts = (Inr (get opts), opts)"
  "lt_apply (lone_lock expand get bytes exists) [set_action_guarded pane value] opts
     = (Inr (), opts(OPT_ACTION \<mapsto> expand opts value))"
  "lt_random (lone_lock expand get bytes exists) opts = (Some bytes, opts)"
  "lt_exists (lone_lock expand get bytes exists) = exists"
  by (simp_all add: lone_lock_def run_set_def set_action_guarded_def argv_def)

text \<open>When the lock may be taken: it is free, or it expired and its holder is gone.\<close>

definition takeable :: "(nat \<Rightarrow> bool) \<Rightarrow> u64 \<Rightarrow> lock_value option \<Rightarrow> bool" where
  "takeable exists now held =
     (case held of None \<Rightarrow> True | Some u \<Rightarrow> lk_expiry_ms u < now \<and> \<not> pid_alive exists (lk_pid u))"

definition holder_text :: "lock_value option \<Rightarrow> string" where
  "holder_text held = (case held of None \<Rightarrow> [] | Some u \<Rightarrow> lock_encode u)"

context lock_server
begin

lemma get_encoded: "lock_value_ok v \<Longrightarrow> opt_value opts OPT_ACTION = lock_encode v \<Longrightarrow> get opts = Some (lock_encode v)"
  by (rule get_stored) (simp_all add: encode_visible)

lemma acquire_taken:
  assumes "lock_value_ok v" and "now \<le> 2 ^ 53"
    and live: "\<And>u. held = Some u \<Longrightarrow> lock_value_ok u \<and> lk_expiry_ms u < now" and "opt_value opts OPT_ACTION = holder_text held"
  shows "expand opts (acquire_value now (lock_encode v)) = lock_encode v"
proof (cases held)
  case (Some u)
  then have "number_operand (show_nat (lk_expiry_ms u))" "number_operand (show_nat now)" "lk_expiry_ms u < now"
    using assms(2) live [OF Some] by (simp_all add: number_operand_def lock_value_ok_def)
  then have "truthy (num OpLt (show_nat (lk_expiry_ms u)) (show_nat now))"
    by (simp add: num_decimal decimal_test_def)
  then show ?thesis
    using assms(4) Some by (simp add: eval_acquire [OF encode_plain [OF assms(1)]] encode_expiry holder_text_def)
qed (use assms(1,4) in \<open>simp add: eval_acquire encode_plain holder_text_def\<close>)

lemma lone_alive:
  assumes stored: "opt_value opts OPT_ACTION = holder_text held" and u: "\<And>u. held = Some u \<Longrightarrow> lock_value_ok u"
  shows "held_alive exists (get opts) now = (\<exists>u. held = Some u \<and> lk_expiry_ms u < now \<and> pid_alive exists (lk_pid u))"
proof (cases held)
  case None
  then show ?thesis using stored by (simp add: held_alive_def holder_text_def get_empty)
next
  case (Some w)
  then have "get opts = Some (lock_encode w)" "lock_parse (lock_encode w) = Some w"
    using u [OF Some] stored get_encoded parse_encode by (simp_all add: holder_text_def)
  then show ?thesis using Some by (simp add: held_alive_def)
qed

lemma lone_acquire:
  assumes drawn: "v = \<lparr>lk_expiry_ms = expiry, lk_nonce = nonce_of_bytes bytes, lk_pid = pid, lk_name = name\<rparr>"
    and v: "lock_value_ok v" and now: "now \<le> 2 ^ 53" and stored: "opt_value opts OPT_ACTION = holder_text held"
    and u: "\<And>u. held = Some u \<Longrightarrow> lock_value_ok u \<and> lk_nonce u \<noteq> lk_nonce v"
  shows "lock_acquire (lone_lock expand get bytes exists) pane now expiry pid name opts =
    (if takeable exists now held then (Inr (Acquired v), opts(OPT_ACTION \<mapsto> lock_encode v)) else (Inr Contended, opts))"
proof -
  let ?handle = "lone_lock expand get bytes exists"
  have alive: "held_alive exists (get opts) now = (\<exists>u. held = Some u \<and> lk_expiry_ms u < now \<and> pid_alive exists (lk_pid u))"
    using u by (intro lone_alive [OF stored]) simp
  show ?thesis
  proof (cases "takeable exists now held")
    case True
    then have free: "\<not> held_alive exists (get opts) now" unfolding alive by (auto simp: takeable_def)
    have "expand opts (acquire_value now (lock_encode v)) = lock_encode v"
      using True u by (intro acquire_taken [OF v now _ stored]) (auto simp: takeable_def)
    moreover have "get (opts(OPT_ACTION \<mapsto> lock_encode v)) = Some (lock_encode v)"
      by (rule get_encoded [OF v]) (simp add: opt_value_def)
    ultimately have "acquire_write ?handle pane now v opts = (Inr (Acquired v), opts(OPT_ACTION \<mapsto> lock_encode v))"
      by (simp add: acquire_write_def acquire_outcome_def parse_encode [OF v])
    then show ?thesis using free True by (simp add: lock_acquire_def drawn [symmetric])
  next
    case False
    then obtain w where held: "held = Some w" by (auto simp: takeable_def split: option.splits)
    note w = u [OF held]
    show ?thesis
    proof (cases "held_alive exists (get opts) now")
      case True
      then show ?thesis using False by (simp add: lock_acquire_def)
    next
      case free: False
      then have "now \<le> lk_expiry_ms w" using False held unfolding alive by (auto simp: takeable_def)
      then have "expand opts (acquire_value now (lock_encode v)) = lock_encode w"
        using w stored held by (intro acquire_live) (simp_all add: holder_text_def encode_plain [OF v])
      moreover have "opts(OPT_ACTION \<mapsto> lock_encode w) = opts"
        using stored held by (auto simp: holder_text_def opt_value_def fun_eq_iff split: option.splits)
      ultimately have "acquire_write ?handle pane now v opts = (Inr Contended, opts)"
        using w stored held get_encoded [of w opts]
        by (simp add: acquire_write_def acquire_outcome_def parse_encode holder_text_def)
      then show ?thesis using free False by (simp add: lock_acquire_def drawn [symmetric])
    qed
  qed
qed

end

section \<open>Properties\<close>

text \<open>C25 (lock_exclusive). Single flight: whatever clients did to a pane's lock, in any interleaving of their reads and
  writes, a client that holds it and whose expiry has not passed is the only such client, and the option is its value.\<close>

theorem lock_exclusive:
  assumes "lock_server expand num get" and "lock_reach expand get exists w"
    and "lw_phase w i = LHeld v" and "lw_now w \<le> lk_expiry_ms v"
  shows "opt_value (lw_options w) OPT_ACTION = lock_encode v
    \<and> (\<forall>j u. lw_phase w j = LHeld u \<and> lw_now w \<le> lk_expiry_ms u \<longrightarrow> j = i)"
  by (rule lock_server.exclusive [OF assms])

text \<open>C26 (lock_acquire_decides). A client alone on the server takes a lock that is free, or that expired with its holder
  gone, and is refused every other; refused, it changes nothing.\<close>

theorem lock_acquire_decides:
  assumes "lock_server expand num get"
    and "v = \<lparr>lk_expiry_ms = expiry, lk_nonce = nonce_of_bytes bytes, lk_pid = pid, lk_name = name\<rparr>"
    and "lock_value_ok v" and "now \<le> 2 ^ 53" and "opt_value opts OPT_ACTION = holder_text held"
    and "\<And>u. held = Some u \<Longrightarrow> lock_value_ok u \<and> lk_nonce u \<noteq> lk_nonce v"
  shows "lock_acquire (lone_lock expand get bytes exists) pane now expiry pid name opts =
    (if takeable exists now held then (Inr (Acquired v), opts(OPT_ACTION \<mapsto> lock_encode v)) else (Inr Contended, opts))"
  by (rule lock_server.lone_acquire [OF assms])

section \<open>Witnesses\<close>

text \<open>One client draws a value, writes and reads back on an empty option; a second is refused while it lives.\<close>

definition example_value :: "nat \<Rightarrow> lock_value" where
  "example_value k = \<lparr>lk_expiry_ms = 5000, lk_nonce = nonce_of_bytes (replicate 16 k), lk_pid = 7, lk_name = ''approve''\<rparr>"

lemma example_value_ok: "lock_value_ok (example_value 3)" "lock_value_ok (example_value 2)"
  by code_simp+

definition example_world :: lock_world where
  "example_world = \<lparr>lw_options = Map.empty, lw_now = 1000, lw_drawn = {}, lw_phase = (\<lambda>_. LIdle)\<rparr>"

definition example_held :: lock_world where
  "example_held =
     \<lparr>lw_options = Map.empty(OPT_ACTION \<mapsto> lock_encode (example_value 3)), lw_now = 1000,
      lw_drawn = {lk_nonce (example_value 3)}, lw_phase = (\<lambda>_. LIdle)(0 := LHeld (example_value 3))\<rparr>"

lemma example_reach: "lock_reach expand_format stored_action (\<lambda>_. True) example_held"
proof -
  let ?step = "lock_step expand_format stored_action (\<lambda>_. True)" and ?v = "example_value 3"
  define w1 where "w1 = (lw_become 0 (LReady 1000 ?v) example_world)\<lparr>lw_drawn := {lk_nonce ?v}\<rparr>"
  define w2 where "w2 = lw_set (lock_encode ?v) 0 (LWritten ?v) w1"
  have empty: "stored_action (lw_options example_world) = None" "lw_action example_world = []"
    by (simp_all add: example_world_def tmux_lock.get_empty opt_value_def lw_action_def)
  have "lock_reach expand_format stored_action (\<lambda>_. True) example_world"
    by (rule lock_start) (simp add: example_world_def)
  moreover have "?step example_world w1"
    unfolding w1_def
    using lock_draw [where w = example_world and i = 0 and t = 1000 and v = ?v and get = stored_action
        and exists = "\<lambda>_. True" and expand = expand_format] empty
    by (simp add: example_world_def held_alive_def example_value_ok)
  moreover have "?step w1 w2"
  proof -
    have "opt_value (lw_options w1) OPT_ACTION = []" by (simp add: w1_def example_world_def lw_become_def opt_value_def)
    then have "expand_format (lw_options w1) (acquire_value 1000 (lock_encode ?v)) = lock_encode ?v"
      by (simp add: tmux_lock.eval_acquire encode_plain example_value_ok)
    moreover have "lw_phase w1 0 = LReady 1000 ?v" by (simp add: w1_def lw_become_def)
    ultimately show ?thesis unfolding w2_def using lock_write by metis
  qed
  moreover have "?step w2 example_held"
  proof -
    have "stored_action (lw_options w2) = Some (lock_encode ?v)"
      by (rule tmux_lock.get_encoded) (simp_all add: w2_def lw_set_def opt_value_def example_value_ok)
    then have "acquire_outcome ?v (stored_action (lw_options w2)) = Acquired ?v"
      by (simp add: acquire_outcome_def parse_encode example_value_ok)
    moreover have "lw_phase w2 0 = LWritten ?v" by (simp add: w2_def lw_set_def)
    moreover have "lw_become 0 (LHeld ?v) w2 = example_held"
      by (simp add: example_held_def w2_def w1_def lw_set_def lw_become_def example_world_def fun_eq_iff)
    ultimately show ?thesis
      using lock_read [where w = w2 and i = 0 and v = ?v and get = stored_action and exists = "\<lambda>_. True" and expand = expand_format]
      by simp
  qed
  ultimately show ?thesis by (blast intro: lock_next)
qed

lemma lock_exclusive_witness:
  "opt_value (lw_options example_held) OPT_ACTION = lock_encode (example_value 3) \<and> lw_phase example_held 5 \<noteq> LHeld (example_value 3)"
  using lock_exclusive [OF tmux_lock.lock_server_axioms example_reach, of 0 "example_value 3"]
  by (auto simp: example_held_def example_value_def)

lemma lock_acquire_decides_witness:
  "lock_acquire (lone_lock expand_format stored_action (replicate 16 3) (\<lambda>_. False)) ''%1'' 6000 5000 7 ''approve''
     ((lw_options example_held)(OPT_ACTION \<mapsto> lock_encode (example_value 2)))
   = (Inr (Acquired (example_value 3)), lw_options example_held)"
proof -
  have differ: "lk_nonce (example_value 2) \<noteq> lk_nonce (example_value 3)" by code_simp
  show ?thesis
    using lock_acquire_decides [OF tmux_lock.lock_server_axioms, of "example_value 3" 5000 "replicate 16 3" 7 "''approve''"
        6000 "(lw_options example_held)(OPT_ACTION \<mapsto> lock_encode (example_value 2))" "Some (example_value 2)" "\<lambda>_. False" "''%1''"]
      differ example_value_ok
    by (simp add: example_value_def holder_text_def opt_value_def takeable_def pid_alive_def example_held_def)
qed

end
