(* ===== verification/Process_Facts.thy ===== *)
theory Process_Facts
  imports Core_Types Action
begin

text \<open>
  Facts about processes (\<open>tma-tmux/src/tmux/process.rs\<close>, \<open>tma-core/src/snapshot.rs\<close>): the identity of
  a process is its number and its kernel birth, a snapshot of the fleet keeps failures apart from
  absence, and the ancestry of an agent is a chain of such identities. Reading the kernel is a
  parameter, one answer per process number; the text Linux answers is parsed here.
\<close>

section \<open>Words of a text\<close>

text \<open>\<open>split_whitespace\<close>, on code points, and the UTF-8 of a word.\<close>

definition utf8_char :: "nat \<Rightarrow> string" where
  "utf8_char c =
     (if c < 128 then [char_of c]
      else if c < 2048 then [char_of (192 + c div 64), char_of (128 + c mod 64)]
      else if c < 65536 then [char_of (224 + c div 4096), char_of (128 + c div 64 mod 64), char_of (128 + c mod 64)]
      else [char_of (240 + c div 262144), char_of (128 + c div 4096 mod 64), char_of (128 + c div 64 mod 64),
            char_of (128 + c mod 64)])"

fun split_when :: "('a \<Rightarrow> bool) \<Rightarrow> 'a list \<Rightarrow> 'a list list" where
  "split_when p [] = [[]]"
| "split_when p (x # xs) =
     (if p x then [] # split_when p xs
      else case split_when p xs of [] \<Rightarrow> [[x]] | w # ws \<Rightarrow> (x # w) # ws)"

definition split_words :: "string \<Rightarrow> string list" where
  "split_words s =
     map (\<lambda>w. concat (map utf8_char w)) (filter (\<lambda>w. w \<noteq> []) (split_when char_is_whitespace (chars s)))"

fun find_map :: "('a \<Rightarrow> 'b option) \<Rightarrow> 'a list \<Rightarrow> 'b option" where
  "find_map f [] = None"
| "find_map f (x # xs) = (case f x of Some y \<Rightarrow> Some y | None \<Rightarrow> find_map f xs)"

section \<open>The name of a command\<close>

definition NIX_WRAPPED :: string where "NIX_WRAPPED = ''-wrapped''"

definition unwrap_nix :: "string \<Rightarrow> string" where
  "unwrap_nix base =
     (case strip_prefix ''.'' base of
        None \<Rightarrow> base
      | Some rest \<Rightarrow>
          (case option_filter (\<lambda>name. name \<noteq> [])
                  (find_map (\<lambda>n. strip_suffix (take n NIX_WRAPPED) rest) (rev [1..<Suc (length NIX_WRAPPED)])) of
             Some name \<Rightarrow> name
           | None \<Rightarrow> base))"

definition normalize_comm :: "string \<Rightarrow> string" where
  "normalize_comm comm =
     (let first = (case split_words comm of [] \<Rightarrow> comm | w # _ \<Rightarrow> w)
      in unwrap_nix (last (split_on (CHR ''/'') first)))"

section \<open>Snapshots\<close>

datatype process_unavailable =
  ProcessNotFound | ProcessPermissionDenied | ProcessUnsupported | ProcessMalformed | ProcessReadFailed

type_synonym process_reader = "u32 \<Rightarrow> process_unavailable + process_sample"

record process_snapshot =
  sn_processes :: "proc_info list"
  sn_births :: "u32 \<Rightarrow> (process_unavailable + process_birth) option"

definition empty_snapshot :: process_snapshot where
  "empty_snapshot = \<lparr>sn_processes = [], sn_births = Map.empty\<rparr>"

fun add_sample :: "u32 \<times> (process_unavailable + process_sample) \<Rightarrow> process_snapshot \<Rightarrow> process_snapshot" where
  "add_sample (pid, Inr sample) s =
     (if proc_pid (ps_info sample) = pid
      then s\<lparr>sn_births := (sn_births s)(pid \<mapsto> Inr (ps_birth sample)), sn_processes := sn_processes s @ [ps_info sample]\<rparr>
      else s\<lparr>sn_births := (sn_births s)(pid \<mapsto> Inl ProcessMalformed)\<rparr>)"
| "add_sample (pid, Inl reason) s = s\<lparr>sn_births := (sn_births s)(pid \<mapsto> Inl reason)\<rparr>"

definition from_samples :: "(u32 \<times> (process_unavailable + process_sample)) list \<Rightarrow> process_snapshot" where
  "from_samples samples = fold add_sample samples empty_snapshot"

definition snapshot_identity :: "process_snapshot \<Rightarrow> u32 \<Rightarrow> process_unavailable + process_identity" where
  "snapshot_identity s pid =
     map_sum id (\<lambda>birth. \<lparr>pi_pid = pid, pi_birth = birth\<rparr>)
       (case sn_births s pid of Some b \<Rightarrow> b | None \<Rightarrow> Inl ProcessNotFound)"

definition MAX_PROCESS_SAMPLES :: nat where "MAX_PROCESS_SAMPLES = 65536"

text \<open>\<open>program_processes\<close> on the process numbers the system enumerates.\<close>

definition program_processes :: "process_reader \<Rightarrow> u32 list \<Rightarrow> process_unavailable + process_snapshot" where
  "program_processes read enumerated =
     (let pids = sort (remdups enumerated) in
      if MAX_PROCESS_SAMPLES < length pids then Inl ProcessReadFailed
      else Inr (from_samples (map (\<lambda>pid. (pid, read pid)) pids)))"

section \<open>Chains\<close>

text \<open>The chain from the pane's root to the agent, read one process at a time; newest first in the
  source, which reverses it at the end.\<close>

fun chain_from ::
  "process_reader \<Rightarrow> u32 \<Rightarrow> nat \<Rightarrow> u32 \<Rightarrow> process_identity list \<Rightarrow> process_unavailable + process_identity list" where
  "chain_from read root 0 pid chain = Inl ProcessMalformed"
| "chain_from read root (Suc n) pid chain =
     (if pid = 0 \<or> root = 0 then Inl ProcessNotFound
      else if list_ex (\<lambda>p. pi_pid p = pid) chain then Inl ProcessMalformed
      else case read pid of
          Inl e \<Rightarrow> Inl e
        | Inr sample \<Rightarrow>
            (let chain1 = \<lparr>pi_pid = pid, pi_birth = ps_birth sample\<rparr> # chain in
             if pid = root then Inr chain1
             else chain_from read root n (proc_ppid (ps_info sample)) chain1))"

definition sample_process_chain :: "process_reader \<Rightarrow> u32 \<Rightarrow> u32 \<Rightarrow> process_unavailable + process_identity list" where
  "sample_process_chain read pane_pid agent_pid = chain_from read pane_pid 256 agent_pid []"

section \<open>What Linux answers\<close>

text \<open>\<open>parse::<i64>\<close>.\<close>

definition parse_i64 :: "string \<Rightarrow> int option" where
  "parse_i64 s =
     (case strip_prefix ''-'' s of
        Some digits \<Rightarrow>
          if digits \<noteq> [] \<and> list_all is_digit digits \<and> digits_val digits \<le> 2 ^ 63 then Some (- int (digits_val digits))
          else None
      | None \<Rightarrow> map_option int (parse_uint (2 ^ 63 - 1) s))"

definition nth_field :: "nat \<Rightarrow> string list \<Rightarrow> string option" where
  "nth_field i fs = (if i < length fs then Some (fs ! i) else None)"

definition foreground_group :: "int \<Rightarrow> u32 option" where
  "foreground_group tpgid = (if 0 < tpgid \<and> tpgid \<le> int u32_max then Some (nat tpgid) else None)"

text \<open>The numeric fields after the last parenthesis; a zombie is gone, whatever else it says.\<close>

definition stat_fields :: "u32 \<Rightarrow> string \<Rightarrow> string list \<Rightarrow> process_unavailable + process_sample" where
  "stat_fields pid comm fs =
     (let num = (\<lambda>i. Option.bind (nth_field i fs) (parse_uint u32_max)) in
      case (Option.bind (nth_field 5 fs) parse_i64, Option.bind (nth_field 19 fs) (parse_uint u64_max)) of
        (Some tpgid, Some ticks) \<Rightarrow>
          if is_none_or (nth_field 0 fs) (\<lambda>state. length state \<noteq> 1) then Inl ProcessMalformed
          else if fs ! 0 \<in> {''Z'', ''X'', ''x''} then Inl ProcessNotFound
          else (case (num 1, num 2) of
                  (Some ppid, Some pgid) \<Rightarrow>
                    Inr \<lparr>ps_info = \<lparr>proc_pid = pid, proc_ppid = ppid, proc_pgid = pgid,
                                    proc_tpgid = foreground_group tpgid, proc_comm = comm\<rparr>,
                         ps_birth = LinuxStartTicks ticks\<rparr>
                | _ \<Rightarrow> Inl ProcessMalformed)
      | _ \<Rightarrow> Inl ProcessMalformed)"

text \<open>\<open>split_once\<close> with the two-character separator, the first occurrence.\<close>

fun split_open :: "string \<Rightarrow> (string \<times> string) option" where
  "split_open (a # b # s) =
     (if a = CHR '' '' \<and> b = CHR ''('' then Some ([], s) else map_option (\<lambda>(x, y). (a # x, y)) (split_open (b # s)))"
| "split_open _ = None"

definition parse_linux_stat :: "u32 \<Rightarrow> string \<Rightarrow> process_unavailable + process_sample" where
  "parse_linux_stat pid stat =
     (case rsplit_once (CHR '')'') stat of
        None \<Rightarrow> Inl ProcessMalformed
      | Some (lead, rest) \<Rightarrow>
          (case split_open lead of
             None \<Rightarrow> Inl ProcessMalformed
           | Some (reported, comm) \<Rightarrow>
               if parse_uint u32_max reported \<noteq> Some pid \<or> comm = [] then Inl ProcessMalformed
               else stat_fields pid comm (split_words rest)))"

section \<open>Facts\<close>

lemma parse_stat_example:
  "parse_linux_stat 42 ''42 (a) b) S 7 42 7 34816 42 0 0 0 0 0 0 0 0 0 20 0 1 0 991 0'' =
     Inr \<lparr>ps_info = \<lparr>proc_pid = 42, proc_ppid = 7, proc_pgid = 42, proc_tpgid = Some 42, proc_comm = ''a) b''\<rparr>,
          ps_birth = LinuxStartTicks 991\<rparr>"
  by code_simp

lemma normalize_examples:
  "normalize_comm ''/usr/bin/node server.js'' = ''node''"
  "normalize_comm ''.opencode-wrapp'' = ''opencode''"
  "normalize_comm ''   '' = ''   ''"
  by code_simp+

lemma snapshot_identity_pid: "snapshot_identity s pid = Inr i \<Longrightarrow> pi_pid i = pid"
  by (cases "sn_births s pid"; cases "the (sn_births s pid)") (auto simp: snapshot_identity_def)

end
