(* ===== verification/Identity.thy ===== *)
theory Identity
  imports Process_Facts Engine Program_Store Pane_Io
begin

text \<open>
  Which agent owns a pane (\<open>tma-runtime/src/identity.rs\<close>): the walk of the pane's process tree, the
  carve-outs for remote shells and nested multiplexers, title narrowing with its anchor, and hook
  registrations. The regular expression matcher is a parameter, as in \<open>Engine\<close>.
\<close>

section \<open>Out of scope\<close>

definition REMOTE_SHELLS :: "string list" where
  "REMOTE_SHELLS = [''ssh'', ''mosh'', ''mosh-client'', ''docker'', ''podman'', ''kubectl'']"

definition MULTIPLEXERS :: "string list" where
  "MULTIPLEXERS = [''tmux'', ''zellij'', ''screen'', ''dvtm'', ''abduco'']"

datatype out_of_scope = RemoteShell string | Multiplexer string

fun scope_command :: "out_of_scope \<Rightarrow> string" where
  "scope_command (RemoteShell cmd) = cmd"
| "scope_command (Multiplexer cmd) = cmd"

fun scope_token :: "out_of_scope \<Rightarrow> string" where
  "scope_token (RemoteShell _) = ''remote_shell''"
| "scope_token (Multiplexer _) = ''nested_multiplexer''"

fun scope_label :: "out_of_scope \<Rightarrow> string" where
  "scope_label (RemoteShell cmd) = ''remote shell '' @ cmd"
| "scope_label (Multiplexer cmd) = ''nested multiplexer '' @ cmd"

definition scope_hint :: "out_of_scope \<Rightarrow> string" where
  "scope_hint s =
     (case s of
        RemoteShell _ \<Rightarrow> scope_label s @ '', out of scope''
      | Multiplexer _ \<Rightarrow>
          scope_label s @ '' '' @ utf8_char 8212 @ '' agent state lives on the inner server; run tma there'')"

definition out_of_scope_foreground :: "string \<Rightarrow> out_of_scope option" where
  "out_of_scope_foreground foreground =
     (case find (\<lambda>s. s = foreground) REMOTE_SHELLS of
        Some shell \<Rightarrow> Some (RemoteShell shell)
      | None \<Rightarrow> map_option Multiplexer (find (\<lambda>m. m = foreground) MULTIPLEXERS))"

definition program_out_of_scope :: "string \<Rightarrow> out_of_scope option" where
  "program_out_of_scope command = out_of_scope_foreground (normalize_comm command)"

section \<open>Identities\<close>

datatype identity_source = Observed | Registered

record registration =
  rg_agent_name :: string
  rg_session :: "string option"

record title_anchor =
  ta_agent :: string
  ta_pid :: u32

definition anchor_parse :: "string \<Rightarrow> title_anchor option" where
  "anchor_parse stored =
     (case rsplit_once (CHR '':'') stored of
        None \<Rightarrow> None
      | Some (agent, pid) \<Rightarrow>
          if agent = [] then None
          else map_option (\<lambda>n. \<lparr>ta_agent = agent, ta_pid = n\<rparr>) (parse_uint u32_max pid))"

definition anchor_render :: "title_anchor \<Rightarrow> string" where
  "anchor_render a = ta_agent a @ '':'' @ show_nat (ta_pid a)"

text \<open>A manifest with its name and its compiled rules (\<open>manifests.rs\<close>).\<close>

record 're loaded_manifest =
  lm_name :: string
  lm_manifest :: agent_manifest
  lm_engine :: "'re rule_engine"

definition program_status_apps :: "'re loaded_manifest \<Rightarrow> app_id list" where
  "program_status_apps lm =
     (let own = (case app_parse (lm_name lm) of Inr a \<Rightarrow> [a] | Inl _ \<Rightarrow> [])
      in case mf_program_status (lm_manifest lm) of
           None \<Rightarrow> own
         | Some declared \<Rightarrow> foldl (\<lambda>apps a. if a \<in> set apps then apps else apps @ [a]) own declared)"

record 're identified =
  if_manifest :: "'re loaded_manifest"
  if_agent_pid :: u32
  if_foreground_is_agent :: bool
  if_source :: identity_source
  if_title_anchor :: "title_anchor option"
  if_behind :: "out_of_scope option"

datatype 're pane_identity =
  AgentPane "'re identified" | RemotePane string | MultiplexerPane string | NoAgent

fun identity_out_of_scope :: "'re pane_identity \<Rightarrow> out_of_scope option" where
  "identity_out_of_scope (RemotePane cmd) = Some (RemoteShell cmd)"
| "identity_out_of_scope (MultiplexerPane cmd) = Some (Multiplexer cmd)"
| "identity_out_of_scope _ = None"

definition is_ignored :: "options \<Rightarrow> bool" where
  "is_ignored opts = is_some_and (opts OPT_IGNORE) (\<lambda>v. v \<noteq> [])"

section \<open>The pane's process tree\<close>

text \<open>The worklist of \<open>subtree\<close>; the frontier is a stack, here with its top first.\<close>

definition frontier_pushes :: "proc_info list \<Rightarrow> u32 \<Rightarrow> u32 list \<Rightarrow> u32 list" where
  "frontier_pushes procs pid seen =
     map proc_pid (filter (\<lambda>p. proc_ppid p = pid \<and> proc_pid p \<noteq> pid \<and> proc_pid p \<notin> set seen) procs)"

lemma frontier_pushes_pids: "set (frontier_pushes procs pid seen) \<subseteq> proc_pid ` set procs"
  by (auto simp: frontier_pushes_def)

function walk_tree :: "proc_info list \<Rightarrow> u32 list \<Rightarrow> u32 list \<Rightarrow> proc_info list \<Rightarrow> proc_info list" where
  "walk_tree procs [] seen out = out"
| "walk_tree procs (pid # frontier) seen out =
     (if pid \<in> set seen then walk_tree procs frontier seen out
      else walk_tree procs (rev (frontier_pushes procs pid (pid # seen)) @ frontier) (pid # seen)
             (out @ filter (\<lambda>p. proc_pid p = pid) procs))"
  by pat_completeness auto

termination
proof (relation "measures [\<lambda>(procs, frontier, seen, _). card ((set frontier \<union> proc_pid ` set procs) - set seen),
                           \<lambda>(_, frontier, _, _). length frontier]")
  fix procs out :: "proc_info list" and pid :: u32 and frontier seen :: "u32 list"
  assume "pid \<in> set seen"
  then have "set (pid # frontier) \<union> proc_pid ` set procs - set seen = set frontier \<union> proc_pid ` set procs - set seen"
    by auto
  then show "((procs, frontier, seen, out), procs, pid # frontier, seen, out)
      \<in> measures [\<lambda>(procs, frontier, seen, _). card ((set frontier \<union> proc_pid ` set procs) - set seen),
                  \<lambda>(_, frontier, _, _). length frontier]"
    by simp
next
  fix procs out :: "proc_info list" and pid :: u32 and frontier seen :: "u32 list"
  assume new: "pid \<notin> set seen"
  let ?pushed = "rev (frontier_pushes procs pid (pid # seen)) @ frontier"
  have "(set ?pushed \<union> proc_pid ` set procs) - set (pid # seen)
      \<subset> (set (pid # frontier) \<union> proc_pid ` set procs) - set seen"
    using new frontier_pushes_pids [of procs pid "pid # seen"] by auto
  then have "card ((set ?pushed \<union> proc_pid ` set procs) - set (pid # seen))
      < card ((set (pid # frontier) \<union> proc_pid ` set procs) - set seen)"
    by (intro psubset_card_mono) simp_all
  then show "((procs, ?pushed, pid # seen, out @ filter (\<lambda>p. proc_pid p = pid) procs), procs, pid # frontier, seen, out)
      \<in> measures [\<lambda>(procs, frontier, seen, _). card ((set frontier \<union> proc_pid ` set procs) - set seen),
                  \<lambda>(_, frontier, _, _). length frontier]"
    by simp
qed simp

definition subtree :: "u32 \<Rightarrow> proc_info list \<Rightarrow> proc_info list" where
  "subtree root procs = walk_tree procs [root] [] []"

section \<open>The agent's process\<close>

definition named :: "string list \<Rightarrow> proc_info \<Rightarrow> bool" where
  "named names p = list_ex (\<lambda>n. normalize_comm (proc_comm p) = n) names"

text \<open>The loop over the parents, bounded by the size of the tree.\<close>

fun ancestor_steps :: "nat \<Rightarrow> u32 \<Rightarrow> proc_info list \<Rightarrow> proc_info list \<Rightarrow> bool" where
  "ancestor_steps 0 ppid among tree = False"
| "ancestor_steps (Suc n) ppid among tree =
     (if list_ex (\<lambda>m. proc_pid m = ppid) among then True
      else case find (\<lambda>q. proc_pid q = ppid) tree of
             Some parent \<Rightarrow> ancestor_steps n (proc_ppid parent) among tree
           | None \<Rightarrow> False)"

definition has_ancestor_in :: "proc_info \<Rightarrow> proc_info list \<Rightarrow> proc_info list \<Rightarrow> bool" where
  "has_ancestor_in p among tree = ancestor_steps (length tree) (proc_ppid p) among tree"

definition leader_key :: "proc_info list \<Rightarrow> proc_info list \<Rightarrow> proc_info \<Rightarrow> bool \<times> bool \<times> u32" where
  "leader_key matching tree p = (has_ancestor_in p matching tree, proc_pid p \<noteq> proc_pgid p, proc_pid p)"

definition leader_pid :: "proc_info list \<Rightarrow> string list \<Rightarrow> u32 option" where
  "leader_pid tree names =
     (let matching = filter (named names) tree
      in map_option proc_pid (min_by_key (leader_key matching tree) matching))"

definition agent_running :: "u32 \<Rightarrow> proc_info list \<Rightarrow> string list \<Rightarrow> bool" where
  "agent_running pane_pid procs names = (leader_pid (subtree pane_pid procs) names \<noteq> None)"

definition SHELLS :: "string list" where
  "SHELLS = [''sh'', ''bash'', ''zsh'', ''fish'', ''dash'', ''ksh'', ''mksh'', ''tcsh'', ''csh'', ''ash'', ''login'']"

definition subtree_is_shell_only :: "proc_info list \<Rightarrow> bool" where
  "subtree_is_shell_only tree =
     list_all (\<lambda>p. dropWhile (\<lambda>c. c = CHR ''-'') (normalize_comm (proc_comm p)) \<in> set SHELLS) tree"

definition foreground_owns_tty :: "u32 \<Rightarrow> u32 \<Rightarrow> proc_info list \<Rightarrow> bool option" where
  "foreground_owns_tty pane_pid agent_pid procs =
     Option.bind (find (\<lambda>p. proc_pid p = pane_pid) procs) (\<lambda>root.
     Option.bind (proc_tpgid root) (\<lambda>tpgid.
     map_option (\<lambda>agent. tpgid = proc_pgid agent) (find (\<lambda>p. proc_pid p = agent_pid) procs)))"

section \<open>Identification\<close>

definition registered_manifest :: "registration option \<Rightarrow> 're loaded_manifest list \<Rightarrow> 're loaded_manifest option" where
  "registered_manifest reg manifests =
     Option.bind reg (\<lambda>r. find (\<lambda>m. lm_name m = rg_agent_name r) manifests)"

definition registered_identity :: "'re loaded_manifest \<Rightarrow> out_of_scope option \<Rightarrow> 're identified" where
  "registered_identity lm behind =
     \<lparr>if_manifest = lm, if_agent_pid = 0, if_foreground_is_agent = False, if_source = Registered,
      if_title_anchor = None, if_behind = behind\<rparr>"

text \<open>Title narrowing: \<^const>\<open>None\<close> when the manifest does not claim the pane, else its anchor.\<close>

definition narrow_title ::
  "('re \<Rightarrow> nat list \<Rightarrow> bool) \<Rightarrow> 're loaded_manifest \<Rightarrow> string \<Rightarrow> title_anchor \<Rightarrow> title_anchor option \<Rightarrow> bool
     \<Rightarrow> title_anchor option option" where
  "narrow_title is_match lm title this stored registered_here =
     (if has_title_patterns (lm_engine lm)
      then if title_matches is_match (lm_engine lm) title \<or> stored = Some this then Some (Some this)
           else if registered_here then Some None else None
      else Some None)"

fun observe ::
  "('re \<Rightarrow> nat list \<Rightarrow> bool) \<Rightarrow> u32 \<Rightarrow> string \<Rightarrow> string \<Rightarrow> proc_info list \<Rightarrow> title_anchor option \<Rightarrow> registration option
     \<Rightarrow> proc_info list \<Rightarrow> 're loaded_manifest list \<Rightarrow> 're identified option" where
  "observe is_match pane_pid foreground title procs stored reg tree [] = None"
| "observe is_match pane_pid foreground title procs stored reg tree (lm # rest) =
     (let names = id_process_names (mf_identity (lm_manifest lm));
          next = observe is_match pane_pid foreground title procs stored reg tree rest
      in case leader_pid tree names of
           None \<Rightarrow> next
         | Some agent_pid \<Rightarrow>
             (let registered_here = is_some_and reg (\<lambda>r. rg_agent_name r = lm_name lm)
              in case narrow_title is_match lm title \<lparr>ta_agent = lm_name lm, ta_pid = agent_pid\<rparr> stored registered_here of
                   None \<Rightarrow> next
                 | Some anchor \<Rightarrow>
                     Some \<lparr>if_manifest = lm, if_agent_pid = agent_pid,
                           if_foreground_is_agent = (foreground \<in> set names
                             \<and> (case foreground_owns_tty pane_pid agent_pid procs of Some b \<Rightarrow> b | None \<Rightarrow> True)),
                           if_source = (if registered_here then Registered else Observed),
                           if_title_anchor = anchor, if_behind = None\<rparr>))"

definition identify ::
  "('re \<Rightarrow> nat list \<Rightarrow> bool) \<Rightarrow> u32 \<Rightarrow> string \<Rightarrow> string \<Rightarrow> proc_info list \<Rightarrow> 're loaded_manifest list
     \<Rightarrow> title_anchor option \<Rightarrow> registration option \<Rightarrow> 're pane_identity" where
  "identify is_match pane_pid command title procs manifests stored reg =
     (let foreground = normalize_comm command
      in case out_of_scope_foreground foreground of
           Some scope \<Rightarrow>
             (case registered_manifest reg manifests of
                Some lm \<Rightarrow> AgentPane (registered_identity lm (Some scope))
              | None \<Rightarrow> (case scope of RemoteShell cmd \<Rightarrow> RemotePane cmd | Multiplexer cmd \<Rightarrow> MultiplexerPane cmd))
         | None \<Rightarrow>
             (case observe is_match pane_pid foreground title procs stored reg (subtree pane_pid procs) manifests of
                Some i \<Rightarrow> AgentPane i
              | None \<Rightarrow>
                  (case registered_manifest reg manifests of
                     Some lm \<Rightarrow> AgentPane (registered_identity lm None)
                   | None \<Rightarrow> NoAgent)))"

end
