(* ===== verification/Identity_Properties.thy ===== *)
theory Identity_Properties
  imports Identity Store_Invariant
begin

text \<open>
  What identification answers: the walk of the process tree finds exactly the descendants of the
  pane's root, and the process it names as the agent is the outermost one of its manifest.
\<close>

section \<open>The tree\<close>

text \<open>The processes below a root, by their parent links.\<close>

inductive descends :: "proc_info list \<Rightarrow> u32 \<Rightarrow> u32 \<Rightarrow> bool" for procs root where
  descends_root: "descends procs root root"
| descends_child: "descends procs root a \<Longrightarrow> p \<in> set procs \<Longrightarrow> proc_ppid p = a \<Longrightarrow> descends procs root (proc_pid p)"

lemma walk_tree_set:
  assumes "root \<in> set seen \<union> set frontier" and "\<forall>pid \<in> set seen \<union> set frontier. descends procs root pid"
    and "set out = {p \<in> set procs. proc_pid p \<in> set seen}"
    and "\<forall>p \<in> set procs. proc_ppid p \<in> set seen \<longrightarrow> proc_pid p \<in> set seen \<union> set frontier"
  shows "set (walk_tree procs frontier seen out) = {p \<in> set procs. descends procs root (proc_pid p)}"
  using assms
proof (induction procs frontier seen out rule: walk_tree.induct)
  case (1 procs seen out)
  have "pid \<in> set seen" if "descends procs root pid" for pid
    using that by (induction rule: descends.induct) (use 1 in auto)
  then show ?case using 1 by auto
next
  case (2 procs pid frontier seen out)
  show ?case
  proof (cases "pid \<in> set seen")
    case True
    then show ?thesis using 2 by auto
  next
    case False
    have "descends procs root pid" using 2 by auto
    then have pushed: "\<forall>q \<in> set (frontier_pushes procs pid (pid # seen)). descends procs root q"
      by (auto simp: frontier_pushes_def intro: descends_child)
    have "\<forall>p \<in> set procs. proc_ppid p \<in> set (pid # seen) \<longrightarrow>
        proc_pid p \<in> set (pid # seen) \<union> set (rev (frontier_pushes procs pid (pid # seen)) @ frontier)"
      using 2(6) by (auto simp: frontier_pushes_def)
    then have "set (walk_tree procs (rev (frontier_pushes procs pid (pid # seen)) @ frontier) (pid # seen)
        (out @ filter (\<lambda>p. proc_pid p = pid) procs)) = {p \<in> set procs. descends procs root (proc_pid p)}"
      using 2(3-5) pushed by (intro 2(2) [OF False]) auto
    then show ?thesis using False by simp
  qed
qed

lemma subtree_set: "set (subtree root procs) = {p \<in> set procs. descends procs root (proc_pid p)}"
  unfolding subtree_def by (rule walk_tree_set) (auto intro: descends_root)

section \<open>The outermost match\<close>

text \<open>The parent links inside a tree, child first.\<close>

definition parents :: "proc_info list \<Rightarrow> (u32 \<times> u32) set" where
  "parents tree = {(proc_pid p, proc_ppid p) | p. p \<in> set tree}"

lemma parents_finite [simp]: "finite (parents tree)"
  by (simp add: parents_def setcompr_eq_image)

lemma parents_card: "card (parents tree) \<le> length tree"
proof -
  have "parents tree = set (map (\<lambda>p. (proc_pid p, proc_ppid p)) tree)" by (auto simp: parents_def)
  then show ?thesis using card_length [of "map (\<lambda>p. (proc_pid p, proc_ppid p)) tree"] by simp
qed

lemma ancestor_sound:
  assumes "ancestor_steps n ppid among tree" and "(pid, ppid) \<in> parents tree"
  shows "\<exists>m \<in> set among. (pid, proc_pid m) \<in> (parents tree)\<^sup>+"
  using assms
proof (induction n arbitrary: pid ppid)
  case (Suc n)
  show ?case
  proof (cases "list_ex (\<lambda>m. proc_pid m = ppid) among")
    case True
    then show ?thesis using Suc.prems(2) by (auto simp: list_ex_iff)
  next
    case False
    then obtain q where "find (\<lambda>q. proc_pid q = ppid) tree = Some q" and steps: "ancestor_steps n (proc_ppid q) among tree"
      using Suc.prems(1) by (auto split: option.splits)
    then have "(ppid, proc_ppid q) \<in> parents tree"
      by (auto simp: find_Some_iff parents_def)
    from Suc.IH [OF steps this] show ?thesis
      using Suc.prems(2) by (meson trancl_into_trancl2)
  qed
qed simp

lemma find_by_pid: "distinct (map proc_pid tree) \<Longrightarrow> q \<in> set tree \<Longrightarrow> find (\<lambda>x. proc_pid x = proc_pid q) tree = Some q"
  by (induction tree) (auto simp: image_iff)

lemma ancestor_complete:
  assumes "(pid, proc_pid m) \<in> parents tree ^^ Suc k" and "k < n" and "m \<in> set among" and "distinct (map proc_pid tree)"
    and "(pid, ppid) \<in> parents tree"
  shows "ancestor_steps n ppid among tree"
  using assms
proof (induction k arbitrary: pid ppid n)
  case 0
  then obtain p q where "p \<in> set tree" "q \<in> set tree" "proc_pid p = pid" "proc_pid q = pid"
      "proc_ppid p = ppid" "proc_ppid q = proc_pid m" by (auto simp: parents_def)
  then have "ppid = proc_pid m" using 0(4) by (metis eq_key_imp_eq_value distinct_map inj_onD)
  then show ?case using 0(2,3) by (cases n) (auto simp: list_ex_iff)
next
  case (Suc k)
  then obtain mid where "(pid, mid) \<in> parents tree" and rest: "(mid, proc_pid m) \<in> parents tree ^^ Suc k"
    by (metis relpow_Suc_D2)
  then have "mid = ppid" using Suc.prems(4,5) by (auto simp: parents_def distinct_map inj_on_def)
  obtain up where "(ppid, up) \<in> parents tree"
    using rest \<open>mid = ppid\<close> by (metis relpow_Suc_D2)
  then obtain q where q: "q \<in> set tree" "proc_pid q = ppid" "(ppid, proc_ppid q) \<in> parents tree"
    by (auto simp: parents_def)
  obtain n' where n: "n = Suc n'" "k < n'" using Suc.prems(2) by (cases n) auto
  have "ancestor_steps n' (proc_ppid q) among tree"
    using Suc.IH [OF _ n(2) Suc.prems(3,4) q(3)] rest \<open>mid = ppid\<close> by simp
  then show ?case
    using find_by_pid [OF Suc.prems(4) q(1)] q(2) n by simp
qed

lemma min_by_key_Some: "min_by_key k xs = Some m \<Longrightarrow> m \<in> set xs \<and> (\<forall>y \<in> set xs. k m \<le> k y)"
proof (cases xs)
  case (Cons x ys)
  have "foldl (\<lambda>b y. if k y < k b then y else b) x ys \<in> set (x # ys)
      \<and> (\<forall>y \<in> set (x # ys). k (foldl (\<lambda>b y. if k y < k b then y else b) x ys) \<le> k y)" for x
  proof (induction ys arbitrary: x)
    case (Cons z zs)
    show ?case using Cons.IH [of "if k z < k x then z else x"] by (auto split: if_splits; force)
  qed simp
  from this [of x] show "min_by_key k xs = Some m \<Longrightarrow> ?thesis" using Cons by auto
qed simp

lemma min_by_key_None: "min_by_key k xs = None \<longleftrightarrow> xs = []"
  by (cases xs) simp_all

text \<open>Without a loop of parents some match has no other match above it, so the leader has none.\<close>

lemma leader_outermost:
  assumes leader: "leader_pid tree names = Some pid" and loop_free: "acyclic (parents tree)" and pids: "distinct (map proc_pid tree)"
  shows "\<exists>p \<in> set tree. proc_pid p = pid \<and> named names p
    \<and> (\<forall>q \<in> set tree. named names q \<longrightarrow> (pid, proc_pid q) \<notin> (parents tree)\<^sup>+)"
proof -
  let ?m = "filter (named names) tree"
  obtain p where p: "min_by_key (leader_key ?m tree) ?m = Some p" "proc_pid p = pid"
    using leader by (auto simp: leader_pid_def Let_def)
  then have least: "p \<in> set ?m" "\<And>q. q \<in> set ?m \<Longrightarrow> leader_key ?m tree p \<le> leader_key ?m tree q"
    using min_by_key_Some [OF p(1)] by auto
  have "wf ((parents tree)\<inverse>)" using loop_free by (simp add: finite_acyclic_wf_converse)
  then have "wf (((parents tree)\<inverse>)\<^sup>+)" by (rule wf_trancl)
  then obtain top where top: "top \<in> proc_pid ` set ?m" "\<And>y. (y, top) \<in> ((parents tree)\<inverse>)\<^sup>+ \<Longrightarrow> y \<notin> proc_pid ` set ?m"
    using least(1) wfE_min [of "((parents tree)\<inverse>)\<^sup>+" "proc_pid p" "proc_pid ` set ?m"] by blast
  then obtain q where q: "q \<in> set ?m" "proc_pid q = top" by auto
  have "\<not> has_ancestor_in q ?m tree"
  proof
    assume "has_ancestor_in q ?m tree"
    moreover have "(proc_pid q, proc_ppid q) \<in> parents tree" using q(1) by (auto simp: parents_def)
    ultimately obtain m where "m \<in> set ?m" "(proc_pid q, proc_pid m) \<in> (parents tree)\<^sup>+"
      unfolding has_ancestor_in_def using ancestor_sound by blast
    then show False using top(2) [of "proc_pid m"] q(2) by (simp add: trancl_converse)
  qed
  then have none: "\<not> has_ancestor_in p ?m tree"
    using least(2) [OF q(1)] by (auto simp: leader_key_def less_eq_prod_def)
  have "(pid, proc_pid m) \<notin> (parents tree)\<^sup>+" if "m \<in> set ?m" for m
  proof
    assume "(pid, proc_pid m) \<in> (parents tree)\<^sup>+"
    then obtain k where "0 < k" "(pid, proc_pid m) \<in> parents tree ^^ k" by (auto simp: trancl_power)
    then obtain n where n: "0 < n" "n \<le> card (parents tree)" "(pid, proc_pid m) \<in> parents tree ^^ n"
      using relpow_finite_bounded1 [of "parents tree" k] by auto
    then obtain j where j: "n = Suc j" "j < length tree" using parents_card [of tree] by (cases n) auto
    have "(pid, proc_ppid p) \<in> parents tree" using least(1) p(2) by (auto simp: parents_def)
    then have "ancestor_steps (length tree) (proc_ppid p) ?m tree"
      using n(3) j that pids by (intro ancestor_complete [of pid m j tree]) simp_all
    then show False using none by (simp add: has_ancestor_in_def)
  qed
  then show ?thesis using least(1) p(2) by auto
qed

section \<open>What identification answers\<close>

lemma observe_Some:
  assumes "observe is_match pane_pid foreground title procs stored reg tree manifests = Some i"
  shows "if_manifest i \<in> set manifests \<and> if_behind i = None
    \<and> leader_pid tree (id_process_names (mf_identity (lm_manifest (if_manifest i)))) = Some (if_agent_pid i)
    \<and> (has_title_patterns (lm_engine (if_manifest i)) \<longrightarrow>
         title_matches is_match (lm_engine (if_manifest i)) title
         \<or> stored = Some \<lparr>ta_agent = lm_name (if_manifest i), ta_pid = if_agent_pid i\<rparr>
         \<or> is_some_and reg (\<lambda>r. rg_agent_name r = lm_name (if_manifest i)))"
  using assms
proof (induction manifests)
  case (Cons lm rest)
  show ?case
  proof (cases "leader_pid tree (id_process_names (mf_identity (lm_manifest lm)))")
    case None
    then show ?thesis using Cons by (simp add: Let_def)
  next
    case (Some pid)
    show ?thesis
    proof (cases "narrow_title is_match lm title \<lparr>ta_agent = lm_name lm, ta_pid = pid\<rparr> stored
        (is_some_and reg (\<lambda>r. rg_agent_name r = lm_name lm))")
      case None
      then show ?thesis using Cons Some by (simp add: Let_def)
    next
      case (Some anchor)
      then show ?thesis
        using Cons.prems \<open>leader_pid tree _ = Some pid\<close>
        by (auto simp: Let_def narrow_title_def split: if_splits)
    qed
  qed
qed simp

lemma leader_facts: "leader_pid tree names = Some pid \<Longrightarrow> \<exists>p \<in> set tree. proc_pid p = pid \<and> named names p"
  using min_by_key_Some by (fastforce simp: leader_pid_def Let_def)

lemma identify_walked:
  assumes "identify is_match pane_pid command title procs manifests stored reg = AgentPane i" and "if_behind i = None"
    and "0 < if_agent_pid i"
  shows "out_of_scope_foreground (normalize_comm command) = None
    \<and> observe is_match pane_pid (normalize_comm command) title procs stored reg (subtree pane_pid procs) manifests = Some i"
  using assms by (auto simp: identify_def Let_def registered_identity_def split: option.splits out_of_scope.splits)

text \<open>C40 (agent_process_genuine). When a pane is claimed for an agent with a process, that process descends from the pane's
  root and carries a name of the agent's manifest, and no process of the manifest's names is above it in the
  pane's tree: of an agent and its children the agent is chosen. The foreground is neither a remote shell nor a
  nested multiplexer, and a manifest that narrows by title has its title match, its own anchor on this process,
  or a registration.\<close>

theorem agent_process_genuine:
  assumes "identify is_match pane_pid command title procs manifests stored reg = AgentPane i"
    and "if_behind i = None" and "0 < if_agent_pid i"
    and "acyclic (parents (subtree pane_pid procs))" and "distinct (map proc_pid (subtree pane_pid procs))"
  shows "if_manifest i \<in> set manifests \<and> program_out_of_scope command = None
    \<and> (\<exists>p \<in> set procs. proc_pid p = if_agent_pid i \<and> descends procs pane_pid (proc_pid p)
          \<and> named (id_process_names (mf_identity (lm_manifest (if_manifest i)))) p)
    \<and> (\<forall>q \<in> set procs. descends procs pane_pid (proc_pid q)
          \<longrightarrow> named (id_process_names (mf_identity (lm_manifest (if_manifest i)))) q
          \<longrightarrow> (if_agent_pid i, proc_pid q) \<notin> (parents (subtree pane_pid procs))\<^sup>+)
    \<and> (has_title_patterns (lm_engine (if_manifest i)) \<longrightarrow>
         title_matches is_match (lm_engine (if_manifest i)) title
         \<or> stored = Some \<lparr>ta_agent = lm_name (if_manifest i), ta_pid = if_agent_pid i\<rparr>
         \<or> is_some_and reg (\<lambda>r. rg_agent_name r = lm_name (if_manifest i)))"
proof -
  note walked = identify_walked [OF assms(1-3)]
  note claimed = observe_Some [OF conjunct2 [OF walked]]
  obtain p where "p \<in> set (subtree pane_pid procs)" "proc_pid p = if_agent_pid i"
      "named (id_process_names (mf_identity (lm_manifest (if_manifest i)))) p"
      "\<forall>q \<in> set (subtree pane_pid procs). named (id_process_names (mf_identity (lm_manifest (if_manifest i)))) q
         \<longrightarrow> (if_agent_pid i, proc_pid q) \<notin> (parents (subtree pane_pid procs))\<^sup>+"
    using leader_outermost [OF _ assms(4,5)] claimed by blast
  then show ?thesis using walked claimed by (auto simp: subtree_set program_out_of_scope_def)
qed

section \<open>An example\<close>

text \<open>A shell, an agent, and a child of the agent with the agent's name in a group of its own.\<close>

definition example_procs :: "proc_info list" where
  "example_procs =
     [\<lparr>proc_pid = 30, proc_ppid = 20, proc_pgid = 30, proc_tpgid = None, proc_comm = ''claude''\<rparr>,
      \<lparr>proc_pid = 20, proc_ppid = 10, proc_pgid = 20, proc_tpgid = None, proc_comm = ''claude''\<rparr>,
      \<lparr>proc_pid = 10, proc_ppid = 2, proc_pgid = 10, proc_tpgid = Some 20, proc_comm = ''-zsh''\<rparr>]"

definition example_manifest :: "string loaded_manifest" where
  "example_manifest = \<lparr>lm_name = ''claude'', lm_manifest = sample_manifest, lm_engine = \<lparr>en_rules = [], en_title_patterns = []\<rparr>\<rparr>"

definition example_agent :: "string identified" where
  "example_agent = \<lparr>if_manifest = example_manifest, if_agent_pid = 20, if_foreground_is_agent = True, if_source = Observed,
     if_title_anchor = None, if_behind = None\<rparr>"

lemma example_tree: "subtree 10 example_procs = rev example_procs"
  by code_simp

lemma example_identified:
  "identify (\<lambda>_ _. False) 10 ''claude'' ''t'' example_procs [example_manifest] None None = AgentPane example_agent"
proof -
  have "leader_pid (rev example_procs) [''claude''] = Some 20" by code_simp
  moreover have "normalize_comm ''claude'' = ''claude''" "out_of_scope_foreground ''claude'' = None"
      "foreground_owns_tty 10 20 example_procs = Some True" by code_simp+
  ultimately show ?thesis
    unfolding identify_def Let_def example_tree
    by (simp add: example_manifest_def sample_manifest_def sample_raw_manifest_def narrow_title_def
        has_title_patterns_def example_agent_def)
qed

theorem agent_process_genuine_witness:
  "\<exists>p \<in> set example_procs. proc_pid p = 20 \<and> descends example_procs 10 (proc_pid p) \<and> named [''claude''] p"
proof -
  have "acyclic (parents (subtree 10 example_procs))"
    unfolding example_tree by (rule acyclicI_order [where f = id]) (auto simp: parents_def example_procs_def)
  moreover have "distinct (map proc_pid (subtree 10 example_procs))" unfolding example_tree by (simp add: example_procs_def)
  ultimately show ?thesis
    using agent_process_genuine [OF example_identified]
    by (simp add: example_agent_def example_manifest_def sample_manifest_def sample_raw_manifest_def)
qed

end
