(* ===== verification/Program_Runtime.thy ===== *)
theory Program_Runtime
  imports Identity Collector Persistence
begin

text \<open>
  The episodes of the program status protocol (\<open>tma-runtime/src/program_status.rs\<close>): which process a
  pane's reports are attributed to, when a report may enter the pane's store, and what is published
  from it. The control clients are behind the trait \<open>ProgramCollector\<close>, here a record of operations.
  The answers of the process sampler are arguments, in the order the source asks for them. A panic of
  the source is a \<open>runtime_panic\<close>. Definitions only.
\<close>

definition MAX_PROGRAM_BYTES :: nat where "MAX_PROGRAM_BYTES = 32 * 1024 * 1024"
definition MAX_ANCESTRY :: nat where "MAX_ANCESTRY = 256"

section \<open>The collector as the runtime sees it\<close>

record ('c, 'e) program_collector =
  pc_boundary :: "pane_id \<Rightarrow> 'c \<Rightarrow> 'e + (observation_boundary option \<times> 'c)"
  pc_stream :: "pane_id \<Rightarrow> 'c \<Rightarrow> stream_state option"
  pc_invalidate :: "pane_id \<Rightarrow> observation_gap \<Rightarrow> 'c \<Rightarrow> 'e + 'c"
  pc_pending_bytes :: "'c \<Rightarrow> nat"
  pc_set_payload_budget :: "nat \<Rightarrow> 'c \<Rightarrow> 'e + 'c"
  pc_drain :: "'c \<Rightarrow> program_drain \<times> 'c"

section \<open>State\<close>

record program_pane =
  pn_pane :: pane_id
  pn_pane_pid :: u32
  pn_current_command :: string
  pn_title :: string
  pn_ignored :: bool
  pn_registration :: "registration option"

datatype recovery_reason =
    BindingBoundary | RProcessUnavailable process_unavailable | Unrecognized | Ignored
  | Excluded out_of_scope | NoAliases | NoStream | IdentityChanged | ProcessChangedDuringBatch
  | RObservation observation_gap | ScopeLost | RFullReset | RShellPrompt | RAttachedProcessExit
  | PaneRemoved | Disabled | CapabilityUnavailable | LeaseLost | PersistenceLost | RWorkBudgetExceeded

datatype coverage_state = Unobserved | Recovering recovery_reason | CoverageActive

record program_release =
  rl_pane :: pane_id
  rl_owner :: "episode_id option"
  rl_reason :: recovery_reason
  rl_history :: "history_invalidation option"

record program_batch =
  ba_releases :: "program_release list"
  ba_applied_events :: nat
  ba_callback_releases :: nat

definition empty_batch :: program_batch where
  "empty_batch = \<lparr>ba_releases = [], ba_applied_events = 0, ba_callback_releases = 0\<rparr>"

definition unstreamed_releases :: "program_batch \<Rightarrow> program_release list" where
  "unstreamed_releases b = drop (ba_callback_releases b) (ba_releases b)"

record recognized =
  rc_manifest :: string
  rc_apps :: "app_id list"
  rc_chain :: "process_identity list"

record binding =
  bd_identity :: recognized
  bd_owner :: episode_id
  bd_boundary :: observation_boundary
  bd_sequence :: u64
  bd_cycle_floor :: work_cycle

record presented_result =
  pp_process :: process_identity
  pp_selection :: program_selection
  pp_acknowledged :: bool

record pane_program =
  pg_store :: record_store
  pg_binding :: "binding option"
  pg_coverage :: coverage_state
  pg_last_report :: "u64 option"
  pg_presented :: "presented_result option"
  pg_presented_chain :: "process_identity list"

definition default_pane :: pane_program where
  "default_pane = \<lparr>pg_store = store_new, pg_binding = None, pg_coverage = Unobserved, pg_last_report = None,
     pg_presented = None, pg_presented_chain = []\<rparr>"

record program_decision =
  de_pane :: pane_id
  de_manifest :: string
  de_chain :: "process_identity list"
  de_boundary :: observation_boundary
  de_selection :: program_selection
  de_previous :: "presented_result option"
  de_observed_work_cycle :: bool

record program_diagnostics =
  di_coverage :: coverage_state
  di_owner :: "episode_id option"
  di_process :: "process_identity option"
  di_boundary :: "observation_boundary option"
  di_last_report :: "u64 option"
  di_retained_bytes :: nat
  di_records :: nat

record program_runtime =
  rt_panes :: "(pane_id \<times> pane_program) list"
  rt_next_owner :: u64
  rt_retained_bytes :: nat

definition runtime_new :: program_runtime where
  "runtime_new = \<lparr>rt_panes = [], rt_next_owner = 0, rt_retained_bytes = 0\<rparr>"

datatype 'e runtime_panic = OwnersExhausted | StoreExhausted | Broken | CollectorFailed 'e

text \<open>What an operation works on: the runtime, the collector and the batch it reports.\<close>

record 'c work =
  wk_runtime :: program_runtime
  wk_collector :: 'c
  wk_batch :: program_batch

definition pane_of :: "program_runtime \<Rightarrow> pane_id \<Rightarrow> pane_program option" where
  "pane_of rt pane = map_of (rt_panes rt) pane"

definition binding_of :: "program_runtime \<Rightarrow> pane_id \<Rightarrow> binding option" where
  "binding_of rt pane = Option.bind (pane_of rt pane) pg_binding"

definition put_pane :: "pane_id \<Rightarrow> pane_program \<Rightarrow> program_runtime \<Rightarrow> program_runtime" where
  "put_pane pane entry rt = rt\<lparr>rt_panes := put_sorted pane entry (rt_panes rt)\<rparr>"

text \<open>\<open>entry(pane).or_default()\<close>.\<close>

definition entry_of :: "program_runtime \<Rightarrow> pane_id \<Rightarrow> pane_program" where
  "entry_of rt pane = (case pane_of rt pane of Some e \<Rightarrow> e | None \<Rightarrow> default_pane)"

definition live_of :: "binding \<Rightarrow> live_episode" where
  "live_of b = \<lparr>live_owner = bd_owner b, live_apps = rc_apps (bd_identity b)\<rparr>"

definition next_owner :: "program_runtime \<Rightarrow> 'e runtime_panic + (episode_id \<times> program_runtime)" where
  "next_owner rt =
     (case checked_add (rt_next_owner rt) 1 of
        None \<Rightarrow> Inl OwnersExhausted
      | Some n \<Rightarrow> Inr (n, rt\<lparr>rt_next_owner := n\<rparr>))"

text \<open>\<open>retained_bytes - old + new\<close>, which panics below zero.\<close>

definition reaccount :: "nat \<Rightarrow> nat \<Rightarrow> program_runtime \<Rightarrow> 'e runtime_panic + program_runtime" where
  "reaccount before after rt =
     (case checked_sub (rt_retained_bytes rt) before of
        None \<Rightarrow> Inl Broken
      | Some n \<Rightarrow> Inr (rt\<lparr>rt_retained_bytes := n + after\<rparr>))"

definition add_release :: "program_release \<Rightarrow> 'c work \<Rightarrow> 'c work" where
  "add_release r w = w\<lparr>wk_batch := (wk_batch w)\<lparr>ba_releases := ba_releases (wk_batch w) @ [r]\<rparr>\<rparr>"

definition release_of :: "pane_id \<Rightarrow> episode_id option \<Rightarrow> recovery_reason \<Rightarrow> program_release" where
  "release_of pane owner reason = \<lparr>rl_pane = pane, rl_owner = owner, rl_reason = reason, rl_history = None\<rparr>"

section \<open>Recognition\<close>

primrec ancestry_from ::
  "nat \<Rightarrow> process_snapshot \<Rightarrow> u32 \<Rightarrow> u32 \<Rightarrow> process_identity list \<Rightarrow> recovery_reason + process_identity list" where
  "ancestry_from 0 snapshot root pid chain =
     (case snapshot_identity snapshot pid of Inl e \<Rightarrow> Inl (RProcessUnavailable e) | Inr _ \<Rightarrow> Inl Unrecognized)"
| "ancestry_from (Suc n) snapshot root pid chain =
     (case snapshot_identity snapshot pid of
        Inl e \<Rightarrow> Inl (RProcessUnavailable e)
      | Inr i \<Rightarrow>
          if i \<in> set chain then Inl Unrecognized
          else if pid = root then Inr (i # chain)
          else (case find (\<lambda>p. proc_pid p = pid) (sn_processes snapshot) of
                  None \<Rightarrow> Inl Unrecognized
                | Some p \<Rightarrow> ancestry_from n snapshot root (proc_ppid p) (i # chain)))"

definition ancestry :: "process_snapshot \<Rightarrow> u32 \<Rightarrow> u32 \<Rightarrow> recovery_reason + process_identity list" where
  "ancestry snapshot root agent = ancestry_from MAX_ANCESTRY snapshot root agent []"

text \<open>The title anchor of a prior binding, kept only while its whole chain is unchanged.\<close>

definition prior_anchor :: "program_pane \<Rightarrow> process_snapshot \<Rightarrow> binding option \<Rightarrow> title_anchor option" where
  "prior_anchor pane snapshot prior =
     (case option_filter (\<lambda>b.
              (case rc_chain (bd_identity b) of [] \<Rightarrow> False | root # _ \<Rightarrow> pi_pid root = pn_pane_pid pane)
              \<and> list_all (\<lambda>i. snapshot_identity snapshot (pi_pid i) = Inr i) (rc_chain (bd_identity b))) prior of
        None \<Rightarrow> None
      | Some b \<Rightarrow>
          if rc_chain (bd_identity b) = [] then None
          else Some \<lparr>ta_agent = rc_manifest (bd_identity b), ta_pid = pi_pid (last (rc_chain (bd_identity b)))\<rparr>)"

type_synonym 're knowledge = "('re \<Rightarrow> nat list \<Rightarrow> bool) \<times> 're loaded_manifest list"

definition recognize ::
  "'re knowledge \<Rightarrow> program_pane \<Rightarrow> process_snapshot \<Rightarrow> binding option \<Rightarrow> recovery_reason + recognized" where
  "recognize k pane snapshot prior =
     (if pn_ignored pane then Inl Ignored
      else case program_out_of_scope (pn_current_command pane) of
        Some scope \<Rightarrow> Inl (Excluded scope)
      | None \<Rightarrow>
          (case snapshot_identity snapshot (pn_pane_pid pane) of
             Inl e \<Rightarrow> Inl (RProcessUnavailable e)
           | Inr _ \<Rightarrow>
               (case identify (fst k) (pn_pane_pid pane) (normalize_comm (pn_current_command pane)) (pn_title pane)
                       (sn_processes snapshot) (snd k) (prior_anchor pane snapshot prior) (pn_registration pane) of
                  AgentPane agent \<Rightarrow>
                    if 0 < if_agent_pid agent \<and> if_behind agent = None then
                      (let apps = program_status_apps (if_manifest agent) in
                       if apps = [] then Inl NoAliases
                       else map_sum id (\<lambda>chain. \<lparr>rc_manifest = lm_name (if_manifest agent), rc_apps = apps, rc_chain = chain\<rparr>)
                              (ancestry snapshot (pn_pane_pid pane) (if_agent_pid agent)))
                    else Inl Unrecognized
                | _ \<Rightarrow> Inl Unrecognized)))"

section \<open>Accounting\<close>

definition stream_loss ::
  "('c, 'e) program_collector \<Rightarrow> 'c \<Rightarrow> pane_id \<Rightarrow> u64 \<Rightarrow> recovery_reason option" where
  "stream_loss pc c pane connection =
     (case pc_stream pc pane c of
        Some current \<Rightarrow>
          if ss_connection current = connection then None
          else Some (RObservation (case ss_pending_gap current of Some g \<Rightarrow> g | None \<Rightarrow> OwnerChanged))
      | None \<Rightarrow> Some NoStream)"

text \<open>The entry a replacement displaces: the same identifier, or at capacity the oldest.\<close>

definition replaced_entry :: "record_store \<Rightarrow> program_record \<Rightarrow> stored_record option" where
  "replaced_entry st r =
     (case find (\<lambda>e. sr_id e = rec_id r) (st_records st) of
        Some e \<Rightarrow> Some e
      | None \<Rightarrow> if length (st_records st) = MAX_RECORDS then min_by_key sr_updated (st_records st) else None)"

fun replacement_bytes :: "record_store \<Rightarrow> program_command \<Rightarrow> nat" where
  "replacement_bytes st (Replace r) =
     retained_bytes st - (case replaced_entry st r of None \<Rightarrow> 0 | Some e \<Rightarrow> record_bytes (sr_record e))
       + record_bytes r + recovery_reservation st (Replace r) - recovery_retained_bytes st"
| "replacement_bytes st (Clear i) =
     sum_list (map (\<lambda>e. record_bytes (sr_record e)) (filter (\<lambda>e. \<not> rid_contains i (sr_id e)) (st_records st)))
       + recovery_reservation st (Clear i)"
| "replacement_bytes st Query = retained_bytes st"

definition prepare_collection :: "('c, 'e) program_collector \<Rightarrow> 'c work \<Rightarrow> 'e runtime_panic + 'c work" where
  "prepare_collection pc w =
     (case checked_sub MAX_PROGRAM_BYTES (rt_retained_bytes (wk_runtime w)) of
        None \<Rightarrow> Inl Broken
      | Some available \<Rightarrow>
          map_sum CollectorFailed (\<lambda>c. w\<lparr>wk_collector := c\<rparr>) (pc_set_payload_budget pc available (wk_collector w)))"

definition drop_stream ::
  "('c, 'e) program_collector \<Rightarrow> pane_id \<Rightarrow> observation_gap \<Rightarrow> 'c work \<Rightarrow> 'e runtime_panic + 'c work" where
  "drop_stream pc pane reason w =
     map_sum CollectorFailed (\<lambda>c. w\<lparr>wk_collector := c\<rparr>) (pc_invalidate pc pane reason (wk_collector w))"

section \<open>Revocation\<close>

definition revoked_store :: "recovery_reason \<Rightarrow> bool \<Rightarrow> record_store \<Rightarrow> record_store" where
  "revoked_store reason departure st =
     (if reason = RObservation BudgetExceeded then store_new
      else if departure then store_lifecycle AttachedProcessExit st
      else invalidate_episode st)"

definition revoke :: "pane_id \<Rightarrow> recovery_reason \<Rightarrow> bool \<Rightarrow> 'c work \<Rightarrow> 'e runtime_panic + 'c work" where
  "revoke pane reason departure w =
     (let entry = entry_of (wk_runtime w) pane;
          owner = map_option bd_owner (pg_binding entry);
          st = revoked_store reason departure (pg_store entry)
      in map_sum id (\<lambda>rt.
           (if owner \<noteq> None then add_release (release_of pane owner reason) else id)
             (w\<lparr>wk_runtime := put_pane pane
                 (entry\<lparr>pg_store := st, pg_binding := None, pg_coverage := Recovering reason\<rparr>) rt\<rparr>))
         (reaccount (retained_bytes (pg_store entry)) (retained_bytes st) (wk_runtime w)))"

definition work_on :: "program_runtime \<Rightarrow> 'c \<Rightarrow> 'c work" where
  "work_on rt c = \<lparr>wk_runtime = rt, wk_collector = c, wk_batch = empty_batch\<rparr>"

definition runtime_invalidate ::
  "('c, 'e) program_collector \<Rightarrow> pane_id \<Rightarrow> recovery_reason \<Rightarrow> program_runtime \<Rightarrow> 'c \<Rightarrow> 'e runtime_panic + 'c work" where
  "runtime_invalidate pc pane reason rt c =
     sum_bind (revoke pane reason False (work_on rt c)) (\<lambda>w.
     sum_bind (drop_stream pc pane (if reason = RWorkBudgetExceeded then WorkBudgetExceeded else OwnerChanged) w)
       (prepare_collection pc))"

definition remove_pane :: "('c, 'e) program_collector \<Rightarrow> pane_id \<Rightarrow> 'c work \<Rightarrow> 'e runtime_panic + 'c work" where
  "remove_pane pc pane w =
     (case pane_of (wk_runtime w) pane of
        None \<Rightarrow> Inr w
      | Some entry \<Rightarrow>
          sum_bind (reaccount (retained_bytes (pg_store entry)) 0 (wk_runtime w)) (\<lambda>rt.
            drop_stream pc pane OwnerChanged
              (add_release (release_of pane (map_option bd_owner (pg_binding entry)) PaneRemoved)
                (w\<lparr>wk_runtime := rt\<lparr>rt_panes := filter (\<lambda>(p, _). p \<noteq> pane) (rt_panes rt)\<rparr>\<rparr>))))"

end
