(* ===== verification/Program_Batch.thy ===== *)
theory Program_Batch
  imports Program_Runtime
begin

text \<open>
  Batches of the program runtime (\<open>tma-runtime/src/program_status.rs\<close>): binding, gaps, observations
  between two samples of the fleet, and what may be published. Definitions only.
\<close>

section \<open>Decisions\<close>

definition decision :: "program_runtime \<Rightarrow> pane_id \<Rightarrow> program_decision option" where
  "decision rt pane =
     Option.bind (pane_of rt pane) (\<lambda>entry.
       if pg_coverage entry \<noteq> CoverageActive then None
       else Option.bind (pg_binding entry) (\<lambda>b.
         map_option (\<lambda>sel.
           \<lparr>de_pane = pane, de_manifest = rc_manifest (bd_identity b), de_chain = rc_chain (bd_identity b),
            de_boundary = bd_boundary b, de_selection = sel, de_previous = pg_presented entry,
            de_observed_work_cycle = (bd_cycle_floor b < st_cycle (pg_store entry))\<rparr>)
         (store_select (pg_store entry) (live_of b))))"

definition record_presentation ::
  "program_decision \<Rightarrow> result_disposition option \<Rightarrow> program_runtime \<Rightarrow> 'e runtime_panic + (bool \<times> program_runtime)" where
  "record_presentation d disposition rt =
     (case pane_of rt (de_pane d) of
        None \<Rightarrow> Inr (False, rt)
      | Some entry \<Rightarrow>
          (case pg_binding entry of
             None \<Rightarrow> Inr (False, rt)
           | Some b \<Rightarrow>
               if de_boundary d \<noteq> bd_boundary b \<or> de_chain d \<noteq> rc_chain (bd_identity b) then Inr (False, rt)
               else (case (case disposition of
                             Some how \<Rightarrow> reconcile_result (de_selection d) (live_of b) how (pg_store entry)
                           | None \<Rightarrow> Some (mark_presented (de_selection d) (live_of b) (pg_store entry))) of
                       None \<Rightarrow> Inl Broken
                     | Some (landed, st) \<Rightarrow>
                         if landed then
                           if rc_chain (bd_identity b) = [] then Inl Broken
                           else Inr (True, put_pane (de_pane d)
                             (entry\<lparr>pg_store := st,
                                pg_presented := Some \<lparr>pp_process = last (rc_chain (bd_identity b)),
                                  pp_selection = de_selection d,
                                  pp_acknowledged = (disposition = Some DAcknowledged)\<rparr>,
                                pg_presented_chain := rc_chain (bd_identity b)\<rparr>) rt)
                         else Inr (False, put_pane (de_pane d) (entry\<lparr>pg_store := st\<rparr>) rt))))"

definition runtime_mark_presented ::
  "program_decision \<Rightarrow> program_runtime \<Rightarrow> 'e runtime_panic + (bool \<times> program_runtime)" where
  "runtime_mark_presented d rt = record_presentation d None rt"

definition runtime_reconcile_result ::
  "program_decision \<Rightarrow> result_disposition \<Rightarrow> program_runtime \<Rightarrow> 'e runtime_panic + (bool \<times> program_runtime)" where
  "runtime_reconcile_result d disposition rt = record_presentation d (Some disposition) rt"

definition runtime_acknowledge :: "pane_id \<Rightarrow> result_identity \<Rightarrow> program_runtime \<Rightarrow> bool \<times> program_runtime" where
  "runtime_acknowledge pane result rt =
     (case pane_of rt pane of
        None \<Rightarrow> (False, rt)
      | Some entry \<Rightarrow>
          (case acknowledge result (pg_store entry) of
             (False, _) \<Rightarrow> (False, rt)
           | (True, st) \<Rightarrow>
               (True, put_pane pane
                 (entry\<lparr>pg_store := st,
                    pg_presented := map_option (\<lambda>p.
                      if map_option pr_identity (sel_result (pp_selection p)) = Some result
                      then p\<lparr>pp_acknowledged := True\<rparr> else p) (pg_presented entry)\<rparr>) rt)))"

definition diagnostics :: "program_runtime \<Rightarrow> pane_id \<Rightarrow> program_diagnostics option" where
  "diagnostics rt pane =
     map_option (\<lambda>entry.
       \<lparr>di_coverage = pg_coverage entry, di_owner = map_option bd_owner (pg_binding entry),
        di_process = Option.bind (pg_binding entry) (\<lambda>b.
          if rc_chain (bd_identity b) = [] then None else Some (last (rc_chain (bd_identity b)))),
        di_boundary = map_option bd_boundary (pg_binding entry), di_last_report = pg_last_report entry,
        di_retained_bytes = retained_bytes (pg_store entry), di_records = length (st_records (pg_store entry))\<rparr>)
     (pane_of rt pane)"

text \<open>The check immediately before a delayed publication.\<close>

datatype recheck_error = StaleDecision | Revoked program_release

definition still_recognized :: "'re knowledge \<Rightarrow> program_pane \<Rightarrow> process_snapshot \<Rightarrow> binding \<Rightarrow> bool" where
  "still_recognized k pane snapshot b = (recognize k pane snapshot (Some b) = Inr (bd_identity b))"

definition recheck ::
  "('c, 'e) program_collector \<Rightarrow> 're knowledge \<Rightarrow> program_decision \<Rightarrow> program_pane \<Rightarrow> process_snapshot
     \<Rightarrow> program_runtime \<times> 'c \<Rightarrow> 'e runtime_panic + ((recheck_error + unit) \<times> program_runtime \<times> 'c)" where
  "recheck pc k d pane snapshot = (\<lambda>(rt, c).
     (if decision rt (de_pane d) \<noteq> Some d then Inr (Inl StaleDecision, rt, c)
      else
        let loss = stream_loss pc c (de_pane d) (ob_connection (de_boundary d)) in
        if loss = None \<and> pn_pane pane = de_pane d \<and> is_some_and (binding_of rt (pn_pane pane)) (still_recognized k pane snapshot)
        then Inr (Inr (), rt, c)
        else
          let reason = (case loss of Some r \<Rightarrow> r | None \<Rightarrow> IdentityChanged) in
          sum_bind (revoke (de_pane d) reason (loss = None) (work_on rt c)) (\<lambda>w.
          sum_bind (if loss = None then drop_stream pc (de_pane d) OwnerChanged w else Inr w) (\<lambda>w.
          map_sum id (\<lambda>w. (Inl (Revoked (release_of (de_pane d) (Some (sel_owner (de_selection d))) reason)),
                           wk_runtime w, wk_collector w))
            (prepare_collection pc w)))))"

section \<open>Binding\<close>

definition rebind_pane ::
  "('c, 'e) program_collector \<Rightarrow> pane_id \<Rightarrow> recognized \<Rightarrow> 'c work \<Rightarrow> 'e runtime_panic + 'c work" where
  "rebind_pane pc pane identity w0 =
     (let owner = map_option bd_owner (binding_of (wk_runtime w0) pane);
          w = (if owner \<noteq> None then add_release (release_of pane owner IdentityChanged) w0 else w0);
          entry = entry_of (wk_runtime w) pane;
          st = invalidate_episode (pg_store entry);
          same = (pg_presented_chain entry = rc_chain identity);
          entry1 = entry\<lparr>pg_store := st, pg_presented := (if same then pg_presented entry else None),
                         pg_presented_chain := (if same then pg_presented_chain entry else [])\<rparr>
      in sum_bind (reaccount (retained_bytes (pg_store entry)) (retained_bytes st) (wk_runtime w)) (\<lambda>rt.
         case pc_boundary pc pane (wk_collector w) of
           Inl e \<Rightarrow> Inl (CollectorFailed e)
         | Inr (None, c) \<Rightarrow>
             Inr (w\<lparr>wk_collector := c,
                    wk_runtime := put_pane pane (entry1\<lparr>pg_binding := None, pg_coverage := Recovering NoStream\<rparr>) rt\<rparr>)
         | Inr (Some boundary, c) \<Rightarrow>
             map_sum id (\<lambda>(n, rt1).
               w\<lparr>wk_collector := c,
                 wk_runtime := put_pane pane
                   (entry1\<lparr>pg_binding := Some \<lparr>bd_identity = identity, bd_owner = n, bd_boundary = boundary,
                              bd_sequence = ob_floor boundary, bd_cycle_floor = st_cycle st\<rparr>,
                            pg_coverage := Recovering BindingBoundary\<rparr>) rt1\<rparr>)
             (next_owner rt)))"

definition bind_pane ::
  "('c, 'e) program_collector \<Rightarrow> 're knowledge \<Rightarrow> process_snapshot \<Rightarrow> program_pane \<Rightarrow> 'c work \<Rightarrow> 'e runtime_panic + 'c work" where
  "bind_pane pc k snapshot pane w =
     (let prior = binding_of (wk_runtime w) (pn_pane pane) in
      case recognize k pane snapshot prior of
        Inr identity \<Rightarrow>
          if is_some_and prior (\<lambda>b. bd_identity b = identity) then Inr w
          else rebind_pane pc (pn_pane pane) identity w
      | Inl reason \<Rightarrow>
          sum_bind (revoke (pn_pane pane) reason True w) (drop_stream pc (pn_pane pane) OwnerChanged))"

section \<open>Gaps\<close>

definition regap_pane ::
  "observed_event \<Rightarrow> observation_gap \<Rightarrow> pane_program \<Rightarrow> binding \<Rightarrow> 'c work \<Rightarrow> 'e runtime_panic + 'c work" where
  "regap_pane observed reason entry b w =
     (if ob_connection (bd_boundary b) = oe_connection observed \<and> ob_floor (bd_boundary b) = oe_sequence observed
      then Inr (w\<lparr>wk_runtime := put_pane (oe_pane observed) entry (wk_runtime w)\<rparr>)
      else
        let st = invalidate_episode (pg_store entry) in
        sum_bind (reaccount (retained_bytes (pg_store entry)) (retained_bytes st) (wk_runtime w)) (\<lambda>rt.
        map_sum id (\<lambda>(n, rt1).
          add_release (release_of (oe_pane observed) (Some (bd_owner b)) (RObservation reason))
            (w\<lparr>wk_runtime := put_pane (oe_pane observed)
                (entry\<lparr>pg_store := st,
                   pg_binding := Some (b\<lparr>bd_owner := n, bd_cycle_floor := st_cycle st,
                     bd_boundary := \<lparr>ob_connection = oe_connection observed, ob_floor = oe_sequence observed\<rparr>,
                     bd_sequence := oe_sequence observed\<rparr>),
                   pg_coverage := Recovering (RObservation reason)\<rparr>) rt1\<rparr>))
        (next_owner rt)))"

definition apply_gap :: "observed_event \<Rightarrow> 'c work \<Rightarrow> 'e runtime_panic + 'c work" where
  "apply_gap observed w =
     (case oe_event observed of
        EGap reason \<Rightarrow>
          (case pane_of (wk_runtime w) (oe_pane observed) of
             None \<Rightarrow> Inr w
           | Some entry \<Rightarrow>
               let evict = (reason = BudgetExceeded);
                   entry1 = (if evict then entry\<lparr>pg_store := store_new\<rparr> else entry)
               in sum_bind (if evict then reaccount (retained_bytes (pg_store entry)) 0 (wk_runtime w) else Inr (wk_runtime w)) (\<lambda>rt.
                  case pg_binding entry of
                    None \<Rightarrow> Inr (w\<lparr>wk_runtime := put_pane (oe_pane observed) entry1 rt\<rparr>)
                  | Some b \<Rightarrow> regap_pane observed reason entry1 b (w\<lparr>wk_runtime := rt\<rparr>)))
      | _ \<Rightarrow> Inr w)"

section \<open>Observations\<close>

text \<open>The event on the pane's entry, after the budget test: the new entry and the releases.\<close>

fun lifecycle_reason :: "terminal_lifecycle \<Rightarrow> recovery_reason" where
  "lifecycle_reason FullReset = RFullReset"
| "lifecycle_reason ShellPrompt = RShellPrompt"
| "lifecycle_reason AttachedProcessExit = RAttachedProcessExit"

fun subtree_history :: "program_event \<Rightarrow> history_invalidation option" where
  "subtree_history (ECommand (Clear i)) = Some (Subtree i)"
| "subtree_history _ = None"

fun event_history :: "program_event \<Rightarrow> history_invalidation option" where
  "event_history (ELifecycle FullReset) = Some InvalidateAll"
| "event_history ev = subtree_history ev"

definition over_budget ::
  "('c, 'e) program_collector \<Rightarrow> nat \<Rightarrow> program_command \<Rightarrow> pane_program \<Rightarrow> 'c work \<Rightarrow> 'e runtime_panic + bool" where
  "over_budget pc remaining cmd entry w =
     (case checked_sub (rt_retained_bytes (wk_runtime w)) (retained_bytes (pg_store entry)) of
        None \<Rightarrow> Inl Broken
      | Some others \<Rightarrow>
          Inr (MAX_PROGRAM_BYTES
                 < others + replacement_bytes (pg_store entry) cmd + remaining + pc_pending_bytes pc (wk_collector w)))"

definition evict_pane ::
  "('c, 'e) program_collector \<Rightarrow> pane_id \<Rightarrow> pane_program \<Rightarrow> binding \<Rightarrow> 'c work \<Rightarrow> 'e runtime_panic + 'c work" where
  "evict_pane pc pane entry b w =
     sum_bind (reaccount (retained_bytes (pg_store entry)) 0 (wk_runtime w)) (\<lambda>rt.
       drop_stream pc pane BudgetExceeded
         (add_release (release_of pane (Some (bd_owner b)) (RObservation BudgetExceeded))
           (w\<lparr>wk_runtime := put_pane pane
               (entry\<lparr>pg_store := store_new, pg_binding := None,
                      pg_coverage := Recovering (RObservation BudgetExceeded)\<rparr>) rt\<rparr>)))"

text \<open>The pane is covered while a selection exists; losing the last one releases it.\<close>

definition settle_coverage :: "pane_id \<Rightarrow> program_event \<Rightarrow> pane_program \<Rightarrow> pane_program \<times> program_release list" where
  "settle_coverage pane ev entry =
     (case pg_binding entry of
        None \<Rightarrow> (entry, [])
      | Some b \<Rightarrow>
          if store_select (pg_store entry) (live_of b) \<noteq> None then (entry\<lparr>pg_coverage := CoverageActive\<rparr>, [])
          else if pg_coverage entry = CoverageActive
          then (entry\<lparr>pg_coverage := Recovering BindingBoundary\<rparr>,
                [\<lparr>rl_pane = pane, rl_owner = Some (bd_owner b), rl_reason = BindingBoundary, rl_history = subtree_history ev\<rparr>])
          else (entry, []))"

definition finish_event ::
  "pane_id \<Rightarrow> program_event \<Rightarrow> nat \<Rightarrow> pane_program \<Rightarrow> 'c work \<Rightarrow> 'e runtime_panic + 'c work" where
  "finish_event pane ev before entry w =
     map_sum id (\<lambda>rt.
       case settle_coverage pane ev entry of (entry1, releases) \<Rightarrow>
         w\<lparr>wk_runtime := put_pane pane entry1 rt,
           wk_batch := (wk_batch w)\<lparr>ba_releases := ba_releases (wk_batch w) @ releases,
                                    ba_applied_events := ba_applied_events (wk_batch w) + 1\<rparr>\<rparr>)
     (reaccount before (retained_bytes (pg_store entry)) (wk_runtime w))"

definition apply_command ::
  "('c, 'e) program_collector \<Rightarrow> u64 \<Rightarrow> nat \<Rightarrow> pane_id \<Rightarrow> program_command \<Rightarrow> pane_program \<Rightarrow> binding
     \<Rightarrow> 'c work \<Rightarrow> 'e runtime_panic + 'c work" where
  "apply_command pc at remaining pane cmd entry b w =
     sum_bind (over_budget pc remaining cmd entry w) (\<lambda>over.
       if over then evict_pane pc pane entry b w
       else case store_apply cmd at (Some (live_of b)) (pg_store entry) of
         None \<Rightarrow> Inl StoreExhausted
       | Some st \<Rightarrow>
           finish_event pane (ECommand cmd) (retained_bytes (pg_store entry))
             (entry\<lparr>pg_store := st, pg_last_report := (if cmd = Query then pg_last_report entry else Some at)\<rparr>) w)"

definition apply_lifecycle ::
  "('c, 'e) program_collector \<Rightarrow> pane_id \<Rightarrow> u64 \<Rightarrow> terminal_lifecycle \<Rightarrow> pane_program \<Rightarrow> binding
     \<Rightarrow> 'c work \<Rightarrow> 'e runtime_panic + 'c work" where
  "apply_lifecycle pc pane sequence ev entry b w =
     (let st = store_lifecycle ev (pg_store entry);
          reset = (ev = FullReset);
          released = add_release \<lparr>rl_pane = pane, rl_owner = Some (bd_owner b), rl_reason = lifecycle_reason ev,
                       rl_history = (if reset then Some InvalidateAll else None)\<rparr> w
      in sum_bind (next_owner (wk_runtime released)) (\<lambda>(n, rt).
         let b1 = b\<lparr>bd_owner := n, bd_cycle_floor := st_cycle st, bd_boundary := (bd_boundary b)\<lparr>ob_floor := sequence\<rparr>\<rparr>;
             exits = (ev = AttachedProcessExit);
             entry1 = entry\<lparr>pg_store := st, pg_presented := (if reset then None else pg_presented entry),
                        pg_presented_chain := (if reset then [] else pg_presented_chain entry),
                        pg_coverage := Recovering (lifecycle_reason ev),
                        pg_binding := (if exits then None else Some b1)\<rparr>
         in sum_bind (if exits then drop_stream pc pane OwnerChanged (released\<lparr>wk_runtime := rt\<rparr>)
                      else Inr (released\<lparr>wk_runtime := rt\<rparr>)) (\<lambda>w1.
            finish_event pane (ELifecycle ev) (retained_bytes (pg_store entry)) entry1 w1)))"

definition apply_observation ::
  "('c, 'e) program_collector \<Rightarrow> u64 \<Rightarrow> nat \<Rightarrow> observed_event \<Rightarrow> 'c work \<Rightarrow> 'e runtime_panic + 'c work" where
  "apply_observation pc at remaining observed w =
     (let pane = oe_pane observed in
      case pane_of (wk_runtime w) pane of
        None \<Rightarrow> Inr w
      | Some entry \<Rightarrow>
          (case pg_binding entry of
             None \<Rightarrow> Inr w
           | Some b0 \<Rightarrow>
               (case stream_loss pc (wk_collector w) pane (ob_connection (bd_boundary b0)) of
                  Some reason \<Rightarrow> revoke pane reason False w
                | None \<Rightarrow>
                    if oe_connection observed \<noteq> ob_connection (bd_boundary b0) \<or> oe_sequence observed \<le> bd_sequence b0
                    then Inr w
                    else
                      let b = b0\<lparr>bd_sequence := oe_sequence observed\<rparr>;
                          e = entry\<lparr>pg_binding := Some b\<rparr>
                      in case oe_event observed of
                           ECommand cmd \<Rightarrow> apply_command pc at remaining pane cmd e b w
                         | ELifecycle ev \<Rightarrow> apply_lifecycle pc pane (oe_sequence observed) ev e b w
                         | EGap _ \<Rightarrow> Inr (w\<lparr>wk_runtime := put_pane pane e (wk_runtime w)\<rparr>))))"

section \<open>Batches\<close>

text \<open>A consumer sees every ordered effect; it may call the runtime's own operations and the collector's.\<close>

datatype step_kind = StepReplace | StepClear | StepQuery | StepLifecycle terminal_lifecycle | StepRelease

record program_step =
  se_pane :: pane_id
  se_kind :: step_kind
  se_decision :: "program_decision option"
  se_releases :: "program_release list"
  se_history :: "history_invalidation option"
  se_checked :: process_snapshot

type_synonym ('c, 'e) consumer = "program_step \<Rightarrow> program_runtime \<times> 'c \<Rightarrow> 'e runtime_panic + (program_runtime \<times> 'c)"

definition deliver :: "('c, 'e) consumer \<Rightarrow> program_step \<Rightarrow> nat \<Rightarrow> 'c work \<Rightarrow> 'e runtime_panic + 'c work" where
  "deliver on_step step released w =
     map_sum id (\<lambda>(rt, c).
       w\<lparr>wk_runtime := rt, wk_collector := c,
         wk_batch := (wk_batch w)\<lparr>ba_callback_releases := ba_callback_releases (wk_batch w) + released\<rparr>\<rparr>)
     (on_step step (wk_runtime w, wk_collector w))"

text \<open>A loop of steps, up to the first panic.\<close>

fun each :: "('x \<Rightarrow> 'w \<Rightarrow> 'p + 'w) \<Rightarrow> 'x list \<Rightarrow> 'w \<Rightarrow> 'p + 'w" where
  "each f [] w = Inr w"
| "each f (x # xs) w = sum_bind (f x w) (each f xs)"

fun event_bytes :: "program_event \<Rightarrow> nat" where
  "event_bytes (ECommand (Replace r)) = record_bytes r"
| "event_bytes (ECommand (Clear i)) = length (rid_str i)"
| "event_bytes _ = 0"

fun step_kind_of :: "program_event \<Rightarrow> step_kind" where
  "step_kind_of (ECommand (Replace _)) = StepReplace"
| "step_kind_of (ECommand (Clear _)) = StepClear"
| "step_kind_of (ECommand Query) = StepQuery"
| "step_kind_of (ELifecycle ev) = StepLifecycle ev"
| "step_kind_of (EGap _) = StepRelease"

definition observe_event ::
  "('c, 'e) program_collector \<Rightarrow> ('c, 'e) consumer \<Rightarrow> process_snapshot \<Rightarrow> u64 \<Rightarrow> nat \<Rightarrow> observed_event
     \<Rightarrow> 'c work \<Rightarrow> 'e runtime_panic + 'c work" where
  "observe_event pc on_step checked at remaining obs w =
     sum_bind (apply_observation pc at remaining obs w) (\<lambda>w1.
       let releases = drop (length (ba_releases (wk_batch w))) (ba_releases (wk_batch w1));
           applied = (ba_applied_events (wk_batch w1) \<noteq> ba_applied_events (wk_batch w))
       in if applied \<or> releases \<noteq> []
          then deliver on_step
                 \<lparr>se_pane = oe_pane obs, se_kind = (if applied then step_kind_of (oe_event obs) else StepRelease),
                  se_decision = decision (wk_runtime w1) (oe_pane obs), se_releases = releases,
                  se_history = event_history (oe_event obs), se_checked = checked\<rparr> (length releases) w1
          else Inr w1)"

fun observe_events ::
  "('c, 'e) program_collector \<Rightarrow> ('c, 'e) consumer \<Rightarrow> process_snapshot \<Rightarrow> u64 \<Rightarrow> observed_event list \<Rightarrow> nat
     \<Rightarrow> 'c work \<Rightarrow> 'e runtime_panic + 'c work" where
  "observe_events pc on_step checked at [] remaining w = Inr w"
| "observe_events pc on_step checked at (obs # os) remaining w =
     (case checked_sub remaining (event_bytes (oe_event obs)) of
        None \<Rightarrow> Inl Broken
      | Some left \<Rightarrow>
          sum_bind (observe_event pc on_step checked at left obs w) (observe_events pc on_step checked at os left))"

definition release_step :: "('c, 'e) consumer \<Rightarrow> process_snapshot \<Rightarrow> program_release \<Rightarrow> 'c work \<Rightarrow> 'e runtime_panic + 'c work" where
  "release_step on_step checked r w =
     deliver on_step \<lparr>se_pane = rl_pane r, se_kind = StepRelease, se_decision = None, se_releases = [r],
                      se_history = None, se_checked = checked\<rparr> 1 w"

text \<open>What a failed first sample does: every pane is revoked, pending evictions still apply.\<close>

definition lose_pane ::
  "('c, 'e) program_collector \<Rightarrow> recovery_reason \<Rightarrow> observation_gap \<Rightarrow> program_pane \<Rightarrow> 'c work \<Rightarrow> 'e runtime_panic + 'c work" where
  "lose_pane pc reason gap pane w =
     sum_bind (revoke (pn_pane pane) reason False w) (drop_stream pc (pn_pane pane) gap)"

definition lose_fleet ::
  "('c, 'e) program_collector \<Rightarrow> program_pane list \<Rightarrow> process_unavailable \<Rightarrow> 'c work \<Rightarrow> 'e runtime_panic + 'c work" where
  "lose_fleet pc panes reason w =
     sum_bind (each (lose_pane pc (RProcessUnavailable reason) OwnerChanged) panes w) (\<lambda>w1.
       case pc_drain pc (wk_collector w1) of (d, c) \<Rightarrow>
         sum_bind (each apply_gap (dr_invalidations d) (w1\<lparr>wk_collector := c\<rparr>)) (prepare_collection pc))"

text \<open>The handoff: only what the binding's own stream printed after its floor.\<close>

definition accepted :: "program_runtime \<Rightarrow> observed_event \<Rightarrow> bool" where
  "accepted rt obs =
     is_some_and (binding_of rt (oe_pane obs)) (\<lambda>b.
       oe_connection obs = ob_connection (bd_boundary b) \<and> ob_floor (bd_boundary b) < oe_sequence obs)"

text \<open>The second sample: a binding that no longer agrees is revoked before any event is applied.\<close>

definition verify_pane ::
  "('c, 'e) program_collector \<Rightarrow> 're knowledge \<Rightarrow> process_unavailable + process_snapshot \<Rightarrow> program_pane
     \<Rightarrow> 'c work \<Rightarrow> 'e runtime_panic + 'c work" where
  "verify_pane pc k after pane w =
     (case binding_of (wk_runtime w) (pn_pane pane) of
        None \<Rightarrow> Inr w
      | Some b \<Rightarrow>
          if (case after of Inl _ \<Rightarrow> False | Inr snapshot \<Rightarrow> still_recognized k pane snapshot b) then Inr w
          else sum_bind (revoke (pn_pane pane) ProcessChangedDuringBatch True w) (drop_stream pc (pn_pane pane) OwnerChanged))"

definition apply_drain ::
  "('c, 'e) program_collector \<Rightarrow> program_pane list \<Rightarrow> program_drain \<Rightarrow> 'c work \<Rightarrow> 'e runtime_panic + 'c work" where
  "apply_drain pc panes d w =
     sum_bind (if dr_all_invalidated d then each (lose_pane pc ScopeLost QueueOverflow) panes w else Inr w)
       (each apply_gap (dr_invalidations d))"

definition process_drain ::
  "('c, 'e) program_collector \<Rightarrow> 're knowledge \<Rightarrow> program_pane list \<Rightarrow> process_unavailable + process_snapshot
     \<Rightarrow> u64 \<Rightarrow> ('c, 'e) consumer \<Rightarrow> 'c work \<Rightarrow> 'e runtime_panic + 'c work" where
  "process_drain pc k panes after at on_step w =
     (case pc_drain pc (wk_collector w) of (d, c) \<Rightarrow>
        sum_bind (apply_drain pc panes d (w\<lparr>wk_collector := c\<rparr>)) (\<lambda>w1.
          let events = filter (accepted (wk_runtime w1)) (dr_observations d) in
          sum_bind (each (verify_pane pc k after) panes w1) (\<lambda>w2.
            case after of
              Inl _ \<Rightarrow> prepare_collection pc w2
            | Inr checked \<Rightarrow>
                sum_bind (each (release_step on_step checked) (ba_releases (wk_batch w2)) w2) (\<lambda>w3.
                sum_bind (observe_events pc on_step checked at events
                            (sum_list (map (\<lambda>obs. event_bytes (oe_event obs)) events)) w3)
                  (prepare_collection pc)))))"

definition process_batch_with ::
  "('c, 'e) program_collector \<Rightarrow> 're knowledge \<Rightarrow> program_pane list \<Rightarrow> process_unavailable + process_snapshot
     \<Rightarrow> process_unavailable + process_snapshot \<Rightarrow> u64 \<Rightarrow> ('c, 'e) consumer \<Rightarrow> program_runtime \<Rightarrow> 'c
     \<Rightarrow> 'e runtime_panic + 'c work" where
  "process_batch_with pc k panes before after at on_step rt c =
     (let removed = filter (\<lambda>p. p \<notin> pn_pane ` set panes) (map fst (rt_panes rt)) in
      sum_bind (each (remove_pane pc) removed (work_on rt c)) (\<lambda>w.
        if panes = [] then prepare_collection pc w
        else case before of
          Inl reason \<Rightarrow> lose_fleet pc panes reason w
        | Inr snapshot \<Rightarrow>
            sum_bind (each (bind_pane pc k snapshot) panes w) (\<lambda>w1.
            sum_bind (prepare_collection pc w1) (process_drain pc k panes after at on_step))))"

definition process_batch ::
  "('c, 'e) program_collector \<Rightarrow> 're knowledge \<Rightarrow> program_pane list \<Rightarrow> process_unavailable + process_snapshot
     \<Rightarrow> process_unavailable + process_snapshot \<Rightarrow> u64 \<Rightarrow> program_runtime \<Rightarrow> 'c \<Rightarrow> 'e runtime_panic + 'c work" where
  "process_batch pc k panes before after at rt c =
     map_sum id (\<lambda>w. w\<lparr>wk_batch := (wk_batch w)\<lparr>ba_callback_releases := 0\<rparr>\<rparr>)
       (process_batch_with pc k panes before after at (\<lambda>_. Inr) rt c)"

definition runtime_reset :: "('c, 'e) program_collector \<Rightarrow> program_runtime \<Rightarrow> 'c \<Rightarrow> 'e runtime_panic + 'c work" where
  "runtime_reset pc rt c =
     sum_bind (each (\<lambda>(pane, entry) w.
         drop_stream pc pane OwnerChanged
           (add_release (release_of pane (map_option bd_owner (pg_binding entry)) Disabled) w))
       (rt_panes rt) (work_on rt c)) (\<lambda>w.
     prepare_collection pc
       (w\<lparr>wk_runtime := rt\<lparr>rt_panes := [], rt_retained_bytes := 0\<rparr>, wk_collector := snd (pc_drain pc (wk_collector w))\<rparr>))"

end
