(* ===== verification/Runtime_Invariant.thy ===== *)
theory Runtime_Invariant
  imports Program_Batch Store_Episodes Collector_History
begin

text \<open>
  The invariant of the program runtime: its byte accounting is exact and within the budget, every
  episode number was given to one binding of one pane, and every record in a store that an episode
  observed is attested: it was drained for that pane from that binding's stream, in a batch whose two
  process samples both showed the binding's process chain.
\<close>

section \<open>Bytes of a store\<close>

definition entries_bytes :: "stored_record list \<Rightarrow> nat" where
  "entries_bytes es = sum_list (map (\<lambda>e. record_bytes (sr_record e)) es)"

lemma entries_bytes_simps [simp]:
  "entries_bytes [] = 0" "entries_bytes (e # es) = record_bytes (sr_record e) + entries_bytes es"
  "entries_bytes (es @ fs) = entries_bytes es + entries_bytes fs"
  by (simp_all add: entries_bytes_def)

lemma retained_parts: "retained_bytes st = entries_bytes (st_records st) + recovery_retained_bytes st"
  by (simp add: retained_bytes_def entries_bytes_def)

lemma entries_bytes_map: "(\<And>e. sr_record (f e) = sr_record e) \<Longrightarrow> entries_bytes (map f es) = entries_bytes es"
  by (induction es) simp_all

lemma entries_bytes_filter: "entries_bytes (filter p es) \<le> entries_bytes es"
  by (induction es) auto

lemma retained_new [simp]: "retained_bytes store_new = 0"
  by (simp add: retained_bytes_def store_new_def recovery_retained_bytes_def)

lemma retained_invalidated: "retained_bytes (invalidate_episode st) \<le> retained_bytes st"
  by (simp add: retained_parts invalidate_episode_def recovery_retained_bytes_def entries_bytes_map)

lemma retained_lifecycle: "retained_bytes (store_lifecycle ev st) \<le> retained_bytes st"
  using entries_bytes_filter [of "\<lambda>e. is_result_status (sr_status e)" "st_records st"]
  by (cases ev) (simp_all add: retained_parts recovery_retained_bytes_def entries_bytes_map)

lemma retained_revoked: "retained_bytes (revoked_store reason departure st) \<le> retained_bytes st"
  using retained_lifecycle [of AttachedProcessExit st] by (simp add: revoked_store_def retained_invalidated del: store_lifecycle.simps)

lemma settled_bytes:
  assumes "(case episode of None \<Rightarrow> Some st1 | Some live \<Rightarrow> settle_episode live was fl st1) = Some st'"
  shows "entries_bytes (st_records st') = entries_bytes (st_records st1)"
proof (cases episode)
  case (Some live)
  have "settle_episode live was fl st1 = Some st'" using assms Some by simp
  then show ?thesis
  proof (cases rule: settle_episode_cases)
    case (1 st starts cycle)
    show ?thesis unfolding 1(1,5) by (simp add: reconcile_ownership_def entries_bytes_map)
  qed
qed (use assms in simp)

text \<open>The bytes reserved before a command are enough for the store after it.\<close>

lemma taken_bytes:
  assumes "take_out p es = (previous, rest)"
  shows "entries_bytes es = entries_bytes rest + (case previous of None \<Rightarrow> 0 | Some e \<Rightarrow> record_bytes (sr_record e))
    \<and> previous = find p es"
  using assms by (induction es arbitrary: rest) (auto split: if_splits prod.splits)

lemma take_out_length: "take_out p es = (previous, rest) \<Longrightarrow>
    length es = length rest + (case previous of None \<Rightarrow> 0 | Some _ \<Rightarrow> 1)"
  by (induction es arbitrary: rest) (auto split: if_splits prod.splits option.splits)

lemma oldest_first: "entries_wf ord cyc (x # xs) \<Longrightarrow> min_by_key sr_updated (x # xs) = Some x"
  by (rule min_by_key_first) (auto simp: entries_wf_def)

lemma kept_bytes:
  assumes wf: "entries_wf ord cyc (st_records st)"
    and taken: "take_out (\<lambda>e. sr_id e = rec_id r) (st_records st) = (previous, rest)" and kept: "evict_oldest rest = Some kept"
  shows "entries_bytes (st_records st) = entries_bytes kept
    + (case replaced_entry st r of None \<Rightarrow> 0 | Some e \<Rightarrow> record_bytes (sr_record e))"
proof (cases previous)
  case None
  then have rest: "rest = st_records st" using take_out_None taken by metis
  have absent: "find (\<lambda>e. sr_id e = rec_id r) (st_records st) = None" using taken_bytes [OF taken] None by simp
  have kept': "kept = (if length rest = MAX_RECORDS then tl rest else rest)"
    using trans [OF kept [symmetric, unfolded rest] evict_oldest_wf [OF wf]] unfolding rest option.inject .
  show ?thesis
  proof (cases "length (st_records st) = MAX_RECORDS")
    case True
    then obtain x xs where xs: "st_records st = x # xs" by (cases "st_records st") (auto simp: MAX_RECORDS_def)
    have "replaced_entry st r = Some x"
      using absent True wf unfolding replaced_entry_def xs by (simp add: oldest_first del: min_by_key.simps)
    then show ?thesis using kept' True xs rest by simp
  next
    case False
    then show ?thesis using kept' rest absent by (simp add: replaced_entry_def)
  qed
next
  case (Some old)
  have "length rest < MAX_RECORDS"
    using wf take_out_length [OF taken] Some by (simp add: entries_wf_def)
  then have "kept = rest" using kept by (simp add: evict_oldest_def)
  moreover have "find (\<lambda>e. sr_id e = rec_id r) (st_records st) = Some old"
    using taken_bytes [OF taken, THEN conjunct2, symmetric] Some by (rule trans)
  then have "replaced_entry st r = Some old" unfolding replaced_entry_def by simp
  ultimately show ?thesis using taken_bytes [OF taken, THEN conjunct1] Some by simp
qed

lemma replacement_suffices:
  assumes "store_apply cmd at episode st = Some st'" and "store_wf st"
  shows "retained_bytes st' \<le> replacement_bytes st cmd"
proof (cases cmd)
  case (Replace r)
  have reserved: "recovery_retained_bytes st' \<le> recovery_reservation st cmd" by (rule reservation_suffices [OF assms(1)])
  obtain fl st1 where st1: "replace_record r at episode st = Some (fl, st1)"
    and rest: "(case episode of None \<Rightarrow> Some st1
          | Some live \<Rightarrow> settle_episode live (is_some_and episode (has_activity st)) fl st1) = Some st'"
    using assms(1) Replace by (auto simp: store_apply_def bind_Some_iff Let_def)
  from st1 obtain kept where kept: "entries_bytes (st_records st1) = entries_bytes kept + record_bytes r"
    and old: "entries_bytes (st_records st) = entries_bytes kept
      + (case replaced_entry st r of None \<Rightarrow> 0 | Some e \<Rightarrow> record_bytes (sr_record e))"
  proof (cases rule: replace_record_cases)
    case (1 previous rest kept lineage elig reset entry st2 st3)
    have "entries_bytes (st_records st1) = entries_bytes kept + record_bytes r"
      using replace_entry_fields(1) [OF 1(8)] by (simp add: 1(10))
    moreover have "entries_wf (st_ordinal st) (st_cycle st) (st_records st)" using assms(2) by (simp add: store_wf_def)
    ultimately show ?thesis using that kept_bytes [OF _ 1(1,2)] by blast
  qed
  show ?thesis
    using reserved settled_bytes [OF rest] kept old by (simp add: Replace retained_parts recovery_reservation_def)
next
  case (Clear i)
  have "(case episode of None \<Rightarrow> Some (clear_subtree i st)
      | Some live \<Rightarrow> settle_episode live (is_some_and episode (has_activity st)) no_flags (clear_subtree i st)) = Some st'"
    using assms(1) Clear by (simp add: store_apply_def Let_def)
  from settled_bytes [OF this] have "entries_bytes (st_records st')
      = entries_bytes (filter (\<lambda>e. \<not> rid_contains i (sr_id e)) (st_records st))"
    by (simp add: clear_subtree_records)
  then show ?thesis
    using reservation_suffices [OF assms(1)] by (simp add: Clear retained_parts entries_bytes_def)
next
  case Query
  then show ?thesis using assms(1) by (simp add: store_apply_def)
qed

section \<open>Results of an operation\<close>

text \<open>No internal assumption failed, and what was answered satisfies \<open>P\<close>.\<close>

definition safe :: "('w \<Rightarrow> bool) \<Rightarrow> 'e runtime_panic + 'w \<Rightarrow> bool" where
  "safe P r = (case r of Inl p \<Rightarrow> p \<noteq> Broken | Inr w \<Rightarrow> P w)"

lemma safe_simps [simp]: "safe P (Inl p) \<longleftrightarrow> p \<noteq> Broken" "safe P (Inr w) \<longleftrightarrow> P w"
  by (simp_all add: safe_def)

lemma safe_bind: "safe P r \<Longrightarrow> (\<And>w. P w \<Longrightarrow> safe Q (f w)) \<Longrightarrow> safe Q (sum_bind r f)"
  by (cases r) simp_all

lemma safe_map: "safe P r \<Longrightarrow> (\<And>w. P w \<Longrightarrow> Q (f w)) \<Longrightarrow> safe Q (map_sum id f r)"
  by (cases r) simp_all

lemma safe_mono: "safe P r \<Longrightarrow> (\<And>w. P w \<Longrightarrow> Q w) \<Longrightarrow> safe Q r"
  by (cases r) simp_all

lemma safe_each: "P w \<Longrightarrow> (\<And>x w. x \<in> set xs \<Longrightarrow> P w \<Longrightarrow> safe P (f x w)) \<Longrightarrow> safe P (each f xs w)"
  by (induction xs arbitrary: w) (auto intro: safe_bind)

section \<open>The invariant\<close>

text \<open>What a batch had before it: the panes, both samples, and what it drained.\<close>

record batch_log =
  bl_panes :: "program_pane list"
  bl_before :: "process_unavailable + process_snapshot"
  bl_after :: "process_unavailable + process_snapshot"
  bl_drain :: program_drain

text \<open>A sample shows the processes of a pane.\<close>

definition shown :: "'re knowledge \<Rightarrow> program_pane list \<Rightarrow> process_unavailable + process_snapshot \<Rightarrow> pane_id \<Rightarrow> recognized \<Rightarrow> bool" where
  "shown k panes sample p ident =
     (\<exists>snapshot. sample = Inr snapshot
        \<and> (\<exists>pane \<in> set panes. pn_pane pane = p \<and> (\<exists>prior. recognize k pane snapshot prior = Inr ident)))"

definition confirmed :: "'re knowledge \<Rightarrow> batch_log \<Rightarrow> pane_id \<Rightarrow> recognized \<Rightarrow> bool" where
  "confirmed k x p ident = (shown k (bl_panes x) (bl_before x) p ident \<and> shown k (bl_panes x) (bl_after x) p ident)"

definition delivered_in :: "batch_log \<Rightarrow> pane_id \<Rightarrow> observation_boundary \<Rightarrow> program_command \<Rightarrow> bool" where
  "delivered_in x p bd cmd =
     (\<exists>obs \<in> set (dr_observations (bl_drain x)). oe_pane obs = p \<and> oe_connection obs = ob_connection bd
        \<and> ob_floor bd < oe_sequence obs \<and> oe_event obs = ECommand cmd)"

definition attested ::
  "'re knowledge \<Rightarrow> batch_log set \<Rightarrow> pane_id \<Rightarrow> recognized \<Rightarrow> observation_boundary \<Rightarrow> program_record \<Rightarrow> bool" where
  "attested k L p ident bd r = (\<exists>x \<in> L. confirmed k x p ident \<and> delivered_in x p bd (Replace r))"

text \<open>To whom an episode number was given.\<close>

type_synonym attribution = "episode_id \<Rightarrow> (pane_id \<times> recognized \<times> observation_boundary) option"

definition store_attested ::
  "'re knowledge \<Rightarrow> batch_log set \<Rightarrow> attribution \<Rightarrow> pane_id \<Rightarrow> record_store \<Rightarrow> bool" where
  "store_attested k L G p st =
     (\<forall>e \<in> set (st_records st). \<forall>w. sr_observed_owner e = Some w \<longrightarrow>
        (\<exists>ident bd. G w = Some (p, ident, bd) \<and> attested k L p ident bd (sr_record e)))"

definition binding_ok :: "attribution \<Rightarrow> pane_id \<Rightarrow> binding \<Rightarrow> bool" where
  "binding_ok G p b =
     (G (bd_owner b) = Some (p, bd_identity b, bd_boundary b) \<and> rc_chain (bd_identity b) \<noteq> []
      \<and> ob_floor (bd_boundary b) \<le> bd_sequence b)"

definition coverage_ok :: "pane_program \<Rightarrow> bool" where
  "coverage_ok e = (pg_coverage e = CoverageActive \<longrightarrow> pg_binding e \<noteq> None)"

definition entry_ok :: "'re knowledge \<Rightarrow> batch_log set \<Rightarrow> attribution \<Rightarrow> pane_id \<Rightarrow> pane_program \<Rightarrow> bool" where
  "entry_ok k L G p e =
     (store_wf (pg_store e) \<and> store_attested k L G p (pg_store e) \<and> is_none_or (pg_binding e) (binding_ok G p) \<and> coverage_ok e)"

definition stored_total :: "program_runtime \<Rightarrow> nat" where
  "stored_total rt = sum_list (map (\<lambda>(_, e). retained_bytes (pg_store e)) (rt_panes rt))"

definition runtime_inv :: "'re knowledge \<Rightarrow> batch_log set \<Rightarrow> attribution \<Rightarrow> program_runtime \<Rightarrow> bool" where
  "runtime_inv k L G rt =
     (ordered_keys (rt_panes rt) \<and> rt_retained_bytes rt = stored_total rt \<and> rt_retained_bytes rt \<le> MAX_PROGRAM_BYTES
      \<and> (\<forall>(p, e) \<in> set (rt_panes rt). entry_ok k L G p e) \<and> (\<forall>w. G w \<noteq> None \<longrightarrow> w \<le> rt_next_owner rt))"

text \<open>Between operations; \<open>C\<close> says more of the bindings while a batch runs.\<close>

definition sound :: "'re knowledge \<Rightarrow> batch_log set \<Rightarrow> (pane_id \<Rightarrow> recognized \<Rightarrow> bool) \<Rightarrow> program_runtime \<Rightarrow> bool" where
  "sound k L C rt =
     ((\<exists>G. runtime_inv k L G rt) \<and> (\<forall>p b. binding_of rt p = Some b \<longrightarrow> C p (bd_identity b)))"

lemma map_leD: "G \<subseteq>\<^sub>m G' \<Longrightarrow> G w = Some x \<Longrightarrow> G' w = Some x"
  by (metis domI map_le_def)

lemma attested_mono: "attested k L p ident bd r \<Longrightarrow> L \<subseteq> L' \<Longrightarrow> attested k L' p ident bd r"
  by (auto simp: attested_def)

lemma store_attested_mono:
  "store_attested k L G p st \<Longrightarrow> L \<subseteq> L' \<Longrightarrow> G \<subseteq>\<^sub>m G' \<Longrightarrow> store_attested k L' G' p st"
  unfolding store_attested_def by (meson attested_mono map_leD)

lemma entry_ok_mono: "entry_ok k L G p e \<Longrightarrow> L \<subseteq> L' \<Longrightarrow> G \<subseteq>\<^sub>m G' \<Longrightarrow> entry_ok k L' G' p e"
  unfolding entry_ok_def binding_ok_def by (auto simp: is_none_or_iff intro: store_attested_mono map_leD)

lemma runtime_inv_log: "runtime_inv k L G rt \<Longrightarrow> L \<subseteq> L' \<Longrightarrow> runtime_inv k L' G rt"
  unfolding runtime_inv_def using entry_ok_mono [of k L G _ _ L' G] by fastforce

lemma sound_log: "sound k L C rt \<Longrightarrow> L \<subseteq> L' \<Longrightarrow> sound k L' C rt"
  unfolding sound_def using runtime_inv_log by blast

lemma sound_weaken: "sound k L C rt \<Longrightarrow> (\<And>p i. C p i \<Longrightarrow> C' p i) \<Longrightarrow> sound k L C' rt"
  unfolding sound_def by blast

lemma default_ok [simp]: "entry_ok k L G p default_pane"
  using store_wf_new by (simp add: entry_ok_def default_pane_def store_attested_def coverage_ok_def store_new_def)

section \<open>Updates of one pane\<close>

lemma put_pane_of [simp]: "pane_of (put_pane p e rt) q = (if q = p then Some e else pane_of rt q)"
  by (simp add: pane_of_def put_pane_def put_sorted_map_of)

lemma put_pane_fields [simp]:
  "rt_next_owner (put_pane p e rt) = rt_next_owner rt" "rt_retained_bytes (put_pane p e rt) = rt_retained_bytes rt"
  by (simp_all add: put_pane_def)

lemma binding_put [simp]: "binding_of (put_pane p e rt) q = (if q = p then pg_binding e else binding_of rt q)"
  by (simp add: binding_of_def)

lemma pane_of_other [simp]:
  "pane_of (rt\<lparr>rt_retained_bytes := n\<rparr>) = pane_of rt" "pane_of (rt\<lparr>rt_next_owner := m\<rparr>) = pane_of rt"
  "binding_of (rt\<lparr>rt_retained_bytes := n\<rparr>) = binding_of rt" "binding_of (rt\<lparr>rt_next_owner := m\<rparr>) = binding_of rt"
  by (simp_all add: pane_of_def binding_of_def fun_eq_iff)

lemma ordered_sum:
  fixes f :: "'v \<Rightarrow> nat"
  assumes "ordered_keys xs"
  shows "sum_list (map (\<lambda>(_, v). f v) (put_sorted k v xs)) + (case map_of xs k of None \<Rightarrow> 0 | Some u \<Rightarrow> f u)
    = sum_list (map (\<lambda>(_, v). f v) xs) + f v"
  using assms
proof (induction xs)
  case (Cons x xs)
  obtain l u where x: "x = (l, u)" by (cases x)
  have "k < l \<Longrightarrow> map_of xs k = None" using Cons.prems by (auto simp: x map_of_eq_None_iff)
  then show ?case using Cons by (auto simp: x)
qed simp

lemma inv_entry:
  assumes "runtime_inv k L G rt"
  shows "entry_ok k L G p (entry_of rt p)"
proof (cases "pane_of rt p")
  case (Some e)
  then have "(p, e) \<in> set (rt_panes rt)" by (simp add: pane_of_def map_of_SomeD)
  then show ?thesis using assms Some by (auto simp: runtime_inv_def entry_of_def)
qed (simp add: entry_of_def)

lemma inv_pane: "runtime_inv k L G rt \<Longrightarrow> pane_of rt p = Some e \<Longrightarrow> entry_ok k L G p e"
  using inv_entry [of k L G rt p] by (simp add: entry_of_def)

lemma entry_default_bytes [simp]: "retained_bytes (pg_store default_pane) = 0"
  by (simp add: default_pane_def)

lemma stored_put:
  "ordered_keys (rt_panes rt) \<Longrightarrow>
     stored_total (put_pane p e rt) + retained_bytes (pg_store (entry_of rt p)) = stored_total rt + retained_bytes (pg_store e)"
  using ordered_sum [of "rt_panes rt" "\<lambda>e. retained_bytes (pg_store e)" p e]
  by (simp add: stored_total_def put_pane_def entry_of_def pane_of_def split: option.splits)

lemma inv_bytes: "runtime_inv k L G rt \<Longrightarrow> retained_bytes (pg_store (entry_of rt p)) \<le> rt_retained_bytes rt"
proof -
  assume inv: "runtime_inv k L G rt"
  have "retained_bytes (pg_store (entry_of rt p)) \<le> stored_total rt"
  proof (cases "pane_of rt p")
    case (Some e)
    then have "(p, e) \<in> set (rt_panes rt)" by (simp add: pane_of_def map_of_SomeD)
    then have "retained_bytes (pg_store e) \<le> stored_total rt"
      unfolding stored_total_def by (intro member_le_sum_list [where ?'a = nat]) force+
    then show ?thesis using Some by (simp add: entry_of_def)
  qed (simp add: entry_of_def)
  then show ?thesis using inv by (simp add: runtime_inv_def)
qed

text \<open>The runtime after a pane's entry was replaced and its bytes accounted for.\<close>

definition replaced :: "pane_id \<Rightarrow> pane_program \<Rightarrow> u64 \<Rightarrow> program_runtime \<Rightarrow> program_runtime" where
  "replaced p e n rt =
     put_pane p e (rt\<lparr>rt_retained_bytes := rt_retained_bytes rt - retained_bytes (pg_store (entry_of rt p)) + retained_bytes (pg_store e),
                    rt_next_owner := n\<rparr>)"

lemma replaced_inv:
  assumes inv: "runtime_inv k L G rt" and e: "entry_ok k L G' p e" and grows: "G \<subseteq>\<^sub>m G'"
    and owners: "rt_next_owner rt \<le> n" "\<forall>w. G' w \<noteq> None \<longrightarrow> w \<le> n"
    and bytes: "rt_retained_bytes rt - retained_bytes (pg_store (entry_of rt p)) + retained_bytes (pg_store e) \<le> MAX_PROGRAM_BYTES"
  shows "runtime_inv k L G' (replaced p e n rt)"
proof -
  let ?rt = "rt\<lparr>rt_retained_bytes := rt_retained_bytes rt - retained_bytes (pg_store (entry_of rt p)) + retained_bytes (pg_store e),
               rt_next_owner := n\<rparr>"
  have ordered: "ordered_keys (rt_panes rt)" using inv by (simp add: runtime_inv_def)
  have same: "stored_total ?rt = stored_total rt" "entry_of ?rt p = entry_of rt p"
    by (simp_all add: stored_total_def entry_of_def)
  have "stored_total (put_pane p e ?rt) + retained_bytes (pg_store (entry_of rt p)) = stored_total rt + retained_bytes (pg_store e)"
    using stored_put [of ?rt p e] ordered same by simp
  then have total: "rt_retained_bytes (replaced p e n rt) = stored_total (replaced p e n rt)"
    using inv inv_bytes [OF inv, of p] by (simp add: replaced_def runtime_inv_def)
  have "entry_ok k L G' q f" if "(q, f) \<in> set (rt_panes (replaced p e n rt))" for q f
  proof -
    have "(q, f) = (p, e) \<or> (q, f) \<in> set (rt_panes rt)"
      using that put_sorted_set [of p e "rt_panes rt"] by (auto simp: replaced_def put_pane_def)
    moreover have "entry_ok k L G q f" if "(q, f) \<in> set (rt_panes rt)"
      using that inv by (auto simp: runtime_inv_def)
    ultimately show ?thesis using e entry_ok_mono [OF _ subset_refl grows] by blast
  qed
  moreover have "ordered_keys (rt_panes (replaced p e n rt))"
    using ordered by (simp add: replaced_def put_pane_def put_sorted_ordered)
  ultimately show ?thesis
    using total bytes owners(2) unfolding runtime_inv_def by (simp add: replaced_def split_def)
qed

lemma reaccount_safe:
  assumes "runtime_inv k L G rt"
  shows "reaccount (retained_bytes (pg_store (entry_of rt p))) new rt =
    Inr (rt\<lparr>rt_retained_bytes := rt_retained_bytes rt - retained_bytes (pg_store (entry_of rt p)) + new\<rparr>)"
  using inv_bytes [OF assms, of p] by (simp add: reaccount_def checked_sub_def)

end
