(* ===== verification/Runtime_Steps.thy ===== *)
theory Runtime_Steps
  imports Runtime_Invariant
begin

text \<open>Every operation of the program runtime keeps its invariant and never fails an internal assumption.\<close>

section \<open>Stores\<close>

definition comes_from :: "record_store \<Rightarrow> record_store \<Rightarrow> bool" where
  "comes_from st st' = (\<forall>e' \<in> set (st_records st'). \<exists>e \<in> set (st_records st). evolves e e')"

lemma comes_attested: "comes_from st st' \<Longrightarrow> store_attested k L G p st \<Longrightarrow> store_attested k L G p st'"
  unfolding comes_from_def store_attested_def evolves_def by fastforce

lemma comes_invalidated: "comes_from st (invalidate_episode st)"
  using evolves_retire by (auto simp: comes_from_def invalidate_episode_def)

lemma comes_lifecycle: "comes_from st (store_lifecycle ev st)"
  using evolves_retire by (cases ev) (auto simp: comes_from_def)

lemma comes_new: "comes_from st store_new"
  by (simp add: comes_from_def store_new_def)

lemma comes_revoked: "comes_from st (revoked_store reason departure st)"
  unfolding revoked_store_def using comes_invalidated comes_lifecycle [of st AttachedProcessExit] comes_new
  by (simp del: store_lifecycle.simps)

lemma revoked_wf: "store_wf st \<Longrightarrow> store_wf (revoked_store reason departure st)"
  using store_wf_new by (simp add: revoked_store_def invalidate_episode_wf store_lifecycle_wf del: store_lifecycle.simps)

section \<open>Revocation\<close>

text \<open>Bindings elsewhere are untouched.\<close>

definition only_at :: "pane_id \<Rightarrow> program_runtime \<Rightarrow> program_runtime \<Rightarrow> bool" where
  "only_at p rt rt' = (\<forall>q. q \<noteq> p \<longrightarrow> binding_of rt' q = binding_of rt q)"

lemma sound_replaced:
  assumes inv: "runtime_inv k L G rt" and C: "\<forall>q b. q \<noteq> p \<longrightarrow> binding_of rt q = Some b \<longrightarrow> C q (bd_identity b)"
    and e: "entry_ok k L G' p e" and grows: "G \<subseteq>\<^sub>m G'"
    and owners: "rt_next_owner rt \<le> n" "\<forall>w. G' w \<noteq> None \<longrightarrow> w \<le> n"
    and bytes: "rt_retained_bytes rt - retained_bytes (pg_store (entry_of rt p)) + retained_bytes (pg_store e) \<le> MAX_PROGRAM_BYTES"
    and Cp: "is_none_or (pg_binding e) (\<lambda>b. C p (bd_identity b))"
  shows "sound k L C (replaced p e n rt)"
proof -
  have "runtime_inv k L G' (replaced p e n rt)" by (rule replaced_inv [OF inv e grows owners bytes])
  then show ?thesis
    using C Cp by (auto simp: sound_def replaced_def is_none_or_iff)
qed

lemma smaller_bytes:
  assumes "runtime_inv k L G rt" and "retained_bytes st \<le> retained_bytes (pg_store (entry_of rt p))"
  shows "rt_retained_bytes rt - retained_bytes (pg_store (entry_of rt p)) + retained_bytes st \<le> MAX_PROGRAM_BYTES"
  using assms inv_bytes [OF assms(1), of p] unfolding runtime_inv_def by linarith

lemma add_release_runtime [simp]:
  "wk_runtime (add_release r w) = wk_runtime w" "wk_collector (add_release r w) = wk_collector w"
  by (simp_all add: add_release_def)

lemma revoke_sound:
  assumes "sound k L (\<lambda>q i. q \<noteq> p \<longrightarrow> C q i) (wk_runtime w)"
  shows "safe (\<lambda>w'. sound k L C (wk_runtime w') \<and> binding_of (wk_runtime w') p = None \<and> only_at p (wk_runtime w) (wk_runtime w'))
    (revoke p reason departure w :: 'e runtime_panic + 'c work)"
proof -
  obtain G where inv: "runtime_inv k L G (wk_runtime w)"
    and C: "\<forall>q b. q \<noteq> p \<longrightarrow> binding_of (wk_runtime w) q = Some b \<longrightarrow> C q (bd_identity b)"
    using assms by (auto simp: sound_def)
  let ?e = "entry_of (wk_runtime w) p" and ?rt = "wk_runtime w"
  let ?st = "revoked_store reason departure (pg_store ?e)"
  let ?e' = "?e\<lparr>pg_store := ?st, pg_binding := None, pg_coverage := Recovering reason\<rparr>"
  have ok: "entry_ok k L G p ?e'"
    using inv_entry [OF inv, of p] by (auto simp: entry_ok_def coverage_ok_def revoked_wf intro: comes_attested [OF comes_revoked])
  have "sound k L C (replaced p ?e' (rt_next_owner ?rt) ?rt)"
    using inv smaller_bytes [OF inv retained_revoked, of p]
    by (intro sound_replaced [OF inv C ok]) (simp_all add: runtime_inv_def)
  moreover obtain w' where "(revoke p reason departure w :: 'e runtime_panic + 'c work) = Inr w'" "wk_runtime w' = replaced p ?e' (rt_next_owner ?rt) ?rt"
    by (cases "pg_binding ?e") (simp_all add: revoke_def Let_def reaccount_safe [OF inv] replaced_def)
  ultimately show ?thesis by (simp add: only_at_def replaced_def)
qed

lemma drop_stream_runtime: "safe (\<lambda>w'. wk_runtime w' = wk_runtime w \<and> wk_batch w' = wk_batch w) (drop_stream pc p reason w)"
  by (cases "pc_invalidate pc p reason (wk_collector w)") (simp_all add: drop_stream_def)

lemma prepare_runtime:
  assumes "sound k L C (wk_runtime w)"
  shows "safe (\<lambda>w'. wk_runtime w' = wk_runtime w \<and> wk_batch w' = wk_batch w) (prepare_collection pc w)"
proof -
  have "rt_retained_bytes (wk_runtime w) \<le> MAX_PROGRAM_BYTES" using assms by (auto simp: sound_def runtime_inv_def)
  then show ?thesis
    by (cases "pc_set_payload_budget pc (MAX_PROGRAM_BYTES - rt_retained_bytes (wk_runtime w)) (wk_collector w)")
      (simp_all add: prepare_collection_def checked_sub_def)
qed

lemma prepare_sound: "sound k L C (wk_runtime w) \<Longrightarrow> safe (\<lambda>w'. sound k L C (wk_runtime w')) (prepare_collection pc w)"
  using prepare_runtime by (rule safe_mono) auto

lemma drop_stream_sound: "sound k L C (wk_runtime w) \<Longrightarrow> safe (\<lambda>w'. sound k L C (wk_runtime w')) (drop_stream pc p reason w)"
  using drop_stream_runtime by (rule safe_mono) auto

lemma filter_ordered: "ordered_keys xs \<Longrightarrow> ordered_keys (filter P xs)"
  by (simp add: sorted_wrt_map sorted_wrt_filter)

lemma filter_total:
  fixes f :: "'v \<Rightarrow> nat"
  assumes "ordered_keys xs"
  shows "sum_list (map (\<lambda>(_, v). f v) (filter (\<lambda>(q, _). q \<noteq> k) xs)) + (case map_of xs k of None \<Rightarrow> 0 | Some u \<Rightarrow> f u)
    = sum_list (map (\<lambda>(_, v). f v) xs)"
  using assms
proof (induction xs)
  case (Cons x xs)
  obtain l u where x: "x = (l, u)" by (cases x)
  have "k = l \<Longrightarrow> filter (\<lambda>(q, _). q \<noteq> k) xs = xs" using Cons.prems by (force simp: x intro: filter_True)
  then show ?case using Cons by (auto simp: x)
qed simp

lemma map_of_drop_key: "map_of (filter (\<lambda>(q, _). q \<noteq> k) xs) p = (if p = k then None else map_of xs p)"
  by (induction xs) auto

lemma remove_sound:
  assumes "sound k L C (wk_runtime w)"
  shows "safe (\<lambda>w'. sound k L C (wk_runtime w') \<and> pane_of (wk_runtime w') p = None
      \<and> (\<forall>q. q \<noteq> p \<longrightarrow> pane_of (wk_runtime w') q = pane_of (wk_runtime w) q))
    (remove_pane (pc :: ('c, 'e) program_collector) p w)"
proof (cases "pane_of (wk_runtime w) p")
  case None
  then show ?thesis using assms by (simp add: remove_pane_def)
next
  case (Some e)
  let ?rt = "wk_runtime w"
  obtain G where inv: "runtime_inv k L G ?rt" and C: "\<forall>p b. binding_of ?rt p = Some b \<longrightarrow> C p (bd_identity b)"
    using assms by (auto simp: sound_def)
  let ?rt' = "?rt\<lparr>rt_retained_bytes := rt_retained_bytes ?rt - retained_bytes (pg_store e),
                rt_panes := filter (\<lambda>(q, _). q \<noteq> p) (rt_panes ?rt)\<rparr>"
  have ordered: "ordered_keys (rt_panes ?rt)" using inv by (simp add: runtime_inv_def)
  have panes: "pane_of ?rt' q = (if q = p then None else pane_of ?rt q)" for q
    by (simp add: pane_of_def map_of_drop_key)
  have "stored_total ?rt' + retained_bytes (pg_store e) = stored_total ?rt"
    using filter_total [OF ordered, of "\<lambda>e. retained_bytes (pg_store e)" p] Some by (simp add: stored_total_def pane_of_def)
  then have "runtime_inv k L G ?rt'"
    using inv ordered by (auto simp: runtime_inv_def filter_ordered)
  then have "sound k L C ?rt'" using C by (auto simp: sound_def binding_of_def panes)
  moreover have "(reaccount (retained_bytes (pg_store e)) 0 ?rt :: 'e runtime_panic + program_runtime) = Inr (?rt\<lparr>rt_retained_bytes := rt_retained_bytes ?rt - retained_bytes (pg_store e)\<rparr>)"
    using reaccount_safe [OF inv, of p 0] Some by (simp add: entry_of_def)
  ultimately show ?thesis
    using Some panes by (auto simp: remove_pane_def intro: safe_mono [OF drop_stream_runtime])
qed

section \<open>Binding\<close>

lemma fresh_owner:
  assumes "runtime_inv k L G rt" and "n = rt_next_owner rt + 1"
  shows "G \<subseteq>\<^sub>m G(n \<mapsto> x)" and "\<forall>w. (G(n \<mapsto> x)) w \<noteq> None \<longrightarrow> w \<le> n"
proof -
  have known: "w \<le> rt_next_owner rt" if "G w \<noteq> None" for w using assms(1) that by (simp add: runtime_inv_def)
  then have "G n = None" using assms(2) by fastforce
  then show "G \<subseteq>\<^sub>m G(n \<mapsto> x)" by (auto simp: map_le_def)
  show "\<forall>w. (G(n \<mapsto> x)) w \<noteq> None \<longrightarrow> w \<le> n" using known assms(2) by fastforce
qed

lemma next_owner_cases:
  obtains (full) "(next_owner rt :: 'e runtime_panic + _) = Inl OwnersExhausted"
  | (fresh) "(next_owner rt :: 'e runtime_panic + _) = Inr (rt_next_owner rt + 1, rt\<lparr>rt_next_owner := rt_next_owner rt + 1\<rparr>)"
  by (cases "checked_add (rt_next_owner rt) 1") (auto simp: next_owner_def checked_add_def split: if_splits)

text \<open>A pane's entry under a new episode, with a store that came from its own.\<close>

lemma rebound_sound:
  assumes inv: "runtime_inv k L G rt" and C: "\<forall>q b. q \<noteq> p \<longrightarrow> binding_of rt q = Some b \<longrightarrow> C q (bd_identity b)"
    and st: "comes_from (pg_store (entry_of rt p)) (pg_store e)" "store_wf (pg_store e)"
      "retained_bytes (pg_store e) \<le> retained_bytes (pg_store (entry_of rt p))"
    and b: "pg_binding e = Some b" "bd_owner b = rt_next_owner rt + 1" "rc_chain (bd_identity b) \<noteq> []"
      "ob_floor (bd_boundary b) \<le> bd_sequence b" "C p (bd_identity b)"
    and cov: "pg_coverage e \<noteq> CoverageActive"
  shows "sound k L C (replaced p e (rt_next_owner rt + 1) rt)"
proof (rule sound_replaced [OF inv C, where G' = "G(rt_next_owner rt + 1 \<mapsto> (p, bd_identity b, bd_boundary b))"])
  note grows = fresh_owner [OF inv refl]
  have "store_attested k L G p (pg_store e)"
    using inv_entry [OF inv, of p] by (auto simp: entry_ok_def intro: comes_attested [OF st(1)])
  then have "store_attested k L (G(rt_next_owner rt + 1 \<mapsto> (p, bd_identity b, bd_boundary b))) p (pg_store e)"
    using grows(1) by (rule store_attested_mono [OF _ subset_refl])
  then show "entry_ok k L (G(rt_next_owner rt + 1 \<mapsto> (p, bd_identity b, bd_boundary b))) p e"
    using st(2) b cov by (simp add: entry_ok_def binding_ok_def coverage_ok_def)
  show "G \<subseteq>\<^sub>m G(rt_next_owner rt + 1 \<mapsto> (p, bd_identity b, bd_boundary b))" by (rule grows(1))
  show "\<forall>w. (G(rt_next_owner rt + 1 \<mapsto> (p, bd_identity b, bd_boundary b))) w \<noteq> None \<longrightarrow> w \<le> rt_next_owner rt + 1"
    by (rule grows(2))
  show "rt_retained_bytes rt - retained_bytes (pg_store (entry_of rt p)) + retained_bytes (pg_store e) \<le> MAX_PROGRAM_BYTES"
    by (rule smaller_bytes [OF inv st(3)])
  show "is_none_or (pg_binding e) (\<lambda>b. C p (bd_identity b))" using b(1,5) by simp
qed simp

text \<open>A pane's entry without a binding.\<close>

lemma unbound_sound:
  assumes inv: "runtime_inv k L G rt" and C: "\<forall>q b. q \<noteq> p \<longrightarrow> binding_of rt q = Some b \<longrightarrow> C q (bd_identity b)"
    and st: "comes_from (pg_store (entry_of rt p)) (pg_store e)" "store_wf (pg_store e)"
      "retained_bytes (pg_store e) \<le> retained_bytes (pg_store (entry_of rt p))"
    and e: "pg_binding e = None" "pg_coverage e \<noteq> CoverageActive" and n: "n = rt_next_owner rt"
  shows "sound k L C (replaced p e n rt)"
proof (rule sound_replaced [OF inv C])
  have "store_attested k L G p (pg_store e)"
    using inv_entry [OF inv, of p] by (auto simp: entry_ok_def intro: comes_attested [OF st(1)])
  then show "entry_ok k L G p e" using st(2) e by (simp add: entry_ok_def coverage_ok_def)
  show "rt_retained_bytes rt - retained_bytes (pg_store (entry_of rt p)) + retained_bytes (pg_store e) \<le> MAX_PROGRAM_BYTES"
    by (rule smaller_bytes [OF inv st(3)])
  show "\<forall>w. G w \<noteq> None \<longrightarrow> w \<le> n" using inv by (simp add: runtime_inv_def n)
qed (simp_all add: e n)

lemma rebind_sound:
  assumes sound: "sound k L (\<lambda>q i. q \<noteq> p \<longrightarrow> C q i) (wk_runtime w)" and ident: "C p ident" "rc_chain ident \<noteq> []"
  shows "safe (\<lambda>w'. sound k L C (wk_runtime w') \<and> only_at p (wk_runtime w) (wk_runtime w'))
    (rebind_pane (pc :: ('c, 'e) program_collector) p ident w)"
proof -
  let ?rt = "wk_runtime w" and ?e = "entry_of (wk_runtime w) p"
  obtain G where inv: "runtime_inv k L G ?rt" and C: "\<forall>q b. q \<noteq> p \<longrightarrow> binding_of ?rt q = Some b \<longrightarrow> C q (bd_identity b)"
    using sound by (auto simp: sound_def)
  let ?st = "invalidate_episode (pg_store ?e)"
  let ?rt1 = "?rt\<lparr>rt_retained_bytes := rt_retained_bytes ?rt - retained_bytes (pg_store ?e) + retained_bytes ?st\<rparr>"
  have wf: "store_wf ?st" using inv_entry [OF inv, of p] by (simp add: entry_ok_def invalidate_episode_wf)
  define w1 where "w1 = (if binding_of ?rt p \<noteq> None
    then add_release (release_of p (map_option bd_owner (binding_of ?rt p)) IdentityChanged) w else w)"
  have w1: "wk_runtime w1 = ?rt" "wk_collector w1 = wk_collector w" by (simp_all add: w1_def)
  define e1 where "e1 = ?e\<lparr>pg_store := ?st, pg_presented := (if pg_presented_chain ?e = rc_chain ident then pg_presented ?e else None),
    pg_presented_chain := (if pg_presented_chain ?e = rc_chain ident then pg_presented_chain ?e else [])\<rparr>"
  have e1: "pg_store e1 = ?st" by (simp add: e1_def)
  have unfolded: "rebind_pane pc p ident w =
      (case pc_boundary pc p (wk_collector w) of
         Inl e \<Rightarrow> Inl (CollectorFailed e)
       | Inr (None, c) \<Rightarrow>
           Inr (w1\<lparr>wk_collector := c, wk_runtime := put_pane p (e1\<lparr>pg_binding := None, pg_coverage := Recovering NoStream\<rparr>) ?rt1\<rparr>)
       | Inr (Some bd, c) \<Rightarrow>
           map_sum id (\<lambda>(n, rt1). w1\<lparr>wk_collector := c, wk_runtime := put_pane p
               (e1\<lparr>pg_binding := Some \<lparr>bd_identity = ident, bd_owner = n, bd_boundary = bd, bd_sequence = ob_floor bd,
                                    bd_cycle_floor = st_cycle ?st\<rparr>, pg_coverage := Recovering BindingBoundary\<rparr>) rt1\<rparr>)
           (next_owner ?rt1))"
    by (cases "binding_of ?rt p"; cases "pg_presented_chain ?e = rc_chain ident";
        simp add: rebind_pane_def Let_def reaccount_safe [OF inv] w1_def e1_def split: sum.split option.split)
  show ?thesis
  proof (cases "pc_boundary pc p (wk_collector w)")
    case (Inr r)
    obtain boundary c where r: "r = (boundary, c)" by (cases r)
    show ?thesis
    proof (cases boundary)
      case None
      have "sound k L C (replaced p (e1\<lparr>pg_binding := None, pg_coverage := Recovering NoStream\<rparr>) (rt_next_owner ?rt) ?rt)"
        by (rule unbound_sound [OF inv C]) (simp_all add: e1 wf comes_invalidated retained_invalidated)
      then show ?thesis using Inr r None by (simp add: unfolded only_at_def replaced_def e1)
    next
      case (Some bd)
      show ?thesis
      proof (cases rule: next_owner_cases [where 'e = 'e, of ?rt1])
        case full
        then show ?thesis using Inr r Some by (simp add: unfolded)
      next
        case fresh
        let ?b = "\<lparr>bd_identity = ident, bd_owner = rt_next_owner ?rt + 1, bd_boundary = bd, bd_sequence = ob_floor bd,
          bd_cycle_floor = st_cycle ?st\<rparr>"
        have "sound k L C (replaced p (e1\<lparr>pg_binding := Some ?b, pg_coverage := Recovering BindingBoundary\<rparr>) (rt_next_owner ?rt + 1) ?rt)"
          by (rule rebound_sound [OF inv C, where b = ?b]) (simp_all add: e1 wf comes_invalidated retained_invalidated ident)
        then show ?thesis using Inr r Some fresh by (simp add: unfolded only_at_def replaced_def e1)
      qed
    qed
  qed (simp add: unfolded)
qed

lemma sound_off: "sound k L C rt \<Longrightarrow> sound k L (\<lambda>q i. q \<noteq> p \<longrightarrow> C q i) rt"
  by (auto simp: sound_def)

lemma revoke_keeps:
  "sound k L C (wk_runtime w) \<Longrightarrow> safe (\<lambda>w'. sound k L C (wk_runtime w')) (revoke p reason departure w :: 'e runtime_panic + 'c work)"
  by (rule safe_mono [OF revoke_sound [OF sound_off]]) auto

lemma recognized_chain: "recognize k pane snapshot prior = Inr ident \<Longrightarrow> rc_chain ident \<noteq> []"
proof -
  have "chain' \<noteq> []" if "ancestry_from n snapshot root pid chain = Inr chain'" for n root pid chain chain'
    using that by (induction n arbitrary: pid chain) (auto split: sum.splits if_splits option.splits)
  then have "ancestry snapshot root pid = Inr chain \<Longrightarrow> chain \<noteq> []" for root pid chain by (simp add: ancestry_def)
  moreover assume "recognize k pane snapshot prior = Inr ident"
  then obtain root pid where "ancestry snapshot root pid = Inr (rc_chain ident)"
    by (auto simp: recognize_def Let_def map_sum_Inr split: if_splits option.splits sum.splits pane_identity.splits)
  ultimately show ?thesis by blast
qed

lemma bind_sound:
  assumes sound: "sound k L (\<lambda>p i. p \<in> live \<and> (p \<in> D \<longrightarrow> shown k panes (Inr snapshot) p i)) (wk_runtime w)"
    and pane: "pane \<in> set panes" "pn_pane pane \<in> live"
  shows "safe (\<lambda>w'. sound k L (\<lambda>p i. p \<in> live \<and> (p \<in> insert (pn_pane pane) D \<longrightarrow> shown k panes (Inr snapshot) p i)) (wk_runtime w'))
    (bind_pane pc k snapshot pane w)"
proof (cases "recognize k pane snapshot (binding_of (wk_runtime w) (pn_pane pane))")
  case (Inl reason)
  have "sound k L (\<lambda>q i. q \<noteq> pn_pane pane \<longrightarrow> q \<in> live \<and> (q \<in> insert (pn_pane pane) D \<longrightarrow> shown k panes (Inr snapshot) q i)) (wk_runtime w)"
    using sound by (rule sound_weaken) auto
  from revoke_sound [OF this, of reason True] show ?thesis
    using Inl by (auto simp: bind_pane_def Let_def intro!: safe_bind [OF _ drop_stream_sound] elim: safe_mono)
next
  case (Inr ident)
  have ident: "shown k panes (Inr snapshot) (pn_pane pane) ident" "rc_chain ident \<noteq> []"
    using pane(1) Inr recognized_chain [OF Inr] by (auto simp: shown_def)
  show ?thesis
  proof (cases "is_some_and (binding_of (wk_runtime w) (pn_pane pane)) (\<lambda>b. bd_identity b = ident)")
    case True
    then have "sound k L (\<lambda>p i. p \<in> live \<and> (p \<in> insert (pn_pane pane) D \<longrightarrow> shown k panes (Inr snapshot) p i)) (wk_runtime w)"
      using sound ident by (auto simp: sound_def is_some_and_iff)
    then show ?thesis using Inr True by (simp add: bind_pane_def)
  next
    case False
    have "sound k L (\<lambda>q i. q \<noteq> pn_pane pane \<longrightarrow> q \<in> live \<and> (q \<in> insert (pn_pane pane) D \<longrightarrow> shown k panes (Inr snapshot) q i)) (wk_runtime w)"
      using sound by (rule sound_weaken) auto
    from rebind_sound [OF this, of ident pc] show ?thesis
      using Inr False ident pane(2) by (auto simp: bind_pane_def elim: safe_mono)
  qed
qed

lemma safe_each_grows:
  assumes "P D w" and "\<And>x D w. x \<in> set xs \<Longrightarrow> P D w \<Longrightarrow> safe (P (insert (f x) D)) (g x w)"
  shows "safe (P (D \<union> f ` set xs)) (each g xs w)"
  using assms
proof (induction xs arbitrary: D w)
  case (Cons x xs)
  have "safe (P (insert (f x) D)) (g x w)" using Cons.prems by simp
  moreover have "safe (P (D \<union> f ` set (x # xs))) (each g xs v)" if "P (insert (f x) D) v" for v
    using Cons.IH [OF that] Cons.prems(2) by simp
  ultimately show ?case by (auto intro: safe_bind)
qed simp

lemma bind_all_sound:
  assumes "sound k L (\<lambda>p _. p \<in> pn_pane ` set panes) (wk_runtime w)"
  shows "safe (\<lambda>w'. sound k L (shown k panes (Inr snapshot)) (wk_runtime w')) (each (bind_pane pc k snapshot) panes w)"
proof -
  let ?P = "\<lambda>D w. sound k L (\<lambda>p i. p \<in> pn_pane ` set panes \<and> (p \<in> D \<longrightarrow> shown k panes (Inr snapshot) p i)) (wk_runtime w)"
  have "safe (?P ({} \<union> pn_pane ` set panes)) (each (bind_pane pc k snapshot) panes w)"
  proof (rule safe_each_grows [where f = pn_pane])
    show "?P {} w" using assms by (simp add: sound_def)
    show "safe (?P (insert (pn_pane x) D)) (bind_pane pc k snapshot x v)" if "x \<in> set panes" "?P D v" for x D v
      using bind_sound [OF that(2,1)] that(1) by simp
  qed
  then show ?thesis by (rule safe_mono) (auto elim: sound_weaken)
qed

section \<open>Gaps\<close>

lemma pane_entry: "pane_of rt p = Some e \<Longrightarrow> entry_of rt p = e"
  by (simp add: entry_of_def)

text \<open>A pane's entry under its own binding, with a store that came from its own.\<close>

lemma kept_sound:
  assumes inv: "runtime_inv k L G rt" and C: "\<forall>q b. binding_of rt q = Some b \<longrightarrow> C q (bd_identity b)"
    and st: "comes_from (pg_store (entry_of rt p)) (pg_store e)" "store_wf (pg_store e)"
      "retained_bytes (pg_store e) \<le> retained_bytes (pg_store (entry_of rt p))"
    and e: "pane_of rt p = Some f" "pg_binding e = pg_binding f" "pg_coverage e = pg_coverage f" and n: "n = rt_next_owner rt"
  shows "sound k L C (replaced p e n rt)"
proof (rule sound_replaced [OF inv])
  have ok: "entry_ok k L G p f" by (rule inv_pane [OF inv e(1)])
  then show "entry_ok k L G p e"
    using st(2) e(2,3) by (auto simp: entry_ok_def coverage_ok_def intro: comes_attested [OF st(1)[unfolded pane_entry [OF e(1)]]])
  show "rt_retained_bytes rt - retained_bytes (pg_store (entry_of rt p)) + retained_bytes (pg_store e) \<le> MAX_PROGRAM_BYTES"
    by (rule smaller_bytes [OF inv st(3)])
  show "\<forall>w. G w \<noteq> None \<longrightarrow> w \<le> n" using inv by (simp add: runtime_inv_def n)
  show "is_none_or (pg_binding e) (\<lambda>b. C p (bd_identity b))"
    using C e by (auto simp: binding_of_def is_none_or_iff)
qed (use C in \<open>simp_all add: n\<close>)

lemma replaced_eq:
  "replaced p e (rt_next_owner rt) rt = put_pane p e
     (rt\<lparr>rt_retained_bytes := rt_retained_bytes rt - retained_bytes (pg_store (entry_of rt p)) + retained_bytes (pg_store e)\<rparr>)"
  by (simp add: replaced_def)

lemma replaced_same:
  assumes "runtime_inv k L G rt" and "retained_bytes (pg_store e) = retained_bytes (pg_store (entry_of rt p))"
  shows "replaced p e (rt_next_owner rt) rt = put_pane p e rt"
  using inv_bytes [OF assms(1), of p] by (simp add: replaced_eq assms(2))

text \<open>The gap on an entry whose store may just have been evicted.\<close>

lemma regap_sound:
  assumes inv: "runtime_inv k L G rt" and C: "\<forall>q b. binding_of rt q = Some b \<longrightarrow> C q (bd_identity b)"
    and e0: "pane_of rt (oe_pane obs) = Some e0" "pg_binding e0 = Some b"
    and e: "e = e0\<lparr>pg_store := st\<rparr>" "comes_from (pg_store e0) st" "store_wf st" "retained_bytes st \<le> retained_bytes (pg_store e0)"
    and w: "wk_runtime w = rt\<lparr>rt_retained_bytes := rt_retained_bytes rt - retained_bytes (pg_store e0) + retained_bytes st\<rparr>"
  shows "safe (\<lambda>w'. sound k L C (wk_runtime w')) (regap_pane obs reason e b w :: 'e runtime_panic + 'c work)"
proof -
  let ?p = "oe_pane obs"
  have entry: "entry_of rt ?p = e0" by (rule pane_entry [OF e0(1)])
  have bytes: "retained_bytes (pg_store e0) \<le> rt_retained_bytes rt" using inv_bytes [OF inv, of ?p] entry by simp
  have ok: "entry_ok k L G ?p e0" by (rule inv_pane [OF inv e0(1)])
  show ?thesis
  proof (cases "ob_connection (bd_boundary b) = oe_connection obs \<and> ob_floor (bd_boundary b) = oe_sequence obs")
    case True
    have "sound k L C (replaced ?p e (rt_next_owner rt) rt)"
      by (rule kept_sound [OF inv C _ _ _ e0(1)]) (simp_all add: e entry)
    then show ?thesis using True by (simp add: regap_pane_def replaced_def w e(1) entry)
  next
    case False
    let ?st = "invalidate_episode st"
    have from_e0: "comes_from (pg_store e0) ?st"
      using e(2) comes_invalidated [of st] evolves_trans unfolding comes_from_def by meson
    have account: "(reaccount (retained_bytes st) (retained_bytes ?st) (wk_runtime w) :: 'e runtime_panic + _)
        = Inr (rt\<lparr>rt_retained_bytes := rt_retained_bytes rt - retained_bytes (pg_store e0) + retained_bytes ?st\<rparr>)"
      using bytes by (simp add: reaccount_def w checked_sub_def)
    let ?b = "\<lambda>n. b\<lparr>bd_owner := n, bd_cycle_floor := st_cycle ?st,
        bd_boundary := \<lparr>ob_connection = oe_connection obs, ob_floor = oe_sequence obs\<rparr>, bd_sequence := oe_sequence obs\<rparr>"
    let ?e = "\<lambda>n. e\<lparr>pg_store := ?st, pg_binding := Some (?b n), pg_coverage := Recovering (RObservation reason)\<rparr>"
    have "C ?p (bd_identity b)" "rc_chain (bd_identity b) \<noteq> []"
      using C ok e0 by (auto simp: binding_of_def entry_ok_def binding_ok_def)
    then have "sound k L C (replaced ?p (?e (rt_next_owner rt + 1)) (rt_next_owner rt + 1) rt)"
      using C from_e0 e(3,4) retained_invalidated [of st]
      by (intro rebound_sound [OF inv, where b = "?b (rt_next_owner rt + 1)"]) (auto simp: entry invalidate_episode_wf)
    moreover have "regap_pane obs reason e b w = map_sum id (\<lambda>(n, rt1).
          add_release (release_of ?p (Some (bd_owner b)) (RObservation reason))
            (w\<lparr>wk_runtime := put_pane ?p (?e n) rt1\<rparr>))
        (next_owner (rt\<lparr>rt_retained_bytes := rt_retained_bytes rt - retained_bytes (pg_store e0) + retained_bytes ?st\<rparr>)
          :: 'e runtime_panic + _)"
      unfolding regap_pane_def if_not_P [OF False] by (simp add: Let_def account e(1))
    ultimately show ?thesis
      by (cases rule: next_owner_cases [where 'e = 'e, of "rt\<lparr>rt_retained_bytes := rt_retained_bytes rt - retained_bytes (pg_store e0) + retained_bytes ?st\<rparr>"])
        (simp_all add: e(1) replaced_def entry)
  qed
qed

lemma gap_sound:
  assumes "sound k L C (wk_runtime w)"
  shows "safe (\<lambda>w'. sound k L C (wk_runtime w')) (apply_gap obs w :: 'e runtime_panic + 'c work)"
proof (cases "\<exists>reason e0. oe_event obs = EGap reason \<and> pane_of (wk_runtime w) (oe_pane obs) = Some e0")
  case False
  then show ?thesis using assms by (auto simp: apply_gap_def split: program_event.splits option.splits)
next
  case True
  then obtain reason e0 where ev: "oe_event obs = EGap reason" and e0: "pane_of (wk_runtime w) (oe_pane obs) = Some e0" by blast
  let ?rt = "wk_runtime w" and ?p = "oe_pane obs"
  obtain G where inv: "runtime_inv k L G ?rt" and C: "\<forall>q b. binding_of ?rt q = Some b \<longrightarrow> C q (bd_identity b)"
    using assms by (auto simp: sound_def)
  define st where "st = (if reason = BudgetExceeded then store_new else pg_store e0)"
  have entry: "entry_of ?rt ?p = e0" by (rule pane_entry [OF e0])
  have bytes: "retained_bytes (pg_store e0) \<le> rt_retained_bytes ?rt" using inv_bytes [OF inv, of ?p] entry by simp
  have st: "comes_from (pg_store e0) st" "store_wf st" "retained_bytes st \<le> retained_bytes (pg_store e0)"
    using inv_pane [OF inv e0] comes_new store_wf_new
    by (auto simp: st_def entry_ok_def comes_from_def intro: evolves_refl)
  let ?rt1 = "?rt\<lparr>rt_retained_bytes := rt_retained_bytes ?rt - retained_bytes (pg_store e0) + retained_bytes st\<rparr>"
  have first: "(if reason = BudgetExceeded then reaccount (retained_bytes (pg_store e0)) 0 ?rt else Inr ?rt :: 'e runtime_panic + _) = Inr ?rt1"
    using bytes by (simp add: st_def reaccount_def checked_sub_def)
  have unfolded: "(apply_gap obs w :: 'e runtime_panic + 'c work) = (case pg_binding e0 of
      None \<Rightarrow> Inr (w\<lparr>wk_runtime := put_pane ?p (e0\<lparr>pg_store := st\<rparr>) ?rt1\<rparr>)
    | Some b \<Rightarrow> regap_pane obs reason (e0\<lparr>pg_store := st\<rparr>) b (w\<lparr>wk_runtime := ?rt1\<rparr>))"
    using ev e0 first by (auto simp: apply_gap_def Let_def st_def split: option.split)
  show ?thesis
  proof (cases "pg_binding e0")
    case None
    have "sound k L C (replaced ?p (e0\<lparr>pg_store := st\<rparr>) (rt_next_owner ?rt) ?rt)"
      by (rule kept_sound [OF inv C _ _ _ e0]) (simp_all add: st entry)
    then show ?thesis using None by (simp add: unfolded replaced_def entry)
  next
    case (Some b)
    then show ?thesis
      using regap_sound [OF inv C e0 Some refl st, of "w\<lparr>wk_runtime := ?rt1\<rparr>" reason] by (simp add: unfolded)
  qed
qed

end
