(* ===== verification/Runtime_Events.thy ===== *)
theory Runtime_Events
  imports Runtime_Steps
begin

text \<open>
  Observations and whole batches of the program runtime keep its invariant: what a batch drained is
  attributed only to a binding that both of its samples confirm.
\<close>

section \<open>One event\<close>

lemma settle_coverage_fields:
  assumes "settle_coverage p ev e = (e', releases)"
  shows "pg_store e' = pg_store e" and "pg_binding e' = pg_binding e" and "coverage_ok e \<Longrightarrow> coverage_ok e'"
  using assms by (auto simp: settle_coverage_def coverage_ok_def split: option.splits if_splits)

lemma finish_sound:
  assumes inv: "runtime_inv k L G rt" and C: "\<forall>q b. q \<noteq> p \<longrightarrow> binding_of rt q = Some b \<longrightarrow> C q (bd_identity b)"
    and e: "entry_ok k L G' p e" and grows: "G \<subseteq>\<^sub>m G'"
    and owners: "rt_next_owner rt \<le> n" "\<forall>w. G' w \<noteq> None \<longrightarrow> w \<le> n"
    and bytes: "rt_retained_bytes rt - retained_bytes (pg_store (entry_of rt p)) + retained_bytes (pg_store e) \<le> MAX_PROGRAM_BYTES"
    and Cp: "is_none_or (pg_binding e) (\<lambda>b. C p (bd_identity b))"
    and w: "wk_runtime w = rt\<lparr>rt_next_owner := n\<rparr>" and old: "old = retained_bytes (pg_store (entry_of rt p))"
  shows "safe (\<lambda>w'. sound k L C (wk_runtime w')) (finish_event p ev old e w :: 'e runtime_panic + 'c work)"
proof -
  obtain e' releases where settled: "settle_coverage p ev e = (e', releases)" by fastforce
  note same = settle_coverage_fields [OF settled]
  have "sound k L C (replaced p e' n rt)"
  proof (rule sound_replaced [OF inv C])
    show "entry_ok k L G' p e'" using e same by (simp add: entry_ok_def)
  qed (use grows owners bytes Cp same in \<open>simp_all\<close>)
  moreover have "(reaccount old (retained_bytes (pg_store e)) (wk_runtime w) :: 'e runtime_panic + _)
      = Inr (rt\<lparr>rt_retained_bytes := rt_retained_bytes rt - retained_bytes (pg_store (entry_of rt p)) + retained_bytes (pg_store e),
               rt_next_owner := n\<rparr>)"
    using inv_bytes [OF inv, of p] by (simp add: reaccount_def checked_sub_def w old)
  ultimately show ?thesis by (simp add: finish_event_def settled replaced_def same)
qed

text \<open>What the current batch may add to a store.\<close>

definition admits ::
  "'re knowledge \<Rightarrow> batch_log set \<Rightarrow> pane_id \<Rightarrow> binding \<Rightarrow> program_command \<Rightarrow> bool" where
  "admits k L p b cmd = (\<forall>r. cmd = Replace r \<longrightarrow> attested k L p (bd_identity b) (bd_boundary b) r)"

lemma applied_attested:
  assumes "store_apply cmd at (Some (live_of b)) st = Some st'" and "store_wf st" and "store_attested k L G p st"
    and "G (bd_owner b) = Some (p, bd_identity b, bd_boundary b)" and "admits k L p b cmd"
  shows "store_attested k L G p st'"
  unfolding store_attested_def
proof (intro ballI allI impI)
  fix e' w assume e': "e' \<in> set (st_records st')" and w: "sr_observed_owner e' = Some w"
  obtain e where e: "evolves e e'"
    and origin: "e \<in> set (st_records st) \<or> (\<exists>r. cmd = Replace r \<and> pushed st r (Some (live_of b)) e)"
    using store_apply_origin [OF assms(1,2) e'] by blast
  have ew: "sr_observed_owner e = Some w" "sr_record e' = sr_record e" using e w by (auto simp: evolves_def)
  from origin show "\<exists>ident bd. G w = Some (p, ident, bd) \<and> attested k L p ident bd (sr_record e')"
  proof
    assume "e \<in> set (st_records st)"
    then show ?thesis using assms(3) ew by (auto simp: store_attested_def)
  next
    assume "\<exists>r. cmd = Replace r \<and> pushed st r (Some (live_of b)) e"
    then show ?thesis using assms(4,5) ew by (auto simp: pushed_def live_of_def admits_def)
  qed
qed

lemma evict_sound:
  assumes inv: "runtime_inv k L G (wk_runtime w)" and C: "\<forall>q b. binding_of (wk_runtime w) q = Some b \<longrightarrow> C q (bd_identity b)"
    and e: "pg_store e = pg_store (entry_of (wk_runtime w) p)"
  shows "safe (\<lambda>w'. sound k L C (wk_runtime w')) (evict_pane pc p e b w :: 'e runtime_panic + 'c work)"
proof -
  let ?rt = "wk_runtime w" and ?e = "e\<lparr>pg_store := store_new, pg_binding := None, pg_coverage := Recovering (RObservation BudgetExceeded)\<rparr>"
  have "sound k L C (replaced p ?e (rt_next_owner ?rt) ?rt)"
    using C store_wf_new by (intro unbound_sound [OF inv]) (simp_all add: comes_new)
  moreover have "(reaccount (retained_bytes (pg_store e)) 0 ?rt :: 'e runtime_panic + _)
      = Inr (?rt\<lparr>rt_retained_bytes := rt_retained_bytes ?rt - retained_bytes (pg_store (entry_of ?rt p)) + 0\<rparr>)"
    using reaccount_safe [OF inv, of p 0] by (simp add: e)
  ultimately show ?thesis
    by (simp add: evict_pane_def drop_stream_sound replaced_def)
qed

lemma command_sound:
  assumes inv: "runtime_inv k L G (wk_runtime w)" and C: "\<forall>q b. binding_of (wk_runtime w) q = Some b \<longrightarrow> C q (bd_identity b)"
    and e0: "pane_of (wk_runtime w) p = Some e0" and b0: "pg_binding e0 = Some b0"
    and b: "b = b0\<lparr>bd_sequence := sq\<rparr>" "bd_sequence b0 \<le> sq" and admits: "admits k L p b0 cmd"
  shows "safe (\<lambda>w'. sound k L C (wk_runtime w'))
    (apply_command pc at remaining p cmd (e0\<lparr>pg_binding := Some b\<rparr>) b w :: 'e runtime_panic + 'c work)"
proof -
  let ?rt = "wk_runtime w" and ?e = "e0\<lparr>pg_binding := Some b\<rparr>" and ?st = "pg_store e0"
  have entry: "entry_of ?rt p = e0" by (rule pane_entry [OF e0])
  have within: "retained_bytes ?st \<le> rt_retained_bytes ?rt" using inv_bytes [OF inv, of p] entry by simp
  have ok: "entry_ok k L G p e0" by (rule inv_pane [OF inv e0])
  let ?over = "MAX_PROGRAM_BYTES < rt_retained_bytes ?rt - retained_bytes ?st + replacement_bytes ?st cmd + remaining
      + pc_pending_bytes pc (wk_collector w)"
  have over: "(over_budget pc remaining cmd ?e w :: 'e runtime_panic + bool) = Inr ?over"
    using within by (simp add: over_budget_def checked_sub_def)
  show ?thesis
  proof (cases "?over")
    case True
    then show ?thesis using evict_sound [OF inv C, of ?e p] by (simp add: apply_command_def over entry)
  next
    case False
    show ?thesis
    proof (cases "store_apply cmd at (Some (live_of b)) ?st")
      case (Some st')
      let ?e' = "?e\<lparr>pg_store := st', pg_last_report := (if cmd = Query then pg_last_report ?e else Some at)\<rparr>"
      have live: "live_of b = live_of b0" by (simp add: b live_of_def)
      have "retained_bytes st' \<le> replacement_bytes ?st cmd"
        using replacement_suffices [OF Some] ok by (simp add: entry_ok_def)
      then have bytes: "rt_retained_bytes ?rt - retained_bytes (pg_store (entry_of ?rt p)) + retained_bytes (pg_store ?e') \<le> MAX_PROGRAM_BYTES"
        using False entry by simp
      have "store_attested k L G p st'"
        using ok b0 by (intro applied_attested [OF Some [unfolded live] _ _ _ admits]) (auto simp: entry_ok_def binding_ok_def)
      moreover have "store_wf st'" using store_apply_wf [OF Some] ok by (simp add: entry_ok_def)
      ultimately have "entry_ok k L G p ?e'"
        using ok b0 b by (auto simp: entry_ok_def binding_ok_def coverage_ok_def)
      moreover have "is_none_or (pg_binding ?e') (\<lambda>b. C p (bd_identity b))"
        using C e0 b0 by (simp add: b binding_of_def)
      ultimately have "safe (\<lambda>w'. sound k L C (wk_runtime w')) (finish_event p (ECommand cmd) (retained_bytes ?st) ?e' w :: 'e runtime_panic + 'c work)"
        using C inv bytes by (intro finish_sound [OF inv, where n = "rt_next_owner ?rt"]) (auto simp: entry runtime_inv_def)
      then show ?thesis using False by (simp add: apply_command_def over Some)
    qed (use False in \<open>simp add: apply_command_def over\<close>)
  qed
qed

lemma lifecycle_sound:
  assumes inv: "runtime_inv k L G (wk_runtime w)" and C: "\<forall>q b. binding_of (wk_runtime w) q = Some b \<longrightarrow> C q (bd_identity b)"
    and e0: "pane_of (wk_runtime w) p = Some e0" and b0: "pg_binding e0 = Some b0" and b: "b = b0\<lparr>bd_sequence := sq\<rparr>"
  shows "safe (\<lambda>w'. sound k L C (wk_runtime w'))
    (apply_lifecycle pc p sq ev (e0\<lparr>pg_binding := Some b\<rparr>) b w :: 'e runtime_panic + 'c work)"
proof -
  let ?rt = "wk_runtime w" and ?e = "e0\<lparr>pg_binding := Some b\<rparr>" and ?st = "store_lifecycle ev (pg_store e0)"
  have entry: "entry_of ?rt p = e0" by (rule pane_entry [OF e0])
  have ok: "entry_ok k L G p e0" by (rule inv_pane [OF inv e0])
  let ?n = "rt_next_owner ?rt + 1"
  let ?b = "\<lambda>n. b\<lparr>bd_owner := n, bd_cycle_floor := st_cycle ?st, bd_boundary := (bd_boundary b)\<lparr>ob_floor := sq\<rparr>\<rparr>"
  let ?G = "G(?n \<mapsto> (p, bd_identity (?b ?n), bd_boundary (?b ?n)))"
  define e' where "e' n = ?e\<lparr>pg_store := ?st, pg_presented := (if ev = FullReset then None else pg_presented ?e),
      pg_presented_chain := (if ev = FullReset then [] else pg_presented_chain ?e),
      pg_coverage := Recovering (lifecycle_reason ev), pg_binding := (if ev = AttachedProcessExit then None else Some (?b n))\<rparr>" for n
  define w1 where "w1 = add_release \<lparr>rl_pane = p, rl_owner = Some (bd_owner b), rl_reason = lifecycle_reason ev,
      rl_history = (if ev = FullReset then Some InvalidateAll else None)\<rparr> w"
  have w1: "wk_runtime w1 = ?rt" by (simp add: w1_def)
  note grows = fresh_owner [OF inv refl, of "(p, bd_identity (?b ?n), bd_boundary (?b ?n))"]
  have "store_attested k L G p ?st" using ok by (auto simp: entry_ok_def intro: comes_attested [OF comes_lifecycle])
  then have "store_attested k L ?G p ?st" by (rule store_attested_mono [OF _ subset_refl grows(1)])
  then have e': "entry_ok k L ?G p (e' ?n)"
    using ok b0 by (auto simp: e'_def entry_ok_def binding_ok_def coverage_ok_def b store_lifecycle_wf simp del: store_lifecycle.simps)
  have Ce: "is_none_or (pg_binding (e' ?n)) (\<lambda>b. C p (bd_identity b))"
    using C e0 b0 by (simp add: e'_def b binding_of_def)
  have finish: "safe (\<lambda>w'. sound k L C (wk_runtime w')) (finish_event p (ELifecycle ev) (retained_bytes (pg_store e0)) (e' ?n) w2 :: 'e runtime_panic + 'c work)"
    if "wk_runtime w2 = ?rt\<lparr>rt_next_owner := ?n\<rparr>" for w2
  proof (rule finish_sound [OF inv])
    show "rt_retained_bytes ?rt - retained_bytes (pg_store (entry_of ?rt p)) + retained_bytes (pg_store (e' ?n)) \<le> MAX_PROGRAM_BYTES"
      using smaller_bytes [OF inv, of ?st p] retained_lifecycle [of ev "pg_store e0"]
      by (simp add: entry e'_def del: store_lifecycle.simps)
    show "entry_ok k L ?G p (e' ?n)" by (rule e')
    show "G \<subseteq>\<^sub>m ?G" by (rule grows(1))
    show "\<forall>w. ?G w \<noteq> None \<longrightarrow> w \<le> ?n" by (rule grows(2))
  qed (use C that Ce in \<open>simp_all add: entry\<close>)
  have unfolded: "apply_lifecycle pc p sq ev ?e b w =
      sum_bind (next_owner ?rt) (\<lambda>(n, rt).
        sum_bind (if ev = AttachedProcessExit then drop_stream pc p OwnerChanged (w1\<lparr>wk_runtime := rt\<rparr>) else Inr (w1\<lparr>wk_runtime := rt\<rparr>))
          (finish_event p (ELifecycle ev) (retained_bytes (pg_store e0))
            (e' n)))"
    unfolding apply_lifecycle_def Let_def w1_def [symmetric] w1 by (simp add: e'_def cong: if_cong del: store_lifecycle.simps)
  show ?thesis
  proof (cases rule: next_owner_cases [where 'e = 'e, of ?rt])
    case full
    then show ?thesis by (simp add: unfolded)
  next
    case fresh
    let ?w2 = "w1\<lparr>wk_runtime := ?rt\<lparr>rt_next_owner := ?n\<rparr>\<rparr>"
    have dropped: "safe (\<lambda>w2. wk_runtime w2 = ?rt\<lparr>rt_next_owner := ?n\<rparr>)
        (if ev = AttachedProcessExit then drop_stream pc p OwnerChanged ?w2 else Inr ?w2 :: 'e runtime_panic + 'c work)"
      using drop_stream_runtime [of ?w2 pc p OwnerChanged] by (auto elim: safe_mono)
    show ?thesis unfolding unfolded fresh sum_bind_simps prod.case by (rule safe_bind [OF dropped finish])
  qed
qed

lemma moved_sound:
  assumes inv: "runtime_inv k L G rt" and C: "\<forall>q b. binding_of rt q = Some b \<longrightarrow> C q (bd_identity b)"
    and e0: "pane_of rt p = Some e0" and b0: "pg_binding e0 = Some b0" and b: "b = b0\<lparr>bd_sequence := sq\<rparr>" "bd_sequence b0 \<le> sq"
  shows "sound k L C (put_pane p (e0\<lparr>pg_binding := Some b\<rparr>) rt)"
proof -
  have entry: "entry_of rt p = e0" by (rule pane_entry [OF e0])
  have ok: "entry_ok k L G p e0" by (rule inv_pane [OF inv e0])
  let ?e = "e0\<lparr>pg_binding := Some b\<rparr>"
  have "sound k L C (replaced p ?e (rt_next_owner rt) rt)"
  proof (rule sound_replaced [OF inv])
    show "entry_ok k L G p ?e" using ok b0 b by (auto simp: entry_ok_def binding_ok_def coverage_ok_def)
    show "rt_retained_bytes rt - retained_bytes (pg_store (entry_of rt p)) + retained_bytes (pg_store ?e) \<le> MAX_PROGRAM_BYTES"
      using smaller_bytes [OF inv, of "pg_store e0" p] by (simp add: entry)
    show "\<forall>w. G w \<noteq> None \<longrightarrow> w \<le> rt_next_owner rt" using inv by (simp add: runtime_inv_def)
  qed (use C e0 b0 b in \<open>auto simp: binding_of_def\<close>)
  then show ?thesis using replaced_same [OF inv, of ?e p] by (simp add: entry)
qed

text \<open>An event of the current batch; its bindings are all confirmed by it.\<close>

lemma observation_sound:
  assumes sound: "sound k L (confirmed k x) (wk_runtime w)" and x: "x \<in> L" and obs: "obs \<in> set (dr_observations (bl_drain x))"
  shows "safe (\<lambda>w'. sound k L (confirmed k x) (wk_runtime w')) (apply_observation pc at remaining obs w :: 'e runtime_panic + 'c work)"
proof -
  let ?rt = "wk_runtime w" and ?p = "oe_pane obs"
  obtain G where inv: "runtime_inv k L G ?rt" and C: "\<forall>q b. binding_of ?rt q = Some b \<longrightarrow> confirmed k x q (bd_identity b)"
    using sound by (auto simp: sound_def)
  show ?thesis
  proof (cases "\<exists>e0 b0. pane_of ?rt ?p = Some e0 \<and> pg_binding e0 = Some b0")
    case False
    then show ?thesis using sound by (auto simp: apply_observation_def Let_def split: option.splits)
  next
    case True
    then obtain e0 b0 where e0: "pane_of ?rt ?p = Some e0" and b0: "pg_binding e0 = Some b0" by blast
    let ?b = "b0\<lparr>bd_sequence := oe_sequence obs\<rparr>"
    have bok: "binding_ok G ?p b0" "confirmed k x ?p (bd_identity b0)"
      using inv_pane [OF inv e0] C e0 b0 by (auto simp: entry_ok_def binding_of_def)
    show ?thesis
    proof (cases "stream_loss pc (wk_collector w) ?p (ob_connection (bd_boundary b0)) = None
        \<and> oe_connection obs = ob_connection (bd_boundary b0) \<and> bd_sequence b0 < oe_sequence obs")
      case False
      then show ?thesis
        using sound e0 b0 by (auto simp: apply_observation_def Let_def intro: revoke_keeps split: option.splits)
    next
      case True
      have admits: "admits k L ?p b0 cmd" if "oe_event obs = ECommand cmd" for cmd
        using that True x obs bok by (auto simp: admits_def attested_def delivered_in_def binding_ok_def intro!: bexI [of _ x] bexI [of _ obs])
      have unfolded: "apply_observation pc at remaining obs w =
          (case oe_event obs of
             ECommand cmd \<Rightarrow> apply_command pc at remaining ?p cmd (e0\<lparr>pg_binding := Some ?b\<rparr>) ?b w
           | ELifecycle ev \<Rightarrow> apply_lifecycle pc ?p (oe_sequence obs) ev (e0\<lparr>pg_binding := Some ?b\<rparr>) ?b w
           | EGap _ \<Rightarrow> Inr (w\<lparr>wk_runtime := put_pane ?p (e0\<lparr>pg_binding := Some ?b\<rparr>) ?rt\<rparr>))"
        using e0 b0 True by (simp add: apply_observation_def Let_def)
      have ahead: "bd_sequence b0 \<le> oe_sequence obs" using True by simp
      show ?thesis
      proof (cases "oe_event obs")
        case (ECommand cmd)
        show ?thesis using command_sound [OF inv C e0 b0 refl ahead admits [OF ECommand]] by (simp add: unfolded ECommand)
      next
        case (ELifecycle ev)
        show ?thesis using lifecycle_sound [OF inv C e0 b0 refl] by (simp add: unfolded ELifecycle)
      next
        case (EGap reason)
        show ?thesis using moved_sound [OF inv C e0 b0 refl ahead] by (simp add: unfolded EGap)
      qed
    qed
  qed
qed

end
