(* ===== verification/Runtime_Runs.thy ===== *)
theory Runtime_Runs
  imports Runtime_Events
begin

text \<open>
  Runs of the program runtime: batches with any consumer that works through the runtime's own
  operations, the rechecks and presentations between them, and resets. Each batch's drain is kept in
  a journal beside the collector.
\<close>

section \<open>Operations\<close>

definition journaled ::
  "program_pane list \<Rightarrow> process_unavailable + process_snapshot \<Rightarrow> process_unavailable + process_snapshot
     \<Rightarrow> ('c, 'e) program_collector \<Rightarrow> ('c \<times> batch_log list, 'e) program_collector" where
  "journaled panes before after pc =
     \<lparr>pc_boundary = (\<lambda>p (c, J). map_sum id (\<lambda>(b, c). (b, c, J)) (pc_boundary pc p c)),
      pc_stream = (\<lambda>p (c, J). pc_stream pc p c),
      pc_invalidate = (\<lambda>p gap (c, J). map_sum id (\<lambda>c. (c, J)) (pc_invalidate pc p gap c)),
      pc_pending_bytes = (\<lambda>(c, J). pc_pending_bytes pc c),
      pc_set_payload_budget = (\<lambda>n (c, J). map_sum id (\<lambda>c. (c, J)) (pc_set_payload_budget pc n c)),
      pc_drain = (\<lambda>(c, J). case pc_drain pc c of (d, c) \<Rightarrow>
         (d, c, J @ [\<lparr>bl_panes = panes, bl_before = before, bl_after = after, bl_drain = d\<rparr>]))\<rparr>"

text \<open>What a consumer may do with the runtime during and between batches.\<close>

datatype runtime_step =
    StepRecheck program_decision program_pane process_snapshot
  | StepPresent program_decision "result_disposition option"
  | StepAcknowledge pane_id result_identity
  | StepInvalidate pane_id recovery_reason

definition runtime_step_exec ::
  "('c, 'e) program_collector \<Rightarrow> 're knowledge \<Rightarrow> runtime_step \<Rightarrow> program_runtime \<times> 'c \<Rightarrow> 'e runtime_panic + (program_runtime \<times> 'c)" where
  "runtime_step_exec pc k s = (\<lambda>(rt, c).
     case s of
       StepRecheck d pane snapshot \<Rightarrow> map_sum id snd (recheck pc k d pane snapshot (rt, c))
     | StepPresent d disposition \<Rightarrow> map_sum id (\<lambda>(_, rt). (rt, c)) (record_presentation d disposition rt)
     | StepAcknowledge p result \<Rightarrow> Inr (snd (runtime_acknowledge p result rt), c)
     | StepInvalidate p reason \<Rightarrow> map_sum id (\<lambda>w. (wk_runtime w, wk_collector w)) (runtime_invalidate pc p reason rt c))"

type_synonym reaction = "program_step \<Rightarrow> program_runtime \<Rightarrow> runtime_step list"

definition reacting :: "('c, 'e) program_collector \<Rightarrow> 're knowledge \<Rightarrow> reaction \<Rightarrow> ('c, 'e) consumer" where
  "reacting pc k react = (\<lambda>step (rt, c). each (runtime_step_exec pc k) (react step rt) (rt, c))"

datatype runtime_op =
    RBatch "program_pane list" "process_unavailable + process_snapshot" "process_unavailable + process_snapshot" u64 reaction
  | RStep runtime_step
  | RReset

definition runtime_exec ::
  "('c, 'e) program_collector \<Rightarrow> 're knowledge \<Rightarrow> runtime_op \<Rightarrow> program_runtime \<times> 'c \<times> batch_log list
     \<Rightarrow> 'e runtime_panic + (program_runtime \<times> 'c \<times> batch_log list)" where
  "runtime_exec pc k op = (\<lambda>(rt, c).
     case op of
       RBatch panes before after at react \<Rightarrow>
         map_sum id (\<lambda>w. (wk_runtime w, wk_collector w))
           (process_batch_with (journaled panes before after pc) k panes before after at
             (reacting (journaled panes before after pc) k react) rt c)
     | RStep s \<Rightarrow> runtime_step_exec (journaled [] (Inl ProcessUnsupported) (Inl ProcessUnsupported) pc) k s (rt, c)
     | RReset \<Rightarrow> map_sum id (\<lambda>w. (wk_runtime w, wk_collector w))
         (runtime_reset (journaled [] (Inl ProcessUnsupported) (Inl ProcessUnsupported) pc) rt c))"

definition runtime_run ::
  "('c, 'e) program_collector \<Rightarrow> 're knowledge \<Rightarrow> runtime_op list \<Rightarrow> 'c \<Rightarrow> 'e runtime_panic + (program_runtime \<times> 'c \<times> batch_log list)" where
  "runtime_run pc k ops c = each (runtime_exec pc k) ops (runtime_new, c, [])"

section \<open>The journal\<close>

abbreviation journal :: "('c \<times> batch_log list) work \<Rightarrow> batch_log list" where
  "journal w \<equiv> snd (wk_collector w)"

definition held ::
  "'re knowledge \<Rightarrow> batch_log list \<Rightarrow> (pane_id \<Rightarrow> recognized \<Rightarrow> bool) \<Rightarrow> ('c \<times> batch_log list) work \<Rightarrow> bool" where
  "held k J C w = (sound k (set J) C (wk_runtime w) \<and> journal w = J)"

lemma safe_held:
  assumes "safe (\<lambda>w'. sound k (set J) C (wk_runtime w')) r" and "\<And>w'. r = Inr w' \<Longrightarrow> journal w' = J"
  shows "safe (held k J C) r"
  using assms by (cases r) (simp_all add: held_def)

lemma held_weaken: "held k J C w \<Longrightarrow> (\<And>p i. C p i \<Longrightarrow> C' p i) \<Longrightarrow> held k J C' w"
  unfolding held_def using sound_weaken by blast

lemma revoke_collector: "revoke p reason departure w = Inr w' \<Longrightarrow> wk_collector w' = wk_collector w"
  by (auto simp: revoke_def Let_def map_sum_Inr split: if_splits)

lemma drop_stream_journal: "drop_stream (journaled panes before after pc) p reason w = Inr w' \<Longrightarrow> journal w' = journal w"
  by (cases "pc_invalidate pc p reason (fst (wk_collector w))") (auto simp: drop_stream_def journaled_def split_beta)

lemma prepare_journal: "prepare_collection (journaled panes before after pc) w = Inr w' \<Longrightarrow> journal w' = journal w"
  by (cases "pc_set_payload_budget pc (MAX_PROGRAM_BYTES - rt_retained_bytes (wk_runtime w)) (fst (wk_collector w))")
    (auto simp: prepare_collection_def checked_sub_def journaled_def split_beta split: if_splits)

lemma boundary_journal: "pc_boundary (journaled panes before after pc) p c = Inr (b, c') \<Longrightarrow> snd c' = snd c"
  by (auto simp: map_sum_Inr journaled_def split_beta)

lemma remove_journal: "remove_pane (journaled panes before after pc) p w = Inr w' \<Longrightarrow> journal w' = journal w"
  by (auto simp: remove_pane_def sum_bind_Inr dest!: drop_stream_journal split: option.splits)

lemma rebind_journal: "rebind_pane (journaled panes before after pc) p ident w = Inr w' \<Longrightarrow> journal w' = journal w"
proof (cases "pc_boundary (journaled panes before after pc) p (wk_collector w)")
  case (Inr r)
  obtain b c where r: "r = (b, c)" by (cases r)
  then have "snd c = journal w" using Inr boundary_journal by blast
  moreover assume "rebind_pane (journaled panes before after pc) p ident w = Inr w'"
  ultimately show ?thesis
    using Inr r by (cases b) (auto simp: rebind_pane_def Let_def sum_bind_Inr map_sum_Inr split: if_splits)
qed (auto simp: rebind_pane_def Let_def sum_bind_Inr split: if_splits)

lemma bind_journal: "bind_pane (journaled panes before after pc) k snapshot pane w = Inr w' \<Longrightarrow> journal w' = journal w"
  by (auto simp: bind_pane_def Let_def sum_bind_Inr
      dest!: drop_stream_journal revoke_collector rebind_journal split: sum.splits if_splits)

lemma each_journal:
  assumes "\<And>x w w'. f x w = Inr w' \<Longrightarrow> journal w' = journal w" and "each f xs w = Inr w'"
  shows "journal w' = journal w"
  using assms(2)
proof (induction xs arbitrary: w)
  case (Cons x xs)
  then obtain v where v: "f x w = Inr v" "each f xs v = Inr w'" by (auto simp: sum_bind_Inr)
  show ?case using Cons.IH [OF v(2)] assms(1) [OF v(1)] by simp
qed simp

lemma gap_journal: "apply_gap obs w = Inr w' \<Longrightarrow> wk_collector w' = wk_collector w"
  by (auto simp: apply_gap_def regap_pane_def Let_def sum_bind_Inr map_sum_Inr split: program_event.splits option.splits if_splits)

lemma finish_journal: "finish_event p ev before e w = Inr w' \<Longrightarrow> wk_collector w' = wk_collector w"
  by (cases "settle_coverage p ev e") (auto simp: finish_event_def map_sum_Inr)

lemma observation_journal:
  "apply_observation (journaled panes before after pc) at remaining obs w = Inr w' \<Longrightarrow> journal w' = journal w"
  by (auto simp: apply_observation_def apply_command_def apply_lifecycle_def evict_pane_def Let_def sum_bind_Inr
      dest!: drop_stream_journal revoke_collector finish_journal split: option.splits if_splits program_event.splits)

section \<open>Steps of a consumer\<close>

lemma same_records_bytes:
  "map sr_record (st_records st') = map sr_record (st_records st) \<Longrightarrow> st' = st\<lparr>st_records := st_records st'\<rparr>
     \<Longrightarrow> retained_bytes st' = retained_bytes st"
proof -
  assume "map sr_record (st_records st') = map sr_record (st_records st)"
  then have "map record_bytes (map sr_record (st_records st')) = map record_bytes (map sr_record (st_records st))" by simp
  then have "entries_bytes (st_records st') = entries_bytes (st_records st)" by (simp add: entries_bytes_def comp_def)
  moreover assume same: "st' = st\<lparr>st_records := st_records st'\<rparr>"
  have "recovery_retained_bytes st' = recovery_retained_bytes st" by (subst same) (simp add: recovery_retained_bytes_def)
  ultimately show ?thesis by (simp add: retained_parts)
qed

definition presents :: "record_store \<Rightarrow> record_store \<Rightarrow> bool" where
  "presents st st' = (comes_from st st' \<and> (store_wf st \<longrightarrow> store_wf st') \<and> retained_bytes st' = retained_bytes st)"

lemma presents_refl: "presents st st"
  by (auto simp: presents_def comes_from_def intro: evolves_self)

lemma presents_trans: "presents a b \<Longrightarrow> presents b c \<Longrightarrow> presents a c"
  unfolding presents_def comes_from_def using evolves_trans by (metis (no_types, lifting))

lemma presentsI:
  assumes "map sr_record (st_records st') = map sr_record (st_records st)" and "st' = st\<lparr>st_records := st_records st'\<rparr>"
    and "\<And>e'. e' \<in> set (st_records st') \<Longrightarrow> \<exists>e \<in> set (st_records st). evolves e e'" and "store_wf st \<Longrightarrow> store_wf st'"
  shows "presents st st'"
  using same_records_bytes [OF assms(1,2)] assms(3,4) by (simp add: presents_def comes_from_def)

lemma presents_marked: "presents st (snd (mark_presented sel live st))"
proof (rule presentsI)
  let ?st = "snd (mark_presented sel live st)"
  show "?st = st\<lparr>st_records := st_records ?st\<rparr>"
    by (simp add: mark_presented_def split: option.split)
  show "store_wf ?st" if "store_wf st" using mark_presented_wf [of sel live st "fst (mark_presented sel live st)"] that by simp
qed (rule mark_presented_log, rule mark_presented_origin)

lemma presents_acknowledged: "presents st (snd (acknowledge ident st))"
proof (rule presentsI)
  let ?st = "snd (acknowledge ident st)"
  show "?st = st\<lparr>st_records := st_records ?st\<rparr>"
    by (simp add: acknowledge_def split: option.split)
  show "store_wf ?st" if "store_wf st" using acknowledge_wf [of ident st "fst (acknowledge ident st)"] that by simp
qed (rule acknowledge_log, rule acknowledge_origin)

lemma presents_disposition:
  assumes "(case disposition of Some how \<Rightarrow> reconcile_result sel live how st | None \<Rightarrow> Some (mark_presented sel live st)) = Some (b, st')"
  shows "presents st st'"
proof (cases disposition)
  case None
  then show ?thesis using assms presents_marked [of st sel live] by simp
next
  case (Some how)
  then have "reconcile_result sel live how st = Some (b, st')" using assms by simp
  then show ?thesis
  proof (cases rule: reconcile_result_cases)
    case (acked st1 r)
    then show ?thesis
      using presents_trans [OF _ presents_acknowledged, of st st1] presents_marked [of st sel live] by (metis snd_conv)
  qed (use presents_marked [of st sel live] in \<open>simp_all\<close>)
qed

text \<open>A pane's entry with the presentation marks of its store changed.\<close>

lemma presented_sound:
  assumes inv: "runtime_inv k L G rt" and C: "\<forall>q b. binding_of rt q = Some b \<longrightarrow> C q (bd_identity b)"
    and e0: "pane_of rt p = Some e0" and st: "presents (pg_store e0) (pg_store e)"
    and e: "pg_binding e = pg_binding e0" "pg_coverage e = pg_coverage e0"
  shows "sound k L C (put_pane p e rt)"
proof -
  have entry: "entry_of rt p = e0" by (rule pane_entry [OF e0])
  have "store_wf (pg_store e0)" using inv_pane [OF inv e0] by (simp add: entry_ok_def)
  then have "sound k L C (replaced p e (rt_next_owner rt) rt)"
    using st by (intro kept_sound [OF inv C _ _ _ e0 e refl]) (simp_all add: entry presents_def)
  then show ?thesis using replaced_same [OF inv, of e p] st by (simp add: entry presents_def)
qed

lemma presentation_sound:
  assumes "sound k L C rt"
  shows "safe (\<lambda>(_, rt'). sound k L C rt') (record_presentation d disposition rt)"
proof -
  obtain G where inv: "runtime_inv k L G rt" and C: "\<forall>q b. binding_of rt q = Some b \<longrightarrow> C q (bd_identity b)"
    using assms by (auto simp: sound_def)
  show ?thesis
  proof (cases "\<exists>e0 b0. pane_of rt (de_pane d) = Some e0 \<and> pg_binding e0 = Some b0
      \<and> de_boundary d = bd_boundary b0 \<and> de_chain d = rc_chain (bd_identity b0)")
    case False
    then show ?thesis using assms by (auto simp: record_presentation_def split: option.splits)
  next
    case True
    then obtain e0 b0 where e0: "pane_of rt (de_pane d) = Some e0" "pg_binding e0 = Some b0"
      "de_boundary d = bd_boundary b0" "de_chain d = rc_chain (bd_identity b0)" by blast
    let ?r = "case disposition of Some how \<Rightarrow> reconcile_result (de_selection d) (live_of b0) how (pg_store e0)
      | None \<Rightarrow> Some (mark_presented (de_selection d) (live_of b0) (pg_store e0))"
    have "?r \<noteq> None" using reconcile_result_total by (cases disposition) simp_all
    then obtain b st where r: "?r = Some (b, st)" by (cases ?r) auto
    have "rc_chain (bd_identity b0) \<noteq> []" using inv_pane [OF inv e0(1)] e0(2) by (simp add: entry_ok_def binding_ok_def)
    then show ?thesis
      using e0 r presented_sound [OF inv C e0(1)] presents_disposition [OF r] by (simp add: record_presentation_def)
  qed
qed

lemma acknowledge_sound:
  assumes "sound k L C rt"
  shows "sound k L C (snd (runtime_acknowledge p result rt))"
proof (cases "\<exists>e0 st. pane_of rt p = Some e0 \<and> acknowledge result (pg_store e0) = (True, st)")
  case False
  then show ?thesis using assms by (auto simp: runtime_acknowledge_def split: option.splits prod.splits bool.splits)
next
  case True
  then obtain e0 st where e0: "pane_of rt p = Some e0" "acknowledge result (pg_store e0) = (True, st)" by blast
  obtain G where inv: "runtime_inv k L G rt" and C: "\<forall>q b. binding_of rt q = Some b \<longrightarrow> C q (bd_identity b)"
    using assms by (auto simp: sound_def)
  show ?thesis
    using e0 presented_sound [OF inv C e0(1)] presents_acknowledged [of "pg_store e0" result] by (simp add: runtime_acknowledge_def)
qed

lemma work_on_fields [simp]: "wk_runtime (work_on rt c) = rt" "wk_collector (work_on rt c) = c" "wk_batch (work_on rt c) = empty_batch"
  by (simp_all add: work_on_def)

lemma invalidate_sound:
  assumes "sound k L C rt"
  shows "safe (\<lambda>w. sound k L C (wk_runtime w)) (runtime_invalidate pc p reason rt c :: 'e runtime_panic + 'c work)"
  unfolding runtime_invalidate_def
  by (intro safe_bind [OF revoke_keeps] safe_bind [OF drop_stream_sound] prepare_sound) (use assms in simp_all)

lemma recheck_sound:
  assumes "sound k L C rt"
  shows "safe (\<lambda>(_, rt', _). sound k L C rt') (recheck (pc :: ('c, 'e) program_collector) k' d pane snapshot (rt, c))"
proof -
  have dropped: "safe (\<lambda>w. sound k L C (wk_runtime w)) (if lost then drop_stream pc p gap w else Inr w)"
    if "sound k L C (wk_runtime w)" for lost p gap and w :: "'c work"
    using drop_stream_sound [OF that, of pc p gap] that by simp
  have "safe (\<lambda>(_, rt', _). sound k L C rt')
      (sum_bind (revoke p reason departure (work_on rt c)) (\<lambda>w.
       sum_bind (if lost then drop_stream pc p gap w else Inr w) (\<lambda>w.
       map_sum id (\<lambda>w. (f, wk_runtime w, wk_collector w)) (prepare_collection pc w))))" for p reason departure lost gap f
    by (intro safe_bind [OF revoke_keeps] safe_bind [OF dropped] safe_map [OF prepare_sound]) (use assms in \<open>simp_all\<close>)
  note revoked = this
  show ?thesis
    unfolding recheck_def Let_def prod.case using assms by (simp only: split: if_split) (intro conjI impI revoked; simp)
qed

lemma runtime_step_sound:
  assumes "sound k L C (fst s)"
  shows "safe (\<lambda>s'. sound k L C (fst s')) (runtime_step_exec pc k' step s)"
proof (cases s)
  case (Pair rt c)
  then have rt: "sound k L C rt" using assms by simp
  show ?thesis
  proof (cases step)
    case (StepRecheck d pane snapshot)
    have "safe (\<lambda>s'. sound k L C (fst s')) (map_sum id snd (recheck pc k' d pane snapshot (rt, c)))"
      by (rule safe_map [OF recheck_sound [OF rt]]) auto
    then show ?thesis using StepRecheck Pair by (simp add: runtime_step_exec_def)
  next
    case (StepPresent d disposition)
    then show ?thesis
      using safe_map [OF presentation_sound [OF rt], of "\<lambda>s'. sound k L C (fst s')" "\<lambda>(_, rt). (rt, c)"] Pair
      by (auto simp: runtime_step_exec_def)
  next
    case (StepInvalidate p reason)
    have "safe (\<lambda>s'. sound k L C (fst s')) (map_sum id (\<lambda>w. (wk_runtime w, wk_collector w)) (runtime_invalidate pc p reason rt c))"
      by (rule safe_map [OF invalidate_sound [OF rt]]) simp
    then show ?thesis using StepInvalidate Pair by (simp add: runtime_step_exec_def)
  qed (use acknowledge_sound [OF rt] Pair in \<open>simp add: runtime_step_exec_def\<close>)
qed

lemma runtime_step_journal:
  assumes "runtime_step_exec (journaled panes before after pc) k step s = Inr s'"
  shows "snd (snd s') = snd (snd s)"
  using assms
  by (cases s; cases step)
    (auto simp: runtime_step_exec_def recheck_def runtime_invalidate_def Let_def sum_bind_Inr map_sum_Inr
      dest!: revoke_collector drop_stream_journal prepare_journal sym [of "(_, _)" "wk_collector _"] split: if_splits option.splits)

lemma reacting_held:
  assumes "sound k (set J) C (fst s)" and "snd (snd s) = J"
  shows "safe (\<lambda>s'. sound k (set J) C (fst s') \<and> snd (snd s') = J) (reacting (journaled panes before after pc) k' react step s)"
proof -
  have step: "safe (\<lambda>s'. sound k (set J) C (fst s') \<and> snd (snd s') = J) (runtime_step_exec (journaled panes before after pc) k' x t)"
    if "sound k (set J) C (fst t) \<and> snd (snd t) = J" for x t
    using runtime_step_sound [of k "set J" C t "journaled panes before after pc" k' x] runtime_step_journal [of panes before after pc k' x t] that
    by (cases "runtime_step_exec (journaled panes before after pc) k' x t") simp_all
  show ?thesis
    using assms by (cases s) (auto simp: reacting_def intro!: safe_each step)
qed

section \<open>Batches\<close>

lemma drop_held: "held k J C w \<Longrightarrow> safe (held k J C) (drop_stream (journaled panes before after pc) p gap w)"
  by (rule safe_held [OF drop_stream_sound]) (auto simp: held_def dest: drop_stream_journal)

lemma prepare_held: "held k J C w \<Longrightarrow> safe (held k J C) (prepare_collection (journaled panes before after pc) w)"
  by (rule safe_held [OF prepare_sound]) (auto simp: held_def dest: prepare_journal)

lemma revoke_held: "held k J C w \<Longrightarrow> safe (held k J C) (revoke p reason departure w)"
  by (rule safe_held [OF revoke_keeps]) (auto simp: held_def dest: revoke_collector)

lemma gap_held: "held k J C w \<Longrightarrow> safe (held k J C) (apply_gap obs w)"
  by (rule safe_held [OF gap_sound]) (auto simp: held_def dest: gap_journal)

lemma lose_held: "held k J C w \<Longrightarrow> safe (held k J C) (lose_pane (journaled panes before after pc) reason gap pane w)"
  unfolding lose_pane_def by (rule safe_bind [OF revoke_held drop_held])

lemma drain_held: "held k J C w \<Longrightarrow> safe (held k J C) (apply_drain (journaled panes before after pc) panes' d w)"
  unfolding apply_drain_def by (rule safe_bind [where P = "held k J C"]) (auto intro!: safe_each lose_held gap_held)

lemma deliver_held:
  assumes "held k J C w"
  shows "safe (held k J C) (deliver (reacting (journaled panes before after pc) k' react) step n w)"
  unfolding deliver_def
  by (rule safe_map [OF reacting_held [of k J C]]) (use assms in \<open>auto simp: held_def\<close>)

lemma event_held:
  assumes "held k J (confirmed k x) w" and "x \<in> set J" and "obs \<in> set (dr_observations (bl_drain x))"
  shows "safe (held k J (confirmed k x))
    (observe_event (journaled panes before after pc) (reacting (journaled panes before after pc) k' react) checked at remaining obs w)"
proof -
  have "safe (held k J (confirmed k x)) (apply_observation (journaled panes before after pc) at remaining obs w)"
    using assms by (intro safe_held [OF observation_sound]) (auto simp: held_def dest: observation_journal)
  then show ?thesis
    unfolding observe_event_def Let_def by (rule safe_bind) (simp add: deliver_held)
qed

lemma events_held:
  assumes "held k J (confirmed k x) w" and "x \<in> set J" and "set events \<subseteq> set (dr_observations (bl_drain x))"
    and "sum_list (map (\<lambda>obs. event_bytes (oe_event obs)) events) \<le> remaining"
  shows "safe (held k J (confirmed k x))
    (observe_events (journaled panes before after pc) (reacting (journaled panes before after pc) k' react) checked at events remaining w)"
  using assms
proof (induction events arbitrary: remaining w)
  case (Cons obs events)
  then show ?case by (auto simp: checked_sub_def intro!: safe_bind [OF event_held] Cons.IH)
qed simp

lemma verify_held:
  assumes held: "held k J (\<lambda>p i. shown k panes before p i \<and> (p \<in> D \<longrightarrow> shown k panes after p i)) w" and pane: "pane \<in> set panes"
  shows "safe (held k J (\<lambda>p i. shown k panes before p i \<and> (p \<in> insert (pn_pane pane) D \<longrightarrow> shown k panes after p i)))
    (verify_pane (journaled panes before after (pc :: ('c, 'e) program_collector)) k after pane w)"
proof (cases "is_none_or (binding_of (wk_runtime w) (pn_pane pane))
    (\<lambda>b. case after of Inl _ \<Rightarrow> False | Inr snapshot \<Rightarrow> still_recognized k pane snapshot b)")
  case True
  then have "shown k panes after (pn_pane pane) (bd_identity b)" if "binding_of (wk_runtime w) (pn_pane pane) = Some b" for b
    using that pane by (auto simp: is_none_or_iff shown_def still_recognized_def split: sum.splits)
  then have "held k J (\<lambda>p i. shown k panes before p i \<and> (p \<in> insert (pn_pane pane) D \<longrightarrow> shown k panes after p i)) w"
    using held by (auto simp: held_def sound_def)
  then show ?thesis using True by (auto simp: verify_pane_def split: option.splits)
next
  case False
  let ?C = "\<lambda>p i. shown k panes before p i \<and> (p \<in> insert (pn_pane pane) D \<longrightarrow> shown k panes after p i)"
  have "sound k (set J) (\<lambda>q i. q \<noteq> pn_pane pane \<longrightarrow> ?C q i) (wk_runtime w)"
    using held unfolding held_def by (auto elim: sound_weaken)
  then have "safe (\<lambda>w'. sound k (set J) ?C (wk_runtime w'))
      (revoke (pn_pane pane) ProcessChangedDuringBatch True w :: 'e runtime_panic + ('c \<times> batch_log list) work)"
    by (rule safe_mono [OF revoke_sound]) simp
  then have "safe (held k J ?C) (revoke (pn_pane pane) ProcessChangedDuringBatch True w :: 'e runtime_panic + ('c \<times> batch_log list) work)"
    using held by (intro safe_held) (auto simp: held_def dest: revoke_collector)
  then show ?thesis using False by (auto simp: verify_pane_def intro: safe_bind drop_held split: option.splits)
qed

lemma shown_pane: "shown k panes sample p i \<Longrightarrow> p \<in> pn_pane ` set panes"
  by (auto simp: shown_def)

lemma process_drain_held:
  assumes "held k J (shown k panes before) w"
  shows "safe (\<lambda>w'. sound k (set (journal w')) (\<lambda>_ _. True) (wk_runtime w'))
    (process_drain (journaled panes before after (pc :: ('c, 'e) program_collector)) k panes after at
      (reacting (journaled panes before after pc) k react) w)"
proof -
  let ?pc = "journaled panes before after pc"
  let ?ok = "\<lambda>w'. sound k (set (journal w')) (\<lambda>_ _. True) (wk_runtime w')"
  obtain d c where drained: "pc_drain pc (fst (wk_collector w)) = (d, c)" by fastforce
  define x where "x = \<lparr>bl_panes = panes, bl_before = before, bl_after = after, bl_drain = d\<rparr>"
  let ?J = "J @ [x]"
  have drain: "pc_drain ?pc (wk_collector w) = (d, c, ?J)"
    using assms drained by (simp add: journaled_def held_def split_beta x_def)
  have finish: "safe ?ok (prepare_collection ?pc v)" if "held k ?J C v" for C v
    by (rule safe_mono [OF prepare_held [OF that]]) (auto simp: held_def intro: sound_weaken)
  let ?P = "\<lambda>D. held k ?J (\<lambda>p i. shown k panes before p i \<and> (p \<in> D \<longrightarrow> shown k panes after p i))"
  have "held k ?J (shown k panes before) (w\<lparr>wk_collector := (c, ?J)\<rparr>)"
    using assms by (auto simp: held_def intro: sound_log)
  then have applied: "safe (held k ?J (shown k panes before)) (apply_drain ?pc panes d (w\<lparr>wk_collector := (c, ?J)\<rparr>))" by (rule drain_held)
  have verified: "safe (held k ?J (confirmed k x)) (each (verify_pane ?pc k after) panes v)" if "held k ?J (shown k panes before) v" for v
  proof -
    have "safe (?P ({} \<union> pn_pane ` set panes)) (each (verify_pane ?pc k after) panes v)"
    proof (rule safe_each_grows [where f = pn_pane and P = ?P])
      show "?P {} v" using that by simp
    qed (rule verify_held)
    then show ?thesis
      by (rule safe_mono) (use shown_pane [of k panes before] in \<open>auto elim!: held_weaken simp: confirmed_def x_def\<close>)
  qed
  have observed: "safe ?ok (case after of
        Inl _ \<Rightarrow> prepare_collection ?pc v
      | Inr checked \<Rightarrow>
          sum_bind (each (release_step (reacting ?pc k react) checked) (ba_releases (wk_batch v)) v) (\<lambda>w3.
          sum_bind (observe_events ?pc (reacting ?pc k react) checked at events (sum_list (map (\<lambda>obs. event_bytes (oe_event obs)) events)) w3)
            (prepare_collection ?pc)))"
    if v: "held k ?J (confirmed k x) v" and events: "set events \<subseteq> set (dr_observations d)" for v events
  proof (cases after)
    case (Inr checked)
    have released: "safe (held k ?J (confirmed k x)) (each (release_step (reacting ?pc k react) checked) rs v)" for rs
      by (rule safe_each [where P = "held k ?J (confirmed k x)"]) (rule v, simp add: release_step_def deliver_held)
    have "safe (held k ?J (confirmed k x))
        (observe_events ?pc (reacting ?pc k react) checked at events (sum_list (map (\<lambda>obs. event_bytes (oe_event obs)) events)) u)"
      if "held k ?J (confirmed k x) u" for u
      by (rule events_held [OF that]) (use events in \<open>simp_all add: x_def\<close>)
    then have "safe ?ok (sum_bind (observe_events ?pc (reacting ?pc k react) checked at events
        (sum_list (map (\<lambda>obs. event_bytes (oe_event obs)) events)) u) (prepare_collection ?pc))"
      if "held k ?J (confirmed k x) u" for u
      using that finish by (blast intro: safe_bind)
    from safe_bind [OF released this] show ?thesis by (simp only: Inr sum.case)
  next
    case (Inl reason)
    from finish [OF v] show ?thesis by (simp only: Inl sum.case)
  qed
  show ?thesis
    unfolding process_drain_def drain prod.case Let_def
    by (intro safe_bind [OF applied] safe_bind [OF verified] observed) auto
qed

lemma lose_fleet_held:
  assumes "held k J C w"
  shows "safe (\<lambda>w'. sound k (set (journal w')) (\<lambda>_ _. True) (wk_runtime w')) (lose_fleet (journaled panes before after pc) panes' reason w)"
proof -
  let ?pc = "journaled panes before after pc"
  have lost: "safe (held k J C) (each (lose_pane ?pc (RProcessUnavailable reason) OwnerChanged) panes' w)"
    by (rule safe_each [where P = "held k J C"]) (rule assms, rule lose_held)
  have "safe (\<lambda>w'. sound k (set (journal w')) (\<lambda>_ _. True) (wk_runtime w'))
      (sum_bind (each apply_gap gaps (v\<lparr>wk_collector := (c, J @ [x])\<rparr>)) (prepare_collection ?pc))" if "held k J C v" for v gaps c x
  proof -
    have "held k (J @ [x]) (\<lambda>_ _. True) (v\<lparr>wk_collector := (c, J @ [x])\<rparr>)"
      using that by (auto simp: held_def intro: sound_log sound_weaken)
    then have "safe (held k (J @ [x]) (\<lambda>_ _. True)) (each apply_gap gaps (v\<lparr>wk_collector := (c, J @ [x])\<rparr>))"
      by (rule safe_each) (rule gap_held)
    then show ?thesis by (rule safe_bind) (rule safe_mono [OF prepare_held], auto simp: held_def)
  qed
  moreover have "\<exists>d c x. pc_drain ?pc (wk_collector v) = (d, c, J @ [x])" if "held k J C v" for v
    using that by (cases "pc_drain pc (fst (wk_collector v))") (auto simp: journaled_def held_def split_beta)
  ultimately show ?thesis
    unfolding lose_fleet_def by (intro safe_bind [OF lost]) (force split: prod.split)
qed

lemma removed_sound:
  assumes "sound k (set J) (\<lambda>_ _. True) rt"
  shows "safe (\<lambda>w. held k J (\<lambda>p _. p \<in> live) w)
    (each (remove_pane (journaled panes before after (pc :: ('c, 'e) program_collector))) (filter (\<lambda>p. p \<notin> live) (map fst (rt_panes rt))) (work_on rt (c, J)))"
proof -
  let ?gone = "filter (\<lambda>p. p \<notin> live) (map fst (rt_panes rt))"
  let ?P = "\<lambda>D w. held k J (\<lambda>_ _. True) w \<and> (\<forall>p. pane_of (wk_runtime w) p \<noteq> None \<longrightarrow> p \<notin> D \<and> (p \<in> live \<or> p \<in> set ?gone))"
  have "safe (?P ({} \<union> id ` set ?gone)) (each (remove_pane (journaled panes before after pc)) ?gone (work_on rt (c, J)))"
  proof (rule safe_each_grows)
    show "?P {} (work_on rt (c, J))"
      using assms by (auto simp: held_def pane_of_def dest!: map_of_SomeD intro: rev_image_eqI)
    fix p D and w :: "('c \<times> batch_log list) work"
    assume w: "?P D w"
    then have "safe (\<lambda>w'. (sound k (set J) (\<lambda>_ _. True) (wk_runtime w') \<and> pane_of (wk_runtime w') p = None
        \<and> (\<forall>q. q \<noteq> p \<longrightarrow> pane_of (wk_runtime w') q = pane_of (wk_runtime w) q)))
        (remove_pane (journaled panes before after pc) p w)"
      by (intro remove_sound) (simp add: held_def)
    moreover have "journal w' = J" if "remove_pane (journaled panes before after pc) p w = Inr w'" for w'
      using that w by (auto simp: held_def dest: remove_journal)
    moreover have "?P (insert (id p) D) w'"
      if "sound k (set J) (\<lambda>_ _. True) (wk_runtime w')" "pane_of (wk_runtime w') p = None" "journal w' = J"
        and same: "\<forall>q. q \<noteq> p \<longrightarrow> pane_of (wk_runtime w') q = pane_of (wk_runtime w) q" for w'
    proof -
      have "q \<notin> insert (id p) D \<and> (q \<in> live \<or> q \<in> set ?gone)" if "pane_of (wk_runtime w') q \<noteq> None" for q
        using w same that \<open>pane_of (wk_runtime w') p = None\<close> by (cases "q = p") auto
      then show ?thesis using that(1,3) unfolding held_def by blast
    qed
    ultimately show "safe (?P (insert (id p) D)) (remove_pane (journaled panes before after pc) p w)"
      by (cases "remove_pane (journaled panes before after pc) p w") auto
  qed
  then show ?thesis
  proof (rule safe_mono)
    fix w assume w: "?P ({} \<union> id ` set ?gone) w"
    then have "p \<in> live" if "binding_of (wk_runtime w) p = Some b" for p b
      using that by (auto simp: binding_of_def bind_eq_Some_conv)
    then show "held k J (\<lambda>p _. p \<in> live) w" using w by (auto simp: held_def sound_def)
  qed
qed

lemma batch_sound:
  assumes "sound k (set J) (\<lambda>_ _. True) rt"
  shows "safe (\<lambda>w'. sound k (set (journal w')) (\<lambda>_ _. True) (wk_runtime w'))
    (process_batch_with (journaled panes before after (pc :: ('c, 'e) program_collector)) k panes before after at
      (reacting (journaled panes before after pc) k react) rt (c, J))"
proof -
  let ?pc = "journaled panes before after pc"
  let ?ok = "\<lambda>w'. sound k (set (journal w')) (\<lambda>_ _. True) (wk_runtime w')"
  have quiet: "safe ?ok (prepare_collection ?pc w)" if "held k J C w" for C w
    by (rule safe_mono [OF prepare_held [OF that]]) (auto simp: held_def intro: sound_weaken)
  have batch: "safe ?ok (if panes = [] then prepare_collection ?pc w
      else case before of
        Inl reason \<Rightarrow> lose_fleet ?pc panes reason w
      | Inr snapshot \<Rightarrow>
          sum_bind (each (bind_pane ?pc k snapshot) panes w) (\<lambda>w1.
          sum_bind (prepare_collection ?pc w1) (process_drain ?pc k panes after at (reacting ?pc k react))))"
    if w: "held k J (\<lambda>p _. p \<in> pn_pane ` set panes) w" for w
  proof (cases before)
    case (Inl reason)
    show ?thesis using quiet [OF w] lose_fleet_held [OF w, of panes before after pc panes reason] by (simp only: Inl sum.case split: if_split) simp
  next
    case (Inr snapshot)
    have "safe (\<lambda>w'. sound k (set J) (shown k panes before) (wk_runtime w')) (each (bind_pane ?pc k snapshot) panes w)"
      unfolding Inr using w by (intro bind_all_sound) (simp add: held_def)
    moreover have "journal w' = J" if "each (bind_pane ?pc k snapshot) panes w = Inr w'" for w'
      using each_journal [OF bind_journal that] w by (simp add: held_def)
    ultimately have bound: "safe (held k J (shown k panes before)) (each (bind_pane ?pc k snapshot) panes w)"
      by (rule safe_held)
    have "safe ?ok (sum_bind (each (bind_pane ?pc k snapshot) panes w) (\<lambda>w1.
          sum_bind (prepare_collection ?pc w1) (process_drain ?pc k panes after at (reacting ?pc k react))))"
      by (rule safe_bind [OF bound]) (rule safe_bind [OF prepare_held process_drain_held])
    then show ?thesis using quiet [OF w] by (simp only: Inr sum.case split: if_split) simp
  qed
  show ?thesis
    unfolding process_batch_with_def Let_def by (rule safe_bind [OF removed_sound [OF assms] batch])
qed

section \<open>Runs\<close>

text \<open>What holds of the runtime between operations: the attribution in the journal, exact bytes.\<close>

definition run_ok :: "'re knowledge \<Rightarrow> program_runtime \<times> 'c \<times> batch_log list \<Rightarrow> bool" where
  "run_ok k s = sound k (set (snd (snd s))) (\<lambda>_ _. True) (fst s)"

lemma sound_empty: "sound k L C (rt\<lparr>rt_panes := [], rt_retained_bytes := 0\<rparr>)"
  unfolding sound_def
proof
  show "\<exists>G. runtime_inv k L G (rt\<lparr>rt_panes := [], rt_retained_bytes := 0\<rparr>)"
    by (rule exI [of _ Map.empty]) (simp add: runtime_inv_def stored_total_def)
qed (simp add: binding_of_def pane_of_def)

lemma reset_safe:
  "safe (\<lambda>w. \<forall>L. sound k L C (wk_runtime w)) (runtime_reset pc rt c :: 'e runtime_panic + 'c work)"
proof -
  have dropped: "safe (\<lambda>_. True) (each (\<lambda>(p, entry) w. drop_stream pc p OwnerChanged
      (add_release (release_of p (map_option bd_owner (pg_binding entry)) Disabled) w)) es (work_on rt c) :: 'e runtime_panic + 'c work)" for es
    by (rule safe_each) (auto intro: safe_mono [OF drop_stream_runtime])
  show ?thesis
    unfolding runtime_reset_def
    by (rule safe_bind [OF dropped], rule safe_mono [OF prepare_runtime [where k = k and L = "{}" and C = C]])
      (simp_all add: sound_empty)
qed

lemma runtime_exec_ok:
  assumes "run_ok k s"
  shows "safe (run_ok k) (runtime_exec pc k op s)"
proof -
  obtain rt c J where s: "s = (rt, c, J)" by (cases s)
  have rt: "sound k (set J) (\<lambda>_ _. True) rt" using assms by (simp add: s run_ok_def)
  show ?thesis
  proof (cases op)
    case (RBatch panes before after at react)
    have "safe (run_ok k) (map_sum id (\<lambda>w. (wk_runtime w, wk_collector w))
        (process_batch_with (journaled panes before after pc) k panes before after at (reacting (journaled panes before after pc) k react) rt (c, J)))"
      by (rule safe_map [OF batch_sound [OF rt]]) (simp add: run_ok_def)
    then show ?thesis by (simp add: runtime_exec_def s RBatch)
  next
    case (RStep step)
    let ?pc = "journaled [] (Inl ProcessUnsupported) (Inl ProcessUnsupported) pc"
    have "safe (\<lambda>s'. sound k (set J) (\<lambda>_ _. True) (fst s')) (runtime_step_exec ?pc k step (rt, c, J))"
      by (rule runtime_step_sound) (simp add: rt)
    then have "safe (run_ok k) (runtime_step_exec ?pc k step (rt, c, J))"
      using runtime_step_journal [of "[]" _ _ pc k step "(rt, c, J)"]
      by (cases "runtime_step_exec ?pc k step (rt, c, J)") (simp_all add: run_ok_def)
    then show ?thesis by (simp add: runtime_exec_def s RStep)
  next
    case RReset
    have "safe (run_ok k) (map_sum id (\<lambda>w. (wk_runtime w, wk_collector w))
        (runtime_reset (journaled [] (Inl ProcessUnsupported) (Inl ProcessUnsupported) pc) rt (c, J)))"
      by (rule safe_map [OF reset_safe [where k = k and C = "\<lambda>_ _. True"]]) (simp add: run_ok_def)
    then show ?thesis by (simp add: runtime_exec_def s RReset)
  qed
qed

lemma runtime_run_ok: "safe (run_ok k) (runtime_run pc k ops c)"
  unfolding runtime_run_def
proof (rule safe_each)
  have "sound k {} (\<lambda>_ _. True) (runtime_new\<lparr>rt_panes := [], rt_retained_bytes := 0\<rparr>)" by (rule sound_empty)
  then show "run_ok k (runtime_new, c, [])" by (simp add: run_ok_def runtime_new_def)
qed (rule runtime_exec_ok)

lemma runtime_run_sound:
  "runtime_run pc k ops c = Inr (rt, c', J) \<Longrightarrow> \<exists>G. runtime_inv k (set J) G rt"
  using runtime_run_ok [of k pc ops c] by (auto simp: run_ok_def sound_def)

text \<open>A selection shows a record attested for the binding that selects.\<close>

lemma selected_attested:
  assumes "runtime_inv k L G rt" and "decision rt p = Some d"
  shows "\<exists>e b ident r. pane_of rt p = Some e \<and> pg_binding e = Some b \<and> de_pane d = p \<and> de_manifest d = rc_manifest ident
    \<and> de_chain d = rc_chain ident \<and> rec_id r = sel_record (de_selection d) \<and> rec_status r = sel_protocol (de_selection d)
    \<and> attested k L p ident (de_boundary d) r"
proof -
  obtain e b sel where e: "pane_of rt p = Some e" "pg_binding e = Some b" "store_select (pg_store e) (live_of b) = Some sel"
    and d: "de_pane d = p" "de_manifest d = rc_manifest (bd_identity b)" "de_chain d = rc_chain (bd_identity b)"
      "de_boundary d = bd_boundary b" "de_selection d = sel"
    using assms(2) by (auto simp: decision_def bind_eq_Some_conv split: if_splits)
  have ok: "store_wf (pg_store e)" "store_attested k L G p (pg_store e)" "binding_ok G p b"
    using inv_pane [OF assms(1) e(1)] e(2) by (simp_all add: entry_ok_def)
  obtain x where x: "select_entry (pg_store e) (live_of b) = Some x" "sel_record sel = sr_id x" "sel_protocol sel = sr_status x"
    using e(3) by (rule store_select_Some)
  note chosen = select_entry_Some(1,2) [OF x(1)]
  have "sr_observed_owner x = Some (bd_owner b)"
    using ok(1) chosen by (auto simp: eligible_def store_wf_def entries_wf_def entry_wf_def live_of_def)
  then obtain ident bd where "G (bd_owner b) = Some (p, ident, bd)" "attested k L p ident bd (sr_record x)"
    using ok(2) chosen(1) unfolding store_attested_def by blast
  then have "attested k L p (bd_identity b) (bd_boundary b) (sr_record x)" using ok(3) by (simp add: binding_ok_def)
  then show ?thesis using e d x(2,3) by (intro exI [of _ e] exI [of _ b] exI [of _ "bd_identity b"] exI [of _ "sr_record x"]) simp
qed

end
