(* ===== verification/Runtime_Properties.thy ===== *)
theory Runtime_Properties
  imports Runtime_Runs Identity_Properties
begin

text \<open>What the program runtime guarantees over any run, and what its last check before a publication decides.\<close>

section \<open>An example\<close>

text \<open>One pane with the agent of the process tree above, on a stream whose connection is 3 and floor 5.\<close>

definition example_births :: "u32 \<Rightarrow> (process_unavailable + process_birth) option" where
  "example_births pid = (if pid \<in> {10, 20} then Some (Inr (LinuxStartTicks pid)) else None)"

definition example_sample :: process_snapshot where
  "example_sample = \<lparr>sn_processes = example_procs, sn_births = example_births\<rparr>"

definition example_pane :: program_pane where
  "example_pane = \<lparr>pn_pane = 1, pn_pane_pid = 10, pn_current_command = ''claude'', pn_title = ''t'', pn_ignored = False, pn_registration = None\<rparr>"

definition example_knowledge :: "string knowledge" where
  "example_knowledge = (\<lambda>_ _. False, [example_manifest])"

text \<open>A collector that holds the events it will hand out.\<close>

definition example_collector :: "(observed_event list, unit) program_collector" where
  "example_collector =
     \<lparr>pc_boundary = (\<lambda>_ c. Inr (Some \<lparr>ob_connection = 3, ob_floor = 5\<rparr>, c)),
      pc_stream = (\<lambda>_ _. Some \<lparr>ss_connection = 3, ss_pending_gap = None\<rparr>),
      pc_invalidate = (\<lambda>_ _ c. Inr c),
      pc_pending_bytes = (\<lambda>_. 0),
      pc_set_payload_budget = (\<lambda>_ c. Inr c),
      pc_drain = (\<lambda>c. (\<lparr>dr_all_invalidated = False, dr_invalidations = [], dr_observations = c\<rparr>, []))\<rparr>"

definition example_events :: "observed_event list" where
  "example_events = [\<lparr>oe_pane = 1, oe_connection = 3, oe_sequence = 6, oe_event = ECommand (sample_report ''a'' (PWorking None))\<rparr>]"

definition example_ops :: "runtime_op list" where
  "example_ops = [RBatch [example_pane] (Inr example_sample) (Inr example_sample) 30 (\<lambda>_ _. [])]"

lemma example_runs:
  "case runtime_run example_collector example_knowledge example_ops example_events of
     Inr (rt, _, _) \<Rightarrow> decision rt 1 \<noteq> None | Inl _ \<Rightarrow> False"
  by code_simp

section \<open>The byte budget\<close>

text \<open>C13 (runtime_within_budget). No run of the runtime, with any collector, samples and consumer, fails one of
  its internal assumptions (a byte count below zero, a result without its record, an empty process chain), and
  whatever the panes reported, what their stores retain is counted exactly and never exceeds 32 MiB.\<close>

theorem runtime_within_budget:
  "case runtime_run pc k ops c of
     Inl failure \<Rightarrow> failure \<noteq> Broken
   | Inr (rt, _, _) \<Rightarrow>
       rt_retained_bytes rt = sum_list (map (\<lambda>(_, e). retained_bytes (pg_store e)) (rt_panes rt))
       \<and> rt_retained_bytes rt \<le> 32 * 1024 * 1024"
  using runtime_run_ok [of k pc ops c]
  by (cases "runtime_run pc k ops c")
    (auto simp: run_ok_def sound_def runtime_inv_def stored_total_def MAX_PROGRAM_BYTES_def)

section \<open>The origin of a decision\<close>

text \<open>C4 (decision_attested). A decision only ever shows the pane's own process at work: the record it selects
  was drained in one batch, for that pane, from the decision's own stream and after its boundary, and both
  process samples of that batch, the one taken before the drain and the one taken after it, recognize in the
  pane the very process chain and agent that the decision names.\<close>

theorem decision_attested:
  assumes "runtime_run pc k ops c0 = Inr (rt, c, J)" and "decision rt p = Some d"
  shows "\<exists>x \<in> set J. \<exists>ident r. de_pane d = p \<and> de_manifest d = rc_manifest ident \<and> de_chain d = rc_chain ident
    \<and> shown k (bl_panes x) (bl_before x) p ident \<and> shown k (bl_panes x) (bl_after x) p ident
    \<and> rec_id r = sel_record (de_selection d) \<and> rec_status r = sel_protocol (de_selection d)
    \<and> (\<exists>obs \<in> set (dr_observations (bl_drain x)). oe_pane obs = p \<and> oe_event obs = ECommand (Replace r)
         \<and> oe_connection obs = ob_connection (de_boundary d) \<and> ob_floor (de_boundary d) < oe_sequence obs)"
proof -
  obtain G where "runtime_inv k (set J) G rt" using runtime_run_sound [OF assms(1)] by blast
  from selected_attested [OF this assms(2)] obtain ident r where d: "de_pane d = p" "de_manifest d = rc_manifest ident"
      "de_chain d = rc_chain ident" "rec_id r = sel_record (de_selection d)" "rec_status r = sel_protocol (de_selection d)"
    and "attested k (set J) p ident (de_boundary d) r" by blast
  then obtain x where "x \<in> set J" "confirmed k x p ident" "delivered_in x p (de_boundary d) (Replace r)"
    by (auto simp: attested_def)
  then show ?thesis using d unfolding confirmed_def delivered_in_def by blast
qed

theorem decision_attested_witness:
  "\<exists>(x :: batch_log) ident. shown example_knowledge (bl_panes x) (bl_before x) 1 ident \<and> shown example_knowledge (bl_panes x) (bl_after x) 1 ident"
proof -
  obtain rt c J d where "runtime_run example_collector example_knowledge example_ops example_events = Inr (rt, c, J)" "decision rt 1 = Some d"
    using example_runs by (auto split: sum.splits)
  from decision_attested [OF this] show ?thesis by blast
qed

section \<open>The last check\<close>

lemma revoke_others: "revoke p reason departure w = Inr w' \<Longrightarrow> q \<noteq> p \<Longrightarrow> pane_of (wk_runtime w') q = pane_of (wk_runtime w) q"
  by (auto simp: revoke_def Let_def map_sum_Inr reaccount_def split: if_splits option.splits)

lemma unbound_decision: "binding_of rt p = None \<Longrightarrow> decision rt p = None"
  by (auto simp: decision_def binding_of_def bind_eq_None_conv)

lemma unbound_presentation: "binding_of rt (de_pane d) = None \<Longrightarrow> record_presentation d disposition rt = Inr (False, rt)"
  by (auto simp: record_presentation_def binding_of_def split: option.splits)

lemma stream_kept: "stream_loss pc c p connection = None \<longleftrightarrow> (\<exists>s. pc_stream pc p c = Some s \<and> ss_connection s = connection)"
  by (auto simp: stream_loss_def split: option.splits)

text \<open>What a withdrawal at the last check leaves.\<close>

lemma withdrawal:
  assumes "sound k L C rt"
  shows "safe (\<lambda>w. binding_of (wk_runtime w) p = None \<and> (\<forall>q. q \<noteq> p \<longrightarrow> pane_of (wk_runtime w) q = pane_of rt q))
    (sum_bind (revoke p reason departure (work_on rt c)) (\<lambda>w.
     sum_bind (if dropped then drop_stream pc p gap w else Inr w) (prepare_collection pc)) :: 'e runtime_panic + 'c work)"
proof -
  let ?P = "\<lambda>w. sound k L C (wk_runtime w) \<and> binding_of (wk_runtime w) p = None \<and> (\<forall>q. q \<noteq> p \<longrightarrow> pane_of (wk_runtime w) q = pane_of rt q)"
  have revoked: "safe ?P (revoke p reason departure (work_on rt c) :: 'e runtime_panic + 'c work)"
    using revoke_sound [OF sound_off, of k L C "work_on rt c" p reason departure, where 'e = 'e] assms revoke_others [of p reason departure "work_on rt c"]
    by (cases "revoke p reason departure (work_on rt c) :: 'e runtime_panic + 'c work") auto
  have dropped: "safe ?P (if dropped then drop_stream pc p gap w else Inr w)" if "?P w" for w
    using that safe_mono [OF drop_stream_runtime [of w pc p gap], of ?P] by auto
  have prepared: "safe (\<lambda>w. binding_of (wk_runtime w) p = None \<and> (\<forall>q. q \<noteq> p \<longrightarrow> pane_of (wk_runtime w) q = pane_of rt q))
      (prepare_collection pc w)" if "?P w" for w
    using that by (intro safe_mono [OF prepare_runtime [of k L C]]) auto
  show ?thesis by (rule safe_bind [OF revoked safe_bind [OF dropped prepared]])
qed

lemma map_sum_bind: "map_sum id f (sum_bind r g) = sum_bind r (\<lambda>w. map_sum id f (g w))"
  by (cases r) simp_all

definition current_process :: "('c, 'e) program_collector \<Rightarrow> 're knowledge \<Rightarrow> program_decision \<Rightarrow> program_pane \<Rightarrow> process_snapshot
    \<Rightarrow> program_runtime \<Rightarrow> 'c \<Rightarrow> bool" where
  "current_process pc k d pane snapshot rt c =
     (pn_pane pane = de_pane d
      \<and> is_some_and (pc_stream pc (de_pane d) c) (\<lambda>s. ss_connection s = ob_connection (de_boundary d))
      \<and> is_some_and (binding_of rt (de_pane d)) (still_recognized k pane snapshot))"

lemma recheck_cases:
  fixes pc :: "('c, 'e) program_collector"
  obtains (stale) "decision rt (de_pane d) \<noteq> Some d" "recheck pc k d pane snapshot (rt, c) = Inr (Inl StaleDecision, rt, c)"
  | (current) "decision rt (de_pane d) = Some d" "current_process pc k d pane snapshot rt c"
      "recheck pc k d pane snapshot (rt, c) = Inr (Inr (), rt, c)"
  | (withdrawn) reason departure dropped where "decision rt (de_pane d) = Some d" "\<not> current_process pc k d pane snapshot rt c"
      "recheck pc k d pane snapshot (rt, c) =
         map_sum id (\<lambda>w. (Inl (Revoked (release_of (de_pane d) (Some (sel_owner (de_selection d))) reason)), wk_runtime w, wk_collector w))
           (sum_bind (revoke (de_pane d) reason departure (work_on rt c)) (\<lambda>w.
            sum_bind (if dropped then drop_stream pc (de_pane d) OwnerChanged w else Inr w) (prepare_collection pc)))"
proof (cases "decision rt (de_pane d) = Some d")
  case True
  let ?loss = "stream_loss pc c (de_pane d) (ob_connection (de_boundary d))"
  have current: "current_process pc k d pane snapshot rt c \<longleftrightarrow> ?loss = None \<and> pn_pane pane = de_pane d
      \<and> is_some_and (binding_of rt (pn_pane pane)) (still_recognized k pane snapshot)"
    by (auto simp: current_process_def stream_kept is_some_and_iff)
  show ?thesis
  proof (cases "current_process pc k d pane snapshot rt c")
    case True
    show ?thesis
      by (rule that(2) [OF _ True]) (use \<open>decision rt (de_pane d) = Some d\<close> True current in \<open>auto simp: recheck_def Let_def\<close>)
  next
    case False
    show ?thesis
      by (rule that(3) [of "case ?loss of Some r \<Rightarrow> r | None \<Rightarrow> IdentityChanged" "?loss = None" "?loss = None"])
        (use True False current in \<open>auto simp: recheck_def Let_def map_sum_bind\<close>)
  qed
qed (use that(1) in \<open>simp add: recheck_def\<close>)

text \<open>C8 (recheck_verdict). The check immediately before a delayed publication passes, and changes nothing, only if
  the decision is still what the runtime would decide, its stream is the one the pane has and the fresh sample
  still recognizes its process. A decision that is no longer current is reported as stale, and nothing changes.
  A current decision whose stream or process is gone is withdrawn: the pane has no episode and no decision any
  more, a presentation of the decision is refused, and every other pane is as before.\<close>

theorem recheck_verdict:
  assumes "runtime_run pc k ops c0 = Inr (rt, c, J)"
  shows "case recheck pc k d pane snapshot (rt, c) of
      Inl failure \<Rightarrow> failure \<noteq> Broken
    | Inr (Inr _, s) \<Rightarrow> s = (rt, c) \<and> decision rt (de_pane d) = Some d \<and> current_process pc k d pane snapshot rt c
    | Inr (Inl StaleDecision, s) \<Rightarrow> s = (rt, c) \<and> decision rt (de_pane d) \<noteq> Some d
    | Inr (Inl (Revoked release), rt', _) \<Rightarrow>
        decision rt (de_pane d) = Some d \<and> \<not> current_process pc k d pane snapshot rt c
        \<and> rl_pane release = de_pane d \<and> rl_owner release = Some (sel_owner (de_selection d))
        \<and> binding_of rt' (de_pane d) = None \<and> decision rt' (de_pane d) = None
        \<and> (\<forall>disposition. (record_presentation d disposition rt' :: 'e runtime_panic + _) = Inr (False, rt'))
        \<and> (\<forall>q. q \<noteq> de_pane d \<longrightarrow> pane_of rt' q = pane_of rt q)"
proof (cases rule: recheck_cases [of rt d pc k pane snapshot c])
  case (withdrawn reason departure dropped)
  have "sound k (set J) (\<lambda>_ _. True) rt" using runtime_run_ok [of k pc ops c0] assms by (simp add: run_ok_def)
  from withdrawal [OF this, of "de_pane d" reason departure c dropped pc OwnerChanged]
  show ?thesis
    unfolding withdrawn(3)
    by (cases "sum_bind (revoke (de_pane d) reason departure (work_on rt c)) (\<lambda>w.
            sum_bind (if dropped then drop_stream pc (de_pane d) OwnerChanged w else Inr w) (prepare_collection pc))")
      (use withdrawn(1,2) in \<open>simp_all add: release_of_def unbound_decision unbound_presentation\<close>)
qed simp_all

text \<open>The example's decision passes while its process is in the foreground; with a remote shell there, it is withdrawn.\<close>

definition example_recheck :: "string \<Rightarrow> program_runtime \<Rightarrow> observed_event list
    \<Rightarrow> unit runtime_panic + ((recheck_error + unit) \<times> program_runtime \<times> observed_event list)" where
  "example_recheck command rt c =
     recheck example_collector example_knowledge (the (decision rt 1)) (example_pane\<lparr>pn_current_command := command\<rparr>) example_sample (rt, c)"

lemma example_rechecked:
  "case runtime_run example_collector example_knowledge example_ops example_events of
     Inr (rt, c, _) \<Rightarrow>
       (case example_recheck ''claude'' rt c of Inr (Inr _, _) \<Rightarrow> True | _ \<Rightarrow> False)
       \<and> (case example_recheck ''ssh'' rt c of Inr (Inl (Revoked _), _) \<Rightarrow> True | _ \<Rightarrow> False)
   | Inl _ \<Rightarrow> False"
  by code_simp

theorem recheck_verdict_witness:
  "\<exists>rt c d s release rt'. current_process example_collector example_knowledge d example_pane example_sample rt c \<and> decision rt 1 = Some d
     \<and> recheck example_collector example_knowledge d (example_pane\<lparr>pn_current_command := ''ssh''\<rparr>) example_sample (rt, c)
         = Inr (Inl (Revoked release), rt', s) \<and> decision rt' 1 = None"
proof -
  obtain rt c J d where run: "runtime_run example_collector example_knowledge example_ops example_events = Inr (rt, c, J)"
    and d: "decision rt 1 = Some d"
    using example_runs by (auto split: sum.splits)
  have pane: "de_pane d = 1" using d by (auto simp: decision_def bind_eq_Some_conv split: if_splits)
  obtain u where passed: "example_recheck ''claude'' rt c = Inr (Inr u, rt, c)"
    using example_rechecked run recheck_verdict [OF run, of d example_pane example_sample] d
    by (auto simp: example_recheck_def example_pane_def split: sum.splits)
  obtain release rt' s where ssh: "example_recheck ''ssh'' rt c = Inr (Inl (Revoked release), rt', s)"
    using example_rechecked run by (auto split: sum.splits recheck_error.splits)
  have "current_process example_collector example_knowledge d example_pane example_sample rt c"
    using recheck_verdict [OF run, of d example_pane example_sample] passed d by (simp add: example_recheck_def example_pane_def)
  moreover have "decision rt' 1 = None"
    using recheck_verdict [OF run, of d "example_pane\<lparr>pn_current_command := ''ssh''\<rparr>" example_sample] ssh d pane
    by (simp add: example_recheck_def) blast
  moreover have "recheck example_collector example_knowledge d (example_pane\<lparr>pn_current_command := ''ssh''\<rparr>) example_sample (rt, c)
      = Inr (Inl (Revoked release), rt', s)"
    using ssh d by (simp add: example_recheck_def)
  ultimately show ?thesis using d by blast
qed

end
