(* ===== verification/Tmux_Read.thy ===== *)
theory Tmux_Read
  imports Pane_Io Process_Facts Action_Lock
begin

text \<open>
  The read path of the tmux client (\<open>tma-tmux/src/tmux/read.rs\<close>): the formats it asks tmux to expand
  and the parsing of what comes back, line by line, for panes, sessions, clients and the process
  table. Running tmux or \<open>ps\<close> is a parameter that maps an argument vector to the text printed.
  Definitions only.
\<close>

section \<open>Lines\<close>

definition strip_text_cr :: "string \<Rightarrow> string" where
  "strip_text_cr line = (if line \<noteq> [] \<and> last line = CHR 0x0D then butlast line else line)"

definition text_lines :: "string \<Rightarrow> string list" where
  "text_lines text =
     (let parts = split_on (CHR 0x0A) text in
      map strip_text_cr (butlast parts) @ (if last parts = [] then [] else [last parts]))"

abbreviation lookup_format :: "string \<Rightarrow> string" where
  "lookup_format key \<equiv> ''#{'' @ key @ ''}''"

definition sep_join :: "string list \<Rightarrow> string" where
  "sep_join parts = join_with [UNIT_SEPARATOR] parts"

section \<open>Panes\<close>

record pane_record =
  pr_pane_id :: string
  pr_pane_pid :: u32
  pr_session :: string
  pr_window_index :: u32
  pr_pane_index :: u32
  pr_current_command :: string
  pr_window_activity :: u64
  pr_alternate_on :: bool
  pr_scroll_position :: "u32 option"
  pr_pane_height :: u32
  pr_cwd :: "string option"
  pr_options :: options
  pr_window_summary :: "string option"
  pr_session_summary :: "string option"
  pr_title :: string

definition locator :: "pane_record \<Rightarrow> string" where
  "locator r = pr_session r @ '':'' @ show_nat (pr_window_index r) @ ''.'' @ show_nat (pr_pane_index r)"

definition fixed_fields :: "string list" where
  "fixed_fields = map lookup_format
     [''pane_id'', ''pane_pid'', ''session_name'', ''window_index'', ''pane_index'', ''pane_current_command'',
      ''window_activity'', ''alternate_on'', ''scroll_position'', ''pane_height'', ''pane_current_path'']"

definition FIXED_FIELDS :: nat where "FIXED_FIELDS = 11"

definition list_panes_format :: string where
  "list_panes_format =
     sep_join (fixed_fields @ map lookup_format AGENT_OPTIONS @ map lookup_format EXTRA_PANE_OPTIONS
       @ [lookup_format OPT_SUMMARY, lookup_format OPT_SESSION_SUMMARY, lookup_format ''pane_title''])"

definition parse_failed :: "string \<Rightarrow> persistence_error" where
  "parse_failed what = PeTmux (TmuxFailed what)"

definition number_field :: "string \<Rightarrow> string \<Rightarrow> persistence_error + u32" where
  "number_field what v =
     (case parse_uint u32_max v of Some n \<Rightarrow> Inr n | None \<Rightarrow> Inl (parse_failed (what @ '' is not a number'')))"

definition optional_text :: "string \<Rightarrow> string option" where
  "optional_text v = (if v = [] then None else Some v)"

definition pane_options :: "string list \<Rightarrow> options" where
  "pane_options values = map_of (rev (filter (\<lambda>(_, v). v \<noteq> []) (zip (AGENT_OPTIONS @ EXTRA_PANE_OPTIONS) values)))"

definition parse_pane_line :: "string \<Rightarrow> persistence_error + pane_record" where
  "parse_pane_line line =
     (let total = FIXED_FIELDS + length AGENT_OPTIONS + length EXTRA_PANE_OPTIONS + 3;
          parts = splitn total UNIT_SEPARATOR line;
          summaries_at = FIXED_FIELDS + length AGENT_OPTIONS + length EXTRA_PANE_OPTIONS
      in if length parts \<noteq> total then Inl (parse_failed ''list-panes: field count'')
         else
           sum_bind (number_field ''pane_pid'' (parts ! 1)) (\<lambda>pid.
           sum_bind (number_field ''window_index'' (parts ! 3)) (\<lambda>window.
           sum_bind (number_field ''pane_index'' (parts ! 4)) (\<lambda>index.
           sum_bind (if parts ! 8 = [] then Inr None else map_sum id Some (number_field ''scroll_position'' (parts ! 8))) (\<lambda>scroll.
           sum_bind (if parts ! 9 = [] then Inr 0 else number_field ''pane_height'' (parts ! 9)) (\<lambda>height.
             Inr \<lparr>pr_pane_id = parts ! 0, pr_pane_pid = pid, pr_session = parts ! 2, pr_window_index = window,
                  pr_pane_index = index, pr_current_command = parts ! 5,
                  pr_window_activity = (case parse_uint u64_max (parts ! 6) of Some n \<Rightarrow> n | None \<Rightarrow> 0),
                  pr_alternate_on = (parts ! 7 = ''1''), pr_scroll_position = scroll, pr_pane_height = height,
                  pr_cwd = optional_text (parts ! 10),
                  pr_options = pane_options (drop FIXED_FIELDS parts),
                  pr_window_summary = optional_text (parts ! summaries_at),
                  pr_session_summary = optional_text (parts ! Suc summaries_at),
                  pr_title = parts ! (total - 1)\<rparr>))))))"

type_synonym 's runner = "string list \<Rightarrow> ('s, string) io"

definition list_panes :: "'s runner \<Rightarrow> ('s, pane_record list) io" where
  "list_panes run =
     io_bind (run [''list-panes'', ''-a'', ''-F'', list_panes_format]) (\<lambda>out.
       io_of (collect_results (map parse_pane_line (filter (\<lambda>l. l \<noteq> []) (text_lines out)))))"

definition list_pane_option :: "'s runner \<Rightarrow> string \<Rightarrow> ('s, (string \<times> string) list) io" where
  "list_pane_option run key =
     io_bind (run [''list-panes'', ''-a'', ''-F'', sep_join [lookup_format ''pane_id'', lookup_format key]]) (\<lambda>out.
       io_return (filter (\<lambda>(_, v). v \<noteq> []) (List.map_filter (split_once UNIT_SEPARATOR) (text_lines out))))"

section \<open>Sessions, topology, clients\<close>

record session_info =
  si_id :: string
  si_name :: string

definition parse_session_line :: "string \<Rightarrow> session_info" where
  "parse_session_line line =
     (case split_once UNIT_SEPARATOR line of
        Some (i, name) \<Rightarrow> \<lparr>si_id = i, si_name = name\<rparr>
      | None \<Rightarrow> \<lparr>si_id = line, si_name = []\<rparr>)"

definition list_sessions :: "'s runner \<Rightarrow> ('s, session_info list) io" where
  "list_sessions run =
     io_bind (run [''list-sessions'', ''-F'', sep_join [lookup_format ''session_id'', lookup_format ''session_name'']]) (\<lambda>out.
       io_return (map parse_session_line (filter (\<lambda>l. l \<noteq> []) (text_lines out))))"

definition parse_topology_line :: "string \<Rightarrow> persistence_error + (session_id \<times> pane_id)" where
  "parse_topology_line line =
     (case Option.bind (split_once (CHR '' '') line) (\<lambda>(session, pane).
             Option.bind (ok (session_id_parse session)) (\<lambda>s. map_option (Pair s) (ok (pane_id_parse pane)))) of
        Some x \<Rightarrow> Inr x
      | None \<Rightarrow> Inl (parse_failed ''invalid stable session/pane IDs''))"

definition control_topology :: "'s runner \<Rightarrow> ('s, (session_id \<times> pane_id) list) io" where
  "control_topology run =
     io_bind (run [''list-panes'', ''-a'', ''-F'', lookup_format ''session_id'' @ '' '' @ lookup_format ''pane_id'']) (\<lambda>out.
       io_of (collect_results (map parse_topology_line (filter (\<lambda>l. l \<noteq> []) (text_lines out)))))"

definition parse_client_line :: "string \<Rightarrow> client_view option" where
  "parse_client_line line =
     (case split_on UNIT_SEPARATOR line of
        pane # activity # control # _ \<Rightarrow>
          (case parse_uint u64_max activity of
             None \<Rightarrow> None
           | Some secs \<Rightarrow>
               if pane = [] then None
               else Some \<lparr>cv_pane_id = pane, cv_activity_secs = secs, cv_control_mode = (control \<noteq> ''0'')\<rparr>)
      | _ \<Rightarrow> None)"

definition client_views :: "'s runner \<Rightarrow> ('s, client_view list) io" where
  "client_views run =
     io_bind (run [''list-clients'', ''-F'', sep_join (map lookup_format [''pane_id'', ''client_activity'', ''client_control_mode''])])
       (\<lambda>out. io_return (List.map_filter parse_client_line (text_lines out)))"

definition list_clients :: "'s runner \<Rightarrow> ('s, string list) io" where
  "list_clients run =
     io_bind (run [''list-clients'', ''-F'', lookup_format ''client_name'']) (\<lambda>out.
       io_return (filter (\<lambda>l. l \<noteq> []) (text_lines out)))"

section \<open>Departures\<close>

datatype departure_kind = SelectPane | WindowChange

definition from_hook_name :: "string \<Rightarrow> departure_kind option" where
  "from_hook_name hook =
     (if hook = ''after-select-pane'' then Some SelectPane
      else if hook = ''session-window-changed'' then Some WindowChange else None)"

fun departure_with :: "departure_kind \<Rightarrow> string \<Rightarrow> string" where
  "departure_with SelectPane v = ''#{P:#{?pane_last,'' @ v @ '',}}''"
| "departure_with WindowChange v = ''#{W:#{?window_last_flag,#{P:#{?pane_active,'' @ v @ '',}},}}''"

definition departure_format :: "departure_kind \<Rightarrow> string" where
  "departure_format kind = departure_with kind (lookup_format ''pane_id'')"

definition departed_pane :: "'s runner \<Rightarrow> string \<Rightarrow> departure_kind \<Rightarrow> ('s, string option) io" where
  "departed_pane run arrival kind =
     io_bind (run [''display-message'', ''-p'', ''-t'', arrival, departure_format kind]) (\<lambda>out.
       io_return (optional_text (trim_text out)))"

text \<open>The witness of an attention mark (\<open>capture_fields\<close> of \<open>tma-core/src/persistence.rs\<close>), bounded field by field.\<close>

definition capture_lookup :: "bool \<Rightarrow> string \<Rightarrow> string" where
  "capture_lookup shell key = (if shell then ''#{q:'' @ key @ ''}'' else lookup_format key)"

definition capture_bounded :: "bool \<Rightarrow> string \<Rightarrow> nat \<Rightarrow> string \<Rightarrow> string" where
  "capture_bounded shell key mx cs =
     ''#{?#{&&:#{==:#{m/r:[^'' @ cs @ ''],'' @ lookup_format key @ ''},0},#{e|<=:#{n:'' @ key @ ''},'' @ show_nat mx
     @ ''}},'' @ capture_lookup shell key @ '',!}''"

definition capture_commit :: "bool \<Rightarrow> string" where
  "capture_commit shell =
     (let prefix = ''#{=32:'' @ OPT_COMMIT @ ''}''
      in ''#{?#{==:'' @ lookup_format OPT_COMMIT @ '',},,#{?#{&&:#{==:#{m/r:[^0-9a-f],'' @ prefix @ ''},0},#{&&:#{==:#{n:''
         @ prefix @ ''},32},#{e|<=:#{n:'' @ OPT_COMMIT @ ''},'' @ show_nat (33 + MAX_OWNER_BYTES) @ ''}}},#{=32''
         @ (if shell then '';q'' else []) @ '':'' @ OPT_COMMIT @ ''},!}}'')"

definition capture_fields :: "bool \<Rightarrow> string list" where
  "capture_fields shell =
     [capture_lookup shell ''session_id'', capture_lookup shell ''pane_id'',
      capture_bounded shell OPT_RECEIPT 32 ''0-9a-f'', capture_bounded shell OPT_ATTENTION_EPISODE 32 ''0-9a-f'',
      capture_commit shell, capture_bounded shell OPT_ORIGIN 1 ''0-9'', capture_bounded shell OPT_STATE 7 ''a-z'',
      capture_bounded shell OPT_SOURCE 8 ''a-z'', capture_bounded shell OPT_PID 10 ''0-9'',
      capture_bounded shell OPT_SINCE 20 ''0-9'', capture_bounded shell OPT_TURN_AT 20 ''0-9'',
      capture_bounded shell OPT_ATTENTION 1 ''0-9'']"

definition capture_format :: string where
  "capture_format = join_with ''|'' (capture_fields False)"

definition QUOTED_BAR :: string where
  "QUOTED_BAR = [CHR 0x27, CHR 0x7C, CHR 0x27]"

definition capture_shell_format :: string where
  "capture_shell_format = join_with QUOTED_BAR (capture_fields True)"

definition attention_revision_format :: "departure_kind \<Rightarrow> string" where
  "attention_revision_format kind = departure_with kind capture_shell_format"

section \<open>Screens and processes\<close>

definition capture_pane :: "'s runner \<Rightarrow> string \<Rightarrow> ('s, string) io" where
  "capture_pane run pane = run [''capture-pane'', ''-p'', ''-e'', ''-t'', pane, ''-S'', ''-50'']"

definition capture_ansi :: "'s runner \<Rightarrow> string \<Rightarrow> ('s, string) io" where
  "capture_ansi run pane = run [''capture-pane'', ''-p'', ''-e'', ''-t'', pane]"

text \<open>\<open>parse::<i64>()\<close>, filtered to what is above zero, as u32.\<close>

definition ps_foreground :: "string \<Rightarrow> u32 option" where
  "ps_foreground v =
     map_option (\<lambda>n. n mod 2 ^ 32) (option_filter (\<lambda>n. 0 < n) (parse_uint (2 ^ 63 - 1) v))"

definition parse_ps_line :: "string \<Rightarrow> proc_info option" where
  "parse_ps_line line =
     (case split_words line of
        pid # ppid # pgid # tpgid # comm \<Rightarrow>
          (case (parse_uint u32_max pid, parse_uint u32_max ppid, parse_uint u32_max pgid) of
             (Some pid, Some ppid, Some pgid) \<Rightarrow>
               if join_with '' '' comm = [] then None
               else Some \<lparr>proc_pid = pid, proc_ppid = ppid, proc_pgid = pgid, proc_tpgid = ps_foreground tpgid,
                          proc_comm = join_with '' '' comm\<rparr>
           | _ \<Rightarrow> None)
      | _ \<Rightarrow> None)"

definition parse_ps :: "string \<Rightarrow> proc_info list" where
  "parse_ps text = List.map_filter parse_ps_line (text_lines text)"

definition PS_ARGS :: string where "PS_ARGS = ''pid,ppid,pgid,tpgid,comm''"

definition ps_all :: "'s runner \<Rightarrow> ('s, proc_info list) io" where
  "ps_all ps = io_bind (ps [''-eo'', PS_ARGS]) (\<lambda>out. io_return (parse_ps out))"

end
