(* ===== verification/Tmux_Options.thy ===== *)
theory Tmux_Options
  imports Tmux_Read
begin

text \<open>
  The writes of the tmux client: options, the chained and the scripted application of commands
  (\<open>tma-tmux/src/tmux/options.rs\<close>), the global hook arrays (\<open>hooks.rs\<close>), the rows of the window-name pass
  (\<open>window.rs\<close>), and the client handle that the pane writers use, built from them. Definitions only.
\<close>

section \<open>Options\<close>

definition run_unit :: "'s runner \<Rightarrow> string list \<Rightarrow> ('s, unit) io" where
  "run_unit run args = io_bind (run args) (\<lambda>_. io_return ())"

definition unset_option :: "'s runner \<Rightarrow> string \<Rightarrow> string \<Rightarrow> ('s, unit) io" where
  "unset_option run pane key = run_unit run [''set-option'', ''-pu'', ''-t'', pane, key]"

definition set_option :: "'s runner \<Rightarrow> string \<Rightarrow> string \<Rightarrow> string \<Rightarrow> ('s, unit) io" where
  "set_option run pane key v = run_unit run [''set-option'', ''-p'', ''-t'', pane, key, v]"

definition get_option :: "'s runner \<Rightarrow> string \<Rightarrow> string \<Rightarrow> ('s, string option) io" where
  "get_option run pane key =
     io_bind (run [''show-options'', ''-pqv'', ''-t'', pane, key]) (\<lambda>out. io_return (trimmed_option out))"

definition get_server_option :: "'s runner \<Rightarrow> string \<Rightarrow> ('s, string option) io" where
  "get_server_option run key = io_bind (run [''show-options'', ''-sqv'', key]) (\<lambda>out. io_return (trimmed_option out))"

definition get_global_option :: "'s runner \<Rightarrow> string \<Rightarrow> ('s, string option) io" where
  "get_global_option run key = io_bind (run [''show-options'', ''-gqv'', key]) (\<lambda>out. io_return (trimmed_option out))"

definition write_server_option :: "'s runner \<Rightarrow> string \<Rightarrow> string \<Rightarrow> ('s, unit) io" where
  "write_server_option run key v = run_unit run [''set-option'', ''-s'', key, v]"

section \<open>Commands\<close>

fun chain_args :: "stamp_command list \<Rightarrow> string list" where
  "chain_args [] = []"
| "chain_args [c] = sc_argv c"
| "chain_args (c # cs) = sc_argv c @ '';'' # chain_args cs"

definition apply_chain :: "'s runner \<Rightarrow> stamp_command list \<Rightarrow> ('s, unit) io" where
  "apply_chain run commands = (if commands = [] then io_return () else run_unit run (chain_args commands))"

definition clear_all_pane_stamps :: "'s runner \<Rightarrow> ('s, nat) io" where
  "clear_all_pane_stamps run =
     io_bind (run [''list-panes'', ''-a'', ''-F'', lookup_format ''pane_id'']) (\<lambda>out.
       let panes = filter (\<lambda>l. l \<noteq> []) (text_lines out) in
       io_bind (io_each (\<lambda>pane. apply_chain run (render_purge pane)) panes) (\<lambda>_. io_return (length panes)))"

definition SCRIPT_LIMIT :: nat where "SCRIPT_LIMIT = 256 * 1024"
definition ARGV_LIMIT :: nat where "ARGV_LIMIT = 12 * 1024"

definition quoted_length :: "string \<Rightarrow> nat" where
  "quoted_length arg = length arg + count_list arg QUOTE * 3 + count_list arg NEWLINE * 5 + 2"

fun script_args :: "bool \<Rightarrow> string list \<Rightarrow> string \<Rightarrow> string option" where
  "script_args first [] script = Some script"
| "script_args first (arg # args) script =
     (let script1 = (if first then script else script @ '' '')
      in if SCRIPT_LIMIT < length script1 + quoted_length arg + 1 then None
         else script_args False args (script1 @ quote_tmux_argument arg))"

fun script_commands :: "stamp_command list \<Rightarrow> string \<Rightarrow> string option" where
  "script_commands [] script = Some script"
| "script_commands (c # cs) script =
     Option.bind (script_args True (sc_argv c) (if script = [] then script else script @ '' ; '')) (script_commands cs)"

type_synonym 's input_runner = "string list \<Rightarrow> string \<Rightarrow> ('s, unit) io"

definition apply_persistence_script :: "'s input_runner \<Rightarrow> string \<Rightarrow> stamp_command list \<Rightarrow> ('s, unit) io" where
  "apply_persistence_script run_input pane commands =
     (case script_commands commands [] of
        None \<Rightarrow> io_fail (parse_failed ''generated script exceeds 256 KiB'')
      | Some script \<Rightarrow> run_input [''source-file'', ''-t'', pane, ''-''] (script @ [NEWLINE]))"

definition apply_persistence :: "'s runner \<Rightarrow> 's input_runner \<Rightarrow> string \<Rightarrow> stamp_command list \<Rightarrow> ('s, unit) io" where
  "apply_persistence run run_input pane commands =
     (if sum_list (map (\<lambda>arg. length arg + 1) (concat (map sc_argv commands))) \<le> ARGV_LIMIT
      then apply_chain run commands
      else apply_persistence_script run_input pane commands)"

definition trim_newlines :: "string \<Rightarrow> string" where
  "trim_newlines s = rev (dropWhile (\<lambda>c. c = NEWLINE) (rev s))"

definition display_format :: "'s runner \<Rightarrow> string \<Rightarrow> string \<Rightarrow> ('s, string) io" where
  "display_format run pane fmt =
     io_bind (run [''display-message'', ''-p'', ''-t'', pane, fmt]) (\<lambda>out. io_return (trim_newlines out))"

text \<open>The handle of the pane writers over one tmux runner, a clock and a source of nonces.\<close>

definition client_of ::
  "'s runner \<Rightarrow> 's input_runner \<Rightarrow> ('s \<Rightarrow> u64 \<times> 's) \<Rightarrow> ('s, string) io \<Rightarrow> 's tmux" where
  "client_of run run_input now nonce =
     \<lparr>tx_apply = apply_persistence run run_input,
      tx_format = display_format run,
      tx_panes = io_bind (list_panes run) (\<lambda>records. io_return (map pr_pane_id records)),
      tx_clock = now,
      tx_nonce = nonce\<rparr>"

section \<open>Hooks\<close>

definition append_global_hook :: "'s runner \<Rightarrow> string \<Rightarrow> string \<Rightarrow> ('s, unit) io" where
  "append_global_hook run hook command = run_unit run [''set-hook'', ''-ga'', hook, command]"

definition hook_index :: "string \<Rightarrow> nat" where
  "hook_index head =
     (case Option.bind (split_once (CHR ''['') head) (\<lambda>(_, i).
             Option.bind (strip_suffix '']'' i) (parse_uint u64_max)) of
        Some n \<Rightarrow> n
      | None \<Rightarrow> 0)"

definition parse_hook_line :: "string \<Rightarrow> (nat \<times> string) option" where
  "parse_hook_line line = map_option (\<lambda>(head, rest). (hook_index head, rest)) (split_once (CHR '' '') (trim_text line))"

definition show_global_hook :: "'s runner \<Rightarrow> string \<Rightarrow> ('s, (nat \<times> string) list) io" where
  "show_global_hook run hook =
     io_bind (run [''show-hooks'', ''-g'', hook]) (\<lambda>out.
       io_return (List.map_filter parse_hook_line (filter (\<lambda>l. trim_text l \<noteq> []) (text_lines out))))"

definition hook_target :: "string \<Rightarrow> nat \<Rightarrow> string" where
  "hook_target hook index = hook @ ''['' @ show_nat index @ '']''"

definition set_global_hook_index :: "'s runner \<Rightarrow> string \<Rightarrow> nat \<Rightarrow> string \<Rightarrow> ('s, unit) io" where
  "set_global_hook_index run hook index command = run_unit run [''set-hook'', ''-g'', hook_target hook index, command]"

definition remove_global_hook_index :: "'s runner \<Rightarrow> string \<Rightarrow> nat \<Rightarrow> ('s, unit) io" where
  "remove_global_hook_index run hook index = run_unit run [''set-hook'', ''-gu'', hook_target hook index]"

section \<open>Windows\<close>

record window_pane_row =
  wd_window_id :: string
  wd_window_name :: string
  wd_name_orig :: "string option"
  wd_autorename_orig :: "string option"
  wd_name_last :: "string option"
  wd_agent :: "string option"
  wd_state :: "string option"
  wd_detail :: "string option"
  wd_cwd :: "string option"

definition OPT_WINDOW_NAME_ORIG :: string where "OPT_WINDOW_NAME_ORIG = ''@tma_window_name_orig''"
definition OPT_WINDOW_AUTORENAME_ORIG :: string where "OPT_WINDOW_AUTORENAME_ORIG = ''@tma_window_autorename_orig''"
definition OPT_WINDOW_NAME_LAST :: string where "OPT_WINDOW_NAME_LAST = ''@tma_window_name_last''"

definition window_rows_format :: string where
  "window_rows_format =
     sep_join (map lookup_format [''window_id'', OPT_WINDOW_NAME_ORIG, OPT_WINDOW_AUTORENAME_ORIG, OPT_WINDOW_NAME_LAST,
       OPT_NAME, OPT_STATE, OPT_DETAIL, ''pane_current_path'', ''window_name''])"

definition parse_window_line :: "string \<Rightarrow> window_pane_row option" where
  "parse_window_line line =
     (case split_on UNIT_SEPARATOR line of
        window # orig # autorename # named # agent # state # detail # cwd # title # _ \<Rightarrow>
          Some \<lparr>wd_window_id = window, wd_window_name = title, wd_name_orig = optional_text orig,
                wd_autorename_orig = optional_text autorename, wd_name_last = optional_text named,
                wd_agent = optional_text agent, wd_state = optional_text state, wd_detail = optional_text detail,
                wd_cwd = optional_text cwd\<rparr>
      | _ \<Rightarrow> None)"

definition list_window_pane_rows :: "'s runner \<Rightarrow> ('s, window_pane_row list) io" where
  "list_window_pane_rows run =
     io_bind (run [''list-panes'', ''-a'', ''-F'', window_rows_format]) (\<lambda>out.
       io_return (List.map_filter parse_window_line (filter (\<lambda>l. l \<noteq> []) (text_lines out))))"

definition window_automatic_rename :: "'s runner \<Rightarrow> string \<Rightarrow> ('s, string option) io" where
  "window_automatic_rename run window =
     io_bind (run [''show-options'', ''-wqv'', ''-t'', window, ''automatic-rename'']) (\<lambda>out. io_return (trimmed_option out))"

text \<open>The chains that name a window and put it back (\<open>window_name.rs\<close>).\<close>

definition AUTORENAME_UNSET :: string where "AUTORENAME_UNSET = ''-''"

record saved_original =
  so_name :: string
  so_automatic_rename :: "string option"

definition set_window_option :: "string \<Rightarrow> string \<Rightarrow> string \<Rightarrow> stamp_command" where
  "set_window_option window key v = argv [''set-option'', ''-w'', ''-t'', window, key, v]"

definition unset_window_option :: "string \<Rightarrow> string \<Rightarrow> stamp_command" where
  "unset_window_option window key = argv [''set-option'', ''-w'', ''-u'', ''-t'', window, key]"

definition rename_commands :: "string \<Rightarrow> string \<Rightarrow> saved_original option \<Rightarrow> stamp_command list" where
  "rename_commands window name save =
     (case save of
        None \<Rightarrow> []
      | Some saved \<Rightarrow>
          [set_window_option window OPT_WINDOW_NAME_ORIG (so_name saved),
           set_window_option window OPT_WINDOW_AUTORENAME_ORIG
             (case so_automatic_rename saved of Some v \<Rightarrow> v | None \<Rightarrow> AUTORENAME_UNSET)])
     @ [argv [''rename-window'', ''-t'', window, name], set_window_option window OPT_WINDOW_NAME_LAST name]"

definition restore_commands :: "string \<Rightarrow> string \<Rightarrow> string option \<Rightarrow> stamp_command list" where
  "restore_commands window name autorename =
     [argv [''rename-window'', ''-t'', window, name],
      (case option_filter (\<lambda>v. v \<noteq> AUTORENAME_UNSET) autorename of
         Some v \<Rightarrow> set_window_option window ''automatic-rename'' v
       | None \<Rightarrow> unset_window_option window ''automatic-rename''),
      unset_window_option window OPT_WINDOW_NAME_ORIG,
      unset_window_option window OPT_WINDOW_AUTORENAME_ORIG,
      unset_window_option window OPT_WINDOW_NAME_LAST]"

end
