(* ===== verification/Stamp_Apply.thy ===== *)
theory Stamp_Apply
  imports Pane_Attention Tmux_Options Fold
begin

text \<open>
  The write half of the poll cycle (\<open>tma-tmux/src/stamp.rs\<close>): from a verdict to a guarded plan, the
  application of a plan to a pane whose options were observed, the independent metadata of the hook
  lane, and the window and session summaries. Definitions only. Every error is reported in the shape
  of a tmux error; its text is abbreviated.
\<close>

section \<open>Errors\<close>

definition tmux_only :: "persistence_error \<Rightarrow> persistence_error" where
  "tmux_only e = (case e of PeTmux t \<Rightarrow> PeTmux t | _ \<Rightarrow> PeTmux (TmuxFailed ''pane persistence''))"

definition io_tmux :: "('s, 'a) io \<Rightarrow> ('s, 'a) io" where
  "io_tmux m s = (case m s of (r, s1) \<Rightarrow> (map_sum tmux_only id r, s1))"

text \<open>\<open>match m { Err(Unsupported) => h, Err(e) => Err(persistence_error(e)), Ok(x) => f(x) }\<close>.\<close>

definition io_degrade :: "('s, 'a) io \<Rightarrow> ('a \<Rightarrow> 'b) \<Rightarrow> ('s, 'b) io \<Rightarrow> ('s, 'b) io" where
  "io_degrade m f h = io_tmux (io_unsupported (io_bind m (\<lambda>x. io_return (f x))) h)"

section \<open>Plans\<close>

record stamp_applied =
  ap_read :: pane_read
  ap_committed :: bool

definition applied_of :: "commit_outcome \<Rightarrow> stamp_applied" where
  "applied_of outcome = \<lparr>ap_read = winner outcome, ap_committed = won outcome\<rparr>"

definition advised :: "pane_read \<Rightarrow> stamp_applied" where
  "advised r = \<lparr>ap_read = r, ap_committed = False\<rparr>"

definition guard_for_verdict :: "verdict \<Rightarrow> guard" where
  "guard_for_verdict v =
     (if wp_episode_reset (vd_writes v) then Unconditional
      else if wp_may_override (vd_writes v) then Unconditional
      else if we_source (vd_winning v) = Hook then RefreshClaim (vd_state v)
      else if vd_state v = Blocked then CarveOut (we_at (vd_winning v))
      else ProtectHook)"

definition plan_from_verdict :: "string \<Rightarrow> verdict \<Rightarrow> u32 \<Rightarrow> string \<Rightarrow> u64 \<Rightarrow> u64 \<Rightarrow> stamp_plan" where
  "plan_from_verdict pane v pid name hash now =
     (case wp_action (vd_writes v) of
        WHold \<Rightarrow> PlanHold now (Some hash)
      | WPublish \<Rightarrow>
          PlanPublish \<lparr>wr_pane_id = pane, wr_state = vd_state v, wr_detail = vd_detail v, wr_source = we_source (vd_winning v),
            wr_evidence_at = we_at (vd_winning v), wr_since = we_at (vd_winning v), wr_stamped_at = now, wr_hash = Some hash,
            wr_pid = pid, wr_name = name, wr_set_attention = wp_set_attention (vd_writes v),
            wr_episode_reset = wp_episode_reset (vd_writes v), wr_guard = guard_for_verdict v\<rparr>)"

section \<open>The surface of the client\<close>

text \<open>Beside the handle of the pane writers: the plain runner and what the kernel says of a process.\<close>

record 's surface =
  sf_tmux :: "'s tmux"
  sf_run :: "'s runner"
  sf_processes :: "'s \<Rightarrow> process_reader"

definition OPT_SETPF_OK :: string where "OPT_SETPF_OK = ''@tma_setpf_ok''"
definition PROBE_KEY :: string where "PROBE_KEY = ''@__tma_probe''"

definition probe_conditional_writes :: "'s surface \<Rightarrow> string \<Rightarrow> ('s, bool) io" where
  "probe_conditional_writes sf pane =
     io_bind (apply_chain (sf_run sf)
       [argv [''set-option'', ''-p'', ''-F'', ''-t'', pane, PROBE_KEY, ''#{?#{==:1,1},ok,no}'']]) (\<lambda>_.
     io_bind (display_format (sf_run sf) pane (lookup_format PROBE_KEY)) (\<lambda>v s.
       case apply_chain (sf_run sf) [argv [''set-option'', ''-p'', ''-u'', ''-t'', pane, PROBE_KEY]] s of
         (_, s1) \<Rightarrow> (Inr (v = ''ok''), s1)))"

text \<open>Whether the server expands \<open>set-option -F\<close>, cached in a server option; unknown counts as yes.\<close>

definition guarded_writes_supported :: "'s surface \<Rightarrow> pane_record list \<Rightarrow> 's \<Rightarrow> bool \<times> 's" where
  "guarded_writes_supported sf panes s =
     (case get_server_option (sf_run sf) OPT_SETPF_OK s of
        (Inl _, s1) \<Rightarrow> (True, s1)
      | (Inr (Some v), s1) \<Rightarrow> (v = ''1'', s1)
      | (Inr None, s1) \<Rightarrow>
          (case panes of
             [] \<Rightarrow> (True, s1)
           | pane # _ \<Rightarrow>
               (case probe_conditional_writes sf (pr_pane_id pane) s1 of
                  (Inl _, s2) \<Rightarrow> (True, s2)
                | (Inr yes, s2) \<Rightarrow>
                    (yes, snd (write_server_option (sf_run sf) OPT_SETPF_OK (if yes then ''1'' else ''0'') s2)))))"

section \<open>The observed pane\<close>

definition observed_pane :: "'s surface \<Rightarrow> pane_record list \<Rightarrow> string \<Rightarrow> ('s, pane_read) io" where
  "observed_pane sf panes pane =
     io_bind (if ok (pane_id_parse pane) \<noteq> None then io_return pane
              else display_format (sf_run sf) pane (lookup_format ''pane_id'')) (\<lambda>actual.
       case find (\<lambda>r. pr_pane_id r = actual) panes of
         Some r \<Rightarrow> io_return ((read_from_options (pr_pane_id r) (pr_options r))\<lparr>rd_target := pane\<rparr>)
       | None \<Rightarrow> io_tmux (read_pane (sf_tmux sf) pane))"

definition root_pid :: "'s surface \<Rightarrow> string \<Rightarrow> ('s, u32 option) io" where
  "root_pid sf pane =
     io_bind (display_format (sf_run sf) pane (lookup_format ''pane_pid'')) (\<lambda>raw. io_return (parse_uint u32_max raw))"

definition blocked_processes_current :: "'s surface \<Rightarrow> pane_read \<Rightarrow> process_chain \<Rightarrow> 's \<Rightarrow> bool \<times> 's" where
  "blocked_processes_current sf observed chain s =
     (case root_pid sf (rd_target observed) s of
        (Inr (Some root), s1) \<Rightarrow>
          ((case chain of [] \<Rightarrow> False | p # _ \<Rightarrow> pi_pid p = root)
           \<and> sample_process_chain (sf_processes sf s1) root (pi_pid (chain_agent chain)) = Inr chain, s1)
      | (_, s1) \<Rightarrow> (False, s1))"

text \<open>\<open>parse::<u32>().ok()\<close> of an option.\<close>

definition number_option :: "nat \<Rightarrow> options \<Rightarrow> string \<Rightarrow> nat option" where
  "number_option mx opts key = Option.bind (opts key) (parse_uint mx)"

section \<open>A publish against the blocked history\<close>

definition fallback_pid :: "pane_read \<Rightarrow> blocked_history \<Rightarrow> bool \<Rightarrow> write_publish \<Rightarrow> u32" where
  "fallback_pid observed h current p =
     (let agent = chain_agent (bh_processes h)
      in if wr_pid p = 0 \<and> wr_source p = Hook \<and> current
            \<and> is_some_and (metadata_owner_of observed) (\<lambda>w. mo_process w = agent)
            \<and> number_option u32_max (rd_options observed) OPT_PID = Some (pi_pid agent)
         then pi_pid agent else wr_pid p)"

definition check_publish :: "pane_read \<Rightarrow> blocked_history \<Rightarrow> bool \<Rightarrow> write_publish \<Rightarrow> write_publish" where
  "check_publish observed h current p =
     (let pid = fallback_pid observed h current p
      in if \<not> current \<or> pid \<noteq> pi_pid (chain_agent (bh_processes h))
         then p\<lparr>wr_pid := pid, wr_episode_reset := True, wr_set_attention := (wr_set_attention p \<or> wr_state p = Blocked)\<rparr>
         else p\<lparr>wr_pid := pid\<rparr>)"

definition checked_plan :: "'s surface \<Rightarrow> pane_read \<Rightarrow> stamp_plan \<Rightarrow> 's \<Rightarrow> stamp_plan \<times> 's" where
  "checked_plan sf observed plan s =
     (case plan of
        PlanPublish p \<Rightarrow>
          (case Option.bind (rd_options observed OPT_BLOCKED_HISTORY) blocked_parse of
             None \<Rightarrow> (plan, s)
           | Some h \<Rightarrow>
               (case blocked_processes_current sf observed (bh_processes h) s of
                  (current, s1) \<Rightarrow> (PlanPublish (check_publish observed h current p), s1)))
      | _ \<Rightarrow> (plan, s))"

definition current_state :: "options \<Rightarrow> u64 \<Rightarrow> stamped_state option" where
  "current_state opts now = (case current_stamp opts now of Inr (Some r) \<Rightarrow> Some (into_inner r) | _ \<Rightarrow> None)"

text \<open>The state an unchanged process keeps its run start from: a live one, or the public tuple of the same process.\<close>

definition duration_previous :: "pane_read \<Rightarrow> stamp_plan \<Rightarrow> stamped_state option \<Rightarrow> stamped_state option" where
  "duration_previous observed plan previous =
     (case previous of
        Some s \<Rightarrow> Some s
      | None \<Rightarrow>
          (case plan of
             PlanPublish p \<Rightarrow>
               option_filter (\<lambda>s. sp_pid s \<noteq> 0 \<and> sp_pid s = wr_pid p) (stamp_of (rd_options observed))
           | _ \<Rightarrow> None))"

definition attention_intent :: "pane_read \<Rightarrow> stamp_plan \<Rightarrow> stamped_state option \<Rightarrow> option_edit list" where
  "attention_intent observed plan previous =
     (case plan of
        PlanPublish p \<Rightarrow>
          if pm_program_origin (rd_program observed) \<and> previous = None
          then [if wr_set_attention p then edit_set OPT_ATTENTION ''1'' else edit_unset OPT_ATTENTION] else []
      | _ \<Rightarrow> [])"

definition plan_guard :: "stamp_plan \<Rightarrow> guard" where
  "plan_guard plan = (case plan of PlanPublish p \<Rightarrow> wr_guard p | _ \<Rightarrow> Unconditional)"

section \<open>Summaries\<close>

definition in_scope :: "summary_scope \<Rightarrow> pane_record \<Rightarrow> pane_record \<Rightarrow> bool" where
  "in_scope scope pane member =
     (pr_session pane = pr_session member \<and> (scope = SessionScope \<or> pr_window_index pane = pr_window_index member))"

definition SUMMARY_LIMIT :: nat where "SUMMARY_LIMIT = 64 * 1024"

definition summary_keys :: "string list" where
  "summary_keys = PROJECTION_KEYS @ [OPT_DETAIL]"

definition summary_row :: "pane_record \<Rightarrow> string" where
  "summary_row r = pr_pane_id r @ ''|'' @ join_with ''|'' (map (opt_value (pr_options r)) summary_keys) @ '';''"

definition pane_loop :: string where
  "pane_loop = ''#{P:#{pane_id}|'' @ join_with ''|'' (map lookup_format summary_keys) @ '';}''"

definition snapshot_format :: "summary_scope \<Rightarrow> string" where
  "snapshot_format scope =
     ''#{session_name}:#{window_index}:''
     @ (case scope of WindowScope \<Rightarrow> pane_loop | SessionScope \<Rightarrow> ''#{W:'' @ pane_loop @ ''}'')"

definition stored_summary :: "summary_scope \<Rightarrow> pane_record \<Rightarrow> string option" where
  "stored_summary scope r = (case scope of WindowScope \<Rightarrow> pr_window_summary r | SessionScope \<Rightarrow> pr_session_summary r)"

definition scope_states :: "u64 \<Rightarrow> pane_record list \<Rightarrow> agent_state list" where
  "scope_states now members = map sp_state (List.map_filter (\<lambda>r. current_state (pr_options r) now) members)"

definition member_command :: "u64 \<Rightarrow> pane_record list \<Rightarrow> summary_scope \<Rightarrow> pane_record \<Rightarrow> stamp_command option" where
  "member_command now panes scope member =
     (let members = filter (\<lambda>r. in_scope scope r member) panes;
          body = concat (map summary_row members);
          desired = summary_string (scope_states now members);
          snapshot = pr_session member @ '':'' @ show_nat (pr_window_index member) @ '':'' @ body;
          target = ''='' @ pr_session member @ '':.'' @ pr_pane_id member
      in if SUMMARY_LIMIT < length body then None
         else if desired = stored_summary scope member then None
         else Some (conditional_group target
                (''#{==:'' @ snapshot_format scope @ '','' @ literal_tmux_format snapshot @ ''}'')
                [render_summary scope target desired]))"

type_synonym summary_key = "summary_scope \<times> string \<times> u32 option"

definition member_key :: "summary_scope \<Rightarrow> pane_record \<Rightarrow> summary_key" where
  "member_key scope r =
     (scope, pr_session r, (case scope of WindowScope \<Rightarrow> Some (pr_window_index r) | SessionScope \<Rightarrow> None))"

fun scope_commands :: "u64 \<Rightarrow> pane_record list \<Rightarrow> summary_scope \<Rightarrow> pane_record list \<Rightarrow> summary_key list \<Rightarrow> stamp_command list" where
  "scope_commands now panes scope [] seen = []"
| "scope_commands now panes scope (r # rs) seen =
     (if member_key scope r \<in> set seen then scope_commands now panes scope rs seen
      else (case member_command now panes scope r of None \<Rightarrow> [] | Some c \<Rightarrow> [c])
           @ scope_commands now panes scope rs (member_key scope r # seen))"

definition summaries_of :: "u64 \<Rightarrow> pane_record list \<Rightarrow> stamp_command list" where
  "summaries_of now panes = concat (map (\<lambda>scope. scope_commands now panes scope panes []) [WindowScope, SessionScope])"

definition summary_commands :: "'s surface \<Rightarrow> ('s, stamp_command list) io" where
  "summary_commands sf =
     io_bind (list_panes (sf_run sf)) (\<lambda>panes.
     io_bind (clock (sf_tmux sf)) (\<lambda>now. io_return (summaries_of now panes)))"

definition apply_summary :: "'s surface \<Rightarrow> stamp_command \<Rightarrow> ('s, unit) io" where
  "apply_summary sf c =
     (case nth_arg (sc_argv c) 3 of
        None \<Rightarrow> io_fail (parse_failed ''missing explicit target'')
      | Some pane \<Rightarrow> tx_apply (sf_tmux sf) pane [c])"

definition reconcile_summaries :: "'s surface \<Rightarrow> ('s, unit) io" where
  "reconcile_summaries sf = io_bind (summary_commands sf) (io_each (apply_summary sf))"

section \<open>Independent metadata\<close>

definition bound_pid :: "pane_read \<Rightarrow> metadata_owner option \<Rightarrow> u32 option \<Rightarrow> u32 option" where
  "bound_pid observed expected pane_pid =
     (case pm_owner (rd_program observed) of
        Some owner \<Rightarrow> Some (pi_pid (chain_agent (po_processes owner)))
      | None \<Rightarrow>
          (case option_filter (\<lambda>n. n \<noteq> 0) (number_option u32_max (rd_options observed) OPT_PID) of
             Some n \<Rightarrow> Some n
           | None \<Rightarrow> (case expected of Some w \<Rightarrow> Some (pi_pid (mo_process w)) | None \<Rightarrow> pane_pid)))"

definition UNATTRIBUTED :: string where "UNATTRIBUTED = ''<unattributed>''"

definition bound_session :: "pane_read \<Rightarrow> metadata_owner option \<Rightarrow> string" where
  "bound_session observed expected =
     (case rd_options observed OPT_SESSION of
        Some v \<Rightarrow> v
      | None \<Rightarrow> (case expected of Some w \<Rightarrow> mo_session w | None \<Rightarrow> UNATTRIBUTED))"

definition next_metadata_owner ::
  "process_reader \<Rightarrow> pane_read \<Rightarrow> metadata_owner option \<Rightarrow> u32 option \<Rightarrow> metadata_owner option" where
  "next_metadata_owner reader observed expected pane_pid =
     (case (bound_pid observed expected pane_pid, pane_pid) of
        (Some pid, Some root) \<Rightarrow>
          (case sample_process_chain reader root pid of
             Inl _ \<Rightarrow> None
           | Inr chain \<Rightarrow>
               if chain = [] \<or> is_some_and (pm_owner (rd_program observed)) (\<lambda>w. po_processes w \<noteq> chain)
                  \<or> is_some_and expected (\<lambda>w. mo_process w \<noteq> last chain)
               then None
               else Some \<lparr>mo_process = last chain, mo_session = bound_session observed expected\<rparr>)
      | _ \<Rightarrow> None)"

definition metadata_binding ::
  "'s surface \<Rightarrow> pane_read \<Rightarrow> ('s, metadata_owner option \<times> metadata_owner option) io" where
  "metadata_binding sf observed =
     io_bind (root_pid sf (rd_target observed)) (\<lambda>pane_pid s.
       let expected = metadata_owner_of observed
       in (Inr (expected, next_metadata_owner (sf_processes sf s) observed expected pane_pid), s))"

text \<open>The attribution of the caller's payload, kept on a fresh read.\<close>

definition metadata_observation ::
  "'s surface \<Rightarrow> pane_record list \<Rightarrow> string
     \<Rightarrow> ('s, (pane_read \<times> metadata_owner option \<times> metadata_owner) option) io" where
  "metadata_observation sf panes pane =
     io_bind (observed_pane sf panes pane) (\<lambda>original.
     io_bind (metadata_binding sf original) (\<lambda>(original_owner, original_next).
       case original_next of
         None \<Rightarrow> io_return None
       | Some first \<Rightarrow>
           io_bind (io_tmux (read_pane (sf_tmux sf) pane)) (\<lambda>current.
           io_bind (metadata_binding sf current) (\<lambda>(expected, next_owner).
             case next_owner of
               None \<Rightarrow> io_return None
             | Some again \<Rightarrow>
                 if again \<noteq> first \<or> expected \<noteq> original_owner \<and> expected \<noteq> Some first then io_return None
                 else io_return (Some (current, expected, again))))))"

definition metadata_write ::
  "'s surface \<Rightarrow> pane_read \<Rightarrow> metadata_owner option \<Rightarrow> metadata_owner option \<Rightarrow> option_edit list \<Rightarrow> ('s, bool) io" where
  "metadata_write sf observed expected next_owner edits =
     io_degrade (write_metadata (sf_tmux sf) observed expected next_owner edits) won
       (io_bind (advisory_metadata (sf_tmux sf) observed expected next_owner edits) (\<lambda>_. io_return False))"

definition apply_metadata_edits ::
  "'s surface \<Rightarrow> pane_record list \<Rightarrow> string \<Rightarrow> option_edit list \<Rightarrow> ('s, bool) io" where
  "apply_metadata_edits sf panes pane edits =
     io_bind (metadata_observation sf panes pane) (\<lambda>seen.
       case seen of
         None \<Rightarrow> io_return False
       | Some (observed, expected, next_owner) \<Rightarrow> metadata_write sf observed expected (Some next_owner) edits)"

definition literal_edits :: "stamp_command list \<Rightarrow> persistence_error + option_edit list" where
  "literal_edits commands = collect_results (map edit_from_plain commands)"

definition apply_metadata_observation ::
  "'s surface \<Rightarrow> pane_record list \<Rightarrow> string \<Rightarrow> metadata_evidence \<Rightarrow> stamp_command list \<Rightarrow> ('s, unit) io" where
  "apply_metadata_observation sf panes pane ev commands =
     io_bind (metadata_observation sf panes pane) (\<lambda>seen.
       case seen of
         None \<Rightarrow> io_return ()
       | Some (observed, expected, next_owner) \<Rightarrow>
           let previous = (case number_option u64_max (rd_options observed) (metadata_key ev) of Some n \<Rightarrow> n | None \<Rightarrow> 0)
           in if metadata_at ev < previous then io_return ()
              else io_bind (io_tmux (io_of (literal_edits commands))) (\<lambda>edits.
                io_degrade (write_metadata_observation (sf_tmux sf) observed expected (Some next_owner) edits (Some ev)) (\<lambda>_. ())
                  (io_bind (advisory_metadata_observation (sf_tmux sf) observed expected (Some next_owner) edits (Some ev))
                    (\<lambda>_. io_return ()))))"

definition apply_context ::
  "'s surface \<Rightarrow> pane_record list \<Rightarrow> string \<Rightarrow> u8 option \<Rightarrow> u64 option \<Rightarrow> u64 \<Rightarrow> ('s, unit) io" where
  "apply_context sf panes pane pct tokens evidence_at =
     apply_metadata_observation sf panes pane (EvContext evidence_at) (render_context_advisory pane pct tokens evidence_at)"

definition apply_quota ::
  "'s surface \<Rightarrow> pane_record list \<Rightarrow> string \<Rightarrow> quota_stamp \<Rightarrow> u64 \<Rightarrow> ('s, unit) io" where
  "apply_quota sf panes pane quota evidence_at =
     apply_metadata_observation sf panes pane (EvQuota evidence_at) (render_quota_advisory pane quota evidence_at)"

section \<open>Applying a plan\<close>

definition cleared_metadata :: "option_edit list" where
  "cleared_metadata = map edit_unset METADATA_KEYS"

text \<open>The metadata lane of an observed pane is cleared by its owner.\<close>

definition clear_metadata :: "'s surface \<Rightarrow> pane_read \<Rightarrow> metadata_owner option \<Rightarrow> ('s, stamp_applied) io" where
  "clear_metadata sf observed expected =
     io_degrade (write_metadata (sf_tmux sf) observed expected None cleared_metadata) applied_of
       (io_bind (advisory_metadata (sf_tmux sf) observed expected None cleared_metadata) (\<lambda>r. io_return (advised r)))"

definition end_session :: "'s surface \<Rightarrow> pane_read \<Rightarrow> ('s, stamp_applied) io" where
  "end_session sf observed =
     io_bind (metadata_binding sf observed) (\<lambda>(expected, current).
       if current = None then io_return (advised observed) else clear_metadata sf observed expected)"

definition finish_remove :: "'s surface \<Rightarrow> pane_read \<Rightarrow> stamp_applied \<Rightarrow> ('s, stamp_applied) io" where
  "finish_remove sf observed a =
     io_bind (clear_metadata sf (ap_read a) (metadata_owner_of observed)) (\<lambda>cleared.
     io_bind (io_tmux (finish_removal (sf_tmux sf) (ap_read cleared))) (\<lambda>r.
       io_return (a\<lparr>ap_read := r\<rparr>)))"

definition write_plan_edits ::
  "'s surface \<Rightarrow> pane_read \<Rightarrow> guard \<Rightarrow> option_edit list \<Rightarrow> u64 option \<Rightarrow> ('s, stamp_applied) io" where
  "write_plan_edits sf observed g edits hint =
     io_degrade (write_fallback_with_hint (sf_tmux sf) observed g edits hint) applied_of
       (io_bind (advisory_fallback (sf_tmux sf) observed g edits) (\<lambda>r. io_return (advised r)))"

definition apply_observed ::
  "'s surface \<Rightarrow> pane_read \<Rightarrow> stamp_plan \<Rightarrow> stamp_command list \<Rightarrow> option_edit list \<Rightarrow> u64 option \<Rightarrow> ('s, stamp_applied) io" where
  "apply_observed sf observed plan0 trailing companions hint =
     (if plan0 = PlanEndSession then end_session sf observed
      else (\<lambda>s. case checked_plan sf observed plan0 s of (plan, s1) \<Rightarrow>
        io_bind (clock (sf_tmux sf)) (\<lambda>now.
          let previous = current_state (rd_options observed) now in
          io_bind (io_tmux (io_of (edits_for_plan (rd_target observed) plan (duration_previous observed plan previous)))) (\<lambda>edits.
          io_bind (write_plan_edits sf observed (plan_guard plan) (edits @ attention_intent observed plan previous @ companions) hint) (\<lambda>a.
          io_bind (if plan = PlanRemove \<and> ap_committed a then finish_remove sf observed a else io_return a) (\<lambda>a.
          io_bind (reconcile_summaries sf) (\<lambda>_.
          io_bind (if ap_committed a then apply_chain (sf_run sf) trailing else io_return ()) (\<lambda>_.
          io_return a)))))) s1))"

definition apply_with_edits ::
  "'s surface \<Rightarrow> pane_record list \<Rightarrow> string \<Rightarrow> stamp_plan \<Rightarrow> stamp_command list \<Rightarrow> option_edit list \<Rightarrow> ('s, stamp_applied) io" where
  "apply_with_edits sf panes pane plan trailing companions =
     io_bind (observed_pane sf panes pane) (\<lambda>observed. apply_observed sf observed plan trailing companions None)"

definition apply_with ::
  "'s surface \<Rightarrow> pane_record list \<Rightarrow> string \<Rightarrow> stamp_plan \<Rightarrow> stamp_command list \<Rightarrow> ('s, stamp_applied) io" where
  "apply_with sf panes pane plan trailing = apply_with_edits sf panes pane plan trailing []"

definition apply_plan :: "'s surface \<Rightarrow> pane_record list \<Rightarrow> string \<Rightarrow> stamp_plan \<Rightarrow> ('s, stamp_applied) io" where
  "apply_plan sf panes pane plan = apply_with sf panes pane plan []"

definition apply_cycle ::
  "'s surface \<Rightarrow> pane_record list \<Rightarrow> string \<Rightarrow> stamp_plan \<Rightarrow> u64 option \<Rightarrow> option_edit list \<Rightarrow> ('s, stamp_applied) io" where
  "apply_cycle sf panes pane plan hint companions =
     io_bind (observed_pane sf panes pane) (\<lambda>observed. apply_observed sf observed plan [] companions hint)"

definition apply_for_metadata ::
  "'s surface \<Rightarrow> string \<Rightarrow> stamp_plan \<Rightarrow> metadata_owner option \<Rightarrow> option_edit list \<Rightarrow> ('s, stamp_applied) io" where
  "apply_for_metadata sf pane plan expected companions =
     io_bind (io_tmux (read_pane (sf_tmux sf) pane)) (\<lambda>observed.
       if metadata_owner_of observed \<noteq> expected then io_return (advised observed)
       else apply_observed sf observed plan [] companions None)"

definition apply_companions :: "'s surface \<Rightarrow> pane_read \<Rightarrow> option_edit list \<Rightarrow> ('s, stamp_applied) io" where
  "apply_companions sf observed edits = write_plan_edits sf observed Unconditional edits None"

definition apply_commands :: "'s surface \<Rightarrow> pane_read \<Rightarrow> stamp_command list \<Rightarrow> ('s, stamp_applied) io" where
  "apply_commands sf observed commands =
     io_bind (io_tmux (io_of (literal_edits commands))) (apply_companions sf observed)"

section \<open>Notification markers\<close>

definition mark_notify :: "'s surface \<Rightarrow> pane_record \<Rightarrow> string \<Rightarrow> u64 option \<Rightarrow> ('s, bool) io" where
  "mark_notify sf r key arm_at =
     (let observed = read_from_options (pr_pane_id r) (pr_options r) in
      io_degrade (update_notify_marker (sf_tmux sf) observed key arm_at) won
        (io_bind (advisory_notify_marker (sf_tmux sf) observed key arm_at) (\<lambda>outcome. io_return (claimed outcome))))"

definition arm_notify_marker :: "'s surface \<Rightarrow> pane_record \<Rightarrow> string \<Rightarrow> u64 \<Rightarrow> ('s, bool) io" where
  "arm_notify_marker sf r key now = mark_notify sf r key (Some now)"

definition rearm_notify_marker :: "'s surface \<Rightarrow> pane_record \<Rightarrow> string \<Rightarrow> ('s, unit) io" where
  "rearm_notify_marker sf r key = io_bind (mark_notify sf r key None) (\<lambda>_. io_return ())"

end
