(* ===== verification/Publication.thy ===== *)
theory Publication
  imports Program_Batch Stamp_Apply
begin

text \<open>
  Guarded publication of a decision and the release of what was published
  (\<open>tma-runtime/src/program_status/publication.rs\<close>): recheck, reconcile with the durable result,
  publish, and only then mark the result presented. The three worlds a step touches, the tmux server,
  the runtime and the collector, are one state; the caller's test whether it may go on is a function
  on the server's world. Definitions only.
\<close>

section \<open>Steps\<close>

datatype publish_error = PubRecheck recheck_error | PubPersistence persistence_error | ScheduleLost

type_synonym ('s, 'c) world = "'s \<times> program_runtime \<times> 'c"
type_synonym ('s, 'c, 'e, 'a) step = "('s, 'c) world \<Rightarrow> 'e runtime_panic + ((publish_error + 'a) \<times> ('s, 'c) world)"

definition step_return :: "'a \<Rightarrow> ('s, 'c, 'e, 'a) step" where
  "step_return x st = Inr (Inr x, st)"

definition step_fail :: "publish_error \<Rightarrow> ('s, 'c, 'e, 'a) step" where
  "step_fail e st = Inr (Inl e, st)"

definition step_bind :: "('s, 'c, 'e, 'a) step \<Rightarrow> ('a \<Rightarrow> ('s, 'c, 'e, 'b) step) \<Rightarrow> ('s, 'c, 'e, 'b) step" where
  "step_bind m f st = sum_bind (m st) (\<lambda>(r, st1). case r of Inl e \<Rightarrow> Inr (Inl e, st1) | Inr x \<Rightarrow> f x st1)"

definition step_io :: "('s, 'a) io \<Rightarrow> ('s, 'c, 'e, 'a) step" where
  "step_io m = (\<lambda>(s, rt, c). case m s of (r, s1) \<Rightarrow> Inr (map_sum PubPersistence id r, s1, rt, c))"

definition step_runtime :: "(program_runtime \<Rightarrow> 'e runtime_panic + ('a \<times> program_runtime)) \<Rightarrow> ('s, 'c, 'e, 'a) step" where
  "step_runtime f = (\<lambda>(s, rt, c). map_sum id (\<lambda>(x, rt). (Inr x, s, rt, c)) (f rt))"

definition step_view :: "(program_runtime \<Rightarrow> 'a) \<Rightarrow> ('s, 'c, 'e, 'a) step" where
  "step_view f = (\<lambda>(s, rt, c). Inr (Inr (f rt), s, rt, c))"

definition step_recheck ::
  "('c, 'e) program_collector \<Rightarrow> 're knowledge \<Rightarrow> program_decision \<Rightarrow> program_pane \<Rightarrow> process_snapshot \<Rightarrow> ('s, 'c, 'e, unit) step" where
  "step_recheck pc k d pane snapshot = (\<lambda>(s, rt, c).
     map_sum id (\<lambda>(r, rt, c). (map_sum PubRecheck id r, s, rt, c)) (recheck pc k d pane snapshot (rt, c)))"

text \<open>\<open>completed()\<close>: may the publication go on?\<close>

definition step_check :: "('s \<Rightarrow> bool \<times> 's) \<Rightarrow> ('s, 'c, 'e, unit) step" where
  "step_check completed = (\<lambda>(s, rt, c).
     case completed s of (go, s1) \<Rightarrow> Inr (if go then Inr () else Inl ScheduleLost, s1, rt, c))"

section \<open>A durable acknowledgement\<close>

definition owner_of_decision :: "token \<Rightarrow> program_decision \<Rightarrow> process_chain \<Rightarrow> pane_owner" where
  "owner_of_decision collector d chain =
     \<lparr>po_collector = collector, po_episode = sel_owner (de_selection d), po_processes = chain,
      po_stream_epoch = ob_connection (de_boundary d)\<rparr>"

text \<open>The exact durable result that acknowledges the decision's, if the pane shows it.\<close>

definition durable_acknowledgement :: "token \<Rightarrow> program_decision \<Rightarrow> pane_read \<Rightarrow> u64 \<Rightarrow> program_result option" where
  "durable_acknowledgement collector d r now =
     (case (sel_result (de_selection d), pm_owner (rd_program r)) of
        (Some result, Some owner) \<Rightarrow>
          if po_collector owner \<noteq> collector \<or> po_episode owner \<noteq> sel_owner (de_selection d)
             \<or> po_stream_epoch owner \<noteq> ob_connection (de_boundary d) \<or> po_processes owner \<noteq> de_chain d
             \<or> \<not> is_live (rd_projection r now)
          then None
          else (case persisted_new owner result of
                  None \<Rightarrow> None
                | Some exact \<Rightarrow>
                    if pm_result (rd_program r) \<noteq> Some exact \<or> pm_acknowledged (rd_program r) \<noteq> Some exact
                       \<or> pm_invalidated (rd_program r) = Some exact
                    then None else Some result)
      | _ \<Rightarrow> None)"

definition step_acknowledge :: "program_decision \<Rightarrow> program_result \<Rightarrow> ('s, 'c, 'e, bool) step" where
  "step_acknowledge d result =
     step_runtime (\<lambda>rt. Inr (runtime_acknowledge (de_pane d) (pr_identity result) rt))"

definition reconcile_acknowledgement ::
  "('c, 'e) program_collector \<Rightarrow> 're knowledge \<Rightarrow> program_decision \<Rightarrow> program_pane \<Rightarrow> process_snapshot
     \<Rightarrow> pane_read \<Rightarrow> token \<Rightarrow> u64 \<Rightarrow> ('s, 'c, 'e, program_decision option) step" where
  "reconcile_acknowledgement pc k d pane snapshot r collector now =
     step_bind (step_recheck pc k d pane snapshot) (\<lambda>_.
       case durable_acknowledgement collector d r now of
         None \<Rightarrow> step_return None
       | Some result \<Rightarrow>
           step_bind (if pr_pending result then step_runtime (runtime_reconcile_result d DAcknowledged)
                      else step_acknowledge d result) (\<lambda>acknowledged.
             if acknowledged then step_view (\<lambda>rt. decision rt (de_pane d)) else step_return None))"

section \<open>What the pane remembers\<close>

text \<open>The result that survives, and whether it was acknowledged and notified.\<close>

type_synonym recovered = "persisted_result \<times> bool \<times> bool"

definition notified_of :: "pane_read \<Rightarrow> persisted_result \<Rightarrow> bool" where
  "notified_of observed r = is_some_and (pm_notified (rd_program observed)) (\<lambda>claim. nc_result claim = r)"

definition turn_shown :: "pane_read \<Rightarrow> bool" where
  "turn_shown observed = is_some_and (number_option u64_max (rd_options observed) OPT_TURN_AT) (\<lambda>turn. turn \<noteq> 0)"

definition exact_match :: "pane_read \<Rightarrow> persisted_result \<Rightarrow> bool" where
  "exact_match observed exact =
     (pm_result (rd_program observed) = Some exact \<and> pm_invalidated (rd_program observed) \<noteq> Some exact)"

definition recoverable :: "pane_read \<Rightarrow> program_decision \<Rightarrow> pane_owner \<Rightarrow> persisted_result \<Rightarrow> bool" where
  "recoverable observed d owner exact =
     is_some_and (pm_result (rd_program observed)) (\<lambda>r.
       pm_invalidated (rd_program observed) \<noteq> Some r
       \<and> po_processes (pe_owner r) = po_processes owner
       \<and> ri_record (pe_identity r) = ri_record (pe_identity exact)
       \<and> pe_kind r = pe_kind exact
       \<and> \<not> sel_recovery_reset (de_selection d) \<and> \<not> de_observed_work_cycle d
       \<and> (pm_acknowledged (rd_program observed) = Some r \<or> notified_of observed r \<or> turn_shown observed))"

definition recovered_history :: "pane_read \<Rightarrow> program_decision \<Rightarrow> pane_owner \<Rightarrow> persisted_result \<Rightarrow> recovered option" where
  "recovered_history observed d owner exact =
     (if exact_match observed exact \<or> recoverable observed d owner exact
      then Some (exact,
        is_some_and (pm_result (rd_program observed)) (\<lambda>r. pm_acknowledged (rd_program observed) = Some r),
        is_some_and (pm_result (rd_program observed)) (notified_of observed))
      else None)"

definition step_reconcile ::
  "pane_read \<Rightarrow> program_decision \<Rightarrow> program_result \<Rightarrow> recovered \<Rightarrow> ('s, 'c, 'e, program_decision) step" where
  "step_reconcile observed d result recovered =
     (case recovered of (exact, acknowledged, _) \<Rightarrow>
        step_bind (if exact_match observed exact \<and> acknowledged \<and> \<not> pr_pending result
                   then step_acknowledge d result
                   else step_runtime (runtime_reconcile_result d (if acknowledged then DAcknowledged else DPresented)))
          (\<lambda>reconciled.
             if reconciled then
               step_bind (step_view (\<lambda>rt. decision rt (de_pane d))) (\<lambda>current.
                 case current of Some d' \<Rightarrow> step_return d' | None \<Rightarrow> step_fail (PubRecheck StaleDecision))
             else step_return d))"

definition reconcile_durable ::
  "pane_read \<Rightarrow> program_decision \<Rightarrow> pane_owner \<Rightarrow> ('s, 'c, 'e, program_decision \<times> recovered option) step" where
  "reconcile_durable observed d owner =
     (case sel_result (de_selection d) of
        None \<Rightarrow> step_return (d, None)
      | Some result \<Rightarrow>
          (case persisted_new owner result of
             None \<Rightarrow> step_fail (PubPersistence (PeInvalid ''invalid selected result''))
           | Some exact \<Rightarrow>
               (case recovered_history observed d owner exact of
                  None \<Rightarrow> step_return (d, None)
                | Some history \<Rightarrow>
                    step_bind (step_reconcile observed d result history) (\<lambda>d'. step_return (d', Some history)))))"

section \<open>What is written\<close>

definition blocked_of :: "pane_read \<Rightarrow> blocked_history option" where
  "blocked_of observed = Option.bind (rd_options observed OPT_BLOCKED_HISTORY) blocked_parse"

definition blocked_continuity :: "pane_read \<Rightarrow> pane_owner \<Rightarrow> program_decision \<Rightarrow> bool" where
  "blocked_continuity observed owner d =
     (sel_state (de_selection d) = Blocked
      \<and> is_some_and (blocked_of observed) (\<lambda>h. bh_processes h = po_processes owner
          \<and> rd_options observed OPT_ATTENTION_EPISODE = Some (token_str (bh_episode h)))
      \<and> rd_options observed OPT_STATE = Some ''blocked'')"

definition published_previous ::
  "pane_read \<Rightarrow> pane_owner \<Rightarrow> program_decision \<Rightarrow> recovered option \<Rightarrow> u64 \<Rightarrow> stamped_state option" where
  "published_previous observed owner d history now =
     (case current_state (rd_options observed) now of
        Some s \<Rightarrow> Some s
      | None \<Rightarrow> if history \<noteq> None \<or> blocked_continuity observed owner d then stamp_of (rd_options observed) else None)"

definition published_result :: "pane_owner \<Rightarrow> program_decision \<Rightarrow> recovered option \<Rightarrow> persisted_result option" where
  "published_result owner d history =
     (case Option.bind (sel_result (de_selection d)) (persisted_new owner) of
        Some r \<Rightarrow> Some r
      | None \<Rightarrow> map_option fst history)"

text \<open>What becomes of the history the pane carries.\<close>

definition result_history_of ::
  "program_runtime \<Rightarrow> pane_read \<Rightarrow> pane_owner \<Rightarrow> program_decision \<Rightarrow> recovered option \<Rightarrow> result_history" where
  "result_history_of rt observed owner d history =
     (let store = map_option pg_store (pane_of rt (de_pane d));
          recorded = is_some_and (pm_result (rd_program observed)) (\<lambda>r. pe_owner r = owner
            \<and> is_some_and store (\<lambda>st. retains_result st (pe_identity r) (pe_cycle r)))
      in case history of
           Some (_, acknowledged, notified) \<Rightarrow> Rebind acknowledged notified
         | None \<Rightarrow>
             if \<not> recorded \<and> (de_observed_work_cycle d
                \<or> is_some_and (pm_result (rd_program observed)) (\<lambda>r.
                     is_some_and store (\<lambda>st. recovery_reset_for st (ri_record (pe_identity r)))))
             then Reset else Retain)"

definition result_pending :: "program_decision \<Rightarrow> bool" where
  "result_pending d = is_some_and (sel_result (de_selection d)) pr_pending"

definition exact_ack :: "pane_read \<Rightarrow> persisted_result option \<Rightarrow> bool" where
  "exact_ack observed result = is_some_and result (\<lambda>r. pm_acknowledged (rd_program observed) = Some r)"

definition same_result :: "pane_read \<Rightarrow> persisted_result option \<Rightarrow> bool" where
  "same_result observed result = is_some_and result (\<lambda>r. pm_result (rd_program observed) = Some r)"

definition raises_attention ::
  "pane_read \<Rightarrow> pane_owner \<Rightarrow> program_decision \<Rightarrow> recovered option \<Rightarrow> stamped_state option \<Rightarrow> persisted_result option \<Rightarrow> bool" where
  "raises_attention observed owner d history previous result =
     (if sel_state (de_selection d) = Blocked then
        if blocked_continuity observed owner d then \<not> is_some_and (blocked_of observed) bh_acknowledged
        else
          \<not> ((pm_owner (rd_program observed) = Some owner)
             \<and> is_some_and previous (\<lambda>s. sp_state s = Blocked))
          \<or> is_some_and previous sp_attention
      else
        \<not> exact_ack observed result
        \<and> (result_pending d
           \<or> is_some_and history (\<lambda>(_, acknowledged, _). \<not> acknowledged)
           \<or> same_result observed result \<and> is_some_and previous (\<lambda>s. sp_state s = Idle \<and> sp_attention s)))"

definition publication_companions ::
  "pane_read \<Rightarrow> pane_owner \<Rightarrow> program_decision \<Rightarrow> recovered option \<Rightarrow> stamped_state option \<Rightarrow> persisted_result option
     \<Rightarrow> u64 \<Rightarrow> option_edit list" where
  "publication_companions observed owner d history previous result now =
     (if raises_attention observed owner d history previous result then edit_set OPT_ATTENTION ''1'' else edit_unset OPT_ATTENTION)
     # (if result_pending d \<and> \<not> same_result observed result \<and> \<not> exact_ack observed result
        then [edit_set OPT_TURN_AT (show_nat (max now (case previous of None \<Rightarrow> 0 | Some s \<Rightarrow> sat_add (episode_at s) 1)))]
        else [])"

definition publication_of ::
  "string \<Rightarrow> pane_read \<Rightarrow> pane_owner \<Rightarrow> program_decision \<Rightarrow> stamped_state option \<Rightarrow> u64 \<Rightarrow> write_publish" where
  "publication_of target observed owner d previous now =
     \<lparr>wr_pane_id = target, wr_state = sel_state (de_selection d), wr_detail = sel_detail (de_selection d), wr_source = Hook,
      wr_evidence_at = sel_at (de_selection d), wr_since = sel_at (de_selection d), wr_stamped_at = now,
      wr_hash = Option.bind previous sp_hash, wr_pid = pi_pid (chain_agent (po_processes owner)), wr_name = de_manifest d,
      wr_set_attention = False,
      wr_episode_reset = is_some_and (pm_owner (rd_program observed)) (\<lambda>w. po_processes w \<noteq> po_processes owner),
      wr_guard = Unconditional\<rparr>"

section \<open>Publication\<close>

definition program_target :: "session_id \<Rightarrow> pane_id \<Rightarrow> string" where
  "program_target session pane = ''$'' @ show_nat session @ '':.%'' @ show_nat pane"

definition commit_publication ::
  "'s surface \<Rightarrow> pane_read \<Rightarrow> pane_owner \<Rightarrow> program_decision \<Rightarrow> recovered option \<Rightarrow> result_history \<Rightarrow> u64 \<Rightarrow> string
     \<Rightarrow> ('s, commit_outcome) io" where
  "commit_publication sf observed owner d history what now target =
     (let previous = published_previous observed owner d history now;
          result = published_result owner d history
      in publish_program_with_history (sf_tmux sf) observed owner (publication_of target observed owner d previous now) result
           (publication_companions observed owner d history previous result now) what (Some (sel_record (de_selection d))))"

text \<open>The publication itself: with yielding option hooks on the server, only the exact old owner is revoked.\<close>

definition publish_or_revoke ::
  "'s surface \<Rightarrow> ('s \<Rightarrow> bool \<times> 's) \<Rightarrow> pane_read \<Rightarrow> string \<Rightarrow> ('s, commit_outcome) io \<Rightarrow> ('s, 'c, 'e, commit_outcome) step" where
  "publish_or_revoke sf completed observed target publish = (\<lambda>st.
     case step_io publish st of
       Inr (Inl (PubPersistence PeUnsupported), st1) \<Rightarrow>
         step_bind (step_check completed) (\<lambda>_.
         step_bind (case pm_owner (rd_program observed) of
                      None \<Rightarrow> step_return False
                    | Some previous \<Rightarrow> step_io (revoke_program (sf_tmux sf) target previous)) (\<lambda>_.
         step_fail (PubPersistence PeUnsupported))) st1
     | other \<Rightarrow> other)"

text \<open>A won publication that lost its schedule is revoked; otherwise a pending result is now presented.\<close>

definition conclude_publication ::
  "'s surface \<Rightarrow> ('s \<Rightarrow> bool \<times> 's) \<Rightarrow> pane_owner \<Rightarrow> program_decision \<Rightarrow> string \<Rightarrow> commit_outcome \<Rightarrow> ('s, 'c, 'e, unit) step" where
  "conclude_publication sf completed owner d target outcome =
     (if won outcome then (\<lambda>(s, rt, c).
        case completed s of (go, s1) \<Rightarrow>
          (if go then (if result_pending d then step_bind (step_runtime (runtime_mark_presented d)) (\<lambda>_. step_return ())
                       else step_return ())
           else step_bind (step_io (revoke_program (sf_tmux sf) target owner)) (\<lambda>_. step_fail ScheduleLost)) (s1, rt, c))
      else step_return ())"

definition publish_checked_with_completion ::
  "'s surface \<Rightarrow> ('c, 'e) program_collector \<Rightarrow> 're knowledge \<Rightarrow> program_decision \<Rightarrow> program_pane \<Rightarrow> process_snapshot
     \<Rightarrow> token \<Rightarrow> session_id \<Rightarrow> ('s \<Rightarrow> bool \<times> 's) \<Rightarrow> ('s, 'c, 'e, commit_outcome) step" where
  "publish_checked_with_completion sf pc k d pane snapshot collector session completed =
     (let target = program_target session (de_pane d) in
      step_bind (step_recheck pc k d pane snapshot) (\<lambda>_.
      step_bind (step_io (read_pane (sf_tmux sf) target)) (\<lambda>observed.
      step_bind (step_check completed) (\<lambda>_.
      case chain_new (de_chain d) of
        None \<Rightarrow> step_fail (PubPersistence (PeInvalid ''invalid publication ancestry''))
      | Some chain \<Rightarrow>
          let owner = owner_of_decision collector d chain in
          step_bind (reconcile_durable observed d owner) (\<lambda>(current, history).
          step_bind (step_recheck pc k current pane snapshot) (\<lambda>_.
          step_bind (step_io (clock (sf_tmux sf))) (\<lambda>now.
          step_bind (step_view (\<lambda>rt. result_history_of rt observed owner current history)) (\<lambda>what.
          step_bind (step_check completed) (\<lambda>_.
          step_bind (publish_or_revoke sf completed observed target
                       (commit_publication sf observed owner current history what now target)) (\<lambda>outcome.
          step_bind (conclude_publication sf completed owner current target outcome) (\<lambda>_.
          step_bind (step_check completed) (\<lambda>_.
          step_io (\<lambda>s. (Inr outcome, snd (reconcile_summaries sf s)))))))))))))))"

definition publish_checked ::
  "'s surface \<Rightarrow> ('c, 'e) program_collector \<Rightarrow> 're knowledge \<Rightarrow> program_decision \<Rightarrow> program_pane \<Rightarrow> process_snapshot
     \<Rightarrow> token \<Rightarrow> session_id \<Rightarrow> ('s, 'c, 'e, commit_outcome) step" where
  "publish_checked sf pc k d pane snapshot collector session =
     publish_checked_with_completion sf pc k d pane snapshot collector session (Pair True)"

section \<open>Release\<close>

text \<open>The owner a release still finds on the pane.\<close>

definition releasable :: "token \<Rightarrow> program_release \<Rightarrow> pane_read \<Rightarrow> pane_owner option" where
  "releasable collector r observed =
     option_filter (\<lambda>w. po_collector w = collector \<and> Some (po_episode w) = rl_owner r) (pm_owner (rd_program observed))"

text \<open>Stops between two operations when the caller may not go on.\<close>

definition io_allowed :: "('s \<Rightarrow> bool \<times> 's) \<Rightarrow> ('s, bool) io \<Rightarrow> ('s, bool) io" where
  "io_allowed allowed m s = (case allowed s of (go, s1) \<Rightarrow> if go then m s1 else (Inr False, s1))"

definition release_persisted_checked ::
  "'s tmux \<Rightarrow> session_id \<Rightarrow> token \<Rightarrow> program_release \<Rightarrow> ('s \<Rightarrow> bool \<times> 's) \<Rightarrow> ('s, bool) io" where
  "release_persisted_checked tx session collector r allowed =
     (let target = program_target session (rl_pane r) in
      io_bind (read_pane tx target) (\<lambda>observed.
        case releasable collector r observed of
          None \<Rightarrow> io_return True
        | Some owner \<Rightarrow>
            io_allowed allowed (io_bind (revoke_program tx target owner) (\<lambda>_.
              let release = io_allowed allowed (io_unsupported
                    (io_bind (release_program tx observed owner []) (\<lambda>_. io_return True))
                    (io_allowed allowed (io_bind (revoke_program tx target owner) (\<lambda>_. io_return True))))
              in case rl_history r of
                   None \<Rightarrow> release
                 | Some what \<Rightarrow> io_allowed allowed (io_bind (invalidate_history tx observed owner what) (\<lambda>_. release))))))"

definition release_persisted :: "'s tmux \<Rightarrow> session_id \<Rightarrow> token \<Rightarrow> program_release \<Rightarrow> ('s, unit) io" where
  "release_persisted tx session collector r =
     io_bind (release_persisted_checked tx session collector r (Pair True)) (\<lambda>_. io_return ())"

end
