(* ===== verification/Stamp_Properties.thy ===== *)
theory Stamp_Properties
  imports Stamp_Apply Pane_Properties
begin

text \<open>
  What the stamping of a verdict can do to a pane, whatever other clients do meanwhile: the guard of the
  verdict decides at the server, at the moment of every single step, not when the cycle read the pane.
\<close>

section \<open>The guard of a verdict\<close>

text \<open>A hook's claim on a pane without any program marker; against the chrome of a blocker, only a claim that is
  not older than the capture stands. Epochs are below 2^53, where tmux compares numbers exactly.\<close>

definition hook_claimed :: "verdict \<Rightarrow> options \<Rightarrow> bool" where
  "hook_claimed v opts \<longleftrightarrow>
     opt_value opts OPT_SOURCE = ''hook''
     \<and> opt_value opts OPT_ORIGIN = [] \<and> opt_value opts OPT_OWNER = [] \<and> opt_value opts OPT_COMMIT = []
     \<and> (vd_state v = Blocked \<longrightarrow> (\<exists>n \<in> {we_at (vd_winning v)..2 ^ 53}. opt_value opts OPT_EVIDENCE_AT = show_nat n))"

text \<open>An own step of such a verdict: the options carry no hook claim that stands, and no live program at a
  sampled epoch, or it is the poll hint.\<close>

definition verdict_step :: "(u64 \<Rightarrow> bool) \<Rightarrow> verdict \<Rightarrow> options \<Rightarrow> options \<Rightarrow> bool" where
  "verdict_step T v a b =
     ((\<not> hook_claimed v a \<and> (\<exists>now. T now \<and> \<not> is_live (read_projection (read_back a) now))) \<or> (\<exists>x. b = a(OPT_LAST_POLL := x)))"

text \<open>A verdict that neither resets the episode nor may override, from anything but a hook.\<close>

definition screen_verdict :: "verdict \<Rightarrow> bool" where
  "screen_verdict v = (\<not> wp_episode_reset (vd_writes v) \<and> \<not> wp_may_override (vd_writes v) \<and> we_source (vd_winning v) \<noteq> Hook)"

lemma screen_guard:
  "screen_verdict v \<Longrightarrow> guard_for_verdict v = (if vd_state v = Blocked then CarveOut (we_at (vd_winning v)) else ProtectHook)"
  by (simp add: screen_verdict_def guard_for_verdict_def)

lemma checked_guard: "plan_guard (fst (checked_plan sf observed plan s)) = plan_guard plan"
  by (cases plan) (simp_all add: checked_plan_def plan_guard_def check_publish_def Let_def split: option.split prod.split)

lemma plan_guard_verdict:
  "wp_action (vd_writes v) = WPublish \<Longrightarrow> plan_guard (plan_from_verdict pane v pid name hash now) = guard_for_verdict v"
  by (simp add: plan_from_verdict_def plan_guard_def)

context pane_server
begin

lemma claim_suppressed:
  assumes "screen_verdict v" and "hook_claimed v a"
  shows "\<not> admitted num (guard_for_verdict v) (Fallback now) a"
proof -
  have hooked: "eval_format num a hooked = bool_text True"
    using assms(2) by (simp add: hooked_def hook_claimed_def)
  have "suppressed num (guard_for_verdict v) a"
  proof (cases "vd_state v = Blocked")
    case True
    then obtain n where n: "we_at (vd_winning v) \<le> n" "n \<le> 2 ^ 53" "opt_value a OPT_EVIDENCE_AT = show_nat n"
      using assms(2) by (auto simp: hook_claimed_def)
    then have "number_operand (show_nat (we_at (vd_winning v)))" "number_operand (show_nat n)"
      by (simp_all add: number_operand_def)
    from num_decimal [OF this, of OpLe] show ?thesis
      using True n hooked by (simp add: suppressed_def screen_guard [OF assms(1)] decimal_test_def)
  next
    case False
    then show ?thesis using hooked by (simp add: suppressed_def screen_guard [OF assms(1)])
  qed
  then show ?thesis
    using assms by (simp add: admitted_def hook_claimed_def screen_guard)
qed

lemma guar_write_plan:
  assumes "sf_tmux sf = tx" and "coherent observed" and "\<And>s now s'. tx_clock tx s = (now, s') \<Longrightarrow> T now"
  shows "guar (guarded_step num T g) (write_plan_edits sf observed g edits hint) (\<lambda>_. True)"
proof -
  have "guar (guarded_step num T g) (io_unsupported
      (io_bind (write_fallback_with_hint tx observed g edits hint) (\<lambda>x. io_return (applied_of x)))
      (io_bind (advisory_fallback tx observed g edits) (\<lambda>r. io_return (advised r)))) (\<lambda>_. True)"
    by (intro guar_unsupported guar_bind [OF guar_write_fallback [OF assms(2,3)]]
        guar_bind [OF guar_advisory_fallback [OF assms(2,3)]] guar_return TrueI) auto
  then show ?thesis
    using assms(1) by (auto simp: write_plan_edits_def io_degrade_def guar_def io_tmux_def split: prod.splits)
qed

lemma guar_verdict:
  assumes "sf_tmux sf = tx" and "coherent observed" and "\<And>s now s'. tx_clock tx s = (now, s') \<Longrightarrow> T now" and "screen_verdict v"
  shows "guar (verdict_step T v) (write_plan_edits sf observed (guard_for_verdict v) edits hint) (\<lambda>_. True)"
  by (rule guar_mono [OF guar_write_plan [where T = T, OF assms(1,2)]])
    (use assms(3) claim_suppressed [OF assms(4)] in \<open>auto simp: guarded_step_def verdict_step_def\<close>)

end

text \<open>C11 (hook_claim_survives). A verdict read off the screen never overwrites the claim of a hook. Whatever the cycle
  observed and whatever other clients do meanwhile, every own step of the write of its published plan, after the
  check against the blocked history, by the guarded transaction or under yielding hooks, is taken on options that
  carry no hook claim at that moment, or, for the chrome of a blocker, only one older than the capture, and never
  on a live program's; apart from the server-wide poll hint.\<close>

theorem hook_claim_survives:
  assumes "pane_server expand num (sf_tmux sf) opts_of others run"
    and "coherent observed" and "\<And>s now s'. tx_clock (sf_tmux sf) s = (now, s') \<Longrightarrow> T now"
    and "screen_verdict v" and "wp_action (vd_writes v) = WPublish"
    and "plan = fst (checked_plan sf observed (plan_from_verdict pane v pid name hash at) s0)"
    and "write_plan_edits sf observed (plan_guard plan) edits hint s = (r, s')"
  shows "(\<lambda>a b. others a b \<or> verdict_step T v a b)\<^sup>*\<^sup>* (opts_of s) (opts_of s')"
proof -
  have "plan_guard plan = guard_for_verdict v" by (simp add: assms(5,6) checked_guard plan_guard_verdict)
  moreover have "pane_server.guar opts_of others (verdict_step T v) (write_plan_edits sf observed (guard_for_verdict v) edits hint) (\<lambda>_. True)"
    by (rule pane_server.guar_verdict [OF assms(1) refl assms(2) _ assms(4)]) (rule assms(3))
  ultimately show ?thesis
    using assms(7) unfolding pane_server.guar_def [OF assms(1)] pane_server.steps_def [OF assms(1)] by simp
qed

text \<open>A screen verdict on the empty pane of the executable server.\<close>

definition sample_verdict :: verdict where
  "sample_verdict =
     \<lparr>vd_state = Working, vd_detail = None,
      vd_winning = \<lparr>we_origin = None, we_source = Capture, we_at = 5, we_label = ''t''\<rparr>,
      vd_writes = \<lparr>wp_action = WPublish, wp_may_override = False, wp_set_attention = False, wp_episode_reset = False\<rparr>,
      vd_program = None\<rparr>"

definition exec_surface :: "pane_state surface" where
  "exec_surface = \<lparr>sf_tmux = exec_tmux, sf_run = (\<lambda>_. io_fail PeUnsupported), sf_processes = (\<lambda>_ _. Inl ProcessNotFound)\<rparr>"

theorem hook_claim_survives_witness:
  "(\<lambda>a b. a = b \<or> verdict_step (\<lambda>_. True) sample_verdict a b)\<^sup>*\<^sup>* (ps_options empty_pane)
     (ps_options (snd (write_plan_edits exec_surface empty_read ProtectHook [edit_set OPT_STATE ''working''] None empty_pane)))"
proof (rule hook_claim_survives [where s' = "snd (write_plan_edits exec_surface empty_read ProtectHook [edit_set OPT_STATE ''working''] None empty_pane)"])
  show "pane_server expand_format decimal_test (sf_tmux exec_surface) ps_options (=) exec_command"
    using exec_server.pane_server_axioms by (simp add: exec_surface_def)
  show "screen_verdict sample_verdict" by (simp add: screen_verdict_def sample_verdict_def)
  show "wp_action (vd_writes sample_verdict) = WPublish" by (simp add: sample_verdict_def)
  let ?plan = "fst (checked_plan exec_surface empty_read (plan_from_verdict ''%1'' sample_verdict 7 ''claude'' 0 5) empty_pane)"
  have "plan_guard ?plan = ProtectHook"
    by (simp add: checked_guard plan_guard_verdict sample_verdict_def guard_for_verdict_def)
  then show "write_plan_edits exec_surface empty_read (plan_guard ?plan) [edit_set OPT_STATE ''working''] None empty_pane
      = (fst (write_plan_edits exec_surface empty_read ProtectHook [edit_set OPT_STATE ''working''] None empty_pane),
         snd (write_plan_edits exec_surface empty_read ProtectHook [edit_set OPT_STATE ''working''] None empty_pane))"
    by simp
qed (rule empty_read_coherent TrueI refl)+

end
