(* ===== verification/Publication_Properties.thy ===== *)
theory Publication_Properties
  imports Publication Runtime_Properties Pane_Effects
begin

text \<open>
  What a publication and a release guarantee: a decision is only ever reported as published after it was
  checked against the runtime, the stream and the processes, and the runtime takes a result for presented
  only after the pane was read back with it.
\<close>

section \<open>Steps\<close>

lemma map_sum_Inl: "map_sum f g x = Inl e \<Longrightarrow> \<exists>y. x = Inl y \<and> e = f y"
  by (cases x) simp_all




lemma step_return_iff [simp]: "step_return x st = Inr (r, st') \<longleftrightarrow> r = Inr x \<and> st' = st"
  by (auto simp: step_return_def)

lemma step_fail_iff [simp]: "step_fail e st = Inr (r, st') \<longleftrightarrow> r = Inl e \<and> st' = st"
  by (auto simp: step_fail_def)







lemma step_recheck_failed:
  assumes "step_recheck pc k d pane snapshot (s, rt, c) = Inr (Inl e, st')"
  shows "\<exists>r. e = PubRecheck r"
  using assms by (auto simp: step_recheck_def map_sum_Inr dest!: sym [of "Inl e"] map_sum_Inl)

section \<open>Reconciliation with the pane\<close>









section \<open>A publication\<close>




lemma conclude_unit: "(u :: unit) = ()"
  by simp





section \<open>A release\<close>

text \<open>An own step of a release: while the pane is still owned by this collector for the episode that ended, the
  commit goes, or a remembered block the invalidation covers goes, or a remembered result it covers is marked
  invalid, or, with no option hook that could yield, commit and owner go together.\<close>

definition release_step :: "token \<Rightarrow> program_release \<Rightarrow> options \<Rightarrow> options \<Rightarrow> bool" where
  "release_step collector r a b \<longleftrightarrow>
     (\<exists>owner. po_collector owner = collector \<and> Some (po_episode owner) = rl_owner r \<and> opt_value a OPT_OWNER = owner_encode owner)
     \<and> (b = a(OPT_COMMIT := None)
        \<or> (\<exists>what h acknowledged. rl_history r = Some what \<and> history_affected what h
             \<and> opt_value a OPT_BLOCKED_HISTORY = blocked_encode (h\<lparr>bh_acknowledged := acknowledged\<rparr>)
             \<and> b = a(OPT_BLOCKED_HISTORY := None))
        \<or> (\<exists>what result. rl_history r = Some what \<and> invalidation_affects what result
             \<and> opt_value a OPT_RESULT = result_encode result \<and> b = a(OPT_INVALIDATED := Some (result_encode result)))
        \<or> no_hooks a \<and> (\<exists>w. b = a(OPT_COMMIT := None, OPT_OWNER := None, OPT_RECEIPT := Some w)))"

context pane_server
begin

lemma guar_io_allowed:
  assumes "\<And>s. others (opts_of s) (opts_of (snd (allowed s)))" and "guar G m (\<lambda>_. True)"
  shows "guar G (io_allowed allowed m) (\<lambda>_. True)"
  unfolding guar_def
proof (intro allI impI conjI TrueI)
  fix s r s'
  assume run: "io_allowed allowed m s = (r, s')"
  have "steps G (opts_of s) (opts_of (snd (allowed s)))" using assms(1) by (rule steps_others)
  moreover have "steps G (opts_of (snd (allowed s))) (opts_of s')"
    using run assms(2) by (auto simp: io_allowed_def guar_def split: prod.splits if_splits)
  ultimately show "steps G (opts_of s) (opts_of s')" by (rule steps_trans)
qed

lemma guar_revoke:
  assumes "\<And>a. opt_value a OPT_OWNER = owner_encode owner \<Longrightarrow> G a (a(OPT_COMMIT := None))"
  shows "guar G (revoke_program tx pane owner) (\<lambda>_. True)"
proof -
  have "own G (conditional_group pane (pred_equal OPT_OWNER (owner_encode owner)) (map (edit_command pane) [edit_unset OPT_COMMIT]))"
    by (rule own_group [OF means_equal]) (simp_all add: edit_unset_def assms)
  then have "guar G (tx_apply tx pane [conditional_group pane (pred_equal OPT_OWNER (owner_encode owner)) [unset_pane_option pane OPT_COMMIT]]) (\<lambda>_. True)"
    by (intro guar_apply) (simp add: edit_command_def edit_unset_def)
  then show ?thesis
    unfolding revoke_program_def revoke_program_readback_def
    by (intro guar_bind [OF guar_bind [where Q = "\<lambda>_. True" and R = "\<lambda>_. True"]] guar_weaken [OF guar_read_pane] guar_return TrueI)
qed

lemma guar_invalidate:
  assumes "po_collector owner = collector" and "Some (po_episode owner) = rl_owner r" and "rl_history r = Some what"
  shows "guar (release_step collector r) (invalidate_history tx observed owner what) (\<lambda>_. True)"
proof -
  let ?owned = "pred_equal OPT_OWNER (owner_encode owner)"
  have block: "guar (release_step collector r)
      (apply_one tx pane (pred_and ?owned (pred_or (pred_equal OPT_BLOCKED_HISTORY (blocked_encode h))
         (pred_equal OPT_BLOCKED_HISTORY (blocked_encode (h\<lparr>bh_acknowledged := \<not> bh_acknowledged h\<rparr>)))))
         (edit_unset OPT_BLOCKED_HISTORY)) (\<lambda>_. True)"
    if "history_affected what h" for pane h
  proof (rule guar_apply_one [OF means_and [OF means_equal means_or [OF means_equal means_equal]]])
    fix a
    assume a: "opt_value a OPT_OWNER = owner_encode owner \<and> (opt_value a OPT_BLOCKED_HISTORY = blocked_encode h
      \<or> opt_value a OPT_BLOCKED_HISTORY = blocked_encode (h\<lparr>bh_acknowledged := \<not> bh_acknowledged h\<rparr>))"
    then obtain v where "opt_value a OPT_BLOCKED_HISTORY = blocked_encode (h\<lparr>bh_acknowledged := v\<rparr>)"
      by (elim conjE disjE) (use that [of "bh_acknowledged h"] that [of "\<not> bh_acknowledged h"] in simp_all)
    then show "release_step collector r a (a(ed_key (edit_unset OPT_BLOCKED_HISTORY) := ed_value (edit_unset OPT_BLOCKED_HISTORY)))"
      using a assms that by (auto simp: release_step_def edit_unset_def)
  qed simp_all
  have outcome: "guar (release_step collector r)
      (apply_one tx pane (pred_and ?owned (pred_equal OPT_RESULT (result_encode result))) (edit_set OPT_INVALIDATED (result_encode result))) (\<lambda>_. True)"
    if "invalidation_affects what result" for pane result
    by (rule guar_apply_one [OF means_and [OF means_equal means_equal]]) (use assms that in \<open>auto simp: release_step_def edit_set_def\<close>)
  show ?thesis
    unfolding invalidate_history_def Let_def
    by (rule guar_bind [where Q = "\<lambda>_. True"])
      (auto split: option.splits intro!: guar_if guar_return block outcome simp: option_filter_def)
qed

lemma guar_release_program:
  assumes "po_collector owner = collector" and "Some (po_episode owner) = rl_owner r"
  shows "guar (release_step collector r) (release_program tx observed owner []) (\<lambda>_. True)"
  unfolding release_program_def
proof (rule guar_bind [OF guar_of [where Q = "\<lambda>_. True"]], rule TrueI, rule guar_transaction [OF means_one])
  fix a w
  assume "committable num (ExactOwner owner) observed Unconditional (\<lambda>_. True) a"
  then show "release_step collector r a (apply_edits (([edit_unset OPT_COMMIT, edit_unset OPT_OWNER] @ []) @ [receipt_edit w]) a)"
    using assms by (auto simp: committable_def release_step_def edit_unset_def edit_set_def receipt_edit_def)
qed

lemma guar_release:
  assumes "\<And>s. others (opts_of s) (opts_of (snd (allowed s)))"
  shows "guar (release_step collector r) (release_persisted_checked tx session collector r allowed) (\<lambda>_. True)"
  unfolding release_persisted_checked_def Let_def
proof (rule guar_bind [OF guar_weaken [OF guar_read_pane, where R = "\<lambda>_. True"]], rule TrueI)
  fix observed
  let ?G = "release_step collector r" and ?target = "program_target session (rl_pane r)"
  show "guar ?G (case releasable collector r observed of None \<Rightarrow> io_return True
      | Some owner \<Rightarrow> io_allowed allowed (io_bind (revoke_program tx ?target owner) (\<lambda>_.
          case rl_history r of
            None \<Rightarrow> io_allowed allowed (io_unsupported (io_bind (release_program tx observed owner []) (\<lambda>_. io_return True))
                (io_allowed allowed (io_bind (revoke_program tx ?target owner) (\<lambda>_. io_return True))))
          | Some what \<Rightarrow> io_allowed allowed (io_bind (invalidate_history tx observed owner what) (\<lambda>_.
              io_allowed allowed (io_unsupported (io_bind (release_program tx observed owner []) (\<lambda>_. io_return True))
                (io_allowed allowed (io_bind (revoke_program tx ?target owner) (\<lambda>_. io_return True))))))))) (\<lambda>_. True)"
  proof (cases "releasable collector r observed")
    case None
    then show ?thesis by (simp add: guar_return)
  next
    case (Some owner)
    then have owner: "po_collector owner = collector" "Some (po_episode owner) = rl_owner r"
      by (auto simp: releasable_def option_filter_def split: option.splits if_splits)
    note allow = guar_io_allowed [OF assms]
    have revoke: "guar ?G (revoke_program tx ?target owner) (\<lambda>_. True)"
      by (rule guar_revoke) (use owner in \<open>auto simp: release_step_def\<close>)
    have release: "guar ?G (io_allowed allowed (io_unsupported (io_bind (release_program tx observed owner []) (\<lambda>_. io_return True))
        (io_allowed allowed (io_bind (revoke_program tx ?target owner) (\<lambda>_. io_return True))))) (\<lambda>_. True)"
      by (intro allow guar_unsupported guar_bind [OF guar_release_program [OF owner]] guar_bind [OF revoke] guar_return TrueI)
    have invalidate: "guar ?G (invalidate_history tx observed owner what) (\<lambda>_. True)" if "rl_history r = Some what" for what
      by (rule guar_invalidate [OF owner that])
    show ?thesis
      using Some by (auto split: option.splits intro!: allow guar_bind [OF revoke] guar_bind [OF invalidate] release)
  qed
qed

end

text \<open>C10 (release_exact_owner). Releasing what was published for an episode, whatever other clients do in between and
  wherever the caller withdraws its permission, takes an own step only while the pane is still owned by the same
  collector for the very episode that ended, and writes only the commit, the owner, its receipt and the memories
  that the release's own invalidation covers. A successor that took the pane over is never touched.\<close>

theorem release_exact_owner:
  assumes "pane_server expand num tx opts_of others run"
    and "\<And>s. others (opts_of s) (opts_of (snd (allowed s)))"
    and "release_persisted_checked tx session collector r allowed s = (answer, s')"
  shows "(\<lambda>a b. others a b \<or> release_step collector r a b)\<^sup>*\<^sup>* (opts_of s) (opts_of s')"
  using pane_server.guar_release [OF assms(1), of allowed collector r session] assms(2,3)
  unfolding pane_server.guar_def [OF assms(1)] pane_server.steps_def [OF assms(1)] by blast

definition sample_release :: program_release where
  "sample_release = \<lparr>rl_pane = 1, rl_owner = Some (po_episode sample_owner), rl_reason = RFullReset, rl_history = Some InvalidateAll\<rparr>"

theorem release_exact_owner_witness:
  "(\<lambda>a b. a = b \<or> release_step sample_token sample_release a b)\<^sup>*\<^sup>* (ps_options result_pane)
     (ps_options (snd (release_persisted_checked exec_tmux 1 sample_token sample_release (Pair True) result_pane)))"
  by (rule release_exact_owner [OF exec_server.pane_server_axioms _ surjective_pairing]) simp

end
