(* ===== verification/Json_Text.thy ===== *)
theory Json_Text
  imports Rust_Text
begin

text \<open>
  The writer of JSON texts (\<open>tma-runtime/src/json.rs\<close>): a buffer and, per open scope, whether the next
  element needs a comma. Texts are bytes of UTF-8. Money amounts, which are floating point, are not modelled.
\<close>

record json_writer =
  jw_buf :: string
  jw_commas :: "bool list"

definition json_new :: json_writer where
  "json_new = \<lparr>jw_buf = [], jw_commas = []\<rparr>"

definition json_push :: "string \<Rightarrow> json_writer \<Rightarrow> json_writer" where
  "json_push s j = j\<lparr>jw_buf := jw_buf j @ s\<rparr>"

text \<open>The innermost scope is at the head.\<close>

definition json_last :: "bool \<Rightarrow> json_writer \<Rightarrow> json_writer" where
  "json_last b j = (case jw_commas j of [] \<Rightarrow> j | _ # cs \<Rightarrow> j\<lparr>jw_commas := b # cs\<rparr>)"

definition json_sep :: "json_writer \<Rightarrow> json_writer" where
  "json_sep j = json_last True (case jw_commas j of True # _ \<Rightarrow> json_push '','' j | _ \<Rightarrow> j)"

definition json_open :: "string \<Rightarrow> json_writer \<Rightarrow> json_writer" where
  "json_open s j = (let j = json_push s (json_sep j) in j\<lparr>jw_commas := False # jw_commas j\<rparr>)"

definition json_close :: "string \<Rightarrow> json_writer \<Rightarrow> json_writer" where
  "json_close s j = (let j = json_push s j in j\<lparr>jw_commas := tl (jw_commas j)\<rparr>)"

abbreviation json_begin_object :: "json_writer \<Rightarrow> json_writer" where "json_begin_object \<equiv> json_open ''{''"
abbreviation json_end_object :: "json_writer \<Rightarrow> json_writer" where "json_end_object \<equiv> json_close ''}''"
abbreviation json_begin_array :: "json_writer \<Rightarrow> json_writer" where "json_begin_array \<equiv> json_open ''[''"
abbreviation json_end_array :: "json_writer \<Rightarrow> json_writer" where "json_end_array \<equiv> json_close '']''"

definition json_hex :: "nat \<Rightarrow> char" where
  "json_hex d = (if d < 10 then digit_char d else char_of (87 + d))"

definition BACKSLASH_CHAR :: char where "BACKSLASH_CHAR = CHR 0x5C"

definition json_escape :: "char \<Rightarrow> string" where
  "json_escape c =
     (if c = CHR 0x22 then [BACKSLASH_CHAR, CHR 0x22]
      else if c = BACKSLASH_CHAR then [BACKSLASH_CHAR, BACKSLASH_CHAR]
      else if c = CHR 0x0A then BACKSLASH_CHAR # ''n''
      else if c = CHR 0x0D then BACKSLASH_CHAR # ''r''
      else if c = CHR 0x09 then BACKSLASH_CHAR # ''t''
      else if byte c < 32 then BACKSLASH_CHAR # ''u00'' @ [json_hex (byte c div 16), json_hex (byte c mod 16)]
      else [c])"

definition json_text :: "string \<Rightarrow> string" where
  "json_text s = CHR 0x22 # concat (map json_escape s) @ [CHR 0x22]"

definition json_key :: "string \<Rightarrow> json_writer \<Rightarrow> json_writer" where
  "json_key k j = json_last False (json_push (json_text k @ '':'') (json_sep j))"

definition json_member :: "string \<Rightarrow> string \<Rightarrow> json_writer \<Rightarrow> json_writer" where
  "json_member k v j = json_last True (json_push v (json_key k j))"

definition json_string :: "string \<Rightarrow> string \<Rightarrow> json_writer \<Rightarrow> json_writer" where
  "json_string k v = json_member k (json_text v)"

definition json_number :: "string \<Rightarrow> int \<Rightarrow> json_writer \<Rightarrow> json_writer" where
  "json_number k n = json_member k (if n < 0 then ''-'' @ show_nat (nat (- n)) else show_nat (nat n))"

text \<open>\<open>v as i64\<close> of an unsigned 64-bit value.\<close>

definition as_i64 :: "nat \<Rightarrow> int" where
  "as_i64 n = (if n < 2 ^ 63 then int n else int n - 2 ^ 64)"

definition json_bool :: "string \<Rightarrow> bool \<Rightarrow> json_writer \<Rightarrow> json_writer" where
  "json_bool k b = json_member k (if b then ''true'' else ''false'')"

definition json_null :: "string \<Rightarrow> json_writer \<Rightarrow> json_writer" where
  "json_null k = json_member k ''null''"

definition json_raw_value :: "string \<Rightarrow> string \<Rightarrow> json_writer \<Rightarrow> json_writer" where
  "json_raw_value k v = json_member k v"

definition json_raw_null :: "json_writer \<Rightarrow> json_writer" where
  "json_raw_null j = json_push ''null'' (json_sep j)"

definition json_raw_string :: "string \<Rightarrow> json_writer \<Rightarrow> json_writer" where
  "json_raw_string v j = json_push (json_text v) (json_sep j)"

definition json_option :: "string \<Rightarrow> string option \<Rightarrow> json_writer \<Rightarrow> json_writer" where
  "json_option k v = (case v of Some s \<Rightarrow> json_string k s | None \<Rightarrow> json_null k)"

end
