(* ===== verification/Metadata_Binding.thy ===== *)
theory Metadata_Binding
  imports Stamp_Apply Identity
begin

text \<open>
  The lifetime of hook and API metadata (\<open>tma-runtime/src/metadata.rs\<close>): which process and session a pane's
  metadata belongs to, and the writes that are bound to them. Kernel reads between two tmux calls see one
  process table; the enumeration of the processes is a parameter. Definitions only.
\<close>

section \<open>Reads that may have no answer\<close>

type_synonym ('s, 'a) attempt = "'s \<Rightarrow> 'a option \<times> 's"

definition try_io :: "('s, 'a) io \<Rightarrow> ('s, 'a) attempt" where
  "try_io m s = (case m s of (r, s1) \<Rightarrow> (ok r, s1))"

definition try_bind :: "('s, 'a) attempt \<Rightarrow> ('a \<Rightarrow> ('s, 'b) attempt) \<Rightarrow> ('s, 'b) attempt" where
  "try_bind m f s = (case m s of (None, s1) \<Rightarrow> (None, s1) | (Some x, s1) \<Rightarrow> f x s1)"

text \<open>What the kernel shows of the processes, and which there are.\<close>

type_synonym 's enumeration = "'s \<Rightarrow> process_unavailable + u32 list"

definition program_table :: "'s surface \<Rightarrow> 's enumeration \<Rightarrow> 's \<Rightarrow> process_snapshot option" where
  "program_table sf pids s =
     (case pids s of Inl _ \<Rightarrow> None | Inr enumerated \<Rightarrow> ok (program_processes (sf_processes sf s) enumerated))"

section \<open>Bindings\<close>

record metadata_binding_record =
  mb_read :: pane_read
  mb_expected :: "metadata_owner option"
  mb_next :: metadata_owner
  mb_processes :: "process_identity list"

definition known_pid :: "pane_read \<Rightarrow> u32 option" where
  "known_pid r =
     (case pm_owner (rd_program r) of
        Some owner \<Rightarrow> Some (pi_pid (chain_agent (po_processes owner)))
      | None \<Rightarrow> option_filter (\<lambda>n. n \<noteq> 0) (number_option u32_max (rd_options r) OPT_PID))"

definition chain_to :: "process_reader \<Rightarrow> pane_record \<Rightarrow> u32 \<Rightarrow> process_identity list option" where
  "chain_to reader pane pid = ok (sample_process_chain reader (pr_pane_pid pane) pid)"

definition ends_in :: "process_identity list \<Rightarrow> process_identity \<Rightarrow> bool" where
  "ends_in chain p = (chain \<noteq> [] \<and> last chain = p)"

text \<open>The manifest's own process, recognized in one snapshot and sampled again with the same births.\<close>

definition manifest_chain ::
  "('re \<Rightarrow> nat list \<Rightarrow> bool) \<Rightarrow> process_reader \<Rightarrow> process_snapshot \<Rightarrow> pane_record \<Rightarrow> pane_read \<Rightarrow> 're loaded_manifest
     \<Rightarrow> registration option \<Rightarrow> process_identity list option option" where
  "manifest_chain is_match reader table pane r manifest reg =
     (case identify is_match (pr_pane_pid pane) (pr_current_command pane) (pr_title pane) (sn_processes table) [manifest]
             (Option.bind (rd_options r OPT_TITLE_MATCH_PID) anchor_parse) reg of
        AgentPane agent \<Rightarrow>
          if if_agent_pid agent = 0 then None
          else Some (case chain_to reader pane (if_agent_pid agent) of
                 None \<Rightarrow> None
               | Some chain \<Rightarrow> if list_all (\<lambda>p. ok (snapshot_identity table (pi_pid p)) = Some p) chain then Some chain else None)
      | _ \<Rightarrow> None)"

text \<open>\<open>Some\<close> of an answer ends the search; \<open>None\<close> goes on with the root.\<close>

definition owner_chain ::
  "process_reader \<Rightarrow> pane_record \<Rightarrow> pane_read \<Rightarrow> bool \<Rightarrow> process_identity list option option \<times> process_identity list option" where
  "owner_chain reader pane r has_manifest =
     (case metadata_owner_of r of
        None \<Rightarrow> (None, None)
      | Some w \<Rightarrow>
          (case option_filter (\<lambda>c. ends_in c (mo_process w)) (chain_to reader pane (pi_pid (mo_process w))) of
             Some c \<Rightarrow> if \<not> has_manifest \<or> 1 < length c then (Some (Some c), None) else (None, Some c)
           | None \<Rightarrow> if has_manifest then (None, None) else (Some None, None)))"

definition processes_of ::
  "('re \<Rightarrow> nat list \<Rightarrow> bool) \<Rightarrow> 's surface \<Rightarrow> 's enumeration \<Rightarrow> pane_record \<Rightarrow> pane_read \<Rightarrow> 're loaded_manifest option
     \<Rightarrow> registration option \<Rightarrow> 's \<Rightarrow> process_identity list option" where
  "processes_of is_match sf pids pane r manifest reg s =
     (let reader = sf_processes sf s;
          known = known_pid r
      in case Option.bind known (chain_to reader pane) of
           Some chain \<Rightarrow> Some chain
         | None \<Rightarrow>
             if known \<noteq> None \<and> manifest = None then None
             else (case owner_chain reader pane r (manifest \<noteq> None) of
                (Some answer, _) \<Rightarrow> answer
              | (None, root) \<Rightarrow>
                  (let fallback = (case root of Some c \<Rightarrow> Some c | None \<Rightarrow> chain_to reader pane (pr_pane_pid pane))
                   in case manifest of
                        None \<Rightarrow> fallback
                      | Some m \<Rightarrow>
                          (case program_table sf pids s of
                             None \<Rightarrow> None
                           | Some table \<Rightarrow>
                               (case manifest_chain is_match reader table pane r m reg of
                                  Some answer \<Rightarrow> answer
                                | None \<Rightarrow> fallback)))))"

definition pane_record_of :: "'s surface \<Rightarrow> string \<Rightarrow> ('s, pane_record) attempt" where
  "pane_record_of sf pane = try_bind (try_io (list_panes (sf_run sf))) (\<lambda>panes s. (find (\<lambda>r. pr_pane_id r = pane) panes, s))"

definition current_processes ::
  "('re \<Rightarrow> nat list \<Rightarrow> bool) \<Rightarrow> 's surface \<Rightarrow> 's enumeration \<Rightarrow> pane_read \<Rightarrow> 're loaded_manifest option
     \<Rightarrow> registration option \<Rightarrow> ('s, process_identity list) attempt" where
  "current_processes is_match sf pids r manifest reg =
     try_bind (pane_record_of sf (rd_pane_id r)) (\<lambda>pane s. (processes_of is_match sf pids pane r manifest reg s, s))"

definition attributed :: "string option \<Rightarrow> string option" where
  "attributed session = option_filter (\<lambda>v. v \<noteq> UNATTRIBUTED) session"

text \<open>The session the stored metadata is attributed to, for this process.\<close>

definition current_session :: "pane_read \<Rightarrow> metadata_owner option \<Rightarrow> process_identity \<Rightarrow> string option" where
  "current_session r expected process =
     attributed (case option_filter (\<lambda>w. mo_process w = process) expected of
                   Some w \<Rightarrow> Some (mo_session w)
                 | None \<Rightarrow> if expected = None then rd_options r OPT_SESSION else None)"

text \<open>The session of the next owner, refused for a foreign one; a subagent keeps the one there is.\<close>

definition next_session :: "string option \<Rightarrow> string option \<Rightarrow> bool \<Rightarrow> string option" where
  "next_session current session subagent =
     (if subagent then Some (case current of Some v \<Rightarrow> v | None \<Rightarrow> UNATTRIBUTED)
      else (case (current, session) of
              (Some c, Some e) \<Rightarrow> if c \<noteq> e then None else Some e
            | (_, Some e) \<Rightarrow> Some e
            | (Some c, None) \<Rightarrow> Some c
            | (None, None) \<Rightarrow> Some UNATTRIBUTED))"

definition binding_registration :: "pane_read \<Rightarrow> string option \<Rightarrow> bool \<Rightarrow> 're loaded_manifest option \<Rightarrow> registration option" where
  "binding_registration r session subagent manifest =
     (case (rd_options r OPT_NAME, rd_options r OPT_SESSION) of
        (Some name, Some stored) \<Rightarrow> Some \<lparr>rg_agent_name = name, rg_session = Some stored\<rparr>
      | _ \<Rightarrow>
          if subagent then None
          else (case (manifest, session) of
                  (Some m, Some e) \<Rightarrow> Some \<lparr>rg_agent_name = lm_name m, rg_session = Some e\<rparr>
                | _ \<Rightarrow> None))"

definition binding_of_processes ::
  "pane_read \<Rightarrow> string option \<Rightarrow> bool \<Rightarrow> process_identity list \<Rightarrow> metadata_binding_record option" where
  "binding_of_processes r session subagent processes =
     (if processes = [] then None
      else (let expected = metadata_owner_of r; process = last processes in
        Option.bind (next_session (current_session r expected process) session subagent) (\<lambda>chosen.
          let owner = \<lparr>mo_process = process, mo_session = chosen\<rparr>
          in if metadata_owner_parse (metadata_owner_encode owner) = None then None
             else Some \<lparr>mb_read = r, mb_expected = expected, mb_next = owner, mb_processes = processes\<rparr>)))"

definition bind_observed ::
  "('re \<Rightarrow> nat list \<Rightarrow> bool) \<Rightarrow> 's surface \<Rightarrow> 's enumeration \<Rightarrow> pane_read \<Rightarrow> string option \<Rightarrow> bool
     \<Rightarrow> 're loaded_manifest option \<Rightarrow> ('s, metadata_binding_record) attempt" where
  "bind_observed is_match sf pids r session subagent manifest =
     try_bind (current_processes is_match sf pids r manifest (binding_registration r session subagent manifest))
       (\<lambda>processes s. (binding_of_processes r session subagent processes, s))"

definition bind_metadata ::
  "('re \<Rightarrow> nat list \<Rightarrow> bool) \<Rightarrow> 's surface \<Rightarrow> 's enumeration \<Rightarrow> string \<Rightarrow> string option \<Rightarrow> bool
     \<Rightarrow> ('s, metadata_binding_record) attempt" where
  "bind_metadata is_match sf pids pane session subagent =
     try_bind (try_io (read_pane (sf_tmux sf) pane)) (\<lambda>r.
     try_bind (bind_observed is_match sf pids r session subagent None) (\<lambda>b s.
       (if is_some_and (mb_expected b) (\<lambda>w. mo_process w \<noteq> mo_process (mb_next b)) then None else Some b, s)))"

section \<open>Bound writes\<close>

definition still_bound :: "'s surface \<Rightarrow> metadata_binding_record \<Rightarrow> 's \<Rightarrow> bool \<times> 's" where
  "still_bound sf b s =
     (case pane_record_of sf (rd_pane_id (mb_read b)) s of
        (None, s1) \<Rightarrow> (False, s1)
      | (Some pane, s1) \<Rightarrow>
          (chain_to (sf_processes sf s1) pane (pi_pid (mo_process (mb_next b))) = Some (mb_processes b), s1))"

definition ATTRIBUTION_KEYS :: "string list" where
  "ATTRIBUTION_KEYS = METADATA_KEYS @ [OPT_METADATA_OWNER, OPT_METADATA_UPDATE, OPT_ATTENTION_EPISODE, OPT_PID, OPT_NAME, OPT_SINCE, OPT_TURN_AT]"

definition same_attribution :: "metadata_binding_record \<Rightarrow> pane_read \<Rightarrow> bool" where
  "same_attribution b current =
     (rd_pane_id current = rd_pane_id (mb_read b) \<and> rd_target current = rd_target (mb_read b)
      \<and> list_all (\<lambda>key. rd_options current key = rd_options (mb_read b) key) ATTRIBUTION_KEYS)"

definition replacement_edits :: "metadata_binding_record \<Rightarrow> option_edit list \<Rightarrow> option_edit list" where
  "replacement_edits b edits =
     (if is_some_and (mb_expected b) (\<lambda>w. w \<noteq> mb_next b) then map edit_unset METADATA_KEYS else []) @ edits"

text \<open>One attempt; \<open>Some\<close> is a read to try once more with.\<close>

definition write_attempt ::
  "'s surface \<Rightarrow> metadata_binding_record \<Rightarrow> metadata_owner option \<Rightarrow> option_edit list \<Rightarrow> pane_read \<Rightarrow> 's
     \<Rightarrow> (bool \<times> pane_read option) \<times> 's" where
  "write_attempt sf b next_owner edits observed s =
     (case still_bound sf b s of
        (False, s1) \<Rightarrow> ((False, None), s1)
      | (True, s1) \<Rightarrow>
          (case write_metadata (sf_tmux sf) observed (mb_expected b) next_owner edits s1 of
             (Inr (Won _), s2) \<Rightarrow> ((True, None), s2)
           | (Inr (Lost current), s2) \<Rightarrow> ((False, if same_attribution b current then Some current else None), s2)
           | (Inl PeUnsupported, s2) \<Rightarrow>
               (case advisory_metadata (sf_tmux sf) observed (mb_expected b) next_owner edits s2 of
                  (r, s3) \<Rightarrow> ((ok r \<noteq> None, None), s3))
           | (Inl _, s2) \<Rightarrow> ((False, None), s2)))"

definition write_bound ::
  "'s surface \<Rightarrow> metadata_binding_record \<Rightarrow> option_edit list \<Rightarrow> bool \<Rightarrow> 's \<Rightarrow> bool \<times> 's" where
  "write_bound sf b edits released s =
     (let next_owner = (if released then None else Some (mb_next b));
          edits = replacement_edits b edits
      in case write_attempt sf b next_owner edits (mb_read b) s of
           ((done_now, None), s1) \<Rightarrow> (done_now, s1)
         | ((_, Some refreshed), s1) \<Rightarrow>
             (case write_attempt sf b next_owner edits refreshed s1 of ((done_now, _), s2) \<Rightarrow> (done_now, s2)))"

definition release_bound :: "'s surface \<Rightarrow> metadata_binding_record \<Rightarrow> 's \<Rightarrow> bool \<times> 's" where
  "release_bound sf b = write_bound sf b (map edit_unset METADATA_KEYS) True"

section \<open>What may be shown\<close>

definition stored_owner_text :: "options \<Rightarrow> string option" where
  "stored_owner_text opts = option_filter (\<lambda>raw. raw \<noteq> []) (opts OPT_METADATA_OWNER)"

definition metadata_visible :: "options \<Rightarrow> bool" where
  "metadata_visible opts =
     (let program = metadata_from_options opts in
      case stored_owner_text opts of
        None \<Rightarrow> \<not> pm_program_origin program
      | Some raw \<Rightarrow>
          (case metadata_owner_parse raw of
             None \<Rightarrow> False
           | Some w \<Rightarrow>
               if is_some_and (opts OPT_SESSION) (\<lambda>v. v \<noteq> mo_session w) then False
               else if pm_program_origin program
               then is_some_and (pm_owner program) (\<lambda>p. chain_agent (po_processes p) = mo_process w)
               else (let pid = (case number_option u32_max opts OPT_PID of Some n \<Rightarrow> n | None \<Rightarrow> 0)
                     in pid = 0 \<or> pid = pi_pid (mo_process w))))"

definition live_for_actions :: "process_reader \<Rightarrow> options \<Rightarrow> bool" where
  "live_for_actions reader opts =
     (metadata_visible opts
      \<and> (case stored_owner_text opts of
           None \<Rightarrow> True
         | Some raw \<Rightarrow>
             (case metadata_owner_parse raw of
                None \<Rightarrow> False
              | Some w \<Rightarrow> is_some_and (ok (reader (pi_pid (mo_process w)))) (\<lambda>x. ps_birth x = pi_birth (mo_process w)))))"

end
