(* ===== verification/Action_Broker.thy ===== *)
theory Action_Broker
  imports Gate Action_Lock Json_Text
begin

text \<open>
  The synchronous half of the action broker (\<open>tma-runtime/src/broker.rs\<close> with \<open>broker/audit.rs\<close>
  and the environment of \<open>broker/exec.rs\<close>): the guarded path from a requested action
  to keystrokes, an answer over an API or hook lane, or a process. The seam to the pane, the network,
  the hook lane and the process table is a record of state transformers over any world. Warnings on
  stderr are not modelled. Definitions only.
\<close>

section \<open>Outcomes\<close>

definition FRESHNESS_MS :: u64 where "FRESHNESS_MS = 3000"
definition SLACK_MS :: u64 where "SLACK_MS = 5000"

datatype gone = GonePane | GoneRequest

fun gone_token :: "gone \<Rightarrow> string" where
  "gone_token GonePane = ''pane-gone''"
| "gone_token GoneRequest = ''request-gone''"

datatype refusal =
    RefusedGate refusal_reason | RefusedLocked | RefusedEpisode | RefusedRequest | RefusedPayload text_refusal

fun refusal_text :: "refusal \<Rightarrow> string" where
  "refusal_text (RefusedGate r) = refusal_token r"
| "refusal_text RefusedLocked = ''locked''"
| "refusal_text RefusedEpisode = ''episode-changed''"
| "refusal_text RefusedRequest = ''request-gone''"
| "refusal_text (RefusedPayload r) = text_refusal_token r"

datatype act_outcome =
    OSent | OReplied | OExited int | OSpawned | OTimeout | ORefused refusal | OVanished gone | OError string

fun outcome_token :: "act_outcome \<Rightarrow> string" where
  "outcome_token OSent = ''sent''"
| "outcome_token OReplied = ''replied''"
| "outcome_token (OExited _) = ''exited''"
| "outcome_token OSpawned = ''spawned''"
| "outcome_token OTimeout = ''timeout''"
| "outcome_token (ORefused _) = ''refused''"
| "outcome_token (OVanished _) = ''vanished''"
| "outcome_token (OError _) = ''error''"

fun exit_code :: "act_outcome \<Rightarrow> int" where
  "exit_code (OExited code) = code"
| "exit_code OTimeout = 124"
| "exit_code (ORefused RefusedLocked) = 5"
| "exit_code (ORefused _) = 4"
| "exit_code (OVanished _) = 3"
| "exit_code (OError _) = 1"
| "exit_code _ = 0"

fun severity :: "act_outcome \<Rightarrow> nat" where
  "severity (OExited code) = (if code = 0 then 0 else 5)"
| "severity (ORefused RefusedLocked) = 1"
| "severity (ORefused _) = 2"
| "severity (OVanished _) = 3"
| "severity OTimeout = 4"
| "severity (OError _) = 6"
| "severity _ = 0"

fun outcome_reason :: "act_outcome \<Rightarrow> string option" where
  "outcome_reason (ORefused r) = Some (refusal_text r)"
| "outcome_reason (OVanished g) = Some (gone_token g)"
| "outcome_reason _ = None"

record act_result =
  ar_action :: string
  ar_pane :: string
  ar_outcome :: act_outcome

section \<open>Facts of a pane\<close>

record pane_facts =
  pf_agent :: "string option"
  pf_state :: agent_state
  pf_detail :: "string option"
  pf_session :: "string option"
  pf_cwd :: string
  pf_pid :: "string option"
  pf_title :: string
  pf_locator :: string
  pf_stamped_at :: u64
  pf_context_pct :: "u8 option"
  pf_context_covered :: bool
  pf_permission_request :: "string option"
  pf_question_request :: "string option"
  pf_api_endpoint :: "string option"
  pf_episode_ms :: u64
  pf_pending_tool :: "string option"
  pf_pending_call :: "string option"
  pf_act_repeat :: "string option"

definition facts_keys :: "pane_facts \<Rightarrow> context_keys" where
  "facts_keys f = \<lparr>ck_session = (pf_session f \<noteq> None), ck_cwd = (pf_cwd f \<noteq> []), ck_pid = (pf_pid f \<noteq> None), ck_title = (pf_title f \<noteq> [])\<rparr>"

definition requires_met :: "pane_facts \<Rightarrow> action_manifest \<Rightarrow> bool" where
  "requires_met f a = list_all (keys_has (facts_keys f)) (am_requires a)"

definition facts_gate :: "pane_facts \<Rightarrow> string \<Rightarrow> gate_input" where
  "facts_gate f agent =
     \<lparr>gi_agent = agent, gi_state = pf_state f, gi_detail = pf_detail f, gi_context_pct = pf_context_pct f,
      gi_context_covered = pf_context_covered f, gi_context_keys = facts_keys f\<rparr>"

record supervisor_spec =
  sv_pane_id :: string
  sv_nonce :: string
  sv_expiry_ms :: u64
  sv_action :: string
  sv_agent :: string
  sv_command :: string
  sv_detach_timeout_ms :: u64
  sv_env :: "(string \<times> string) list"

section \<open>The seam\<close>

text \<open>What tmux answers: the pane is gone, a failed command (its rendering and its stderr), or anything else rendered.\<close>

datatype broker_error = BrokerPaneGone | BrokerFailed string string | BrokerOther string
datatype http_outcome = HttpOk | HttpNotFound | HttpError string
datatype verdict_write = VerdictWritten | VerdictExists | VerdictError string
datatype exec_outcome = ExecExited int | ExecTimeout | ExecSpawnError string

record 's broker_io =
  bi_now :: "'s \<Rightarrow> u64 \<times> 's"
  bi_read :: "string \<Rightarrow> 's \<Rightarrow> (broker_error + pane_facts option) \<times> 's"
  bi_reverify :: "string \<Rightarrow> 's \<Rightarrow> (broker_error + unit) \<times> 's"
  bi_send_keys :: "string \<Rightarrow> string list \<Rightarrow> 's \<Rightarrow> (broker_error + unit) \<times> 's"
  bi_send_text :: "string \<Rightarrow> string list \<Rightarrow> string \<Rightarrow> string list \<Rightarrow> 's \<Rightarrow> (broker_error + unit) \<times> 's"
  bi_api_call :: "string \<Rightarrow> string \<Rightarrow> string \<Rightarrow> u64 \<Rightarrow> 's \<Rightarrow> http_outcome \<times> 's"
  bi_hook_pending :: "string \<Rightarrow> 's \<Rightarrow> bool \<times> 's"
  bi_write_verdict :: "string \<Rightarrow> hook_verdict \<Rightarrow> 's \<Rightarrow> verdict_write \<times> 's"
  bi_set_repeat :: "string \<Rightarrow> pane_facts \<Rightarrow> string \<Rightarrow> 's \<Rightarrow> 's"
  bi_clear_permission :: "string \<Rightarrow> pane_facts \<Rightarrow> 's \<Rightarrow> 's"
  bi_clear_question :: "string \<Rightarrow> pane_facts \<Rightarrow> 's \<Rightarrow> 's"
  bi_acquire :: "string \<Rightarrow> u64 \<Rightarrow> u64 \<Rightarrow> string \<Rightarrow> 's \<Rightarrow> (broker_error lock_error + acquire) \<times> 's"
  bi_clear :: "string \<Rightarrow> string \<Rightarrow> 's \<Rightarrow> (broker_error lock_error + unit) \<times> 's"
  bi_spawn :: "supervisor_spec \<Rightarrow> 's \<Rightarrow> (string + unit) \<times> 's"
  bi_lock_held :: "string \<Rightarrow> u64 \<Rightarrow> 's \<Rightarrow> (broker_error + bool) \<times> 's"
  bi_exec :: "string \<Rightarrow> (string \<times> string) list \<Rightarrow> u64 \<Rightarrow> 's \<Rightarrow> exec_outcome \<times> 's"

record fire_args =
  fa_force :: bool
  fa_args :: "string list"
  fa_text :: "string option"
  fa_answers :: "string list list option"
  fa_expect_episode_ms :: "u64 option"
  fa_expect_permission_request :: "string option"

section \<open>Refusals\<close>

definition binder_refusal :: "pane_facts \<Rightarrow> fire_args \<Rightarrow> refusal option" where
  "binder_refusal f args =
     (if is_some_and (fa_expect_episode_ms args) (\<lambda>want. want \<noteq> pf_episode_ms f) then Some RefusedEpisode
      else if is_some_and (fa_expect_permission_request args) (\<lambda>want. pf_permission_request f \<noteq> Some want) then Some RefusedRequest
      else None)"

definition nonempty :: "string option \<Rightarrow> string option" where
  "nonempty v = option_filter (\<lambda>s. s \<noteq> []) v"

definition api_target :: "api_op \<Rightarrow> pane_facts \<Rightarrow> string option" where
  "api_target op f =
     (case op of
        PermissionReply \<Rightarrow> nonempty (pf_permission_request f)
      | QuestionReply \<Rightarrow> nonempty (pf_question_request f)
      | QuestionReject \<Rightarrow> nonempty (pf_question_request f)
      | Interrupt \<Rightarrow> nonempty (pf_session f))"

definition api_requires_refusal :: "action_manifest \<Rightarrow> pane_facts \<Rightarrow> string \<Rightarrow> refusal option" where
  "api_requires_refusal a f agent =
     (case api_for a agent of
        None \<Rightarrow> None
      | Some transport \<Rightarrow>
          if nonempty (pf_api_endpoint f) \<noteq> None \<and> api_target (ap_op transport) f \<noteq> None then None
          else Some (RefusedGate RequiresUnmet))"

definition gate_refusal :: "action_manifest \<Rightarrow> pane_facts \<Rightarrow> string \<Rightarrow> bool \<Rightarrow> refusal option" where
  "gate_refusal a f agent force =
     (case (if force then (if requires_met f a then None else Some (RefusedGate RequiresUnmet))
            else (case evaluate_gate a (facts_gate f agent) of Fireable \<Rightarrow> None | Refused r \<Rightarrow> Some (RefusedGate r))) of
        Some r \<Rightarrow> Some r
      | None \<Rightarrow> api_requires_refusal a f agent)"

definition needs_answers :: "action_manifest \<Rightarrow> string list list option \<Rightarrow> bool" where
  "needs_answers a answers =
     list_ex (\<lambda>(_, t). takes_answers (ap_op t) \<and> is_none_or answers (\<lambda>x. x = [])) (am_api a)"

definition answers_body :: "string list list \<Rightarrow> string" where
  "answers_body answers =
     jw_buf (json_end_object (json_end_array
       (fold (\<lambda>picked j. json_end_array (fold json_raw_string picked (json_begin_array j))) answers
         (json_begin_array (json_key ''answers'' (json_begin_object json_new))))))"

definition reply_body :: "api_reply \<Rightarrow> string" where
  "reply_body reply = ''{'' @ json_text ''reply'' @ '':'' @ json_text (api_reply_token reply) @ ''}''"

definition api_request :: "api_transport \<Rightarrow> pane_facts \<Rightarrow> string list list option \<Rightarrow> (string \<times> string) option" where
  "api_request transport f answers =
     Option.bind (api_target (ap_op transport) f) (\<lambda>target.
       case ap_op transport of
         PermissionReply \<Rightarrow> map_option (\<lambda>reply. (''/permission/'' @ target @ ''/reply'', reply_body reply)) (ap_reply transport)
       | QuestionReply \<Rightarrow>
           map_option (\<lambda>picked. (''/question/'' @ target @ ''/reply'', answers_body picked)) (option_filter (\<lambda>x. x \<noteq> []) answers)
       | QuestionReject \<Rightarrow> Some (''/question/'' @ target @ ''/reject'', [])
       | Interrupt \<Rightarrow> Some (''/session/'' @ target @ ''/abort'', []))"

definition is_stale :: "u64 \<Rightarrow> u64 \<Rightarrow> bool" where
  "is_stale now stamped_at = (stamped_at = 0 \<or> now < stamped_at \<or> FRESHNESS_MS \<le> now - stamped_at)"

definition ascii_lowercase :: "string \<Rightarrow> string" where
  "ascii_lowercase s = map (\<lambda>c. if 65 \<le> byte c \<and> byte c \<le> 90 then char_of (byte c + 32) else c) s"

definition pane_gone :: "string \<Rightarrow> bool" where
  "pane_gone stderr =
     list_ex (\<lambda>needle. sublist needle (ascii_lowercase stderr)) [''can'' @ [CHR 0x27] @ ''t find pane'', ''no such pane'', ''pane not found'']"

definition io_error :: "broker_error \<Rightarrow> act_outcome" where
  "io_error e =
     (case e of
        BrokerPaneGone \<Rightarrow> OVanished GonePane
      | BrokerFailed shown stderr \<Rightarrow> if pane_gone stderr then OVanished GonePane else OError shown
      | BrokerOther text \<Rightarrow> OError text)"

section \<open>The audit record\<close>

definition ACT_LOG_SCHEMA :: int where "ACT_LOG_SCHEMA = 1"

datatype act_source = SourceCli | SourceCliYes | SourceMenu

fun act_source_token :: "act_source \<Rightarrow> string" where
  "act_source_token SourceCli = ''cli''"
| "act_source_token SourceCliYes = ''cli-yes''"
| "act_source_token SourceMenu = ''menu''"

definition act_source_parse :: "string \<Rightarrow> act_source option" where
  "act_source_parse token = find (\<lambda>x. act_source_token x = token) [SourceCli, SourceCliYes, SourceMenu]"

record audit_ctx =
  au_log :: "string option"
  au_source :: act_source
  au_all :: bool
  au_batch :: "string option"

record act_observed =
  ob_agent :: "string option"
  ob_episode_ms :: "u64 option"
  ob_pending_tool :: "string option"
  ob_pending_call :: "string option"
  ob_repeat :: u32
  ob_took_hook_lane :: bool

definition unobserved :: act_observed where
  "unobserved = \<lparr>ob_agent = None, ob_episode_ms = None, ob_pending_tool = None, ob_pending_call = None, ob_repeat = 0, ob_took_hook_lane = False\<rparr>"

definition note_facts :: "pane_facts \<Rightarrow> act_observed \<Rightarrow> act_observed" where
  "note_facts f ob =
     ob\<lparr>ob_agent := pf_agent f, ob_episode_ms := Some (pf_episode_ms f), ob_pending_tool := pf_pending_tool f,
        ob_pending_call := pf_pending_call f\<rparr>"

fun kind_token_of :: "action_kind \<Rightarrow> bool \<Rightarrow> bool \<Rightarrow> string" where
  "kind_token_of Exec api hook = ''exec''"
| "kind_token_of TextKind api hook = ''text''"
| "kind_token_of Keys api hook = (if hook then ''hook'' else if api then ''api'' else ''keys'')"

definition act_log_line ::
  "u64 \<Rightarrow> string \<Rightarrow> string \<Rightarrow> string \<Rightarrow> string \<Rightarrow> string option \<Rightarrow> act_observed \<Rightarrow> audit_ctx \<Rightarrow> string" where
  "act_log_line at pane action kind outcome reason ob ctx =
     jw_buf (json_end_object (json_option ''batch'' (au_batch ctx) (json_bool ''all'' (au_all ctx)
       (json_option ''pending_call'' (ob_pending_call ob) (json_option ''pending_tool'' (ob_pending_tool ob)
       (json_number ''repeat'' (int (ob_repeat ob))
       ((case ob_episode_ms ob of Some ms \<Rightarrow> json_number ''episode_ms'' (as_i64 ms) | None \<Rightarrow> json_null ''episode_ms'')
       (json_string ''source'' (act_source_token (au_source ctx)) (json_option ''reason'' reason
       (json_string ''outcome'' outcome (json_string ''kind'' kind (json_string ''action'' action
       (json_option ''agent'' (ob_agent ob) (json_string ''pane'' pane (json_number ''at'' (as_i64 at)
       (json_number ''schema'' ACT_LOG_SCHEMA (json_begin_object json_new)))))))))))))))))"

text \<open>The run of consecutive fires of one action in one episode.\<close>

definition parse_repeat :: "string \<Rightarrow> u64 \<Rightarrow> string \<Rightarrow> u32 option" where
  "parse_repeat stored episode_ms action =
     Option.bind (split_once (CHR '':'') stored) (\<lambda>(episode, rest).
     Option.bind (split_once (CHR '':'') rest) (\<lambda>(name, tally).
     Option.bind (parse_uint u64_max episode) (\<lambda>e.
       if e \<noteq> episode_ms \<or> name \<noteq> action then None else parse_uint u32_max tally)))"

definition next_repeat :: "string option \<Rightarrow> u64 \<Rightarrow> string \<Rightarrow> string \<times> u32" where
  "next_repeat stored episode_ms action =
     (let prior = (case Option.bind stored (\<lambda>s. parse_repeat s episode_ms action) of Some n \<Rightarrow> n | None \<Rightarrow> 0);
          tally = min u32_max (prior + 1)
      in (show_nat episode_ms @ '':'' @ action @ '':'' @ show_nat tally, tally))"

definition bump_repeat :: "'s broker_io \<Rightarrow> string \<Rightarrow> string \<Rightarrow> pane_facts \<Rightarrow> 's \<Rightarrow> u32 \<times> 's" where
  "bump_repeat io action pane f s =
     (case next_repeat (pf_act_repeat f) (pf_episode_ms f) action of
        (v, tally) \<Rightarrow> (tally, bi_set_repeat io pane f v s))"

section \<open>The environment of a child\<close>

fun numbered_args :: "nat \<Rightarrow> string list \<Rightarrow> (string \<times> string) list" where
  "numbered_args n [] = []"
| "numbered_args n (v # vs) = (''TMA_ARG_'' @ show_nat n, v) # numbered_args (Suc n) vs"

definition or_empty :: "string option \<Rightarrow> string" where
  "or_empty v = (case v of Some s \<Rightarrow> s | None \<Rightarrow> [])"

definition assemble_env ::
  "action_manifest \<Rightarrow> pane_facts \<Rightarrow> string \<Rightarrow> string \<Rightarrow> string list \<Rightarrow> (string \<times> string) list" where
  "assemble_env a f pane agent args =
     [(''TMA_PANE'', pane), (''TMA_AGENT'', agent), (''TMA_STATE'', state_token (pf_state f)),
      (''TMA_DETAIL'', or_empty (pf_detail f)), (''TMA_SESSION_ID'', or_empty (pf_session f)), (''TMA_CWD'', pf_cwd f),
      (''TMA_PID'', or_empty (pf_pid f)), (''TMA_LOCATOR'', pf_locator f), (''TMA_TITLE'', pf_title f),
      (''TMA_ACTION'', am_name a)]
     @ (case args of
          [] \<Rightarrow> []
        | first # _ \<Rightarrow> [(''TMA_ARG'', first), (''TMA_ARG_COUNT'', show_nat (length args))] @ numbered_args 1 args)"

section \<open>The effects\<close>

text \<open>The three arms of a keys action: the API lane, a parked hook, the keystrokes.\<close>

definition spend_request :: "'s broker_io \<Rightarrow> api_op \<Rightarrow> string \<Rightarrow> pane_facts \<Rightarrow> 's \<Rightarrow> 's" where
  "spend_request io op pane f =
     (case op of
        PermissionReply \<Rightarrow> bi_clear_permission io pane f
      | QuestionReply \<Rightarrow> bi_clear_question io pane f
      | QuestionReject \<Rightarrow> bi_clear_question io pane f
      | Interrupt \<Rightarrow> id)"

definition fire_api ::
  "'s broker_io \<Rightarrow> action_manifest \<Rightarrow> string \<Rightarrow> fire_args \<Rightarrow> pane_facts \<Rightarrow> api_transport \<Rightarrow> 's \<Rightarrow> act_outcome \<times> 's" where
  "fire_api io a pane args f transport s =
     (case api_request transport f (fa_answers args) of
        None \<Rightarrow> (ORefused (RefusedGate RequiresUnmet), s)
      | Some (path, body) \<Rightarrow>
          (case bi_api_call io (or_empty (pf_api_endpoint f)) path body (am_timeout_ms a) s of
             (HttpOk, s1) \<Rightarrow>
               (if answers_a_request (ap_op transport) then OReplied else OSent, spend_request io (ap_op transport) pane f s1)
           | (HttpNotFound, s1) \<Rightarrow> (OVanished GoneRequest, s1)
           | (HttpError msg, s1) \<Rightarrow> (OError msg, s1)))"

definition fire_hook ::
  "'s broker_io \<Rightarrow> string \<Rightarrow> pane_facts \<Rightarrow> hook_transport \<Rightarrow> act_observed \<Rightarrow> 's \<Rightarrow> (act_outcome \<times> act_observed) \<times> 's" where
  "fire_hook io pane f transport ob s =
     (case bi_write_verdict io (or_empty (pf_permission_request f)) (hk_verdict transport) s of
        (VerdictWritten, s1) \<Rightarrow> ((OReplied, ob\<lparr>ob_took_hook_lane := True\<rparr>), bi_clear_permission io pane f s1)
      | (VerdictExists, s1) \<Rightarrow> ((OVanished GoneRequest, ob), s1)
      | (VerdictError msg, s1) \<Rightarrow> ((OError msg, ob), s1))"

definition sent_outcome :: "(broker_error + unit) \<Rightarrow> act_outcome" where
  "sent_outcome r = (case r of Inl e \<Rightarrow> io_error e | Inr _ \<Rightarrow> OSent)"

definition fire_keys ::
  "'s broker_io \<Rightarrow> action_manifest \<Rightarrow> string \<Rightarrow> fire_args \<Rightarrow> string \<Rightarrow> pane_facts \<Rightarrow> act_observed \<Rightarrow> 's
     \<Rightarrow> (act_outcome \<times> act_observed) \<times> 's" where
  "fire_keys io a pane args agent f ob s =
     (case api_for a agent of
        Some transport \<Rightarrow> map_prod (\<lambda>r. (r, ob)) id (fire_api io a pane args f transport s)
      | None \<Rightarrow>
          (case (case hook_for a agent of
                   None \<Rightarrow> (None, s)
                 | Some transport \<Rightarrow>
                     (case bi_hook_pending io (or_empty (pf_permission_request f)) s of
                        (pending, s1) \<Rightarrow> (if pending then Some transport else None, s1))) of
             (Some transport, s1) \<Rightarrow> fire_hook io pane f transport ob s1
           | (None, s1) \<Rightarrow>
               map_prod (\<lambda>r. (sent_outcome r, ob)) id
                 (bi_send_keys io pane (case keys_for a agent of Some seq \<Rightarrow> seq | None \<Rightarrow> []) s1)))"

definition fire_text ::
  "'s broker_io \<Rightarrow> action_manifest \<Rightarrow> string \<Rightarrow> fire_args \<Rightarrow> string \<Rightarrow> 's \<Rightarrow> act_outcome \<times> 's" where
  "fire_text io a pane args agent s =
     (case text_for a agent of
        None \<Rightarrow> (ORefused (RefusedGate WrongAgent), s)
      | Some transport \<Rightarrow>
          map_prod sent_outcome id (bi_send_text io pane (tx_prefix transport) (or_empty (fa_text args)) (tx_suffix transport) s))"

definition fire_exec ::
  "'s broker_io \<Rightarrow> action_manifest \<Rightarrow> string \<Rightarrow> fire_args \<Rightarrow> string \<Rightarrow> pane_facts \<Rightarrow> 's \<Rightarrow> act_outcome \<times> 's" where
  "fire_exec io a pane args agent f s =
     map_prod (\<lambda>r. case r of ExecExited code \<Rightarrow> OExited code | ExecTimeout \<Rightarrow> OTimeout | ExecSpawnError msg \<Rightarrow> OError msg) id
       (bi_exec io (or_empty (am_command a)) (assemble_env a f pane agent (fa_args args)) (am_timeout_ms a) s)"

definition fire_effect ::
  "'s broker_io \<Rightarrow> action_manifest \<Rightarrow> string \<Rightarrow> fire_args \<Rightarrow> string \<Rightarrow> pane_facts \<Rightarrow> act_observed \<Rightarrow> 's
     \<Rightarrow> (act_outcome \<times> act_observed) \<times> 's" where
  "fire_effect io a pane args agent f ob s =
     (case am_kind a of
        Keys \<Rightarrow> fire_keys io a pane args agent f ob s
      | TextKind \<Rightarrow> map_prod (\<lambda>r. (r, ob)) id (fire_text io a pane args agent s)
      | Exec \<Rightarrow> map_prod (\<lambda>r. (r, ob)) id (fire_exec io a pane args agent f s))"

section \<open>The sequence\<close>

text \<open>The read under the held lock: what was found refused, or the facts to act on with the run counted.\<close>

definition recheck_under_lock ::
  "'s broker_io \<Rightarrow> action_manifest \<Rightarrow> string \<Rightarrow> fire_args \<Rightarrow> string \<Rightarrow> act_observed \<Rightarrow> 's
     \<Rightarrow> ((act_outcome + pane_facts) \<times> act_observed) \<times> 's" where
  "recheck_under_lock io a pane args agent ob s =
     (case bi_read io pane s of
        (Inl e, s1) \<Rightarrow> ((Inl (io_error e), ob), s1)
      | (Inr None, s1) \<Rightarrow> ((Inl (OVanished GonePane), ob), s1)
      | (Inr (Some f), s1) \<Rightarrow>
          (let ob = note_facts f ob in
           if pf_agent f \<noteq> Some agent \<or> \<not> applies_to a agent then ((Inl (ORefused (RefusedGate WrongAgent)), ob), s1)
           else (case gate_refusal a f agent (fa_force args) of
                   Some r \<Rightarrow> ((Inl (ORefused r), ob), s1)
                 | None \<Rightarrow>
                     (case binder_refusal f args of
                        Some r \<Rightarrow> ((Inl (ORefused r), ob), s1)
                      | None \<Rightarrow>
                          (case bump_repeat io (am_name a) pane f s1 of
                             (tally, s2) \<Rightarrow> ((Inr f, ob\<lparr>ob_repeat := tally\<rparr>), s2))))))"

definition act_under_lock ::
  "'s broker_io \<Rightarrow> action_manifest \<Rightarrow> string \<Rightarrow> fire_args \<Rightarrow> string \<Rightarrow> act_observed \<Rightarrow> 's
     \<Rightarrow> (act_outcome \<times> act_observed) \<times> 's" where
  "act_under_lock io a pane args agent ob s =
     (case recheck_under_lock io a pane args agent ob s of
        ((Inl outcome, ob), s1) \<Rightarrow> ((outcome, ob), s1)
      | ((Inr f, ob), s1) \<Rightarrow> fire_effect io a pane args agent f ob s1)"

definition supervisor_of ::
  "action_manifest \<Rightarrow> string \<Rightarrow> fire_args \<Rightarrow> string \<Rightarrow> pane_facts \<Rightarrow> lock_value \<Rightarrow> supervisor_spec" where
  "supervisor_of a pane args agent f v =
     \<lparr>sv_pane_id = pane, sv_nonce = lk_nonce v, sv_expiry_ms = lk_expiry_ms v, sv_action = am_name a, sv_agent = agent,
      sv_command = or_empty (am_command a), sv_detach_timeout_ms = am_detach_timeout_ms a,
      sv_env = assemble_env a f pane agent (fa_args args)\<rparr>"

definition spawn_detached_under_lock ::
  "'s broker_io \<Rightarrow> action_manifest \<Rightarrow> string \<Rightarrow> fire_args \<Rightarrow> string \<Rightarrow> lock_value \<Rightarrow> act_observed \<Rightarrow> 's
     \<Rightarrow> (act_outcome \<times> act_observed) \<times> 's" where
  "spawn_detached_under_lock io a pane args agent v ob s =
     (case recheck_under_lock io a pane args agent ob s of
        ((Inl outcome, ob), s1) \<Rightarrow> ((outcome, ob), s1)
      | ((Inr f, ob), s1) \<Rightarrow>
          (case bi_spawn io (supervisor_of a pane args agent f v) s1 of
             (Inr _, s2) \<Rightarrow> ((OSpawned, ob), s2)
           | (Inl msg, s2) \<Rightarrow> ((OError msg, ob), s2)))"

text \<open>The rendering of a failed read of the random source; the system's own message after it is not modelled.\<close>

definition RNG_TEXT :: string where "RNG_TEXT = ''cannot read a 128-bit lock nonce from /dev/urandom: ''"

text \<open>The act under the lock and the release, which a spawned supervisor takes over.\<close>

definition act_locked ::
  "'s broker_io \<Rightarrow> action_manifest \<Rightarrow> string \<Rightarrow> fire_args \<Rightarrow> string \<Rightarrow> lock_value \<Rightarrow> act_observed \<Rightarrow> 's
     \<Rightarrow> (act_outcome \<times> act_observed) \<times> 's" where
  "act_locked io a pane args agent v ob s =
     (if am_detach a then
        (case spawn_detached_under_lock io a pane args agent v ob s of
           ((outcome, ob), s1) \<Rightarrow>
             ((outcome, ob), if outcome = OSpawned then s1 else snd (bi_clear io pane (lk_nonce v) s1)))
      else
        (case act_under_lock io a pane args agent ob s of
           ((outcome, ob), s1) \<Rightarrow> ((outcome, ob), snd (bi_clear io pane (lk_nonce v) s1))))"

definition acquire_and_act ::
  "'s broker_io \<Rightarrow> action_manifest \<Rightarrow> string \<Rightarrow> fire_args \<Rightarrow> string \<Rightarrow> u64 \<Rightarrow> act_observed \<Rightarrow> 's
     \<Rightarrow> (act_outcome \<times> act_observed) \<times> 's" where
  "acquire_and_act io a pane args agent now ob s =
     (let bound = (if am_detach a then am_detach_timeout_ms a else am_timeout_ms a);
          expiry = sat_add (sat_add now bound) SLACK_MS
      in case bi_acquire io pane now expiry (am_name a) s of
           (Inr (Acquired v), s1) \<Rightarrow> act_locked io a pane args agent v ob s1
         | (Inr Contended, s1) \<Rightarrow> ((ORefused RefusedLocked, ob), s1)
         | (Inl (LockTmux e), s1) \<Rightarrow> ((io_error e, ob), s1)
         | (Inl LockRng, s1) \<Rightarrow> ((OError RNG_TEXT, ob), s1))"

text \<open>A stale stamp is verified again before a keystroke is gated on it.\<close>

definition fresh_facts ::
  "'s broker_io \<Rightarrow> action_manifest \<Rightarrow> string \<Rightarrow> bool \<Rightarrow> u64 \<Rightarrow> pane_facts \<Rightarrow> act_observed \<Rightarrow> 's
     \<Rightarrow> ((act_outcome + pane_facts) \<times> act_observed) \<times> 's" where
  "fresh_facts io a pane force now f ob s =
     (if sends_keystrokes (am_kind a) \<and> \<not> force \<and> is_stale now (pf_stamped_at f) then
        (case bi_reverify io pane s of
           (Inl e, s1) \<Rightarrow> ((Inl (io_error e), ob), s1)
         | (Inr _, s1) \<Rightarrow>
             (case bi_read io pane s1 of
                (Inl e, s2) \<Rightarrow> ((Inl (io_error e), ob), s2)
              | (Inr None, s2) \<Rightarrow> ((Inl (OVanished GonePane), ob), s2)
              | (Inr (Some g), s2) \<Rightarrow> ((Inr g, note_facts g ob), s2)))
      else ((Inr f, ob), s))"

definition payload_refusal :: "action_manifest \<Rightarrow> fire_args \<Rightarrow> text_refusal option" where
  "payload_refusal a args =
     (case (if am_kind a = TextKind then check_text a (or_empty (fa_text args)) else Inr ()) of
        Inl r \<Rightarrow> Some r
      | Inr _ \<Rightarrow> if needs_answers a (fa_answers args) then Some TEmpty else None)"

definition act_sequence ::
  "'s broker_io \<Rightarrow> action_manifest \<Rightarrow> string \<Rightarrow> fire_args \<Rightarrow> 's \<Rightarrow> (act_outcome \<times> act_observed) \<times> 's" where
  "act_sequence io a pane args s =
     (case payload_refusal a args of
        Some r \<Rightarrow> ((ORefused (RefusedPayload r), unobserved), s)
      | None \<Rightarrow>
          (case bi_now io s of (now, s1) \<Rightarrow>
          (case bi_read io pane s1 of
             (Inl e, s2) \<Rightarrow> ((io_error e, unobserved), s2)
           | (Inr None, s2) \<Rightarrow> ((OVanished GonePane, unobserved), s2)
           | (Inr (Some f), s2) \<Rightarrow>
               (case option_filter (applies_to a) (pf_agent f) of
                  None \<Rightarrow> ((ORefused (RefusedGate WrongAgent), note_facts f unobserved), s2)
                | Some agent \<Rightarrow>
                    (case fresh_facts io a pane (fa_force args) now f (note_facts f unobserved) s2 of
                       ((Inl outcome, ob), s3) \<Rightarrow> ((outcome, ob), s3)
                     | ((Inr g, ob), s3) \<Rightarrow>
                         (case gate_refusal a g agent (fa_force args) of
                            Some r \<Rightarrow> ((ORefused r, ob), s3)
                          | None \<Rightarrow> acquire_and_act io a pane args agent now ob s3))))))"

definition act_observed_of ::
  "'s broker_io \<Rightarrow> action_manifest \<Rightarrow> string \<Rightarrow> fire_args \<Rightarrow> 's \<Rightarrow> (act_result \<times> act_observed) \<times> 's" where
  "act_observed_of io a pane args s =
     map_prod (map_prod (\<lambda>outcome. \<lparr>ar_action = am_name a, ar_pane = pane, ar_outcome = outcome\<rparr>) id) id
       (act_sequence io a pane args s)"

definition act :: "'s broker_io \<Rightarrow> action_manifest \<Rightarrow> string \<Rightarrow> fire_args \<Rightarrow> 's \<Rightarrow> act_result \<times> 's" where
  "act io a pane args s = map_prod fst id (act_observed_of io a pane args s)"

text \<open>The line \<open>fire\<close> appends to the configured log, whatever the outcome.\<close>

definition audit_line :: "action_manifest \<Rightarrow> string \<Rightarrow> act_result \<Rightarrow> act_observed \<Rightarrow> audit_ctx \<Rightarrow> u64 \<Rightarrow> string" where
  "audit_line a pane result ob ctx now =
     act_log_line now pane (am_name a)
       (kind_token_of (am_kind a) (is_some_and (ob_agent ob) (\<lambda>agent. api_for a agent \<noteq> None)) (ob_took_hook_lane ob))
       (outcome_token (ar_outcome result)) (outcome_reason (ar_outcome result)) ob ctx"

definition fire ::
  "'s broker_io \<Rightarrow> action_manifest \<Rightarrow> string \<Rightarrow> fire_args \<Rightarrow> audit_ctx \<Rightarrow> 's
     \<Rightarrow> (act_result \<times> (string \<times> string) option) \<times> 's" where
  "fire io a pane args ctx s =
     (case act_observed_of io a pane args s of ((result, ob), s1) \<Rightarrow>
        (case au_log ctx of
           None \<Rightarrow> ((result, None), s1)
         | Some path \<Rightarrow>
             (case bi_now io s1 of (now, s2) \<Rightarrow> ((result, Some (path, audit_line a pane result ob ctx now)), s2))))"

end
