(* ===== verification/Action_Surface.thy ===== *)
theory Action_Surface
  imports Action_Broker
begin

text \<open>
  The read-only surfaces of the broker (\<open>broker/surface.rs\<close>): the dry run and the fireability of a list of
  actions. They read the pane and peek at the lock; nothing else of the seam is called. Definitions only.
\<close>

section \<open>Dry run\<close>

record context_value =
  cx_name :: string
  cx_value :: string
  cx_age_ms :: "u64 option"

datatype dry_gate = DryFireable | DryRefused refusal | DryVanished

datatype dry_effect =
    FxKeys "string list"
  | FxApi string string string "string option"
  | FxHook string string
  | FxCommand string
  | FxText "string list" "string list"
  | FxNone

record dry_run_result =
  dy_action :: string
  dy_pane :: string
  dy_agent :: "string option"
  dy_context :: "context_value list"
  dy_gate :: dry_gate
  dy_effect :: dry_effect

definition resolve_context :: "action_manifest \<Rightarrow> pane_facts \<Rightarrow> string \<Rightarrow> u64 \<Rightarrow> context_value list" where
  "resolve_context a f pane now =
     (let age = (if pf_stamped_at f \<noteq> 0 \<and> pf_stamped_at f \<le> now then Some (now - pf_stamped_at f) else None);
          stamped = (\<lambda>name v. \<lparr>cx_name = name, cx_value = v, cx_age_ms = age\<rparr>);
          live = (\<lambda>name v. \<lparr>cx_name = name, cx_value = v, cx_age_ms = None\<rparr>)
      in [live ''TMA_PANE'' pane, stamped ''TMA_AGENT'' (or_empty (pf_agent f)), stamped ''TMA_STATE'' (state_token (pf_state f)),
          stamped ''TMA_DETAIL'' (or_empty (pf_detail f)), stamped ''TMA_SESSION_ID'' (or_empty (pf_session f)),
          live ''TMA_CWD'' (pf_cwd f), stamped ''TMA_PID'' (or_empty (pf_pid f)), live ''TMA_LOCATOR'' (pf_locator f),
          live ''TMA_TITLE'' (pf_title f), live ''TMA_ACTION'' (am_name a)])"

definition UNRESOLVED :: string where "UNRESOLVED = ''(unresolved)''"

definition hook_effect :: "'s broker_io \<Rightarrow> action_manifest \<Rightarrow> pane_facts \<Rightarrow> string \<Rightarrow> 's \<Rightarrow> dry_effect option \<times> 's" where
  "hook_effect io a f agent s =
     (case (hook_for a agent, pf_permission_request f) of
        (Some transport, Some request) \<Rightarrow>
          (case bi_hook_pending io request s of
             (pending, s1) \<Rightarrow> (if pending then Some (FxHook request (hook_verdict_token (hk_verdict transport))) else None, s1))
      | _ \<Rightarrow> (None, s))"

definition api_effect :: "api_transport \<Rightarrow> pane_facts \<Rightarrow> dry_effect" where
  "api_effect t f =
     FxApi (case pf_api_endpoint f of Some e \<Rightarrow> e | None \<Rightarrow> UNRESOLVED)
       (case api_request t f (Some [[]]) of Some (path, _) \<Rightarrow> path | None \<Rightarrow> UNRESOLVED)
       (api_op_token (ap_op t)) (map_option api_reply_token (ap_reply t))"

definition keys_effect :: "'s broker_io \<Rightarrow> action_manifest \<Rightarrow> pane_facts \<Rightarrow> string \<Rightarrow> 's \<Rightarrow> dry_effect \<times> 's" where
  "keys_effect io a f agent s =
     (case api_for a agent of
        Some t \<Rightarrow> (api_effect t f, s)
      | None \<Rightarrow>
          (case hook_effect io a f agent s of
             (Some e, s1) \<Rightarrow> (e, s1)
           | (None, s1) \<Rightarrow> (case keys_for a agent of Some seq \<Rightarrow> FxKeys seq | None \<Rightarrow> FxNone, s1)))"

definition dry_effect_of :: "'s broker_io \<Rightarrow> action_manifest \<Rightarrow> pane_facts \<Rightarrow> 's \<Rightarrow> dry_effect \<times> 's" where
  "dry_effect_of io a f s =
     (case am_kind a of
        Keys \<Rightarrow> (case pf_agent f of Some agent \<Rightarrow> keys_effect io a f agent s | None \<Rightarrow> (FxNone, s))
      | TextKind \<Rightarrow>
          (case Option.bind (pf_agent f) (text_for a) of
             Some t \<Rightarrow> FxText (tx_prefix t) (tx_suffix t) | None \<Rightarrow> FxNone, s)
      | Exec \<Rightarrow> (FxCommand (or_empty (am_command a)), s))"

text \<open>The gate on the stored stamp; a held lock is asked for last, and a failed peek leaves the verdict alone.\<close>

definition dry_gate_of :: "'s broker_io \<Rightarrow> action_manifest \<Rightarrow> pane_facts \<Rightarrow> string \<Rightarrow> u64 \<Rightarrow> 's \<Rightarrow> dry_gate \<times> 's" where
  "dry_gate_of io a f pane now s =
     (case option_filter (applies_to a) (pf_agent f) of
        None \<Rightarrow> (DryRefused (RefusedGate WrongAgent), s)
      | Some agent \<Rightarrow>
          (case evaluate_gate a (facts_gate f agent) of
             Refused r \<Rightarrow> (DryRefused (RefusedGate r), s)
           | Fireable \<Rightarrow>
               (case api_requires_refusal a f agent of
                  Some r \<Rightarrow> (DryRefused r, s)
                | None \<Rightarrow>
                    (case bi_lock_held io pane now s of
                       (Inr True, s1) \<Rightarrow> (DryRefused RefusedLocked, s1)
                     | (_, s1) \<Rightarrow> (DryFireable, s1)))))"

definition dry_run :: "'s broker_io \<Rightarrow> action_manifest \<Rightarrow> string \<Rightarrow> 's \<Rightarrow> dry_run_result \<times> 's" where
  "dry_run io a pane s =
     (case bi_now io s of (now, s1) \<Rightarrow>
        (case bi_read io pane s1 of
           (Inr (Some f), s2) \<Rightarrow>
             (case dry_gate_of io a f pane now s2 of (g, s3) \<Rightarrow>
             (case dry_effect_of io a f s3 of (e, s4) \<Rightarrow>
                (\<lparr>dy_action = am_name a, dy_pane = pane, dy_agent = pf_agent f, dy_context = resolve_context a f pane now,
                  dy_gate = g, dy_effect = e\<rparr>, s4)))
         | (_, s2) \<Rightarrow>
             (\<lparr>dy_action = am_name a, dy_pane = pane, dy_agent = None, dy_context = [], dy_gate = DryVanished, dy_effect = FxNone\<rparr>, s2)))"

section \<open>Fireability\<close>

definition list_verdict :: "pane_facts \<Rightarrow> bool \<Rightarrow> action_manifest \<Rightarrow> refusal option" where
  "list_verdict f held a =
     (case option_filter (applies_to a) (pf_agent f) of
        None \<Rightarrow> Some (RefusedGate WrongAgent)
      | Some agent \<Rightarrow>
          (case evaluate_gate a (facts_gate f agent) of
             Refused r \<Rightarrow> Some (RefusedGate r)
           | Fireable \<Rightarrow>
               (case api_requires_refusal a f agent of
                  Some r \<Rightarrow> Some r
                | None \<Rightarrow> if held then Some RefusedLocked else None)))"

definition list_fireability ::
  "'s broker_io \<Rightarrow> action_manifest list \<Rightarrow> string \<Rightarrow> 's \<Rightarrow> (broker_error + refusal option list option) \<times> 's" where
  "list_fireability io actions pane s =
     (case bi_now io s of (now, s1) \<Rightarrow>
        (case bi_read io pane s1 of
           (Inl e, s2) \<Rightarrow> (Inl e, s2)
         | (Inr None, s2) \<Rightarrow> (Inr None, s2)
         | (Inr (Some f), s2) \<Rightarrow>
             (case bi_lock_held io pane now s2 of
                (Inl e, s3) \<Rightarrow> (Inl e, s3)
              | (Inr held, s3) \<Rightarrow> (Inr (Some (map (list_verdict f held) actions)), s3))))"

end
