(* ===== verification/Broker_Tmux.thy ===== *)
theory Broker_Tmux
  imports Action_Broker Metadata_Binding Agent_Manifest
begin

text \<open>
  The broker's seam over a tmux server (\<open>broker/tmux_io.rs\<close>): the facts of a pane from its options, with every
  value validated at the read, and the housekeeping writes bound to the pane the facts describe. The
  re-verification is the poll cycle's own capture, a parameter. Definitions only.
\<close>

definition valid_session :: "string \<Rightarrow> bool" where
  "valid_session s = (s \<noteq> [] \<and> list_all (\<lambda>c. is_alnum c \<or> is_upper c \<or> c = CHR ''_'' \<or> c = CHR ''-'') s)"

definition is_graphic :: "char \<Rightarrow> bool" where
  "is_graphic c = (33 \<le> byte c \<and> byte c \<le> 126)"

definition valid_endpoint :: "string \<Rightarrow> bool" where
  "valid_endpoint e = (strip_prefix ''http://'' e \<noteq> None \<and> list_all is_graphic e)"

definition program_action_current :: "process_reader \<Rightarrow> pane_record \<Rightarrow> bool" where
  "program_action_current reader r =
     (let program = metadata_from_options (pr_options r) in
      if \<not> pm_program_origin program then True
      else (case pm_owner program of
              None \<Rightarrow> False
            | Some w \<Rightarrow>
                program_out_of_scope (pr_current_command r) = None
                \<and> sample_process_chain reader (pr_pane_pid r) (pi_pid (chain_agent (po_processes w))) = Inr (po_processes w)))"

text \<open>What is taken off the options before the facts are read from them.\<close>

definition checked_options :: "process_reader \<Rightarrow> pane_record \<Rightarrow> options" where
  "checked_options reader r =
     (let opts = (if program_action_current reader r then pr_options r
                  else (pr_options r)(OPT_STATE := None, OPT_PID := None))
      in if live_for_actions reader opts then opts
         else (\<lambda>key. if key \<in> set METADATA_KEYS then None else opts key))"

definition manifest_covers_context :: "'re loaded_manifest list \<Rightarrow> string \<Rightarrow> bool" where
  "manifest_covers_context manifests agent =
     is_some_and (find (\<lambda>m. lm_name m = agent) manifests) (\<lambda>m. covers_context (lm_manifest m))"

definition text_option :: "options \<Rightarrow> string \<Rightarrow> string option" where
  "text_option opts key = option_filter (\<lambda>v. v \<noteq> []) (opts key)"

definition option_number :: "nat \<Rightarrow> options \<Rightarrow> string \<Rightarrow> nat" where
  "option_number mx opts key = (case Option.bind (text_option opts key) (parse_uint mx) of Some n \<Rightarrow> n | None \<Rightarrow> 0)"

definition build_facts :: "pane_record \<Rightarrow> options \<Rightarrow> u64 \<Rightarrow> string \<Rightarrow> bool \<Rightarrow> string option \<Rightarrow> pane_facts" where
  "build_facts r opts now cwd covered endpoint =
     (let current = current_state opts now;
          usable = (current \<noteq> None \<and> \<not> is_ignored opts)
      in \<lparr>pf_agent = option_filter (\<lambda>_. usable \<or> \<not> pm_program_origin (metadata_from_options opts)) (text_option opts OPT_NAME),
          pf_state = (case option_filter (\<lambda>_. usable) current of Some s \<Rightarrow> sp_state s | None \<Rightarrow> Unknown),
          pf_detail = text_option opts OPT_DETAIL,
          pf_session = option_filter valid_session (text_option opts OPT_SESSION),
          pf_cwd = cwd,
          pf_pid = option_filter (\<lambda>v. usable \<and> v \<noteq> ''0'') (text_option opts OPT_PID),
          pf_title = pr_title r,
          pf_locator = locator r,
          pf_stamped_at = option_number u64_max opts OPT_STAMPED_AT,
          pf_context_pct = Option.bind (text_option opts OPT_CONTEXT_PCT) (parse_uint u8_max),
          pf_context_covered = covered,
          pf_permission_request = option_filter valid_session (text_option opts OPT_PERMISSION_REQUEST),
          pf_question_request = option_filter valid_session (text_option opts OPT_QUESTION_REQUEST),
          pf_api_endpoint = option_filter valid_endpoint endpoint,
          pf_episode_ms = max (option_number u64_max opts OPT_SINCE) (option_number u64_max opts OPT_TURN_AT),
          pf_pending_tool = text_option opts OPT_PENDING_TOOL,
          pf_pending_call = text_option opts OPT_PENDING_CALL,
          pf_act_repeat = text_option opts OPT_ACT_REPEAT\<rparr>)"

text \<open>The stamped endpoint wins over the configured one.\<close>

definition endpoint_of :: "(string \<Rightarrow> string option) \<Rightarrow> options \<Rightarrow> string option" where
  "endpoint_of api_base opts =
     (case text_option opts OPT_API_ENDPOINT of
        Some e \<Rightarrow> Some e
      | None \<Rightarrow> Option.bind (opts OPT_NAME) api_base)"

definition facts_of_record ::
  "'re loaded_manifest list \<Rightarrow> (string \<Rightarrow> string option) \<Rightarrow> process_reader \<Rightarrow> pane_record \<Rightarrow> string \<Rightarrow> u64 \<Rightarrow> pane_facts" where
  "facts_of_record manifests api_base reader r cwd now =
     (let opts = checked_options reader r
      in build_facts r opts now cwd (is_some_and (opts OPT_NAME) (manifest_covers_context manifests)) (endpoint_of api_base opts))"

definition read_facts ::
  "'s surface \<Rightarrow> 're loaded_manifest list \<Rightarrow> (string \<Rightarrow> string option) \<Rightarrow> string \<Rightarrow> ('s, pane_facts option) io" where
  "read_facts sf manifests api_base pane =
     io_bind (list_panes (sf_run sf)) (\<lambda>panes.
       case find (\<lambda>r. pr_pane_id r = pane) panes of
         None \<Rightarrow> io_return None
       | Some r \<Rightarrow> (\<lambda>s.
           let reader = sf_processes sf s in
           case display_format (sf_run sf) pane (lookup_format ''pane_current_path'') s of (cwd, s1) \<Rightarrow>
             io_bind (clock (sf_tmux sf)) (\<lambda>now.
               io_return (Some (facts_of_record manifests api_base reader r (or_empty (ok cwd)) now))) s1))"

text \<open>Housekeeping after an act, only while the pane is still the one the facts describe.\<close>

definition facts_match :: "pane_facts \<Rightarrow> options \<Rightarrow> bool" where
  "facts_match f opts =
     (option_filter (\<lambda>v. v \<noteq> ''0'') (opts OPT_PID) = pf_pid f
      \<and> max (case number_option u64_max opts OPT_SINCE of Some n \<Rightarrow> n | None \<Rightarrow> 0)
            (case number_option u64_max opts OPT_TURN_AT of Some n \<Rightarrow> n | None \<Rightarrow> 0) = pf_episode_ms f
      \<and> opts OPT_PERMISSION_REQUEST = pf_permission_request f \<and> opts OPT_QUESTION_REQUEST = pf_question_request f)"

definition update_action_metadata ::
  "('re \<Rightarrow> nat list \<Rightarrow> bool) \<Rightarrow> 's surface \<Rightarrow> 's enumeration \<Rightarrow> string \<Rightarrow> pane_facts \<Rightarrow> option_edit list \<Rightarrow> 's \<Rightarrow> 's" where
  "update_action_metadata is_match sf pids pane f edits s =
     (case bind_metadata is_match sf pids pane (pf_session f) False s of
        (Some b, s1) \<Rightarrow> if facts_match f (rd_options (mb_read b)) then snd (write_bound sf b edits False s1) else s1
      | (None, s1) \<Rightarrow> s1)"

definition set_act_repeat where
  "set_act_repeat is_match sf pids pane f v = update_action_metadata is_match sf pids pane f [edit_set OPT_ACT_REPEAT v]"

definition clear_permission_request where
  "clear_permission_request is_match sf pids pane f = update_action_metadata is_match sf pids pane f [edit_unset OPT_PERMISSION_REQUEST]"

definition clear_question_request where
  "clear_question_request is_match sf pids pane f = update_action_metadata is_match sf pids pane f [edit_unset OPT_QUESTION_REQUEST]"

text \<open>A peek at the lock: unexpired, or its holder alive.\<close>

definition lock_held :: "(nat \<Rightarrow> bool) \<Rightarrow> 's runner \<Rightarrow> string \<Rightarrow> u64 \<Rightarrow> ('s, bool) io" where
  "lock_held exists run pane now =
     io_bind (get_option run pane OPT_ACTION) (\<lambda>stored.
       io_return (is_some_and (Option.bind stored lock_parse) (\<lambda>v. now < lk_expiry_ms v \<or> pid_alive exists (lk_pid v))))"

text \<open>What the re-verification decides before it captures: whether there is an agent to capture, and for whom.\<close>

definition reverify_target ::
  "('re \<Rightarrow> nat list \<Rightarrow> bool) \<Rightarrow> 're loaded_manifest list \<Rightarrow> pane_record \<Rightarrow> proc_info list \<Rightarrow> u64
     \<Rightarrow> ('re identified \<times> stamped_state option) option" where
  "reverify_target is_match manifests r procs now =
     (let opts = pr_options r;
          prev = current_state opts now;
          reg = (case (Option.bind prev sp_session, opts OPT_NAME) of
                   (Some session, Some name) \<Rightarrow> Some \<lparr>rg_agent_name = name, rg_session = Some session\<rparr>
                 | _ \<Rightarrow> None)
      in case identify is_match (pr_pane_pid r) (pr_current_command r) (pr_title r) procs manifests
                (Option.bind (opts OPT_TITLE_MATCH_PID) anchor_parse) reg of
           AgentPane agent \<Rightarrow>
             if if_agent_pid agent = 0
                \<or> is_live (read_projection opts now) then None
             else Some (agent, prev)
         | _ \<Rightarrow> None)"

end
