(* ===== verification/Broker_Properties.thy ===== *)
theory Broker_Properties
  imports Action_Surface
begin

text \<open>
  What a fire guarantees. Every call over the seam is written into a journal, for any seam; the theorems speak of
  the journal: which calls were made, in which order, and what they answered.
\<close>

section \<open>The journal\<close>

datatype broker_call =
    CallNow u64
  | CallRead string "broker_error + pane_facts option"
  | CallReverify string
  | CallPending string bool
  | CallRepeat string pane_facts string
  | CallSpend string
  | CallLockHeld string
  | CallAcquire string string "broker_error lock_error + acquire"
  | CallClear string string
  | CallKeys string "string list"
  | CallText string "string list" string "string list"
  | CallApi string string string
  | CallVerdict string hook_verdict
  | CallSpawn supervisor_spec "string + unit"
  | CallExec string "(string \<times> string) list"

definition call_logged :: "('r \<Rightarrow> broker_call) \<Rightarrow> ('s \<Rightarrow> 'r \<times> 's) \<Rightarrow> 's \<times> broker_call list \<Rightarrow> 'r \<times> 's \<times> broker_call list" where
  "call_logged ev f x = (case f (fst x) of (r, s) \<Rightarrow> (r, s, snd x @ [ev r]))"

definition write_logged :: "broker_call \<Rightarrow> ('s \<Rightarrow> 's) \<Rightarrow> 's \<times> broker_call list \<Rightarrow> 's \<times> broker_call list" where
  "write_logged ev f x = (f (fst x), snd x @ [ev])"

definition with_journal :: "'s broker_io \<Rightarrow> ('s \<times> broker_call list) broker_io" where
  "with_journal io =
     \<lparr>bi_now = call_logged CallNow (bi_now io),
      bi_read = (\<lambda>p. call_logged (CallRead p) (bi_read io p)),
      bi_reverify = (\<lambda>p. call_logged (\<lambda>_. CallReverify p) (bi_reverify io p)),
      bi_send_keys = (\<lambda>p ks. call_logged (\<lambda>_. CallKeys p ks) (bi_send_keys io p ks)),
      bi_send_text = (\<lambda>p pre t suf. call_logged (\<lambda>_. CallText p pre t suf) (bi_send_text io p pre t suf)),
      bi_api_call = (\<lambda>e path body ms. call_logged (\<lambda>_. CallApi e path body) (bi_api_call io e path body ms)),
      bi_hook_pending = (\<lambda>r. call_logged (CallPending r) (bi_hook_pending io r)),
      bi_write_verdict = (\<lambda>r v. call_logged (\<lambda>_. CallVerdict r v) (bi_write_verdict io r v)),
      bi_set_repeat = (\<lambda>p f v. write_logged (CallRepeat p f v) (bi_set_repeat io p f v)),
      bi_clear_permission = (\<lambda>p f. write_logged (CallSpend p) (bi_clear_permission io p f)),
      bi_clear_question = (\<lambda>p f. write_logged (CallSpend p) (bi_clear_question io p f)),
      bi_acquire = (\<lambda>p t0 t1 a. call_logged (CallAcquire p a) (bi_acquire io p t0 t1 a)),
      bi_clear = (\<lambda>p n. call_logged (\<lambda>_. CallClear p n) (bi_clear io p n)),
      bi_spawn = (\<lambda>spec. call_logged (CallSpawn spec) (bi_spawn io spec)),
      bi_lock_held = (\<lambda>p t. call_logged (\<lambda>_. CallLockHeld p) (bi_lock_held io p t)),
      bi_exec = (\<lambda>c env ms. call_logged (\<lambda>_. CallExec c env) (bi_exec io c env ms))\<rparr>"

lemma with_journal_simps [simp]:
  "bi_now (with_journal io) = call_logged CallNow (bi_now io)"
  "bi_read (with_journal io) p = call_logged (CallRead p) (bi_read io p)"
  "bi_reverify (with_journal io) p = call_logged (\<lambda>_. CallReverify p) (bi_reverify io p)"
  "bi_send_keys (with_journal io) p ks = call_logged (\<lambda>_. CallKeys p ks) (bi_send_keys io p ks)"
  "bi_send_text (with_journal io) p pre t suf = call_logged (\<lambda>_. CallText p pre t suf) (bi_send_text io p pre t suf)"
  "bi_api_call (with_journal io) e path body ms = call_logged (\<lambda>_. CallApi e path body) (bi_api_call io e path body ms)"
  "bi_hook_pending (with_journal io) r = call_logged (CallPending r) (bi_hook_pending io r)"
  "bi_write_verdict (with_journal io) r v = call_logged (\<lambda>_. CallVerdict r v) (bi_write_verdict io r v)"
  "bi_set_repeat (with_journal io) p f w = write_logged (CallRepeat p f w) (bi_set_repeat io p f w)"
  "bi_clear_permission (with_journal io) p f = write_logged (CallSpend p) (bi_clear_permission io p f)"
  "bi_clear_question (with_journal io) p f = write_logged (CallSpend p) (bi_clear_question io p f)"
  "bi_acquire (with_journal io) p t0 t1 a = call_logged (CallAcquire p a) (bi_acquire io p t0 t1 a)"
  "bi_clear (with_journal io) p n = call_logged (\<lambda>_. CallClear p n) (bi_clear io p n)"
  "bi_spawn (with_journal io) spec = call_logged (CallSpawn spec) (bi_spawn io spec)"
  "bi_exec (with_journal io) c env ms = call_logged (\<lambda>_. CallExec c env) (bi_exec io c env ms)"
  by (simp_all add: with_journal_def)

text \<open>The run of an act with its journal.\<close>

definition act_journal ::
  "'s broker_io \<Rightarrow> action_manifest \<Rightarrow> string \<Rightarrow> fire_args \<Rightarrow> 's \<Rightarrow> act_outcome \<times> broker_call list" where
  "act_journal io a pane args s =
     (case act_sequence (with_journal io) a pane args (s, []) of ((outcome, _), _, log) \<Rightarrow> (outcome, log))"

section \<open>What a journal must look like\<close>

text \<open>The calls that reach the agent, its API, its hook, or the process table.\<close>

fun is_effect :: "broker_call \<Rightarrow> bool" where
  "is_effect (CallKeys _ _) = True"
| "is_effect (CallText _ _ _ _) = True"
| "is_effect (CallApi _ _ _) = True"
| "is_effect (CallVerdict _ _) = True"
| "is_effect (CallSpawn _ _) = True"
| "is_effect (CallExec _ _) = True"
| "is_effect _ = False"

text \<open>The effect an action may have on a pane with these facts: the one call its manifest names for the agent.\<close>

fun effect_fits :: "action_manifest \<Rightarrow> string \<Rightarrow> fire_args \<Rightarrow> pane_facts \<Rightarrow> string \<Rightarrow> broker_call \<Rightarrow> bool" where
  "effect_fits a pane args f agent (CallKeys p ks) =
     (p = pane \<and> am_kind a = Keys \<and> api_for a agent = None \<and> ks = (case keys_for a agent of Some seq \<Rightarrow> seq | None \<Rightarrow> []))"
| "effect_fits a pane args f agent (CallText p pre t suf) =
     (p = pane \<and> am_kind a = TextKind \<and> t = or_empty (fa_text args)
      \<and> is_some_and (text_for a agent) (\<lambda>x. tx_prefix x = pre \<and> tx_suffix x = suf))"
| "effect_fits a pane args f agent (CallApi e path body) =
     (am_kind a = Keys \<and> e = or_empty (pf_api_endpoint f)
      \<and> is_some_and (api_for a agent) (\<lambda>x. api_request x f (fa_answers args) = Some (path, body)))"
| "effect_fits a pane args f agent (CallVerdict request verdict) =
     (am_kind a = Keys \<and> api_for a agent = None \<and> request = or_empty (pf_permission_request f)
      \<and> is_some_and (hook_for a agent) (\<lambda>x. hk_verdict x = verdict))"
| "effect_fits a pane args f agent (CallSpawn spec _) = (am_detach a \<and> sv_pane_id spec = pane \<and> sv_agent spec = agent)"
| "effect_fits a pane args f agent (CallExec command env) =
     (am_kind a = Exec \<and> command = or_empty (am_command a) \<and> env = assemble_env a f pane agent (fa_args args))"
| "effect_fits a pane args f agent _ = False"

text \<open>Outcomes that claim nothing was done.\<close>

fun is_idle :: "act_outcome \<Rightarrow> bool" where
  "is_idle (ORefused _) = True"
| "is_idle (OVanished _) = True"
| "is_idle (OError _) = True"
| "is_idle _ = False"

fun is_look :: "string \<Rightarrow> broker_call \<Rightarrow> bool" where
  "is_look pane (CallNow _) = True"
| "is_look pane (CallRead p _) = (p = pane)"
| "is_look pane (CallReverify p) = (p = pane)"
| "is_look pane _ = False"

fun is_preparation :: "broker_call \<Rightarrow> bool" where
  "is_preparation (CallRepeat _ _ _) = True"
| "is_preparation (CallPending _ _) = True"
| "is_preparation _ = False"

text \<open>The facts an effect may rest on: read under the lock, for an agent the action applies to, with the gate
  open on them and the episode and the request the caller named.\<close>

definition cleared_facts :: "action_manifest \<Rightarrow> fire_args \<Rightarrow> pane_facts \<Rightarrow> string \<Rightarrow> bool" where
  "cleared_facts a args f agent =
     (pf_agent f = Some agent \<and> applies_to a agent \<and> gate_refusal a f agent (fa_force args) = None
      \<and> binder_refusal f args = None)"

text \<open>The calls between the read under the lock and the release.\<close>

definition effect_block ::
  "action_manifest \<Rightarrow> string \<Rightarrow> fire_args \<Rightarrow> pane_facts \<Rightarrow> act_outcome \<Rightarrow> broker_call list \<Rightarrow> bool" where
  "effect_block a pane args f outcome blk =
     (blk = [] \<and> is_idle outcome
      \<or> (\<exists>agent v prep fx rest. blk = CallRepeat pane f v # prep @ fx @ rest
           \<and> cleared_facts a args f agent \<and> list_all is_preparation prep
           \<and> length fx \<le> 1 \<and> list_all (effect_fits a pane args f agent) fx \<and> set rest \<subseteq> {CallSpend pane}
           \<and> (fx = [] \<longrightarrow> rest = [] \<and> is_idle outcome)))"

definition handed_over :: "lock_value \<Rightarrow> broker_call list \<Rightarrow> bool" where
  "handed_over v blk = (\<exists>spec before. blk = before @ [CallSpawn spec (Inr ())] \<and> sv_nonce spec = lk_nonce v)"

text \<open>The lock is released by its nonce as the last call, unless a supervisor that knows the nonce was spawned.\<close>

definition locked_block ::
  "action_manifest \<Rightarrow> string \<Rightarrow> fire_args \<Rightarrow> lock_value \<Rightarrow> act_outcome \<Rightarrow> broker_call list \<Rightarrow> bool" where
  "locked_block a pane args v outcome blk =
     (\<exists>r inner. blk = CallRead pane r # inner @ (if outcome = OSpawned then [] else [CallClear pane (lk_nonce v)])
        \<and> (case r of Inr (Some f) \<Rightarrow> effect_block a pane args f outcome inner | _ \<Rightarrow> inner = [] \<and> is_idle outcome)
        \<and> (outcome = OSpawned \<longrightarrow> handed_over v inner))"

definition guarded_journal :: "action_manifest \<Rightarrow> string \<Rightarrow> fire_args \<Rightarrow> act_outcome \<Rightarrow> broker_call list \<Rightarrow> bool" where
  "guarded_journal a pane args outcome log =
     ((payload_refusal a args = None \<or> log = [])
      \<and> (\<exists>looks. list_all (is_look pane) looks
        \<and> (log = looks \<and> is_idle outcome
           \<or> (\<exists>reply. log = looks @ [CallAcquire pane (am_name a) reply] \<and> (\<forall>v. reply \<noteq> Inr (Acquired v)) \<and> is_idle outcome)
           \<or> (\<exists>v blk. log = looks @ CallAcquire pane (am_name a) (Inr (Acquired v)) # blk
                \<and> locked_block a pane args v outcome blk))))"

section \<open>Every act keeps to it\<close>

lemma is_idle_io_error [simp]: "is_idle (io_error e)"
  by (cases e) (simp_all add: io_error_def)

lemma io_error_spawned [simp]: "io_error e \<noteq> OSpawned"
  by (cases e) (simp_all add: io_error_def)

lemma option_filter_SomeD: "option_filter P x = Some y \<Longrightarrow> x = Some y \<and> P y"
  by (cases x) (auto simp: option_filter_def split: if_splits)

text \<open>The effect of the facts, as what it appends to the journal.\<close>

definition effect_calls ::
  "action_manifest \<Rightarrow> string \<Rightarrow> fire_args \<Rightarrow> pane_facts \<Rightarrow> string \<Rightarrow> act_outcome \<Rightarrow> broker_call list \<Rightarrow> bool" where
  "effect_calls a pane args f agent outcome calls =
     (\<exists>prep fx rest. calls = prep @ fx @ rest \<and> list_all is_preparation prep \<and> length fx \<le> 1
        \<and> list_all (effect_fits a pane args f agent) fx \<and> set rest \<subseteq> {CallSpend pane}
        \<and> (fx = [] \<longrightarrow> rest = [] \<and> is_idle outcome) \<and> outcome \<noteq> OSpawned)"

lemma effect_callsI:
  "calls = prep @ fx @ rest \<Longrightarrow> list_all is_preparation prep \<Longrightarrow> length fx \<le> 1
     \<Longrightarrow> list_all (effect_fits a pane args f agent) fx \<Longrightarrow> set rest \<subseteq> {CallSpend pane}
     \<Longrightarrow> (fx = [] \<longrightarrow> rest = [] \<and> is_idle outcome) \<Longrightarrow> outcome \<noteq> OSpawned
     \<Longrightarrow> effect_calls a pane args f agent outcome calls"
  unfolding effect_calls_def by blast

lemma spend_request_log:
  "\<exists>s' rest. spend_request (with_journal io) op pane f (s, l) = (s', l @ rest) \<and> set rest \<subseteq> {CallSpend pane}"
  by (cases op) (auto simp: spend_request_def write_logged_def)

lemma fire_api_log:
  assumes "fire_api (with_journal io) a pane args f t (s, l) = (outcome, s', l')"
    and "am_kind a = Keys" and "api_for a agent = Some t"
  shows "\<exists>calls. l' = l @ calls \<and> effect_calls a pane args f agent outcome calls"
proof (cases "api_request t f (fa_answers args)")
  case None
  then show ?thesis using assms by (auto simp: fire_api_def effect_calls_def)
next
  case (Some req)
  obtain path body where req: "req = (path, body)" by (cases req)
  define call where "call = CallApi (or_empty (pf_api_endpoint f)) path body"
  have fits: "effect_fits a pane args f agent call"
    using assms(2,3) Some req by (simp add: call_def is_some_and_def)
  obtain r s1 where r: "bi_api_call io (or_empty (pf_api_endpoint f)) path body (am_timeout_ms a) s = (r, s1)"
    by (metis surj_pair)
  show ?thesis
  proof (cases r)
    case HttpOk
    obtain s2 rest where rest: "spend_request (with_journal io) (ap_op t) pane f (s1, l @ [call]) = (s2, (l @ [call]) @ rest)"
      "set rest \<subseteq> {CallSpend pane}"
      using spend_request_log[of io "ap_op t" pane f s1 "l @ [call]"] by auto
    have "l' = (l @ [call]) @ rest \<and> outcome = (if answers_a_request (ap_op t) then OReplied else OSent)"
      using assms(1) Some req r HttpOk rest(1) by (simp add: fire_api_def call_logged_def flip: call_def)
    then show ?thesis using fits rest(2)
      by (intro exI[of _ "[call] @ rest"] conjI effect_callsI[where prep = "[]" and fx = "[call]"]) auto
  qed (use assms(1) Some req r fits in
    \<open>auto simp: fire_api_def call_logged_def call_def intro!: effect_callsI[where prep = "[]" and rest = "[]"]\<close>)
qed

lemma fire_hook_log:
  assumes "fire_hook (with_journal io) pane f t ob (s, l) = ((outcome, ob'), s', l')"
    and "am_kind a = Keys" and "api_for a agent = None" and "hook_for a agent = Some t"
  shows "\<exists>calls. l' = l @ calls \<and> effect_calls a pane args f agent outcome calls"
proof -
  define call where "call = CallVerdict (or_empty (pf_permission_request f)) (hk_verdict t)"
  have fits: "effect_fits a pane args f agent call" using assms(2-4) by (simp add: call_def is_some_and_def)
  obtain r s1 where r: "bi_write_verdict io (or_empty (pf_permission_request f)) (hk_verdict t) s = (r, s1)"
    by (metis surj_pair)
  let ?rest = "if r = VerdictWritten then [CallSpend pane] else []"
  have "l' = l @ [call] @ ?rest \<and> outcome \<noteq> OSpawned"
    using assms(1) r by (cases r) (auto simp: fire_hook_def call_logged_def write_logged_def call_def)
  then show ?thesis using fits
    by (intro exI[of _ "[call] @ ?rest"] conjI effect_callsI[where prep = "[]" and fx = "[call]"]) auto
qed

lemma sent_outcome_not_spawned [simp]: "sent_outcome r \<noteq> OSpawned"
  by (simp add: sent_outcome_def split: sum.split)

lemma effect_calls_prepend:
  "effect_calls a pane args f agent outcome calls \<Longrightarrow> is_preparation c
     \<Longrightarrow> effect_calls a pane args f agent outcome (c # calls)"
  unfolding effect_calls_def by (metis append_Cons list.pred_inject(2))

lemma send_keys_log:
  assumes "am_kind a = Keys" and "api_for a agent = None"
  shows "effect_calls a pane args f agent (sent_outcome r)
           [CallKeys pane (case keys_for a agent of Some seq \<Rightarrow> seq | None \<Rightarrow> [])]"
  using assms by (intro effect_callsI[where prep = "[]" and rest = "[]"]) auto

lemma fire_keys_log:
  assumes "fire_keys (with_journal io) a pane args agent f ob (s, l) = ((outcome, ob'), s', l')" and kind: "am_kind a = Keys"
  shows "\<exists>calls. l' = l @ calls \<and> effect_calls a pane args f agent outcome calls"
proof (cases "api_for a agent")
  case (Some t)
  then have "fire_api (with_journal io) a pane args f t (s, l) = (outcome, s', l')"
    using assms(1) by (cases "fire_api (with_journal io) a pane args f t (s, l)") (simp add: fire_keys_def)
  from fire_api_log[OF this kind Some] show ?thesis .
next
  case None
  show ?thesis
  proof (cases "hook_for a agent")
    case hook: None
    have "outcome = sent_outcome (fst (bi_send_keys io pane (case keys_for a agent of Some seq \<Rightarrow> seq | None \<Rightarrow> []) s))"
      "l' = l @ [CallKeys pane (case keys_for a agent of Some seq \<Rightarrow> seq | None \<Rightarrow> [])]"
      using assms(1) None hook by (auto simp: fire_keys_def call_logged_def split: prod.splits)
    then show ?thesis using send_keys_log[OF kind None] by blast
  next
    case (Some t)
    obtain pending s1 where p: "bi_hook_pending io (or_empty (pf_permission_request f)) s = (pending, s1)" by (metis surj_pair)
    let ?c = "CallPending (or_empty (pf_permission_request f)) pending"
    have run: "(if pending then fire_hook (with_journal io) pane f t ob (s1, l @ [?c])
                else map_prod (\<lambda>r. (sent_outcome r, ob)) id
                  (call_logged (\<lambda>_. CallKeys pane (case keys_for a agent of Some seq \<Rightarrow> seq | None \<Rightarrow> []))
                    (bi_send_keys io pane (case keys_for a agent of Some seq \<Rightarrow> seq | None \<Rightarrow> [])) (s1, l @ [?c])))
               = ((outcome, ob'), s', l')"
      using assms(1) None Some p by (simp add: fire_keys_def call_logged_def split: if_splits)
    have "\<exists>calls. l' = (l @ [?c]) @ calls \<and> effect_calls a pane args f agent outcome calls"
    proof (cases pending)
      case True
      with run have "fire_hook (with_journal io) pane f t ob (s1, l @ [?c]) = ((outcome, ob'), s', l')" by simp
      from fire_hook_log[OF this kind None Some] show ?thesis .
    next
      case False
      then have "outcome = sent_outcome (fst (bi_send_keys io pane (case keys_for a agent of Some seq \<Rightarrow> seq | None \<Rightarrow> []) s1))"
        "l' = (l @ [?c]) @ [CallKeys pane (case keys_for a agent of Some seq \<Rightarrow> seq | None \<Rightarrow> [])]"
        using run by (auto simp: call_logged_def split: prod.splits)
      then show ?thesis using send_keys_log[OF kind None] by blast
    qed
    then show ?thesis using effect_calls_prepend[where c = ?c] by fastforce
  qed
qed

lemma fire_effect_log:
  assumes "fire_effect (with_journal io) a pane args agent f ob (s, l) = ((outcome, ob'), s', l')"
  shows "\<exists>calls. l' = l @ calls \<and> effect_calls a pane args f agent outcome calls"
proof (cases "am_kind a")
  case Keys
  with assms fire_keys_log[OF _ Keys] show ?thesis by (simp add: fire_effect_def)
next
  case TextKind
  show ?thesis
  proof (cases "text_for a agent")
    case None
    then have "l' = l @ []" "is_idle outcome" "outcome \<noteq> OSpawned"
      using assms TextKind by (auto simp: fire_effect_def fire_text_def)
    then show ?thesis using effect_callsI[where prep = "[]" and fx = "[]" and rest = "[]"] by fastforce
  next
    case (Some t)
    let ?c = "CallText pane (tx_prefix t) (or_empty (fa_text args)) (tx_suffix t)"
    have "l' = l @ [?c]" "outcome \<noteq> OSpawned"
      using assms TextKind Some by (auto simp: fire_effect_def fire_text_def call_logged_def split: prod.splits)
    then show ?thesis using TextKind Some
      by (intro exI[of _ "[?c]"] conjI effect_callsI[where prep = "[]" and fx = "[?c]" and rest = "[]"])
        (auto simp: is_some_and_def)
  qed
next
  case Exec
  let ?c = "CallExec (or_empty (am_command a)) (assemble_env a f pane agent (fa_args args))"
  have "l' = l @ [?c]" "outcome \<noteq> OSpawned"
    using assms Exec by (auto simp: fire_effect_def fire_exec_def call_logged_def split: prod.splits exec_outcome.splits)
  then show ?thesis using Exec
    by (intro exI[of _ "[?c]"] conjI effect_callsI[where prep = "[]" and fx = "[?c]" and rest = "[]"]) auto
qed

lemma bump_repeat_log:
  "bump_repeat (with_journal io) action pane f (s, l) = (tally, s', l')
     \<Longrightarrow> \<exists>v. l' = l @ [CallRepeat pane f v]"
  by (auto simp: bump_repeat_def write_logged_def split: prod.splits)

text \<open>The read under the lock, and the run it counts once everything is clear.\<close>

lemma recheck_log:
  assumes "recheck_under_lock (with_journal io) a pane args agent ob (s, l) = ((r, ob'), s', l')"
  shows "\<exists>reply. case r of
           Inl outcome \<Rightarrow> l' = l @ [CallRead pane reply] \<and> is_idle outcome
         | Inr f \<Rightarrow> reply = Inr (Some f) \<and> cleared_facts a args f agent
             \<and> (\<exists>v. l' = l @ [CallRead pane reply, CallRepeat pane f v])"
proof -
  obtain reply s1 where r: "bi_read io pane s = (reply, s1)" by (metis surj_pair)
  have "(case r of
           Inl outcome \<Rightarrow> l' = l @ [CallRead pane reply] \<and> is_idle outcome
         | Inr f \<Rightarrow> reply = Inr (Some f) \<and> cleared_facts a args f agent
             \<and> (\<exists>v. l' = l @ [CallRead pane reply, CallRepeat pane f v]))"
  proof (cases "\<exists>f. reply = Inr (Some f)")
    case False
    then show ?thesis using assms r
      by (cases reply) (auto simp: recheck_under_lock_def call_logged_def split: option.splits)
  next
    case True
    then obtain f where f: "reply = Inr (Some f)" by blast
    show ?thesis
    proof (cases "cleared_facts a args f agent")
      case False
      then show ?thesis using assms r f
        by (auto simp: recheck_under_lock_def call_logged_def cleared_facts_def Let_def split: if_splits option.splits)
    next
      case True
      obtain tally s2 l2 where b: "bump_repeat (with_journal io) (am_name a) pane f (s1, l @ [CallRead pane reply]) = (tally, s2, l2)"
        by (metis surj_pair)
      have "r = Inr f" "l' = l2" using assms r f True b
        by (auto simp: recheck_under_lock_def call_logged_def cleared_facts_def Let_def)
      then show ?thesis using bump_repeat_log[OF b] f True by auto
    qed
  qed
  then show ?thesis by blast
qed

lemma effect_blockI:
  assumes "cleared_facts a args f agent" and "effect_calls a pane args f agent outcome calls"
  shows "effect_block a pane args f outcome (CallRepeat pane f v # calls)"
  using assms unfolding effect_block_def effect_calls_def by blast

lemma act_under_lock_log:
  assumes "act_under_lock (with_journal io) a pane args agent ob (s, l) = ((outcome, ob'), s', l')"
  shows "\<exists>reply inner. l' = l @ CallRead pane reply # inner \<and> outcome \<noteq> OSpawned
           \<and> (case reply of Inr (Some f) \<Rightarrow> effect_block a pane args f outcome inner | _ \<Rightarrow> inner = [] \<and> is_idle outcome)"
proof -
  obtain r ob1 s1 l1 where run: "recheck_under_lock (with_journal io) a pane args agent ob (s, l) = ((r, ob1), s1, l1)"
    by (metis surj_pair)
  obtain reply where log: "case r of
           Inl outcome \<Rightarrow> l1 = l @ [CallRead pane reply] \<and> is_idle outcome
         | Inr f \<Rightarrow> reply = Inr (Some f) \<and> cleared_facts a args f agent
             \<and> (\<exists>v. l1 = l @ [CallRead pane reply, CallRepeat pane f v])"
    using recheck_log[OF run] by blast
  show ?thesis
  proof (cases r)
    case (Inl x)
    then have "l' = l @ CallRead pane reply # []" "is_idle outcome"
      using assms run log by (auto simp: act_under_lock_def)
    then show ?thesis by (intro exI[of _ reply] exI[of _ "[]"]) (cases outcome; auto simp: effect_block_def split: sum.split option.split)
  next
    case (Inr f)
    then have fx: "fire_effect (with_journal io) a pane args agent f ob1 (s1, l1) = ((outcome, ob'), s', l')"
      using assms run by (simp add: act_under_lock_def)
    obtain v where l1: "l1 = l @ [CallRead pane reply, CallRepeat pane f v]" and ok: "cleared_facts a args f agent"
      and reply: "reply = Inr (Some f)" using log Inr by auto
    obtain calls where calls: "l' = l1 @ calls" "effect_calls a pane args f agent outcome calls"
      using fire_effect_log[OF fx] by blast
    from calls(2) have "outcome \<noteq> OSpawned" by (auto simp: effect_calls_def)
    then show ?thesis using effect_blockI[OF ok calls(2)] calls(1) l1 reply
      by (intro exI[of _ reply] exI[of _ "CallRepeat pane f v # calls"]) simp
  qed
qed

lemma spawn_detached_log:
  assumes "spawn_detached_under_lock (with_journal io) a pane args agent v ob (s, l) = ((outcome, ob'), s', l')" and "am_detach a"
  shows "\<exists>reply inner. l' = l @ CallRead pane reply # inner \<and> (outcome = OSpawned \<longrightarrow> handed_over v inner)
           \<and> (case reply of Inr (Some f) \<Rightarrow> effect_block a pane args f outcome inner | _ \<Rightarrow> inner = [] \<and> is_idle outcome)"
proof -
  obtain r ob1 s1 l1 where run: "recheck_under_lock (with_journal io) a pane args agent ob (s, l) = ((r, ob1), s1, l1)"
    by (metis surj_pair)
  obtain reply where log: "case r of
           Inl outcome \<Rightarrow> l1 = l @ [CallRead pane reply] \<and> is_idle outcome
         | Inr f \<Rightarrow> reply = Inr (Some f) \<and> cleared_facts a args f agent
             \<and> (\<exists>v. l1 = l @ [CallRead pane reply, CallRepeat pane f v])"
    using recheck_log[OF run] by blast
  show ?thesis
  proof (cases r)
    case (Inl x)
    then have "l' = l @ CallRead pane reply # []" "is_idle outcome"
      using assms run log by (auto simp: spawn_detached_under_lock_def)
    then show ?thesis by (intro exI[of _ reply] exI[of _ "[]"]) (cases outcome; auto simp: effect_block_def split: sum.split option.split)
  next
    case (Inr f)
    obtain w where l1: "l1 = l @ [CallRead pane reply, CallRepeat pane f w]" and ok: "cleared_facts a args f agent"
      and reply: "reply = Inr (Some f)" using log Inr by auto
    let ?spec = "supervisor_of a pane args agent f v"
    obtain x s2 where x: "bi_spawn io ?spec s1 = (x, s2)" by (metis surj_pair)
    have out: "outcome = (case x of Inr _ \<Rightarrow> OSpawned | Inl msg \<Rightarrow> OError msg)" "l' = l1 @ [CallSpawn ?spec x]"
      using assms run Inr x by (auto simp: spawn_detached_under_lock_def call_logged_def split: sum.splits)
    have "effect_block a pane args f outcome (CallRepeat pane f w # [CallSpawn ?spec x])"
      unfolding effect_block_def using ok assms(2)
      by (intro disjI2 exI[of _ agent] exI[of _ w] exI[of _ "[]"] exI[of _ "[CallSpawn ?spec x]"]) (simp add: supervisor_of_def)
    moreover have "outcome = OSpawned \<longrightarrow> handed_over v (CallRepeat pane f w # [CallSpawn ?spec x])"
      using out(1) by (cases x) (auto simp: handed_over_def supervisor_of_def)
    ultimately show ?thesis using out(2) l1 reply
      by (intro exI[of _ reply] exI[of _ "CallRepeat pane f w # [CallSpawn ?spec x]"]) simp
  qed
qed

lemma act_locked_log:
  assumes "act_locked (with_journal io) a pane args agent v ob (s, l) = ((outcome, ob'), s', l')"
  shows "\<exists>blk. l' = l @ blk \<and> locked_block a pane args v outcome blk"
proof -
  let ?inner_ok = "\<lambda>reply inner. case reply of Inr (Some f) \<Rightarrow> effect_block a pane args f outcome inner
                     | _ \<Rightarrow> inner = [] \<and> is_idle outcome"
  have "\<exists>reply inner. l' = l @ CallRead pane reply # inner @ (if outcome = OSpawned then [] else [CallClear pane (lk_nonce v)])
          \<and> ?inner_ok reply inner \<and> (outcome = OSpawned \<longrightarrow> handed_over v inner)"
  proof (cases "am_detach a")
    case True
    obtain out ob1 s1 l1 where run: "spawn_detached_under_lock (with_journal io) a pane args agent v ob (s, l) = ((out, ob1), s1, l1)"
      by (metis surj_pair)
    have "out = outcome" "l' = (if outcome = OSpawned then l1 else l1 @ [CallClear pane (lk_nonce v)])"
      using assms True run by (auto simp: act_locked_def call_logged_def split: prod.splits if_splits)
    with spawn_detached_log[OF run True] show ?thesis by (auto simp del: split_paired_Ex split_paired_All)
  next
    case False
    obtain out ob1 s1 l1 where run: "act_under_lock (with_journal io) a pane args agent ob (s, l) = ((out, ob1), s1, l1)"
      by (metis surj_pair)
    have "out = outcome" "l' = l1 @ [CallClear pane (lk_nonce v)]"
      using assms False run by (auto simp: act_locked_def call_logged_def split: prod.splits)
    with act_under_lock_log[OF run] show ?thesis by auto
  qed
  then show ?thesis unfolding locked_block_def by blast
qed

text \<open>The part of a journal that starts at the lock.\<close>

definition lock_part :: "action_manifest \<Rightarrow> string \<Rightarrow> fire_args \<Rightarrow> act_outcome \<Rightarrow> broker_call list \<Rightarrow> bool" where
  "lock_part a pane args outcome part =
     (part = [] \<and> is_idle outcome
      \<or> (\<exists>reply. part = [CallAcquire pane (am_name a) reply] \<and> (\<forall>v. reply \<noteq> Inr (Acquired v)) \<and> is_idle outcome)
      \<or> (\<exists>v blk. part = CallAcquire pane (am_name a) (Inr (Acquired v)) # blk \<and> locked_block a pane args v outcome blk))"

lemma acquire_log:
  assumes "acquire_and_act (with_journal io) a pane args agent now ob (s, l) = ((outcome, ob'), s', l')"
  shows "\<exists>part. l' = l @ part \<and> lock_part a pane args outcome part"
proof -
  let ?expiry = "sat_add (sat_add now (if am_detach a then am_detach_timeout_ms a else am_timeout_ms a)) SLACK_MS"
  obtain reply s1 where r: "bi_acquire io pane now ?expiry (am_name a) s = (reply, s1)" by (metis surj_pair)
  let ?c = "CallAcquire pane (am_name a) reply"
  show ?thesis
  proof (cases "\<exists>v. reply = Inr (Acquired v)")
    case True
    then obtain v where v: "reply = Inr (Acquired v)" by blast
    then have "act_locked (with_journal io) a pane args agent v ob (s1, l @ [?c]) = ((outcome, ob'), s', l')"
      using assms r by (simp add: acquire_and_act_def call_logged_def)
    from act_locked_log[OF this] v show ?thesis by (auto simp: lock_part_def)
  next
    case False
    then have "l' = l @ [?c] \<and> is_idle outcome" using assms r
      by (auto simp: acquire_and_act_def call_logged_def Let_def split: sum.splits acquire.splits lock_error.splits)
    with False show ?thesis by (auto simp: lock_part_def)
  qed
qed

lemma fresh_facts_log:
  assumes "fresh_facts (with_journal io) a pane force now f ob (s, l) = ((r, ob'), s', l')"
  shows "\<exists>looks. l' = l @ looks \<and> list_all (is_look pane) looks \<and> (case r of Inl outcome \<Rightarrow> is_idle outcome | Inr _ \<Rightarrow> True)"
  using assms by (auto simp: fresh_facts_def call_logged_def split: if_splits prod.splits sum.splits option.splits)

text \<open>An applicable agent on the facts of the first read.\<close>

lemma act_facts_log:
  assumes "(case fresh_facts (with_journal io) a pane (fa_force args) now f ob (s, l) of
              ((Inl outcome, ob), s3) \<Rightarrow> ((outcome, ob), s3)
            | ((Inr g, ob), s3) \<Rightarrow>
                (case gate_refusal a g agent (fa_force args) of
                   Some r \<Rightarrow> ((ORefused r, ob), s3)
                 | None \<Rightarrow> acquire_and_act (with_journal io) a pane args agent now ob s3)) = ((outcome, ob'), s', l')"
  shows "\<exists>looks part. l' = l @ looks @ part \<and> list_all (is_look pane) looks \<and> lock_part a pane args outcome part"
proof -
  obtain r ob1 s1 l1 where run: "fresh_facts (with_journal io) a pane (fa_force args) now f ob (s, l) = ((r, ob1), s1, l1)"
    by (metis surj_pair)
  obtain looks where looks: "l1 = l @ looks" "list_all (is_look pane) looks"
    "case r of Inl outcome \<Rightarrow> is_idle outcome | Inr _ \<Rightarrow> True" using fresh_facts_log[OF run] by blast
  show ?thesis
  proof (cases "\<exists>g. r = Inr g \<and> gate_refusal a g agent (fa_force args) = None")
    case True
    then have "acquire_and_act (with_journal io) a pane args agent now ob1 (s1, l1) = ((outcome, ob'), s', l')"
      using assms run by auto
    from acquire_log[OF this] looks show ?thesis by auto
  next
    case False
    then have "l' = l1 \<and> is_idle outcome" using assms run looks(3) by (auto split: sum.splits option.splits)
    with looks show ?thesis by (intro exI[of _ looks] exI[of _ "[]"]) (simp add: lock_part_def)
  qed
qed

lemma act_sequence_log:
  assumes "act_sequence (with_journal io) a pane args (s, []) = ((outcome, ob'), s', log)"
  shows "(if payload_refusal a args = None then \<exists>looks part. log = looks @ part \<and> list_all (is_look pane) looks
            \<and> lock_part a pane args outcome part else log = [] \<and> is_idle outcome)"
proof (cases "payload_refusal a args")
  case (Some r)
  then show ?thesis using assms by (auto simp: act_sequence_def)
next
  case None
  obtain now s1 where t: "bi_now io s = (now, s1)" by (metis surj_pair)
  obtain reply s2 where r: "bi_read io pane s1 = (reply, s2)" by (metis surj_pair)
  let ?pre = "[CallNow now, CallRead pane reply]"
  have pre: "list_all (is_look pane) ?pre" by simp
  show ?thesis
  proof (cases "\<exists>f agent. reply = Inr (Some f) \<and> option_filter (applies_to a) (pf_agent f) = Some agent")
    case True
    then obtain f agent where f: "reply = Inr (Some f)" "option_filter (applies_to a) (pf_agent f) = Some agent" by blast
    have "\<exists>looks part. log = ?pre @ looks @ part \<and> list_all (is_look pane) looks \<and> lock_part a pane args outcome part"
      using act_facts_log[where now = now and f = f and s = s2 and l = ?pre and l' = log] assms None t r f
      by (simp add: act_sequence_def call_logged_def)
    then show ?thesis using None pre by (metis append_assoc list_all_append)
  next
    case False
    then have "log = ?pre @ [] \<and> is_idle outcome" using assms None t r
      by (auto simp: act_sequence_def call_logged_def split: sum.splits option.splits)
    with None pre show ?thesis unfolding lock_part_def by metis
  qed
qed

text \<open>C12 (act_guarded). Whatever the pane, the agent's API, the hook and the process table answer, an act touches
  nothing before it holds the lock of the pane; under the lock it reads the pane again and acts only when the action
  applies to the agent found there, the gate is open on those facts and the episode and request the caller named are
  still the current ones; it then makes at most the one call the manifest names for that agent; it never claims
  success without such a call; and the lock is released by its nonce as the last call, unless a supervisor that
  carries the nonce was spawned. A refused payload makes no call at all.\<close>
theorem act_guarded: "case act_journal io a pane args s of (outcome, log) \<Rightarrow> guarded_journal a pane args outcome log"
proof -
  obtain outcome ob s' log where run: "act_sequence (with_journal io) a pane args (s, []) = ((outcome, ob), s', log)"
    by (metis surj_pair)
  have "guarded_journal a pane args outcome log"
    using act_sequence_log[OF run] unfolding guarded_journal_def lock_part_def
    by (cases "payload_refusal a args") (fastforce intro: exI[of _ "[]"])+
  then show ?thesis by (simp add: act_journal_def run)
qed

section \<open>The listing and the act agree\<close>












section \<open>The log is one record per line\<close>

definition printable :: "string \<Rightarrow> bool" where
  "printable s = list_all (\<lambda>c. 32 \<le> byte c) s"

lemma printable_simps [simp]:
  "printable []" "printable (c # s) = (32 \<le> byte c \<and> printable s)" "printable (s @ t) = (printable s \<and> printable t)"
  by (simp_all add: printable_def)











end
