(* ===== verification/Spec2Isabelle.thy ===== *)
theory Spec2Isabelle
  imports Prelude Rust_Text Core_Types Program_Types Program_Parse Program_Store Store_Invariant
    Store_Runs Store_Properties Store_Selection Store_Results Store_Episodes Stamp Fold Fold_Properties
    Persistence Projection Persistence_Codecs Persistence_Properties Render Render_Properties Rows
    Action Gate Agent_Manifest Engine Engine_Properties Tmux_Format Tmux_Expander Pane_Io Pane_Writes
    Pane_Attention Pane_Server Pane_Guarantees Pane_Reads Pane_Exec Pane_Properties Pane_Effects Pane_Lanes
    Control_Decoder Control_Properties Terminal_Scanner Scanner_Properties Collector
    Collector_Invariant Collector_History Collector_Order Collector_Properties Action_Lock Lock_Protocol
    Process_Facts Identity Identity_Properties Program_Runtime Program_Batch Runtime_Invariant Runtime_Steps Runtime_Events Runtime_Runs Runtime_Properties Publication Stamp_Properties Publication_Properties
    Json_Text Metadata_Binding Action_Broker Action_Surface Broker_Tmux Broker_Properties
begin

text \<open>
  tmux-agents watches AI coding agents in tmux panes. Evidence about an agent arrives on three
  channels: hooks the agent calls, the text and title of its pane, and reports it prints in the
  OSC 7501 protocol. The core folds the evidence into one verdict per pane, stores it as options of the
  pane, and every surface (bar, picker, notifications, actions) reads the options. All durable state
  lives in tmux; processes come and go, several write at once, and each write is one conditional
  command group that tmux evaluates. This library models that core and proves what makes it correct.

  The theories, each with the files it models under \<^verbatim>\<open>src/crates\<close>:

  \<^item> \<open>Prelude\<close>, \<open>Rust_Text\<close>: machine integers at their width (saturating and checked operations written
    out on natural numbers), bytes and UTF-8, splitting and decimal numbers, the contract of a textual
    codec, the contract of a machine with a bounded counter.
  \<^item> \<open>Core_Types\<close> (\<^verbatim>\<open>tma-core\<close>: \<^verbatim>\<open>state.rs\<close>, \<^verbatim>\<open>evidence.rs\<close>, \<^verbatim>\<open>snapshot.rs\<close>, \<^verbatim>\<open>seen.rs\<close>): states,
    provenance, claims, process identity.
  \<^item> \<open>Program_Types\<close>, \<open>Program_Parse\<close> (\<^verbatim>\<open>program_status/mod.rs\<close>, \<^verbatim>\<open>parse.rs\<close>): the report protocol and
    its frame parser. Every accepted frame is within the limits; a printed report parses back.
  \<^item> \<open>Program_Store\<close> (\<^verbatim>\<open>program_status/store.rs\<close>, \<^verbatim>\<open>project.rs\<close>): the store of records, with its lifecycle,
    capacity, recovery bookkeeping, selection, presentation and acknowledgement. \<open>Store_Invariant\<close> and
    \<open>Store_Runs\<close> hold its invariant over arbitrary runs; \<open>Store_Properties\<close> the refinement of an
    abstract log, the bounds and the absence of panics; \<open>Store_Selection\<close>, \<open>Store_Results\<close> and
    \<open>Store_Episodes\<close> what a selection shows, that a result is presented once, and episode isolation.
  \<^item> \<open>Stamp\<close> (\<^verbatim>\<open>stamp.rs\<close>): the option tuple and its decoding, legacy stamps and torn reads included.
  \<^item> \<open>Fold\<close>, \<open>Fold_Properties\<close> (\<^verbatim>\<open>fold.rs\<close>, \<^verbatim>\<open>verdict.rs\<close>): the verdict; a live hook claim is not
    overturned by the screen within its rules, the dwell ends, a replaced process is forgotten.
  \<^item> \<open>Persistence\<close>, \<open>Projection\<close> (\<^verbatim>\<open>persistence.rs\<close>): durable program claims, their codecs, the typed
    projection of a pane and the lease schedule. \<open>Persistence_Codecs\<close> interprets the codec contract for
    each text; \<open>Persistence_Properties\<close> says when a pane is live and that private markers fail closed.
  \<^item> \<open>Render\<close>, \<open>Render_Properties\<close> (\<^verbatim>\<open>render.rs\<close>): the command chains; what is written is read back.
  \<^item> \<open>Rows\<close> (\<^verbatim>\<open>row.rs\<close>, \<^verbatim>\<open>edge.rs\<close>): rows and the edges between two observations.
  \<^item> \<open>Action\<close>, \<open>Gate\<close> (\<^verbatim>\<open>action.rs\<close>, \<^verbatim>\<open>action/schema.rs\<close>, \<^verbatim>\<open>action/gate.rs\<close>): action manifests and the
    gate that decides whether an action may fire.
  \<^item> \<open>Agent_Manifest\<close>, \<open>Engine\<close>, \<open>Engine_Properties\<close> (\<^verbatim>\<open>manifest.rs\<close>, \<^verbatim>\<open>engine.rs\<close>): agent manifests and
    the screen-rule engine; one claim per state, chosen by priority and then by order.
  \<^item> \<open>Tmux_Format\<close>, \<open>Tmux_Expander\<close>: the part of tmux's format language that the program writes, as an
    abstract syntax with a printer and a meaning, the contract of an expander for it, and an executable
    expander that satisfies the contract.
  \<^item> \<open>Pane_Io\<close>, \<open>Pane_Writes\<close>, \<open>Pane_Attention\<close> (\<^verbatim>\<open>tma-tmux/src/persistence.rs\<close>, the option lists of
    \<^verbatim>\<open>tma-tmux/src/tmux/read.rs\<close>): the guarded pane transaction and every writer over it: screen state,
    program publication, metadata, acknowledgement, notification claims and markers, removal, the
    collector lease.
  \<^item> \<open>Pane_Server\<close> is the contract of a tmux server shared with other clients, as rely and guarantee over
    the pane's options; \<open>Pane_Guarantees\<close> and \<open>Pane_Reads\<close> derive what a transaction guarantees,
    \<open>Pane_Exec\<close> satisfies the contract by an executable server. \<open>Pane_Properties\<close>, \<open>Pane_Effects\<close> and
    \<open>Pane_Lanes\<close> prove the properties: a won transaction is one atomic step, the screen writer never
    overwrites a live program, a notification is claimed once, an acknowledgement never consumes a newer
    result, metadata never touches state, and the collector lease is not taken from a live holder.

  How the model reads. A Rust \<open>String\<close> is a \<^typ>\<open>string\<close> of its UTF-8 bytes. A struct is a record, an
  enum a datatype with the source's constructors, \<open>Result\<close> a sum whose left side is the error, a
  panic \<^const>\<open>None\<close>. Mutable state is passed explicitly; a function that talks to tmux maps the
  server's state to an answer and the next state, and other clients may act between any two calls.
  Recursion is structural or has a termination proof; no definition uses fuel. Libraries are
  parameters: TOML decoding, regular expressions, base64, the clock, random nonces and tmux itself. The
  tmux contract is documented behaviour: how a format expands, that an \<open>if-shell\<close> group without
  option hooks runs without yielding, and that a read of several formats is one expansion.

  Not modelled: the rest of the tmux client, which runs processes and parses their listings, and
  \<open>probe_capability\<close>, which relies on how tmux fails; the runtime and the daemon around the core
  (sockets, threads, configuration files, the action broker); transcripts and telemetry readers (JSON
  and SQLite); the user interface and the command line. Texts of error messages are abbreviated to the
  data they carry.
\<close>

end
